(* ===== verification/Forge_Prelude.thy ===== *)
theory Forge_Prelude
  imports Main "HOL-Library.Char_ord" "HOL-Library.List_Lexorder"
begin

text \<open>
  What every component shares: the exceptions of the runtime as a datatype, computations that
  may throw as sums, insertion-ordered maps (the JavaScript \<open>Map\<close> and plain objects), and the
  generic lemmas about them. The collection \<open>res_simps\<close> reduces a computation that is known to
  have returned to the results of its parts.
\<close>

named_theorems res_simps \<open>inversion of computations that may throw\<close>

section \<open>Exceptions and computations that may throw\<close>

text \<open>
  A problem field names a path and a code (the human-readable message is not modelled). The
  class \<open>ForgeError\<close> of \<open>packages/runtime/src/errors.ts\<close> carries a code, and optionally problem
  fields, a constraint name, a budget, a capability denial and a declared status.
\<close>

record problem_field =
  pf_path :: string
  pf_code :: string

record capability_denial =
  cd_capability :: string
  cd_unit :: "string option"
  cd_entryPoint :: "string option"

record forge_error =
  fe_code :: string
  fe_fields :: "problem_field list option"
  fe_constraint :: "string option"
  fe_budget :: "(string \<times> int) list option"
  fe_denial :: "capability_denial option"
  fe_declaredStatus :: "nat option"

text \<open>
  What the source throws: a \<open>CodecError\<close> with its code, a \<open>ForgeError\<close>, or any other JavaScript
  error (a defect for the effect system), with the text that identifies it.
\<close>

datatype exn = CodecError string | Forge forge_error | JsError string

type_synonym 'a res = "exn + 'a"

text \<open>The three shapes of \<open>err(code, detail, extra)\<close> in errors.ts.\<close>

definition forge_err :: "string \<Rightarrow> forge_error" where
  "forge_err c = \<lparr>fe_code = c, fe_fields = None, fe_constraint = None, fe_budget = None,
     fe_denial = None, fe_declaredStatus = None\<rparr>"

definition err :: "string \<Rightarrow> exn" where
  "err c = Forge (forge_err c)"

definition err_fields :: "string \<Rightarrow> (string \<times> string) list \<Rightarrow> exn" where
  "err_fields c ps = Forge ((forge_err c)\<lparr>fe_fields :=
     Some (map (\<lambda>(p, k). \<lparr>pf_path = p, pf_code = k\<rparr>) ps)\<rparr>)"

definition err_constraint :: "string \<Rightarrow> string \<Rightarrow> exn" where
  "err_constraint c k = Forge ((forge_err c)\<lparr>fe_constraint := Some k\<rparr>)"

fun exn_code :: "exn \<Rightarrow> string" where
  "exn_code (CodecError c) = c"
| "exn_code (Forge e) = fe_code e"
| "exn_code (JsError m) = ''''"

lemma exn_code_err [simp]: "exn_code (err c) = c"
  by (simp add: err_def forge_err_def)

lemma exn_code_err_fields [simp]: "exn_code (err_fields c ps) = c"
  by (simp add: err_fields_def forge_err_def)

lemma exn_code_err_constraint [simp]: "exn_code (err_constraint c k) = c"
  by (simp add: err_constraint_def forge_err_def)

lemma err_eq_iff [simp]: "err c = err d \<longleftrightarrow> c = d"
  by (auto simp: err_def forge_err_def)

fun bind_res :: "'e + 'a \<Rightarrow> ('a \<Rightarrow> 'e + 'b) \<Rightarrow> 'e + 'b" where
  "bind_res (Inl e) f = Inl e"
| "bind_res (Inr x) f = f x"

definition guard_res :: "bool \<Rightarrow> 'e \<Rightarrow> 'e + unit" where
  "guard_res b e = (if b then Inr () else Inl e)"

fun map_res :: "('a \<Rightarrow> 'e + 'b) \<Rightarrow> 'a list \<Rightarrow> 'e + 'b list" where
  "map_res f [] = Inr []"
| "map_res f (x # xs) =
     bind_res (f x) (\<lambda>y. bind_res (map_res f xs) (\<lambda>ys. Inr (y # ys)))"

lemma bind_res_cong [fundef_cong]:
  "m = m' \<Longrightarrow> (\<And>x. m' = Inr x \<Longrightarrow> f x = g x) \<Longrightarrow> bind_res m f = bind_res m' g"
  by (cases m') auto

lemma map_res_cong [fundef_cong]:
  "xs = ys \<Longrightarrow> (\<And>x. x \<in> set ys \<Longrightarrow> f x = g x) \<Longrightarrow> map_res f xs = map_res g ys"
  by (induction xs arbitrary: ys) auto

lemma bind_res_Inr_iff [res_simps]:
  "bind_res m f = Inr y \<longleftrightarrow> (\<exists>x. m = Inr x \<and> f x = Inr y)"
  by (cases m) auto

lemma bind_res_Inl_iff:
  "bind_res m f = Inl e \<longleftrightarrow> m = Inl e \<or> (\<exists>x. m = Inr x \<and> f x = Inl e)"
  by (cases m) auto

lemma guard_res_Inr_iff [res_simps]: "guard_res b e = Inr u \<longleftrightarrow> b"
  by (auto simp: guard_res_def)

lemma guard_res_Inl_iff [res_simps]: "guard_res b e = Inl e' \<longleftrightarrow> \<not> b \<and> e' = e"
  by (auto simp: guard_res_def)

lemma guard_res_simps [simp]:
  "guard_res True e = Inr ()" "guard_res False e = Inl e"
  by (simp_all add: guard_res_def)

lemma map_res_Inr_list_all2:
  "map_res f xs = Inr ys \<longleftrightarrow> list_all2 (\<lambda>x y. f x = Inr y) xs ys"
proof (induction xs arbitrary: ys)
  case Nil
  then show ?case by auto
next
  case (Cons x xs)
  then show ?case by (cases ys) (auto simp: bind_res_Inr_iff)
qed

lemma map_res_length: "map_res f xs = Inr ys \<Longrightarrow> length ys = length xs"
  by (auto simp: map_res_Inr_list_all2 dest: list_all2_lengthD)

lemma map_res_memD: "map_res f xs = Inr ys \<Longrightarrow> y \<in> set ys \<Longrightarrow> \<exists>x\<in>set xs. f x = Inr y"
  by (induction xs arbitrary: ys) (auto simp: bind_res_Inr_iff)

section \<open>Insertion-ordered maps\<close>

text \<open>
  A JavaScript \<open>Map\<close> (and a plain object whose keys are not array indices) iterates in
  insertion order; writing an existing key keeps its place. Association lists with these three
  operations are such maps; \<open>map_of\<close> is their lookup.
\<close>

fun mput :: "'k \<Rightarrow> 'v \<Rightarrow> ('k \<times> 'v) list \<Rightarrow> ('k \<times> 'v) list" where
  "mput k v [] = [(k, v)]"
| "mput k v ((a, b) # m) = (if a = k then (k, v) # m else (a, b) # mput k v m)"

definition mdel :: "'k \<Rightarrow> ('k \<times> 'v) list \<Rightarrow> ('k \<times> 'v) list" where
  "mdel k m = filter (\<lambda>(a, b). a \<noteq> k) m"

definition mhas :: "'k \<Rightarrow> ('k \<times> 'v) list \<Rightarrow> bool" where
  "mhas k m = (\<exists>p\<in>set m. fst p = k)"

lemma map_of_mput [simp]: "map_of (mput k v m) = (map_of m)(k \<mapsto> v)"
  by (induction k v m rule: mput.induct) (auto simp: fun_eq_iff)

lemma map_of_mdel [simp]: "map_of (mdel k m) = (map_of m)(k := None)"
  by (induction m) (auto simp: mdel_def fun_eq_iff)

lemma mhas_iff: "mhas k m \<longleftrightarrow> map_of m k \<noteq> None"
  by (force simp: mhas_def map_of_eq_None_iff)

lemma keys_mput [simp]: "fst ` set (mput k v m) = insert k (fst ` set m)"
  by (induction k v m rule: mput.induct) auto

lemma distinct_mput [simp]: "distinct (map fst m) \<Longrightarrow> distinct (map fst (mput k v m))"
  by (induction k v m rule: mput.induct) (auto simp: image_iff dest: arg_cong[where f = "\<lambda>x. x"])

lemma distinct_mdel [simp]: "distinct (map fst m) \<Longrightarrow> distinct (map fst (mdel k m))"
  by (simp add: mdel_def distinct_map_filter)

lemma set_mdel: "set (mdel k m) = {p \<in> set m. fst p \<noteq> k}"
  by (auto simp: mdel_def)

lemma mput_mput_same [simp]: "mput k v (mput k w m) = mput k v m"
  by (induction k v m rule: mput.induct) auto

lemma mput_idle: "map_of m k = Some v \<Longrightarrow> mput k v m = m"
  by (induction k v m rule: mput.induct) (auto split: if_splits)

lemma mput_snoc: "map_of m k = None \<Longrightarrow> mput k v m = m @ [(k, v)]"
  by (induction k v m rule: mput.induct) (auto split: if_splits)

text \<open>The values of a map with distinct keys are exactly what lookup finds.\<close>

lemma map_of_memI: "distinct (map fst m) \<Longrightarrow> (k, v) \<in> set m \<Longrightarrow> map_of m k = Some v"
  by simp

lemma set_mput_distinct:
  "distinct (map fst m) \<Longrightarrow> set (mput k v m) = {p \<in> set m. fst p \<noteq> k} \<union> {(k, v)}"
  by (induction k v m rule: mput.induct) (force simp: image_iff)+

section \<open>Lists\<close>

lemma find_SomeD: "List.find P xs = Some x \<Longrightarrow> x \<in> set xs \<and> P x"
  by (induction xs) (auto split: if_splits)

lemma find_NoneD: "List.find P xs = None \<Longrightarrow> x \<in> set xs \<Longrightarrow> \<not> P x"
  by (induction xs) (auto split: if_splits)

text \<open>\<open>array.findIndex\<close>: the first index whose element satisfies the predicate.\<close>

fun find_index :: "('a \<Rightarrow> bool) \<Rightarrow> 'a list \<Rightarrow> nat option" where
  "find_index P [] = None"
| "find_index P (x # xs) = (if P x then Some 0 else map_option Suc (find_index P xs))"

lemma find_index_Some:
  "find_index P xs = Some i \<Longrightarrow> i < length xs \<and> P (xs ! i) \<and> (\<forall>j<i. \<not> P (xs ! j))"
proof (induction xs arbitrary: i)
  case Nil
  then show ?case by simp
next
  case (Cons x xs)
  show ?case
  proof (cases "P x")
    case True
    with Cons.prems show ?thesis by simp
  next
    case False
    with Cons.prems obtain k where k: "find_index P xs = Some k" "i = Suc k"
      by auto
    from Cons.IH [OF k(1)] k(2) False show ?thesis
      by (auto simp: less_Suc_eq_0_disj)
  qed
qed

lemma find_index_None: "find_index P xs = None \<longleftrightarrow> (\<forall>x\<in>set xs. \<not> P x)"
  by (induction xs) auto

text \<open>\<open>new Set(xs)\<close> spread back into an array: the first occurrence of each element.\<close>

fun dedup :: "'a list \<Rightarrow> 'a list" where
  "dedup [] = []"
| "dedup (x # xs) = x # filter (\<lambda>y. y \<noteq> x) (dedup xs)"

lemma set_dedup [simp]: "set (dedup xs) = set xs"
  by (induction xs) auto

lemma distinct_dedup [simp]: "distinct (dedup xs)"
  by (induction xs) auto

lemma dedup_distinct: "distinct xs \<Longrightarrow> dedup xs = xs"
  by (induction xs) (auto simp: filter_id_conv)

end
