(* ===== verification/Js_Text.thy ===== *)
theory Js_Text
  imports Forge_Prelude
begin

text \<open>
  The part of JavaScript's string and number-text library the runtime uses. A string is a list of
  \<open>char\<close>, one per UTF-16 code unit, so the model speaks about text of code points 0..255
  (Latin-1); on that range NFC normalisation is the identity and every text is well formed.
  Digits, padding, splitting, trimming and case mapping come with the lemmas the codecs need:
  numerals read back what they print, and numerals of one length compare as numbers.
\<close>

section \<open>Characters\<close>

abbreviation cp :: "char \<Rightarrow> nat" where
  "cp c \<equiv> of_char c"

definition is_digit :: "char \<Rightarrow> bool" where
  "is_digit c \<longleftrightarrow> 48 \<le> cp c \<and> cp c \<le> 57"

definition is_upper :: "char \<Rightarrow> bool" where
  "is_upper c \<longleftrightarrow> 65 \<le> cp c \<and> cp c \<le> 90"

definition is_lower :: "char \<Rightarrow> bool" where
  "is_lower c \<longleftrightarrow> 97 \<le> cp c \<and> cp c \<le> 122"

text \<open>\<open>[A-Za-z0-9_-]\<close>, the alphabet of identifiers.\<close>

definition is_idchar :: "char \<Rightarrow> bool" where
  "is_idchar c \<longleftrightarrow> is_upper c \<or> is_lower c \<or> is_digit c \<or> c = CHR ''_'' \<or> c = CHR ''-''"

text \<open>\<open>\s\<close> and \<open>trim\<close>: tab, line feed, vertical tab, form feed, carriage return, space, no-break space.\<close>

definition is_space :: "char \<Rightarrow> bool" where
  "is_space c \<longleftrightarrow> (9 \<le> cp c \<and> cp c \<le> 13) \<or> cp c = 32 \<or> cp c = 160"

definition js_trim :: "string \<Rightarrow> string" where
  "js_trim s = rev (dropWhile is_space (rev (dropWhile is_space s)))"

text \<open>
  Case mapping on Latin-1. Upper-casing the sharp s gives two letters; the images of the micro
  sign (181) and of y with diaeresis (255) lie outside the range, and the two are left alone.
\<close>

definition upcase_char :: "char \<Rightarrow> string" where
  "upcase_char c =
     (if is_lower c \<or> (224 \<le> cp c \<and> cp c \<le> 254 \<and> cp c \<noteq> 247) then [char_of (cp c - 32)]
      else if cp c = 223 then ''SS'' else [c])"

definition downcase_char :: "char \<Rightarrow> char" where
  "downcase_char c =
     (if is_upper c \<or> (192 \<le> cp c \<and> cp c \<le> 222 \<and> cp c \<noteq> 215) then char_of (cp c + 32) else c)"

definition js_upper :: "string \<Rightarrow> string" where
  "js_upper s = concat (map upcase_char s)"

definition js_lower :: "string \<Rightarrow> string" where
  "js_lower s = map downcase_char s"

definition pad_start :: "nat \<Rightarrow> char \<Rightarrow> string \<Rightarrow> string" where
  "pad_start n c s = replicate (n - length s) c @ s"

definition pad_end :: "nat \<Rightarrow> char \<Rightarrow> string \<Rightarrow> string" where
  "pad_end n c s = s @ replicate (n - length s) c"

text \<open>\<open>s.split(c)\<close> for a one-character separator, and \<open>xs.join(c)\<close>.\<close>

fun split_on :: "char \<Rightarrow> string \<Rightarrow> string list" where
  "split_on c [] = [[]]"
| "split_on c (x # xs) =
     (if x = c then [] # split_on c xs
      else case split_on c xs of [] \<Rightarrow> [[x]] | w # ws \<Rightarrow> (x # w) # ws)"

fun join_with :: "string \<Rightarrow> string list \<Rightarrow> string" where
  "join_with sep [] = []"
| "join_with sep [w] = w"
| "join_with sep (w # v # ws) = w @ sep @ join_with sep (v # ws)"

section \<open>UTF-8 and byte order\<close>

text \<open>\<open>TextEncoder\<close> on code points below 256: one byte below 128, else two.\<close>

definition utf8_char :: "char \<Rightarrow> nat list" where
  "utf8_char c = (if cp c < 128 then [cp c] else [192 + cp c div 64, 128 + cp c mod 64])"

definition utf8 :: "string \<Rightarrow> nat list" where
  "utf8 s = concat (map utf8_char s)"

lemma utf8_simps [simp]: "utf8 [] = []" "utf8 (c # s) = utf8_char c @ utf8 s"
  by (simp_all add: utf8_def)

lemma utf8_char_nonempty [simp]: "utf8_char c \<noteq> []"
  by (simp add: utf8_char_def)

lemma cp_less_256 [simp]: "cp c < 256"
  using of_char_mod_256 [of c] by (metis mod_less_divisor zero_less_numeral)

lemma cp_eq_iff: "cp c = cp d \<longleftrightarrow> c = d"
  by simp

section \<open>Numerals in a base up to sixteen\<close>

definition dig :: "nat \<Rightarrow> char" where
  "dig d = (if d < 10 then char_of (48 + d) else char_of (87 + d))"

definition dval :: "char \<Rightarrow> nat" where
  "dval c = (if is_digit c then cp c - 48 else cp c - 87)"

function show_base :: "nat \<Rightarrow> nat \<Rightarrow> string" where
  "show_base b n = (if n < b \<or> b < 2 then [dig n] else show_base b (n div b) @ [dig (n mod b)])"
  by pat_completeness auto
termination
  by (relation "measure (\<lambda>(b, n). n)") auto

declare show_base.simps [simp del]

abbreviation show_nat :: "nat \<Rightarrow> string" where
  "show_nat \<equiv> show_base 10"

definition show_int :: "int \<Rightarrow> string" where
  "show_int i = (if i < 0 then CHR ''-'' # show_nat (nat (- i)) else show_nat (nat i))"

fun read_base :: "nat \<Rightarrow> string \<Rightarrow> nat" where
  "read_base b [] = 0"
| "read_base b (c # cs) = dval c * b ^ length cs + read_base b cs"

abbreviation read_nat :: "string \<Rightarrow> nat" where
  "read_nat \<equiv> read_base 10"

definition digit_of :: "nat \<Rightarrow> char \<Rightarrow> bool" where
  "digit_of b c \<longleftrightarrow> dval c < b \<and> dig (dval c) = c"

lemma cp_char_of [simp]: "n < 256 \<Longrightarrow> cp (char_of n) = n"
  by simp

lemma dval_dig [simp]: "d < 16 \<Longrightarrow> dval (dig d) = d"
  by (simp add: dval_def dig_def is_digit_def)

lemma digit_of_dig [simp]: "d < b \<Longrightarrow> b \<le> 16 \<Longrightarrow> digit_of b (dig d)"
  by (simp add: digit_of_def)

lemma is_digit_dig: "d < 10 \<Longrightarrow> is_digit (dig d)"
  by (simp add: is_digit_def dig_def)

lemma digit_of_10: "digit_of 10 c \<longleftrightarrow> is_digit c"
proof
  assume "digit_of 10 c"
  then have "dval c < 10" "dig (dval c) = c" by (simp_all add: digit_of_def)
  then show "is_digit c" using is_digit_dig [of "dval c"] by simp
next
  assume "is_digit c"
  then show "digit_of 10 c"
    by (auto simp: digit_of_def dval_def dig_def is_digit_def)
qed

lemma read_base_snoc: "read_base b (s @ [c]) = read_base b s * b + dval c"
  by (induction s) (auto simp: algebra_simps)

lemma read_base_append: "read_base b (s @ t) = read_base b s * b ^ length t + read_base b t"
  by (induction s) (auto simp: algebra_simps power_add)

lemma read_base_zeros [simp]: "read_base b (replicate n (CHR ''0'') @ s) = read_base b s"
  by (induction n) (auto simp: dval_def is_digit_def)

lemma read_base_all_zeros [simp]: "read_base b (replicate n (CHR ''0'')) = 0"
  using read_base_zeros [of b n "[]"] by simp

lemma read_show: "2 \<le> b \<Longrightarrow> b \<le> 16 \<Longrightarrow> read_base b (show_base b n) = n"
proof (induction b n rule: show_base.induct)
  case (1 b n)
  show ?case
  proof (cases "n < b")
    case True
    with "1.prems" show ?thesis by (simp add: show_base.simps [of b n])
  next
    case False
    with "1.prems" have "read_base b (show_base b (n div b)) = n div b"
      using "1.IH" by simp
    moreover have "n mod b < 16" using "1.prems" mod_less_divisor [of b n] by linarith
    ultimately show ?thesis using False "1.prems"
      by (simp add: show_base.simps [of b n] read_base_snoc)
  qed
qed

lemma show_base_digits: "2 \<le> b \<Longrightarrow> b \<le> 16 \<Longrightarrow> c \<in> set (show_base b n) \<Longrightarrow> digit_of b c"
proof (induction b n rule: show_base.induct)
  case (1 b n)
  show ?case
  proof (cases "n < b")
    case True
    with "1.prems" show ?thesis by (simp add: show_base.simps [of b n])
  next
    case False
    with "1.prems" "1.IH" show ?thesis
      by (auto simp: show_base.simps [of b n])
  qed
qed

lemma show_base_nonempty [simp]: "show_base b n \<noteq> []"
  by (subst show_base.simps) simp

lemma show_base_length: "2 \<le> b \<Longrightarrow> n < b ^ k \<Longrightarrow> 0 < k \<Longrightarrow> length (show_base b n) \<le> k"
proof (induction b n arbitrary: k rule: show_base.induct)
  case (1 b n)
  show ?case
  proof (cases "n < b")
    case True
    with "1.prems" show ?thesis by (simp add: show_base.simps [of b n])
  next
    case False
    then obtain k' where k': "k = Suc k'" "0 < k'"
      using "1.prems" by (cases k; cases "k - 1") auto
    have "n div b < b ^ k'"
      using "1.prems" k' by (simp add: less_mult_imp_div_less mult.commute)
    then have "length (show_base b (n div b)) \<le> k'"
      using "1.IH" False "1.prems" k' by simp
    with False "1.prems" k' show ?thesis by (simp add: show_base.simps [of b n])
  qed
qed

lemma read_base_bound: "(\<forall>c\<in>set s. digit_of b c) \<Longrightarrow> read_base b s < b ^ length s"
proof (induction s)
  case Nil
  then show ?case by simp
next
  case (Cons c s)
  then have "dval c + 1 \<le> b" and lt: "read_base b s < b ^ length s"
    by (auto simp: digit_of_def)
  then have "(dval c + 1) * b ^ length s \<le> b * b ^ length s" by (intro mult_right_mono) simp_all
  with lt show ?case by (simp add: algebra_simps)
qed

lemma dig_less_iff: "d < 16 \<Longrightarrow> e < 16 \<Longrightarrow> dig d < dig e \<longleftrightarrow> d < e"
  by (auto simp: dig_def less_char_def)

lemma digit_of_less_iff:
  "digit_of b c \<Longrightarrow> digit_of b d \<Longrightarrow> b \<le> 16 \<Longrightarrow> c < d \<longleftrightarrow> dval c < dval d"
  unfolding digit_of_def by (metis dig_less_iff order_less_le_trans)

text \<open>Numerals of one length compare, as strings, the way their values compare.\<close>

lemma numeral_order:
  assumes "length s = length t" and "b \<le> 16"
    and "\<forall>c\<in>set s. digit_of b c" and "\<forall>c\<in>set t. digit_of b c"
  shows "s < t \<longleftrightarrow> read_base b s < read_base b t"
  using assms
proof (induction s t rule: list_induct2)
  case Nil
  then show ?case by simp
next
  case (Cons c s d t)
  note bs = read_base_bound [of s b] read_base_bound [of t b]
  have dc: "digit_of b c" and dd: "digit_of b d" using Cons.prems by auto
  show ?case
  proof (cases "dval c = dval d")
    case True
    then have "c = d" using dc dd unfolding digit_of_def by metis
    with Cons show ?thesis by simp
  next
    case False
    then have ne: "c \<noteq> d" by auto
    have step: "u * p + x < v * p + y" if "u < v" "x < p" for u v x y p :: nat
    proof -
      have "Suc u * p \<le> v * p" using that(1) by (intro mult_right_mono) auto
      with that(2) show ?thesis by simp
    qed
    have "dval c * b ^ length t + read_base b s < dval d * b ^ length t + read_base b t
        \<longleftrightarrow> dval c < dval d"
      using False bs Cons.prems Cons.hyps step [of "dval c" "dval d"] step [of "dval d" "dval c"]
      by (metis linorder_neqE_nat list.set_intros(2) order_less_asym)
    with ne dc dd Cons.hyps Cons.prems(1) show ?thesis
      by (simp add: digit_of_less_iff)
  qed
qed

lemma pad_start_length [simp]: "length (pad_start n c s) = max n (length s)"
  by (simp add: pad_start_def)

lemma pad_end_length [simp]: "length (pad_end n c s) = max n (length s)"
  by (simp add: pad_end_def)

lemma read_pad_start [simp]: "read_base b (pad_start n (CHR ''0'') s) = read_base b s"
  by (simp add: pad_start_def)

lemma read_pad_end: "read_base b (pad_end n (CHR ''0'') s) = read_base b s * b ^ (n - length s)"
  by (simp add: pad_end_def read_base_append)

end
