(* ===== verification/Js_Value.thy ===== *)
theory Js_Value
  imports Js_Text
begin

text \<open>
  The values the runtime handles as \<open>unknown\<close>, \<open>Wire\<close> or \<open>StoredRecord\<close>. Numbers whose value
  is an integer are \<open>JInt\<close> (the code needs \<open>Number.isInteger\<close>); any other number, NaN and the
  infinities included, is \<open>JFloat\<close> with the text JavaScript prints for it. Plain objects are
  association lists in insertion order.
\<close>

datatype jsval =
    JUndef
  | JNull
  | JBool bool
  | JInt int
  | JFloat string
  | JStr string
  | JArr "jsval list"
  | JObj "(string \<times> jsval) list"

type_synonym obj = "(string \<times> jsval) list"

text \<open>\<open>record[field]\<close>: \<open>undefined\<close> when the object has no such key.\<close>

definition oget :: "obj \<Rightarrow> string \<Rightarrow> jsval" where
  "oget r f = (case map_of r f of None \<Rightarrow> JUndef | Some v \<Rightarrow> v)"

definition nullish :: "jsval \<Rightarrow> bool" where
  "nullish v \<longleftrightarrow> v = JNull \<or> v = JUndef"

text \<open>\<open>Boolean(v)\<close>.\<close>

fun truthy :: "jsval \<Rightarrow> bool" where
  "truthy JUndef = False"
| "truthy JNull = False"
| "truthy (JBool b) = b"
| "truthy (JInt i) = (i \<noteq> 0)"
| "truthy (JFloat t) = (t \<noteq> ''NaN'')"
| "truthy (JStr s) = (s \<noteq> [])"
| "truthy (JArr vs) = True"
| "truthy (JObj kvs) = True"

text \<open>
  \<open>a === b\<close>. Arrays and objects compare by identity; the two sides of the runtime's comparisons
  are separate allocations (a stored record and a freshly decoded value), hence unequal.
\<close>

fun js_seq :: "jsval \<Rightarrow> jsval \<Rightarrow> bool" where
  "js_seq (JFloat s) (JFloat t) = (s = t \<and> s \<noteq> ''NaN'')"
| "js_seq (JArr xs) w = False"
| "js_seq (JObj xs) w = False"
| "js_seq v w = (v = w)"

lemma js_seq_str [simp]: "js_seq v (JStr s) \<longleftrightarrow> v = JStr s"
  by (cases v) auto

lemma js_seq_str_left [simp]: "js_seq (JStr s) v \<longleftrightarrow> v = JStr s"
  by (cases v) auto

lemma js_seq_int [simp]: "js_seq v (JInt i) \<longleftrightarrow> v = JInt i"
  by (cases v) auto

text \<open>\<open>String(v)\<close>; integers print in decimal, as they do below 10^21.\<close>

fun js_string :: "jsval \<Rightarrow> string" where
  "js_string JUndef = ''undefined''"
| "js_string JNull = ''null''"
| "js_string (JBool b) = (if b then ''true'' else ''false'')"
| "js_string (JInt i) = show_int i"
| "js_string (JFloat t) = t"
| "js_string (JStr s) = s"
| "js_string (JArr vs) = join_with '','' (map (\<lambda>v. if nullish v then [] else js_string v) vs)"
| "js_string (JObj kvs) = ''[object Object]''"

lemma size_snd_obj [termination_simp]: "p \<in> set kvs \<Longrightarrow> size (snd p) < Suc (size_list (size_prod (\<lambda>x. 0) size) kvs)"
proof (induction kvs)
  case (Cons q kvs)
  then show ?case by (cases q) (auto)
qed simp

lemma size_pair_obj [termination_simp]: "(k, v) \<in> set kvs \<Longrightarrow> size v < Suc (size_list (size_prod (\<lambda>x. 0) size) kvs)"
  using size_snd_obj [of "(k, v)" kvs] by simp

text \<open>
  \<open>JSON.stringify\<close>: strings quoted with the short escapes, an undefined member of an object
  dropped, undefined in an array and non-finite numbers printed as null.
\<close>

definition json_escape :: "char \<Rightarrow> string" where
  "json_escape c =
     (if c = CHR ''\"'' then [CHR 0x5C, CHR ''\"'']
      else if cp c = 92 then [CHR 0x5C, CHR 0x5C]
      else if cp c = 8 then [CHR 0x5C, CHR ''b'']
      else if cp c = 9 then [CHR 0x5C, CHR ''t'']
      else if cp c = 10 then [CHR 0x5C, CHR ''n'']
      else if cp c = 12 then [CHR 0x5C, CHR ''f'']
      else if cp c = 13 then [CHR 0x5C, CHR ''r'']
      else if cp c < 32 then [CHR 0x5C, CHR ''u''] @ pad_start 4 (CHR ''0'') (show_base 16 (cp c))
      else [c])"

definition json_quote :: "string \<Rightarrow> string" where
  "json_quote s = ''\"'' @ concat (map json_escape s) @ ''\"''"

fun json_text :: "jsval \<Rightarrow> string" where
  "json_text JUndef = ''null''"
| "json_text JNull = ''null''"
| "json_text (JBool b) = (if b then ''true'' else ''false'')"
| "json_text (JInt i) = show_int i"
| "json_text (JFloat t) = (if t \<in> {''NaN'', ''Infinity'', ''-Infinity''} then ''null'' else t)"
| "json_text (JStr s) = json_quote s"
| "json_text (JArr vs) = ''['' @ join_with '','' (map json_text vs) @ '']''"
| "json_text (JObj kvs) =
     ''{'' @ join_with '','' (map (\<lambda>p. json_quote (fst p) @ '':'' @ json_text (snd p))
       (filter (\<lambda>p. snd p \<noteq> JUndef) kvs)) @ ''}''"

text \<open>
  \<open>stableJson\<close> of \<open>packages/runtime/src/hashing.ts\<close> (keys sorted; the same shape as
  \<open>canonicalCollectionValue\<close> of decode.ts and \<open>canonical\<close> of actors.ts, which order the entries by key).
\<close>

fun stable_json :: "jsval \<Rightarrow> string" where
  "stable_json (JArr vs) =
     ''['' @ join_with '','' (map (\<lambda>v. if v = JUndef then [] else stable_json v) vs) @ '']''"
| "stable_json (JObj kvs) =
     ''{'' @ join_with '','' (map snd (sort_key fst
        (map (\<lambda>p. (fst p, json_quote (fst p) @ '':'' @
                 (if snd p = JUndef then ''undefined'' else stable_json (snd p)))) kvs))) @ ''}''"
| "stable_json v = json_text v"

text \<open>
  Arithmetic. Integers within 2^53 add, subtract and multiply exactly; every other operation of
  the platform's binary64 arithmetic (rounding of large results, fractions, NaN) is the parameter
  \<open>ieee\<close>, applied to the operation's name and its operands.
\<close>

type_synonym ieee = "string \<Rightarrow> jsval \<Rightarrow> jsval \<Rightarrow> jsval"

definition safe_int :: "int \<Rightarrow> bool" where
  "safe_int i \<longleftrightarrow> \<bar>i\<bar> \<le> 9007199254740991"

fun is_num :: "jsval \<Rightarrow> bool" where
  "is_num (JInt i) = True"
| "is_num (JFloat t) = True"
| "is_num v = False"

fun is_jstr :: "jsval \<Rightarrow> bool" where
  "is_jstr (JStr s) = True"
| "is_jstr v = False"

definition trunc_div :: "int \<Rightarrow> int \<Rightarrow> int" where
  "trunc_div a b = sgn a * sgn b * (\<bar>a\<bar> div \<bar>b\<bar>)"

fun num_op :: "ieee \<Rightarrow> string \<Rightarrow> jsval \<Rightarrow> jsval \<Rightarrow> jsval" where
  "num_op fl op (JInt a) (JInt b) =
     (if op = ''+'' \<and> safe_int (a + b) then JInt (a + b)
      else if op = ''-'' \<and> safe_int (a - b) then JInt (a - b)
      else if op = ''*'' \<and> safe_int (a * b) then JInt (a * b)
      else if op = ''/'' \<and> b \<noteq> 0 \<and> safe_int a \<and> safe_int b then JInt (trunc_div a b)
      else fl op (JInt a) (JInt b))"
| "num_op fl op v w = fl op v w"

text \<open>
  \<open>Number(v)\<close> where its value is decided by the text; the remaining texts (fractions, exponents,
  hexadecimal) and objects go through \<open>ieee\<close>.
\<close>

definition int_text :: "string \<Rightarrow> bool" where
  "int_text s \<longleftrightarrow> (case s of [] \<Rightarrow> False | c # cs \<Rightarrow>
     (if c = CHR ''-'' then cs \<noteq> [] \<and> list_all is_digit cs else list_all is_digit s))"

definition int_of_text :: "string \<Rightarrow> int" where
  "int_of_text s = (case s of [] \<Rightarrow> 0 | c # cs \<Rightarrow>
     (if c = CHR ''-'' then - int (read_nat cs) else int (read_nat s)))"

fun js_number :: "ieee \<Rightarrow> jsval \<Rightarrow> jsval" where
  "js_number fl JUndef = JFloat ''NaN''"
| "js_number fl JNull = JInt 0"
| "js_number fl (JBool b) = JInt (if b then 1 else 0)"
| "js_number fl (JInt i) = JInt i"
| "js_number fl (JFloat t) = JFloat t"
| "js_number fl (JStr s) =
     (if js_trim s = [] then JInt 0
      else if int_text (js_trim s) \<and> safe_int (int_of_text (js_trim s)) then JInt (int_of_text (js_trim s))
      else fl ''Number'' (JStr s) JUndef)"
| "js_number fl v = fl ''Number'' v JUndef"

text \<open>\<open>a < b\<close> on values: two strings compare by code units, anything else as numbers.\<close>

fun js_less :: "ieee \<Rightarrow> jsval \<Rightarrow> jsval \<Rightarrow> bool" where
  "js_less fl (JStr s) (JStr t) = (s < t)"
| "js_less fl v w = (case (js_number fl v, js_number fl w) of
      (JInt a, JInt b) \<Rightarrow> a < b
    | (a, b) \<Rightarrow> fl ''<'' a b = JBool True)"

lemma show_int_read: "int_text (show_int i) \<and> int_of_text (show_int i) = i"
proof -
  have nd: "list_all is_digit (show_nat n)" for n
    using show_base_digits [of 10 _ n] by (auto simp: list_all_iff digit_of_10)
  have hd: "hd (show_nat n) \<noteq> CHR ''-''" for n
    using nd [of n] by (cases "show_nat n") (auto simp: is_digit_def)
  show ?thesis
  proof (cases "i < 0")
    case True
    then show ?thesis using nd
      by (auto simp: show_int_def int_text_def int_of_text_def read_show)
  next
    case False
    obtain c cs where s: "show_nat (nat i) = c # cs" by (cases "show_nat (nat i)") auto
    with hd [of "nat i"] have "c \<noteq> CHR ''-''" by simp
    with False s nd [of "nat i"] read_show [of 10 "nat i"] show ?thesis
      by (auto simp: show_int_def int_text_def int_of_text_def)
  qed
qed

lemma show_int_inj: "show_int i = show_int j \<longleftrightarrow> i = j"
  using show_int_read by metis

end
