(* ===== verification/Js_Date.thy ===== *)
theory Js_Date
  imports Js_Value
begin

text \<open>
  The calendar part of JavaScript's \<open>Date\<close>: \<open>Date.UTC\<close> (with its reading of the years 0..99 as
  1900..1999), \<open>toISOString\<close> and \<open>Date.parse\<close> on ISO texts, in the proleptic Gregorian calendar.
  Instants are milliseconds since 1970 as \<open>int\<close>. The lemmas show that reading a date off an
  instant inverts building the instant from the date.
\<close>

section \<open>The calendar\<close>

definition is_leap :: "int \<Rightarrow> bool" where
  "is_leap y \<longleftrightarrow> (y mod 4 = 0 \<and> y mod 100 \<noteq> 0) \<or> y mod 400 = 0"

definition year_len :: "int \<Rightarrow> int" where
  "year_len y = (if is_leap y then 366 else 365)"

definition month_len :: "int \<Rightarrow> int \<Rightarrow> int" where
  "month_len y m =
     (if m = 2 then (if is_leap y then 29 else 28)
      else if m = 4 \<or> m = 6 \<or> m = 9 \<or> m = 11 then 30 else 31)"

definition leaps :: "int \<Rightarrow> int" where
  "leaps k = k div 4 - k div 100 + k div 400"

text \<open>Days from 1970-01-01 to the first of January of the year.\<close>

definition ystart :: "int \<Rightarrow> int" where
  "ystart y = 365 * (y - 1970) + leaps (y - 1) - 477"

text \<open>Days from the first of January to the first of the month.\<close>

definition mstart :: "int \<Rightarrow> int \<Rightarrow> int" where
  "mstart y m = (\<Sum>k\<leftarrow>[1..m - 1]. month_len y k)"

definition days_from_civil :: "int \<Rightarrow> int \<Rightarrow> int \<Rightarrow> int" where
  "days_from_civil y m d = ystart y + mstart y m + d - 1"

definition valid_date :: "int \<Rightarrow> int \<Rightarrow> int \<Rightarrow> bool" where
  "valid_date y m d \<longleftrightarrow> 1 \<le> m \<and> m \<le> 12 \<and> 1 \<le> d \<and> d \<le> month_len y m"

lemma leaps_step: "leaps y = leaps (y - 1) + (if is_leap y then 1 else 0)"
proof -
  have d: "y div k = (y - 1) div k + (if y mod k = 0 then 1 else 0)" if "1 < k" for k :: int
  proof -
    have y: "y = k * (y div k) + y mod k" by simp
    have r: "0 \<le> y mod k" "y mod k < k" using that by simp_all
    show ?thesis
    proof (cases "y mod k = 0")
      case True
      then have "y - 1 = k * (y div k - 1) + (k - 1)" using y by (simp add: algebra_simps)
      then have "(y - 1) div k = y div k - 1" using that
        by (intro int_div_pos_eq [where r = "k - 1"]) auto
      with True show ?thesis by simp
    next
      case False
      then have "y - 1 = k * (y div k) + (y mod k - 1)" using y by (simp add: algebra_simps)
      then have "(y - 1) div k = y div k" using that r False
        by (intro int_div_pos_eq [where r = "y mod k - 1"]) auto
      with False show ?thesis by simp
    qed
  qed
  have "y mod 100 = 0 \<Longrightarrow> y mod 4 = 0" "y mod 400 = 0 \<Longrightarrow> y mod 100 = 0"
    unfolding mod_eq_0_iff_dvd
    by (rule dvd_trans [of 4 100 y], simp_all) (rule dvd_trans [of 100 400 y], simp_all)
  note imp = this
  have "leaps y = leaps (y - 1) + (if y mod 4 = 0 then 1 else 0)
      - (if y mod 100 = 0 then 1 else 0) + (if y mod 400 = 0 then 1 else 0)"
    unfolding leaps_def d [of 4, simplified] d [of 100, simplified] d [of 400, simplified]
    by (simp only: algebra_simps)
  then show ?thesis
    unfolding is_leap_def using imp
    by (cases "y mod 4 = 0"; cases "y mod 100 = 0"; cases "y mod 400 = 0") simp_all
qed

lemma ystart_step: "ystart (y + 1) = ystart y + year_len y"
  using leaps_step [of y] by (simp add: ystart_def year_len_def)

lemma year_len_pos: "365 \<le> year_len y" "year_len y \<le> 366"
  by (simp_all add: year_len_def)

lemma ystart_mono_step: "ystart y + 365 \<le> ystart (y + 1)"
  using ystart_step [of y] year_len_pos [of y] by simp

lemma ystart_mono: "y \<le> z \<Longrightarrow> ystart y \<le> ystart z"
proof (induction "nat (z - y)" arbitrary: z)
  case 0
  then show ?case by simp
next
  case (Suc n)
  then have "ystart y \<le> ystart (z - 1)" by (intro Suc.hyps(1)) auto
  also have "\<dots> \<le> ystart z" using ystart_mono_step [of "z - 1"] by simp
  finally show ?case .
qed

section \<open>Reading the date off a day number\<close>

function year_search :: "int \<Rightarrow> int \<Rightarrow> int" where
  "year_search y n = (if n < ystart (y + 1) then y else year_search (y + 1) n)"
  by pat_completeness auto
termination
proof (relation "measure (\<lambda>(y, n). nat (n - ystart y))", simp)
  fix y n :: int
  assume "\<not> n < ystart (y + 1)"
  then show "((y + 1, n), (y, n)) \<in> measure (\<lambda>(y, n). nat (n - ystart y))"
    using ystart_mono_step [of y] by auto
qed

declare year_search.simps [simp del]

definition year_guess :: "int \<Rightarrow> int" where
  "year_guess n = 1970 + (if 0 \<le> n then n div 366 else n div 365)"

fun month_search :: "nat \<Rightarrow> int \<Rightarrow> int \<Rightarrow> int \<Rightarrow> int \<times> int" where
  "month_search 0 y m d = (m, d)"
| "month_search (Suc k) y m d =
     (if d \<le> month_len y m then (m, d) else month_search k y (m + 1) (d - month_len y m))"

definition civil_from_days :: "int \<Rightarrow> int \<times> int \<times> int" where
  "civil_from_days n =
     (let y = year_search (year_guess n) n in (y, month_search 11 y 1 (n - ystart y + 1)))"

lemma year_search_correct:
  "ystart y \<le> n \<Longrightarrow> ystart (year_search y n) \<le> n \<and> n < ystart (year_search y n + 1)"
proof (induction y n rule: year_search.induct)
  case (1 y n)
  show ?case
  proof (cases "n < ystart (y + 1)")
    case True
    with 1 show ?thesis by (simp add: year_search.simps [of y n])
  next
    case False
    then show ?thesis using 1 by (simp add: year_search.simps [of y n])
  qed
qed

lemma year_unique:
  assumes "ystart y \<le> n" "n < ystart (y + 1)" "ystart z \<le> n" "n < ystart (z + 1)"
  shows "y = z"
proof (rule ccontr)
  assume "y \<noteq> z"
  then have "y + 1 \<le> z \<or> z + 1 \<le> y" by linarith
  with assms ystart_mono [of "y + 1" z] ystart_mono [of "z + 1" y] show False by auto
qed

lemma ystart_upper: "0 \<le> k \<Longrightarrow> ystart (1970 + k) \<le> 366 * k"
proof (induction "nat k" arbitrary: k)
  case 0
  then show ?case by (simp add: ystart_def leaps_def)
next
  case (Suc n)
  then have "ystart (1970 + (k - 1)) \<le> 366 * (k - 1)" by (intro Suc.hyps(1)) auto
  then show ?case using ystart_step [of "1969 + k"] year_len_pos(2) [of "1969 + k"]
    by (simp add: algebra_simps)
qed

lemma ystart_lower: "k \<le> 0 \<Longrightarrow> ystart (1970 + k) \<le> 365 * k"
proof (induction "nat (- k)" arbitrary: k)
  case 0
  then show ?case by (simp add: ystart_def leaps_def)
next
  case (Suc n)
  then have "ystart (1970 + (k + 1)) \<le> 365 * (k + 1)" by (intro Suc.hyps(1)) auto
  then show ?case using ystart_step [of "1970 + k"] year_len_pos(1) [of "1970 + k"]
    by (simp add: algebra_simps)
qed

lemma year_guess_below: "ystart (year_guess n) \<le> n"
proof (cases "0 \<le> n")
  case True
  then have "ystart (1970 + n div 366) \<le> 366 * (n div 366)" by (intro ystart_upper) simp
  also have "\<dots> \<le> n" using mult_div_mod_eq [of 366 n] pos_mod_sign [of 366 n] by linarith
  finally show ?thesis using True by (simp add: year_guess_def)
next
  case False
  then have "n div 365 \<le> 0" by (simp add: div_neg_pos_less0 less_imp_le)
  then have "ystart (1970 + n div 365) \<le> 365 * (n div 365)" by (rule ystart_lower)
  also have "\<dots> \<le> n" using mult_div_mod_eq [of 365 n] pos_mod_sign [of 365 n] by linarith
  finally show ?thesis using False by (simp add: year_guess_def)
qed

lemma month_cases: "1 \<le> m \<Longrightarrow> m \<le> (12::int) \<Longrightarrow>
    m = 1 \<or> m = 2 \<or> m = 3 \<or> m = 4 \<or> m = 5 \<or> m = 6 \<or> m = 7 \<or> m = 8 \<or> m = 9 \<or> m = 10 \<or> m = 11 \<or> m = 12"
  by presburger

lemma mstart_table:
  "mstart y 1 = 0" "mstart y 2 = 31" "mstart y 3 = (if is_leap y then 60 else 59)"
  "mstart y 4 = (if is_leap y then 91 else 90)" "mstart y 5 = (if is_leap y then 121 else 120)"
  "mstart y 6 = (if is_leap y then 152 else 151)" "mstart y 7 = (if is_leap y then 182 else 181)"
  "mstart y 8 = (if is_leap y then 213 else 212)" "mstart y 9 = (if is_leap y then 244 else 243)"
  "mstart y 10 = (if is_leap y then 274 else 273)" "mstart y 11 = (if is_leap y then 305 else 304)"
  "mstart y 12 = (if is_leap y then 335 else 334)"
  by (simp_all add: mstart_def month_len_def upto_rec1)

lemma month_search_correct:
  assumes "valid_date y m d"
  shows "month_search 11 y 1 (mstart y m + d) = (m, d)"
proof -
  have m: "1 \<le> m" "m \<le> 12" "1 \<le> d" "d \<le> month_len y m"
    using assms by (simp_all add: valid_date_def)
  show ?thesis
    using month_cases [OF m(1,2)] m(3,4)
    by (elim disjE; simp add: mstart_table month_len_def eval_nat_numeral split: if_splits)
qed

lemma day_in_year:
  assumes "valid_date y m d"
  shows "0 \<le> mstart y m + d - 1" "mstart y m + d - 1 < year_len y"
proof -
  have m: "1 \<le> m" "m \<le> 12" "1 \<le> d" "d \<le> month_len y m"
    using assms by (simp_all add: valid_date_def)
  show "0 \<le> mstart y m + d - 1" "mstart y m + d - 1 < year_len y"
    using month_cases [OF m(1,2)] m(3,4)
    by (auto simp: mstart_table month_len_def year_len_def split: if_splits)
qed

theorem civil_from_days_inverse:
  assumes "valid_date y m d"
  shows "civil_from_days (days_from_civil y m d) = (y, m, d)"
proof -
  let ?n = "days_from_civil y m d"
  have "ystart y \<le> ?n" "?n < ystart (y + 1)"
    using day_in_year [OF assms] by (simp_all add: days_from_civil_def ystart_step)
  then have "year_search (year_guess ?n) ?n = y"
    using year_search_correct [OF year_guess_below [of ?n]] year_unique by blast
  then show ?thesis
    using month_search_correct [OF assms]
    by (simp add: civil_from_days_def Let_def days_from_civil_def)
qed


lemma mstart_step: "1 \<le> m \<Longrightarrow> mstart y (m + 1) = mstart y m + month_len y m"
  by (simp add: mstart_def upto_rec2)

lemma month_search_sound:
  assumes "month_search f y m d = (m', d')" "m + int f = 12" "1 \<le> m" "1 \<le> d" "mstart y m + d \<le> year_len y"
  shows "valid_date y m' d' \<and> mstart y m' + d' = mstart y m + d"
  using assms
proof (induction f y m d rule: month_search.induct)
  case (1 y m d)
  then have m: "m = 12" "m' = 12" "d' = d" by auto
  have "d \<le> 31" using "1.prems"(5) by (auto simp: m(1) mstart_table year_len_def split: if_splits)
  with 1 m show ?case by (auto simp: valid_date_def month_len_def)
next
  case (2 k y m d)
  show ?case
  proof (cases "d \<le> month_len y m")
    case True
    with 2 show ?thesis by (auto simp: valid_date_def)
  next
    case False
    then have "valid_date y m' d' \<and> mstart y m' + d' = mstart y (m + 1) + (d - month_len y m)"
      by (intro "2.IH") (use "2.prems" False mstart_step [of m y] in auto)
    with mstart_step [of m y] "2.prems"(3) show ?thesis by simp
  qed
qed

theorem days_from_civil_inverse:
  assumes "civil_from_days n = (y, m, d)"
  shows "valid_date y m d \<and> days_from_civil y m d = n"
proof -
  define y' where "y' = year_search (year_guess n) n"
  have b: "ystart y' \<le> n" "n < ystart (y' + 1)"
    using year_search_correct [OF year_guess_below [of n]] by (simp_all add: y'_def)
  have e: "y = y'" "month_search 11 y' 1 (n - ystart y' + 1) = (m, d)"
    using assms by (auto simp: civil_from_days_def Let_def y'_def)
  have "valid_date y' m d \<and> mstart y' m + d = mstart y' 1 + (n - ystart y' + 1)"
    by (rule month_search_sound [OF e(2)]) (use b ystart_step [of y'] mstart_table(1) in auto)
  then show ?thesis using e(1) mstart_table(1) [of y'] by (simp add: days_from_civil_def)
qed

end
