(* ===== verification/Codecs.thy ===== *)
theory Codecs
  imports Js_Date
begin

text \<open>
  The boundary codecs of \<open>packages/runtime/src/codecs.ts\<close> except the temporal ones (theory
  Codecs_Time): text and its normalizers, integers, decimals in minor units, enumerations, the
  order-preserving sort keys with byte comparison, and identity keys. Every decoder returns its
  canonical value or the \<open>CodecError\<close> the code throws.
\<close>

section \<open>Text\<close>

definition codec_fail :: "string \<Rightarrow> 'a res" where
  "codec_fail c = Inl (CodecError c)"

definition is_control :: "char \<Rightarrow> bool" where
  "is_control c \<longleftrightarrow> cp c \<le> 8 \<or> cp c = 11 \<or> cp c = 12 \<or> (14 \<le> cp c \<and> cp c \<le> 31) \<or> cp c = 127"

fun apply_normalizers :: "string list \<Rightarrow> string \<Rightarrow> string res" where
  "apply_normalizers [] s = Inr s"
| "apply_normalizers (n # ns) s =
     (if n = ''trim'' then apply_normalizers ns (js_trim s)
      else if n = ''uppercase'' then apply_normalizers ns (js_upper s)
      else if n = ''lowercase'' then apply_normalizers ns (js_lower s)
      else codec_fail ''UnknownNormalizer'')"

definition decodeText :: "jsval \<Rightarrow> string list \<Rightarrow> string res" where
  "decodeText input normalizers =
     (case input of
        JStr s \<Rightarrow> if list_ex is_control s then codec_fail ''InvalidText''
                  else apply_normalizers normalizers s
      | _ \<Rightarrow> codec_fail ''InvalidText'')"

definition codePointLength :: "string \<Rightarrow> nat" where
  "codePointLength s = length s"

definition checkLength :: "string \<Rightarrow> nat option \<Rightarrow> nat option \<Rightarrow> string res" where
  "checkLength s mn mx =
     (if (case mn of None \<Rightarrow> False | Some m \<Rightarrow> codePointLength s < m) \<or>
         (case mx of None \<Rightarrow> False | Some m \<Rightarrow> m < codePointLength s)
      then codec_fail ''LengthOutOfRange'' else Inr s)"

section \<open>Integers\<close>

text \<open>\<open>^-?(0|[1-9][0-9]*)$\<close>.\<close>

definition int_literal :: "string \<Rightarrow> bool" where
  "int_literal s =
     (let ds = (case s of [] \<Rightarrow> [] | c # cs \<Rightarrow> if c = CHR ''-'' then cs else s)
      in ds \<noteq> [] \<and> list_all is_digit ds \<and> (ds = ''0'' \<or> hd ds \<noteq> CHR ''0''))"

definition check_raw_json :: "string option \<Rightarrow> unit res" where
  "check_raw_json raw =
     (case raw of
        None \<Rightarrow> Inr ()
      | Some t \<Rightarrow>
          if \<not> int_literal (js_trim t) then codec_fail ''InvalidInteger''
          else if \<not> safe_int (int_of_text (js_trim t)) then codec_fail ''OutOfRange''
          else Inr ())"

definition decodeInteger :: "ieee \<Rightarrow> jsval \<Rightarrow> jsval \<Rightarrow> jsval \<Rightarrow> string option \<Rightarrow> int res" where
  "decodeInteger fl input mn mx raw =
     (case input of
        JInt n \<Rightarrow> bind_res (check_raw_json raw) (\<lambda>_.
          if \<not> safe_int n then codec_fail ''OutOfRange''
          else if mn \<noteq> JUndef \<and> js_less fl (JInt n) mn then codec_fail ''OutOfRange''
          else if mx \<noteq> JUndef \<and> js_less fl mx (JInt n) then codec_fail ''OutOfRange''
          else Inr n)
      | JFloat t \<Rightarrow> bind_res (check_raw_json raw) (\<lambda>_. codec_fail ''InvalidInteger'')
      | _ \<Rightarrow> codec_fail ''InvalidInteger'')"

section \<open>Decimals and money\<close>

definition CURRENCY_SCALE :: "(string \<times> nat) list" where
  "CURRENCY_SCALE = [(''USD'', 2), (''EUR'', 2), (''GBP'', 2), (''CAD'', 2), (''AUD'', 2), (''CHF'', 2),
     (''JPY'', 0), (''KWD'', 3), (''BHD'', 3), (''CLP'', 0), (''KRW'', 0)]"

definition currencyScale :: "string \<Rightarrow> nat res" where
  "currencyScale c =
     (case map_of CURRENCY_SCALE c of None \<Rightarrow> codec_fail ''UnknownCurrency'' | Some n \<Rightarrow> Inr n)"

text \<open>\<open>^(-?)([0-9]+)(?:\.([0-9]+))?$\<close>: sign, integer digits, fraction digits.\<close>

definition match_decimal :: "string \<Rightarrow> (bool \<times> string \<times> string) option" where
  "match_decimal s =
     (let (neg, r) = (case s of [] \<Rightarrow> (False, []) | c # cs \<Rightarrow> if c = CHR ''-'' then (True, cs) else (False, s));
          ip = takeWhile is_digit r; rest = dropWhile is_digit r
      in if ip = [] then None
         else case rest of
             [] \<Rightarrow> Some (neg, ip, [])
           | c # f \<Rightarrow> if c = CHR ''.'' \<and> f \<noteq> [] \<and> list_all is_digit f then Some (neg, ip, f) else None)"

definition minor_of :: "bool \<Rightarrow> string \<Rightarrow> string \<Rightarrow> nat \<Rightarrow> int" where
  "minor_of neg ip frac scale =
     int (read_nat (ip @ pad_end scale (CHR ''0'') frac)) * (if neg then - 1 else 1)"

definition toMinor :: "string \<Rightarrow> nat \<Rightarrow> int res" where
  "toMinor txt scale =
     (case match_decimal txt of
        None \<Rightarrow> codec_fail ''InvalidDecimal''
      | Some (neg, ip, frac) \<Rightarrow>
          if length frac > scale then codec_fail ''PrecisionExceeded''
          else Inr (minor_of neg ip frac scale))"

definition formatMinor :: "int \<Rightarrow> nat \<Rightarrow> string" where
  "formatMinor minor scale =
     (let neg = minor < 0;
          digits = pad_start (scale + 1) (CHR ''0'') (show_nat (nat \<bar>minor\<bar>));
          ip = take (length digits - scale) digits;
          frac = drop (length digits - scale) digits;
          body = (if scale > 0 then ip @ ''.'' @ frac else ip)
      in if neg \<and> minor \<noteq> 0 then CHR ''-'' # body else body)"

definition check_bound :: "(int \<Rightarrow> int \<Rightarrow> bool) \<Rightarrow> int \<Rightarrow> string option \<Rightarrow> nat \<Rightarrow> unit res" where
  "check_bound bad minor b scale =
     (case b of
        None \<Rightarrow> Inr ()
      | Some t \<Rightarrow> bind_res (toMinor t scale) (\<lambda>m.
          if bad minor m then codec_fail ''OutOfRange'' else Inr ()))"

definition decodeDecimal ::
    "jsval \<Rightarrow> nat option \<Rightarrow> string option \<Rightarrow> string option \<Rightarrow> string option \<Rightarrow> string res" where
  "decodeDecimal input scaleOpt currency mn mx =
     bind_res (case currency of Some c \<Rightarrow> currencyScale c
               | None \<Rightarrow> Inr (case scaleOpt of None \<Rightarrow> 2 | Some n \<Rightarrow> n)) (\<lambda>scale.
     case input of
       JStr s \<Rightarrow>
         (case match_decimal s of
            None \<Rightarrow> codec_fail ''InvalidDecimal''
          | Some (neg, ip, frac) \<Rightarrow>
              if length frac > scale then codec_fail ''PrecisionExceeded''
              else let minor = minor_of neg ip frac scale in
                if \<not> safe_int minor then codec_fail ''OutOfRange''
                else bind_res (check_bound (<) minor mn scale) (\<lambda>_.
                     bind_res (check_bound (>) minor mx scale) (\<lambda>_.
                     Inr (formatMinor minor scale))))
     | _ \<Rightarrow> codec_fail ''InvalidDecimal'')"

section \<open>Enumerations\<close>

definition decodeEnum :: "jsval \<Rightarrow> string list \<Rightarrow> string res" where
  "decodeEnum input vals =
     (case input of
        JStr s \<Rightarrow> if s \<in> set vals then Inr s else codec_fail ''InvalidEnumValue''
      | _ \<Rightarrow> codec_fail ''InvalidEnumValue'')"

section \<open>Sort keys and byte order\<close>

text \<open>\<open>(x + 2n ** 63n).toString(16).padStart(16, "0")\<close>.\<close>

definition hex_key :: "int \<Rightarrow> string" where
  "hex_key x = pad_start 16 (CHR ''0'')
     (let y = x + 2 ^ 63
      in if y < 0 then CHR ''-'' # show_base 16 (nat (- y)) else show_base 16 (nat y))"

definition sortKey :: "jsval \<Rightarrow> string \<Rightarrow> nat option \<Rightarrow> string res" where
  "sortKey v typ scaleOpt =
     (if nullish v then Inr []
      else if typ = ''integer'' then
        (case v of JInt n \<Rightarrow> Inr (hex_key n)
         | JBool b \<Rightarrow> Inr (hex_key (if b then 1 else 0))
         | JStr s \<Rightarrow> if js_trim s = [] then Inr (hex_key 0)
                     else if int_text (js_trim s) then Inr (hex_key (int_of_text (js_trim s)))
                     else Inl (JsError ''SyntaxError'')
         | _ \<Rightarrow> Inl (JsError ''RangeError''))
      else if typ = ''decimal'' \<or> typ = ''money'' then
        bind_res (toMinor (js_string v) (case scaleOpt of None \<Rightarrow> 2 | Some n \<Rightarrow> n)) (\<lambda>m. Inr (hex_key m))
      else if typ = ''boolean'' then Inr (if truthy v then ''1'' else ''0'')
      else Inr (js_string v))"

fun cmp_bytes :: "nat list \<Rightarrow> nat list \<Rightarrow> int" where
  "cmp_bytes [] ys = - int (length ys)"
| "cmp_bytes (x # xs) [] = int (length (x # xs))"
| "cmp_bytes (x # xs) (y # ys) =
     (if x \<noteq> y then (if x < y then - 1 else 1) else cmp_bytes xs ys)"

definition compareBytes :: "string \<Rightarrow> string \<Rightarrow> int" where
  "compareBytes a b = cmp_bytes (utf8 a) (utf8 b)"

section \<open>Identity keys\<close>

abbreviation BS :: char where "BS \<equiv> CHR 0x5C"

definition escape_component :: "string \<Rightarrow> string" where
  "escape_component p =
     join_with [BS, CHR ''#''] (split_on (CHR ''#'') (join_with [BS, BS] (split_on BS p)))"

definition encodeIdentity :: "string list \<Rightarrow> string" where
  "encodeIdentity components = join_with ''#'' (map escape_component components)"

fun decode_identity_from :: "string \<Rightarrow> string \<Rightarrow> string list" where
  "decode_identity_from cur [] = [cur]"
| "decode_identity_from cur [c] =
     (if c = BS then [cur] else if c = CHR ''#'' then [cur, []] else [cur @ [c]])"
| "decode_identity_from cur (c # d # s) =
     (if c = BS then decode_identity_from (cur @ [d]) s
      else if c = CHR ''#'' then cur # decode_identity_from [] (d # s)
      else decode_identity_from (cur @ [c]) (d # s))"

definition decodeIdentity :: "string \<Rightarrow> string list" where
  "decodeIdentity key = decode_identity_from [] key"


section \<open>Identity keys read back\<close>

lemma split_on_nonempty [simp]: "split_on c s \<noteq> []"
  by (induction s) (auto split: list.splits)

lemma join_split_replace:
  "join_with r (split_on c s) = concat (map (\<lambda>x. if x = c then r else [x]) s)"
proof (induction s)
  case Nil
  then show ?case by simp
next
  case (Cons x s)
  obtain w ws where s: "split_on c s = w # ws" by (cases "split_on c s") auto
  show ?case
  proof (cases "x = c")
    case True
    with s Cons show ?thesis by simp
  next
    case False
    with s Cons show ?thesis by (cases ws) auto
  qed
qed

definition escape_char :: "char \<Rightarrow> string" where
  "escape_char c = (if c = BS then [BS, BS] else if c = CHR ''#'' then [BS, CHR ''#''] else [c])"

lemma escape_component_chars: "escape_component p = concat (map escape_char p)"
proof -
  have "map (\<lambda>x. if x = CHR ''#'' then [BS, CHR ''#''] else [x]) (concat (map (\<lambda>x. if x = BS then [BS, BS] else [x]) p))
      = concat (map (\<lambda>c. map (\<lambda>x. if x = CHR ''#'' then [BS, CHR ''#''] else [x]) (if c = BS then [BS, BS] else [c])) p)"
    by (induction p) auto
  then show ?thesis
    unfolding escape_component_def join_split_replace escape_char_def
    by (induction p) auto
qed

lemma decode_escaped: "decode_identity_from cur (escape_component p @ rest) = decode_identity_from (cur @ p) rest"
proof (induction p arbitrary: cur)
  case Nil
  then show ?case by (simp add: escape_component_chars)
next
  case (Cons c p)
  have e: "escape_component (c # p) = escape_char c @ escape_component p"
    by (simp add: escape_component_chars)
  show ?case
  proof (cases "c = BS \<or> c = CHR ''#''")
    case True
    then have "escape_char c = [BS, c]" by (auto simp: escape_char_def)
    then show ?thesis using Cons [of "cur @ [c]"] by (simp add: e)
  next
    case False
    then have ec: "escape_char c = [c]" by (auto simp: escape_char_def)
    show ?thesis
    proof (cases "escape_component p @ rest")
      case Nil
      then have "p = []" using ec by (cases p) (auto simp: escape_component_chars escape_char_def split: if_splits)
      with False ec Nil show ?thesis by (simp add: e escape_component_chars)
    next
      case (Cons d t)
      with False ec Cons.IH [of "cur @ [c]"] show ?thesis by (simp add: e)
    qed
  qed
qed

lemma decode_identity_hash:
  "decode_identity_from cur (CHR ''#'' # s) = cur # decode_identity_from [] s"
  by (cases s) auto

lemma encodeIdentity_Cons:
  "cs \<noteq> [] \<Longrightarrow> encodeIdentity (c # cs) = escape_component c @ CHR ''#'' # encodeIdentity cs"
  by (cases cs) (auto simp: encodeIdentity_def)

lemma identity_roundtrip: "cs \<noteq> [] \<Longrightarrow> decodeIdentity (encodeIdentity cs) = cs"
proof (induction cs)
  case Nil
  then show ?case by simp
next
  case (Cons c cs)
  show ?case
  proof (cases "cs = []")
    case True
    then show ?thesis using decode_escaped [of "[]" c "[]"]
      by (simp add: decodeIdentity_def encodeIdentity_def)
  next
    case False
    with Cons.IH show ?thesis
      by (simp add: decodeIdentity_def encodeIdentity_Cons decode_escaped decode_identity_hash)
  qed
qed

lemma encodeIdentity_inj: "cs \<noteq> [] \<Longrightarrow> ds \<noteq> [] \<Longrightarrow> encodeIdentity cs = encodeIdentity ds \<longleftrightarrow> cs = ds"
  by (metis identity_roundtrip)

section \<open>Byte order is text order\<close>

lemma cmp_bytes_char:
  "cmp_bytes (utf8_char c @ xs) (utf8_char d @ ys) =
     (if c = d then cmp_bytes xs ys else if c < d then - 1 else 1)"
proof (cases "c = d")
  case True
  then show ?thesis by (simp add: utf8_char_def)
next
  case False
  then have ne: "cp c \<noteq> cp d" by simp
  have big: "cp x < 128 \<or> 128 \<le> cp x" for x by linarith
  have q: "cp c div 64 = cp d div 64 \<Longrightarrow> cp c mod 64 < cp d mod 64 \<longleftrightarrow> cp c < cp d"
    by (metis add_less_cancel_left mult_div_mod_eq)
  have q': "cp c div 64 = cp d div 64 \<Longrightarrow> cp c mod 64 \<noteq> cp d mod 64"
    using ne by (metis mult_div_mod_eq)
  have q'': "cp c div 64 \<noteq> cp d div 64 \<Longrightarrow> cp c div 64 < cp d div 64 \<longleftrightarrow> cp c < cp d"
    by (metis div_le_mono leD linorder_neqE_nat nat_less_le)
  have lo: "128 \<le> cp x \<Longrightarrow> 2 \<le> cp x div 64" for x by linarith
  show ?thesis
    using False ne q q' q'' lo [of c] lo [of d]
    by (auto simp: utf8_char_def less_char_def)
qed

lemma compareBytes_Cons:
  "compareBytes (c # s) (d # t) = (if c = d then compareBytes s t else if c < d then - 1 else 1)"
  by (simp add: compareBytes_def cmp_bytes_char)

lemma cmp_bytes_Nil_right: "cmp_bytes xs [] = int (length xs)"
  by (cases xs) auto

lemma compareBytes_sgn:
  "compareBytes s t < 0 \<longleftrightarrow> s < t" "compareBytes s t = 0 \<longleftrightarrow> s = t"
proof (induction s arbitrary: t)
  case Nil
  {
    case 1
    show ?case
    proof (cases t)
      case (Cons d t')
      then show ?thesis by (simp add: compareBytes_def utf8_char_def)
    qed (simp add: compareBytes_def)
  next
    case 2
    show ?case
    proof (cases t)
      case (Cons d t')
      then show ?thesis by (simp add: compareBytes_def utf8_char_def)
    qed (simp add: compareBytes_def)
  }
next
  case (Cons c s)
  {
    case 1
    show ?case using Cons.IH
      by (cases t) (auto simp: compareBytes_Cons, simp add: compareBytes_def cmp_bytes_Nil_right)
  next
    case 2
    show ?case using Cons.IH
      by (cases t) (auto simp: compareBytes_Cons, simp add: compareBytes_def cmp_bytes_Nil_right utf8_char_def split: if_splits)
  }
qed

section \<open>Sort keys keep the order\<close>

definition key_range :: "int \<Rightarrow> bool" where
  "key_range x \<longleftrightarrow> - (2 ^ 63) \<le> x \<and> x < 2 ^ 63"

lemma hex_key_in_range:
  assumes "key_range x"
  shows "length (hex_key x) = 16" "\<forall>c\<in>set (hex_key x). digit_of 16 c"
    "read_base 16 (hex_key x) = nat (x + 2 ^ 63)"
proof -
  have r: "0 \<le> x + 2 ^ 63" "nat (x + 2 ^ 63) < 16 ^ 16"
    using assms by (auto simp: key_range_def)
  have k: "hex_key x = pad_start 16 (CHR ''0'') (show_base 16 (nat (x + 2 ^ 63)))"
    using r(1) by (simp add: hex_key_def Let_def)
  have "length (show_base 16 (nat (x + 2 ^ 63))) \<le> 16"
    using r(2) by (intro show_base_length) auto
  then show "length (hex_key x) = 16" by (simp add: k)
  have "digit_of 10 (CHR ''0'')" by (simp add: digit_of_10) (simp add: is_digit_def)
  then have "digit_of 16 (CHR ''0'')" by (auto simp: digit_of_def)
  then show "\<forall>c\<in>set (hex_key x). digit_of 16 c"
    using show_base_digits [of 16] by (auto simp: k pad_start_def)
  show "read_base 16 (hex_key x) = nat (x + 2 ^ 63)"
    by (simp add: k read_show)
qed

lemma hex_key_order:
  assumes "key_range x" "key_range y"
  shows "hex_key x < hex_key y \<longleftrightarrow> x < y" "hex_key x = hex_key y \<longleftrightarrow> x = y"
proof -
  note hx = hex_key_in_range [OF assms(1)] and hy = hex_key_in_range [OF assms(2)]
  have nn: "0 \<le> x + 2 ^ 63" "0 \<le> y + 2 ^ 63" using assms by (auto simp: key_range_def)
  have "hex_key x < hex_key y \<longleftrightarrow> read_base 16 (hex_key x) < read_base 16 (hex_key y)"
    using numeral_order [of "hex_key x" "hex_key y" 16] hx hy by simp
  also have "\<dots> \<longleftrightarrow> nat (x + 2 ^ 63) < nat (y + 2 ^ 63)" by (simp only: hx(3) hy(3))
  also have "\<dots> \<longleftrightarrow> x < y" using nn by linarith
  finally show "hex_key x < hex_key y \<longleftrightarrow> x < y" .
  have "hex_key x = hex_key y \<Longrightarrow> nat (x + 2 ^ 63) = nat (y + 2 ^ 63)" using hx(3) hy(3) by metis
  then show "hex_key x = hex_key y \<longleftrightarrow> x = y" using nn by (auto simp: eq_nat_nat_iff)
qed

lemma safe_int_key_range: "safe_int x \<Longrightarrow> key_range x"
  by (auto simp: safe_int_def key_range_def)

section \<open>Decimals read back\<close>

lemma match_decimal_parts:
  assumes "ip \<noteq> []" "list_all is_digit ip" "list_all is_digit frac"
  shows "match_decimal ((if neg then ''-'' else []) @ ip @ (if frac = [] then [] else CHR ''.'' # frac))
    = Some (neg, ip, frac)"
proof -
  let ?r = "ip @ (if frac = [] then [] else CHR ''.'' # frac)"
  have dot: "\<not> is_digit (CHR ''.'')" by (simp add: is_digit_def)
  have tw: "takeWhile is_digit ?r = ip" "dropWhile is_digit ?r = (if frac = [] then [] else CHR ''.'' # frac)"
    using assms(2) dot by (auto simp: list_all_iff takeWhile_append2 dropWhile_append2)
  have "\<not> is_digit (CHR ''-'')" by (simp add: is_digit_def)
  then obtain c cs where ip: "ip = c # cs" "c \<noteq> CHR ''-''"
    using assms(1,2) by (metis list.exhaust list.pred_inject(2))
  have split: "(case (if neg then ''-'' else []) @ ?r of [] \<Rightarrow> (False, [])
      | c # cs \<Rightarrow> if c = CHR ''-'' then (True, cs) else (False, (if neg then ''-'' else []) @ ?r)) = (neg, ?r)"
    using ip by (cases neg) auto
  show ?thesis
    unfolding match_decimal_def split Let_def prod.case tw using assms by simp
qed

lemma formatMinor_parts:
  obtains ip frac where "ip \<noteq> []" "list_all is_digit ip" "list_all is_digit frac" "length frac = scale"
    "read_nat (ip @ frac) = nat \<bar>m\<bar>"
    "formatMinor m scale = (if m < 0 then ''-'' else []) @ ip @ (if frac = [] then [] else CHR ''.'' # frac)"
proof -
  define ds where "ds = pad_start (scale + 1) (CHR ''0'') (show_nat (nat \<bar>m\<bar>))"
  have len: "scale < length ds" by (simp add: ds_def)
  have all: "list_all is_digit ds"
    using show_base_digits [of 10 _ "nat \<bar>m\<bar>"]
    by (auto simp: ds_def pad_start_def list_all_iff digit_of_10, simp add: is_digit_def)
  let ?ip = "take (length ds - scale) ds" and ?fr = "drop (length ds - scale) ds"
  have eq: "formatMinor m scale = (if m < 0 then ''-'' else []) @ ?ip @ (if ?fr = [] then [] else CHR ''.'' # ?fr)"
  proof -
    have "?fr = [] \<longleftrightarrow> \<not> 0 < scale" using len by auto
    then show ?thesis unfolding formatMinor_def ds_def [symmetric] Let_def by simp
  qed
  show thesis
  proof (rule that [of ?ip ?fr])
    show "?ip \<noteq> []" using len by auto
    show "list_all is_digit ?ip" "list_all is_digit ?fr"
      using all by (auto simp: list_all_iff dest: in_set_takeD in_set_dropD)
    show "length ?fr = scale" using len by simp
    show "read_nat (?ip @ ?fr) = nat \<bar>m\<bar>" by (simp add: ds_def read_show)
    show "formatMinor m scale = (if m < 0 then ''-'' else []) @ ?ip @ (if ?fr = [] then [] else CHR ''.'' # ?fr)"
      by (rule eq)
  qed
qed

lemma formatMinor_match:
  "\<exists>ip frac. match_decimal (formatMinor m scale) = Some (m < 0, ip, frac) \<and> length frac = scale \<and>
     minor_of (m < 0) ip frac scale = m"
proof -
  obtain ip frac where p: "ip \<noteq> []" "list_all is_digit ip" "list_all is_digit frac" "length frac = scale"
    "read_nat (ip @ frac) = nat \<bar>m\<bar>"
    "formatMinor m scale = (if m < 0 then ''-'' else []) @ ip @ (if frac = [] then [] else CHR ''.'' # frac)"
    by (rule formatMinor_parts)
  have "match_decimal (formatMinor m scale) = Some (m < 0, ip, frac)"
    unfolding p(6) by (rule match_decimal_parts) (use p in auto)
  moreover have "minor_of (m < 0) ip frac scale = m"
    using p(4,5) by (auto simp: minor_of_def pad_end_def)
  ultimately show ?thesis using p(4) by blast
qed

lemma toMinor_formatMinor: "toMinor (formatMinor m scale) scale = Inr m"
  using formatMinor_match [of m scale] by (auto simp: toMinor_def)

lemma toMinor_Inr:
  "toMinor s scale = Inr m \<longleftrightarrow> (\<exists>neg ip frac. match_decimal s = Some (neg, ip, frac) \<and>
     length frac \<le> scale \<and> m = minor_of neg ip frac scale)"
  by (auto simp: toMinor_def codec_fail_def split: option.splits prod.splits if_splits)

lemma decodeDecimal_InrD:
  assumes "decodeDecimal input so cur mn mx = Inr s"
  shows "\<exists>sc x. (case cur of Some c \<Rightarrow> currencyScale c | None \<Rightarrow> Inr (case so of None \<Rightarrow> 2 | Some n \<Rightarrow> n)) = Inr sc \<and>
     s = formatMinor x sc \<and> safe_int x \<and> check_bound (<) x mn sc = Inr () \<and> check_bound (>) x mx sc = Inr ()"
proof -
  let ?S = "(case cur of Some c \<Rightarrow> currencyScale c | None \<Rightarrow> Inr (case so of None \<Rightarrow> 2 | Some n \<Rightarrow> n)) :: nat res"
  obtain sc where sc: "?S = Inr sc" using assms by (cases ?S) (simp_all add: decodeDecimal_def)
  obtain w where w: "input = JStr w"
    using assms sc by (cases input) (simp_all add: decodeDecimal_def codec_fail_def)
  obtain neg ip frac where "match_decimal w = Some (neg, ip, frac)"
    using assms sc w by (cases "match_decimal w") (auto simp: decodeDecimal_def codec_fail_def)
  with assms sc w have "safe_int (minor_of neg ip frac sc) \<and> s = formatMinor (minor_of neg ip frac sc) sc \<and>
      check_bound (<) (minor_of neg ip frac sc) mn sc = Inr () \<and> check_bound (>) (minor_of neg ip frac sc) mx sc = Inr ()"
    by (simp add: decodeDecimal_def codec_fail_def Let_def bind_res_Inr_iff split: if_splits)
  with sc show ?thesis by blast
qed

end
