(* ===== verification/Codecs_Time.thy ===== *)
theory Codecs_Time
  imports Codecs
begin

text \<open>
  The temporal codecs of \<open>packages/runtime/src/codecs.ts\<close>: calendar dates, RFC 3339 instants
  brought to canonical UTC, local times and fixed-unit durations. The regular expressions are
  matchers over the characters; \<open>Date.UTC\<close>, \<open>toISOString\<close> and \<open>Date.parse\<close> rest on Js_Date.
\<close>

section \<open>Matchers\<close>

definition match_ymd :: "string \<Rightarrow> (string \<times> string \<times> string) option" where
  "match_ymd s =
     (case s of
        [y1, y2, y3, y4, p, m1, m2, q, d1, d2] \<Rightarrow>
          if list_all is_digit [y1, y2, y3, y4, m1, m2, d1, d2] \<and> p = CHR ''-'' \<and> q = CHR ''-''
          then Some ([y1, y2, y3, y4], [m1, m2], [d1, d2]) else None
      | _ \<Rightarrow> None)"

definition match_hms :: "string \<Rightarrow> (string \<times> string \<times> string) option" where
  "match_hms s =
     (case s of
        [h1, h2, p, m1, m2, q, s1, s2] \<Rightarrow>
          if list_all is_digit [h1, h2, m1, m2, s1, s2] \<and> p = CHR '':'' \<and> q = CHR '':''
          then Some ([h1, h2], [m1, m2], [s1, s2]) else None
      | _ \<Rightarrow> None)"

definition match_hm :: "string \<Rightarrow> (string \<times> string) option" where
  "match_hm s =
     (case s of
        [h1, h2, p, m1, m2] \<Rightarrow>
          if list_all is_digit [h1, h2, m1, m2] \<and> p = CHR '':'' then Some ([h1, h2], [m1, m2]) else None
      | _ \<Rightarrow> None)"

text \<open>An optional fraction, then \<open>Z\<close> or a signed \<open>HH:MM\<close> offset (in minutes).\<close>

definition match_offset :: "string \<Rightarrow> int option" where
  "match_offset s =
     (if s = ''Z'' then Some 0
      else case s of
          [] \<Rightarrow> None
        | c # r \<Rightarrow>
            if c = CHR ''+'' \<or> c = CHR ''-'' then
              map_option (\<lambda>(h, m). (if c = CHR ''-'' then - 1 else 1) * int (read_nat h * 60 + read_nat m)) (match_hm r)
            else None)"

definition match_frac_offset :: "string \<Rightarrow> (string \<times> int) option" where
  "match_frac_offset s =
     (case s of
        [] \<Rightarrow> None
      | c # r \<Rightarrow>
          if c = CHR ''.'' then
            (let f = takeWhile is_digit r
             in if f = [] then None else map_option (\<lambda>off. (f, off)) (match_offset (dropWhile is_digit r)))
          else map_option (\<lambda>off. ([], off)) (match_offset s))"

record instant_text =
  it_ymd :: "string \<times> string \<times> string"
  it_hms :: "string \<times> string \<times> string"
  it_frac :: string
  it_off :: int

definition match_datetime :: "string \<Rightarrow> instant_text option" where
  "match_datetime s =
     (if length s < 20 \<or> s ! 10 \<noteq> CHR ''T'' then None
      else case (match_ymd (take 10 s), match_hms (take 8 (drop 11 s)), match_frac_offset (drop 19 s)) of
          (Some ymd, Some hms, Some (f, off)) \<Rightarrow> Some \<lparr>it_ymd = ymd, it_hms = hms, it_frac = f, it_off = off\<rparr>
        | _ \<Rightarrow> None)"

section \<open>Date.UTC and toISOString\<close>

text \<open>\<open>Date.UTC\<close> takes a year of 0..99 as 1900..1999.\<close>

definition utc_year :: "int \<Rightarrow> int" where
  "utc_year y = (if 0 \<le> y \<and> y \<le> 99 then 1900 + y else y)"

definition date_utc :: "int \<Rightarrow> int \<Rightarrow> int \<Rightarrow> int \<Rightarrow> int \<Rightarrow> int \<Rightarrow> int \<Rightarrow> int" where
  "date_utc y m d h mi s ms =
     days_from_civil (utc_year y) m d * 86400000 + h * 3600000 + mi * 60000 + s * 1000 + ms"

definition pad_int :: "nat \<Rightarrow> int \<Rightarrow> string" where
  "pad_int n i = pad_start n (CHR ''0'') (show_nat (nat i))"

definition iso_year :: "int \<Rightarrow> string" where
  "iso_year y = (if 0 \<le> y \<and> y \<le> 9999 then pad_int 4 y
     else if y < 0 then CHR ''-'' # pad_int 6 (- y) else CHR ''+'' # pad_int 6 y)"

definition to_iso :: "int \<Rightarrow> string" where
  "to_iso t =
     (let (y, m, d) = civil_from_days (t div 86400000); r = t mod 86400000
      in iso_year y @ ''-'' @ pad_int 2 m @ ''-'' @ pad_int 2 d @ ''T'' @ pad_int 2 (r div 3600000) @ '':''
         @ pad_int 2 (r div 60000 mod 60) @ '':'' @ pad_int 2 (r div 1000 mod 60) @ ''.'' @ pad_int 3 (r mod 1000) @ ''Z'')"

section \<open>The decoders\<close>

definition validYmd :: "int \<Rightarrow> int \<Rightarrow> int \<Rightarrow> bool" where
  "validYmd y m d =
     (if m < 1 \<or> m > 12 \<or> d < 1 then False
      else d \<le> [31, if (y mod 4 = 0 \<and> y mod 100 \<noteq> 0) \<or> y mod 400 = 0 then 29 else 28,
                 31, 30, 31, 30, 31, 31, 30, 31, 30, 31] ! nat (m - 1))"

definition decodeDate :: "jsval \<Rightarrow> string res" where
  "decodeDate input =
     (case input of
        JStr s \<Rightarrow>
          (case match_ymd s of
             None \<Rightarrow> codec_fail ''InvalidDate''
           | Some (y, m, d) \<Rightarrow>
               if validYmd (int (read_nat y)) (int (read_nat m)) (int (read_nat d)) then Inr s
               else codec_fail ''InvalidDate'')
      | _ \<Rightarrow> codec_fail ''InvalidDate'')"

datatype precision = PrecMs | PrecS

text \<open>The instant, in milliseconds, of a matched RFC 3339 text.\<close>

definition instant_of :: "instant_text \<Rightarrow> int" where
  "instant_of t =
     (let (y, mo, d) = it_ymd t; (h, mi, s) = it_hms t
      in date_utc (int (read_nat y)) (int (read_nat mo)) (int (read_nat d)) (int (read_nat h))
           (int (read_nat mi)) (int (read_nat s))
           (if it_frac t = [] then 0 else int (read_nat (pad_end 3 (CHR ''0'') (it_frac t))))
         - it_off t * 60000)"

definition datetime_components_ok :: "instant_text \<Rightarrow> bool" where
  "datetime_components_ok t =
     (let (y, mo, d) = it_ymd t; (h, mi, s) = it_hms t
      in validYmd (int (read_nat y)) (int (read_nat mo)) (int (read_nat d)) \<and>
         read_nat h \<le> 23 \<and> read_nat mi \<le> 59 \<and> read_nat s \<le> 59)"

definition decodeDatetime :: "jsval \<Rightarrow> precision \<Rightarrow> string res" where
  "decodeDatetime input prec =
     (case input of
        JStr s \<Rightarrow>
          (case match_datetime s of
             None \<Rightarrow> codec_fail ''InvalidDatetime''
           | Some t \<Rightarrow>
               if \<not> datetime_components_ok t then codec_fail ''InvalidDatetime''
               else if length (it_frac t) > (if prec = PrecMs then 3 else 0) then codec_fail ''PrecisionExceeded''
               else let iso = to_iso (instant_of t)
                    in Inr (if prec = PrecMs then iso else take 19 iso @ ''Z''))
      | _ \<Rightarrow> codec_fail ''InvalidDatetime'')"

definition decodeLocalTime :: "jsval \<Rightarrow> string res" where
  "decodeLocalTime input =
     (case input of
        JStr s \<Rightarrow>
          (case (match_hm s, match_hms s) of
             (Some (h, m), _) \<Rightarrow>
               if read_nat h > 23 \<or> read_nat m > 59 then codec_fail ''InvalidLocalTime''
               else Inr (h @ '':'' @ m @ '':00'')
           | (None, Some (h, m, sec)) \<Rightarrow>
               if read_nat h > 23 \<or> read_nat m > 59 \<or> read_nat sec > 59 then codec_fail ''InvalidLocalTime''
               else Inr (h @ '':'' @ m @ '':'' @ sec)
           | (None, None) \<Rightarrow> codec_fail ''InvalidLocalTime'')
      | _ \<Rightarrow> codec_fail ''InvalidLocalTime'')"

text \<open>
  \<open>^P(?:(\d+)D)?(?:T(?:(\d+)H)?(?:(\d+)M)?(?:(\d+)S)?)?$\<close>. \<open>drop_unit u s\<close> drops one optional
  \<open>digits u\<close> group.
\<close>

definition drop_unit :: "char \<Rightarrow> string \<Rightarrow> string" where
  "drop_unit u s =
     (if takeWhile is_digit s \<noteq> [] then
        (case dropWhile is_digit s of [] \<Rightarrow> s | c # r \<Rightarrow> if c = u then r else s)
      else s)"

definition match_duration :: "string \<Rightarrow> bool" where
  "match_duration s =
     (case s of
        [] \<Rightarrow> False
      | p # r \<Rightarrow> p = CHR ''P'' \<and>
          (case drop_unit (CHR ''D'') r of
             [] \<Rightarrow> True
           | t # r' \<Rightarrow> t = CHR ''T'' \<and>
               drop_unit (CHR ''S'') (drop_unit (CHR ''M'') (drop_unit (CHR ''H'') r')) = []))"

definition decodeDuration :: "jsval \<Rightarrow> string res" where
  "decodeDuration input =
     (case input of
        JStr s \<Rightarrow> if \<not> match_duration s \<or> s = ''P'' \<or> s = ''PT'' then codec_fail ''InvalidDuration'' else Inr s
      | _ \<Rightarrow> codec_fail ''InvalidDuration'')"

text \<open>
  \<open>Date.parse\<close> on the canonical ISO form the codecs produce; other texts are read by the
  platform, the parameter \<open>other\<close>.
\<close>

definition date_parse :: "(string \<Rightarrow> int option) \<Rightarrow> string \<Rightarrow> int option" where
  "date_parse other s =
     (case match_datetime s of
        None \<Rightarrow> other s
      | Some t \<Rightarrow>
          if datetime_components_ok t \<and> length (it_frac t) \<le> 3 \<and> 100 \<le> read_nat (fst (it_ymd t)) \<and> \<bar>it_off t\<bar> < 1440
          then Some (instant_of t) else other s)"

lemma validYmd_valid_date: "validYmd y m d \<longleftrightarrow> valid_date y m d"
proof (cases "1 \<le> m \<and> m \<le> 12")
  case True
  then have m: "1 \<le> m" "m \<le> 12" by simp_all
  show ?thesis using month_cases [OF m]
    by (elim disjE; simp add: validYmd_def valid_date_def month_len_def is_leap_def eval_nat_numeral)
next
  case False
  then show ?thesis by (auto simp: validYmd_def valid_date_def)
qed


section \<open>Canonical instants read back\<close>

lemma pad_int_facts:
  assumes "0 \<le> i" "i < 10 ^ n" "0 < n"
  shows "length (pad_int n i) = n" "list_all is_digit (pad_int n i)" "read_nat (pad_int n i) = nat i"
proof -
  have "nat i < 10 ^ n" using assms(1,2) by (simp add: nat_less_iff)
  then have "length (show_nat (nat i)) \<le> n" using assms(3) by (intro show_base_length) auto
  then show "length (pad_int n i) = n" by (simp add: pad_int_def)
  show "list_all is_digit (pad_int n i)"
    using show_base_digits [of 10 _ "nat i"]
    by (auto simp: pad_int_def pad_start_def list_all_iff digit_of_10, simp add: is_digit_def)
  show "read_nat (pad_int n i) = nat i" by (simp add: pad_int_def read_show)
qed

lemma length2: "length xs = 2 \<longleftrightarrow> (\<exists>a b. xs = [a, b])"
  by (auto simp: eval_nat_numeral length_Suc_conv)

lemma length4: "length xs = 4 \<longleftrightarrow> (\<exists>a b c d. xs = [a, b, c, d])"
  by (auto simp: eval_nat_numeral length_Suc_conv)

lemma match_ymd_join:
  assumes "length y = 4" "length m = 2" "length d = 2" "list_all is_digit y" "list_all is_digit m" "list_all is_digit d"
  shows "match_ymd (y @ ''-'' @ m @ ''-'' @ d) = Some (y, m, d)"
  using assms by (auto simp: length2 length4 match_ymd_def)

lemma match_hms_join:
  assumes "length h = 2" "length m = 2" "length s = 2" "list_all is_digit h" "list_all is_digit m" "list_all is_digit s"
  shows "match_hms (h @ '':'' @ m @ '':'' @ s) = Some (h, m, s)"
  using assms by (auto simp: length2 match_hms_def)

lemma match_frac_Z:
  assumes "f \<noteq> []" "list_all is_digit f"
  shows "match_frac_offset (CHR ''.'' # f @ ''Z'') = Some (f, 0)"
proof -
  have "\<not> is_digit (CHR ''Z'')" by (simp add: is_digit_def)
  then have "takeWhile is_digit (f @ ''Z'') = f" "dropWhile is_digit (f @ ''Z'') = ''Z''"
    using assms(2) by (auto simp: list_all_iff takeWhile_append2 dropWhile_append2)
  then show ?thesis using assms(1) by (simp add: match_frac_offset_def match_offset_def)
qed

lemma datetime_slices:
  assumes "length D = 10" "length T = 8"
  shows "take 10 (D @ x # T @ F) = D" "(D @ x # T @ F) ! 10 = x" "take 8 (drop 11 (D @ x # T @ F)) = T"
    "drop 19 (D @ x # T @ F) = F" "19 \<le> length (D @ x # T @ F)"
  using assms by (simp_all add: nth_append)

lemma match_datetime_join:
  assumes "length y = 4" "length m = 2" "length d = 2" "length h = 2" "length mi = 2" "length s = 2" "f \<noteq> []"
    and "list_all is_digit y" "list_all is_digit m" "list_all is_digit d" "list_all is_digit h"
    and "list_all is_digit mi" "list_all is_digit s" "list_all is_digit f"
  shows "match_datetime ((y @ ''-'' @ m @ ''-'' @ d) @ ''T'' @ (h @ '':'' @ mi @ '':'' @ s) @ CHR ''.'' # f @ ''Z'')
    = Some \<lparr>it_ymd = (y, m, d), it_hms = (h, mi, s), it_frac = f, it_off = 0\<rparr>"
proof -
  let ?D = "y @ ''-'' @ m @ ''-'' @ d" and ?T = "h @ '':'' @ mi @ '':'' @ s" and ?F = "CHR ''.'' # f @ ''Z''"
  let ?S = "?D @ ''T'' @ ?T @ ?F"
  have len: "length ?D = 10" "length ?T = 8" using assms by simp_all
  define D T F S where defs: "D = ?D" "T = ?T" "F = ?F" "S = ?S"
  have S: "S = D @ CHR ''T'' # T @ F" by (simp add: defs)
  note sl = datetime_slices [of D T "CHR ''T''" F, folded S]
  have "length D = 10" "length T = 8" "F \<noteq> []" using len by (simp_all add: defs)
  moreover from this have "\<not> length S < 20" by (cases F) (simp_all add: S)
  moreover have "match_ymd D = Some (y, m, d)" "match_hms T = Some (h, mi, s)" "match_frac_offset F = Some (f, 0)"
    unfolding defs
    using match_ymd_join [OF assms(1-3,8-10)] match_hms_join [OF assms(4-6,11-13)] match_frac_Z [OF assms(7,14)]
    by blast+
  ultimately have "match_datetime S = Some \<lparr>it_ymd = (y, m, d), it_hms = (h, mi, s), it_frac = f, it_off = 0\<rparr>"
    using sl by (simp add: match_datetime_def)
  then show ?thesis by (simp only: defs(4))
qed

lemma instant_of_digits:
  assumes "read_nat ys = nat y" "read_nat ms = nat m" "read_nat ds = nat d" "read_nat hs = nat h"
    and "read_nat mis = nat mi" "read_nat ss = nat s" "read_nat f = nat f'" "length f = 3"
    and "100 \<le> y" "0 \<le> m" "0 \<le> d" "0 \<le> h" "0 \<le> mi" "0 \<le> s" "0 \<le> f'"
  shows "instant_of \<lparr>it_ymd = (ys, ms, ds), it_hms = (hs, mis, ss), it_frac = f, it_off = 0\<rparr>
    = days_from_civil y m d * 86400000 + (h * 3600000 + mi * 60000 + s * 1000 + f')"
proof -
  have "f \<noteq> []" "pad_end 3 (CHR ''0'') f = f" using assms(8) by (auto simp: pad_end_def)
  moreover have "utc_year (int (read_nat ys)) = y" using assms(1,9) by (simp add: utc_year_def)
  ultimately show ?thesis using assms
    by (simp add: instant_of_def date_utc_def)
qed

lemma time_of_day:
  fixes r :: int
  assumes "0 \<le> r" "r < 86400000"
  shows "0 \<le> r div 3600000" "r div 3600000 \<le> 23" "0 \<le> r div 60000 mod 60" "r div 60000 mod 60 \<le> 59"
    "0 \<le> r div 1000 mod 60" "r div 1000 mod 60 \<le> 59" "0 \<le> r mod 1000" "r mod 1000 \<le> 999"
    "r div 3600000 * 3600000 + r div 60000 mod 60 * 60000 + r div 1000 mod 60 * 1000 + r mod 1000 = r"
proof -
  show "0 \<le> r div 3600000" using assms by (simp add: pos_imp_zdiv_nonneg_iff)
  have "r < 24 * 3600000" using assms by simp
  then have "r div 3600000 < 24" by (simp add: div_less_iff_less_mult)
  then show "r div 3600000 \<le> 23" by simp
  show "0 \<le> r div 60000 mod 60" "0 \<le> r div 1000 mod 60" "0 \<le> r mod 1000" by simp_all
  show "r div 60000 mod 60 \<le> 59" "r div 1000 mod 60 \<le> 59" "r mod 1000 \<le> 999"
    using pos_mod_bound [of 60 "r div 60000"] pos_mod_bound [of 60 "r div 1000"] pos_mod_bound [of 1000 r] by auto
  have a: "r = r div 1000 * 1000 + r mod 1000" by simp
  have b: "r div 1000 = r div 1000 div 60 * 60 + r div 1000 mod 60" by simp
  have c: "r div 60000 = r div 60000 div 60 * 60 + r div 60000 mod 60" by simp
  have d: "r div 1000 div 60 = r div 60000" "r div 60000 div 60 = r div 3600000"
    by (simp_all add: zdiv_zmult2_eq [symmetric])
  show "r div 3600000 * 3600000 + r div 60000 mod 60 * 60000 + r div 1000 mod 60 * 1000 + r mod 1000 = r"
    using a b c unfolding d by linarith
qed

definition iso_range :: "int \<Rightarrow> bool" where
  "iso_range t \<longleftrightarrow> (let y = fst (civil_from_days (t div 86400000)) in 100 \<le> y \<and> y \<le> 9999)"

lemma to_iso_match:
  assumes "iso_range t"
  shows "\<exists>u. match_datetime (to_iso t) = Some u \<and> datetime_components_ok u \<and> length (it_frac u) = 3 \<and>
    it_off u = 0 \<and> 100 \<le> read_nat (fst (it_ymd u)) \<and> instant_of u = t"
proof -
  obtain y m d where c: "civil_from_days (t div 86400000) = (y, m, d)" by (cases "civil_from_days (t div 86400000)") auto
  have y: "100 \<le> y" "y \<le> 9999" using assms c by (simp_all add: iso_range_def)
  have v: "valid_date y m d" and days: "days_from_civil y m d = t div 86400000"
    using days_from_civil_inverse [OF c] by auto
  have m: "1 \<le> m" "m \<le> 12" "1 \<le> d" "d \<le> 31"
    using v by (auto simp: valid_date_def month_len_def split: if_splits)
  define r where "r = t mod 86400000"
  have r: "0 \<le> r" "r < 86400000" by (simp_all add: r_def)
  note tod = time_of_day [OF r]
  let ?h = "r div 3600000" and ?mi = "r div 60000 mod 60" and ?s = "r div 1000 mod 60" and ?ms = "r mod 1000"
  have P4: "length (pad_int 4 y) = 4" "list_all is_digit (pad_int 4 y)" "read_nat (pad_int 4 y) = nat y"
    using y by (intro pad_int_facts; simp)+
  have P2: "length (pad_int 2 i) = 2" "list_all is_digit (pad_int 2 i)" "read_nat (pad_int 2 i) = nat i"
    if "0 \<le> i" "i \<le> 59" for i using that by (intro pad_int_facts; simp)+
  note Pm = P2 [of m] and Pd = P2 [of d] and Ph = P2 [OF tod(1)] and Pmi = P2 [OF tod(3,4)] and Ps = P2 [OF tod(5,6)]
  have P3: "length (pad_int 3 ?ms) = 3" "list_all is_digit (pad_int 3 ?ms)" "read_nat (pad_int 3 ?ms) = nat ?ms"
    using tod(7,8) by (intro pad_int_facts; simp)+
  have ne: "pad_int 3 ?ms \<noteq> []" using P3(1) by auto
  have mm: "0 \<le> m" "m \<le> 59" "0 \<le> d" "d \<le> 59" "?h \<le> 59" using m tod(2) by linarith+
  note Q = P4 Pm [OF mm(1,2)] Pd [OF mm(3,4)] Ph [OF mm(5)] Pmi Ps P3
  have iso: "to_iso t = (pad_int 4 y @ ''-'' @ pad_int 2 m @ ''-'' @ pad_int 2 d) @ ''T'' @
      (pad_int 2 ?h @ '':'' @ pad_int 2 ?mi @ '':'' @ pad_int 2 ?s) @ CHR ''.'' # pad_int 3 ?ms @ ''Z''"
    using y by (simp add: to_iso_def c r_def [symmetric] iso_year_def)
  let ?u = "\<lparr>it_ymd = (pad_int 4 y, pad_int 2 m, pad_int 2 d), it_hms = (pad_int 2 ?h, pad_int 2 ?mi, pad_int 2 ?s),
      it_frac = pad_int 3 ?ms, it_off = 0\<rparr>"
  have mt: "match_datetime (to_iso t) = Some ?u"
    unfolding iso by (rule match_datetime_join) (rule Q ne)+
  have ok: "datetime_components_ok ?u"
  proof -
    have "int (nat y) = y" "int (nat m) = m" "int (nat d) = d" using y mm by simp_all
    moreover have "nat ?h \<le> 23" "nat ?mi \<le> 59" "nat ?s \<le> 59"
      unfolding nat_le_iff using tod(2,4,6) by simp_all
    ultimately show ?thesis using v by (simp only: datetime_components_ok_def Q validYmd_valid_date
        instant_text.select_convs Let_def prod.case)
  qed
  have "instant_of ?u = days_from_civil y m d * 86400000 + (?h * 3600000 + ?mi * 60000 + ?s * 1000 + ?ms)"
    by (rule instant_of_digits) (rule Q mm tod y(1))+
  then have "instant_of ?u = t" unfolding tod(9) days by (simp add: r_def)
  moreover have "100 \<le> read_nat (pad_int 4 y)" unfolding P4(3) using y(1) by simp
  ultimately show ?thesis
    by (intro exI [of _ ?u] conjI mt ok) (simp_all only: instant_text.select_convs fst_conv P3(1))
qed

lemma decodeDatetime_iso: "iso_range t \<Longrightarrow> decodeDatetime (JStr (to_iso t)) PrecMs = Inr (to_iso t)"
  using to_iso_match [of t] by (auto simp: decodeDatetime_def Let_def)

lemma date_parse_iso: "iso_range t \<Longrightarrow> date_parse other (to_iso t) = Some t"
  using to_iso_match [of t] by (auto simp: date_parse_def)

end
