(* ===== verification/Model.thy ===== *)
theory Model
  imports Codecs_Time
begin

text \<open>
  The compiled bundle the runtime interprets (\<open>packages/runtime/src/model.ts\<close>): types,
  constraints, expressions, fields, resources and their decorators, and the \<open>Model\<close> class with
  the checks its constructor makes and its lookups.
\<close>

section \<open>Types and expressions\<close>

datatype literal =
    LInt string | LDecimal string | LString string | LBool bool | LNull
  | LDuration string | LPercent string | LEnumMember string string

datatype constr =
    CLength "nat option" "nat option"
  | CCompare string literal
  | CPattern string

datatype collection_kind = ColList | ColSet | ColMap

datatype type_base =
    TCollection collection_kind type_spec
  | TScalar string "string list"
  | TEnum string
  | TShape string
  | TReference string
  | TRecord string
  | TIdentity string
  | TStatus string
  | TMessage string string
and type_spec = TypeSpec (ts_base: type_base) (ts_optional: bool)
    (ts_normalizers: "string list") (ts_constraints: "constr list")

datatype expr =
    EBinary string expr expr
  | EUnary string expr
  | EName "string list"
  | ELiteral literal
  | ECall "string list" "expr list"

section \<open>Resources\<close>

record sequence_decl =
  sq_partition :: "string option"
  sq_start :: int
  sq_max :: int

record field =
  f_name :: string
  f_type :: type_spec
  f_secret :: bool
  f_sequence :: "sequence_decl option"
  f_default :: "literal option"
  f_derived :: "expr option"
  f_immutable :: bool
  f_serverOwned :: bool
  f_synthesized :: bool
  f_hidden :: bool

record unique_decl =
  u_name :: string
  u_fields :: "string list"
  u_within :: "string list"
  u_condition :: "(string \<times> string list) option"

record find_decl =
  fi_name :: string
  fi_fields :: "string list"
  fi_coveredBy :: string

record order_key =
  ok_field :: string
  ok_direction :: string

record list_decl =
  l_search :: bool
  l_name :: string
  l_fields :: "string list"
  l_order :: "order_key list"

record transition_decl =
  t_action :: string
  t_from :: "string list"
  t_to :: string
  t_input :: "field list"

record lifecycle_decl =
  lc_field :: string
  lc_states :: "string list"
  lc_initial :: string
  lc_terminals :: "string list"
  lc_transitions :: "transition_decl list"

record operation_decl =
  op_id :: string
  op_kind :: string
  op_query :: "string option"
  op_action :: "string option"

datatype subject_binding = SubjectKind string | SubjectFrom string

record decorators =
  dc_appendOnly :: bool
  dc_writeOnce :: bool
  dc_tenant :: bool
  dc_timestamps :: bool
  dc_softDelete :: bool
  dc_versioned :: bool
  dc_audited :: bool
  dc_hierarchical :: bool
  dc_effectiveDated :: "string list option"
  dc_purposeScoped :: bool
  dc_subject :: "subject_binding option"

record resource =
  r_id :: string
  r_name :: string
  r_blob :: bool
  r_decorators :: decorators
  r_fields :: "field list"
  r_uniques :: "unique_decl list"
  r_finds :: "find_decl list"
  r_lists :: "list_decl list"
  r_rules :: "expr list"
  r_lifecycle :: "lifecycle_decl option"
  r_operations :: "operation_decl list"

record enum_decl =
  en_id :: string
  en_name :: string
  en_members :: "(string \<times> string) list"

record shape_decl =
  sh_id :: string
  sh_fields :: "field list"

record view_decl =
  vw_source :: string
  vw_where :: "expr option"

record projection_decl =
  pj_source :: string
  pj_where :: "expr option"
  pj_filters :: "expr list"

record module_decl =
  mo_shapes :: "shape_decl list"
  mo_enums :: "enum_decl list"
  mo_resources :: "resource list"
  mo_views :: "view_decl list"
  mo_projections :: "projection_decl list"

record domain_ir =
  ir_version :: string
  ir_edition :: "string option"
  ir_requires :: "string list"
  ir_modules :: "module_decl list"

section \<open>The Model class\<close>

record app_model =
  m_ir :: domain_ir
  m_resources :: "resource list"
  m_views :: "view_decl list"
  m_projections :: "projection_decl list"
  m_enums :: "(string \<times> enum_decl) list"
  m_byId :: "(string \<times> resource) list"
  m_ops :: "(string \<times> (operation_decl \<times> resource)) list"

definition KNOWN_FEATURES :: "string list" where
  "KNOWN_FEATURES = [''sealed-content/1'', ''append-only/1'', ''governance/1'', ''conditional-unique/1'',
     ''projection-aggregates/1'', ''collections/1'', ''workflow-map/1'', ''sequences/1'', ''work-queues/1'',
     ''credentials/1'', ''search-exact/1'', ''actors/1'', ''mqtt/1'']"

definition DOMAIN_IR_VERSION :: string where
  "DOMAIN_IR_VERSION = ''domain-ir/1''"

definition is_reference_field :: "resource \<Rightarrow> string \<Rightarrow> bool" where
  "is_reference_field r n \<longleftrightarrow>
     list_ex (\<lambda>f. f_name f = n \<and> (case ts_base (f_type f) of TReference t \<Rightarrow> True | _ \<Rightarrow> False)) (r_fields r)"

text \<open>\<open>validateReferencePath\<close>: no path of three or more segments may start at a reference.\<close>

fun reference_path_ok :: "resource \<Rightarrow> expr \<Rightarrow> bool" where
  "reference_path_ok r (EName path) = (\<not> (length path > 2 \<and> is_reference_field r (hd path)))"
| "reference_path_ok r (EBinary op a b) = (reference_path_ok r a \<and> reference_path_ok r b)"
| "reference_path_ok r (EUnary op a) = reference_path_ok r a"
| "reference_path_ok r (ECall c as) = list_all (reference_path_ok r) as"
| "reference_path_ok r (ELiteral l) = True"

definition opt_list :: "'a option \<Rightarrow> 'a list" where
  "opt_list x = (case x of None \<Rightarrow> [] | Some a \<Rightarrow> [a])"

definition resource_exprs :: "view_decl list \<Rightarrow> projection_decl list \<Rightarrow> resource \<Rightarrow> expr list" where
  "resource_exprs views projections r =
     r_rules r @ concat (map (\<lambda>f. opt_list (f_derived f)) (r_fields r))
     @ concat (map (\<lambda>v. if vw_source v = r_id r then opt_list (vw_where v) else []) views)
     @ concat (map (\<lambda>p. if pj_source p = r_id r then opt_list (pj_where p) @ pj_filters p else []) projections)"

definition Model_new :: "domain_ir \<Rightarrow> app_model res" where
  "Model_new ir =
     (let mods = ir_modules ir;
          resources = concat (map mo_resources mods);
          views = concat (map mo_views mods);
          projections = concat (map mo_projections mods)
      in if ir_version ir \<noteq> DOMAIN_IR_VERSION then Inl (JsError ''unsupported IR version'')
         else if list_ex (\<lambda>f. f \<notin> set KNOWN_FEATURES) (ir_requires ir)
           then Inl (JsError ''unknown critical feature'')
         else if list_ex (\<lambda>r. \<not> list_all (reference_path_ok r) (resource_exprs views projections r)) resources
           then Inl (JsError ''unsupported multi-hop reference expression'')
         else Inr \<lparr>m_ir = ir, m_resources = resources, m_views = views, m_projections = projections,
            m_enums = foldl (\<lambda>m e. mput (en_id e) e m) [] (concat (map mo_enums mods)),
            m_byId = foldl (\<lambda>m r. mput (r_id r) r m) [] resources,
            m_ops = foldl (\<lambda>m (op, r). mput (op_id op) (op, r) m) []
                      (concat (map (\<lambda>r. map (\<lambda>op. (op, r)) (r_operations r)) resources))\<rparr>)"

text \<open>\<open>dependentsOf\<close>: the (child resource, field) pairs that reference a resource.\<close>

definition dependentsOf :: "app_model \<Rightarrow> string \<Rightarrow> (resource \<times> string) list" where
  "dependentsOf m rid =
     concat (map (\<lambda>r. map (\<lambda>f. (r, f_name f))
       (filter (\<lambda>f. ts_base (f_type f) = TReference rid \<and> (\<not> f_synthesized f \<or> f_name f = ''parent''))
         (r_fields r))) (m_resources m))"

definition model_resource :: "app_model \<Rightarrow> string \<Rightarrow> resource res" where
  "model_resource m rid =
     (case map_of (m_byId m) rid of None \<Rightarrow> Inl (JsError ''unknown resource'') | Some r \<Rightarrow> Inr r)"

definition model_operation :: "app_model \<Rightarrow> string \<Rightarrow> (operation_decl \<times> resource) option" where
  "model_operation m oid = map_of (m_ops m) oid"

definition enumValues :: "app_model \<Rightarrow> string \<Rightarrow> string list" where
  "enumValues m eid = (case map_of (m_enums m) eid of None \<Rightarrow> [] | Some e \<Rightarrow> map snd (en_members e))"

definition fieldOf :: "resource \<Rightarrow> string \<Rightarrow> field option" where
  "fieldOf r n = List.find (\<lambda>f. f_name f = n) (r_fields r)"

text \<open>\<open>scaleOf\<close>; the compiler emits a decimal's scale as digits.\<close>

definition scaleOf :: "type_spec \<Rightarrow> nat" where
  "scaleOf t =
     (case ts_base t of
        TScalar n args \<Rightarrow>
          if n = ''money'' then
            (let cur = (case args of [] \<Rightarrow> ''USD'' | a # _ \<Rightarrow> a)
             in case map_of [(''JPY'', 0), (''KRW'', 0), (''CLP'', 0), (''KWD'', 3), (''BHD'', 3)] cur of
                 None \<Rightarrow> 2 | Some s \<Rightarrow> s)
          else if n = ''decimal'' then (case args of [] \<Rightarrow> 2 | a # _ \<Rightarrow> read_nat a)
          else 0
      | _ \<Rightarrow> 0)"

section \<open>What a constructed model guarantees\<close>

lemma map_of_foldl_mput:
  "map_of (foldl (\<lambda>m x. mput (k x) x m) acc xs) i =
     (case List.find (\<lambda>x. k x = i) (rev xs) of None \<Rightarrow> map_of acc i | Some x \<Rightarrow> Some x)"
proof (induction xs rule: rev_induct)
  case Nil
  then show ?case by simp
next
  case (snoc x xs)
  then show ?case by simp
qed

lemma Model_new_byId:
  "Model_new ir = Inr m \<Longrightarrow> model_resource m i = Inr r \<Longrightarrow> r \<in> set (m_resources m) \<and> r_id r = i"
  by (auto simp: Model_new_def Let_def model_resource_def map_of_foldl_mput
      split: if_splits option.splits dest!: find_SomeD)

end
