(* ===== verification/Decode.thy ===== *)
theory Decode
  imports Model
begin

text \<open>
  The decode, normalize and validate stages of the write pipeline and the canonical output
  (\<open>packages/runtime/src/decode.ts\<close>): \<open>decodeValue\<close> over a declared type, \<open>decodeObject\<close> over a
  field list, \<open>canonicalize\<close>, and the expressions of derived fields and rules. What the JavaScript
  platform supplies (regular expressions, time zones, date parsing, binary64 arithmetic, locale
  collation) is the parameter \<open>platform\<close>.
\<close>

record platform =
  pl_ieee :: ieee
  pl_regex :: "string \<Rightarrow> string \<Rightarrow> bool"
  pl_timezone :: "string \<Rightarrow> bool"
  pl_dateparse :: "string \<Rightarrow> int option"

section \<open>Literals and bounds\<close>

fun literalValue :: "platform \<Rightarrow> literal \<Rightarrow> jsval" where
  "literalValue pl (LInt v) = js_number (pl_ieee pl) (JStr v)"
| "literalValue pl (LBool b) = JBool b"
| "literalValue pl LNull = JNull"
| "literalValue pl (LEnumMember e mem) = JStr mem"
| "literalValue pl (LDecimal v) = JStr v"
| "literalValue pl (LString v) = JStr v"
| "literalValue pl (LDuration v) = JStr v"
| "literalValue pl (LPercent v) = JStr v"

record bounds =
  bd_min :: jsval
  bd_max :: jsval
  bd_xmin :: jsval
  bd_xmax :: jsval

fun add_bound :: "platform \<Rightarrow> bounds \<Rightarrow> constr \<Rightarrow> bounds" where
  "add_bound pl b (CCompare op l) =
     (let v = literalValue pl l in
      if op = ''>='' then b\<lparr>bd_min := v\<rparr>
      else if op = ''<='' then b\<lparr>bd_max := v\<rparr>
      else if op = ''>'' then b\<lparr>bd_xmin := v\<rparr>
      else if op = ''<'' then b\<lparr>bd_xmax := v\<rparr>
      else b)"
| "add_bound pl b c = b"

definition boundsOf :: "platform \<Rightarrow> type_spec \<Rightarrow> bounds" where
  "boundsOf pl t = foldl (add_bound pl)
     \<lparr>bd_min = JUndef, bd_max = JUndef, bd_xmin = JUndef, bd_xmax = JUndef\<rparr> (ts_constraints t)"

text \<open>\<open>a <= b\<close> on values.\<close>

fun js_le :: "ieee \<Rightarrow> jsval \<Rightarrow> jsval \<Rightarrow> bool" where
  "js_le fl (JStr s) (JStr t) = (s \<le> t)"
| "js_le fl v w = (case (js_number fl v, js_number fl w) of
      (JInt a, JInt b) \<Rightarrow> a \<le> b
    | (a, b) \<Rightarrow> fl ''<='' a b = JBool True)"

definition opt_string :: "jsval \<Rightarrow> string option" where
  "opt_string v = (if v = JUndef then None else Some (js_string v))"

section \<open>Scalars\<close>

text \<open>\<open>^[^\s@]+@[^\s@]+\.[^\s@]+$\<close>.\<close>

definition dotted :: "string \<Rightarrow> bool" where
  "dotted d \<longleftrightarrow> list_ex (\<lambda>i. d ! i = CHR ''.'') [1 ..< length d - 1]"

definition is_email :: "string \<Rightarrow> bool" where
  "is_email s \<longleftrightarrow> \<not> list_ex is_space s \<and>
     (case split_on (CHR ''@'') s of [l, d] \<Rightarrow> l \<noteq> [] \<and> dotted d | _ \<Rightarrow> False)"

definition is_country :: "string \<Rightarrow> bool" where
  "is_country s \<longleftrightarrow> length s = 2 \<and> list_all is_upper s"

text \<open>\<open>^[A-Za-z0-9_-]{1,64}$\<close>.\<close>

definition is_id :: "string \<Rightarrow> bool" where
  "is_id s \<longleftrightarrow> s \<noteq> [] \<and> length s \<le> 64 \<and> list_all is_idchar s"

definition TEXT_SCALARS :: "string list" where
  "TEXT_SCALARS = [''id'', ''text'', ''email'', ''url'', ''timezone'', ''countryCode'']"

definition length_constr :: "constr list \<Rightarrow> (nat option \<times> nat option) option" where
  "length_constr cs = (case List.find (\<lambda>c. case c of CLength mn mx \<Rightarrow> True | _ \<Rightarrow> False) cs of
      Some (CLength mn mx) \<Rightarrow> Some (mn, mx) | _ \<Rightarrow> None)"

definition pattern_ok :: "platform \<Rightarrow> string \<Rightarrow> constr \<Rightarrow> bool" where
  "pattern_ok pl s c = (case c of CPattern p \<Rightarrow> pl_regex pl p s | _ \<Rightarrow> True)"

definition timezone_ok :: "platform \<Rightarrow> string \<Rightarrow> bool" where
  "timezone_ok pl s \<longleftrightarrow> (case s of [] \<Rightarrow> True | c # r \<Rightarrow> c \<noteq> CHR ''+'' \<and> c \<noteq> CHR ''-'') \<and> pl_timezone pl s"

definition decode_text_scalar :: "platform \<Rightarrow> string \<Rightarrow> type_spec \<Rightarrow> jsval \<Rightarrow> jsval res" where
  "decode_text_scalar pl n t input =
     bind_res (decodeText input (ts_normalizers t)) (\<lambda>s0.
     bind_res (case length_constr (ts_constraints t) of
         Some (mn, mx) \<Rightarrow> checkLength s0 mn mx | None \<Rightarrow> Inr s0) (\<lambda>s.
     if n = ''timezone'' \<and> \<not> timezone_ok pl s then codec_fail ''InvalidTimezone''
     else if n = ''email'' \<and> \<not> is_email s then codec_fail ''InvalidEmail''
     else if n = ''countryCode'' \<and> \<not> is_country s then codec_fail ''InvalidCountryCode''
     else if n = ''id'' \<and> \<not> is_id s then codec_fail ''InvalidId''
     else if \<not> list_all (pattern_ok pl s) (ts_constraints t) then codec_fail ''PatternMismatch''
     else Inr (JStr s)))"

definition decode_integer_scalar :: "platform \<Rightarrow> type_spec \<Rightarrow> jsval \<Rightarrow> jsval res" where
  "decode_integer_scalar pl t input =
     (let fl = pl_ieee pl; b = boundsOf pl t in
      bind_res (decodeInteger fl input (bd_min b) (bd_max b) None) (\<lambda>n.
      if (bd_xmin b \<noteq> JUndef \<and> js_le fl (JInt n) (js_number fl (bd_xmin b))) \<or>
         (bd_xmax b \<noteq> JUndef \<and> js_le fl (js_number fl (bd_xmax b)) (JInt n))
      then codec_fail ''OutOfRange'' else Inr (JInt n)))"

definition decode_decimal_scalar :: "platform \<Rightarrow> string \<Rightarrow> string list \<Rightarrow> type_spec \<Rightarrow> jsval \<Rightarrow> jsval res" where
  "decode_decimal_scalar pl n args t input =
     (let b = boundsOf pl t; money = (n = ''money'') in
      bind_res (decodeDecimal input (if money then None else Some (scaleOf t))
        (if money then Some (case args of [] \<Rightarrow> ''USD'' | a # _ \<Rightarrow> a) else None)
        (opt_string (bd_min b)) (opt_string (bd_max b))) (\<lambda>v.
      bind_res (toMinor v (scaleOf t)) (\<lambda>minor.
      bind_res (check_bound (\<le>) minor (opt_string (bd_xmin b)) (scaleOf t)) (\<lambda>_.
      bind_res (check_bound (\<ge>) minor (opt_string (bd_xmax b)) (scaleOf t)) (\<lambda>_.
      Inr (JStr v))))))"

definition as_str :: "string res \<Rightarrow> jsval res" where
  "as_str m = bind_res m (\<lambda>s. Inr (JStr s))"

definition decode_scalar :: "platform \<Rightarrow> string \<Rightarrow> string list \<Rightarrow> type_spec \<Rightarrow> jsval \<Rightarrow> jsval res" where
  "decode_scalar pl n args t input =
     (if n \<in> set TEXT_SCALARS then decode_text_scalar pl n t input
      else if n = ''integer'' then decode_integer_scalar pl t input
      else if n = ''decimal'' \<or> n = ''money'' then decode_decimal_scalar pl n args t input
      else if n = ''boolean'' then (case input of JBool b \<Rightarrow> Inr input | _ \<Rightarrow> codec_fail ''InvalidBoolean'')
      else if n = ''date'' then as_str (decodeDate input)
      else if n = ''datetime'' then as_str (decodeDatetime input PrecMs)
      else if n = ''localTime'' then as_str (decodeLocalTime input)
      else if n = ''duration'' then as_str (decodeDuration input)
      else if n = ''json'' then Inr input
      else as_str (decodeText input []))"

section \<open>Values of a declared type\<close>

definition SELF_REFERENCE :: string where
  "SELF_REFERENCE = ''$self''"

definition defaultOf :: "platform \<Rightarrow> app_model \<Rightarrow> field \<Rightarrow> jsval" where
  "defaultOf pl m f =
     (case f_default f of
        None \<Rightarrow> if ts_optional (f_type f) then JNull else JUndef
      | Some (LEnumMember e mem) \<Rightarrow>
          (case map_of (m_enums m) e of None \<Rightarrow> JStr mem
           | Some en \<Rightarrow> (case map_of (en_members en) mem of None \<Rightarrow> JStr mem | Some v \<Rightarrow> JStr v))
      | Some l \<Rightarrow> literalValue pl l)"

text \<open>The size limits a collection's length constraints give; None is \<open>Infinity\<close>.\<close>

definition coll_max :: "constr list \<Rightarrow> nat option" where
  "coll_max cs =
     (case concat (map (\<lambda>c. case c of CLength mn (Some mx) \<Rightarrow> [mx] | _ \<Rightarrow> []) cs) of
        [] \<Rightarrow> None | x # xs \<Rightarrow> Some (foldl min x xs))"

definition coll_min :: "constr list \<Rightarrow> nat" where
  "coll_min cs = foldl max 0 (map (\<lambda>c. case c of CLength (Some mn) mx \<Rightarrow> mn | _ \<Rightarrow> 0) cs)"

definition too_large :: "jsval \<Rightarrow> bool" where
  "too_large v \<longleftrightarrow> int (length (utf8 (json_text v))) > 256 * 1024"

definition adjacent_equal :: "string list \<Rightarrow> bool" where
  "adjacent_equal ks \<longleftrightarrow> list_ex (\<lambda>i. ks ! i = ks ! (i - 1)) [1 ..< length ks]"

text \<open>The body of a collection, over the decoder \<open>rec\<close> of its elements.\<close>

definition decode_items :: "collection_kind \<Rightarrow> (jsval \<Rightarrow> jsval res) \<Rightarrow> jsval \<Rightarrow> jsval res" where
  "decode_items k rec input =
     (case (k, input) of
        (ColMap, JObj kvs) \<Rightarrow>
          bind_res (map_res (\<lambda>(key, v).
              if length (utf8 key) > 256 then codec_fail ''MapKeyTooLong''
              else bind_res (rec v) (\<lambda>w. Inr (key, w))) (sort_key fst kvs)) (\<lambda>ws. Inr (JObj ws))
      | (ColSet, JArr vs) \<Rightarrow>
          bind_res (map_res rec vs) (\<lambda>ws.
            let pairs = sort_key fst (map (\<lambda>w. (stable_json w, w)) ws)
            in if adjacent_equal (map fst pairs) then codec_fail ''DuplicateSetValue''
               else Inr (JArr (map snd pairs)))
      | (ColList, JArr vs) \<Rightarrow> bind_res (map_res rec vs) (\<lambda>ws. Inr (JArr ws))
      | _ \<Rightarrow> codec_fail ''InvalidCollection'')"

definition coll_count :: "collection_kind \<Rightarrow> jsval \<Rightarrow> nat option" where
  "coll_count k input =
     (case input of JObj kvs \<Rightarrow> if k = ColMap then Some (length kvs) else None
      | JArr vs \<Rightarrow> if k = ColMap then None else Some (length vs) | _ \<Rightarrow> None)"

definition decode_collection ::
    "type_spec \<Rightarrow> collection_kind \<Rightarrow> (jsval \<Rightarrow> jsval res) \<Rightarrow> jsval \<Rightarrow> jsval res" where
  "decode_collection t k rec input =
     (case coll_max (ts_constraints t) of
        None \<Rightarrow> codec_fail ''UnboundedCollection''
      | Some mx \<Rightarrow>
          if mx > 1024 then codec_fail ''UnboundedCollection''
          else case coll_count k input of
              None \<Rightarrow> codec_fail ''InvalidCollection''
            | Some n \<Rightarrow>
                if n < coll_min (ts_constraints t) \<or> n > mx then codec_fail ''LengthOutOfRange''
                else bind_res (decode_items k rec input) (\<lambda>v.
                  if too_large v then codec_fail ''CollectionTooLarge'' else Inr v))"

definition model_shape :: "app_model \<Rightarrow> string \<Rightarrow> shape_decl option" where
  "model_shape m i = List.find (\<lambda>s. sh_id s = i) (concat (map mo_shapes (ir_modules (m_ir m))))"

definition decode_shape ::
    "platform \<Rightarrow> app_model \<Rightarrow> string \<Rightarrow> (type_spec \<Rightarrow> jsval \<Rightarrow> jsval res) \<Rightarrow> jsval \<Rightarrow> jsval res" where
  "decode_shape pl m i rec input =
     (case (model_shape m i, input) of
        (Some sh, JObj vals) \<Rightarrow>
          if list_ex (\<lambda>(k, v). \<not> list_ex (\<lambda>f. f_name f = k) (sh_fields sh)) vals
          then codec_fail ''UnknownField''
          else bind_res (map_res (\<lambda>f.
              let v = (if mhas (f_name f) vals then oget vals (f_name f) else defaultOf pl m f)
              in if v = JUndef \<or> (v = JNull \<and> \<not> ts_optional (f_type f)) then codec_fail ''Required''
                 else bind_res (rec (f_type f) v) (\<lambda>w. Inr (f_name f, w)))
            (sort_key f_name (sh_fields sh))) (\<lambda>ws. Inr (JObj ws))
      | _ \<Rightarrow> codec_fail ''InvalidShape'')"

text \<open>
  \<open>decodeValue\<close>; the first argument is the number of levels left, 13 minus the \<open>depth\<close> of the
  code, which throws when the depth is above 12.
\<close>

fun decodeValue_at :: "nat \<Rightarrow> platform \<Rightarrow> app_model \<Rightarrow> type_spec \<Rightarrow> jsval \<Rightarrow> jsval res" where
  "decodeValue_at 0 pl m t input = codec_fail ''NestingTooDeep''"
| "decodeValue_at (Suc n) pl m t input =
     (if input = JNull \<and> ts_optional t then Inr JNull
      else case ts_base t of
        TCollection k el \<Rightarrow> decode_collection t k (decodeValue_at n pl m el) input
      | TShape i \<Rightarrow> decode_shape pl m i (decodeValue_at n pl m) input
      | TScalar nm args \<Rightarrow> decode_scalar pl nm args t input
      | TEnum i \<Rightarrow> as_str (decodeEnum input (enumValues m i))
      | TStatus rid \<Rightarrow> bind_res (model_resource m rid) (\<lambda>r.
          as_str (decodeEnum input (case r_lifecycle r of None \<Rightarrow> [] | Some lc \<Rightarrow> lc_states lc)))
      | TReference rid \<Rightarrow> bind_res (decodeText input []) (\<lambda>s.
          if s = SELF_REFERENCE \<or> is_id s then Inr (JStr s) else codec_fail ''InvalidId'')
      | TIdentity rid \<Rightarrow> bind_res (decodeText input []) (\<lambda>s.
          if is_id s then Inr (JStr s) else codec_fail ''InvalidId'')
      | _ \<Rightarrow> Inr input)"

definition decodeValue :: "platform \<Rightarrow> app_model \<Rightarrow> type_spec \<Rightarrow> jsval \<Rightarrow> jsval res" where
  "decodeValue pl m t input = decodeValue_at 13 pl m t input"

section \<open>Objects\<close>

datatype decode_mode = ModeCreate | ModePatch | ModeInput

definition WRITABLE_SYNTHESIZED :: "string list" where
  "WRITABLE_SYNTHESIZED = [''parent'', ''effectiveFrom'', ''effectiveUntil'']"

definition writable_fields :: "decode_mode \<Rightarrow> field list \<Rightarrow> field list" where
  "writable_fields mode fs = filter (\<lambda>f. \<not> f_serverOwned f \<and>
     (\<not> f_synthesized f \<or> f_name f \<in> set WRITABLE_SYNTHESIZED) \<and> f_derived f = None \<and>
     (mode \<noteq> ModePatch \<or> \<not> f_immutable f)) fs"

text \<open>What one writable field does to the output and the collected problems.\<close>

datatype field_outcome = FieldSkip | FieldValue jsval | FieldProblem string

definition decode_field ::
    "platform \<Rightarrow> app_model \<Rightarrow> decode_mode \<Rightarrow> obj \<Rightarrow> field \<Rightarrow> field_outcome res" where
  "decode_field pl m mode input f =
     (if \<not> mhas (f_name f) input then
        (if mode = ModePatch then Inr FieldSkip
         else let d = defaultOf pl m f
              in Inr (if d = JUndef then FieldProblem ''Required'' else FieldValue d))
      else if oget input (f_name f) = JNull then
        Inr (if ts_optional (f_type f) then FieldValue JNull else FieldProblem ''Required'')
      else case decodeValue pl m (f_type f) (oget input (f_name f)) of
          Inr v \<Rightarrow> Inr (FieldValue v)
        | Inl (CodecError c) \<Rightarrow> Inr (FieldProblem c)
        | Inl e \<Rightarrow> Inl e)"

fun decode_fields ::
    "(field \<Rightarrow> field_outcome res) \<Rightarrow> field list \<Rightarrow> obj \<Rightarrow> (string \<times> string) list \<Rightarrow> (obj \<times> (string \<times> string) list) res" where
  "decode_fields one [] out probs = Inr (out, probs)"
| "decode_fields one (f # fs) out probs =
     bind_res (one f) (\<lambda>r. case r of
         FieldSkip \<Rightarrow> decode_fields one fs out probs
       | FieldValue v \<Rightarrow> decode_fields one fs (mput (f_name f) v out) probs
       | FieldProblem c \<Rightarrow> decode_fields one fs out (probs @ [(f_name f, c)]))"

definition decodeObject ::
    "platform \<Rightarrow> app_model \<Rightarrow> jsval \<Rightarrow> decode_mode \<Rightarrow> field list \<Rightarrow> (obj \<times> exn option) res" where
  "decodeObject pl m input mode fs =
     (case input of
        JObj kvs \<Rightarrow>
          (let writable = writable_fields mode fs;
               unknown = filter (\<lambda>k. k \<notin> f_name ` set writable) (map fst kvs)
           in if unknown \<noteq> [] then
                Inr ([], Some (err_fields ''UnknownField''
                  (map (\<lambda>k. (k, if list_ex (\<lambda>f. f_name f = k) fs then ''ServerOwned'' else ''Unknown''))
                    (sort unknown))))
              else bind_res (decode_fields (decode_field pl m mode kvs) writable [] []) (\<lambda>(out, probs).
                Inr (out, if probs = [] then None else Some (err_fields ''ValidationFailed'' probs))))
      | _ \<Rightarrow> Inr ([], Some (err ''MalformedRequest'')))"

section \<open>Expressions\<close>

text \<open>The declared type a name expression ends in, through references (None: no such field).\<close>

fun name_type :: "app_model \<Rightarrow> resource \<Rightarrow> string list \<Rightarrow> type_spec option res" where
  "name_type m cur [] = Inr None"
| "name_type m cur [p] = Inr (map_option f_type (fieldOf cur p))"
| "name_type m cur (p # q # ps) =
     (case fieldOf cur p of
        None \<Rightarrow> Inr None
      | Some f \<Rightarrow> (case ts_base (f_type f) of
            TReference rid \<Rightarrow> bind_res (model_resource m rid) (\<lambda>r. name_type m r (q # ps))
          | _ \<Rightarrow> Inr None))"

definition is_decimal_type :: "type_spec \<Rightarrow> bool" where
  "is_decimal_type t \<longleftrightarrow> (case ts_base t of TScalar n args \<Rightarrow> n = ''decimal'' \<or> n = ''money'' | _ \<Rightarrow> False)"

fun expressionDecimalScale :: "app_model \<Rightarrow> resource \<Rightarrow> expr \<Rightarrow> nat option res" where
  "expressionDecimalScale m r (ELiteral l) =
     Inr (case l of LDecimal v \<Rightarrow> Some (case split_on (CHR ''.'') v of a # b # rest \<Rightarrow> length b | _ \<Rightarrow> 0)
          | _ \<Rightarrow> None)"
| "expressionDecimalScale m r (EUnary op e) =
     (if op = ''!'' then Inr None else expressionDecimalScale m r e)"
| "expressionDecimalScale m r (EBinary op a b) =
     (if op \<notin> {''+'', ''-'', ''*'', ''/''} then Inr None
      else bind_res (expressionDecimalScale m r a) (\<lambda>left.
           bind_res (expressionDecimalScale m r b) (\<lambda>right.
           Inr (case (left, right) of (None, x) \<Rightarrow> x | (Some x, None) \<Rightarrow> Some x
                | (Some x, Some y) \<Rightarrow> Some (max x y)))))"
| "expressionDecimalScale m r (EName path) =
     bind_res (name_type m r path) (\<lambda>t. Inr (case t of None \<Rightarrow> None
       | Some t \<Rightarrow> if is_decimal_type t then Some (scaleOf t) else None))"
| "expressionDecimalScale m r (ECall c as) = Inr None"

definition expressionIsDatetime :: "app_model \<Rightarrow> resource \<Rightarrow> expr \<Rightarrow> bool res" where
  "expressionIsDatetime m r e =
     (case e of
        EName path \<Rightarrow> bind_res (name_type m r path) (\<lambda>t. Inr (case t of None \<Rightarrow> False
          | Some t \<Rightarrow> (case ts_base t of TScalar n args \<Rightarrow> n = ''datetime'' | _ \<Rightarrow> False)))
      | _ \<Rightarrow> Inr False)"

type_synonym refs = "(string \<times> obj option) list"

text \<open>\<open>value[segment]\<close> of a truthy value; a missing member is undefined.\<close>

fun get_member :: "jsval \<Rightarrow> string \<Rightarrow> jsval" where
  "get_member (JObj kvs) seg = oget kvs seg"
| "get_member (JStr s) seg = (if seg = ''length'' then JInt (int (length s)) else JUndef)"
| "get_member (JArr vs) seg = (if seg = ''length'' then JInt (int (length vs)) else JUndef)"
| "get_member v seg = JUndef"

definition name_value :: "app_model \<Rightarrow> string list \<Rightarrow> obj \<Rightarrow> refs \<Rightarrow> jsval" where
  "name_value m path rcd refs =
     (case path of
        [p] \<Rightarrow> oget rcd p
      | _ \<Rightarrow>
        (case List.find (\<lambda>e. en_name e = join_with ''.'' (butlast path)) (map snd (m_enums m)) of
           Some e \<Rightarrow> (case map_of (en_members e) (last path) of None \<Rightarrow> JUndef | Some v \<Rightarrow> JStr v)
         | None \<Rightarrow>
             (let start = (case map_of refs (hd path) of Some (Some ob) \<Rightarrow> JObj ob | _ \<Rightarrow> JNull);
                  v = foldl (\<lambda>cur seg. if truthy cur then get_member cur seg else JNull) start (tl path)
              in if nullish v then JNull else v)))"

definition compare_op :: "string \<Rightarrow> int \<Rightarrow> int \<Rightarrow> bool" where
  "compare_op op a b =
     (if op = ''=='' then a = b else if op = ''!='' then a \<noteq> b else if op = ''<'' then a < b
      else if op = ''<='' then a \<le> b else if op = ''>'' then a > b else a \<ge> b)"

definition COMPARISONS :: "string list" where
  "COMPARISONS = [''=='', ''!='', ''<'', ''<='', ''>'', ''>='']"

definition finite_num :: "jsval \<Rightarrow> bool" where
  "finite_num v \<longleftrightarrow> (case v of JFloat t \<Rightarrow> t \<notin> {''NaN'', ''Infinity'', ''-Infinity''} | _ \<Rightarrow> True)"

definition seconds_of :: "platform \<Rightarrow> jsval \<Rightarrow> bool \<Rightarrow> jsval" where
  "seconds_of pl v is_dt =
     (if is_dt then (case date_parse (pl_dateparse pl) (js_string v) of
          None \<Rightarrow> JFloat ''NaN'' | Some ms \<Rightarrow> JInt (ms div 1000))
      else js_number (pl_ieee pl) v)"

text \<open>\<open>+ - * /\<close>: datetimes as seconds, numbers, and otherwise exact decimals.\<close>

definition arith_op :: "platform \<Rightarrow> string \<Rightarrow> nat \<Rightarrow> bool \<Rightarrow> bool \<Rightarrow> jsval \<Rightarrow> jsval \<Rightarrow> jsval res" where
  "arith_op pl op scale lt rt l r =
     (if lt \<or> rt then
        (if nullish l \<or> nullish r then Inr JNull
         else let a = seconds_of pl l lt; b = seconds_of pl r rt
              in if \<not> finite_num a \<or> \<not> finite_num b then Inl (JsError ''datetime arithmetic'')
                 else Inr (num_op (pl_ieee pl) op a b))
      else if is_num l \<and> is_num r then Inr (num_op (pl_ieee pl) op l r)
      else bind_res (toMinor (js_string l) scale) (\<lambda>a.
           bind_res (toMinor (js_string r) scale) (\<lambda>b.
           if op = ''+'' then Inr (JStr (formatMinor (a + b) scale))
           else if op = ''-'' then Inr (JStr (formatMinor (a - b) scale))
           else Inl (JsError ''decimal * and / are not portable''))))"

definition compare_values :: "platform \<Rightarrow> string \<Rightarrow> jsval \<Rightarrow> jsval \<Rightarrow> jsval" where
  "compare_values pl op l r =
     (let fl = pl_ieee pl in JBool
       (if op = ''=='' then js_seq l r else if op = ''!='' then \<not> js_seq l r
        else if op = ''<'' then js_less fl l r else if op = ''<='' then js_le fl l r
        else if op = ''>'' then js_less fl r l else js_le fl r l))"

text \<open>
  A binary operator on the values of its operands, with the scales and datetime flags of the
  operand expressions (\<open>&&\<close> and \<open>||\<close> have been short-circuited by the caller).
\<close>

definition binary_op ::
    "platform \<Rightarrow> string \<Rightarrow> nat \<Rightarrow> nat option res \<Rightarrow> nat option res \<Rightarrow> bool res \<Rightarrow> bool res \<Rightarrow> jsval \<Rightarrow> jsval \<Rightarrow> jsval res" where
  "binary_op pl op scale ls rs lt rt l r =
     bind_res (if op \<in> set COMPARISONS \<and> \<not> nullish l \<and> \<not> nullish r
               then bind_res ls (\<lambda>a. bind_res rs (\<lambda>b. Inr (a, b))) else Inr (None, None)) (\<lambda>(a, b).
     if a \<noteq> None \<or> b \<noteq> None then
       (let sc = max (case a of None \<Rightarrow> 0 | Some x \<Rightarrow> x) (case b of None \<Rightarrow> 0 | Some x \<Rightarrow> x)
        in bind_res (toMinor (js_string l) sc) (\<lambda>x.
           bind_res (toMinor (js_string r) sc) (\<lambda>y. Inr (JBool (compare_op op x y)))))
     else if op \<in> set COMPARISONS then Inr (compare_values pl op l r)
     else if op = ''&&'' then Inr (JBool (truthy l \<and> truthy r))
     else if op = ''||'' then Inr (JBool (truthy l \<or> truthy r))
     else if op \<in> {''+'', ''-'', ''*'', ''/''} then
       bind_res lt (\<lambda>x. bind_res rt (\<lambda>y. arith_op pl op scale x y l r))
     else Inr JNull)"

definition js_floor :: "platform \<Rightarrow> jsval \<Rightarrow> jsval res" where
  "js_floor pl v =
     (if nullish v then Inr JNull
      else let n = (if is_num v then v else js_number (pl_ieee pl) v)
           in if \<not> finite_num n then Inl (JsError ''floor needs a number'')
              else Inr (case n of JFloat t \<Rightarrow> pl_ieee pl ''floor'' n JUndef | _ \<Rightarrow> n))"

fun evalExpr ::
    "platform \<Rightarrow> app_model \<Rightarrow> resource \<Rightarrow> expr \<Rightarrow> obj \<Rightarrow> type_spec option \<Rightarrow> refs \<Rightarrow> jsval res" where
  "evalExpr pl m r (ELiteral l) rcd hint refs = Inr (literalValue pl l)"
| "evalExpr pl m r (EName path) rcd hint refs = Inr (name_value m path rcd refs)"
| "evalExpr pl m r (EUnary op e) rcd hint refs =
     bind_res (evalExpr pl m r e rcd hint refs) (\<lambda>v.
       Inr (if op = ''!'' then JBool (\<not> truthy v)
            else if is_num v then num_op (pl_ieee pl) ''-'' (JInt 0) v else v))"
| "evalExpr pl m r (EBinary op a b) rcd hint refs =
     bind_res (evalExpr pl m r a rcd hint refs) (\<lambda>l.
       if op = ''&&'' \<and> \<not> truthy l then Inr (JBool False)
       else if op = ''||'' \<and> truthy l then Inr (JBool True)
       else bind_res (evalExpr pl m r b rcd hint refs) (\<lambda>v.
         binary_op pl op (case hint of None \<Rightarrow> 2 | Some t \<Rightarrow> scaleOf t)
           (expressionDecimalScale m r a) (expressionDecimalScale m r b)
           (expressionIsDatetime m r a) (expressionIsDatetime m r b) l v))"
| "evalExpr pl m r (ECall c as) rcd hint refs =
     (if c = [''floor''] then
        (case as of [a] \<Rightarrow> bind_res (evalExpr pl m r a rcd hint refs) (js_floor pl)
         | _ \<Rightarrow> Inl (JsError ''function calls are not supported''))
      else Inl (JsError ''function calls are not supported''))"

section \<open>Canonical output\<close>

definition output_order :: "resource \<Rightarrow> field list" where
  "output_order r = opt_list (fieldOf r ''id'') @ filter f_synthesized (r_fields r)
     @ filter (\<lambda>f. \<not> f_synthesized f \<and> f_name f \<noteq> ''id'') (r_fields r)"

definition output_field :: "platform \<Rightarrow> app_model \<Rightarrow> resource \<Rightarrow> obj \<Rightarrow> field \<Rightarrow> (string \<times> jsval) option res" where
  "output_field pl m r stored f =
     (if f_secret f then Inr (Some (f_name f @ ''Present'', JBool (\<not> nullish (oget stored (f_name f)))))
      else if f_hidden f then Inr None
      else case f_derived f of
          Some e \<Rightarrow> bind_res (evalExpr pl m r e stored (Some (f_type f)) []) (\<lambda>v. Inr (Some (f_name f, v)))
        | None \<Rightarrow> Inr (Some (f_name f,
            if oget stored (f_name f) = JUndef then JNull else oget stored (f_name f))))"

definition canonicalize :: "platform \<Rightarrow> app_model \<Rightarrow> resource \<Rightarrow> obj \<Rightarrow> obj res" where
  "canonicalize pl m r stored =
     bind_res (map_res (output_field pl m r stored) (output_order r)) (\<lambda>xs.
       Inr (foldl (\<lambda>out x. case x of None \<Rightarrow> out | Some (k, v) \<Rightarrow> mput k v out) [] xs))"

end
