(* ===== verification/Errors.thy ===== *)
theory Errors
  imports Js_Value
begin

text \<open>
  The error taxonomy of \<open>packages/runtime/src/errors.ts\<close>: the status, retryability and title a
  code has, and the RFC 9457 problem body built from an error (without the free-text detail).
\<close>

record error_meta =
  em_status :: nat
  em_retryable :: bool
  em_title :: string

definition ERROR_STATUS :: "(string \<times> error_meta) list" where
  "ERROR_STATUS = map (\<lambda>(c, s, r, t). (c, \<lparr>em_status = s, em_retryable = r, em_title = t\<rparr>))
    [(''MalformedRequest'', 400, False, ''Malformed request''),
     (''Unauthenticated'', 401, False, ''Unauthenticated''),
     (''Forbidden'', 403, False, ''Forbidden''),
     (''NotFound'', 404, False, ''Not found''),
     (''MethodNotAllowed'', 405, False, ''Method not allowed''),
     (''SequenceExhausted'', 409, False, ''Sequence exhausted''),
     (''SequencePreviewUnsupported'', 422, False, ''Sequence preview unsupported''),
     (''ValidationFailed'', 422, False, ''Validation failed''),
     (''UnknownField'', 422, False, ''Unknown field''),
     (''PreconditionRequired'', 428, False, ''Precondition required''),
     (''VersionConflict'', 412, False, ''Version conflict''),
     (''PreconditionContradiction'', 400, False, ''Precondition contradiction''),
     (''UniqueConflict'', 409, False, ''Unique conflict''),
     (''ReferenceMissing'', 422, False, ''Reference missing''),
     (''HasDependents'', 409, False, ''Has dependents''),
     (''InvalidTransition'', 409, False, ''Invalid transition''),
     (''AlreadyDeleted'', 409, False, ''Already deleted''),
     (''NotDeleted'', 409, False, ''Not deleted''),
     (''IdempotencyMismatch'', 409, False, ''Idempotency mismatch''),
     (''InvalidCursor'', 400, False, ''Invalid cursor''),
     (''BudgetExceeded'', 422, False, ''Budget exceeded''),
     (''ProjectionNotReady'', 503, True, ''Projection not ready''),
     (''NotPermitted'', 403, False, ''Not permitted''),
     (''CapabilityDenied'', 403, False, ''Capability denied''),
     (''InspectionPending'', 409, True, ''Content inspection pending''),
     (''InspectionBlocked'', 403, False, ''Content blocked by inspection''),
     (''WriteFenced'', 503, True, ''Writes fenced''),
     (''Suppressed'', 410, False, ''Subject suppressed''),
     (''WorkflowVersionMismatch'', 409, False, ''Workflow version mismatch''),
     (''PayloadTooLarge'', 413, False, ''Payload too large''),
     (''RateLimited'', 429, True, ''Rate limited''),
     (''TransientConflict'', 503, True, ''Transient conflict''),
     (''StorageUnavailable'', 503, True, ''Storage unavailable''),
     (''DeliveryOutcomeUnknown'', 409, False, ''Delivery outcome unknown''),
     (''DependencyUnavailable'', 503, True, ''Dependency unavailable''),
     (''Internal'', 500, False, ''Internal error'')]"

definition DEFAULT_DECLARED_STATUS :: nat where
  "DEFAULT_DECLARED_STATUS = 409"

definition is_declared_code :: "string \<Rightarrow> bool" where
  "is_declared_code c \<longleftrightarrow> CHR ''/'' \<in> set c"

definition err_status :: "forge_error \<Rightarrow> nat" where
  "err_status e =
     (case map_of ERROR_STATUS (fe_code e) of
        Some m \<Rightarrow> em_status m
      | None \<Rightarrow> if is_declared_code (fe_code e)
                then (case fe_declaredStatus e of None \<Rightarrow> DEFAULT_DECLARED_STATUS | Some s \<Rightarrow> s)
                else 500)"

definition err_retryable :: "forge_error \<Rightarrow> bool" where
  "err_retryable e =
     (case map_of ERROR_STATUS (fe_code e) of None \<Rightarrow> False | Some m \<Rightarrow> em_retryable m)"

text \<open>\<open>s.replace(/([a-z])([A-Z])/g, "$1-$2").toLowerCase()\<close>: the matches do not overlap.\<close>

fun kebab_marks :: "string \<Rightarrow> string" where
  "kebab_marks (a # b # s) =
     (if is_lower a \<and> is_upper b then a # CHR ''-'' # b # kebab_marks s else a # kebab_marks (b # s))"
| "kebab_marks s = s"

definition kebab :: "string \<Rightarrow> string" where
  "kebab s = js_lower (kebab_marks s)"

definition problem_field_obj :: "problem_field \<Rightarrow> jsval" where
  "problem_field_obj p = JObj [(''path'', JStr (pf_path p)), (''code'', JStr (pf_code p))]"

definition opt_member :: "string \<Rightarrow> ('a \<Rightarrow> jsval) \<Rightarrow> 'a option \<Rightarrow> obj" where
  "opt_member k f x = (case x of None \<Rightarrow> [] | Some a \<Rightarrow> [(k, f a)])"

text \<open>An optional text member is left out when it is empty.\<close>

definition nonempty_opt :: "string option \<Rightarrow> string option" where
  "nonempty_opt x = (case x of None \<Rightarrow> None | Some s \<Rightarrow> if s = [] then None else Some s)"

definition problem :: "forge_error \<Rightarrow> string \<Rightarrow> obj" where
  "problem e requestId =
     (let c = fe_code e;
          meta = (case map_of ERROR_STATUS c of
              Some m \<Rightarrow> m
            | None \<Rightarrow> if is_declared_code c
                then \<lparr>em_status = err_status e, em_retryable = False, em_title = last (split_on (CHR ''.'') c)\<rparr>
                else \<lparr>em_status = 500, em_retryable = False, em_title = ''Internal error''\<rparr>)
      in [(''type'', JStr (if is_declared_code c then ''urn:forge:error:'' @ c
                          else ''https://forge.dev/errors/'' @ kebab c)),
          (''title'', JStr (em_title meta)), (''status'', JInt (int (em_status meta))), (''code'', JStr c),
          (''requestId'', JStr requestId), (''retryable'', JBool (em_retryable meta))]
         @ opt_member ''fields'' (\<lambda>ps. JArr (map problem_field_obj ps)) (fe_fields e)
         @ opt_member ''constraint'' JStr (nonempty_opt (fe_constraint e))
         @ opt_member ''budget'' (\<lambda>b. JObj (map (\<lambda>(k, n). (k, JInt n)) b)) (fe_budget e)
         @ (case fe_denial e of
              None \<Rightarrow> []
            | Some d \<Rightarrow> (''capability'', JStr (cd_capability d))
                # opt_member ''unit'' JStr (nonempty_opt (cd_unit d))
                @ opt_member ''entryPoint'' JStr (nonempty_opt (cd_entryPoint d))))"

text \<open>\<open>capabilityDenied\<close>: empty unit and entry-point names are dropped.\<close>

definition capabilityDenied :: "capability_denial \<Rightarrow> forge_error" where
  "capabilityDenied d = (forge_err ''CapabilityDenied'')\<lparr>fe_denial :=
     Some \<lparr>cd_capability = cd_capability d, cd_unit = nonempty_opt (cd_unit d),
           cd_entryPoint = nonempty_opt (cd_entryPoint d)\<rparr>\<rparr>"

text \<open>
  Facts about every row of the table, and so about every code that is looked up in it.
\<close>

lemma ERROR_STATUS_rows:
  "list_all (\<lambda>(c, m). \<not> is_declared_code c \<and> 400 \<le> em_status m \<and> em_status m < 600
      \<and> (em_retryable m \<longrightarrow> em_status m \<in> {409, 503, 429})) ERROR_STATUS"
  by code_simp

lemma ERROR_STATUS_lookup:
  "map_of ERROR_STATUS c = Some m \<Longrightarrow>
     \<not> is_declared_code c \<and> 400 \<le> em_status m \<and> em_status m < 600
      \<and> (em_retryable m \<longrightarrow> em_status m \<in> {409, 503, 429})"
  using ERROR_STATUS_rows by (fastforce dest: map_of_SomeD simp: list_all_iff)

end
