(* ===== verification/Services.thy ===== *)
theory Services
  imports Decode Errors
begin

text \<open>
  The data the engine and the storage adapters exchange (\<open>packages/runtime/src/services.ts\<close>):
  audit entries, outbox rows, receipts, guards and commit plans, and the versioned document
  collections of \<open>getDocument\<close>/\<open>putDocument\<close>/\<open>putDocuments\<close> of MemoryStorage, over any type of
  document. A document's JSON rendering and its \<open>_version\<close> member are a pair (version, document).
\<close>

type_synonym stored_record = obj

record audit_entry =
  au_tenant :: string
  au_opId :: string
  au_resource :: string
  au_recordId :: string
  au_kind :: string
  au_newVersion :: jsval
  au_actor :: string
  au_at :: string
  au_payload :: jsval

record outbox_entry =
  ob_tenant :: string
  ob_opId :: string
  ob_ordinal :: nat
  ob_channel :: string
  ob_message :: string
  ob_payload :: jsval
  ob_createdAt :: string

datatype outbox_status = ObPending | ObDelivered | ObDead

record outbox_row =
  or_entry :: outbox_entry
  or_status :: outbox_status
  or_attempts :: nat
  or_leaseOwner :: "string option"
  or_leaseUntil :: "int option"
  or_delivered :: "string list"

record receipt =
  rc_tenant :: string
  rc_operation :: string
  rc_key :: string
  rc_requestHash :: string
  rc_status :: nat
  rc_response :: jsval
  rc_createdAt :: string

record claim_change =
  cc_unique :: unique_decl
  cc_before :: "string option"
  cc_after :: "string option"

record reference_guard =
  rg_field :: string
  rg_resource :: resource
  rg_id :: string

record dependent_guard =
  dg_resource :: resource
  dg_field :: string

record interval_guard =
  ig_groupFields :: "string list"
  ig_groupValues :: "jsval list"
  ig_from :: string
  ig_until :: "string option"
  ig_excludeId :: string

record tree_guard =
  tg_parentField :: string
  tg_parentId :: string
  tg_ancestors :: "string list"

datatype plan_kind = PkCreate | PkUpdate | PkDelete | PkRestore | PkTransition | PkPublish

record 'd document_write =
  dw_kind :: string
  dw_id :: string
  dw_doc :: 'd
  dw_expected :: "nat option"

record commit_plan =
  cp_tenant :: string
  cp_opId :: string
  cp_actor :: string
  cp_at :: string
  cp_resource :: resource
  cp_kind :: plan_kind
  cp_id :: string
  cp_expectedVersion :: "int option"
  cp_before :: "stored_record option"
  cp_after :: stored_record
  cp_claims :: "claim_change list"
  cp_references :: "reference_guard list"
  cp_dependents :: "dependent_guard list"
  cp_hardDelete :: bool
  cp_interval :: "interval_guard option"
  cp_tree :: "tree_guard option"
  cp_audit :: audit_entry
  cp_outbox :: "outbox_entry list"
  cp_receipt :: "receipt option"
  cp_completion :: "obj document_write option"

record list_after =
  la_keys :: "string list"
  la_id :: string

record list_query =
  lq_list :: list_decl
  lq_values :: obj
  lq_after :: "list_after option"
  lq_limit :: nat

record absence_guard =
  ag_tenant :: string
  ag_resource :: resource
  ag_unique :: unique_decl
  ag_claimKey :: string

record read_guard =
  rd_tenant :: string
  rd_resource :: resource
  rd_revision :: "nat option"

definition RESOURCE_REVISION :: string where
  "RESOURCE_REVISION = ''forge-resource-revision-v1''"

section \<open>Versioned documents\<close>

type_synonym 'd docs = "(string \<times> nat \<times> 'd) list"

definition key2 :: "string \<Rightarrow> string \<Rightarrow> string" where
  "key2 a b = a @ ''|'' @ b"

definition key3 :: "string \<Rightarrow> string \<Rightarrow> string \<Rightarrow> string" where
  "key3 a b c = a @ ''|'' @ b @ ''|'' @ c"

definition doc_version :: "'d docs \<Rightarrow> string \<Rightarrow> nat option" where
  "doc_version ds k = map_option fst (map_of ds k)"

definition getDocument :: "'d docs \<Rightarrow> string \<Rightarrow> string \<Rightarrow> string \<Rightarrow> (nat \<times> 'd) option" where
  "getDocument ds tenant kind i = map_of ds (key3 tenant kind i)"

definition putDocument ::
    "'d docs \<Rightarrow> string \<Rightarrow> string \<Rightarrow> string \<Rightarrow> 'd \<Rightarrow> nat option \<Rightarrow> 'd docs res" where
  "putDocument ds tenant kind i doc expected =
     (let k = key3 tenant kind i; cur = map_of ds k
      in if map_option fst cur \<noteq> expected then Inl (err ''VersionConflict'')
         else Inr (mput k ((case cur of None \<Rightarrow> 0 | Some (v, _) \<Rightarrow> v) + 1, doc) ds))"

definition write_key :: "string \<Rightarrow> 'd document_write \<Rightarrow> string" where
  "write_key tenant w = key3 tenant (dw_kind w) (dw_id w)"

definition write_value :: "'d document_write \<Rightarrow> nat \<times> 'd" where
  "write_value w = ((case dw_expected w of None \<Rightarrow> 0 | Some v \<Rightarrow> v) + 1, dw_doc w)"

definition putDocuments :: "'d docs \<Rightarrow> string \<Rightarrow> 'd document_write list \<Rightarrow> 'd docs res" where
  "putDocuments ds tenant ws =
     (if length ws > 24 \<or> length (dedup (map (\<lambda>w. (dw_kind w, dw_id w)) ws)) \<noteq> length ws
      then Inl (err ''BudgetExceeded'')
      else if list_ex (\<lambda>w. doc_version ds (write_key tenant w) \<noteq> dw_expected w) ws
      then Inl (err ''VersionConflict'')
      else Inr (foldl (\<lambda>d w. mput (write_key tenant w) (write_value w) d) ds ws))"

section \<open>The contract of versioned documents\<close>

text \<open>
  Compare-and-swap documents as their clients see them: a write succeeds exactly when the version
  read is still current, then reads back with the next version, and touches no other key.
\<close>

locale document_store =
  fixes read :: "'s \<Rightarrow> 'k \<Rightarrow> (nat \<times> 'd) option"
    and swap :: "'s \<Rightarrow> 'k \<Rightarrow> 'd \<Rightarrow> nat option \<Rightarrow> 's res"
  assumes swap_ok: "map_option fst (read s k) = e \<longleftrightarrow> (\<exists>s'. swap s k d e = Inr s')"
    and swap_conflict: "map_option fst (read s k) \<noteq> e \<Longrightarrow> swap s k d e = Inl (err ''VersionConflict'')"
    and swap_read: "swap s k d e = Inr s' \<Longrightarrow>
          read s' k' = (if k' = k then Some (Suc (case e of None \<Rightarrow> 0 | Some v \<Rightarrow> v), d) else read s k')"
begin

text \<open>Of two writers that read the same version, the second is refused.\<close>

lemma lost_update_refused:
  assumes "map_option fst (read s k) = e" "swap s k d e = Inr s'"
  shows "swap s' k d' e = Inl (err ''VersionConflict'')"
proof -
  have "map_option fst (read s' k) \<noteq> e"
    using swap_read [OF assms(2), of k] by (cases e) auto
  then show ?thesis by (rule swap_conflict)
qed

lemma version_increases:
  assumes "swap s k d e = Inr s'" "read s k' = Some (v, x)"
  shows "\<exists>v' x'. read s' k' = Some (v', x') \<and> v \<le> v' \<and> (v = v' \<longrightarrow> x = x')"
proof (cases "k' = k")
  case True
  have "map_option fst (read s k) = e" using swap_ok assms(1) by blast
  with True assms show ?thesis using swap_read [OF assms(1), of k'] by auto
next
  case False
  then show ?thesis using swap_read [OF assms(1), of k'] assms(2) by auto
qed

end

text \<open>The documents of one tenant and kind are a document store keyed by their ids.\<close>

lemma key3_id: "key3 t k i = key3 t k j \<longleftrightarrow> i = j"
  by (simp add: key3_def)

interpretation docs: document_store "\<lambda>ds. getDocument ds t kind" "\<lambda>ds i d e. putDocument ds t kind i d e" for t kind
  by unfold_locales
     (auto simp: getDocument_def putDocument_def Let_def key3_id split: option.splits if_splits)

lemma putDocument_read:
  "putDocument ds t kind i d e = Inr ds' \<Longrightarrow> getDocument ds' t kind i = Some (Suc (case e of None \<Rightarrow> 0 | Some v \<Rightarrow> v), d)"
  by (simp add: docs.swap_read)

lemma putDocument_Inr_iff:
  "(\<exists>ds'. putDocument ds t kind i d e = Inr ds') \<longleftrightarrow> map_option fst (getDocument ds t kind i) = e"
  using docs.swap_ok [of ds t kind i e d] by blast

text \<open>A batch writes all of its documents or none.\<close>

lemma map_of_fold_writes:
  "distinct (map (write_key tenant) ws) \<Longrightarrow>
     map_of (foldl (\<lambda>d w. mput (write_key tenant w) (write_value w) d) ds ws) k =
       (case List.find (\<lambda>w. write_key tenant w = k) ws of None \<Rightarrow> map_of ds k | Some w \<Rightarrow> Some (write_value w))"
proof (induction ws arbitrary: ds)
  case Nil
  then show ?case by simp
next
  case (Cons w ws)
  have "List.find (\<lambda>v. write_key tenant v = write_key tenant w) ws = None"
    using Cons.prems by (auto simp: find_None_iff image_iff)
  with Cons show ?case by (auto split: option.splits)
qed

lemma putDocuments_read:
  assumes "putDocuments ds tenant ws = Inr ds'" "distinct (map (write_key tenant) ws)"
  shows "\<forall>w\<in>set ws. doc_version ds (write_key tenant w) = dw_expected w"
    and "map_of ds' k = (case List.find (\<lambda>w. write_key tenant w = k) ws of
      None \<Rightarrow> map_of ds k | Some w \<Rightarrow> Some (write_value w))"
proof -
  have "ds' = foldl (\<lambda>d w. mput (write_key tenant w) (write_value w) d) ds ws"
    and "\<forall>w\<in>set ws. doc_version ds (write_key tenant w) = dw_expected w"
    using assms(1) by (auto simp: putDocuments_def list_ex_iff split: if_splits)
  then show "\<forall>w\<in>set ws. doc_version ds (write_key tenant w) = dw_expected w"
    and "map_of ds' k = (case List.find (\<lambda>w. write_key tenant w = k) ws of
      None \<Rightarrow> map_of ds k | Some w \<Rightarrow> Some (write_value w))"
    using map_of_fold_writes [OF assms(2)] by simp_all
qed

end
