(* ===== verification/Scope.thy ===== *)
theory Scope
  imports Services
begin

text \<open>
  Purpose scoping (\<open>packages/runtime/src/scope.ts\<close>): the surface a call runs under, the checks made
  before execution and the projection of results. The compiled capabilities plan is the list of
  surfaces of the bundle (None: the bundle has none).
\<close>

record call_context =
  cx_tenant :: string
  cx_actor :: string
  cx_requestId :: string
  cx_idempotencyKey :: "string option"
  cx_purpose :: "string option"
  cx_maintenance :: bool

record surface_atom =
  sa_verb :: string
  sa_name :: string

record surface =
  sf_resource :: string
  sf_purpose :: string
  sf_allow :: "surface_atom list"

record scope_env =
  sc_plan :: "surface list option"
  sc_strict :: bool

definition surface_of :: "scope_env \<Rightarrow> string \<Rightarrow> string \<Rightarrow> surface option" where
  "surface_of env rid purpose =
     (case sc_plan env of
        None \<Rightarrow> None
      | Some ss \<Rightarrow> List.find (\<lambda>s. sf_resource s = rid \<and> sf_purpose s = purpose) ss)"

definition VISIBLE_ALWAYS :: "string list" where
  "VISIBLE_ALWAYS = []"

definition permits :: "surface \<Rightarrow> string \<Rightarrow> string \<Rightarrow> bool" where
  "permits s verb name \<longleftrightarrow>
     list_ex (\<lambda>a. sa_verb a = verb \<and> sa_name a = name) (sf_allow s) \<or> name \<in> set VISIBLE_ALWAYS"

text \<open>\<open>resolve\<close>; an empty purpose counts as none.\<close>

definition scope_resolve :: "scope_env \<Rightarrow> resource \<Rightarrow> call_context \<Rightarrow> surface option res" where
  "scope_resolve env r ctx =
     (if \<not> dc_purposeScoped (r_decorators r) then Inr None
      else if cx_maintenance ctx then Inr None
      else case cx_purpose ctx of
          None \<Rightarrow> if \<not> sc_strict env then Inr None else Inl (err ''NotPermitted'')
        | Some p \<Rightarrow>
            if p = [] then (if \<not> sc_strict env then Inr None else Inl (err ''NotPermitted''))
            else if CHR '','' \<in> set p
              then Inl (err_fields ''ValidationFailed'' [(''purpose'', ''MultiplePurposes'')])
            else (case surface_of env (r_id r) p of
                None \<Rightarrow> Inl (err ''NotPermitted'')
              | Some s \<Rightarrow> Inr (Some s)))"

definition check_all :: "(string \<Rightarrow> bool) \<Rightarrow> string list \<Rightarrow> unit res" where
  "check_all ok names = guard_res (list_all ok names) (err ''NotPermitted'')"

definition checkQuery :: "surface \<Rightarrow> string list \<Rightarrow> string list \<Rightarrow> unit res" where
  "checkQuery s params order =
     bind_res (check_all (permits s ''filter'') params) (\<lambda>_.
       check_all (\<lambda>f. f = ''id'' \<or> permits s ''order'' f \<or> permits s ''filter'' f) order)"

definition checkPatch :: "surface \<Rightarrow> obj \<Rightarrow> unit res" where
  "checkPatch s patch = check_all (permits s ''update'') (map fst patch)"

definition checkCreate :: "surface \<Rightarrow> obj \<Rightarrow> unit res" where
  "checkCreate s input = check_all (permits s ''create'') (map fst input)"

definition checkAction :: "surface \<Rightarrow> string \<Rightarrow> unit res" where
  "checkAction s action = check_all (permits s ''actions'') [''status.'' @ action]"

text \<open>\<open>project\<close>: the granted read members, and the version for a surface that may write.\<close>

definition grants_write :: "surface \<Rightarrow> bool" where
  "grants_write s \<longleftrightarrow> list_ex (\<lambda>a. sa_verb a = ''update'' \<or> sa_verb a = ''actions'') (sf_allow s)"

definition scope_project :: "surface \<Rightarrow> obj \<Rightarrow> obj" where
  "scope_project s rcd =
     (let out = foldl (\<lambda>out a. if sa_verb a = ''read'' \<and> mhas (sa_name a) rcd
            then mput (sa_name a) (oget rcd (sa_name a)) out else out) [] (sf_allow s)
      in if mhas ''version'' rcd \<and> \<not> mhas ''version'' out \<and> grants_write s
         then mput ''version'' (oget rcd ''version'') out else out)"

definition scope_projectPage :: "surface \<Rightarrow> obj \<Rightarrow> obj" where
  "scope_projectPage s page = mput ''items'' (case oget page ''items'' of
       JArr items \<Rightarrow> JArr (map (\<lambda>i. case i of JObj rcd \<Rightarrow> JObj (scope_project s rcd) | v \<Rightarrow> v) items) | v \<Rightarrow> v) page"

section \<open>What a projection discloses\<close>

lemma project_reads:
  "map_of (foldl (\<lambda>out a. if sa_verb a = ''read'' \<and> mhas (sa_name a) rcd
      then mput (sa_name a) (oget rcd (sa_name a)) out else out) acc atoms) k =
     (if (\<exists>a\<in>set atoms. sa_verb a = ''read'' \<and> sa_name a = k) \<and> mhas k rcd then Some (oget rcd k) else map_of acc k)"
  by (induction atoms arbitrary: acc) auto

lemma scope_project_member:
  "map_of (scope_project s rcd) k =
     (if mhas k rcd \<and> (permits s ''read'' k \<or> (k = ''version'' \<and> grants_write s)) then Some (oget rcd k) else None)"
proof -
  define out where "out = foldl (\<lambda>out a. if sa_verb a = ''read'' \<and> mhas (sa_name a) rcd
      then mput (sa_name a) (oget rcd (sa_name a)) out else out) [] (sf_allow s)"
  have p: "permits s ''read'' i \<longleftrightarrow> (\<exists>a\<in>set (sf_allow s). sa_verb a = ''read'' \<and> sa_name a = i)" for i
    by (auto simp: permits_def VISIBLE_ALWAYS_def list_ex_iff)
  have out: "map_of out i = (if permits s ''read'' i \<and> mhas i rcd then Some (oget rcd i) else None)" for i
    unfolding out_def project_reads p by simp
  have v: "mhas ''version'' out \<longleftrightarrow> permits s ''read'' ''version'' \<and> mhas ''version'' rcd"
    unfolding mhas_iff [of _ out] out by simp
  show ?thesis
    unfolding scope_project_def Let_def out_def [symmetric] using v by (auto simp: out)
qed

end
