(* ===== verification/Gatekeeper.thy ===== *)
theory Gatekeeper
  imports Scope
begin

text \<open>
  The authorization boundary (\<open>packages/runtime/src/gatekeeper.ts\<close>): the typed local policy
  evaluator, the gathering of attributes with freshness, decisions with their cache (an explicit
  state), the read and write gates and list plans. Instants are canonical ISO texts compared as
  text, as in the code; the current time is an argument, in milliseconds. Random decision ids and
  the free-text reasons are left out.
\<close>

record pip_value =
  pv_pip :: string
  pv_attribute :: string
  pv_value :: jsval
  pv_expiresAt :: string

record authz_request =
  rq_tenant :: string
  rq_actor :: string
  rq_action :: string
  rq_kind :: string
  rq_resource :: "string option"
  rq_purpose :: "string option"
  rq_current :: "obj option"
  rq_candidate :: "obj option"
  rq_attributes :: "pip_value list"

datatype filter_op = OpEq | OpIn | OpNe

record row_filter =
  rf_field :: string
  rf_op :: filter_op
  rf_values :: "jsval list"

record decision =
  de_allow :: bool
  de_policy :: "string option"
  de_rowFilter :: "row_filter list option"
  de_obligations :: "string list"
  de_epoch :: int
  de_expiresAt :: string

datatype filter_plan = FilterUnsupported | FilterNone | FilterExact string "row_filter list"

record pip_provider =
  pp_name :: string
  pp_attributes :: "(string \<times> (string \<times> jsval) list) list"
  pp_freshnessMs :: int

record authorizer =
  az_liveAttributes :: bool
  az_epoch :: int
  az_pips :: "pip_provider list option"
  az_requirements :: "string \<Rightarrow> string option \<Rightarrow> (string \<times> string) list"
  az_rowFilterFor :: "string \<Rightarrow> string option \<Rightarrow> pip_value list \<Rightarrow> filter_plan"
  az_decide :: "int \<Rightarrow> authz_request \<Rightarrow> decision res"

section \<open>The local authorizer\<close>

record policy_condition =
  pc_field :: string
  pc_op :: filter_op
  pc_values :: "jsval list option"
  pc_from :: "(string \<times> string \<times> (string \<times> jsval list) list) option"

record policy =
  po_id :: string
  po_actions :: "string list"
  po_purpose :: "string option"
  po_requires :: "(string \<times> string) list"
  po_where :: "policy_condition list"
  po_obligations :: "string list"

record local_options =
  lo_policies :: "policy list"
  lo_pips :: "pip_provider list"
  lo_epoch :: int
  lo_known :: "string list"
  lo_ttlMs :: int

definition starts_with :: "string \<Rightarrow> string \<Rightarrow> bool" where
  "starts_with pre s \<longleftrightarrow> take (length pre) s = pre"

definition matches :: "string \<Rightarrow> string \<Rightarrow> bool" where
  "matches pat action =
     (if length pat \<ge> 2 \<and> drop (length pat - 2) pat = ''.*''
      then starts_with (take (length pat - 1) pat) action else pat = action)"

definition attr_of :: "pip_value list \<Rightarrow> string \<Rightarrow> string \<Rightarrow> pip_value option" where
  "attr_of attrs pip a = List.find (\<lambda>x. pv_pip x = pip \<and> pv_attribute x = a) attrs"

definition conditionValues :: "policy_condition \<Rightarrow> pip_value list \<Rightarrow> jsval list option" where
  "conditionValues c attrs =
     (case pc_values c of
        Some vs \<Rightarrow> Some vs
      | None \<Rightarrow> (case pc_from c of
            None \<Rightarrow> Some []
          | Some (pip, a, m) \<Rightarrow>
              (case attr_of attrs pip a of
                 None \<Rightarrow> None
               | Some x \<Rightarrow> Some (case map_of m (js_string (pv_value x)) of None \<Rightarrow> [] | Some vs \<Rightarrow> vs))))"

text \<open>\<open>values.includes(v)\<close>: like \<open>===\<close>, but NaN is found.\<close>

definition js_includes :: "jsval list \<Rightarrow> jsval \<Rightarrow> bool" where
  "js_includes vs v \<longleftrightarrow> list_ex (\<lambda>w. js_seq v w \<or> (v = JFloat ''NaN'' \<and> w = v)) vs"

fun holds :: "filter_op \<Rightarrow> jsval \<Rightarrow> jsval list \<Rightarrow> bool" where
  "holds OpEq v vs = (case vs of [w] \<Rightarrow> js_seq v w | _ \<Rightarrow> False)"
| "holds OpNe v vs = (\<not> js_includes vs v)"
| "holds OpIn v vs = js_includes vs v"

definition applicable :: "local_options \<Rightarrow> string \<Rightarrow> string option \<Rightarrow> policy list" where
  "applicable o' action purpose = filter (\<lambda>p. list_ex (\<lambda>a. matches a action) (po_actions p) \<and>
     (case po_purpose p of None \<Rightarrow> True | Some q \<Rightarrow> q = [] \<or> purpose = Some q)) (lo_policies o')"

definition requirements_ok :: "string \<Rightarrow> policy \<Rightarrow> pip_value list \<Rightarrow> bool" where
  "requirements_ok now p attrs \<longleftrightarrow> list_all (\<lambda>(pip, a). case attr_of attrs pip a of
     None \<Rightarrow> False | Some x \<Rightarrow> \<not> pv_expiresAt x \<le> now) (po_requires p)"

definition obligations_ok :: "local_options \<Rightarrow> policy \<Rightarrow> bool" where
  "obligations_ok o' p \<longleftrightarrow> list_all (\<lambda>k. k \<in> set (lo_known o')) (po_obligations p)"

text \<open>The conditions in order, each on the current and the candidate state; None when one fails.\<close>

fun where_filter :: "policy_condition list \<Rightarrow> authz_request \<Rightarrow> row_filter list option" where
  "where_filter [] q = Some []"
| "where_filter (c # cs) q =
     (case conditionValues c (rq_attributes q) of
        None \<Rightarrow> None
      | Some vs \<Rightarrow>
          if (case rq_current q of None \<Rightarrow> True | Some rcd \<Rightarrow> holds (pc_op c) (oget rcd (pc_field c)) vs) \<and>
             (case rq_candidate q of None \<Rightarrow> True | Some rcd \<Rightarrow> holds (pc_op c) (oget rcd (pc_field c)) vs)
          then map_option (\<lambda>fs. \<lparr>rf_field = pc_field c, rf_op = pc_op c, rf_values = vs\<rparr> # fs) (where_filter cs q)
          else None)"

definition deny :: "local_options \<Rightarrow> string \<Rightarrow> string option \<Rightarrow> decision" where
  "deny o' expiresAt pid = \<lparr>de_allow = False, de_policy = pid, de_rowFilter = None, de_obligations = [],
     de_epoch = lo_epoch o', de_expiresAt = expiresAt\<rparr>"

text \<open>The loop over the applicable policies; \<open>first\<close> is the first cause of a skip.\<close>

fun decide_policies ::
    "local_options \<Rightarrow> string \<Rightarrow> string \<Rightarrow> authz_request \<Rightarrow> policy list \<Rightarrow> decision option \<Rightarrow> decision + decision option" where
  "decide_policies o' now expiresAt q [] fst_cause = Inr fst_cause"
| "decide_policies o' now expiresAt q (p # ps) fst_cause =
     (let skip = (case fst_cause of None \<Rightarrow> Some (deny o' expiresAt (Some (po_id p))) | Some d \<Rightarrow> Some d)
      in if \<not> requirements_ok now p (rq_attributes q) then decide_policies o' now expiresAt q ps skip
         else if \<not> obligations_ok o' p then decide_policies o' now expiresAt q ps skip
         else case where_filter (po_where p) q of
             Some fs \<Rightarrow> Inl \<lparr>de_allow = True, de_policy = Some (po_id p), de_rowFilter = Some fs,
               de_obligations = po_obligations p, de_epoch = lo_epoch o', de_expiresAt = expiresAt\<rparr>
           | None \<Rightarrow> decide_policies o' now expiresAt q ps fst_cause)"

definition local_decide :: "local_options \<Rightarrow> int \<Rightarrow> authz_request \<Rightarrow> decision" where
  "local_decide o' now q =
     (let expiresAt = to_iso (now + lo_ttlMs o'); ps = applicable o' (rq_action q) (rq_purpose q)
      in case ps of
           [] \<Rightarrow> deny o' expiresAt None
         | p # _ \<Rightarrow> (case decide_policies o' (to_iso now) expiresAt q ps None of
               Inl d \<Rightarrow> d
             | Inr (Some d) \<Rightarrow> d
             | Inr None \<Rightarrow> deny o' expiresAt (Some (po_id p))))"

fun filter_of :: "policy_condition list \<Rightarrow> pip_value list \<Rightarrow> row_filter list option" where
  "filter_of [] attrs = Some []"
| "filter_of (c # cs) attrs =
     (case conditionValues c attrs of
        None \<Rightarrow> None
      | Some vs \<Rightarrow> map_option (\<lambda>fs. \<lparr>rf_field = pc_field c, rf_op = pc_op c, rf_values = vs\<rparr> # fs) (filter_of cs attrs))"

definition local_rowFilterFor :: "local_options \<Rightarrow> string \<Rightarrow> string option \<Rightarrow> pip_value list \<Rightarrow> filter_plan" where
  "local_rowFilterFor o' action purpose attrs =
     (case applicable o' action purpose of
        [p] \<Rightarrow> (case filter_of (po_where p) attrs of
            None \<Rightarrow> FilterUnsupported | Some fs \<Rightarrow> FilterExact (po_id p) fs)
      | _ \<Rightarrow> FilterNone)"

definition localAuthorizer :: "local_options \<Rightarrow> authorizer" where
  "localAuthorizer o' = \<lparr>az_liveAttributes = False, az_epoch = lo_epoch o', az_pips = Some (lo_pips o'),
     az_requirements = (\<lambda>action purpose. concat (map po_requires (applicable o' action purpose))),
     az_rowFilterFor = local_rowFilterFor o',
     az_decide = (\<lambda>now q. Inr (local_decide o' now q))\<rparr>"

section \<open>The runtime side\<close>

record gatekeeper =
  gk_authorizer :: "authorizer option"
  gk_pips :: "pip_provider list"
  gk_cache :: "(string \<times> decision \<times> int) list"

definition pipProviders :: "gatekeeper \<Rightarrow> pip_provider list" where
  "pipProviders g = (case gk_authorizer g of None \<Rightarrow> gk_pips g
     | Some a \<Rightarrow> (case az_pips a of None \<Rightarrow> gk_pips g | Some ps \<Rightarrow> ps))"

definition gather :: "gatekeeper \<Rightarrow> int \<Rightarrow> string \<Rightarrow> string \<times> string \<Rightarrow> pip_value list" where
  "gather g now actor need =
     (case List.find (\<lambda>x. pp_name x = fst need) (pipProviders g) of
        None \<Rightarrow> []
      | Some p \<Rightarrow>
          (case map_of (pp_attributes p) actor of
             None \<Rightarrow> []
           | Some attrs \<Rightarrow>
               (case oget attrs (snd need) of
                  JUndef \<Rightarrow> []
                | v \<Rightarrow> [\<lparr>pv_pip = fst need, pv_attribute = snd need, pv_value = v,
                    pv_expiresAt = to_iso (now + pp_freshnessMs p)\<rparr>])))"

definition attributes :: "gatekeeper \<Rightarrow> int \<Rightarrow> string \<Rightarrow> string option \<Rightarrow> string \<Rightarrow> pip_value list" where
  "attributes g now action purpose actor =
     (case gk_authorizer g of
        None \<Rightarrow> []
      | Some a \<Rightarrow> concat (map (gather g now actor) (az_requirements a action purpose)))"

definition attr_text :: "pip_value \<Rightarrow> string" where
  "attr_text x = pv_pip x @ ''.'' @ pv_attribute x @ ''='' @ js_string (pv_value x)"

definition revision_text :: "obj option \<Rightarrow> string" where
  "revision_text current =
     (case current of
        None \<Rightarrow> ''-''
      | Some rcd \<Rightarrow> js_string (oget rcd ''id'') @ ''@'' @
          js_string (if nullish (oget rcd ''version'') then JStr [] else oget rcd ''version''))"

definition cache_key ::
    "authorizer \<Rightarrow> call_context \<Rightarrow> string \<Rightarrow> obj option \<Rightarrow> obj option \<Rightarrow> pip_value list \<Rightarrow> string" where
  "cache_key a ctx action current candidate attrs =
     join_with ''|'' [show_int (az_epoch a), cx_tenant ctx, cx_actor ctx, action,
       (case cx_purpose ctx of None \<Rightarrow> [] | Some p \<Rightarrow> p), revision_text current,
       (case candidate of None \<Rightarrow> [] | Some c \<Rightarrow> json_text (JObj c)),
       join_with '','' (map attr_text attrs)]"

definition allow_all :: "int \<Rightarrow> int \<Rightarrow> decision" where
  "allow_all epoch now = \<lparr>de_allow = True, de_policy = None, de_rowFilter = None, de_obligations = [],
     de_epoch = epoch, de_expiresAt = to_iso (now + 1000)\<rparr>"

definition authz_request_of ::
    "call_context \<Rightarrow> string \<Rightarrow> string \<Rightarrow> resource option \<Rightarrow> obj option \<Rightarrow> obj option \<Rightarrow> pip_value list \<Rightarrow> authz_request" where
  "authz_request_of ctx action kind r current candidate attrs =
     \<lparr>rq_tenant = cx_tenant ctx, rq_actor = cx_actor ctx, rq_action = action, rq_kind = kind,
      rq_resource = map_option r_id r,
      rq_purpose = (case cx_purpose ctx of None \<Rightarrow> None | Some p \<Rightarrow> if p = [] then None else Some p),
      rq_current = current, rq_candidate = candidate, rq_attributes = attrs\<rparr>"

text \<open>\<open>decide\<close>: the decision and the gatekeeper with its cache afterwards.\<close>

definition gk_decide ::
    "platform \<Rightarrow> int \<Rightarrow> gatekeeper \<Rightarrow> string \<Rightarrow> string \<Rightarrow> resource option \<Rightarrow> call_context \<Rightarrow> obj option \<Rightarrow> obj option
      \<Rightarrow> (decision \<times> gatekeeper) res" where
  "gk_decide pl now g action kind r ctx current candidate =
     (case gk_authorizer g of
        None \<Rightarrow> Inr (allow_all 0 now, g)
      | Some a \<Rightarrow>
          if cx_maintenance ctx then Inr (allow_all (az_epoch a) now, g)
          else let attrs = attributes g now action (cx_purpose ctx) (cx_actor ctx);
                   key = cache_key a ctx action current candidate attrs;
                   fresh = bind_res (az_decide a now (authz_request_of ctx action kind r current candidate attrs)) (\<lambda>d.
                     Inr (d, if de_allow d \<and> \<not> az_liveAttributes a
                       then g\<lparr>gk_cache := mput key (d, case date_parse (pl_dateparse pl) (de_expiresAt d) of
                           None \<Rightarrow> 0 | Some t \<Rightarrow> min t (now + 60000)) (gk_cache g)\<rparr>
                       else g))
               in (case map_of (gk_cache g) key of
                     Some (d, until) \<Rightarrow>
                       if \<not> az_liveAttributes a \<and> now < until \<and> de_epoch d = az_epoch a then Inr (d, g) else fresh
                   | None \<Rightarrow> fresh))"

definition gate :: "(decision \<times> gatekeeper) res \<Rightarrow> exn \<Rightarrow> gatekeeper res" where
  "gate m e = bind_res m (\<lambda>(d, g). if de_allow d then Inr g else Inl e)"

definition requireRead ::
    "platform \<Rightarrow> int \<Rightarrow> gatekeeper \<Rightarrow> string \<Rightarrow> resource \<Rightarrow> call_context \<Rightarrow> obj \<Rightarrow> gatekeeper res" where
  "requireRead pl now g action r ctx current =
     gate (gk_decide pl now g action ''read'' (Some r) ctx (Some current) None) (err ''NotFound'')"

definition requireWrite ::
    "platform \<Rightarrow> int \<Rightarrow> gatekeeper \<Rightarrow> string \<Rightarrow> resource \<Rightarrow> call_context \<Rightarrow> obj option \<Rightarrow> obj \<Rightarrow> gatekeeper res" where
  "requireWrite pl now g action r ctx current candidate =
     gate (gk_decide pl now g action ''write'' (Some r) ctx current (Some candidate))
       (err (if current = None then ''NotPermitted'' else ''NotFound''))"

definition requireOperation ::
    "platform \<Rightarrow> int \<Rightarrow> gatekeeper \<Rightarrow> string \<Rightarrow> resource option \<Rightarrow> call_context \<Rightarrow> gatekeeper res" where
  "requireOperation pl now g action r ctx =
     gate (gk_decide pl now g action ''operation'' r ctx None None) (err ''NotPermitted'')"

datatype list_plan = PlanNone | PlanCandidate "(string \<times> row_filter list) option" | PlanExact string "row_filter list" | PlanUnsupported

definition listPlan :: "gatekeeper \<Rightarrow> int \<Rightarrow> string \<Rightarrow> call_context \<Rightarrow> obj \<Rightarrow> list_plan" where
  "listPlan g now action ctx params =
     (case gk_authorizer g of
        None \<Rightarrow> PlanNone
      | Some a \<Rightarrow>
          if az_liveAttributes a then PlanCandidate None
          else (case az_rowFilterFor a action (cx_purpose ctx) (attributes g now action (cx_purpose ctx) (cx_actor ctx)) of
              FilterNone \<Rightarrow> PlanCandidate None
            | FilterUnsupported \<Rightarrow> PlanUnsupported
            | FilterExact p fs \<Rightarrow>
                if list_all (\<lambda>c. mhas (rf_field c) params) fs then PlanExact p fs else PlanCandidate (Some (p, fs))))"

section \<open>Facts about decisions\<close>

text \<open>What a policy must satisfy to permit a request, independent of the evaluation order.\<close>

definition condition_holds :: "policy_condition \<Rightarrow> authz_request \<Rightarrow> bool" where
  "condition_holds c q \<longleftrightarrow> (case conditionValues c (rq_attributes q) of
     None \<Rightarrow> False
   | Some vs \<Rightarrow> list_all (\<lambda>s. case s of None \<Rightarrow> True | Some rcd \<Rightarrow> holds (pc_op c) (oget rcd (pc_field c)) vs)
       [rq_current q, rq_candidate q])"

definition policy_permits :: "local_options \<Rightarrow> string \<Rightarrow> authz_request \<Rightarrow> policy \<Rightarrow> bool" where
  "policy_permits o' now q p \<longleftrightarrow> p \<in> set (applicable o' (rq_action q) (rq_purpose q)) \<and>
     requirements_ok now p (rq_attributes q) \<and> obligations_ok o' p \<and> list_all (\<lambda>c. condition_holds c q) (po_where p)"

lemma where_filter_Some: "where_filter cs q \<noteq> None \<longleftrightarrow> list_all (\<lambda>c. condition_holds c q) cs"
  by (induction cs) (auto simp: condition_holds_def split: option.splits)

lemma decide_policies_allow:
  "(case decide_policies o' now ex q ps c of Inl d \<Rightarrow> de_allow d | Inr _ \<Rightarrow> False) \<longleftrightarrow>
     (\<exists>p\<in>set ps. requirements_ok now p (rq_attributes q) \<and> obligations_ok o' p \<and> list_all (\<lambda>c. condition_holds c q) (po_where p))"
proof (induction ps arbitrary: c)
  case Nil
  then show ?case by simp
next
  case (Cons p ps)
  show ?case
    using Cons where_filter_Some [of "po_where p" q]
    by (cases "where_filter (po_where p) q") (auto simp: Let_def)
qed

lemma decide_policies_causes:
  "decide_policies o' now ex q ps c = Inr (Some d) \<Longrightarrow> (\<forall>x. c = Some x \<longrightarrow> \<not> de_allow x) \<Longrightarrow> \<not> de_allow d"
  by (induction ps arbitrary: c) (auto simp: Let_def deny_def split: if_splits option.splits)

lemma decide_policies_Inl: "decide_policies o' now ex q ps c = Inl d \<Longrightarrow> de_allow d"
  by (induction ps arbitrary: c) (auto simp: Let_def split: if_splits option.splits)

lemma local_decide_iff:
  "de_allow (local_decide o' now q) \<longleftrightarrow> (\<exists>p. policy_permits o' (to_iso now) q p)"
proof (cases "applicable o' (rq_action q) (rq_purpose q)")
  case Nil
  then show ?thesis by (simp add: local_decide_def policy_permits_def deny_def)
next
  case (Cons p ps)
  let ?m = "decide_policies o' (to_iso now) (to_iso (now + lo_ttlMs o')) q (p # ps) None"
  have d: "de_allow (local_decide o' now q) \<longleftrightarrow> (case ?m of Inl d \<Rightarrow> de_allow d | Inr _ \<Rightarrow> False)"
    using Cons decide_policies_causes [of o' "to_iso now" "to_iso (now + lo_ttlMs o')" q "p # ps" None]
    by (auto simp del: decide_policies.simps simp: local_decide_def Let_def deny_def split: sum.splits option.splits)
  show ?thesis unfolding d decide_policies_allow policy_permits_def Cons by blast
qed

text \<open>A cached decision is used only while its epoch is the authorizer's.\<close>

lemma decide_not_cached:
  assumes "gk_authorizer g = Some a" "\<not> cx_maintenance ctx"
    and "list_all (\<lambda>(k, d, until). de_epoch d \<noteq> az_epoch a) (gk_cache g)"
    and "gk_decide pl now g action kind r ctx current candidate = Inr (d, g')"
  shows "az_decide a now (authz_request_of ctx action kind r current candidate
      (attributes g now action (cx_purpose ctx) (cx_actor ctx))) = Inr d"
proof -
  have "de_epoch x \<noteq> az_epoch a" if "map_of (gk_cache g) k = Some (x, u)" for k x u
    using assms(3) map_of_SomeD [OF that] by (auto simp: list_all_iff)
  with assms(1,2,4) show ?thesis
    by (auto simp: gk_decide_def Let_def bind_res_Inr_iff split: option.splits if_splits)
qed

end
