(* ===== verification/Memory.thy ===== *)
theory Memory
  imports Services
begin

text \<open>
  \<open>MemoryStorage\<close> of \<open>packages/runtime/src/adapters/memory.ts\<close>, the reference storage adapter: its
  tables, unique claims, audit log, outbox, receipts and documents as one record, the reads, the
  commit of one or several plans with every guard it re-checks, and the outbox leases. A commit
  that fails returns the error together with the state it leaves behind.
\<close>

record memory =
  me_tables :: "(string \<times> (string \<times> stored_record) list) list"
  me_claims :: "(string \<times> string) list"
  me_audits :: "audit_entry list"
  me_outbox :: "outbox_row list"
  me_processed :: "string list"
  me_receipts :: "(string \<times> receipt) list"
  me_documents :: "obj docs"

definition memory_new :: memory where
  "memory_new = \<lparr>me_tables = [], me_claims = [], me_audits = [], me_outbox = [], me_processed = [],
     me_receipts = [], me_documents = []\<rparr>"

section \<open>Reads\<close>

text \<open>A table that was never written reads as empty.\<close>

definition mem_table :: "memory \<Rightarrow> string \<Rightarrow> resource \<Rightarrow> (string \<times> stored_record) list" where
  "mem_table m tenant r = (case map_of (me_tables m) (key2 tenant (r_id r)) of None \<Rightarrow> [] | Some t \<Rightarrow> t)"

definition is_live :: "stored_record \<Rightarrow> bool" where
  "is_live rcd \<longleftrightarrow> \<not> truthy (oget rcd ''deletedAt'')"

definition mem_get :: "memory \<Rightarrow> string \<Rightarrow> resource \<Rightarrow> string \<Rightarrow> stored_record option" where
  "mem_get m tenant r i = map_of (mem_table m tenant r) i"

definition mem_findUnique :: "memory \<Rightarrow> string \<Rightarrow> resource \<Rightarrow> string \<Rightarrow> stored_record option" where
  "mem_findUnique m tenant r claimKey =
     mem_get m tenant r (case map_of (me_claims m) (key2 tenant claimKey) of None \<Rightarrow> [] | Some i \<Rightarrow> i)"

text \<open>\<open>array.sort(cmp)\<close>: stable.\<close>

fun insert_by :: "('a \<Rightarrow> 'a \<Rightarrow> int) \<Rightarrow> 'a \<Rightarrow> 'a list \<Rightarrow> 'a list" where
  "insert_by cmp x [] = [x]"
| "insert_by cmp x (y # ys) = (if cmp x y \<le> 0 then x # y # ys else y # insert_by cmp x ys)"

definition sort_by :: "('a \<Rightarrow> 'a \<Rightarrow> int) \<Rightarrow> 'a list \<Rightarrow> 'a list" where
  "sort_by cmp xs = foldr (insert_by cmp) xs []"

fun cmp_keys :: "int list \<Rightarrow> string list \<Rightarrow> string list \<Rightarrow> int" where
  "cmp_keys dirs (a # as) (b # bs) =
     (let c = compareBytes a b * (case dirs of [] \<Rightarrow> 1 | d # _ \<Rightarrow> d)
      in if c \<noteq> 0 then c else cmp_keys (tl dirs) as bs)"
| "cmp_keys dirs as bs = 0"

type_synonym keyed = "stored_record \<times> string list \<times> string"

definition cmp_rows :: "int list \<Rightarrow> string list \<times> string \<Rightarrow> string list \<times> string \<Rightarrow> int" where
  "cmp_rows dirs a b =
     (let c = cmp_keys dirs (fst a) (fst b) in if c \<noteq> 0 then c else compareBytes (snd a) (snd b))"

definition list_dirs :: "list_decl \<Rightarrow> int list" where
  "list_dirs l = map (\<lambda>k. if ok_direction k = ''desc'' then - 1 else 1) (l_order l)"

definition list_rows :: "memory \<Rightarrow> string \<Rightarrow> resource \<Rightarrow> list_query \<Rightarrow> stored_record list" where
  "list_rows m tenant r q =
     filter (\<lambda>rcd. is_live rcd \<and> list_all (\<lambda>f. js_seq (oget rcd f) (oget (lq_values q) f)) (l_fields (lq_list q)))
       (map snd (mem_table m tenant r))"

definition list_keyed :: "memory \<Rightarrow> string \<Rightarrow> resource \<Rightarrow> list_query \<Rightarrow> (stored_record \<Rightarrow> string list) \<Rightarrow> keyed list" where
  "list_keyed m tenant r q sortKeys =
     sort_by (\<lambda>a b. cmp_rows (list_dirs (lq_list q)) (snd a) (snd b))
       (map (\<lambda>rcd. (rcd, sortKeys rcd, js_string (oget rcd ''id''))) (list_rows m tenant r q))"

definition list_start :: "list_query \<Rightarrow> keyed list \<Rightarrow> nat" where
  "list_start q keyed =
     (case lq_after q of
        None \<Rightarrow> 0
      | Some a \<Rightarrow>
          (case find_index (\<lambda>x. cmp_rows (list_dirs (lq_list q)) (snd x) (la_keys a, la_id a) > 0) keyed of
             None \<Rightarrow> length keyed | Some i \<Rightarrow> i))"

definition mem_list ::
    "memory \<Rightarrow> string \<Rightarrow> resource \<Rightarrow> list_query \<Rightarrow> (stored_record \<Rightarrow> string list) \<Rightarrow> stored_record list \<times> bool" where
  "mem_list m tenant r q sortKeys =
     (let keyed = list_keyed m tenant r q sortKeys; start = list_start q keyed
      in (map fst (take (lq_limit q) (drop start keyed)), start + lq_limit q < length keyed))"

definition mem_countDependents :: "memory \<Rightarrow> string \<Rightarrow> resource \<Rightarrow> string \<Rightarrow> string \<Rightarrow> nat" where
  "mem_countDependents m tenant child f i =
     length (filter (\<lambda>(k, rcd). is_live rcd \<and> js_seq (oget rcd f) (JStr i)) (mem_table m tenant child))"

definition mem_getReceipt :: "memory \<Rightarrow> string \<Rightarrow> string \<Rightarrow> string \<Rightarrow> receipt option" where
  "mem_getReceipt m tenant operation key = map_of (me_receipts m) (key3 tenant operation key)"

definition group_matches :: "stored_record \<Rightarrow> string list \<Rightarrow> jsval list \<Rightarrow> bool" where
  "group_matches rcd fs vs \<longleftrightarrow>
     list_all (\<lambda>i. js_seq (oget rcd (fs ! i)) (if i < length vs then vs ! i else JUndef)) [0 ..< length fs]"

text \<open>A nullable instant member: null and undefined read as no bound.\<close>

definition opt_instant :: "jsval \<Rightarrow> string option" where
  "opt_instant v = (if nullish v then None else Some (js_string v))"

text \<open>Half-open intervals overlap; a missing end is infinite.\<close>

definition before_end :: "string \<Rightarrow> string option \<Rightarrow> bool" where
  "before_end t e \<longleftrightarrow> (case e of None \<Rightarrow> True | Some u \<Rightarrow> t < u)"

definition overlaps :: "interval_guard \<Rightarrow> stored_record \<Rightarrow> bool" where
  "overlaps g rcd \<longleftrightarrow> is_live rcd \<and> \<not> js_seq (oget rcd ''id'') (JStr (ig_excludeId g)) \<and>
     group_matches rcd (ig_groupFields g) (ig_groupValues g) \<and>
     before_end (ig_from g) (opt_instant (oget rcd ''effectiveUntil'')) \<and>
     before_end (js_string (oget rcd ''effectiveFrom'')) (ig_until g)"

definition mem_overlapping :: "memory \<Rightarrow> string \<Rightarrow> resource \<Rightarrow> interval_guard \<Rightarrow> stored_record list" where
  "mem_overlapping m tenant r g = filter (overlaps g) (map snd (mem_table m tenant r))"

definition mem_effectiveAt ::
    "memory \<Rightarrow> string \<Rightarrow> resource \<Rightarrow> string list \<Rightarrow> jsval list \<Rightarrow> string \<Rightarrow> stored_record option" where
  "mem_effectiveAt m tenant r fs vs t =
     List.find (\<lambda>rcd. is_live rcd \<and> group_matches rcd fs vs \<and>
        js_string (oget rcd ''effectiveFrom'') \<le> t \<and> before_end t (opt_instant (oget rcd ''effectiveUntil'')))
       (map snd (mem_table m tenant r))"

definition child_name :: "stored_record \<Rightarrow> string" where
  "child_name x = js_string (if nullish (oget x ''name'') then oget x ''id'' else oget x ''name'')"

definition mem_children :: "memory \<Rightarrow> string \<Rightarrow> resource \<Rightarrow> string \<Rightarrow> string \<Rightarrow> nat \<Rightarrow> stored_record list" where
  "mem_children m tenant r parentField i limit =
     take limit (sort_by (\<lambda>a b. let c = compareBytes (child_name a) (child_name b)
         in if c \<noteq> 0 then c else compareBytes (js_string (oget a ''id'')) (js_string (oget b ''id'')))
       (filter (\<lambda>x. is_live x \<and> js_seq (oget x parentField) (JStr i)) (map snd (mem_table m tenant r))))"

text \<open>\<open>exportPage\<close>; \<open>lc\<close> is the platform's \<open>localeCompare\<close>.\<close>

definition mem_exportPage ::
    "(string \<Rightarrow> string \<Rightarrow> int) \<Rightarrow> memory \<Rightarrow> string \<Rightarrow> resource \<Rightarrow> string option \<Rightarrow> nat \<Rightarrow> stored_record list \<times> string option" where
  "mem_exportPage lc m tenant r cursor limit =
     (let rid = (\<lambda>x. js_string (oget x ''id''));
          rows = filter (\<lambda>x. case cursor of None \<Rightarrow> True | Some c \<Rightarrow> c = [] \<or> c < rid x)
            (sort_by (\<lambda>a b. lc (rid a) (rid b)) (map snd (mem_table m tenant r)));
          page = take limit rows
      in (page, if length rows > limit then Some (rid (last page)) else None))"

definition mem_getDocument :: "memory \<Rightarrow> string \<Rightarrow> string \<Rightarrow> string \<Rightarrow> obj option" where
  "mem_getDocument m tenant kind i =
     map_option (\<lambda>(v, d). mput ''_version'' (JInt (int v)) d) (getDocument (me_documents m) tenant kind i)"

text \<open>The \<open>_version\<close> member of a document is not stored.\<close>

definition mem_putDocument ::
    "memory \<Rightarrow> string \<Rightarrow> string \<Rightarrow> string \<Rightarrow> obj \<Rightarrow> nat option \<Rightarrow> memory res" where
  "mem_putDocument m tenant kind i doc expected =
     bind_res (putDocument (me_documents m) tenant kind i (mdel ''_version'' doc) expected)
       (\<lambda>ds. Inr (m\<lparr>me_documents := ds\<rparr>))"

text \<open>\<open>MemoryStorage.snapshot\<close>: the rows of one table and their unique claims.\<close>

definition claim_holds :: "unique_decl \<Rightarrow> stored_record \<Rightarrow> bool" where
  "claim_holds u row \<longleftrightarrow>
     (case u_condition u of None \<Rightarrow> True | Some (f, vs) \<Rightarrow> js_string (oget row f) \<in> set vs) \<and>
     list_all (\<lambda>f. \<not> nullish (oget row f)) (u_within u @ u_fields u)"

definition claim_text :: "resource \<Rightarrow> unique_decl \<Rightarrow> stored_record \<Rightarrow> string" where
  "claim_text r u row =
     encodeIdentity (r_id r # u_name u # map (\<lambda>f. js_string (oget row f)) (u_within u @ u_fields u))"

definition mem_snapshot :: "string \<Rightarrow> resource \<Rightarrow> stored_record list \<Rightarrow> memory" where
  "mem_snapshot tenant r rows =
     memory_new\<lparr>me_tables := [(key2 tenant (r_id r),
         foldl (\<lambda>t row. mput (js_string (oget row ''id'')) row t) [] rows)],
       me_claims := foldl (\<lambda>c (row, u). if claim_holds u row
           then mput (key2 tenant (claim_text r u row)) (js_string (oget row ''id'')) c else c) []
         (concat (map (\<lambda>row. map (\<lambda>u. (row, u)) (r_uniques r)) rows))\<rparr>"

section \<open>The outbox\<close>

record outbox_ref =
  ref_tenant :: string
  ref_opId :: string
  ref_ordinal :: nat

definition row_is :: "outbox_ref \<Rightarrow> outbox_row \<Rightarrow> bool" where
  "row_is r w \<longleftrightarrow> ob_tenant (or_entry w) = ref_tenant r \<and> ob_opId (or_entry w) = ref_opId r \<and>
     ob_ordinal (or_entry w) = ref_ordinal r"

text \<open>Replace the first row the reference names by \<open>f\<close> of it, if \<open>f\<close> accepts it.\<close>

fun update_row :: "outbox_ref \<Rightarrow> (outbox_row \<Rightarrow> outbox_row option) \<Rightarrow> outbox_row list \<Rightarrow> outbox_row list option" where
  "update_row r f [] = None"
| "update_row r f (x # xs) =
     (if row_is r x then map_option (\<lambda>y. y # xs) (f x) else map_option (\<lambda>ys. x # ys) (update_row r f xs))"

definition outbox_op :: "memory \<Rightarrow> outbox_ref \<Rightarrow> (outbox_row \<Rightarrow> outbox_row option) \<Rightarrow> bool \<times> memory" where
  "outbox_op m r f =
     (case update_row r f (me_outbox m) of None \<Rightarrow> (False, m) | Some rows \<Rightarrow> (True, m\<lparr>me_outbox := rows\<rparr>))"

definition outboxTenants :: "memory \<Rightarrow> string list" where
  "outboxTenants m = dedup (map (\<lambda>w. ob_tenant (or_entry w)) (filter (\<lambda>w. or_status w = ObPending) (me_outbox m)))"

definition outboxSweep :: "memory \<Rightarrow> string \<Rightarrow> int \<Rightarrow> nat \<Rightarrow> outbox_row list" where
  "outboxSweep m tenant now limit =
     take limit (filter (\<lambda>w. ob_tenant (or_entry w) = tenant \<and> or_status w = ObPending \<and>
       (case or_leaseUntil w of None \<Rightarrow> True | Some u \<Rightarrow> u < now)) (me_outbox m))"

definition claim_row :: "string \<Rightarrow> int \<Rightarrow> int \<Rightarrow> outbox_row \<Rightarrow> outbox_row option" where
  "claim_row owner now leaseMs w =
     (if or_status w \<noteq> ObPending \<or> (case or_leaseUntil w of None \<Rightarrow> False | Some u \<Rightarrow> u \<ge> now) then None
      else Some (w\<lparr>or_leaseOwner := Some owner, or_leaseUntil := Some (now + leaseMs),
                   or_attempts := or_attempts w + 1\<rparr>))"

definition outboxClaim :: "memory \<Rightarrow> outbox_ref \<Rightarrow> string \<Rightarrow> int \<Rightarrow> int \<Rightarrow> bool \<times> memory" where
  "outboxClaim m r owner now leaseMs = outbox_op m r (claim_row owner now leaseMs)"

record progress =
  pg_delivered :: "string list"
  pg_done :: bool
  pg_dead :: bool
  pg_release :: bool

definition progress_row :: "string \<Rightarrow> progress \<Rightarrow> outbox_row \<Rightarrow> outbox_row option" where
  "progress_row owner u w =
     (if or_status w \<noteq> ObPending \<or> or_leaseOwner w \<noteq> Some owner then None
      else let o1 = w\<lparr>or_delivered := dedup (or_delivered w @ pg_delivered u)\<rparr>;
               o2 = (if pg_done u then o1\<lparr>or_status := ObDelivered\<rparr> else o1);
               o3 = (if pg_dead u then o2\<lparr>or_status := ObDead\<rparr> else o2)
           in Some (if pg_done u \<or> pg_dead u \<or> pg_release u
                    then o3\<lparr>or_leaseOwner := None, or_leaseUntil := None\<rparr> else o3))"

definition outboxProgress :: "memory \<Rightarrow> outbox_ref \<Rightarrow> string \<Rightarrow> progress \<Rightarrow> bool \<times> memory" where
  "outboxProgress m r owner u = outbox_op m r (progress_row owner u)"

definition outboxDead :: "memory \<Rightarrow> string \<Rightarrow> outbox_row list" where
  "outboxDead m tenant = filter (\<lambda>w. ob_tenant (or_entry w) = tenant \<and> or_status w = ObDead) (me_outbox m)"

definition outboxRedrive :: "memory \<Rightarrow> outbox_ref \<Rightarrow> bool \<times> memory" where
  "outboxRedrive m r = outbox_op m r (\<lambda>w. if or_status w \<noteq> ObDead then None
     else Some (w\<lparr>or_status := ObPending, or_attempts := 0\<rparr>))"

definition hasProcessed :: "memory \<Rightarrow> string \<Rightarrow> string \<Rightarrow> string \<Rightarrow> bool" where
  "hasProcessed m tenant sub mid \<longleftrightarrow> key3 tenant sub mid \<in> set (me_processed m)"

definition markProcessed :: "memory \<Rightarrow> string \<Rightarrow> string \<Rightarrow> string \<Rightarrow> bool \<times> memory" where
  "markProcessed m tenant sub mid =
     (let k = key3 tenant sub mid
      in if k \<in> set (me_processed m) then (False, m)
         else (True, m\<lparr>me_processed := me_processed m @ [k]\<rparr>))"

section \<open>Committing a plan\<close>

definition new_row :: "outbox_entry \<Rightarrow> outbox_row" where
  "new_row e = \<lparr>or_entry = e, or_status = ObPending, or_attempts = 0, or_leaseOwner = None,
     or_leaseUntil = None, or_delivered = []\<rparr>"

definition receipt_key :: "commit_plan \<Rightarrow> receipt \<Rightarrow> string" where
  "receipt_key p rc = key3 (cp_tenant p) (rc_operation rc) (rc_key rc)"

definition completion_step :: "memory \<Rightarrow> commit_plan \<Rightarrow> memory res" where
  "completion_step m p =
     (case cp_completion p of
        None \<Rightarrow> Inr m
      | Some w \<Rightarrow>
          (let k = key3 (cp_tenant p) (dw_kind w) (dw_id w)
           in if doc_version (me_documents m) k \<noteq> dw_expected w then Inl (err ''VersionConflict'')
              else Inr (m\<lparr>me_documents := mput k
                ((case dw_expected w of None \<Rightarrow> 0 | Some v \<Rightarrow> v) + 1, mdel ''_version'' (dw_doc w)) (me_documents m)\<rparr>)))"

definition receipt_guard :: "memory \<Rightarrow> commit_plan \<Rightarrow> unit res" where
  "receipt_guard m p =
     (case cp_receipt p of
        None \<Rightarrow> Inr ()
      | Some rc \<Rightarrow> guard_res (\<not> mhas (receipt_key p rc) (me_receipts m))
          (err_constraint ''UniqueConflict'' ''forge_receipt''))"

definition version_guard :: "memory \<Rightarrow> commit_plan \<Rightarrow> unit res" where
  "version_guard m p =
     (case (cp_kind p, mem_get m (cp_tenant p) (cp_resource p) (cp_id p)) of
        (PkCreate, None) \<Rightarrow> Inr ()
      | (PkCreate, Some cur) \<Rightarrow> Inl (err ''TransientConflict'')
      | (k, None) \<Rightarrow> Inl (err ''NotFound'')
      | (k, Some cur) \<Rightarrow>
          (case cp_expectedVersion p of
             None \<Rightarrow> Inr ()
           | Some v \<Rightarrow> guard_res (js_seq (oget cur ''version'') (JInt v)) (err ''VersionConflict'')))"

definition claim_guard :: "memory \<Rightarrow> commit_plan \<Rightarrow> claim_change \<Rightarrow> unit res" where
  "claim_guard m p c =
     (case cc_after c of
        None \<Rightarrow> Inr ()
      | Some a \<Rightarrow>
          if a = [] \<or> cc_after c = cc_before c then Inr ()
          else (case map_of (me_claims m) (key2 (cp_tenant p) a) of
              None \<Rightarrow> Inr ()
            | Some holder \<Rightarrow> guard_res (holder = [] \<or> holder = cp_id p)
                (err_constraint ''UniqueConflict'' (r_id (cp_resource p) @ ''.unique.'' @ u_name (cc_unique c)))))"

definition reference_check :: "memory \<Rightarrow> commit_plan \<Rightarrow> reference_guard \<Rightarrow> unit res" where
  "reference_check m p g =
     (case mem_get m (cp_tenant p) (rg_resource g) (rg_id g) of
        None \<Rightarrow> Inl (err ''ReferenceMissing'')
      | Some target \<Rightarrow> guard_res (is_live target) (err ''ReferenceMissing''))"

definition interval_check :: "memory \<Rightarrow> commit_plan \<Rightarrow> unit res" where
  "interval_check m p =
     (case cp_interval p of
        None \<Rightarrow> Inr ()
      | Some g \<Rightarrow> guard_res (mem_overlapping m (cp_tenant p) (cp_resource p) g = [])
          (err_fields ''ValidationFailed'' [(''effectiveFrom'', ''IntervalOverlap'')]))"

definition cycle_err :: exn where
  "cycle_err = err_fields ''ValidationFailed'' [(''parent'', ''Cycle'')]"

text \<open>The walk up the durable parent chain, at most the given number of steps (64).\<close>

fun tree_walk :: "nat \<Rightarrow> (string \<times> stored_record) list \<Rightarrow> string \<Rightarrow> string \<Rightarrow> string option \<Rightarrow> string list \<Rightarrow> unit res" where
  "tree_walk 0 t pf i cur seen = Inr ()"
| "tree_walk (Suc n) t pf i cur seen =
     (case cur of
        None \<Rightarrow> Inr ()
      | Some c \<Rightarrow>
          if c = [] then Inr ()
          else if c = i then Inl cycle_err
          else if c \<in> set seen then Inl cycle_err
          else (case map_of t c of
              None \<Rightarrow> Inl (err ''ReferenceMissing'')
            | Some rcd \<Rightarrow> if \<not> is_live rcd then Inl (err ''ReferenceMissing'')
                else tree_walk n t pf i (opt_instant (oget rcd pf)) (c # seen)))"

definition tree_check :: "memory \<Rightarrow> commit_plan \<Rightarrow> unit res" where
  "tree_check m p =
     (case cp_tree p of
        None \<Rightarrow> Inr ()
      | Some g \<Rightarrow> tree_walk 64 (mem_table m (cp_tenant p) (cp_resource p)) (tg_parentField g) (cp_id p)
          (Some (tg_parentId g)) [])"

definition dependent_check :: "memory \<Rightarrow> commit_plan \<Rightarrow> dependent_guard \<Rightarrow> unit res" where
  "dependent_check m p d =
     guard_res (mem_countDependents m (cp_tenant p) (dg_resource d) (dg_field d) (cp_id p) = 0) (err ''HasDependents'')"

text \<open>Every guard, in the order the code evaluates them.\<close>

definition record_guards :: "memory \<Rightarrow> commit_plan \<Rightarrow> unit res" where
  "record_guards m p =
     bind_res (version_guard m p) (\<lambda>_.
     bind_res (map_res (claim_guard m p) (cp_claims p)) (\<lambda>_.
     bind_res (map_res (reference_check m p) (cp_references p)) (\<lambda>_.
     bind_res (interval_check m p) (\<lambda>_.
     bind_res (tree_check m p) (\<lambda>_.
     bind_res (map_res (dependent_check m p) (cp_dependents p)) (\<lambda>_. Inr ()))))))"

definition commit_guards :: "memory \<Rightarrow> commit_plan \<Rightarrow> unit res" where
  "commit_guards m p =
     bind_res (receipt_guard m p) (\<lambda>_. if cp_kind p = PkPublish then Inr () else record_guards m p)"

definition apply_claim :: "string \<Rightarrow> string \<Rightarrow> (string \<times> string) list \<Rightarrow> claim_change \<Rightarrow> (string \<times> string) list" where
  "apply_claim tenant i claims c =
     (let c1 = (case cc_before c of None \<Rightarrow> claims
          | Some b \<Rightarrow> if b \<noteq> [] \<and> cc_before c \<noteq> cc_after c then mdel (key2 tenant b) claims else claims)
      in case cc_after c of None \<Rightarrow> c1 | Some a \<Rightarrow> if a \<noteq> [] then mput (key2 tenant a) i c1 else c1)"

definition revision_key :: "commit_plan \<Rightarrow> string" where
  "revision_key p = key3 (if dc_tenant (r_decorators (cp_resource p)) then cp_tenant p else []) RESOURCE_REVISION
     (r_id (cp_resource p))"

text \<open>The audit entry, the outbox rows and the receipt, which every kind of plan writes.\<close>

definition apply_common :: "memory \<Rightarrow> commit_plan \<Rightarrow> memory" where
  "apply_common m p = m\<lparr>me_audits := me_audits m @ [cp_audit p],
     me_outbox := me_outbox m @ map new_row (cp_outbox p),
     me_receipts := (case cp_receipt p of None \<Rightarrow> me_receipts m
       | Some rc \<Rightarrow> mput (receipt_key p rc) rc (me_receipts m))\<rparr>"

definition apply_record :: "memory \<Rightarrow> commit_plan \<Rightarrow> memory" where
  "apply_record m p =
     (let t = mem_table m (cp_tenant p) (cp_resource p);
          t' = (if cp_hardDelete p then mdel (cp_id p) t else mput (cp_id p) (cp_after p) t);
          k = revision_key p
      in m\<lparr>me_claims := foldl (apply_claim (cp_tenant p) (cp_id p)) (me_claims m) (cp_claims p),
           me_tables := mput (key2 (cp_tenant p) (r_id (cp_resource p))) t' (me_tables m),
           me_documents := mput k ((case doc_version (me_documents m) k of None \<Rightarrow> 0 | Some v \<Rightarrow> v) + 1, [])
             (me_documents m)\<rparr>)"

definition commit_apply :: "memory \<Rightarrow> commit_plan \<Rightarrow> memory" where
  "commit_apply m p =
     (if cp_kind p = PkPublish then apply_common m p else apply_common (apply_record m p) p)"

text \<open>\<open>commitSync\<close>: the error, if any, and the state left behind.\<close>

definition commitSync :: "memory \<Rightarrow> commit_plan \<Rightarrow> exn option \<times> memory" where
  "commitSync m p =
     (case completion_step m p of
        Inl e \<Rightarrow> (Some e, m)
      | Inr m1 \<Rightarrow> (case commit_guards m1 p of Inl e \<Rightarrow> (Some e, m1) | Inr u \<Rightarrow> (None, commit_apply m1 p)))"

fun commit_plans :: "memory \<Rightarrow> commit_plan list \<Rightarrow> exn option \<times> memory" where
  "commit_plans m [] = (None, m)"
| "commit_plans m (p # ps) =
     (case commitSync m p of (Some e, m1) \<Rightarrow> (Some e, m1) | (None, m1) \<Rightarrow> commit_plans m1 ps)"

text \<open>\<open>absenceWriteConflict\<close> of \<open>packages/runtime/src/atomic-guards.ts\<close>.\<close>

fun absenceWriteConflict :: "commit_plan list \<Rightarrow> absence_guard list \<Rightarrow> exn option" where
  "absenceWriteConflict plans [] = None"
| "absenceWriteConflict plans (g # gs) =
     (if \<not> dc_appendOnly (r_decorators (ag_resource g)) \<or> u_condition (ag_unique g) \<noteq> None
      then Some (err ''ValidationFailed'')
      else if list_ex (\<lambda>p. cp_tenant p = ag_tenant g \<and>
          list_ex (\<lambda>c. cc_after c = Some (ag_claimKey g)) (cp_claims p)) plans
      then Some (err ''ValidationFailed'')
      else absenceWriteConflict plans gs)"

text \<open>The rollback restores everything a plan may have written (not \<open>processed\<close>, which none does).\<close>

definition rollback_to :: "memory \<Rightarrow> memory \<Rightarrow> memory" where
  "rollback_to snapshot m = m\<lparr>me_tables := me_tables snapshot, me_claims := me_claims snapshot,
     me_audits := me_audits snapshot, me_outbox := me_outbox snapshot, me_receipts := me_receipts snapshot,
     me_documents := me_documents snapshot\<rparr>"

definition read_guard_ok :: "memory \<Rightarrow> read_guard \<Rightarrow> bool" where
  "read_guard_ok m g \<longleftrightarrow>
     doc_version (me_documents m) (key3 (rd_tenant g) RESOURCE_REVISION (r_id (rd_resource g))) = rd_revision g"

definition commitAll ::
    "memory \<Rightarrow> commit_plan list \<Rightarrow> absence_guard list \<Rightarrow> read_guard list \<Rightarrow> exn option \<times> memory" where
  "commitAll m plans absent reads =
     (if \<not> list_all (read_guard_ok m) reads then (Some (err ''VersionConflict''), m)
      else case absenceWriteConflict plans absent of
          Some e \<Rightarrow> (Some e, m)
        | None \<Rightarrow>
            if list_ex (\<lambda>g. mhas (key2 (ag_tenant g) (ag_claimKey g)) (me_claims m)) absent
            then (Some (err ''VersionConflict''), m)
            else (case commit_plans m plans of
                (Some e, m1) \<Rightarrow> (Some e, rollback_to m m1)
              | (None, m1) \<Rightarrow> (None, m1)))"

definition mem_commit :: "memory \<Rightarrow> commit_plan \<Rightarrow> exn option \<times> memory" where
  "mem_commit m p = (if cp_completion p \<noteq> None then commitAll m [p] [] [] else commitSync m p)"

definition budget_actions :: "commit_plan list \<Rightarrow> nat \<Rightarrow> nat \<Rightarrow> nat" where
  "budget_actions plans absent reads = reads + absent + sum_list (map (\<lambda>p.
     (if cp_completion p \<noteq> None then 1 else 0) + 1 + length (cp_claims p) + length (cp_references p) + 2) plans)"

end
