(* ===== verification/Temporal.thy ===== *)
theory Temporal
  imports Memory
begin

text \<open>
  Effective dating and hierarchy (\<open>packages/runtime/src/temporal.ts\<close>): the guards the engine
  computes while planning and the traversals, over the reference storage.
\<close>

definition MAX_DEPTH :: nat where
  "MAX_DEPTH = 32"

definition TRAVERSAL_LIMIT :: nat where
  "TRAVERSAL_LIMIT = 100"

definition intervalGuard :: "resource \<Rightarrow> obj \<Rightarrow> string \<Rightarrow> interval_guard option res" where
  "intervalGuard r after i =
     (case dc_effectiveDated (r_decorators r) of
        None \<Rightarrow> Inr None
      | Some uniqueBy \<Rightarrow>
          (case oget after ''effectiveFrom'' of
             JStr from \<Rightarrow>
               (let until = opt_instant (oget after ''effectiveUntil'')
                in if \<not> before_end from until
                   then Inl (err_fields ''ValidationFailed'' [(''effectiveUntil'', ''EmptyInterval'')])
                   else Inr (Some \<lparr>ig_groupFields = uniqueBy, ig_groupValues = map (oget after) uniqueBy,
                     ig_from = from, ig_until = until, ig_excludeId = i\<rparr>))
           | _ \<Rightarrow> Inl (err_fields ''ValidationFailed'' [(''effectiveFrom'', ''Required'')])))"

definition checkOverlap :: "memory \<Rightarrow> string \<Rightarrow> resource \<Rightarrow> interval_guard option \<Rightarrow> unit res" where
  "checkOverlap m tenant r guard =
     (case guard of
        None \<Rightarrow> Inr ()
      | Some g \<Rightarrow> guard_res (mem_overlapping m tenant r g = [])
          (err_fields ''ValidationFailed'' [(''effectiveFrom'', ''IntervalOverlap'')]))"

text \<open>\<open>new Date(at).toISOString()\<close>; an unreadable text throws.\<close>

definition to_iso_text :: "platform \<Rightarrow> string \<Rightarrow> string res" where
  "to_iso_text pl s = (case date_parse (pl_dateparse pl) s of
     None \<Rightarrow> Inl (JsError ''RangeError'') | Some t \<Rightarrow> Inr (to_iso t))"

definition obj_of :: "jsval \<Rightarrow> obj" where
  "obj_of v = (case v of JObj kvs \<Rightarrow> kvs | _ \<Rightarrow> [])"

definition effective :: "platform \<Rightarrow> app_model \<Rightarrow> memory \<Rightarrow> string \<Rightarrow> resource \<Rightarrow> obj \<Rightarrow> obj res" where
  "effective pl m st tenant r body =
     (let uniqueBy = (case dc_effectiveDated (r_decorators r) of None \<Rightarrow> [] | Some fs \<Rightarrow> fs);
          params = obj_of (oget body ''params'')
      in case oget params ''at'' of
           JStr t \<Rightarrow>
             (let vs = map (oget params) uniqueBy
              in if JUndef \<in> set vs then Inl (err ''ValidationFailed'')
                 else bind_res (to_iso_text pl t) (\<lambda>iso.
                   case mem_effectiveAt st tenant r uniqueBy vs iso of
                     None \<Rightarrow> Inl (err ''NotFound'')
                   | Some rcd \<Rightarrow> canonicalize pl m r rcd))
         | _ \<Rightarrow> Inl (err_fields ''ValidationFailed'' [(''at'', ''Required'')]))"

text \<open>The walk of \<open>ancestorsOf\<close>: at most the given number of levels, nearest ancestor first.\<close>

fun ancestors_from ::
    "nat \<Rightarrow> (string \<Rightarrow> stored_record option) \<Rightarrow> string \<Rightarrow> string list \<Rightarrow> stored_record list res" where
  "ancestors_from 0 get cur seen = Inr []"
| "ancestors_from (Suc n) get cur seen =
     (case get cur of
        None \<Rightarrow> Inr []
      | Some rcd \<Rightarrow>
          (case oget rcd ''parent'' of
             JStr p \<Rightarrow>
               if p = [] then Inr []
               else if p \<in> set seen then Inl (err ''Internal'')
               else (case get p of
                   None \<Rightarrow> Inr []
                 | Some parent \<Rightarrow>
                     bind_res (ancestors_from n get p (p # seen)) (\<lambda>chain. Inr (parent # chain)))
           | _ \<Rightarrow> Inr []))"

definition ancestorsOf :: "memory \<Rightarrow> string \<Rightarrow> resource \<Rightarrow> string \<Rightarrow> stored_record list res" where
  "ancestorsOf m tenant r start = ancestors_from MAX_DEPTH (mem_get m tenant r) start [start]"

definition treeGuard :: "memory \<Rightarrow> string \<Rightarrow> resource \<Rightarrow> string \<Rightarrow> string option \<Rightarrow> tree_guard option res" where
  "treeGuard m tenant r i parentId =
     (if \<not> dc_hierarchical (r_decorators r) then Inr None
      else case parentId of
          None \<Rightarrow> Inr None
        | Some p \<Rightarrow>
            if p = [] then Inr None
            else if p = i then Inl (err_fields ''ValidationFailed'' [(''parent'', ''SelfParent'')])
            else (case mem_get m tenant r p of
                None \<Rightarrow> Inl (err ''ReferenceMissing'')
              | Some parent \<Rightarrow>
                  if \<not> is_live parent then Inl (err ''ReferenceMissing'')
                  else bind_res (ancestorsOf m tenant r p) (\<lambda>chain.
                    let ancestors = p # map (\<lambda>a. js_string (oget a ''id'')) chain
                    in if i \<in> set ancestors then Inl cycle_err
                       else if length ancestors \<ge> MAX_DEPTH
                         then Inl (err_fields ''ValidationFailed'' [(''parent'', ''TooDeep'')])
                       else Inr (Some \<lparr>tg_parentField = ''parent'', tg_parentId = p, tg_ancestors = ancestors\<rparr>))))"

definition page_obj :: "jsval list \<Rightarrow> nat \<Rightarrow> obj" where
  "page_obj items limit = [(''items'', JArr items), (''next'', JNull), (''limit'', JInt (int limit))]"

definition children :: "platform \<Rightarrow> app_model \<Rightarrow> memory \<Rightarrow> string \<Rightarrow> resource \<Rightarrow> obj \<Rightarrow> obj res" where
  "children pl m st tenant r body =
     bind_res (map_res (canonicalize pl m r)
         (mem_children st tenant r ''parent'' (js_string (oget body ''id'')) TRAVERSAL_LIMIT)) (\<lambda>items.
       Inr (page_obj (map JObj items) TRAVERSAL_LIMIT))"

definition ancestors :: "platform \<Rightarrow> app_model \<Rightarrow> memory \<Rightarrow> string \<Rightarrow> resource \<Rightarrow> obj \<Rightarrow> obj res" where
  "ancestors pl m st tenant r body =
     (let i = js_string (oget body ''id'')
      in case mem_get st tenant r i of
           None \<Rightarrow> Inl (err ''NotFound'')
         | Some rcd \<Rightarrow>
             if \<not> is_live rcd then Inl (err ''NotFound'')
             else bind_res (ancestorsOf st tenant r i) (\<lambda>chain.
                  bind_res (map_res (canonicalize pl m r) chain) (\<lambda>items.
                  Inr (page_obj (map JObj items) MAX_DEPTH))))"

lemma intervalGuard_Some:
  "intervalGuard r after i = Inr (Some g) \<Longrightarrow>
     dc_effectiveDated (r_decorators r) = Some (ig_groupFields g) \<and>
     ig_groupValues g = map (oget after) (ig_groupFields g) \<and>
     oget after ''effectiveFrom'' = JStr (ig_from g) \<and> ig_until g = opt_instant (oget after ''effectiveUntil'') \<and>
     ig_excludeId g = i \<and> before_end (ig_from g) (ig_until g)"
  by (auto simp: intervalGuard_def Let_def split: option.splits jsval.splits if_splits)

lemma ancestors_from_length: "ancestors_from n get cur seen = Inr chain \<Longrightarrow> length chain \<le> n"
proof (induction n arbitrary: cur seen chain)
  case 0
  then show ?case by simp
next
  case (Suc n)
  then show ?case
    by (fastforce simp: bind_res_Inr_iff split: option.splits jsval.splits if_splits)
qed

end
