(* ===== verification/Claims.thy ===== *)
theory Claims
  imports Memory
begin

text \<open>
  The unique claims of a record (\<open>claimKey\<close> and \<open>claimChanges\<close> of \<open>packages/runtime/src/engine.ts\<close>).
\<close>

definition claimKey :: "resource \<Rightarrow> unique_decl \<Rightarrow> obj \<Rightarrow> string option" where
  "claimKey r u rcd =
     (if (case u_condition u of None \<Rightarrow> False | Some (f, vs) \<Rightarrow> js_string (oget rcd f) \<notin> set vs) then None
      else let vs = map (oget rcd) (u_within u @ u_fields u)
           in if list_ex nullish vs then None
              else Some (encodeIdentity (r_id r # u_name u # map js_string vs)))"

definition claimChanges :: "resource \<Rightarrow> obj option \<Rightarrow> obj \<Rightarrow> claim_change list" where
  "claimChanges r before after = map (\<lambda>u. \<lparr>cc_unique = u,
     cc_before = (case before of None \<Rightarrow> None | Some b \<Rightarrow> claimKey r u b),
     cc_after = claimKey r u after\<rparr>) (r_uniques r)"

text \<open>The claims of a snapshot are those of the engine.\<close>

lemma claimKey_snapshot: "claimKey r u row = (if claim_holds u row then Some (claim_text r u row) else None)"
proof (cases "case u_condition u of None \<Rightarrow> False | Some (f, vs) \<Rightarrow> js_string (oget row f) \<notin> set vs")
  case True
  then show ?thesis by (auto simp: claimKey_def claim_holds_def split: option.splits prod.splits)
next
  case False
  have "list_ex nullish (map (oget row) fs) \<longleftrightarrow> \<not> list_all (\<lambda>f. \<not> nullish (oget row f)) fs" for fs
    by (auto simp: list_ex_iff list_all_iff)
  with False show ?thesis
    by (auto simp: claimKey_def claim_holds_def claim_text_def Let_def o_def simp del: map_append list_ex_append
        list_all_append split: option.splits prod.splits)
qed

lemma claimKey_shape:
  "claimKey r u row = Some k \<Longrightarrow> \<exists>vs. k = encodeIdentity (r_id r # u_name u # vs)"
  by (auto simp: claimKey_def Let_def split: if_splits)

lemma claimKey_eq:
  "claimKey r u row = Some k \<Longrightarrow> claimKey r' u' row' = Some k \<Longrightarrow> r_id r = r_id r' \<and> u_name u = u_name u'"
  by (auto dest!: claimKey_shape simp: encodeIdentity_inj)

lemma claimKey_nonempty: "claimKey r u row = Some k \<Longrightarrow> k \<noteq> []"
  by (auto dest!: claimKey_shape simp: encodeIdentity_Cons)

end
