(* ===== verification/Effects.thy ===== *)
theory Effects
  imports Gatekeeper Temporal Claims
begin

text \<open>
  The effects an engine operation runs in: a computation takes the world (the durable store, the
  gatekeeper and a count of the effects made so far) and returns a value or an exception together
  with the world it leaves. The environment holds the services of the host layer: what the
  n-th reading of the clock, of the id generator and of \<open>Date.now()\<close> gives, the keyed hash and the
  digest of the platform as bytes, the sealing adapter, and what concurrent callers do to the store between
  two of this call's storage operations.
\<close>

record env =
  en_platform :: platform
  en_model :: app_model
  en_scope :: scope_env
  en_clock :: "nat \<Rightarrow> string"
  en_nextId :: "nat \<Rightarrow> resource \<Rightarrow> string"
  en_opId :: "nat \<Rightarrow> string"
  en_dateNow :: "nat \<Rightarrow> int"
  en_hmac :: "string \<Rightarrow> string \<Rightarrow> nat list"
  en_digest :: "string \<Rightarrow> nat list"
  en_seal :: "(string \<times> string \<times> string \<times> string \<Rightarrow> string \<Rightarrow> string option) option"
  en_suppressionKey :: string
  en_cursorSecret :: string
  en_others :: "nat \<Rightarrow> memory \<Rightarrow> memory"

record world =
  wo_store :: memory
  wo_gate :: gatekeeper
  wo_tick :: nat

type_synonym 'a eff = "world \<Rightarrow> 'a res \<times> world"

text \<open>Lower-case hexadecimal of bytes, and \<open>sha256\<close> of \<open>packages/runtime/src/hashing.ts\<close>.\<close>

definition hex_bytes :: "nat list \<Rightarrow> string" where
  "hex_bytes bs = concat (map (\<lambda>b. pad_start 2 (CHR ''0'') (show_base 16 b)) bs)"

definition sha256 :: "env \<Rightarrow> string \<Rightarrow> string" where
  "sha256 E text = hex_bytes (en_digest E text)"

named_theorems eff_simps \<open>inversion of effects that have returned\<close>

definition eff_ret :: "'a \<Rightarrow> 'a eff" where
  "eff_ret x = (\<lambda>w. (Inr x, w))"

definition eff_fail :: "exn \<Rightarrow> 'a eff" where
  "eff_fail e = (\<lambda>w. (Inl e, w))"

definition eff_of :: "'a res \<Rightarrow> 'a eff" where
  "eff_of r = (\<lambda>w. (r, w))"

definition eff_bind :: "'a eff \<Rightarrow> ('a \<Rightarrow> 'b eff) \<Rightarrow> 'b eff" where
  "eff_bind m f = (\<lambda>w. case m w of (Inl e, w1) \<Rightarrow> (Inl e, w1) | (Inr x, w1) \<Rightarrow> f x w1)"

definition eff_guard :: "bool \<Rightarrow> exn \<Rightarrow> unit eff" where
  "eff_guard b e = eff_of (guard_res b e)"

fun eff_map :: "('a \<Rightarrow> 'b eff) \<Rightarrow> 'a list \<Rightarrow> 'b list eff" where
  "eff_map f [] = eff_ret []"
| "eff_map f (x # xs) = eff_bind (f x) (\<lambda>y. eff_bind (eff_map f xs) (\<lambda>ys. eff_ret (y # ys)))"

text \<open>Reading a service of the environment is one effect.\<close>

definition eff_env :: "(nat \<Rightarrow> 'a) \<Rightarrow> 'a eff" where
  "eff_env f = (\<lambda>w. (Inr (f (wo_tick w)), w\<lparr>wo_tick := wo_tick w + 1\<rparr>))"

text \<open>
  One operation of the storage adapter: other callers act first, then it runs to completion
  (MemoryStorage methods are synchronous).
\<close>

definition storage :: "env \<Rightarrow> (memory \<Rightarrow> 'a res \<times> memory) \<Rightarrow> 'a eff" where
  "storage E f = (\<lambda>w. let (r, m) = f (en_others E (wo_tick w) (wo_store w))
     in (r, w\<lparr>wo_store := m, wo_tick := wo_tick w + 1\<rparr>))"

definition storage_read :: "env \<Rightarrow> (memory \<Rightarrow> 'a) \<Rightarrow> 'a eff" where
  "storage_read E f = storage E (\<lambda>m. (Inr (f m), m))"

definition storage_try :: "env \<Rightarrow> (memory \<Rightarrow> 'a res) \<Rightarrow> 'a eff" where
  "storage_try E f = storage E (\<lambda>m. (f m, m))"

definition storage_write :: "env \<Rightarrow> (memory \<Rightarrow> memory res) \<Rightarrow> unit eff" where
  "storage_write E f = storage E (\<lambda>m. case f m of Inl e \<Rightarrow> (Inl e, m) | Inr m' \<Rightarrow> (Inr (), m'))"

definition storage_commit :: "env \<Rightarrow> (memory \<Rightarrow> exn option \<times> memory) \<Rightarrow> unit eff" where
  "storage_commit E f = storage E (\<lambda>m. case f m of (Some e, m') \<Rightarrow> (Inl e, m') | (None, m') \<Rightarrow> (Inr (), m'))"

text \<open>The outcome of an effect as a value (\<open>Effect.exit\<close>).\<close>

definition eff_exit :: "'a eff \<Rightarrow> 'a res eff" where
  "eff_exit m = (\<lambda>w. let (r, w1) = m w in (Inr r, w1))"

text \<open>A decision of the gatekeeper, at the current \<open>Date.now()\<close>.\<close>

definition with_gate :: "env \<Rightarrow> (int \<Rightarrow> gatekeeper \<Rightarrow> ('a \<times> gatekeeper) res) \<Rightarrow> 'a eff" where
  "with_gate E f = (\<lambda>w. case f (en_dateNow E (wo_tick w)) (wo_gate w) of
     Inl e \<Rightarrow> (Inl e, w\<lparr>wo_tick := wo_tick w + 1\<rparr>)
   | Inr (x, g) \<Rightarrow> (Inr x, w\<lparr>wo_gate := g, wo_tick := wo_tick w + 1\<rparr>))"

definition gate_check :: "env \<Rightarrow> (int \<Rightarrow> gatekeeper \<Rightarrow> gatekeeper res) \<Rightarrow> unit eff" where
  "gate_check E f = with_gate E (\<lambda>now g. bind_res (f now g) (\<lambda>g'. Inr ((), g')))"

section \<open>Inversion\<close>

lemma eff_ret_iff [eff_simps]: "eff_ret x w = (Inr y, w') \<longleftrightarrow> y = x \<and> w' = w"
  by (auto simp: eff_ret_def)

lemma eff_fail_iff [eff_simps]: "eff_fail e w = (Inr y, w') \<longleftrightarrow> False"
  by (simp add: eff_fail_def)

lemma eff_of_iff [eff_simps]: "eff_of r w = (x, w') \<longleftrightarrow> r = x \<and> w' = w"
  by (auto simp: eff_of_def)

lemma eff_bind_iff [eff_simps]:
  "eff_bind m f w = (Inr y, w') \<longleftrightarrow> (\<exists>x w1. m w = (Inr x, w1) \<and> f x w1 = (Inr y, w'))"
  by (auto simp: eff_bind_def split: prod.splits sum.splits)

lemma eff_bind_Inl_iff:
  "eff_bind m f w = (Inl e, w') \<longleftrightarrow> m w = (Inl e, w') \<or> (\<exists>x w1. m w = (Inr x, w1) \<and> f x w1 = (Inl e, w'))"
  by (auto simp: eff_bind_def split: prod.splits sum.splits)

lemma eff_bind_Inr: "m w = (Inr x, w1) \<Longrightarrow> eff_bind m f w = f x w1"
  by (simp add: eff_bind_def)

lemma eff_bind_Inl: "m w = (Inl e, w1) \<Longrightarrow> eff_bind m f w = (Inl e, w1)"
  by (simp add: eff_bind_def)

lemma eff_guard_iff [eff_simps]: "eff_guard b e w = (Inr u, w') \<longleftrightarrow> b \<and> w' = w"
  by (auto simp: eff_guard_def eff_simps guard_res_Inr_iff)

lemma eff_env_iff [eff_simps]:
  "eff_env f w = (Inr x, w') \<longleftrightarrow> x = f (wo_tick w) \<and> w' = w\<lparr>wo_tick := wo_tick w + 1\<rparr>"
  by (auto simp: eff_env_def)

definition world_now :: "env \<Rightarrow> world \<Rightarrow> memory" where
  "world_now E w = en_others E (wo_tick w) (wo_store w)"

lemma storage_iff [eff_simps]:
  "storage E f w = (r, w') \<longleftrightarrow>
     (\<exists>m. f (world_now E w) = (r, m) \<and> w' = w\<lparr>wo_store := m, wo_tick := wo_tick w + 1\<rparr>)"
  by (auto simp: storage_def world_now_def Let_def split: prod.splits)

lemma storage_read_iff [eff_simps]:
  "storage_read E f w = (Inr x, w') \<longleftrightarrow>
     x = f (world_now E w) \<and> w' = w\<lparr>wo_store := world_now E w, wo_tick := wo_tick w + 1\<rparr>"
  by (auto simp: storage_read_def eff_simps)

lemma storage_try_iff [eff_simps]:
  "storage_try E f w = (r, w') \<longleftrightarrow>
     r = f (world_now E w) \<and> w' = w\<lparr>wo_store := world_now E w, wo_tick := wo_tick w + 1\<rparr>"
  by (auto simp: storage_try_def eff_simps)

lemma storage_commit_iff [eff_simps]:
  "storage_commit E f w = (Inr u, w') \<longleftrightarrow>
     (\<exists>m. f (world_now E w) = (None, m) \<and> w' = w\<lparr>wo_store := m, wo_tick := wo_tick w + 1\<rparr>)"
  by (auto simp: storage_commit_def eff_simps split: prod.splits option.splits)

lemma with_gate_iff [eff_simps]:
  "with_gate E f w = (Inr x, w') \<longleftrightarrow>
     (\<exists>g. f (en_dateNow E (wo_tick w)) (wo_gate w) = Inr (x, g) \<and> w' = w\<lparr>wo_gate := g, wo_tick := wo_tick w + 1\<rparr>)"
  by (auto simp: with_gate_def split: sum.splits)

text \<open>Running the first effect of a sequence.\<close>

lemma run_read: "eff_bind (storage_read E f) g w = g (f (world_now E w)) (w\<lparr>wo_store := world_now E w, wo_tick := wo_tick w + 1\<rparr>)"
  by (simp add: eff_bind_def storage_read_def storage_def world_now_def Let_def)

lemma run_exit_write:
  "eff_bind (eff_exit (storage_write E f)) g w =
     g (case f (world_now E w) of Inl e \<Rightarrow> Inl e | Inr m \<Rightarrow> Inr ())
       (w\<lparr>wo_store := (case f (world_now E w) of Inl e \<Rightarrow> world_now E w | Inr m \<Rightarrow> m), wo_tick := wo_tick w + 1\<rparr>)"
  by (simp add: eff_bind_def eff_exit_def storage_write_def storage_def world_now_def Let_def split: sum.split)

lemma eff_map_Inr:
  "eff_map f xs w = (Inr ys, w') \<Longrightarrow> length ys = length xs"
  by (induction xs arbitrary: ys w) (auto simp: eff_simps)

section \<open>What an effect may do to the world\<close>

text \<open>
  \<open>keeps R m\<close>: whatever \<open>m\<close> returns, the worlds before and after it are related by \<open>R\<close>. The relations
  of interest are preorders, and then sequencing keeps them.
\<close>

definition keeps :: "(world \<Rightarrow> world \<Rightarrow> bool) \<Rightarrow> 'a eff \<Rightarrow> bool" where
  "keeps R m \<longleftrightarrow> (\<forall>w. R w (snd (m w)))"

named_theorems keeps_intros \<open>effects that keep a relation between worlds\<close>

locale frame =
  fixes R :: "world \<Rightarrow> world \<Rightarrow> bool"
  assumes refl [simp]: "R w w"
    and trans: "R w w1 \<Longrightarrow> R w1 w2 \<Longrightarrow> R w w2"
begin

lemma keeps_ret [keeps_intros]: "keeps R (eff_ret x)"
  by (simp add: keeps_def eff_ret_def)

lemma keeps_fail [keeps_intros]: "keeps R (eff_fail e)"
  by (simp add: keeps_def eff_fail_def)

lemma keeps_of [keeps_intros]: "keeps R (eff_of r)"
  by (simp add: keeps_def eff_of_def)

lemma keeps_guard [keeps_intros]: "keeps R (eff_guard b e)"
  by (simp add: eff_guard_def keeps_of)

lemma keeps_bind [keeps_intros]:
  assumes "keeps R m" "\<And>x. keeps R (f x)"
  shows "keeps R (eff_bind m f)"
  unfolding keeps_def
proof
  fix w
  obtain r w1 where m: "m w = (r, w1)" by (cases "m w") auto
  have 1: "R w w1" using assms(1) m unfolding keeps_def by (metis snd_conv)
  show "R w (snd (eff_bind m f w))"
  proof (cases r)
    case (Inl e)
    with m 1 show ?thesis by (simp add: eff_bind_def)
  next
    case (Inr x)
    have "R w1 (snd (f x w1))" using assms(2) unfolding keeps_def by simp
    with m 1 Inr trans show ?thesis by (simp add: eff_bind_def)
  qed
qed

lemma keeps_map [keeps_intros]: "(\<And>x. keeps R (f x)) \<Longrightarrow> keeps R (eff_map f xs)"
  by (induction xs) (simp_all add: keeps_ret keeps_bind)

lemma keeps_if [keeps_intros]: "(b \<Longrightarrow> keeps R m) \<Longrightarrow> (\<not> b \<Longrightarrow> keeps R m') \<Longrightarrow> keeps R (if b then m else m')"
  by simp

lemma keeps_option [keeps_intros]:
  "(x = None \<Longrightarrow> keeps R m) \<Longrightarrow> (\<And>y. x = Some y \<Longrightarrow> keeps R (f y)) \<Longrightarrow> keeps R (case x of None \<Rightarrow> m | Some y \<Rightarrow> f y)"
  by (cases x) auto

lemma keeps_pair [keeps_intros]: "(\<And>a b. keeps R (f a b)) \<Longrightarrow> keeps R (case p of (a, b) \<Rightarrow> f a b)"
  by (cases p) auto

lemma keeps_sum [keeps_intros]:
  "(\<And>e. keeps R (f e)) \<Longrightarrow> (\<And>y. keeps R (g y)) \<Longrightarrow> keeps R (case x of Inl e \<Rightarrow> f e | Inr y \<Rightarrow> g y)"
  by (cases x) auto

lemma keeps_exit: "keeps R m \<Longrightarrow> keeps R (eff_exit m)"
  by (auto simp: keeps_def eff_exit_def split: prod.splits) (metis snd_conv)

lemma keeps_let [keeps_intros]: "(\<And>y. keeps R (f y)) \<Longrightarrow> keeps R (let y = x in f y)"
  by simp

lemma keepsD: "keeps R m \<Longrightarrow> m w = (r, w') \<Longrightarrow> R w w'"
  unfolding keeps_def by (metis snd_conv)

end

end
