(* ===== verification/Suppression.thy ===== *)
theory Suppression
  imports Effects
begin

text \<open>
  The suppression ledger (\<open>packages/runtime/src/suppression.ts\<close>): keyed tokens of erased or
  restricted subjects, kept as documents of their own kind, and the guard the engine consults
  before it plans a create and before it commits a create, update or restore.
\<close>

definition SUPPRESSION_KIND :: string where
  "SUPPRESSION_KIND = ''_forge/suppression''"

definition SUPPRESSION_CLASS :: jsval where
  "SUPPRESSION_CLASS = JObj [(''class'', JStr ''data.identity.pseudonymous''), (''handling'', JStr ''restricted''),
     (''personal'', JStr ''potentially''), (''identifiability'', JStr ''linkable-with-key'')]"

definition suppression_token :: "env \<Rightarrow> string \<Rightarrow> string \<Rightarrow> string \<Rightarrow> string" where
  "suppression_token E tenant rid i = take 32 (hex_bytes (en_hmac E (key2 (en_suppressionKey E) tenant) (key2 rid i)))"

record suppression_event =
  se_kind :: string
  se_reason :: string
  se_at :: string
  se_epoch :: int

definition suppression_entry :: "string \<Rightarrow> string \<Rightarrow> suppression_event \<Rightarrow> obj" where
  "suppression_entry token rid e = [(''token'', JStr token), (''resource'', JStr rid), (''kind'', JStr (se_kind e)),
     (''epoch'', JInt (se_epoch e)), (''at'', JStr (se_at e)), (''reason'', JStr (se_reason e)),
     (''classification'', SUPPRESSION_CLASS)]"

text \<open>\<open>(doc?._version as number | undefined) ?? null\<close>: the version to condition a document write on.\<close>

definition doc_expected :: "obj option \<Rightarrow> nat option" where
  "doc_expected d = (case d of None \<Rightarrow> None
     | Some x \<Rightarrow> (case oget x ''_version'' of JInt v \<Rightarrow> Some (nat v) | _ \<Rightarrow> None))"

definition suppression_record :: "env \<Rightarrow> string \<Rightarrow> string \<times> string \<Rightarrow> suppression_event \<Rightarrow> obj eff" where
  "suppression_record E tenant subject e =
     (let token = suppression_token E tenant (fst subject) (snd subject);
          entry = suppression_entry token (fst subject) e
      in eff_bind (storage_read E (\<lambda>m. mem_getDocument m tenant SUPPRESSION_KIND token)) (\<lambda>existing.
         eff_bind (storage_write E (\<lambda>m. mem_putDocument m tenant SUPPRESSION_KIND token entry (doc_expected existing))) (\<lambda>_.
         eff_ret entry)))"

definition suppression_lookup :: "env \<Rightarrow> string \<Rightarrow> string \<Rightarrow> string \<Rightarrow> obj option eff" where
  "suppression_lookup E tenant rid i =
     storage_read E (\<lambda>m. mem_getDocument m tenant SUPPRESSION_KIND (suppression_token E tenant rid i))"

text \<open>The subject a record belongs to: itself, or the record one of its reference fields names.\<close>

definition subjectOf :: "resource \<Rightarrow> obj \<Rightarrow> (string \<times> string) option" where
  "subjectOf r rcd =
     (case dc_subject (r_decorators r) of
        None \<Rightarrow> None
      | Some (SubjectKind k) \<Rightarrow> Some (r_id r, js_string (oget rcd ''id''))
      | Some (SubjectFrom f) \<Rightarrow>
          (case (fieldOf r f, oget rcd f) of
             (Some fld, JStr v) \<Rightarrow> (case ts_base (f_type fld) of TReference target \<Rightarrow> Some (target, v) | _ \<Rightarrow> None)
           | _ \<Rightarrow> None))"

definition GUARDED_KINDS :: "string list" where
  "GUARDED_KINDS = [''create'', ''restore'', ''update'']"

definition suppression_guard :: "env \<Rightarrow> resource \<Rightarrow> string \<Rightarrow> obj \<Rightarrow> call_context \<Rightarrow> unit eff" where
  "suppression_guard E r kind after ctx =
     (if kind \<notin> set GUARDED_KINDS then eff_ret ()
      else case subjectOf r after of
          None \<Rightarrow> eff_ret ()
        | Some (rid, i) \<Rightarrow> eff_bind (suppression_lookup E (cx_tenant ctx) rid i) (\<lambda>e.
            eff_guard (e = None) (err_fields ''Suppressed'' [(''subject'', ''Suppressed'')])))"

definition suppression_audit :: "env \<Rightarrow> string \<Rightarrow> string \<Rightarrow> string \<Rightarrow> obj option eff" where
  "suppression_audit E tenant rid i =
     eff_bind (suppression_lookup E tenant rid i) (\<lambda>e. eff_ret (map_option (\<lambda>d.
       map (\<lambda>k. (k, oget d k)) [''token'', ''classification'', ''kind'', ''epoch'', ''at'']) e))"

section \<open>Facts\<close>

text \<open>The subjects of a store that the ledger holds.\<close>

definition suppressed :: "env \<Rightarrow> memory \<Rightarrow> string \<Rightarrow> string \<times> string \<Rightarrow> bool" where
  "suppressed E m tenant s \<longleftrightarrow> mem_getDocument m tenant SUPPRESSION_KIND (suppression_token E tenant (fst s) (snd s)) \<noteq> None"

lemma suppression_guard_iff [eff_simps]:
  "suppression_guard E r kind after ctx w = (Inr u, w') \<longleftrightarrow>
     (if kind \<in> set GUARDED_KINDS \<and> subjectOf r after \<noteq> None
      then \<not> suppressed E (world_now E w) (cx_tenant ctx) (the (subjectOf r after)) \<and>
        w' = w\<lparr>wo_store := world_now E w, wo_tick := wo_tick w + 1\<rparr>
      else w' = w)"
  by (auto simp: suppression_guard_def suppression_lookup_def eff_simps suppressed_def split: option.splits)

lemma mem_getDocument_Some:
  "mem_getDocument m t k i = Some d \<longleftrightarrow>
     (\<exists>v x. getDocument (me_documents m) t k i = Some (v, x) \<and> d = mput ''_version'' (JInt (int v)) x)"
  by (auto simp: mem_getDocument_def)

lemma mem_getDocument_None: "mem_getDocument m t k i = None \<longleftrightarrow> getDocument (me_documents m) t k i = None"
  by (simp add: mem_getDocument_def)

lemma doc_expected_read: "doc_expected (mem_getDocument m t k i) = map_option fst (getDocument (me_documents m) t k i)"
  by (cases "getDocument (me_documents m) t k i")
     (auto simp: mem_getDocument_def doc_expected_def oget_def)

text \<open>Recording a subject suppresses it, whatever is in the ledger already.\<close>

lemma suppression_recorded:
  assumes "suppression_record E tenant s e w = (Inr entry, w')"
  shows "suppressed E (wo_store w') tenant s"
  using assms
  by (auto simp: suppression_record_def Let_def eff_simps storage_write_def mem_putDocument_def suppressed_def
      mem_getDocument_None bind_res_Inr_iff dest!: putDocument_read split: sum.splits)

end
