(* ===== verification/Engine_Plan.thy ===== *)
theory Engine_Plan
  imports Suppression
begin

text \<open>
  Planning of mutations in the engine (\<open>packages/runtime/src/engine.ts\<close>): the helpers of the
  write pipeline, \<open>create\<close>, \<open>update\<close>, \<open>deleteOrRestore\<close> and \<open>transition\<close>, \<open>planFor\<close> and
  \<open>resultOf\<close>. Each step of a generator is one effect, in the order of the code.
\<close>

section \<open>Helpers\<close>

definition expectedVersion :: "resource \<Rightarrow> obj \<Rightarrow> int option res" where
  "expectedVersion r body =
     (if \<not> dc_versioned (r_decorators r) then Inr None
      else case oget body ''expectedVersion'' of
          JInt v \<Rightarrow> if v < 1 then Inl (err ''PreconditionRequired'') else Inr (Some v)
        | _ \<Rightarrow> Inl (err ''PreconditionRequired''))"

definition loadCurrent :: "env \<Rightarrow> resource \<Rightarrow> string \<Rightarrow> call_context \<Rightarrow> int option \<Rightarrow> obj eff" where
  "loadCurrent E r i ctx expected =
     eff_bind (storage_read E (\<lambda>m. mem_get m (cx_tenant ctx) r i)) (\<lambda>rcd.
       case rcd of
         None \<Rightarrow> eff_fail (err ''NotFound'')
       | Some x \<Rightarrow>
           (case expected of
              None \<Rightarrow> eff_ret x
            | Some v \<Rightarrow> if js_seq (oget x ''version'') (JInt v) then eff_ret x else eff_fail (err ''VersionConflict'')))"

definition audit_of ::
    "string \<Rightarrow> resource \<Rightarrow> string \<Rightarrow> obj \<Rightarrow> call_context \<Rightarrow> string \<Rightarrow> string \<Rightarrow> jsval \<Rightarrow> audit_entry" where
  "audit_of kind r i after ctx opId now payload =
     \<lparr>au_tenant = cx_tenant ctx, au_opId = opId, au_resource = r_id r, au_recordId = i, au_kind = kind,
      au_newVersion = (if is_num (oget after ''version'') then oget after ''version'' else JNull),
      au_actor = cx_actor ctx, au_at = now, au_payload = payload\<rparr>"

definition change_message :: "string \<Rightarrow> string" where
  "change_message kind = (case map_of [(''create'', ''Created''), (''update'', ''Updated''),
       (''delete'', ''Deleted''), (''restore'', ''Restored'')] kind of None \<Rightarrow> ''Transitioned'' | Some t \<Rightarrow> t)"

definition or_null :: "jsval \<Rightarrow> jsval" where
  "or_null v = (if nullish v then JNull else v)"

definition changeEvent ::
    "resource \<Rightarrow> string \<Rightarrow> string \<Rightarrow> obj \<Rightarrow> call_context \<Rightarrow> string \<Rightarrow> string \<Rightarrow> outbox_entry list" where
  "changeEvent r kind i after ctx opId now =
     (if \<not> dc_audited (r_decorators r) then []
      else [\<lparr>ob_tenant = cx_tenant ctx, ob_opId = opId, ob_ordinal = 0, ob_channel = r_id r @ ''.changes'',
        ob_message = change_message kind,
        ob_payload = JObj ([(''id'', JStr i), (''version'', or_null (oget after ''version''))]
          @ (if starts_with ''status.'' kind
             then (case r_lifecycle r of None \<Rightarrow> []
                 | Some lc \<Rightarrow> [(''action'', JStr (drop 7 kind)), (''status'', oget after (lc_field lc))])
             else [])),
        ob_createdAt = now\<rparr>])"

definition ref_target :: "field \<Rightarrow> string option" where
  "ref_target f = (case ts_base (f_type f) of TReference rid \<Rightarrow> Some rid | _ \<Rightarrow> None)"

text \<open>\<open>$self\<close> in a reference to the record's own resource becomes the id; elsewhere it is an error.\<close>

definition self_fields :: "resource \<Rightarrow> obj \<Rightarrow> (field \<Rightarrow> string \<Rightarrow> bool) \<Rightarrow> string list" where
  "self_fields r after P = map f_name (filter (\<lambda>f. case ref_target f of None \<Rightarrow> False
     | Some rid \<Rightarrow> js_seq (oget after (f_name f)) (JStr SELF_REFERENCE) \<and> P f rid) (r_fields r))"

definition resolveSelfReferences :: "resource \<Rightarrow> obj \<Rightarrow> string \<Rightarrow> obj res" where
  "resolveSelfReferences r after i =
     (let invalid = self_fields r after (\<lambda>f rid. rid \<noteq> r_id r)
      in if invalid \<noteq> [] then Inl (err_fields ''ValidationFailed'' (map (\<lambda>n. (n, ''InvalidSelfReference'')) invalid))
         else Inr (foldl (\<lambda>a n. mput n (JStr i) a) after (self_fields r after (\<lambda>f rid. rid = r_id r))))"

definition referenceGuard :: "app_model \<Rightarrow> resource \<Rightarrow> obj \<Rightarrow> string list option \<Rightarrow> field \<Rightarrow> reference_guard list res" where
  "referenceGuard m r after changed f =
     (case ref_target f of
        None \<Rightarrow> Inr []
      | Some rid \<Rightarrow>
          if f_synthesized f \<and> f_name f \<noteq> ''parent'' then Inr []
          else if (case changed of None \<Rightarrow> False | Some ns \<Rightarrow> f_name f \<notin> set ns) then Inr []
          else (case oget after (f_name f) of
              JStr i \<Rightarrow>
                if rid = r_id r \<and> js_seq (JStr i) (oget after ''id'') then Inr []
                else bind_res (model_resource m rid) (\<lambda>target.
                  Inr [\<lparr>rg_field = f_name f, rg_resource = target, rg_id = i\<rparr>])
            | _ \<Rightarrow> Inr []))"

definition referenceGuards :: "app_model \<Rightarrow> resource \<Rightarrow> obj \<Rightarrow> string list option \<Rightarrow> reference_guard list res" where
  "referenceGuards m r after changed =
     bind_res (map_res (referenceGuard m r after changed) (r_fields r)) (\<lambda>gs. Inr (concat gs))"

definition load_guard :: "env \<Rightarrow> call_context \<Rightarrow> reference_guard \<Rightarrow> (string \<times> obj option) eff" where
  "load_guard E ctx g = eff_bind (storage_read E (\<lambda>m. mem_get m (cx_tenant ctx) (rg_resource g) (rg_id g)))
     (\<lambda>rcd. eff_ret (rg_field g, rcd))"

definition dangling :: "string \<times> obj option \<Rightarrow> bool" where
  "dangling p = (case snd p of None \<Rightarrow> True | Some rcd \<Rightarrow> \<not> is_live rcd)"

fun load_rest :: "env \<Rightarrow> call_context \<Rightarrow> obj \<Rightarrow> field list \<Rightarrow> refs \<Rightarrow> refs eff" where
  "load_rest E ctx after [] refs = eff_ret refs"
| "load_rest E ctx after (f # fs) refs =
     (case (ref_target f, oget after (f_name f)) of
        (Some rid, JStr i) \<Rightarrow>
          if mhas (f_name f) refs then load_rest E ctx after fs refs
          else eff_bind (eff_of (model_resource (en_model E) rid)) (\<lambda>target.
               eff_bind (storage_read E (\<lambda>m. mem_get m (cx_tenant ctx) target i)) (\<lambda>rcd.
               load_rest E ctx after fs (mput (f_name f) rcd refs)))
      | _ \<Rightarrow> load_rest E ctx after fs refs)"

definition loadReferences :: "env \<Rightarrow> resource \<Rightarrow> obj \<Rightarrow> call_context \<Rightarrow> reference_guard list \<Rightarrow> refs eff" where
  "loadReferences E r after ctx guards =
     eff_bind (eff_map (load_guard E ctx) guards) (\<lambda>loaded.
       let missing = map fst (filter dangling loaded)
       in if missing \<noteq> [] then eff_fail (err_fields ''ReferenceMissing'' (map (\<lambda>f. (f, ''ReferenceMissing'')) missing))
          else load_rest E ctx after (r_fields r) (foldl (\<lambda>rs (k, v). mput k v rs) [] loaded))"

definition checkRules :: "env \<Rightarrow> resource \<Rightarrow> obj \<Rightarrow> refs \<Rightarrow> unit res" where
  "checkRules E r after refs =
     (if ''collections/1'' \<in> set (ir_requires (m_ir (en_model E))) \<and> too_large (JObj after)
      then Inl (err ''ValidationFailed'')
      else bind_res (map_res (\<lambda>rule. evalExpr (en_platform E) (en_model E) r rule after None refs) (r_rules r)) (\<lambda>vs.
        let failures = filter (\<lambda>v. \<not> truthy v) vs
        in if failures = [] then Inr ()
           else Inl (err_fields ''ValidationFailed'' (map (\<lambda>v. ([], ''RuleViolation'')) failures))))"

fun sealSecrets :: "env \<Rightarrow> resource \<Rightarrow> field list \<Rightarrow> obj \<Rightarrow> obj \<Rightarrow> call_context \<Rightarrow> obj res" where
  "sealSecrets E r [] rcd changed ctx = Inr rcd"
| "sealSecrets E r (f # fs) rcd changed ctx =
     (if \<not> f_secret f \<or> \<not> mhas (f_name f) changed \<or> oget rcd (f_name f) = JNull
      then sealSecrets E r fs rcd changed ctx
      else case en_seal E of
          None \<Rightarrow> Inl (err ''DependencyUnavailable'')
        | Some seal \<Rightarrow>
            (case seal (cx_tenant ctx, r_id r, js_string (oget rcd ''id''), f_name f) (js_string (oget rcd (f_name f))) of
               None \<Rightarrow> Inl (err ''DependencyUnavailable'')
             | Some s \<Rightarrow> sealSecrets E r fs (mput (f_name f) (JStr s) rcd) changed ctx))"

section \<open>Create\<close>

text \<open>The members the engine itself sets on a new record.\<close>

definition initial_record :: "resource \<Rightarrow> obj \<Rightarrow> string \<Rightarrow> string \<Rightarrow> obj" where
  "initial_record r value i now =
     (let d = r_decorators r;
          a0 = mput ''id'' (JStr i) value;
          a1 = (if dc_versioned d then mput ''version'' (JInt 1) a0 else a0);
          a2 = (if dc_timestamps d then mput ''updatedAt'' (JStr now) (mput ''createdAt'' (JStr now) a1) else a1);
          a3 = (if dc_softDelete d then mput ''deletedAt'' JNull a2 else a2);
          a4 = (case r_lifecycle r of None \<Rightarrow> a3 | Some lc \<Rightarrow> mput (lc_field lc) (JStr (lc_initial lc)) a3)
      in if r_blob r then mput ''digest'' JNull (mput ''byteCount'' JNull (mput ''mediaType'' JNull
           (mput ''uploadState'' (JStr ''intent'') a4))) else a4)"

definition SEQUENCE_KIND :: string where
  "SEQUENCE_KIND = ''sequence''"

definition sequence_key :: "resource \<Rightarrow> field \<Rightarrow> sequence_decl \<Rightarrow> obj \<Rightarrow> string" where
  "sequence_key r f sq after =
     json_text (JArr [JStr (r_id r), JStr (f_name f), case sq_partition sq of
       None \<Rightarrow> JNull | Some p \<Rightarrow> if p = [] then JNull else oget after p])"

text \<open>The number after the last one reserved, None when the sequence is exhausted.\<close>

definition sequence_next :: "platform \<Rightarrow> sequence_decl \<Rightarrow> obj option \<Rightarrow> int option" where
  "sequence_next pl sq current =
     (let last = (case current of None \<Rightarrow> JUndef | Some d \<Rightarrow> oget d ''last'');
          nxt = (if last = JUndef then JInt (sq_start sq)
                 else num_op (pl_ieee pl) ''+'' (js_number (pl_ieee pl) last) (JInt 1))
      in case nxt of
           JInt n \<Rightarrow> if safe_int n \<and> sq_start sq \<le> n \<and> n \<le> sq_max sq then Some n else None
         | _ \<Rightarrow> None)"

definition SEQUENCE_ATTEMPTS :: nat where
  "SEQUENCE_ATTEMPTS = 64"

definition is_version_conflict :: "exn \<Rightarrow> bool" where
  "is_version_conflict e \<longleftrightarrow> (case e of Forge fe \<Rightarrow> fe_code fe = ''VersionConflict'' | _ \<Rightarrow> False)"

definition is_forge :: "exn \<Rightarrow> bool" where
  "is_forge e \<longleftrightarrow> (case e of Forge fe \<Rightarrow> True | _ \<Rightarrow> False)"

text \<open>The reservation loop: read the document, write it back with the next number, retry on a lost race.\<close>

fun reserve :: "nat \<Rightarrow> env \<Rightarrow> string \<Rightarrow> sequence_decl \<Rightarrow> string \<Rightarrow> int eff" where
  "reserve 0 E tenant sq key = eff_fail (err ''TransientConflict'')"
| "reserve (Suc n) E tenant sq key =
     eff_bind (storage_read E (\<lambda>m. mem_getDocument m tenant SEQUENCE_KIND key)) (\<lambda>current.
       case sequence_next (en_platform E) sq current of
         None \<Rightarrow> eff_fail (err ''SequenceExhausted'')
       | Some nxt \<Rightarrow>
           eff_bind (eff_exit (storage_write E (\<lambda>m.
               mem_putDocument m tenant SEQUENCE_KIND key [(''last'', JInt nxt)] (doc_expected current)))) (\<lambda>exit.
             case exit of
               Inr u \<Rightarrow> eff_ret nxt
             | Inl e \<Rightarrow> if is_version_conflict e then reserve n E tenant sq key
                 else eff_fail (if is_forge e then e else err ''Internal'')))"

fun allocate_sequences :: "env \<Rightarrow> resource \<Rightarrow> string \<Rightarrow> field list \<Rightarrow> obj \<Rightarrow> obj eff" where
  "allocate_sequences E r tenant [] after = eff_ret after"
| "allocate_sequences E r tenant (f # fs) after =
     (case f_sequence f of
        None \<Rightarrow> allocate_sequences E r tenant fs after
      | Some sq \<Rightarrow>
          eff_bind (reserve SEQUENCE_ATTEMPTS E tenant sq (sequence_key r f sq after)) (\<lambda>n.
            allocate_sequences E r tenant fs (mput (f_name f) (JInt n) after)))"

definition text_member :: "obj \<Rightarrow> string \<Rightarrow> string option" where
  "text_member x f = (case oget x f of JStr s \<Rightarrow> Some s | _ \<Rightarrow> None)"

definition decoded :: "env \<Rightarrow> jsval \<Rightarrow> decode_mode \<Rightarrow> field list \<Rightarrow> obj res" where
  "decoded E input mode fs = bind_res (decodeObject (en_platform E) (en_model E) input mode fs)
     (\<lambda>(value, errors). case errors of None \<Rightarrow> Inr value | Some e \<Rightarrow> Inl e)"

definition create :: "env \<Rightarrow> resource \<Rightarrow> obj \<Rightarrow> call_context \<Rightarrow> commit_plan eff" where
  "create E r body ctx =
     eff_bind (eff_of (decoded E (JObj body) ModeCreate (r_fields r))) (\<lambda>value.
     eff_bind (eff_env (en_clock E)) (\<lambda>now.
     eff_bind (eff_env (\<lambda>n. en_nextId E n r)) (\<lambda>i.
     eff_bind (allocate_sequences E r (cx_tenant ctx) (r_fields r) (initial_record r value i now)) (\<lambda>after0.
     eff_bind (eff_of (resolveSelfReferences r after0 i)) (\<lambda>after1.
     eff_bind (eff_of (sealSecrets E r (r_fields r) after1 value ctx)) (\<lambda>after.
     eff_bind (eff_of (referenceGuards (en_model E) r after None)) (\<lambda>guards.
     eff_bind (loadReferences E r after ctx guards) (\<lambda>refs.
     eff_bind (eff_of (checkRules E r after refs)) (\<lambda>_.
     eff_bind (eff_of (intervalGuard r after i)) (\<lambda>interval.
     eff_bind (storage_try E (\<lambda>m. checkOverlap m (cx_tenant ctx) r interval)) (\<lambda>_.
     eff_bind (storage_try E (\<lambda>m. treeGuard m (cx_tenant ctx) r i (text_member after ''parent''))) (\<lambda>tree.
     eff_bind (eff_env (en_opId E)) (\<lambda>opId.
     eff_ret \<lparr>cp_tenant = cx_tenant ctx, cp_opId = opId, cp_actor = cx_actor ctx, cp_at = now, cp_resource = r,
       cp_kind = PkCreate, cp_id = i, cp_expectedVersion = None, cp_before = None, cp_after = after,
       cp_claims = claimChanges r None after, cp_references = guards, cp_dependents = [], cp_hardDelete = False,
       cp_interval = interval, cp_tree = tree, cp_audit = audit_of ''create'' r i after ctx opId now JUndef,
       cp_outbox = changeEvent r ''create'' i after ctx opId now, cp_receipt = None, cp_completion = None\<rparr>)))))))))))))"

section \<open>Update, delete, restore and transition\<close>

definition orElse :: "jsval \<Rightarrow> jsval \<Rightarrow> jsval" where
  "orElse v d = (if nullish v then d else v)"

text \<open>The version and update time of the next state of a record.\<close>

definition stamp :: "env \<Rightarrow> resource \<Rightarrow> obj \<Rightarrow> string \<Rightarrow> obj \<Rightarrow> obj" where
  "stamp E r before now a0 =
     (let a1 = (if dc_versioned (r_decorators r)
          then mput ''version'' (num_op (pl_ieee (en_platform E)) ''+'' (oget before ''version'') (JInt 1)) a0 else a0)
      in if dc_timestamps (r_decorators r) then mput ''updatedAt'' (JStr now) a1 else a1)"

text \<open>\<open>{ ...before, ...patch }\<close>.\<close>

definition spread :: "obj \<Rightarrow> obj \<Rightarrow> obj" where
  "spread before patch = foldl (\<lambda>a (k, v). mput k v a) before patch"

definition interval_changed :: "resource \<Rightarrow> obj \<Rightarrow> bool" where
  "interval_changed r patch \<longleftrightarrow> mhas ''effectiveFrom'' patch \<or> mhas ''effectiveUntil'' patch \<or>
     (case dc_effectiveDated (r_decorators r) of None \<Rightarrow> False | Some fs \<Rightarrow> list_ex (\<lambda>f. mhas f patch) fs)"

definition update :: "env \<Rightarrow> resource \<Rightarrow> obj \<Rightarrow> call_context \<Rightarrow> commit_plan eff" where
  "update E r body ctx =
     (let i = js_string (oget body ''id'') in
     eff_bind (eff_of (expectedVersion r body)) (\<lambda>expected.
     eff_bind (eff_of (decoded E (orElse (oget body ''patch'') (JObj [])) ModePatch (r_fields r))) (\<lambda>patch.
     eff_bind (loadCurrent E r i ctx expected) (\<lambda>before.
     eff_bind (eff_guard (is_live before) (err ''NotFound'')) (\<lambda>_.
     eff_bind (eff_env (en_clock E)) (\<lambda>now.
     eff_bind (eff_of (resolveSelfReferences r (stamp E r before now (spread before patch)) i)) (\<lambda>after1.
     eff_bind (eff_of (sealSecrets E r (r_fields r) after1 patch ctx)) (\<lambda>after.
     eff_bind (eff_of (referenceGuards (en_model E) r after (Some (map fst patch)))) (\<lambda>guards.
     eff_bind (loadReferences E r after ctx guards) (\<lambda>refs.
     eff_bind (eff_of (checkRules E r after refs)) (\<lambda>_.
     eff_bind (eff_of (if interval_changed r patch then intervalGuard r after i else Inr None)) (\<lambda>interval.
     eff_bind (storage_try E (\<lambda>m. checkOverlap m (cx_tenant ctx) r interval)) (\<lambda>_.
     eff_bind (if mhas ''parent'' patch
         then storage_try E (\<lambda>m. treeGuard m (cx_tenant ctx) r i (text_member after ''parent''))
         else eff_ret None) (\<lambda>tree.
     eff_bind (eff_env (en_opId E)) (\<lambda>opId.
     eff_ret \<lparr>cp_tenant = cx_tenant ctx, cp_opId = opId, cp_actor = cx_actor ctx, cp_at = now, cp_resource = r,
       cp_kind = PkUpdate, cp_id = i, cp_expectedVersion = expected, cp_before = Some before, cp_after = after,
       cp_claims = claimChanges r (Some before) after, cp_references = guards, cp_dependents = [], cp_hardDelete = False,
       cp_interval = interval, cp_tree = tree, cp_audit = audit_of ''update'' r i after ctx opId now JUndef,
       cp_outbox = changeEvent r ''update'' i after ctx opId now, cp_receipt = None, cp_completion = None\<rparr>)))))))))))))))"

text \<open>The pre-check of a delete; the adapter checks again at commit.\<close>

definition check_dependent :: "env \<Rightarrow> call_context \<Rightarrow> string \<Rightarrow> dependent_guard \<Rightarrow> unit eff" where
  "check_dependent E ctx i d =
     eff_bind (storage_read E (\<lambda>m. mem_countDependents m (cx_tenant ctx) (dg_resource d) (dg_field d) i))
       (\<lambda>n. eff_guard (n = 0) (err ''HasDependents''))"

definition deleteOrRestore :: "env \<Rightarrow> resource \<Rightarrow> obj \<Rightarrow> call_context \<Rightarrow> bool \<Rightarrow> commit_plan eff" where
  "deleteOrRestore E r body ctx del =
     (let i = js_string (oget body ''id''); soft = dc_softDelete (r_decorators r);
          kind = (if del then ''delete'' else ''restore'') in
     eff_bind (eff_of (expectedVersion r body)) (\<lambda>expected.
     eff_bind (loadCurrent E r i ctx expected) (\<lambda>before.
     eff_bind (eff_env (en_clock E)) (\<lambda>now.
     eff_bind (eff_guard (soft \<or> del) (err ''MethodNotAllowed'')) (\<lambda>_.
     eff_bind (eff_guard (\<not> (del \<and> \<not> is_live before)) (err ''AlreadyDeleted'')) (\<lambda>_.
     eff_bind (eff_guard (\<not> (\<not> del \<and> is_live before)) (err ''NotDeleted'')) (\<lambda>_.
     let hardDelete = (del \<and> \<not> soft);
         after = stamp E r before now (if soft then mput ''deletedAt'' (if del then JStr now else JNull) before else before);
         dependents = (if del then map (\<lambda>(d, f). \<lparr>dg_resource = d, dg_field = f\<rparr>) (dependentsOf (en_model E) (r_id r)) else [])
     in eff_bind (eff_map (check_dependent E ctx i) dependents) (\<lambda>_.
     eff_bind (eff_env (en_opId E)) (\<lambda>opId.
     eff_ret \<lparr>cp_tenant = cx_tenant ctx, cp_opId = opId, cp_actor = cx_actor ctx, cp_at = now, cp_resource = r,
       cp_kind = (if del then PkDelete else PkRestore), cp_id = i, cp_expectedVersion = expected,
       cp_before = Some before, cp_after = after,
       cp_claims = (if hardDelete then claimChanges r (Some before) [] else []), cp_references = [],
       cp_dependents = dependents, cp_hardDelete = hardDelete, cp_interval = None, cp_tree = None,
       cp_audit = audit_of kind r i after ctx opId now JUndef,
       cp_outbox = changeEvent r kind i after ctx opId now, cp_receipt = None, cp_completion = None\<rparr>)))))))))"

definition transition :: "env \<Rightarrow> resource \<Rightarrow> string option \<Rightarrow> obj \<Rightarrow> call_context \<Rightarrow> commit_plan eff" where
  "transition E r action body ctx =
     (let i = js_string (oget body ''id'') in
      case r_lifecycle r of
        None \<Rightarrow> eff_fail (JsError ''TypeError'')
      | Some lc \<Rightarrow>
          eff_bind (eff_of (expectedVersion r body)) (\<lambda>expected.
          case List.find (\<lambda>x. Some (t_action x) = action) (lc_transitions lc) of
            None \<Rightarrow> eff_fail (JsError ''TypeError'')
          | Some t \<Rightarrow>
              let kind = ''status.'' @ t_action t in
              eff_bind (eff_of (decoded E (orElse (oget body ''input'') (JObj [])) ModeInput (t_input t))) (\<lambda>input.
              eff_bind (loadCurrent E r i ctx expected) (\<lambda>before.
              eff_bind (eff_guard (is_live before) (err ''NotFound'')) (\<lambda>_.
              eff_bind (eff_guard (js_string (oget before (lc_field lc)) \<in> set (t_from t)) (err ''InvalidTransition'')) (\<lambda>_.
              eff_bind (eff_env (en_clock E)) (\<lambda>now.
              let after = stamp E r before now (mput (lc_field lc) (JStr (t_to t)) before)
              in eff_bind (eff_env (en_opId E)) (\<lambda>opId.
              eff_ret \<lparr>cp_tenant = cx_tenant ctx, cp_opId = opId, cp_actor = cx_actor ctx, cp_at = now, cp_resource = r,
                cp_kind = PkTransition, cp_id = i, cp_expectedVersion = expected, cp_before = Some before,
                cp_after = after, cp_claims = claimChanges r (Some before) after, cp_references = [],
                cp_dependents = [], cp_hardDelete = False, cp_interval = None, cp_tree = None,
                cp_audit = audit_of kind r i after ctx opId now (JObj input),
                cp_outbox = changeEvent r kind i after ctx opId now, cp_receipt = None, cp_completion = None\<rparr>))))))))"

section \<open>Dispatch to the planners\<close>

definition WRITES :: "string list" where
  "WRITES = [''update'', ''delete'', ''restore'', ''move'', ''transition'']"

definition planFor :: "env \<Rightarrow> string \<Rightarrow> obj \<Rightarrow> call_context \<Rightarrow> bool \<Rightarrow> commit_plan eff" where
  "planFor E opId body ctx preview =
     (case model_operation (en_model E) opId of
        None \<Rightarrow> eff_fail (err ''MethodNotAllowed'')
      | Some (op, r) \<Rightarrow>
          let d = r_decorators r; k = op_kind op in
          if dc_writeOnce d \<and> k \<in> set WRITES then eff_fail (err ''MethodNotAllowed'')
          else if dc_appendOnly d \<and> k \<noteq> ''create'' then eff_fail (err ''MethodNotAllowed'')
          else if preview \<and> list_ex f_secret (r_fields r) \<and> k \<in> {''create'', ''update''}
            then eff_fail (err ''ValidationFailed'')
          else if k = ''create'' then
            (if preview \<and> list_ex (\<lambda>f. f_sequence f \<noteq> None) (r_fields r)
             then eff_fail (err ''SequencePreviewUnsupported'') else create E r body ctx)
          else if k = ''update'' then update E r body ctx
          else if k = ''delete'' then deleteOrRestore E r body ctx True
          else if k = ''restore'' then deleteOrRestore E r body ctx False
          else if k = ''transition'' then transition E r (op_action op) body ctx
          else eff_fail (err ''MethodNotAllowed''))"

text \<open>\<open>plan.before!\<close> of a hard delete without a previous state would be null: a type error.\<close>

definition resultOf :: "env \<Rightarrow> commit_plan \<Rightarrow> obj res" where
  "resultOf E p =
     (if cp_hardDelete p
      then (case cp_before p of None \<Rightarrow> Inl (JsError ''TypeError'')
        | Some b \<Rightarrow> canonicalize (en_platform E) (en_model E) (cp_resource p) b)
      else canonicalize (en_platform E) (en_model E) (cp_resource p) (cp_after p))"

text \<open>\<open>Temporal.move\<close>: the plan of an update that sets only the parent.\<close>

definition move :: "env \<Rightarrow> resource \<Rightarrow> obj \<Rightarrow> call_context \<Rightarrow> commit_plan eff" where
  "move E r body ctx =
     planFor E (r_id r @ ''.update'')
       [(''id'', JStr (js_string (oget body ''id''))), (''expectedVersion'', oget body ''expectedVersion''),
        (''patch'', JObj [(''parent'', if oget body ''parent'' = JUndef then JNull else oget body ''parent'')])]
       ctx False"

section \<open>The frame of planning\<close>

text \<open>
  What can happen to the store while a call plans: concurrent callers act, and the call itself
  reserves sequence numbers. Planning does nothing else to it.
\<close>

definition sequence_write :: "memory \<Rightarrow> memory \<Rightarrow> bool" where
  "sequence_write m m' \<longleftrightarrow> (\<exists>t k d e. mem_putDocument m t SEQUENCE_KIND k d e = Inr m')"

definition others_act :: "env \<Rightarrow> memory \<Rightarrow> memory \<Rightarrow> bool" where
  "others_act E m m' \<longleftrightarrow> (\<exists>n. m' = en_others E n m)"

definition planning :: "env \<Rightarrow> world \<Rightarrow> world \<Rightarrow> bool" where
  "planning E w w' \<longleftrightarrow> (sup (others_act E) sequence_write)\<^sup>*\<^sup>* (wo_store w) (wo_store w')"

definition reading :: "env \<Rightarrow> world \<Rightarrow> world \<Rightarrow> bool" where
  "reading E w w' \<longleftrightarrow> (others_act E)\<^sup>*\<^sup>* (wo_store w) (wo_store w')"

interpretation planning: frame "planning E" for E
  by unfold_locales (auto simp: planning_def)

interpretation reading: frame "reading E" for E
  by unfold_locales (auto simp: reading_def)


lemma others_reach [simp]:
  "(others_act E)\<^sup>*\<^sup>* m (en_others E n m)" "(sup (others_act E) sequence_write)\<^sup>*\<^sup>* m (en_others E n m)"
  by (auto simp: others_act_def intro!: r_into_rtranclp)

lemma keeps_env [keeps_intros]: "keeps (reading E) (eff_env f)" "keeps (planning E) (eff_env f)"
  by (simp_all add: keeps_def eff_env_def reading_def planning_def)

lemma keeps_with_gate [keeps_intros]: "keeps (reading E) (with_gate E f)" "keeps (planning E) (with_gate E f)"
  by (auto simp: keeps_def with_gate_def reading_def planning_def split: sum.splits)

lemma keeps_read [keeps_intros]:
  "keeps (reading E) (storage_read E f)" "keeps (reading E) (storage_try E g)"
  by (auto simp: keeps_def storage_read_def storage_try_def storage_def reading_def Let_def)

lemma reading_planning: "keeps (reading E) m \<Longrightarrow> keeps (planning E) m"
  unfolding keeps_def reading_def planning_def by (metis rtranclp_mono predicate2D sup_ge1)

lemma keeps_plan_read [keeps_intros]:
  "keeps (planning E) (storage_read E f)" "keeps (planning E) (storage_try E g)"
  by (simp_all add: reading_planning keeps_read)

lemma keeps_gate_check [keeps_intros]: "keeps (reading E) (gate_check E f)" "keeps (planning E) (gate_check E f)"
  by (simp_all add: gate_check_def keeps_with_gate)

lemma keeps_reserve_write:
  "keeps (planning E) (storage_write E (\<lambda>m. mem_putDocument m t SEQUENCE_KIND k d e))"
  unfolding keeps_def
proof
  fix w :: world
  let ?m = "en_others E (wo_tick w) (wo_store w)"
  have o': "(sup (others_act E) sequence_write)\<^sup>*\<^sup>* (wo_store w) ?m"
    by simp
  show "planning E w (snd (storage_write E (\<lambda>m. mem_putDocument m t SEQUENCE_KIND k d e) w))"
  proof (cases "mem_putDocument ?m t SEQUENCE_KIND k d e")
    case (Inl x)
    with o' show ?thesis by (simp add: planning_def storage_write_def storage_def)
  next
    case (Inr m')
    then have "sup (others_act E) sequence_write ?m m'" by (auto simp: sequence_write_def)
    with o' have "(sup (others_act E) sequence_write)\<^sup>*\<^sup>* (wo_store w) m'"
      by (rule rtranclp.rtrancl_into_rtrancl)
    with Inr show ?thesis by (simp add: planning_def storage_write_def storage_def)
  qed
qed

lemma keeps_reserve [keeps_intros]: "keeps (planning E) (reserve n E t sq k)"
  by (induction n) (auto intro!: keeps_intros planning.keeps_exit keeps_reserve_write split: option.splits)

lemma keeps_allocate [keeps_intros]: "keeps (planning E) (allocate_sequences E r t fs a)"
  by (induction fs arbitrary: a) (auto intro!: keeps_intros split: option.splits)

lemma keeps_loadCurrent [keeps_intros]: "keeps (reading E) (loadCurrent E r i ctx e)"
  unfolding loadCurrent_def by (intro keeps_intros)

lemma keeps_load_rest [keeps_intros]: "keeps (reading E) (load_rest E ctx after fs refs)"
  by (induction fs arbitrary: refs) (auto intro!: keeps_intros split: option.splits jsval.splits)

lemma keeps_loadReferences [keeps_intros]: "keeps (reading E) (loadReferences E r after ctx gs)"
  unfolding loadReferences_def load_guard_def by (intro keeps_intros)

lemma keeps_check_dependent [keeps_intros]: "keeps (reading E) (check_dependent E ctx i d)"
  unfolding check_dependent_def by (intro keeps_intros)

lemma keeps_update [keeps_intros]: "keeps (reading E) (update E r body ctx)"
  unfolding update_def by (intro keeps_intros)

lemma keeps_deleteOrRestore [keeps_intros]: "keeps (reading E) (deleteOrRestore E r body ctx d)"
  unfolding deleteOrRestore_def by (intro keeps_intros)

lemma keeps_transition [keeps_intros]: "keeps (reading E) (transition E r a body ctx)"
  unfolding transition_def by (intro keeps_intros)

lemmas keeps_plan_steps = keeps_loadReferences [THEN reading_planning] keeps_update [THEN reading_planning]
  keeps_deleteOrRestore [THEN reading_planning] keeps_transition [THEN reading_planning]

lemma keeps_create [keeps_intros]: "keeps (planning E) (create E r body ctx)"
  unfolding create_def by (intro keeps_intros keeps_plan_steps)

lemma keeps_planFor [keeps_intros]: "keeps (planning E) (planFor E opId body ctx preview)"
  unfolding planFor_def by (intro keeps_intros keeps_plan_steps)

lemma keeps_move: "keeps (planning E) (move E r body ctx)"
  unfolding move_def by (rule keeps_planFor)

end
