(* ===== verification/Documents.thy ===== *)
theory Documents
  imports Engine_Plan
begin

text \<open>
  Documents changed by compare-and-swap. \<open>mutate\<close> of \<open>packages/runtime/src/work-queues.ts\<close> and
  \<open>change\<close> of \<open>packages/runtime/src/actors.ts\<close> share one loop: read the document, compute the next one
  from a copy, write it on condition that the version is the one read, and start again when another
  caller was faster. A call that returns has taken effect in one instant.
\<close>

text \<open>
  \<open>step now doc\<close> is one attempt: \<open>now j\<close> is the clock at its \<open>j\<close>-th reading. An exception without a
  \<open>code\<close> becomes a ValidationFailed.
\<close>

definition as_forge :: "exn \<Rightarrow> exn" where
  "as_forge e = (case e of JsError t \<Rightarrow> err ''ValidationFailed'' | _ \<Rightarrow> e)"

definition lift_forge :: "'a res \<Rightarrow> 'a res" where
  "lift_forge r = (case r of Inl e \<Rightarrow> Inl (as_forge e) | Inr x \<Rightarrow> Inr x)"

definition DOCUMENT_LIMIT :: int where
  "DOCUMENT_LIMIT = 256 * 1024"

text \<open>\<open>new TextEncoder().encode(JSON.stringify(doc)).length\<close>.\<close>

definition document_size :: "obj \<Rightarrow> int" where
  "document_size d = int (length (utf8 (json_text (JObj d))))"

fun cas ::
    "nat \<Rightarrow> env \<Rightarrow> string \<Rightarrow> string \<Rightarrow> string \<Rightarrow> ((nat \<Rightarrow> int) \<Rightarrow> obj option \<Rightarrow> (obj \<times> 'a) res) \<Rightarrow> 'a eff" where
  "cas 0 E tenant kind i step = eff_fail (err ''TransientConflict'')"
| "cas (Suc k) E tenant kind i step =
     eff_bind (storage_read E (\<lambda>m. mem_getDocument m tenant kind i)) (\<lambda>prev.
     eff_bind (eff_env (\<lambda>n j. en_dateNow E (n + j))) (\<lambda>now.
     eff_bind (eff_of (step now prev)) (\<lambda>(doc, x).
     eff_bind (eff_exit (storage_write E (\<lambda>m. mem_putDocument m tenant kind i doc (doc_expected prev)))) (\<lambda>saved.
       case saved of
         Inr u \<Rightarrow> eff_ret x
       | Inl e \<Rightarrow> if exn_code e = ''VersionConflict'' then cas k E tenant kind i step else eff_fail e))))"

section \<open>Versions\<close>

definition stored_doc :: "memory \<Rightarrow> string \<Rightarrow> string \<Rightarrow> string \<Rightarrow> (nat \<times> obj) option" where
  "stored_doc m tenant kind i = getDocument (me_documents m) tenant kind i"

text \<open>A document either stays as it is or gets a newer version: every conditional write does so.\<close>

definition doc_step :: "string \<Rightarrow> string \<Rightarrow> string \<Rightarrow> memory \<Rightarrow> memory \<Rightarrow> bool" where
  "doc_step t k i m m' \<longleftrightarrow> (case stored_doc m t k i of None \<Rightarrow> True
     | Some (v, d) \<Rightarrow> (\<exists>v' d'. stored_doc m' t k i = Some (v', d') \<and> (v' = v \<and> d' = d \<or> v < v')))"

lemma doc_step_refl [simp]: "doc_step t k i m m"
  by (auto simp: doc_step_def split: option.splits)

lemma doc_step_trans: "doc_step t k i a b \<Longrightarrow> doc_step t k i b c \<Longrightarrow> doc_step t k i a c"
  unfolding doc_step_def by (fastforce split: option.splits)

lemma mem_getDocument_cong: "stored_doc m t k i = stored_doc m' t k i \<Longrightarrow> mem_getDocument m t k i = mem_getDocument m' t k i"
  by (simp add: mem_getDocument_def stored_doc_def)

lemma doc_expected_stored: "doc_expected (mem_getDocument m t k i) = map_option fst (stored_doc m t k i)"
  by (simp add: doc_expected_read stored_doc_def)

text \<open>A write that its condition accepts.\<close>

lemma doc_written:
  assumes "mem_putDocument m t k i d e = Inr m'"
  shows "map_option fst (stored_doc m t k i) = e"
    "stored_doc m' t k i = Some (Suc (case e of None \<Rightarrow> 0 | Some v \<Rightarrow> v), mdel ''_version'' d)"
    "doc_step t k i m m'"
proof -
  obtain ds where ds: "putDocument (me_documents m) t k i (mdel ''_version'' d) e = Inr ds" "m' = m\<lparr>me_documents := ds\<rparr>"
    using assms by (auto simp: mem_putDocument_def res_simps)
  show e: "map_option fst (stored_doc m t k i) = e"
    using putDocument_Inr_iff [of "me_documents m" t k i "mdel ''_version'' d" e] ds(1) by (simp add: stored_doc_def)
  show d: "stored_doc m' t k i = Some (Suc (case e of None \<Rightarrow> 0 | Some v \<Rightarrow> v), mdel ''_version'' d)"
    using putDocument_read [OF ds(1)] by (simp add: stored_doc_def ds(2))
  from e d show "doc_step t k i m m'" by (auto simp: doc_step_def split: option.splits)
qed

lemma same_version_same_doc:
  "doc_step t k i m m' \<Longrightarrow> map_option fst (stored_doc m t k i) = map_option fst (stored_doc m' t k i) \<Longrightarrow>
   stored_doc m' t k i = stored_doc m t k i"
  by (auto simp: doc_step_def split: option.splits)

section \<open>The loop takes effect at once\<close>

text \<open>
  \<open>took_effect\<close>: at a store the callers reached, one attempt of the step succeeded on the document
  there, and its result was written in the same instant.
\<close>

definition took_effect ::
    "env \<Rightarrow> string \<Rightarrow> string \<Rightarrow> string \<Rightarrow> ((nat \<Rightarrow> int) \<Rightarrow> obj option \<Rightarrow> (obj \<times> 'a) res) \<Rightarrow> world \<Rightarrow> 'a \<Rightarrow> world \<Rightarrow> bool" where
  "took_effect E t k i step w x w' \<longleftrightarrow>
     (\<exists>m now doc. (others_act E)\<^sup>*\<^sup>* (wo_store w) m \<and> step now (mem_getDocument m t k i) = Inr (doc, x) \<and>
        mem_putDocument m t k i doc (doc_expected (mem_getDocument m t k i)) = Inr (wo_store w'))"

lemma cas_run:
  "cas (Suc n) E t k i step w =
     (let m1 = world_now E w; prev = mem_getDocument m1 t k i;
          w2 = w\<lparr>wo_store := m1, wo_tick := wo_tick w + 2\<rparr>; m2 = world_now E w2
      in case step (\<lambda>j. en_dateNow E (wo_tick w + 1 + j)) prev of
           Inl e \<Rightarrow> (Inl e, w2)
         | Inr (doc, x) \<Rightarrow>
             (case mem_putDocument m2 t k i doc (doc_expected prev) of
                Inr m3 \<Rightarrow> (Inr x, w\<lparr>wo_store := m3, wo_tick := wo_tick w + 3\<rparr>)
              | Inl e \<Rightarrow>
                  if exn_code e = ''VersionConflict'' then cas n E t k i step (w\<lparr>wo_store := m2, wo_tick := wo_tick w + 3\<rparr>)
                  else (Inl e, w\<lparr>wo_store := m2, wo_tick := wo_tick w + 3\<rparr>)))"
  unfolding cas.simps run_read
  by (auto simp: eff_bind_def eff_env_def eff_of_def eff_exit_def storage_write_def storage_def world_now_def eff_ret_def
      eff_fail_def Let_def numeral_eq_Suc split: sum.splits prod.splits)

lemma others_twice:
  "(others_act E)\<^sup>*\<^sup>* (wo_store w) (world_now E (w\<lparr>wo_store := world_now E w, wo_tick := n\<rparr>))"
  by (rule rtranclp_trans [of _ _ "world_now E w"]) (simp_all add: world_now_def)

lemma cas_returns:
  assumes "\<And>n m. doc_step t k i m (en_others E n m)"
    and "cas n E t k i step w = (Inr x, w')"
  shows "took_effect E t k i step w x w'"
  using assms(2)
proof (induction n arbitrary: w)
  case 0
  then show ?case by (simp add: eff_fail_def)
next
  case (Suc n)
  define m1 where "m1 = world_now E w"
  let ?prev = "mem_getDocument m1 t k i"
  define m2 where "m2 = world_now E (w\<lparr>wo_store := m1, wo_tick := wo_tick w + 2\<rparr>)"
  have r2: "(others_act E)\<^sup>*\<^sup>* (wo_store w) m2" unfolding m2_def m1_def by (rule others_twice)
  have step12: "doc_step t k i m1 m2" using assms(1) by (simp add: m2_def world_now_def)
  note run = Suc.prems [unfolded cas_run Let_def, folded m1_def, folded m2_def]
  obtain doc y where st: "step (\<lambda>j. en_dateNow E (wo_tick w + 1 + j)) ?prev = Inr (doc, y)"
    using run by (auto split: sum.splits prod.splits)
  show ?case
  proof (cases "mem_putDocument m2 t k i doc (doc_expected ?prev)")
    case (Inr m3)
    have "stored_doc m2 t k i = stored_doc m1 t k i"
      using same_version_same_doc [OF step12] doc_written(1) [OF Inr] by (simp add: doc_expected_stored)
    then have "mem_getDocument m2 t k i = ?prev" by (rule mem_getDocument_cong)
    moreover have "x = y" "wo_store w' = m3" using run st Inr by auto
    ultimately show ?thesis using r2 st Inr unfolding took_effect_def by metis
  next
    case (Inl e)
    with run st have "cas n E t k i step (w\<lparr>wo_store := m2, wo_tick := wo_tick w + 3\<rparr>) = (Inr x, w')"
      by (simp split: if_splits)
    from Suc.IH [OF this] r2 rtranclp_trans [of "others_act E"] show ?thesis by (fastforce simp: took_effect_def)
  qed
qed

text \<open>A call that fails has written nothing.\<close>

lemma cas_fails:
  assumes "cas n E t k i step w = (Inl e, w')"
  shows "reading E w w'"
  using assms
proof (induction n arbitrary: w)
  case 0
  then show ?case by (simp add: eff_fail_def)
next
  case (Suc n)
  define m1 where "m1 = world_now E w"
  let ?prev = "mem_getDocument m1 t k i"
  define m2 where "m2 = world_now E (w\<lparr>wo_store := m1, wo_tick := wo_tick w + 2\<rparr>)"
  have r1: "reading E w (w\<lparr>wo_store := m1, wo_tick := n\<rparr>)" for n by (simp add: m1_def world_now_def reading_def)
  have r2: "reading E w (w\<lparr>wo_store := m2, wo_tick := n\<rparr>)" for n
    unfolding m2_def m1_def reading_def by (simp add: others_twice)
  note run = Suc.prems [unfolded cas_run Let_def, folded m1_def, folded m2_def]
  show ?case
  proof (cases "step (\<lambda>j. en_dateNow E (wo_tick w + 1 + j)) ?prev")
    case (Inl e')
    with run r1 show ?thesis by auto
  next
    case (Inr p)
    obtain doc y where p: "p = (doc, y)" by (cases p)
    show ?thesis
    proof (cases "mem_putDocument m2 t k i doc (doc_expected ?prev)")
      case (Inr m3)
      with run \<open>step _ _ = Inr p\<close> p show ?thesis by simp
    next
      case (Inl e')
      with run \<open>step _ _ = Inr p\<close> p r2 Suc.IH show ?thesis
        by (auto split: if_splits intro: reading.trans)
    qed
  qed
qed

text \<open>Without contention the first attempt decides.\<close>

lemma cas_alone:
  assumes "\<And>n m. en_others E n m = m"
  shows "fst (cas (Suc n) E t k i step w) =
     (case step (\<lambda>j. en_dateNow E (wo_tick w + 1 + j)) (mem_getDocument (wo_store w) t k i) of
        Inl e \<Rightarrow> Inl e | Inr (doc, x) \<Rightarrow> Inr x)"
proof -
  let ?prev = "mem_getDocument (wo_store w) t k i"
  have now: "world_now E v = wo_store v" for v by (simp add: world_now_def assms)
  have put: "\<exists>m'. mem_putDocument (wo_store w) t k i doc (doc_expected ?prev) = Inr m'" for doc
    using putDocument_Inr_iff [of "me_documents (wo_store w)" t k i "mdel ''_version'' doc" "doc_expected ?prev"]
    by (auto simp: mem_putDocument_def doc_expected_read)
  then show ?thesis
    unfolding cas_run Let_def now by (auto split: sum.splits) (metis sum.distinct(1))+
qed

end
