(* ===== verification/Execution.thy ===== *)
theory Execution
  imports Documents
begin

text \<open>
  Execution requirements (\<open>packages/contracts/capability-manifest/src/execution.ts\<close>): the digest of a
  JSON value, pinned manifests, and the derivation of what a runner must offer from the dependency graph
  of an operation. An exception is a plain \<open>Error\<close>; \<open>node:crypto\<close>'s SHA-256 is the digest of the
  environment.
\<close>

section \<open>Digests and manifests\<close>

text \<open>\<open>canonical\<close>: the entries of every object in the order of their keys.\<close>

fun exec_canonical :: "jsval \<Rightarrow> jsval" where
  "exec_canonical (JArr vs) = JArr (map exec_canonical vs)"
| "exec_canonical (JObj kvs) = JObj (sort_key fst (map (\<lambda>p. (fst p, exec_canonical (snd p))) kvs))"
| "exec_canonical v = v"

definition executionDigest :: "env \<Rightarrow> jsval \<Rightarrow> string" where
  "executionDigest E v = sha256 E (''forge:execution:'' @ json_text (exec_canonical v))"

text \<open>\<open>/^[a-z][a-z0-9]*(?:[._-][a-z0-9]+)*$/\<close>; \<open>atom_rest b\<close> reads on after an alphanumeric (\<open>b\<close>) or a separator.\<close>

fun atom_rest :: "bool \<Rightarrow> string \<Rightarrow> bool" where
  "atom_rest b [] = b"
| "atom_rest b (c # cs) =
     (if is_lower c \<or> is_digit c then atom_rest True cs
      else b \<and> c \<in> set ''._-'' \<and> atom_rest False cs)"

definition is_atom :: "string \<Rightarrow> bool" where
  "is_atom s = (case s of [] \<Rightarrow> False | c # cs \<Rightarrow> is_lower c \<and> atom_rest True cs)"

fun atom_text :: "jsval \<Rightarrow> string option" where
  "atom_text (JStr s) = (if is_atom s \<and> length s \<le> 128 then Some s else None)"
| "atom_text v = None"

definition atoms :: "jsval \<Rightarrow> string list res" where
  "atoms v = (case v of
     JArr vs \<Rightarrow>
       if length vs > 256 \<or> list_ex (\<lambda>v. atom_text v = None) vs then Inl (JsError ''atoms'')
       else Inr (sort (dedup (map (\<lambda>v. the (atom_text v)) vs)))
   | _ \<Rightarrow> Inl (JsError ''atoms''))"

definition MANIFEST_FIELDS :: "string list" where
  "MANIFEST_FIELDS = [''version'', ''id'', ''kind'', ''requires'']"

definition JStrs :: "string list \<Rightarrow> jsval" where
  "JStrs xs = JArr (map JStr xs)"

text \<open>The digest of a manifest with its requirements normalized, and that manifest.\<close>

definition pinExecutionManifest :: "env \<Rightarrow> obj \<Rightarrow> (string \<times> obj) res" where
  "pinExecutionManifest E m =
     bind_res (guard_res (oget m ''version'' = JStr ''execution-manifest/1'' \<and>
         oget m ''kind'' \<in> {JStr ''implementation'', JStr ''provider''} \<and> truthy (oget m ''id'')) (JsError ''manifest'')) (\<lambda>_.
     bind_res (guard_res (list_all (\<lambda>p. fst p \<in> set MANIFEST_FIELDS) m) (JsError ''manifest field'')) (\<lambda>_.
     bind_res (atoms (oget m ''requires'')) (\<lambda>req.
       let normalized = mput ''requires'' (JStrs req) m
       in Inr (executionDigest E (JObj normalized), normalized))))"

text \<open>The manifests of a derivation, each checked against the digest it is pinned by.\<close>

fun check_pins :: "env \<Rightarrow> (string \<times> obj) list \<Rightarrow> (string \<times> obj) list \<Rightarrow> (string \<times> obj) list res" where
  "check_pins E [] ms = Inr ms"
| "check_pins E ((digest, m) # pins) ms =
     bind_res (pinExecutionManifest E m) (\<lambda>(d, normalized).
       if d \<noteq> digest then Inl (JsError ''manifest digest'') else check_pins E pins (mput digest normalized ms))"

section \<open>Artifacts\<close>

record exec_use =
  us_kind :: string
  us_function :: "string option"
  us_resource :: "string option"

record exec_function =
  xf_id :: string
  xf_generated :: bool
  xf_uses :: "exec_use list"

text \<open>A step of a workflow graph: kind, id, target (kind and function), nested call, and the nested steps.\<close>

datatype exec_step = ExecStep
  (es_kind: string) (es_id: "string option") (es_target: "(string \<times> string option) option")
  (es_call: "exec_step option") (es_then: "exec_step list") (es_otherwise: "exec_step list")
  (es_branches: "exec_step list list")

record exec_workflow =
  xw_id :: string
  xw_version :: int
  xw_graphHash :: string
  xw_steps :: "exec_step list"

record exec_module =
  xm_functions :: "exec_function list"
  xm_resources :: "string list"
  xm_workflows :: "exec_workflow list"

text \<open>The JSON of an artifact (which is digested whole) and the members the derivation reads.\<close>

record exec_artifact =
  xa_json :: jsval
  xa_modules :: "exec_module list"

record exec_profile =
  xp_id :: string
  xp_bindings :: "(string \<times> string) list"
  xp_providers :: "string list"

record exec_input =
  xi_artifact :: exec_artifact
  xi_artifactDigest :: string
  xi_operation :: string
  xi_profile :: exec_profile
  xi_manifests :: "(string \<times> obj) list"
  xi_explicit :: "(string \<times> string) list"

text \<open>\<open>register\<close> over all identities of the artifact, in the order of the modules.\<close>

definition identities_of :: "exec_module \<Rightarrow> string list" where
  "identities_of m = map xf_id (xm_functions m) @ xm_resources m @ map xw_id (xm_workflows m)"

fun register :: "string list \<Rightarrow> string list \<Rightarrow> unit res" where
  "register seen [] = Inr ()"
| "register seen (i # is) =
     (if js_trim i = [] then Inl (JsError ''invalid execution identity'')
      else if i \<in> set seen then Inl (JsError ''ambiguous execution identity'')
      else register (i # seen) is)"

definition exec_functions :: "exec_artifact \<Rightarrow> exec_function list" where
  "exec_functions a = concat (map xm_functions (xa_modules a))"

definition exec_resources :: "exec_artifact \<Rightarrow> string list" where
  "exec_resources a = concat (map xm_resources (xa_modules a))"

definition find_function :: "exec_artifact \<Rightarrow> string \<Rightarrow> exec_function option" where
  "find_function a i = List.find (\<lambda>f. xf_id f = i) (exec_functions a)"

section \<open>Derivation\<close>

type_synonym explanations = "(string \<times> string list) list"

definition explain :: "string \<Rightarrow> string \<Rightarrow> explanations \<Rightarrow> explanations" where
  "explain atom source ex = mput atom ((case map_of ex atom of None \<Rightarrow> [] | Some ss \<Rightarrow> ss) @ [source]) ex"

definition manifest_requires :: "obj \<Rightarrow> string list" where
  "manifest_requires m = (case oget m ''requires'' of JArr vs \<Rightarrow> map js_string vs | _ \<Rightarrow> [])"

definition useManifest ::
    "(string \<times> obj) list \<Rightarrow> string \<Rightarrow> string \<Rightarrow> string \<Rightarrow> explanations \<Rightarrow> explanations res" where
  "useManifest ms digest source kind ex =
     (case map_of ms digest of
        None \<Rightarrow> Inl (JsError ''missing manifest'')
      | Some m \<Rightarrow>
          if oget m ''kind'' \<noteq> JStr kind then Inl (JsError ''invalid manifest'')
          else Inr (foldl (\<lambda>ex a. explain a (source @ '' -> '' @ js_string (oget m ''id'') @ ''@'' @ digest) ex)
                 ex (manifest_requires m)))"

fun use_providers :: "(string \<times> obj) list \<Rightarrow> string \<Rightarrow> string list \<Rightarrow> explanations \<Rightarrow> explanations res" where
  "use_providers ms profile [] ex = Inr ex"
| "use_providers ms profile (d # ds) ex =
     bind_res (useManifest ms d (''profile:'' @ profile) ''provider'' ex) (use_providers ms profile ds)"

text \<open>What a use depends on: None where the code throws.\<close>

definition used_id :: "exec_use \<Rightarrow> string option" where
  "used_id u = (case us_function u of
       Some f \<Rightarrow> if us_kind u = ''function'' \<and> f \<noteq> [] then Some f
          else (case us_resource u of Some r \<Rightarrow> if r \<noteq> [] then Some r else None | None \<Rightarrow> None)
     | None \<Rightarrow> (case us_resource u of Some r \<Rightarrow> if r \<noteq> [] then Some r else None | None \<Rightarrow> None))"

definition dependencies :: "exec_artifact \<Rightarrow> string \<Rightarrow> string option list" where
  "dependencies a i = (case find_function a i of None \<Rightarrow> [] | Some f \<Rightarrow> map used_id (xf_uses f))"

text \<open>The body of \<open>visit\<close> up to its loop: the identity is known and its binding's manifest is used.\<close>

definition visit_node ::
    "exec_artifact \<Rightarrow> exec_profile \<Rightarrow> (string \<times> obj) list \<Rightarrow> string \<Rightarrow> explanations \<Rightarrow> explanations res" where
  "visit_node a pr ms i ex =
     (let fn = find_function a i in
      bind_res (guard_res (fn \<noteq> None \<or> i \<in> set (exec_resources a)) (JsError ''unknown execution dependency'')) (\<lambda>_.
        case map_of (xp_bindings pr) i of
          Some digest \<Rightarrow>
            if digest \<noteq> [] then useManifest ms digest (''operation:'' @ i) (if fn = None then ''provider'' else ''implementation'') ex
            else if (case fn of None \<Rightarrow> False | Some f \<Rightarrow> xf_generated f) then Inr ex else Inl (JsError ''missing binding'')
        | None \<Rightarrow> if (case fn of None \<Rightarrow> False | Some f \<Rightarrow> xf_generated f) then Inr ex else Inl (JsError ''missing binding'')))"

definition VISIT_LIMIT :: nat where
  "VISIT_LIMIT = 4096"

text \<open>
  \<open>visit\<close>, with the calls still to make as an explicit stack in the order the recursion makes them.
  The visited set grows up to its limit, so the walk ends.
\<close>

function visit ::
    "exec_artifact \<Rightarrow> exec_profile \<Rightarrow> (string \<times> obj) list \<Rightarrow> string option list \<Rightarrow> string list \<Rightarrow> explanations \<Rightarrow>
      (string list \<times> explanations) res" where
  "visit a pr ms [] seen ex = Inr (seen, ex)"
| "visit a pr ms (None # todo) seen ex = Inl (JsError ''unsupported execution dependency'')"
| "visit a pr ms (Some i # todo) seen ex =
     (if i \<in> set seen then visit a pr ms todo seen ex
      else if length seen \<ge> VISIT_LIMIT then Inl (JsError ''execution dependency graph exceeds 4096 nodes'')
      else bind_res (visit_node a pr ms i ex) (\<lambda>ex'. visit a pr ms (dependencies a i @ todo) (i # seen) ex'))"
  by pat_completeness auto
termination
  by (relation "measures [\<lambda>(a, pr, ms, todo, seen, ex). VISIT_LIMIT - length seen, \<lambda>(a, pr, ms, todo, seen, ex). length todo]") auto

fun add_explicit :: "(string \<times> string) list \<Rightarrow> explanations \<Rightarrow> explanations res" where
  "add_explicit [] ex = Inr ex"
| "add_explicit ((atom, reason) # es) ex =
     bind_res (atoms (JArr [JStr atom])) (\<lambda>_.
     bind_res (guard_res (js_trim reason \<noteq> []) (JsError ''explicit requirements need an explanation'')) (\<lambda>_.
       add_explicit es (explain atom (''explicit:'' @ reason) ex)))"

definition profile_obj :: "exec_profile \<Rightarrow> obj" where
  "profile_obj p = [(''id'', JStr (xp_id p)), (''bindings'', JObj (map (\<lambda>(k, d). (k, JStr d)) (xp_bindings p))),
     (''providers'', JStrs (sort (dedup (xp_providers p))))]"

definition sorted_explanations :: "explanations \<Rightarrow> explanations" where
  "sorted_explanations ex =
     map (\<lambda>k. (k, sort (dedup (case map_of ex k of None \<Rightarrow> [] | Some ss \<Rightarrow> ss)))) (sort (map fst ex))"

definition explanations_json :: "explanations \<Rightarrow> jsval" where
  "explanations_json ex = JObj (map (\<lambda>(k, ss). (k, JStrs ss)) ex)"

definition with_provenance :: "env \<Rightarrow> obj \<Rightarrow> obj" where
  "with_provenance E result = result @ [(''provenanceDigest'', JStr (executionDigest E (JObj result)))]"

definition derive_explanations :: "env \<Rightarrow> exec_input \<Rightarrow> explanations res" where
  "derive_explanations E inp =
     (let a = xi_artifact inp; pr = xi_profile inp in
      bind_res (guard_res (executionDigest E (xa_json a) = xi_artifactDigest inp) (JsError ''artifact digest mismatch'')) (\<lambda>_.
      bind_res (check_pins E (xi_manifests inp) []) (\<lambda>ms.
      bind_res (use_providers ms (xp_id pr) (sort (dedup (xp_providers pr))) []) (\<lambda>ex.
      bind_res (register [] (concat (map identities_of (xa_modules a)))) (\<lambda>_.
      bind_res (visit a pr ms [Some (xi_operation inp)] [] ex) (\<lambda>(seen, ex').
      bind_res (add_explicit (xi_explicit inp) ex') (\<lambda>ex''. Inr (sorted_explanations ex''))))))))"

definition deriveExecutionRequirements :: "env \<Rightarrow> exec_input \<Rightarrow> obj res" where
  "deriveExecutionRequirements E inp =
     bind_res (derive_explanations E inp) (\<lambda>ex.
     bind_res (atoms (JStrs (map fst ex))) (\<lambda>req.
       Inr (with_provenance E
         [(''version'', JStr ''execution-requirements/1''), (''artifactDigest'', JStr (xi_artifactDigest inp)),
          (''operation'', JStr (xi_operation inp)),
          (''profileDigest'', JStr (executionDigest E (JObj (profile_obj (xi_profile inp))))),
          (''requirements'', JStrs req), (''explanations'', explanations_json ex)])))"

section \<open>Reading requirements\<close>

definition req_atoms :: "obj \<Rightarrow> string list" where
  "req_atoms q = (case oget q ''requirements'' of JArr vs \<Rightarrow> map js_string vs | _ \<Rightarrow> [])"

record compatibility =
  ec_changed :: bool
  ec_added :: "string list"
  ec_removed :: "string list"
  ec_action :: string

definition executionCompatibility :: "obj \<Rightarrow> obj \<Rightarrow> compatibility" where
  "executionCompatibility prior new =
     (let changed = (oget prior ''provenanceDigest'' \<noteq> oget new ''provenanceDigest'')
      in \<lparr>ec_changed = changed,
          ec_added = filter (\<lambda>a. a \<notin> set (req_atoms prior)) (req_atoms new),
          ec_removed = filter (\<lambda>a. a \<notin> set (req_atoms new)) (req_atoms prior),
          ec_action = (if changed then ''review-new-tasks; preserve-existing-snapshots'' else ''none'')\<rparr>)"

text \<open>Whether a runner can take a task, what it lacks, and why each requirement is there.\<close>

definition runnerEligibility :: "obj \<Rightarrow> string list \<Rightarrow> (bool \<times> string list \<times> jsval) res" where
  "runnerEligibility q capabilities =
     bind_res (atoms (JStrs capabilities)) (\<lambda>available.
       let missing = filter (\<lambda>a. a \<notin> set available) (req_atoms q)
       in Inr (missing = [], missing, oget q ''explanations''))"

section \<open>Workflow steps\<close>

definition STEP_KINDS :: "string list" where
  "STEP_KINDS = [''call'', ''map'', ''choice'', ''parallel'', ''wait'', ''sleep'', ''return'', ''fail'']"

text \<open>The steps a step pushes; \<open>pending\<close> is popped at its end, so the list below keeps its top first.\<close>

definition nested_steps :: "exec_step \<Rightarrow> exec_step list" where
  "nested_steps s =
     (if es_kind s = ''choice'' then es_then s @ es_otherwise s
      else if es_kind s = ''parallel'' then concat (es_branches s) else [])"

function select_step ::
    "string \<Rightarrow> exec_step list \<Rightarrow> nat \<Rightarrow> string list \<Rightarrow> exec_step option \<Rightarrow> exec_step option res" where
  "select_step target [] n ids selected = Inr selected"
| "select_step target (s # todo) n ids selected =
     (if Suc n > 4096 then Inl (JsError ''workflow selection graph exceeds 4096 nodes'')
      else if es_kind s \<notin> set STEP_KINDS then Inl (JsError ''unsupported workflow step kind'')
      else case es_id s of
          None \<Rightarrow> select_step target (rev (nested_steps s) @ todo) (Suc n) ids selected
        | Some i \<Rightarrow>
            if i \<in> set ids then Inl (JsError ''ambiguous workflow step'')
            else select_step target (rev (nested_steps s) @ todo) (Suc n) (i # ids) (if i = target then Some s else selected))"
  by pat_completeness auto
termination
  by (relation "measure (\<lambda>(target, todo, n, ids, selected). 4096 - n)") auto

definition hex64 :: "string \<Rightarrow> bool" where
  "hex64 s \<longleftrightarrow> length s = 64 \<and> list_all (\<lambda>c. c \<in> set ''0123456789abcdef'') s"

text \<open>The function a selected step calls, itself or for each item it maps over.\<close>

definition called_function :: "exec_step option \<Rightarrow> string res" where
  "called_function selected =
     (let mapped = (case selected of None \<Rightarrow> False | Some s \<Rightarrow> es_kind s = ''map'');
          call = (case selected of None \<Rightarrow> None | Some s \<Rightarrow> if mapped then es_call s else Some s) in
      if mapped \<and> map_option es_id call \<noteq> map_option es_id selected then Inl (JsError ''mapped call must retain its parent step identity'')
      else case call of
          None \<Rightarrow> Inl (JsError ''workflow step must select a function call'')
        | Some c \<Rightarrow>
            (case es_target c of
               Some (k, Some f) \<Rightarrow>
                 if es_kind c = ''call'' \<and> k = ''function'' \<and> f \<noteq> [] then Inr f
                 else Inl (JsError ''workflow step must select a function call'')
             | _ \<Rightarrow> Inl (JsError ''workflow step must select a function call'')))"

definition step_source :: "exec_workflow \<Rightarrow> string \<Rightarrow> string" where
  "step_source flow step = ''workflow:'' @ xw_id flow @ ''#step:'' @ step @ ''@'' @ show_int (xw_version flow) @ ''/'' @ xw_graphHash flow"

definition add_source :: "string \<Rightarrow> jsval \<Rightarrow> jsval" where
  "add_source source v = (case v of JArr vs \<Rightarrow> JStrs (sort (map js_string vs @ [source])) | _ \<Rightarrow> v)"

definition deriveWorkflowStepRequirements :: "env \<Rightarrow> exec_input \<Rightarrow> string \<Rightarrow> string \<Rightarrow> obj res" where
  "deriveWorkflowStepRequirements E inp wid step =
     bind_res (guard_res (executionDigest E (xa_json (xi_artifact inp)) = xi_artifactDigest inp) (JsError ''artifact digest mismatch'')) (\<lambda>_.
       case filter (\<lambda>flow. xw_id flow = wid) (concat (map xm_workflows (xa_modules (xi_artifact inp)))) of
         [flow] \<Rightarrow>
           bind_res (guard_res (safe_int (xw_version flow) \<and> 1 \<le> xw_version flow \<and> hex64 (xw_graphHash flow)) (JsError ''invalid pinned workflow identity'')) (\<lambda>_.
           bind_res (select_step step (rev (xw_steps flow)) 0 [] None) (\<lambda>selected.
           bind_res (called_function selected) (\<lambda>f.
           bind_res (deriveExecutionRequirements E (inp\<lparr>xi_operation := f\<rparr>)) (\<lambda>derived.
             let snapshot = mdel ''provenanceDigest'' derived;
                 result = mput ''explanations'' (case oget snapshot ''explanations'' of
                     JObj kvs \<Rightarrow> JObj (map (\<lambda>(k, v). (k, add_source (step_source flow step) v)) kvs) | v \<Rightarrow> v)
                   (snapshot @ [(''workflowStep'', JObj [(''workflow'', JStr (xw_id flow)), (''step'', JStr step),
                      (''version'', JInt (xw_version flow)), (''graphHash'', JStr (xw_graphHash flow))])])
             in Inr (with_provenance E result)))))
       | _ \<Rightarrow> Inl (JsError ''workflow selection must resolve exactly once''))"

end
