(* ===== verification/Work_Queue.thy ===== *)
theory Work_Queue
  imports Execution
begin

text \<open>
  Work queues (\<open>packages/runtime/src/work-queues.ts\<close>): one document per queue holds its tasks and
  runners (the board). Each operation is a change of a copy of the board inside the loop \<open>cas\<close>. Wakeups
  and telemetry never decide an outcome (their failures are swallowed) and are left out; the clock of the
  queue is \<open>Date.now\<close>.
\<close>

section \<open>The board\<close>

record queue_def =
  qd_id :: string
  qd_execute :: string
  qd_leaseMs :: int
  qd_maxAttempts :: nat
  qd_maxTasks :: nat
  qd_maxRunners :: nat

datatype task_status = Queued | Claimed | Running | Completed | Failed | Cancelled

record evidence =
  ev_kind :: string
  ev_at :: int
  ev_generation :: nat
  ev_runner :: "string option"

record queue_task =
  qt_id :: string
  qt_input :: obj
  qt_requirements :: obj
  qt_priority :: int
  qt_createdAt :: int
  qt_status :: task_status
  qt_generation :: nat
  qt_attempts :: nat
  qt_runner :: "string option"
  qt_leaseUntil :: "int option"
  qt_result :: "obj option"
  qt_history :: "evidence list"

record queue_runner =
  qr_id :: string
  qr_capabilities :: "string list"
  qr_presence :: string
  qr_lastSeen :: int

record board =
  bo_digest :: string
  bo_tasks :: "queue_task list"
  bo_runners :: "queue_runner list"

text \<open>The bounds the constructor demands of a definition.\<close>

definition queue_def_ok :: "queue_def \<Rightarrow> bool" where
  "queue_def_ok D \<longleftrightarrow> qd_id D \<noteq> [] \<and> qd_execute D \<noteq> [] \<and> 1000 \<le> qd_leaseMs D \<and> qd_leaseMs D \<le> 300000 \<and>
     1 \<le> qd_maxAttempts D \<and> qd_maxAttempts D \<le> 10 \<and> 1 \<le> qd_maxTasks D \<and> qd_maxTasks D \<le> 128 \<and>
     1 \<le> qd_maxRunners D \<and> qd_maxRunners D \<le> 64"

definition queue_def_obj :: "queue_def \<Rightarrow> obj" where
  "queue_def_obj D = [(''id'', JStr (qd_id D)), (''execute'', JStr (qd_execute D)), (''leaseMs'', JInt (qd_leaseMs D)),
     (''maxAttempts'', JInt (int (qd_maxAttempts D))), (''maxTasks'', JInt (int (qd_maxTasks D))),
     (''maxRunners'', JInt (int (qd_maxRunners D)))]"

definition queue_digest :: "env \<Rightarrow> queue_def \<Rightarrow> string" where
  "queue_digest E D = executionDigest E (JObj (queue_def_obj D))"

subsection \<open>Its document\<close>

fun status_text :: "task_status \<Rightarrow> string" where
  "status_text Queued = ''queued''"
| "status_text Claimed = ''claimed''"
| "status_text Running = ''running''"
| "status_text Completed = ''completed''"
| "status_text Failed = ''failed''"
| "status_text Cancelled = ''cancelled''"

definition text_status :: "string \<Rightarrow> task_status option" where
  "text_status s = map_of (map (\<lambda>t. (status_text t, t)) [Queued, Claimed, Running, Completed, Failed, Cancelled]) s"

text \<open>An optional member is absent, never null.\<close>

definition opt_member_json :: "string \<Rightarrow> ('a \<Rightarrow> jsval) \<Rightarrow> 'a option \<Rightarrow> obj" where
  "opt_member_json k f v = (case v of None \<Rightarrow> [] | Some x \<Rightarrow> [(k, f x)])"

definition evidence_obj :: "evidence \<Rightarrow> jsval" where
  "evidence_obj e = JObj ([(''kind'', JStr (ev_kind e)), (''at'', JInt (ev_at e)), (''generation'', JInt (int (ev_generation e)))]
     @ opt_member_json ''runner'' JStr (ev_runner e))"

definition task_obj :: "queue_task \<Rightarrow> jsval" where
  "task_obj t = JObj ([(''id'', JStr (qt_id t)), (''input'', JObj (qt_input t)), (''requirements'', JObj (qt_requirements t)),
     (''priority'', JInt (qt_priority t)), (''createdAt'', JInt (qt_createdAt t)), (''status'', JStr (status_text (qt_status t))),
     (''generation'', JInt (int (qt_generation t))), (''attempts'', JInt (int (qt_attempts t))),
     (''history'', JArr (map evidence_obj (qt_history t)))]
     @ opt_member_json ''runner'' JStr (qt_runner t) @ opt_member_json ''leaseUntil'' JInt (qt_leaseUntil t)
     @ opt_member_json ''result'' JObj (qt_result t))"

definition runner_obj :: "queue_runner \<Rightarrow> jsval" where
  "runner_obj r = JObj [(''id'', JStr (qr_id r)), (''capabilities'', JStrs (qr_capabilities r)),
     (''presence'', JStr (qr_presence r)), (''lastSeen'', JInt (qr_lastSeen r))]"

definition board_obj :: "board \<Rightarrow> obj" where
  "board_obj b = [(''definitionDigest'', JStr (bo_digest b)), (''tasks'', JArr (map task_obj (bo_tasks b))),
     (''runners'', JArr (map runner_obj (bo_runners b)))]"

text \<open>
  Reading a document back as a board. The code only casts it; a document of another shape, which no
  operation writes, is the TypeError its first use would be.
\<close>

definition as_text :: "jsval \<Rightarrow> string option" where
  "as_text v = (case v of JStr s \<Rightarrow> Some s | _ \<Rightarrow> None)"

definition as_int :: "jsval \<Rightarrow> int option" where
  "as_int v = (case v of JInt i \<Rightarrow> Some i | _ \<Rightarrow> None)"

definition as_nat :: "jsval \<Rightarrow> nat option" where
  "as_nat v = (case v of JInt i \<Rightarrow> if 0 \<le> i then Some (nat i) else None | _ \<Rightarrow> None)"

definition as_obj :: "jsval \<Rightarrow> obj option" where
  "as_obj v = (case v of JObj d \<Rightarrow> Some d | _ \<Rightarrow> None)"

definition as_list :: "(jsval \<Rightarrow> 'a option) \<Rightarrow> jsval \<Rightarrow> 'a list option" where
  "as_list f v = (case v of JArr vs \<Rightarrow> those (map f vs) | _ \<Rightarrow> None)"

definition as_optional :: "(jsval \<Rightarrow> 'a option) \<Rightarrow> jsval \<Rightarrow> 'a option option" where
  "as_optional f v = (if v = JUndef then Some None else map_option Some (f v))"

definition evidence_of :: "jsval \<Rightarrow> evidence option" where
  "evidence_of v = Option.bind (as_obj v) (\<lambda>d. Option.bind (as_text (oget d ''kind'')) (\<lambda>k.
     Option.bind (as_int (oget d ''at'')) (\<lambda>at. Option.bind (as_nat (oget d ''generation'')) (\<lambda>g.
     Option.bind (as_optional as_text (oget d ''runner'')) (\<lambda>r.
       Some \<lparr>ev_kind = k, ev_at = at, ev_generation = g, ev_runner = r\<rparr>)))))"

definition task_of :: "jsval \<Rightarrow> queue_task option" where
  "task_of v = Option.bind (as_obj v) (\<lambda>d. Option.bind (as_text (oget d ''id'')) (\<lambda>i.
     Option.bind (as_obj (oget d ''input'')) (\<lambda>inp. Option.bind (as_obj (oget d ''requirements'')) (\<lambda>req.
     Option.bind (as_int (oget d ''priority'')) (\<lambda>p. Option.bind (as_int (oget d ''createdAt'')) (\<lambda>c.
     Option.bind (Option.bind (as_text (oget d ''status'')) text_status) (\<lambda>s.
     Option.bind (as_nat (oget d ''generation'')) (\<lambda>g. Option.bind (as_nat (oget d ''attempts'')) (\<lambda>a.
     Option.bind (as_optional as_text (oget d ''runner'')) (\<lambda>r. Option.bind (as_optional as_int (oget d ''leaseUntil'')) (\<lambda>l.
     Option.bind (as_optional as_obj (oget d ''result'')) (\<lambda>res. Option.bind (as_list evidence_of (oget d ''history'')) (\<lambda>h.
       Some \<lparr>qt_id = i, qt_input = inp, qt_requirements = req, qt_priority = p, qt_createdAt = c, qt_status = s,
         qt_generation = g, qt_attempts = a, qt_runner = r, qt_leaseUntil = l, qt_result = res, qt_history = h\<rparr>)))))))))))))"

definition runner_of :: "jsval \<Rightarrow> queue_runner option" where
  "runner_of v = Option.bind (as_obj v) (\<lambda>d. Option.bind (as_text (oget d ''id'')) (\<lambda>i.
     Option.bind (as_list as_text (oget d ''capabilities'')) (\<lambda>cs. Option.bind (as_text (oget d ''presence'')) (\<lambda>p.
     Option.bind (as_int (oget d ''lastSeen'')) (\<lambda>l.
       Some \<lparr>qr_id = i, qr_capabilities = cs, qr_presence = p, qr_lastSeen = l\<rparr>)))))"

definition board_of :: "obj \<Rightarrow> board option" where
  "board_of d = Option.bind (as_text (oget d ''definitionDigest'')) (\<lambda>g.
     Option.bind (as_list task_of (oget d ''tasks'')) (\<lambda>ts. Option.bind (as_list runner_of (oget d ''runners'')) (\<lambda>rs.
       Some \<lparr>bo_digest = g, bo_tasks = ts, bo_runners = rs\<rparr>)))"

definition new_board :: "env \<Rightarrow> queue_def \<Rightarrow> board" where
  "new_board E D = \<lparr>bo_digest = queue_digest E D, bo_tasks = [], bo_runners = []\<rparr>"

section \<open>Changes of a board\<close>

text \<open>A change returns its result and the board it leaves behind; an exception leaves none.\<close>

type_synonym 'a change = "int \<Rightarrow> board \<Rightarrow> ('a \<times> board) res"

definition find_task :: "board \<Rightarrow> string \<Rightarrow> queue_task res" where
  "find_task b i = (case List.find (\<lambda>t. qt_id t = i) (bo_tasks b) of None \<Rightarrow> Inl (err ''NotFound'') | Some t \<Rightarrow> Inr t)"

text \<open>Writing a changed task back to its place.\<close>

fun replace_task :: "queue_task \<Rightarrow> queue_task list \<Rightarrow> queue_task list" where
  "replace_task t [] = []"
| "replace_task t (u # us) = (if qt_id u = qt_id t then t # us else u # replace_task t us)"

definition put_task :: "queue_task \<Rightarrow> board \<Rightarrow> board" where
  "put_task t b = b\<lparr>bo_tasks := replace_task t (bo_tasks b)\<rparr>"

text \<open>\<open>task.runner ? {runner} : {}\<close> drops an empty runner name.\<close>

definition with_evidence :: "string \<Rightarrow> int \<Rightarrow> queue_task \<Rightarrow> queue_task" where
  "with_evidence kind at t = t\<lparr>qt_history := qt_history t @
     [\<lparr>ev_kind = kind, ev_at = at, ev_generation = qt_generation t,
       ev_runner = (case qt_runner t of Some r \<Rightarrow> if r = [] then None else Some r | None \<Rightarrow> None)\<rparr>]\<rparr>"

definition active :: "queue_task \<Rightarrow> bool" where
  "active t \<longleftrightarrow> qt_status t = Claimed \<or> qt_status t = Running"

definition lease_of :: "queue_task \<Rightarrow> int" where
  "lease_of t = (case qt_leaseUntil t of None \<Rightarrow> 0 | Some u \<Rightarrow> u)"

definition fenced :: "board \<Rightarrow> string \<Rightarrow> string \<Rightarrow> nat \<Rightarrow> int \<Rightarrow> queue_task res" where
  "fenced b i runner generation at =
     bind_res (find_task b i) (\<lambda>t.
       if qt_runner t \<noteq> Some runner \<or> qt_generation t \<noteq> generation \<or> \<not> active t \<or> lease_of t \<le> at
       then Inl (err ''VersionConflict'') else Inr t)"

definition runner_ok :: "queue_runner \<Rightarrow> bool" where
  "runner_ok r \<longleftrightarrow> qr_id r \<noteq> [] \<and> length (qr_id r) \<le> 128 \<and> length (qr_capabilities r) \<le> 256 \<and>
     list_all is_atom (qr_capabilities r) \<and> qr_presence r \<in> {''online'', ''draining'', ''offline''}"

definition register_change :: "queue_def \<Rightarrow> queue_runner \<Rightarrow> queue_runner change" where
  "register_change D r at b =
     (if \<not> runner_ok r then Inl (err ''ValidationFailed'')
      else let nxt = r\<lparr>qr_lastSeen := at, qr_capabilities := sort (dedup (qr_capabilities r))\<rparr>
           in case find_index (\<lambda>x. qr_id x = qr_id r) (bo_runners b) of
                None \<Rightarrow>
                  if length (bo_runners b) \<ge> qd_maxRunners D then Inl (err ''BudgetExceeded'')
                  else Inr (nxt, b\<lparr>bo_runners := bo_runners b @ [nxt]\<rparr>)
              | Some j \<Rightarrow> Inr (nxt, b\<lparr>bo_runners := (bo_runners b)[j := nxt]\<rparr>))"

definition enqueue_ok :: "queue_def \<Rightarrow> string \<Rightarrow> obj \<Rightarrow> int \<Rightarrow> bool" where
  "enqueue_ok D i req priority \<longleftrightarrow>
     oget req ''operation'' = JStr (qd_execute D) \<and> i \<noteq> [] \<and> length i \<le> 128 \<and> safe_int priority \<and>
     hex64 (js_string (oget req ''provenanceDigest'')) \<and> length (req_atoms req) \<le> 256 \<and> list_all is_atom (req_atoms req)"

definition enqueue_change :: "env \<Rightarrow> queue_def \<Rightarrow> string \<Rightarrow> obj \<Rightarrow> obj \<Rightarrow> int \<Rightarrow> queue_task change" where
  "enqueue_change E D i input req priority at b =
     (if \<not> enqueue_ok D i req priority then Inl (err ''ValidationFailed'')
      else if JStr (executionDigest E (JObj (mdel ''provenanceDigest'' req))) \<noteq> oget req ''provenanceDigest'' then Inl (err ''ValidationFailed'')
      else if list_ex (\<lambda>t. qt_id t = i) (bo_tasks b) then Inl (err ''VersionConflict'')
      else if length (bo_tasks b) \<ge> qd_maxTasks D then Inl (err ''BudgetExceeded'')
      else let t = with_evidence ''enqueued'' at
             \<lparr>qt_id = i, qt_input = input, qt_requirements = req, qt_priority = priority, qt_createdAt = at,
              qt_status = Queued, qt_generation = 0, qt_attempts = 0, qt_runner = None, qt_leaseUntil = None,
              qt_result = None, qt_history = []\<rparr>
           in Inr (t, b\<lparr>bo_tasks := bo_tasks b @ [t]\<rparr>))"

text \<open>The order in which tasks are handed out: priority, then age, then id.\<close>

definition task_order :: "queue_task \<Rightarrow> queue_task \<Rightarrow> int" where
  "task_order a c =
     (if qt_priority c \<noteq> qt_priority a then qt_priority c - qt_priority a
      else if qt_createdAt a \<noteq> qt_createdAt c then qt_createdAt a - qt_createdAt c
      else if qt_id a < qt_id c then - 1 else if qt_id c < qt_id a then 1 else 0)"

definition claimable :: "queue_runner \<Rightarrow> queue_task \<Rightarrow> bool" where
  "claimable r t \<longleftrightarrow> qt_status t = Queued \<and> list_all (\<lambda>c. c \<in> set (qr_capabilities r)) (req_atoms (qt_requirements t))"

definition online :: "queue_def \<Rightarrow> queue_runner \<Rightarrow> int \<Rightarrow> bool" where
  "online D r at \<longleftrightarrow> qr_presence r = ''online'' \<and> at < qr_lastSeen r + qd_leaseMs D"

definition claimed_task :: "queue_def \<Rightarrow> string \<Rightarrow> int \<Rightarrow> queue_task \<Rightarrow> queue_task" where
  "claimed_task D runner at t = with_evidence ''claimed'' at
     (t\<lparr>qt_status := Claimed, qt_runner := Some runner, qt_generation := qt_generation t + 1,
        qt_attempts := qt_attempts t + 1, qt_leaseUntil := Some (at + qd_leaseMs D)\<rparr>)"

definition claimNext_change :: "queue_def \<Rightarrow> string \<Rightarrow> queue_task option change" where
  "claimNext_change D runner at b =
     (case List.find (\<lambda>r. qr_id r = runner) (bo_runners b) of
        None \<Rightarrow> Inl (err ''Forbidden'')
      | Some r \<Rightarrow>
          if \<not> online D r at then Inl (err ''Forbidden'')
          else (case sort_by task_order (filter (claimable r) (bo_tasks b)) of
                  [] \<Rightarrow> Inr (None, b)
                | t # _ \<Rightarrow> let t' = claimed_task D runner at t in Inr (Some t', put_task t' b)))"

definition start_change :: "string \<Rightarrow> string \<Rightarrow> nat \<Rightarrow> queue_task change" where
  "start_change i runner generation at b =
     bind_res (fenced b i runner generation at) (\<lambda>t.
       let t' = (if qt_status t = Claimed then with_evidence ''started'' at (t\<lparr>qt_status := Running\<rparr>) else t)
       in Inr (t', put_task t' b))"

fun touch_runner :: "string \<Rightarrow> int \<Rightarrow> queue_runner list \<Rightarrow> queue_runner list" where
  "touch_runner i at [] = []"
| "touch_runner i at (r # rs) = (if qr_id r = i then r\<lparr>qr_lastSeen := at\<rparr> # rs else r # touch_runner i at rs)"

definition heartbeat_change :: "queue_def \<Rightarrow> string \<Rightarrow> string \<Rightarrow> nat \<Rightarrow> queue_task change" where
  "heartbeat_change D i runner generation at b =
     bind_res (fenced b i runner generation at) (\<lambda>t.
       let t' = t\<lparr>qt_leaseUntil := Some (at + qd_leaseMs D)\<rparr>
       in Inr (t', (put_task t' b)\<lparr>bo_runners := touch_runner runner at (bo_runners b)\<rparr>))"

definition complete_change :: "string \<Rightarrow> string \<Rightarrow> nat \<Rightarrow> obj \<Rightarrow> queue_task change" where
  "complete_change i runner generation result at b =
     bind_res (fenced b i runner generation at) (\<lambda>t.
       if qt_status t \<noteq> Running then Inl (err ''InvalidTransition'')
       else let t' = with_evidence ''completed'' at (t\<lparr>qt_status := Completed, qt_result := Some result, qt_leaseUntil := None\<rparr>)
            in Inr (t', put_task t' b))"

text \<open>An attempt that ended without a result: queued again, or failed when no attempt is left.\<close>

definition give_back :: "queue_def \<Rightarrow> string \<Rightarrow> int \<Rightarrow> queue_task \<Rightarrow> queue_task" where
  "give_back D kind at t =
     (let s = (if qt_attempts t \<ge> qd_maxAttempts D then Failed else Queued)
      in with_evidence (if s = Failed then ''exhausted'' else kind) at (t\<lparr>qt_status := s, qt_leaseUntil := None\<rparr>))"

definition fail_change :: "queue_def \<Rightarrow> string \<Rightarrow> string \<Rightarrow> nat \<Rightarrow> queue_task change" where
  "fail_change D i runner generation at b =
     bind_res (fenced b i runner generation at) (\<lambda>t. let t' = give_back D ''retry'' at t in Inr (t', put_task t' b))"

definition terminal :: "queue_task \<Rightarrow> bool" where
  "terminal t \<longleftrightarrow> qt_status t \<in> {Completed, Failed, Cancelled}"

definition cancel_change :: "string \<Rightarrow> queue_task change" where
  "cancel_change i at b =
     bind_res (find_task b i) (\<lambda>t.
       if terminal t then Inr (t, b)
       else let t' = with_evidence ''cancelled'' at (t\<lparr>qt_status := Cancelled, qt_leaseUntil := None\<rparr>)
            in Inr (t', put_task t' b))"

definition expired :: "int \<Rightarrow> queue_task \<Rightarrow> bool" where
  "expired at t \<longleftrightarrow> active t \<and> lease_of t \<le> at"

definition reap_change :: "queue_def \<Rightarrow> nat change" where
  "reap_change D at b =
     Inr (length (filter (expired at) (bo_tasks b)),
       b\<lparr>bo_tasks := map (\<lambda>t. if expired at t then give_back D ''lease-expired'' at t else t) (bo_tasks b)\<rparr>)"

section \<open>The service\<close>

definition open_board :: "env \<Rightarrow> queue_def \<Rightarrow> obj option \<Rightarrow> board res" where
  "open_board E D prev =
     (case prev of
        None \<Rightarrow> Inr (new_board E D)
      | Some d \<Rightarrow>
          if oget d ''definitionDigest'' \<noteq> JStr (queue_digest E D) then Inl (err ''VersionConflict'')
          else (case board_of d of None \<Rightarrow> Inl (err ''ValidationFailed'') | Some b \<Rightarrow> Inr b))"

text \<open>The board is written as the clone of the document it was read from, version included.\<close>

definition seal_board :: "obj option \<Rightarrow> board \<Rightarrow> obj" where
  "seal_board prev b = board_obj b @ (case prev of None \<Rightarrow> [] | Some d \<Rightarrow> [(''_version'', oget d ''_version'')])"

definition queue_step :: "env \<Rightarrow> queue_def \<Rightarrow> 'a change \<Rightarrow> (nat \<Rightarrow> int) \<Rightarrow> obj option \<Rightarrow> (obj \<times> 'a) res" where
  "queue_step E D change now prev =
     bind_res (open_board E D prev) (\<lambda>b.
     bind_res (lift_forge (change (now 0) b)) (\<lambda>(x, b').
       let doc = seal_board prev b'
       in if document_size doc > DOCUMENT_LIMIT then Inl (err ''BudgetExceeded'') else Inr (doc, x)))"

definition QUEUE_KIND :: string where
  "QUEUE_KIND = ''work-queue''"

definition QUEUE_ATTEMPTS :: nat where
  "QUEUE_ATTEMPTS = 64"

definition queue_mutate :: "env \<Rightarrow> queue_def \<Rightarrow> string \<Rightarrow> 'a change \<Rightarrow> 'a eff" where
  "queue_mutate E D tenant change = cas QUEUE_ATTEMPTS E tenant QUEUE_KIND (qd_id D) (queue_step E D change)"

definition wq_register :: "env \<Rightarrow> queue_def \<Rightarrow> string \<Rightarrow> queue_runner \<Rightarrow> queue_runner eff" where
  "wq_register E D tenant r = queue_mutate E D tenant (register_change D r)"

definition wq_enqueue :: "env \<Rightarrow> queue_def \<Rightarrow> string \<Rightarrow> string \<Rightarrow> obj \<Rightarrow> obj \<Rightarrow> int \<Rightarrow> queue_task eff" where
  "wq_enqueue E D tenant i input req priority = queue_mutate E D tenant (enqueue_change E D i input req priority)"

definition validation :: "'a res \<Rightarrow> 'a res" where
  "validation r = (case r of Inl e \<Rightarrow> Inl (err ''ValidationFailed'') | Inr x \<Rightarrow> Inr x)"

definition wq_enqueueDerived :: "env \<Rightarrow> queue_def \<Rightarrow> string \<Rightarrow> string \<Rightarrow> obj \<Rightarrow> exec_input \<Rightarrow> int \<Rightarrow> queue_task eff" where
  "wq_enqueueDerived E D tenant i input provenance priority =
     eff_bind (eff_of (validation (deriveExecutionRequirements E provenance))) (\<lambda>req. wq_enqueue E D tenant i input req priority)"

definition wq_enqueueWorkflowStep ::
    "env \<Rightarrow> queue_def \<Rightarrow> string \<Rightarrow> string \<Rightarrow> obj \<Rightarrow> exec_input \<Rightarrow> string \<Rightarrow> string \<Rightarrow> int \<Rightarrow> queue_task eff" where
  "wq_enqueueWorkflowStep E D tenant i input provenance flow step priority =
     eff_bind (eff_of (validation (deriveWorkflowStepRequirements E provenance flow step))) (\<lambda>req.
       wq_enqueue E D tenant i input req priority)"

definition wq_claimNext :: "env \<Rightarrow> queue_def \<Rightarrow> string \<Rightarrow> string \<Rightarrow> queue_task option eff" where
  "wq_claimNext E D tenant runner = queue_mutate E D tenant (claimNext_change D runner)"

definition wq_start :: "env \<Rightarrow> queue_def \<Rightarrow> string \<Rightarrow> string \<Rightarrow> string \<Rightarrow> nat \<Rightarrow> queue_task eff" where
  "wq_start E D tenant i runner generation = queue_mutate E D tenant (start_change i runner generation)"

definition wq_heartbeat :: "env \<Rightarrow> queue_def \<Rightarrow> string \<Rightarrow> string \<Rightarrow> string \<Rightarrow> nat \<Rightarrow> queue_task eff" where
  "wq_heartbeat E D tenant i runner generation = queue_mutate E D tenant (heartbeat_change D i runner generation)"

definition wq_complete :: "env \<Rightarrow> queue_def \<Rightarrow> string \<Rightarrow> string \<Rightarrow> string \<Rightarrow> nat \<Rightarrow> obj \<Rightarrow> queue_task eff" where
  "wq_complete E D tenant i runner generation result = queue_mutate E D tenant (complete_change i runner generation result)"

definition wq_fail :: "env \<Rightarrow> queue_def \<Rightarrow> string \<Rightarrow> string \<Rightarrow> string \<Rightarrow> nat \<Rightarrow> queue_task eff" where
  "wq_fail E D tenant i runner generation = queue_mutate E D tenant (fail_change D i runner generation)"

definition wq_cancel :: "env \<Rightarrow> queue_def \<Rightarrow> string \<Rightarrow> string \<Rightarrow> queue_task eff" where
  "wq_cancel E D tenant i = queue_mutate E D tenant (cancel_change i)"

definition wq_reapExpired :: "env \<Rightarrow> queue_def \<Rightarrow> string \<Rightarrow> nat eff" where
  "wq_reapExpired E D tenant = queue_mutate E D tenant (reap_change D)"

definition wq_get :: "env \<Rightarrow> queue_def \<Rightarrow> string \<Rightarrow> string \<Rightarrow> queue_task eff" where
  "wq_get E D tenant i =
     eff_bind (storage_read E (\<lambda>m. mem_getDocument m tenant QUEUE_KIND (qd_id D))) (\<lambda>doc.
       eff_of (case doc of
           None \<Rightarrow> Inl (err ''NotFound'')
         | Some d \<Rightarrow> (case board_of d of None \<Rightarrow> Inl (JsError ''TypeError'') | Some b \<Rightarrow> find_task b i)))"

end
