(* ===== verification/Json_Correct.thy ===== *)
theory Json_Correct
  imports Json
begin

text \<open>
  \<open>JSON.parse\<close> inverts \<open>JSON.stringify\<close>, \<open>TextDecoder\<close> inverts \<open>TextEncoder\<close> and the URL base64
  reader inverts its writer.
\<close>

section \<open>Characters and strings\<close>

lemma downcase_dig: "d < 16 \<Longrightarrow> downcase_char (dig d) = dig d"
  by (simp add: downcase_char_def dig_def is_upper_def)

lemma dval_zero: "dval (CHR ''0'') = 0" "digit_of 16 (CHR ''0'')" "downcase_char (CHR ''0'') = CHR ''0''"
  by code_simp+

lemma hex_char_pair:
  "a < 16 \<Longrightarrow> b < 16 \<Longrightarrow> hex_char [CHR ''0'', CHR ''0'', dig a, dig b] = Some (char_of (16 * a + b))"
  by (simp add: hex_char_def downcase_dig dval_zero Let_def)

lemma char_lits: "char_of (8 :: nat) = CHR 0x08" "char_of (9 :: nat) = CHR 0x09" "char_of (10 :: nat) = CHR 0x0A"
    "char_of (12 :: nat) = CHR 0x0C" "char_of (13 :: nat) = CHR 0x0D" "char_of (92 :: nat) = CHR 0x5C"
    "char_of (48 :: nat) = CHR ''0''"
  by code_simp+

lemma pad_four: "pad_start 4 c [x] = [c, c, c, x]" "pad_start 4 c [x, y] = [c, c, x, y]"
  by (simp_all add: pad_start_def numeral_eq_Suc)

lemma dig_zero: "dig 0 = CHR ''0''"
  by (simp add: dig_def char_lits)

lemma hex_escape:
  assumes "n < 32"
  shows "\<exists>a b c d. pad_start 4 (CHR ''0'') (show_base 16 n) = [a, b, c, d] \<and> hex_char [a, b, c, d] = Some (char_of n)"
proof (cases "n < 16")
  case True
  have "show_base 16 n = [dig n]" using True by (subst show_base.simps) simp
  then show ?thesis using True hex_char_pair [of 0 n] by (simp add: pad_four dig_zero)
next
  case False
  then have n: "n div 16 = 1" using assms by simp
  have "show_base 16 1 = [dig 1]" by (subst show_base.simps) simp
  then have "show_base 16 n = [dig 1, dig (n mod 16)]" using False n by (subst show_base.simps) simp
  moreover have "16 * 1 + n mod 16 = n" using n by presburger
  ultimately show ?thesis using hex_char_pair [of 1 "n mod 16"] by (simp add: pad_four)
qed

lemma json_chars_short:
  assumes "cp c = 92" "json_unescape e = Some x" "e \<noteq> CHR ''u''"
  shows "json_chars (c # e # t) = map_option (\<lambda>(u, r). (x # u, r)) (json_chars t)"
  using assms by auto

lemma backslash: "cp (CHR 0x5C) = 92"
  by simp

lemma json_chars_plain:
  "cp c \<ge> 32 \<Longrightarrow> cp c \<noteq> 92 \<Longrightarrow> c \<noteq> CHR ''\"'' \<Longrightarrow>
     json_chars (c # t) = map_option (\<lambda>(u, r). (c # u, r)) (json_chars t)"
  by simp

lemma json_chars_escape:
  "json_chars (json_escape c @ t) = map_option (\<lambda>(u, r). (c # u, r)) (json_chars t)"
proof -
  have k: "c = char_of n" if "cp c = n" for n using that by auto
  consider "c = CHR ''\"''" | "cp c = 92" | "cp c = 8" | "cp c = 9" | "cp c = 10" | "cp c = 12" | "cp c = 13"
    | "cp c < 32" "cp c \<notin> {8, 9, 10, 12, 13}" | "cp c \<ge> 32" "cp c \<noteq> 92" "c \<noteq> CHR ''\"''"
    by fastforce
  then show ?thesis
  proof cases
    case 8
    obtain h1 h2 h3 h4 where h: "pad_start 4 (CHR ''0'') (show_base 16 (cp c)) = [h1, h2, h3, h4]"
      "hex_char [h1, h2, h3, h4] = Some (char_of (cp c))"
      using hex_escape [OF 8(1)] by blast
    have "json_escape c = [CHR 0x5C, CHR ''u''] @ [h1, h2, h3, h4]"
      using 8 by (auto simp: json_escape_def h(1))
    with h(2) show ?thesis by (simp del: of_char_of)
  next
    case 9
    then have "json_escape c = [c]" by (auto simp: json_escape_def)
    with 9 show ?thesis by simp
  qed (auto dest!: k simp: json_escape_def json_unescape_def char_lits)
qed

lemma json_chars_quote: "json_chars (concat (map json_escape s) @ CHR ''\"'' # rest) = Some (s, rest)"
  by (induction s) (simp_all add: json_chars_escape)

section \<open>Numbers\<close>

lemma show_nat_hd: "0 < n \<Longrightarrow> hd (show_nat n) \<noteq> CHR ''0''"
proof (induction n rule: less_induct)
  case (less n)
  show ?case
  proof (cases "n < 10")
    case True
    have "dval (dig n) = n" using True by simp
    then have "dig n \<noteq> CHR ''0''" using less.prems dval_zero(1) by auto
    moreover have "show_nat n = [dig n]" using True by (subst show_base.simps) simp
    ultimately show ?thesis by simp
  next
    case False
    then have "show_nat n = show_nat (n div 10) @ [dig (n mod 10)]" by (subst show_base.simps) simp
    moreover have "hd (show_nat (n div 10)) \<noteq> CHR ''0''" using less.IH [of "n div 10"] False by simp
    ultimately show ?thesis by simp
  qed
qed

lemma show_nat_digits: "list_all is_digit (show_nat n)"
  using show_base_digits [of 10 _ n] by (auto simp: list_all_iff digit_of_10)

lemma show_nat_zero: "show_nat 0 = ''0''"
  by code_simp

lemma show_nat_plain: "\<not> (length (show_nat n) > 1 \<and> hd (show_nat n) = CHR ''0'')"
  using show_nat_hd [of n] show_nat_zero by (cases n) auto

lemma all_digits_while: "list_all is_digit s \<Longrightarrow> takeWhile is_digit s = s \<and> dropWhile is_digit s = []"
  by (simp add: list_all_iff)

lemma json_number_show: "safe_int i \<Longrightarrow> json_number fl (show_int i) = Some (JInt i)"
proof -
  assume s: "safe_int i"
  have nd: "CHR ''-'' \<noteq> c" if "c \<in> set (show_nat n)" for c n
    using show_nat_digits [of n] that by (auto simp: list_all_iff is_digit_def)
  define u where "u = show_nat (nat \<bar>i\<bar>)"
  have u: "u \<noteq> []" "takeWhile is_digit u = u" "dropWhile is_digit u = []" "\<not> (length u > 1 \<and> hd u = CHR ''0'')"
    using all_digits_while [OF show_nat_digits] show_nat_plain by (simp_all add: u_def)
  have p: "json_int_part (show_int i) = u"
  proof (cases "i < 0")
    case True
    then show ?thesis by (simp add: show_int_def json_int_part_def u_def)
  next
    case False
    have "hd u \<noteq> CHR ''-''" using u(1) nd [of "hd u" "nat \<bar>i\<bar>"] by (auto simp: u_def)
    with False u(1) show ?thesis
      by (cases u) (simp_all add: show_int_def json_int_part_def u_def)
  qed
  show ?thesis
    using s show_int_read [of i] unfolding json_number_def Let_def p u(2,3)
    using u(1,4) by (auto simp: json_fraction_def)
qed

lemma number_char_show: "list_all number_char (show_int i)"
proof -
  have "number_char c" if "is_digit c" for c
    using that by (simp add: number_char_def)
  then have "list_all number_char (show_nat n)" for n
    using show_nat_digits [of n] by (auto simp: list_all_iff)
  then show ?thesis by (simp add: show_int_def number_char_def)
qed

lemma show_int_start: "\<exists>c t. show_int i = c # t \<and> (is_digit c \<or> c = CHR ''-'')"
proof (cases "i < 0")
  case True
  then show ?thesis by (simp add: show_int_def)
next
  case False
  then show ?thesis using show_nat_digits [of "nat i"] by (cases "show_nat (nat i)") (auto simp: show_int_def)
qed

section \<open>Values\<close>

text \<open>
  The values a JSON text represents: no undefined member, integers JavaScript holds exactly,
  objects with distinct keys.
\<close>

fun json_clean :: "jsval \<Rightarrow> bool" where
  "json_clean JUndef = False"
| "json_clean (JFloat t) = False"
| "json_clean (JInt i) = safe_int i"
| "json_clean (JArr vs) = list_all json_clean vs"
| "json_clean (JObj kvs) = (distinct (map fst kvs) \<and> list_all (\<lambda>p. json_clean (snd p)) kvs)"
| "json_clean v = True"

definition delimited :: "string \<Rightarrow> bool" where
  "delimited s \<longleftrightarrow> (case s of [] \<Rightarrow> True | c # t \<Rightarrow> \<not> number_char c)"

lemma skip_ws_idle: "\<not> json_space c \<Longrightarrow> skip_ws (c # s) = c # s"
  by (simp add: skip_ws_def)

lemma punctuation [simp]:
  "\<not> json_space (CHR '','')" "\<not> json_space (CHR '']'')" "\<not> json_space (CHR ''}'')" "\<not> json_space (CHR '':'')"
  "\<not> json_space (CHR ''\"'')" "\<not> json_space (CHR ''['')" "\<not> json_space (CHR ''{'')" "\<not> json_space (CHR ''t'')"
  "\<not> json_space (CHR ''f'')" "\<not> json_space (CHR ''n'')" "\<not> json_space (CHR ''-'')"
  "delimited (CHR '','' # s)" "delimited (CHR '']'' # s)" "delimited (CHR ''}'' # s)"
  by (simp_all add: json_space_def delimited_def number_char_def is_digit_def)

lemma digit_not_space: "is_digit c \<Longrightarrow> \<not> json_space c"
  by (auto simp: is_digit_def json_space_def)

lemma json_text_start:
  "json_clean v \<Longrightarrow> \<exists>c t. json_text v = c # t \<and> \<not> json_space c \<and> c \<noteq> CHR '']'' \<and> c \<noteq> CHR ''}''"
proof (cases v)
  case (JInt i)
  obtain c t where "show_int i = c # t" "is_digit c \<or> c = CHR ''-''" using show_int_start by blast
  with JInt show ?thesis by (auto simp: digit_not_space is_digit_def)
qed (auto simp: json_quote_def)

lemma json_value_skip: "skip_ws (json_text v @ r) = json_text v @ r" if "json_clean v"
  using json_text_start [OF that] by (auto simp: skip_ws_idle)

lemma takeWhile_delimited: "list_all number_char s \<Longrightarrow> delimited r \<Longrightarrow> takeWhile number_char (s @ r) = s"
  by (induction s) (auto simp: delimited_def split: list.splits)

lemma dropWhile_delimited: "list_all number_char s \<Longrightarrow> delimited r \<Longrightarrow> dropWhile number_char (s @ r) = r"
  by (induction s) (auto simp: delimited_def split: list.splits)

lemma json_value_int:
  assumes "safe_int i" "delimited r"
  shows "json_value (Suc n) fl (show_int i @ r) = Some (JInt i, r)"
proof -
  obtain c t where ct: "show_int i = c # t" "is_digit c \<or> c = CHR ''-''" using show_int_start by blast
  then have c: "c \<noteq> CHR ''\"''" "c \<noteq> CHR ''[''" "c \<noteq> CHR ''{''" "\<not> json_space c"
    by (auto simp: is_digit_def digit_not_space)
  have "takeWhile number_char (c # t @ r) = show_int i" "dropWhile number_char (c # t @ r) = r"
    using takeWhile_delimited [OF number_char_show assms(2), of i] dropWhile_delimited [OF number_char_show assms(2), of i]
    by (simp_all add: ct(1))
  with c ct json_number_show [OF assms(1), of fl] show ?thesis
    by (simp add: skip_ws_idle del: takeWhile.simps dropWhile.simps)
qed

text \<open>What the readers of elements and members return, given the reader of each value.\<close>

definition reads_back :: "ieee \<Rightarrow> jsval \<Rightarrow> bool" where
  "reads_back fl v \<longleftrightarrow> (\<forall>n r. 2 * length (json_text v) < n \<longrightarrow> delimited r \<longrightarrow>
     json_value n fl (json_text v @ r) = Some (v, r))"

lemma join_Cons: "join_with s (x # xs) = (if xs = [] then x else x @ s @ join_with s xs)"
  by (cases xs) simp_all

lemma json_elems_back:
  assumes "vs \<noteq> []" "\<And>v. v \<in> set vs \<Longrightarrow> json_clean v \<and> reads_back fl v"
    and "2 * length (join_with '','' (map json_text vs)) + 1 < n"
  shows "json_elems n fl (join_with '','' (map json_text vs) @ CHR '']'' # r) = Some (vs, r)"
  using assms
proof (induction vs arbitrary: n)
  case Nil
  then show ?case by simp
next
  case (Cons v vs)
  obtain k where n: "n = Suc k" using Cons.prems(3) by (cases n) auto
  have v: "json_clean v" "reads_back fl v" using Cons.prems(2) by simp_all
  show ?case
  proof (cases "vs = []")
    case True
    then have "json_value k fl (json_text v @ CHR '']'' # r) = Some (v, CHR '']'' # r)"
      using v(2) Cons.prems(3) n unfolding reads_back_def by simp
    with True n show ?thesis by (simp add: skip_ws_idle)
  next
    case False
    define rest where "rest = join_with '','' (map json_text vs) @ CHR '']'' # r"
    have "json_value k fl (json_text v @ CHR '','' # rest) = Some (v, CHR '','' # rest)"
      using v(2) Cons.prems(3) n False unfolding reads_back_def by (simp add: join_Cons)
    moreover have "json_elems k fl rest = Some (vs, r)"
      unfolding rest_def using False Cons.prems n by (intro Cons.IH) (auto simp: join_Cons)
    ultimately show ?thesis using False n by (simp add: skip_ws_idle join_Cons rest_def)
  qed
qed

definition json_entry :: "string \<times> jsval \<Rightarrow> string" where
  "json_entry p = json_quote (fst p) @ '':'' @ json_text (snd p)"

lemma json_members_back:
  assumes "kvs \<noteq> []" "\<And>p. p \<in> set kvs \<Longrightarrow> json_clean (snd p) \<and> reads_back fl (snd p)"
    and "distinct (map fst kvs)" "fst ` set kvs \<inter> fst ` set acc = {}"
    and "2 * length (join_with '','' (map json_entry kvs)) + 1 < n"
  shows "json_members n fl (join_with '','' (map json_entry kvs) @ CHR ''}'' # r) acc = Some (acc @ kvs, r)"
  using assms
proof (induction kvs arbitrary: n acc)
  case Nil
  then show ?case by simp
next
  case (Cons p kvs)
  obtain k v where p: "p = (k, v)" by (cases p)
  obtain j where n: "n = Suc j" using Cons.prems(5) by (cases n) auto
  have v: "json_clean v" "reads_back fl v" using Cons.prems(2) [of p] by (simp_all add: p)
  have acc: "mput k v acc = acc @ [p]"
    using Cons.prems(4) by (simp add: p mput_snoc map_of_eq_None_iff)
  have q: "json_entry p @ t = CHR ''\"'' # concat (map json_escape k) @ CHR ''\"'' # CHR '':'' # json_text v @ t" for t
    by (simp add: json_entry_def json_quote_def p)
  show ?case
  proof (cases "kvs = []")
    case True
    then have "json_value j fl (json_text v @ CHR ''}'' # r) = Some (v, CHR ''}'' # r)"
      using v(2) Cons.prems(5) n unfolding reads_back_def by (simp add: q [of "[]", simplified])
    with True n show ?thesis by (simp add: skip_ws_idle q json_chars_quote acc)
  next
    case False
    define rest where "rest = join_with '','' (map json_entry kvs) @ CHR ''}'' # r"
    have len: "length (json_entry p) > length (json_text v)" by (simp add: q [of "[]", simplified])
    have 1: "json_value j fl (json_text v @ CHR '','' # rest) = Some (v, CHR '','' # rest)"
      using v(2) Cons.prems(5) n False len unfolding reads_back_def by (simp add: join_Cons)
    have 2: "json_members j fl rest (acc @ [p]) = Some ((acc @ [p]) @ kvs, r)"
      unfolding rest_def using False Cons.prems n by (intro Cons.IH) (auto simp: join_Cons)
    show ?thesis using False n 1 2
      by (simp add: skip_ws_idle join_Cons q json_chars_quote acc flip: rest_def)
  qed
qed

lemma filter_clean: "list_all (\<lambda>p. json_clean (snd p)) kvs \<Longrightarrow> filter (\<lambda>p. snd p \<noteq> JUndef) kvs = kvs"
  by (induction kvs) auto

lemma json_text_obj:
  "json_clean (JObj kvs) \<Longrightarrow> json_text (JObj kvs) = ''{'' @ join_with '','' (map json_entry kvs) @ ''}''"
  by (simp add: filter_clean json_entry_def cong: map_cong)

lemma keyword_back [simp]:
  "json_keyword (CHR ''n'' # CHR ''u'' # CHR ''l'' # CHR ''l'' # r) = Some (JNull, r)"
  "json_keyword (CHR ''t'' # CHR ''r'' # CHR ''u'' # CHR ''e'' # r) = Some (JBool True, r)"
  "json_keyword (CHR ''f'' # CHR ''a'' # CHR ''l'' # CHR ''s'' # CHR ''e'' # r) = Some (JBool False, r)"
  by (simp_all add: json_keyword_def strip_def)

lemma not_digits [simp]:
  "\<not> is_digit (CHR ''n'')" "\<not> is_digit (CHR ''t'')" "\<not> is_digit (CHR ''f'')" "\<not> is_digit (CHR ''['')"
  "\<not> is_digit (CHR ''{'')" "\<not> is_digit (CHR ''\"'')"
  by (simp_all add: is_digit_def)

lemma reads_backI:
  "(\<And>n r. delimited r \<Longrightarrow> json_value (Suc n) fl (json_text v @ r) = Some (v, r)) \<Longrightarrow> reads_back fl v"
  unfolding reads_back_def by (metis less_nat_zero_code not0_implies_Suc)

lemma json_value_text: "json_clean v \<Longrightarrow> reads_back fl v"
proof (induction v)
  case (JInt i)
  then show ?case by (intro reads_backI) (simp add: json_value_int del: json_value.simps)
next
  case (JArr vs)
  show ?case unfolding reads_back_def
  proof (intro allI impI)
    fix n r
    assume n: "2 * length (json_text (JArr vs)) < n" and d: "delimited r"
    obtain k where k: "n = Suc k" using n by (cases n) auto
    show "json_value n fl (json_text (JArr vs) @ r) = Some (JArr vs, r)"
    proof (cases "vs = []")
      case True
      with k show ?thesis by (simp add: skip_ws_idle)
    next
      case False
      let ?t = "join_with '','' (map json_text vs)"
      have "\<And>v. v \<in> set vs \<Longrightarrow> json_clean v \<and> reads_back fl v"
        using JArr by (simp add: list_all_iff)
      then have e: "json_elems k fl (?t @ CHR '']'' # r) = Some (vs, r)"
        using False n k by (intro json_elems_back) auto
      obtain v ws where vs: "vs = v # ws" using False by (cases vs) auto
      have "json_clean v" using JArr.prems vs by simp
      then obtain c u where c: "json_text v = c # u" "\<not> json_space c" "c \<noteq> CHR '']''"
        using json_text_start [of v] by blast
      have "\<exists>t. ?t @ CHR '']'' # r = c # t" by (simp add: vs join_Cons c(1))
      then obtain t where "?t @ CHR '']'' # r = c # t" ..
      with e k c show ?thesis by (simp add: skip_ws_idle)
    qed
  qed
next
  case (JObj kvs)
  show ?case unfolding reads_back_def
  proof (intro allI impI)
    fix n r
    assume n: "2 * length (json_text (JObj kvs)) < n" and d: "delimited r"
    obtain k where k: "n = Suc k" using n by (cases n) auto
    show "json_value n fl (json_text (JObj kvs) @ r) = Some (JObj kvs, r)"
      unfolding json_text_obj [OF JObj.prems]
    proof (cases "kvs = []")
      case True
      with k show "json_value n fl ((''{'' @ join_with '','' (map json_entry kvs) @ ''}'') @ r) = Some (JObj kvs, r)"
        by (simp add: skip_ws_idle)
    next
      case False
      let ?t = "join_with '','' (map json_entry kvs)"
      have "\<And>p. p \<in> set kvs \<Longrightarrow> json_clean (snd p) \<and> reads_back fl (snd p)"
        using JObj by (fastforce simp: list_all_iff)
      then have e: "json_members k fl (?t @ CHR ''}'' # r) [] = Some (kvs, r)"
        using False n k JObj.prems json_members_back [of kvs fl "[]" k r]
        unfolding json_text_obj [OF JObj.prems] by simp
      have "\<exists>t. ?t @ CHR ''}'' # r = CHR ''\"'' # t"
        using False by (cases kvs) (simp_all add: join_Cons json_entry_def json_quote_def)
      then obtain t where "?t @ CHR ''}'' # r = CHR ''\"'' # t" ..
      with e k show "json_value n fl ((''{'' @ ?t @ ''}'') @ r) = Some (JObj kvs, r)"
        by (simp add: skip_ws_idle)
    qed
  qed
qed (auto intro!: reads_backI simp: skip_ws_idle json_quote_def json_chars_quote)

lemma json_parse_text: "json_clean v \<Longrightarrow> json_parse fl (json_text v) = Some v"
  using json_value_text [of v fl, unfolded reads_back_def, rule_format, of "2 * length (json_text v) + 2" "[]"]
  by (simp add: json_parse_def delimited_def skip_ws_def del: json_value.simps)

section \<open>Bytes and base64\<close>

lemma utf8_back: "utf8_decode (utf8 s) = Some s"
proof (induction s)
  case Nil
  then show ?case by simp
next
  case (Cons c s)
  show ?case
  proof (cases "cp c < 128")
    case True
    with Cons show ?thesis by (simp add: utf8_char_def)
  next
    case False
    have c: "cp c < 256" by simp
    then have "192 + cp c div 64 = 194 \<or> 192 + cp c div 64 = 195" using False by linarith
    moreover have "cp c div 64 * 64 + cp c mod 64 = cp c" by simp
    ultimately show ?thesis using Cons False by (auto simp: utf8_char_def)
  qed
qed

definition bytes :: "nat list \<Rightarrow> bool" where
  "bytes bs \<longleftrightarrow> list_all (\<lambda>b. b < 256) bs"

lemma utf8_bytes: "bytes (utf8 s)"
proof -
  have "bytes (utf8_char c)" for c
  proof -
    have "cp c < 256" by simp
    then have "192 + cp c div 64 < 256" "128 + cp c mod 64 < 256" by linarith+
    then show ?thesis by (simp add: bytes_def utf8_char_def)
  qed
  then show ?thesis by (induction s) (auto simp: bytes_def)
qed

lemma b64_back:
  assumes "n < 64"
  shows "b64_value (b64_char n) = Some n" "\<not> atob_space (b64_char n)" "cp (b64_char n) \<noteq> 61" "cp (b64_char n) \<noteq> 46"
proof -
  consider "n < 26" | "26 \<le> n" "n < 52" | "52 \<le> n" "n < 62" | "n = 62" | "n = 63" using assms by linarith
  then have "b64_value (b64_char n) = Some n \<and> \<not> atob_space (b64_char n) \<and> cp (b64_char n) \<noteq> 61 \<and> cp (b64_char n) \<noteq> 46"
    by cases (auto simp: b64_char_def b64_value_def is_upper_def is_lower_def is_digit_def atob_space_def)
  then show "b64_value (b64_char n) = Some n" "\<not> atob_space (b64_char n)" "cp (b64_char n) \<noteq> 61" "cp (b64_char n) \<noteq> 46"
    by blast+
qed

definition b64_text :: "string \<Rightarrow> bool" where
  "b64_text s \<longleftrightarrow> list_all (\<lambda>c. \<exists>n<64. c = b64_char n) s"

lemma b64url_sextets:
  "bytes bs \<Longrightarrow> \<exists>vs. b64url bs = map b64_char vs \<and> list_all (\<lambda>n. n < 64) vs \<and> sextets vs = Some bs"
proof (induction bs rule: b64url.induct)
  case 1
  then show ?case by (intro exI [where x = "[]"]) simp
next
  case (2 a)
  then show ?case by (intro exI [where x = "[a div 4, a mod 4 * 16]"]) (auto simp: bytes_def)
next
  case (3 a b)
  then show ?case
    by (intro exI [where x = "[a div 4, a mod 4 * 16 + b div 16, b mod 16 * 4]"]) (auto simp: bytes_def)
next
  case (4 a b c r)
  then obtain vs where "b64url r = map b64_char vs" "list_all (\<lambda>n. n < 64) vs" "sextets vs = Some r"
    by (auto simp: bytes_def)
  with 4 show ?case
    by (intro exI [where x = "a div 4 # (a mod 4 * 16 + b div 16) # (b mod 16 * 4 + c div 64) # (c mod 64) # vs"])
       (auto simp: bytes_def)
qed

lemma pad_no_space: "\<not> atob_space (CHR ''='')"
  by (simp add: atob_space_def)

lemma filter_space: "list_all (\<lambda>n. n < 64) vs \<Longrightarrow>
    filter (\<lambda>c. \<not> atob_space c) (map b64_char vs @ replicate k (CHR ''='')) = map b64_char vs @ replicate k (CHR ''='')"
  by (induction vs) (auto simp: b64_back pad_no_space)

lemma values_back: "list_all (\<lambda>n. n < 64) vs \<Longrightarrow> map b64_value (map b64_char vs) = map Some vs"
  by (induction vs) (simp_all add: b64_back)

text \<open>Padding a text of the writer and stripping it again gives the text back.\<close>

lemma strip_padding_back:
  assumes "list_all (\<lambda>n. n < 64) vs" "length vs mod 4 \<noteq> 1"
  defines "s \<equiv> map b64_char vs"
  shows "strip_padding (if length s mod 4 = 0 then s else s @ replicate (4 - length s mod 4) (CHR ''='')) = s"
proof -
  have no: "c \<noteq> CHR ''=''" if "c \<in> set s" for c
  proof -
    from that assms(1) obtain n where "c = b64_char n" "n < 64" by (auto simp: s_def list_all_iff)
    then have "cp c \<noteq> cp (CHR ''='')" using b64_back(3) [of n] by simp
    then show ?thesis by auto
  qed
  have l: "length s = length vs" by (simp add: s_def)
  consider "length s mod 4 = 0" | "length s mod 4 = 2" | "length s mod 4 = 3"
    using assms(2) mod_less_divisor [of 4 "length s"] unfolding l [symmetric] by linarith
  then show ?thesis
  proof cases
    case 1
    have "drop (length s - 2) s \<noteq> ''==''" if "length s \<ge> 2"
      using no in_set_dropD [of "CHR ''=''" "length s - 2" s] by fastforce
    moreover have "last s \<noteq> CHR ''=''" if "length s \<ge> 1"
      using no [of "last s"] that by (cases s) auto
    ultimately show ?thesis using 1 by (auto simp: strip_padding_def)
  next
    case 2
    then have "(length s + 2) mod 4 = 0" by presburger
    with 2 show ?thesis by (simp add: strip_padding_def numeral_2_eq_2)
  next
    case 3
    then have m: "(length s + 1) mod 4 = 0" by presburger
    have "drop (length s - 1) (s @ ''='') \<noteq> ''==''"
    proof
      assume a: "drop (length s - 1) (s @ ''='') = ''==''"
      obtain t x where "s = t @ [x]" using 3 by (cases s rule: rev_cases) auto
      with a no [of x] show False by auto
    qed
    with 3 m show ?thesis by (simp add: strip_padding_def)
  qed
qed

lemma sextets_length: "sextets vs = Some bs \<Longrightarrow> length vs mod 4 \<noteq> 1"
  by (induction vs arbitrary: bs rule: sextets.induct) auto

lemma unb64url_back: "bytes bs \<Longrightarrow> unb64url (b64url bs) = Some bs"
proof -
  assume "bytes bs"
  then obtain vs where vs: "b64url bs = map b64_char vs" "list_all (\<lambda>n. n < 64) vs" "sextets vs = Some bs"
    using b64url_sextets by blast
  define s where "s = map b64_char vs"
  define p where "p = (if length s mod 4 = 0 then s else s @ replicate (4 - length s mod 4) (CHR ''=''))"
  have "filter (\<lambda>c. \<not> atob_space c) p = p"
    using filter_space [OF vs(2), of 0] filter_space [OF vs(2), of "4 - length s mod 4"]
    by (simp add: p_def s_def)
  moreover have "strip_padding p = s"
    using strip_padding_back [OF vs(2) sextets_length [OF vs(3)]] by (simp only: p_def s_def)
  moreover have "map b64_value s = map Some vs" using values_back [OF vs(2)] by (simp add: s_def)
  ultimately show ?thesis
    unfolding unb64url_def vs(1) s_def [symmetric] p_def [symmetric] Let_def using vs(3)
    by (auto simp: image_iff o_def)
qed

end
