(* ===== verification/Cursor.thy ===== *)
theory Cursor
  imports Json_Correct Effects
begin

text \<open>
  Pagination cursors (\<open>packages/runtime/src/cursor.ts\<close>): the JSON of the state in URL base64, a dot
  and the first 32 characters of its keyed hash.
\<close>

record cursor_state =
  cu_q :: string
  cu_v :: int
  cu_t :: string
  cu_k :: "string list"
  cu_r :: "jsval list"
  cu_id :: string

definition cursor_json :: "cursor_state \<Rightarrow> obj" where
  "cursor_json s = [(''q'', JStr (cu_q s)), (''v'', JInt (cu_v s)), (''t'', JStr (cu_t s)),
     (''k'', JArr (map JStr (cu_k s))), (''r'', JArr (cu_r s)), (''id'', JStr (cu_id s))]"

definition cursor_hmac :: "env \<Rightarrow> string \<Rightarrow> string" where
  "cursor_hmac E data = take 32 (b64url (en_hmac E (en_cursorSecret E) data))"

definition encodeCursor :: "env \<Rightarrow> cursor_state \<Rightarrow> string" where
  "encodeCursor E s =
     (let payload = b64url (utf8 (json_text (JObj (cursor_json s))))
      in payload @ ''.'' @ cursor_hmac E payload)"

definition unsealed :: "env \<Rightarrow> string \<Rightarrow> jsval option" where
  "unsealed E payload =
     (case unb64url payload of
        None \<Rightarrow> None
      | Some bs \<Rightarrow> (case utf8_decode bs of None \<Rightarrow> None | Some t \<Rightarrow> json_parse (pl_ieee (en_platform E)) t))"

definition decodeCursor :: "env \<Rightarrow> string \<Rightarrow> string \<Rightarrow> string \<Rightarrow> obj res" where
  "decodeCursor E cursor q t =
     (let state = (case split_on (CHR ''.'') cursor of
          payload # sig # rest \<Rightarrow>
            if payload = [] \<or> sig = [] \<or> sig \<noteq> cursor_hmac E payload then None else unsealed E payload
        | _ \<Rightarrow> None)
      in case state of
           Some (JObj s) \<Rightarrow>
             (case oget s ''k'' of
                JArr ks \<Rightarrow> if oget s ''q'' = JStr q \<and> oget s ''t'' = JStr t then Inr s else Inl (err ''InvalidCursor'')
              | _ \<Rightarrow> Inl (err ''InvalidCursor''))
         | _ \<Rightarrow> Inl (err ''InvalidCursor''))"

section \<open>Facts\<close>

text \<open>HMAC-SHA-256 returns 32 bytes.\<close>

definition hmac_bytes :: "env \<Rightarrow> bool" where
  "hmac_bytes E \<longleftrightarrow> (\<forall>k d. bytes (en_hmac E k d) \<and> length (en_hmac E k d) = 32)"

lemma split_undotted: "CHR ''.'' \<notin> set p \<Longrightarrow> CHR ''.'' \<notin> set s \<Longrightarrow> split_on (CHR ''.'') (p @ ''.'' @ s) = [p, s]"
proof (induction p)
  case Nil
  then show ?case by (induction s) auto
next
  case (Cons c p)
  then show ?case by auto
qed

lemma b64url_undotted: "bytes bs \<Longrightarrow> CHR ''.'' \<notin> set (b64url bs)"
proof
  assume b: "bytes bs" and d: "CHR ''.'' \<in> set (b64url bs)"
  obtain vs where "b64url bs = map b64_char vs" "list_all (\<lambda>n. n < 64) vs" using b64url_sextets [OF b] by blast
  with d obtain n where n: "b64_char n = CHR ''.''" "n < 64" by (auto simp: list_all_iff)
  have "cp (b64_char n) \<noteq> 46" using b64_back(4) n(2) .
  with n(1) show False by simp
qed

lemma b64url_nonempty: "bs \<noteq> [] \<Longrightarrow> b64url bs \<noteq> []"
  by (cases bs rule: b64url.cases) auto

lemma cursor_hmac_text: "hmac_bytes E \<Longrightarrow> cursor_hmac E d \<noteq> [] \<and> CHR ''.'' \<notin> set (cursor_hmac E d)"
proof -
  assume "hmac_bytes E"
  then have "bytes (en_hmac E (en_cursorSecret E) d)" "length (en_hmac E (en_cursorSecret E) d) = 32"
    unfolding hmac_bytes_def by blast+
  then have "bytes (en_hmac E (en_cursorSecret E) d)" "en_hmac E (en_cursorSecret E) d \<noteq> []" by auto
  then show ?thesis
    using b64url_nonempty b64url_undotted by (auto simp: cursor_hmac_def dest: in_set_takeD)
qed

lemma unsealed_back: "json_clean v \<Longrightarrow> unsealed E (b64url (utf8 (json_text v))) = Some v"
  by (simp add: unsealed_def unb64url_back utf8_bytes utf8_back json_parse_text)

lemma json_text_nonempty: "json_clean v \<Longrightarrow> json_text v \<noteq> []"
  using json_text_start [of v] by auto

lemma utf8_nonempty: "s \<noteq> [] \<Longrightarrow> utf8 s \<noteq> []"
  by (cases s) auto

lemma cursor_back:
  assumes "hmac_bytes E" "safe_int (cu_v s)" "list_all json_clean (cu_r s)"
  shows "decodeCursor E (encodeCursor E s) (cu_q s) (cu_t s) = Inr (cursor_json s)"
proof -
  have c: "json_clean (JObj (cursor_json s))" using assms(2,3) by (simp add: cursor_json_def list_all_iff)
  define p where "p = b64url (utf8 (json_text (JObj (cursor_json s))))"
  have "p \<noteq> []" unfolding p_def using c json_text_nonempty utf8_nonempty b64url_nonempty by blast
  moreover have "unsealed E p = Some (JObj (cursor_json s))" unfolding p_def using c by (rule unsealed_back)
  moreover have "split_on (CHR ''.'') (p @ ''.'' @ cursor_hmac E p) = [p, cursor_hmac E p]"
    using cursor_hmac_text [OF assms(1)] b64url_undotted [OF utf8_bytes] unfolding p_def by (intro split_undotted) blast+
  ultimately show ?thesis
    using cursor_hmac_text [OF assms(1), of p] unfolding encodeCursor_def Let_def p_def [symmetric]
    by (simp add: decodeCursor_def cursor_json_def oget_def)
qed

text \<open>Whatever is accepted carries the keyed hash of its payload.\<close>

lemma cursor_accepted:
  "decodeCursor E c q t = Inr s \<Longrightarrow>
     \<exists>payload rest. split_on (CHR ''.'') c = payload # cursor_hmac E payload # rest \<and> unsealed E payload = Some (JObj s)
       \<and> oget s ''q'' = JStr q \<and> oget s ''t'' = JStr t"
  by (auto simp: decodeCursor_def Let_def split: list.splits option.splits jsval.splits if_splits)

end
