(* ===== verification/Engine.thy ===== *)
theory Engine
  imports Engine_Plan Cursor
begin

text \<open>
  Execution in the engine (\<open>packages/runtime/src/engine.ts\<close>): authorized planning, single
  mutations, idempotency receipts, the reads with their per-record authorization, scoped and
  unscoped resource operations and \<open>atomic\<close> composition. A commit attaches the receipt of the call
  it runs under (the wrapped storage of \<open>withIdempotency\<close> is the argument \<open>rc\<close>).
\<close>

section \<open>Authorized mutations\<close>

definition ADMIN_KIND :: string where
  "ADMIN_KIND = ''admin''"

text \<open>\<open>writesFenced\<close> of \<open>packages/runtime/src/portability.ts\<close>.\<close>

definition fence_on :: "memory \<Rightarrow> string \<Rightarrow> bool" where
  "fence_on m tenant = (case mem_getDocument m tenant ADMIN_KIND ''fence'' of
     None \<Rightarrow> False | Some d \<Rightarrow> truthy (oget d ''on''))"

definition writesFenced :: "env \<Rightarrow> string \<Rightarrow> bool eff" where
  "writesFenced E tenant = storage_read E (\<lambda>m. fence_on m tenant)"

definition plan_kind_text :: "plan_kind \<Rightarrow> string" where
  "plan_kind_text k = (case k of PkCreate \<Rightarrow> ''create'' | PkUpdate \<Rightarrow> ''update'' | PkDelete \<Rightarrow> ''delete''
     | PkRestore \<Rightarrow> ''restore'' | PkTransition \<Rightarrow> ''transition'' | PkPublish \<Rightarrow> ''publish'')"

definition canonical :: "env \<Rightarrow> resource \<Rightarrow> obj \<Rightarrow> obj res" where
  "canonical E r rcd = canonicalize (en_platform E) (en_model E) r rcd"

definition canonical_before :: "env \<Rightarrow> commit_plan \<Rightarrow> obj option res" where
  "canonical_before E p = (case cp_before p of None \<Rightarrow> Inr None
     | Some b \<Rightarrow> bind_res (canonical E (cp_resource p) b) (\<lambda>x. Inr (Some x)))"

definition authorizedPlan :: "env \<Rightarrow> string \<Rightarrow> obj \<Rightarrow> call_context \<Rightarrow> commit_plan eff" where
  "authorizedPlan E opId body ctx =
     eff_bind (writesFenced E (cx_tenant ctx)) (\<lambda>fenced.
     eff_bind (eff_guard (\<not> fenced) (err ''WriteFenced'')) (\<lambda>_.
     eff_bind (case model_operation (en_model E) opId of
         Some (op, r) \<Rightarrow> if op_kind op = ''create'' then suppression_guard E r ''create'' body ctx else eff_ret ()
       | None \<Rightarrow> eff_ret ()) (\<lambda>_.
     eff_bind (planFor E opId body ctx False) (\<lambda>plan.
     eff_bind (eff_of (canonical_before E plan)) (\<lambda>before.
     eff_bind (eff_of (canonical E (cp_resource plan) (cp_after plan))) (\<lambda>after.
     eff_bind (gate_check E (\<lambda>now g.
         requireWrite (en_platform E) now g opId (cp_resource plan) ctx before after)) (\<lambda>_.
     eff_bind (suppression_guard E (cp_resource plan) (plan_kind_text (cp_kind plan)) (cp_after plan) ctx) (\<lambda>_.
     eff_ret plan))))))))"

text \<open>The receipt a wrapped commit stores: the open receipt with the result of the plan.\<close>

definition with_receipt :: "env \<Rightarrow> receipt option \<Rightarrow> commit_plan \<Rightarrow> commit_plan res" where
  "with_receipt E rc p = (case rc of None \<Rightarrow> Inr p
     | Some r \<Rightarrow> bind_res (resultOf E p) (\<lambda>x. Inr (p\<lparr>cp_receipt := Some (r\<lparr>rc_response := JObj x\<rparr>)\<rparr>)))"

definition commit_plan_eff :: "env \<Rightarrow> receipt option \<Rightarrow> commit_plan \<Rightarrow> obj eff" where
  "commit_plan_eff E rc plan =
     eff_bind (eff_of (with_receipt E rc plan)) (\<lambda>p.
     eff_bind (storage_commit E (\<lambda>m. mem_commit m p)) (\<lambda>_.
     eff_of (resultOf E plan)))"

definition mutate :: "env \<Rightarrow> string \<Rightarrow> obj \<Rightarrow> call_context \<Rightarrow> receipt option \<Rightarrow> obj eff" where
  "mutate E opId body ctx rc = eff_bind (authorizedPlan E opId body ctx) (commit_plan_eff E rc)"

section \<open>Idempotency\<close>

definition has_id :: "jsval \<Rightarrow> obj option" where
  "has_id v = (case v of JObj kvs \<Rightarrow> if mhas ''id'' kvs then Some kvs else None | _ \<Rightarrow> None)"

definition replay :: "env \<Rightarrow> string \<Rightarrow> call_context \<Rightarrow> string \<Rightarrow> receipt \<Rightarrow> jsval eff" where
  "replay E operation ctx requestHash existing =
     (if rc_requestHash existing \<noteq> requestHash then eff_fail (err ''IdempotencyMismatch'')
      else eff_bind (with_gate E (\<lambda>now g. gk_decide (en_platform E) now g operation ''replay''
          (map_option snd (model_operation (en_model E) operation)) ctx (has_id (rc_response existing)) None)) (\<lambda>d.
        eff_bind (eff_guard (de_allow d) (err ''NotPermitted'')) (\<lambda>_. eff_ret (rc_response existing))))"

text \<open>\<open>Effect.catch\<close>: only typed failures are caught, and only a lost race is looked at again.\<close>

definition eff_catch :: "'a eff \<Rightarrow> (exn \<Rightarrow> 'a eff) \<Rightarrow> 'a eff" where
  "eff_catch m h = (\<lambda>w. case m w of (Inl e, w1) \<Rightarrow> h e w1 | (Inr x, w1) \<Rightarrow> (Inr x, w1))"

definition open_receipt :: "call_context \<Rightarrow> string \<Rightarrow> string \<Rightarrow> string \<Rightarrow> string \<Rightarrow> receipt" where
  "open_receipt ctx operation key requestHash now = \<lparr>rc_tenant = cx_tenant ctx, rc_operation = operation,
     rc_key = key, rc_requestHash = requestHash, rc_status = 200, rc_response = JNull, rc_createdAt = now\<rparr>"

definition find_receipt :: "env \<Rightarrow> call_context \<Rightarrow> string \<Rightarrow> string \<Rightarrow> receipt option eff" where
  "find_receipt E ctx operation key = storage_read E (\<lambda>m. mem_getReceipt m (cx_tenant ctx) operation key)"

definition effective_key :: "string option \<Rightarrow> call_context \<Rightarrow> string option" where
  "effective_key explicit ctx = nonempty_opt (case explicit of None \<Rightarrow> cx_idempotencyKey ctx | Some k \<Rightarrow> Some k)"

definition withIdempotency ::
    "env \<Rightarrow> string \<Rightarrow> obj \<Rightarrow> call_context \<Rightarrow> (receipt option \<Rightarrow> obj eff) \<Rightarrow> string option \<Rightarrow> jsval eff" where
  "withIdempotency E operation body ctx run explicit =
     (case effective_key explicit ctx of
        None \<Rightarrow> eff_bind (run None) (\<lambda>x. eff_ret (JObj x))
      | Some key \<Rightarrow>
          let requestHash = sha256 E (stable_json (JObj body)) in
          eff_bind (find_receipt E ctx operation key) (\<lambda>existing.
          case existing of
            Some rc \<Rightarrow> replay E operation ctx requestHash rc
          | None \<Rightarrow>
              eff_bind (eff_env (en_clock E)) (\<lambda>now.
              eff_catch (eff_bind (run (Some (open_receipt ctx operation key requestHash now))) (\<lambda>x. eff_ret (JObj x)))
                (\<lambda>e. if \<not> is_version_conflict e then eff_fail e
                     else eff_bind (find_receipt E ctx operation key) (\<lambda>committed.
                       case committed of Some rc \<Rightarrow> replay E operation ctx requestHash rc | None \<Rightarrow> eff_fail e)))))"

section \<open>Reads\<close>

definition get :: "env \<Rightarrow> resource \<Rightarrow> string \<Rightarrow> call_context \<Rightarrow> obj eff" where
  "get E r i ctx =
     eff_bind (storage_read E (\<lambda>m. mem_get m (cx_tenant ctx) r i)) (\<lambda>rcd.
     case rcd of
       None \<Rightarrow> eff_fail (err ''NotFound'')
     | Some x \<Rightarrow>
         eff_bind (eff_guard (is_live x) (err ''NotFound'')) (\<lambda>_.
         eff_bind (eff_of (canonical E r x)) (\<lambda>canon.
         eff_bind (gate_check E (\<lambda>now g. requireRead (en_platform E) now g (r_id r @ ''.get'') r ctx canon)) (\<lambda>_.
         eff_ret canon))))"

definition open_field :: "field \<Rightarrow> field" where
  "open_field f = f\<lparr>f_immutable := False, f_serverOwned := False, f_synthesized := False\<rparr>"

definition queryValues :: "env \<Rightarrow> resource \<Rightarrow> string list \<Rightarrow> jsval \<Rightarrow> obj res" where
  "queryValues E r names params =
     decoded E (JObj (foldl (\<lambda>x f. mput f (get_member (orElse params (JObj [])) f) x) [] names)) ModeInput
       (map open_field (filter (\<lambda>f. f_name f \<in> set names) (r_fields r)))"

definition type_error :: exn where
  "type_error = JsError ''TypeError''"

definition some_or :: "'a option \<Rightarrow> exn \<Rightarrow> 'a res" where
  "some_or x e = (case x of None \<Rightarrow> Inl e | Some a \<Rightarrow> Inr a)"

definition find_decl_of :: "resource \<Rightarrow> string \<Rightarrow> (find_decl \<times> unique_decl) res" where
  "find_decl_of r query =
     bind_res (some_or (List.find (\<lambda>x. fi_name x = query) (r_finds r)) type_error) (\<lambda>f.
     bind_res (some_or (List.find (\<lambda>u. u_name u = fi_coveredBy f) (r_uniques r)) type_error) (\<lambda>u. Inr (f, u)))"

definition find_one :: "env \<Rightarrow> resource \<Rightarrow> string \<Rightarrow> obj \<Rightarrow> call_context \<Rightarrow> obj eff" where
  "find_one E r query body ctx =
     eff_bind (eff_of (find_decl_of r query)) (\<lambda>(f, u).
     eff_bind (eff_of (queryValues E r (fi_fields f) (oget body ''params''))) (\<lambda>values.
     eff_bind (case claimKey r u values of
         None \<Rightarrow> eff_ret None
       | Some key \<Rightarrow> storage_read E (\<lambda>m. mem_findUnique m (cx_tenant ctx) r key)) (\<lambda>rcd.
     case rcd of
       None \<Rightarrow> eff_fail (err ''NotFound'')
     | Some x \<Rightarrow>
         eff_bind (eff_guard (is_live x) (err ''NotFound'')) (\<lambda>_.
         eff_bind (eff_of (canonical E r x)) (\<lambda>canon.
         eff_bind (gate_check E (\<lambda>now g.
             requireRead (en_platform E) now g (r_id r @ ''.find.'' @ query) r ctx canon)) (\<lambda>_.
         eff_ret canon))))))"

definition base_kind :: "type_base \<Rightarrow> string" where
  "base_kind b = (case b of TCollection k t \<Rightarrow> ''collection'' | TScalar n as \<Rightarrow> ''scalar'' | TEnum e \<Rightarrow> ''enum''
     | TShape s \<Rightarrow> ''shape'' | TReference r \<Rightarrow> ''reference'' | TRecord r \<Rightarrow> ''record'' | TIdentity r \<Rightarrow> ''identity''
     | TStatus r \<Rightarrow> ''status'' | TMessage a m \<Rightarrow> ''message'')"

definition sort_type :: "field \<Rightarrow> string" where
  "sort_type f = (case ts_base (f_type f) of TScalar n as \<Rightarrow> n | b \<Rightarrow> base_kind b)"

definition sortKeys :: "resource \<Rightarrow> list_decl \<Rightarrow> obj \<Rightarrow> string list res" where
  "sortKeys r l rcd = map_res (\<lambda>k. bind_res (some_or (fieldOf r (ok_field k)) type_error) (\<lambda>f.
     sortKey (oget rcd (ok_field k)) (sort_type f) (Some (scaleOf (f_type f))))) (l_order l)"

definition keys_of :: "resource \<Rightarrow> list_decl \<Rightarrow> obj \<Rightarrow> string list" where
  "keys_of r l rcd = (case sortKeys r l rcd of Inl e \<Rightarrow> [] | Inr ks \<Rightarrow> ks)"

text \<open>\<open>storage.list\<close> with the engine's sort keys, which may throw on a row it sorts.\<close>

definition list_page :: "string \<Rightarrow> resource \<Rightarrow> list_query \<Rightarrow> memory \<Rightarrow> (obj list \<times> bool) res" where
  "list_page tenant r q m =
     bind_res (map_res (sortKeys r (lq_list q)) (list_rows m tenant r q)) (\<lambda>_.
       Inr (mem_list m tenant r q (keys_of r (lq_list q))))"

definition PAGE_DEFAULT :: int where "PAGE_DEFAULT = 50"
definition PAGE_MAX :: int where "PAGE_MAX = 100"

definition page_limit :: "env \<Rightarrow> jsval \<Rightarrow> nat" where
  "page_limit E v =
     (let fl = pl_ieee (en_platform E)
      in if is_num v \<and> js_less fl (JInt 0) v
         then (case (case v of JInt i \<Rightarrow> v | _ \<Rightarrow> fl ''floor'' v JUndef) of
             JInt i \<Rightarrow> nat (min i PAGE_MAX) | _ \<Rightarrow> nat PAGE_MAX)
         else nat PAGE_DEFAULT)"

definition cursor_query :: "env \<Rightarrow> string \<Rightarrow> list_decl \<Rightarrow> obj \<Rightarrow> string" where
  "cursor_query E opId l values =
     (if l_search l then opId @ '':'' @ sha256 E (stable_json (JObj values)) else opId)"

definition list_after_of :: "obj \<Rightarrow> list_after" where
  "list_after_of s = \<lparr>la_keys = (case oget s ''k'' of JArr ks \<Rightarrow> map js_string ks | _ \<Rightarrow> []),
     la_id = js_string (oget s ''id'')\<rparr>"

definition read_cursor :: "env \<Rightarrow> string \<Rightarrow> call_context \<Rightarrow> jsval \<Rightarrow> list_after option res" where
  "read_cursor E q ctx cursor =
     (case cursor of
        JStr c \<Rightarrow> if c = [] then Inr None
          else bind_res (decodeCursor E c q (cx_tenant ctx)) (\<lambda>s. Inr (Some (list_after_of s)))
      | _ \<Rightarrow> Inr None)"

definition filter_denies :: "obj \<Rightarrow> row_filter \<Rightarrow> bool" where
  "filter_denies values c =
     (let v = oget values (rf_field c); vs = rf_values c
      in case rf_op c of
           OpIn \<Rightarrow> \<not> js_includes vs v
         | OpEq \<Rightarrow> \<not> js_seq v (case vs of [] \<Rightarrow> JUndef | w # _ \<Rightarrow> w)
         | OpNe \<Rightarrow> js_includes vs v)"

definition plan_member :: "list_plan \<Rightarrow> obj" where
  "plan_member p =
     (let policy = (\<lambda>s. if s = [] then [] else [(''policy'', JStr s)])
      in case p of
           PlanNone \<Rightarrow> []
         | PlanUnsupported \<Rightarrow> []
         | PlanExact s fs \<Rightarrow> [(''plan'', JObj ((''kind'', JStr ''exact'') # policy s))]
         | PlanCandidate x \<Rightarrow> [(''plan'', JObj ((''kind'', JStr ''candidate'') #
             (case x of None \<Rightarrow> [] | Some (s, fs) \<Rightarrow> policy s)))])"

text \<open>One decision per row, when there is an authorizer.\<close>

fun keep_allowed :: "env \<Rightarrow> string \<Rightarrow> resource \<Rightarrow> call_context \<Rightarrow> obj list \<Rightarrow> obj list eff" where
  "keep_allowed E opId r ctx [] = eff_ret []"
| "keep_allowed E opId r ctx (x # xs) =
     eff_bind (with_gate E (\<lambda>now g. gk_decide (en_platform E) now g opId ''read'' (Some r) ctx (Some x) None)) (\<lambda>d.
     eff_bind (keep_allowed E opId r ctx xs) (\<lambda>ys. eff_ret (if de_allow d then x # ys else ys)))"

definition next_cursor :: "env \<Rightarrow> string \<Rightarrow> call_context \<Rightarrow> resource \<Rightarrow> list_decl \<Rightarrow> obj list \<times> bool \<Rightarrow> jsval" where
  "next_cursor E q ctx r l page =
     (if snd page \<and> fst page \<noteq> [] then
        (let x = last (fst page)
         in JStr (encodeCursor E \<lparr>cu_q = q, cu_v = 1, cu_t = cx_tenant ctx, cu_k = keys_of r l x,
              cu_r = map (\<lambda>k. or_null (oget x (ok_field k))) (l_order l), cu_id = js_string (oget x ''id'')\<rparr>))
      else JNull)"

definition exact_items :: "list_plan \<Rightarrow> obj \<Rightarrow> obj list \<Rightarrow> obj list" where
  "exact_items plan values items =
     (case plan of PlanExact p fs \<Rightarrow> if list_ex (filter_denies values) fs then [] else items | _ \<Rightarrow> items)"

definition readable_items :: "env \<Rightarrow> string \<Rightarrow> resource \<Rightarrow> call_context \<Rightarrow> bool \<Rightarrow> obj list \<Rightarrow> obj list eff" where
  "readable_items E opId r ctx authorized items = (if authorized then keep_allowed E opId r ctx items else eff_ret items)"

definition list_many :: "env \<Rightarrow> resource \<Rightarrow> string \<Rightarrow> string \<Rightarrow> obj \<Rightarrow> call_context \<Rightarrow> obj eff" where
  "list_many E r opId query body ctx =
     eff_bind (eff_of (some_or (List.find (\<lambda>x. l_name x = query) (r_lists r)) type_error)) (\<lambda>l.
     eff_bind (eff_of (queryValues E r (l_fields l) (oget body ''params''))) (\<lambda>values.
     let q = cursor_query E opId l values; limit = page_limit E (oget body ''limit'')
     in eff_bind (eff_of (read_cursor E q ctx (oget body ''cursor''))) (\<lambda>after.
     eff_bind (storage_try E (list_page (cx_tenant ctx) r
         \<lparr>lq_list = l, lq_values = values, lq_after = after, lq_limit = limit\<rparr>)) (\<lambda>page.
     eff_bind (eff_of (map_res (canonical E r) (fst page))) (\<lambda>items0.
     eff_bind (with_gate E (\<lambda>now g. Inr ((listPlan g now opId ctx values, gk_authorizer g \<noteq> None), g))) (\<lambda>(plan, authorized).
     eff_bind (eff_guard (plan \<noteq> PlanUnsupported) (err ''NotPermitted'')) (\<lambda>_.
     let items1 = exact_items plan values items0
     in eff_bind (readable_items E opId r ctx authorized items1) (\<lambda>items.
     eff_ret ([(''items'', JArr (map JObj items)), (''next'', next_cursor E q ctx r l page),
       (''limit'', JInt (int limit))] @ plan_member plan)))))))))"

end
