(* ===== verification/Rollout.thy ===== *)
theory Rollout
  imports Work_Queue Engine
begin

text \<open>
  The ledger of deployments (\<open>packages/runtime/src/deployment-ledger.ts\<close>): the progress of a rollout in
  one document, written by the controller that holds its lease. Every write is conditional on the
  version that was read, and every operation but \<open>open\<close> and \<open>acquire\<close> on the fencing token of the lease.
\<close>

section \<open>The document\<close>

datatype rollout_phase = StepPending | StepRunning | StepDone | StepFailed

datatype rollout_state = RolloutOpen | RolloutComplete | RolloutBack

record approval =
  ap_artifact :: string
  ap_signedBy :: string
  ap_signature :: string

record rollout_lease =
  le_controller :: string
  le_token :: int
  le_until :: int

text \<open>The state of a step; an absent result or checkpoint is \<open>JUndef\<close>. The text of an error is left out.\<close>

record step_state =
  rs_status :: rollout_phase
  rs_attempts :: int
  rs_result :: jsval
  rs_checkpoint :: jsval
  rs_by :: "string option"
  rs_token :: "int option"

record rollout =
  ro_id :: string
  ro_artifact :: string
  ro_previous :: "string option"
  ro_approval :: approval
  ro_steps :: "(string \<times> step_state) list"
  ro_order :: "string list"
  ro_lease :: "rollout_lease option"
  ro_fence :: int
  ro_grants :: "string list"
  ro_state :: rollout_state
  ro_stamp :: "nat option"

fun phase_text :: "rollout_phase \<Rightarrow> string" where
  "phase_text StepPending = ''pending''"
| "phase_text StepRunning = ''running''"
| "phase_text StepDone = ''done''"
| "phase_text StepFailed = ''failed''"

definition text_phase :: "string \<Rightarrow> rollout_phase option" where
  "text_phase s = map_of (map (\<lambda>p. (phase_text p, p)) [StepPending, StepRunning, StepDone, StepFailed]) s"

fun rollout_state_text :: "rollout_state \<Rightarrow> string" where
  "rollout_state_text RolloutOpen = ''open''"
| "rollout_state_text RolloutComplete = ''complete''"
| "rollout_state_text RolloutBack = ''rolled-back''"

definition text_rollout_state :: "string \<Rightarrow> rollout_state option" where
  "text_rollout_state s = map_of (map (\<lambda>p. (rollout_state_text p, p)) [RolloutOpen, RolloutComplete, RolloutBack]) s"

definition approval_obj :: "approval \<Rightarrow> jsval" where
  "approval_obj a = JObj [(''artifact'', JStr (ap_artifact a)), (''signedBy'', JStr (ap_signedBy a)),
     (''signature'', JStr (ap_signature a))]"

definition lease_obj :: "rollout_lease option \<Rightarrow> jsval" where
  "lease_obj l = (case l of None \<Rightarrow> JNull
     | Some x \<Rightarrow> JObj [(''controller'', JStr (le_controller x)), (''token'', JInt (le_token x)), (''until'', JInt (le_until x))])"

definition step_obj :: "step_state \<Rightarrow> jsval" where
  "step_obj s = JObj ([(''status'', JStr (phase_text (rs_status s))), (''attempts'', JInt (rs_attempts s)),
     (''result'', rs_result s), (''checkpoint'', rs_checkpoint s)]
     @ opt_member_json ''by'' JStr (rs_by s) @ opt_member_json ''token'' JInt (rs_token s))"

definition rollout_obj :: "rollout \<Rightarrow> obj" where
  "rollout_obj d = [(''rollout'', JStr (ro_id d)), (''artifact'', JStr (ro_artifact d)), (''approval'', approval_obj (ro_approval d)),
     (''steps'', JObj (map (\<lambda>(k, s). (k, step_obj s)) (ro_steps d))), (''order'', JStrs (ro_order d)),
     (''lease'', lease_obj (ro_lease d)), (''fence'', JInt (ro_fence d)), (''activatedGrants'', JStrs (ro_grants d)),
     (''state'', JStr (rollout_state_text (ro_state d)))]
     @ opt_member_json ''previous'' JStr (ro_previous d)"

text \<open>Reading a document as a rollout; the code casts it.\<close>

definition approval_of :: "jsval \<Rightarrow> approval option" where
  "approval_of v = Option.bind (as_obj v) (\<lambda>d. Option.bind (as_text (oget d ''artifact'')) (\<lambda>a.
     Option.bind (as_text (oget d ''signedBy'')) (\<lambda>b. Option.bind (as_text (oget d ''signature'')) (\<lambda>s.
       Some \<lparr>ap_artifact = a, ap_signedBy = b, ap_signature = s\<rparr>))))"

definition lease_of_doc :: "jsval \<Rightarrow> rollout_lease option option" where
  "lease_of_doc v = (if v = JNull then Some None else
     Option.bind (as_obj v) (\<lambda>d. Option.bind (as_text (oget d ''controller'')) (\<lambda>c. Option.bind (as_int (oget d ''token'')) (\<lambda>t.
     Option.bind (as_int (oget d ''until'')) (\<lambda>u. Some (Some \<lparr>le_controller = c, le_token = t, le_until = u\<rparr>))))))"

definition step_of :: "jsval \<Rightarrow> step_state option" where
  "step_of v = Option.bind (as_obj v) (\<lambda>d. Option.bind (Option.bind (as_text (oget d ''status'')) text_phase) (\<lambda>s.
     Option.bind (as_int (oget d ''attempts'')) (\<lambda>a. Option.bind (as_optional as_text (oget d ''by'')) (\<lambda>b.
     Option.bind (as_optional as_int (oget d ''token'')) (\<lambda>t.
       Some \<lparr>rs_status = s, rs_attempts = a, rs_result = oget d ''result'', rs_checkpoint = oget d ''checkpoint'',
         rs_by = b, rs_token = t\<rparr>)))))"

definition steps_of :: "jsval \<Rightarrow> (string \<times> step_state) list option" where
  "steps_of v = Option.bind (as_obj v) (\<lambda>d. those (map (\<lambda>(k, x). map_option (Pair k) (step_of x)) d))"

definition rollout_of :: "obj \<Rightarrow> rollout option" where
  "rollout_of d = Option.bind (as_text (oget d ''rollout'')) (\<lambda>i. Option.bind (as_text (oget d ''artifact'')) (\<lambda>a.
     Option.bind (as_optional as_text (oget d ''previous'')) (\<lambda>p. Option.bind (approval_of (oget d ''approval'')) (\<lambda>ap.
     Option.bind (steps_of (oget d ''steps'')) (\<lambda>ss. Option.bind (as_list as_text (oget d ''order'')) (\<lambda>os.
     Option.bind (lease_of_doc (oget d ''lease'')) (\<lambda>l. Option.bind (as_int (oget d ''fence'')) (\<lambda>f.
     Option.bind (as_list as_text (oget d ''activatedGrants'')) (\<lambda>g.
     Option.bind (Option.bind (as_text (oget d ''state'')) text_rollout_state) (\<lambda>st.
     Option.bind (as_optional as_nat (oget d ''_version'')) (\<lambda>n.
       Some \<lparr>ro_id = i, ro_artifact = a, ro_previous = p, ro_approval = ap, ro_steps = ss, ro_order = os, ro_lease = l,
         ro_fence = f, ro_grants = g, ro_state = st, ro_stamp = n\<rparr>)))))))))))"

section \<open>Access to the store\<close>

definition DEPLOY_KIND :: string where
  "DEPLOY_KIND = ''_forge/deploy''"

definition plain_error :: exn where
  "plain_error = JsError ''Error''"

definition stale_controller :: exn where
  "stale_controller = JsError ''StaleController''"

definition ledger_load :: "env \<Rightarrow> string \<Rightarrow> string \<Rightarrow> rollout eff" where
  "ledger_load E scope r =
     eff_bind (storage_read E (\<lambda>m. mem_getDocument m scope DEPLOY_KIND r)) (\<lambda>d.
       case d of None \<Rightarrow> eff_fail plain_error
       | Some x \<Rightarrow> eff_of (some_or (rollout_of x) type_error))"

definition restamped :: "rollout \<Rightarrow> rollout" where
  "restamped d = d\<lparr>ro_stamp := Some (case ro_stamp d of None \<Rightarrow> 1 | Some v \<Rightarrow> v + 1)\<rparr>"

definition ledger_put :: "env \<Rightarrow> string \<Rightarrow> rollout \<Rightarrow> rollout eff" where
  "ledger_put E scope d =
     eff_bind (storage_write E (\<lambda>m. mem_putDocument m scope DEPLOY_KIND (ro_id d) (rollout_obj d) (ro_stamp d))) (\<lambda>_.
       eff_ret (restamped d))"

section \<open>Opening\<close>

record open_request =
  or_rollout :: string
  or_artifact :: string
  or_previous :: "string option"
  or_steps :: "string list"
  or_blocked :: bool
  or_approval :: approval

definition fresh_step :: step_state where
  "fresh_step = \<lparr>rs_status = StepPending, rs_attempts = 0, rs_result = JUndef, rs_checkpoint = JUndef, rs_by = None, rs_token = None\<rparr>"

definition opened :: "open_request \<Rightarrow> rollout" where
  "opened q = \<lparr>ro_id = or_rollout q, ro_artifact = or_artifact q,
     ro_previous = (case or_previous q of None \<Rightarrow> None | Some p \<Rightarrow> if p = [] then None else Some p),
     ro_approval = or_approval q, ro_steps = foldl (\<lambda>ss i. mput i fresh_step ss) [] (or_steps q), ro_order = or_steps q,
     ro_lease = None, ro_fence = 0, ro_grants = [], ro_state = RolloutOpen, ro_stamp = None\<rparr>"

definition ledger_open :: "env \<Rightarrow> string \<Rightarrow> open_request \<Rightarrow> rollout eff" where
  "ledger_open E scope q =
     eff_bind (eff_guard (ap_artifact (or_approval q) = or_artifact q) plain_error) (\<lambda>_.
     eff_bind (eff_guard (\<not> or_blocked q) plain_error) (\<lambda>_.
     eff_bind (storage_read E (\<lambda>m. mem_getDocument m scope DEPLOY_KIND (or_rollout q))) (\<lambda>existing.
       case existing of
         Some x \<Rightarrow> eff_of (some_or (rollout_of x) type_error)
       | None \<Rightarrow> ledger_put E scope (opened q))))"

section \<open>The lease\<close>

definition leased_elsewhere :: "rollout \<Rightarrow> string \<Rightarrow> int \<Rightarrow> bool" where
  "leased_elsewhere d controller now \<longleftrightarrow>
     (case ro_lease d of None \<Rightarrow> False | Some l \<Rightarrow> le_until l > now \<and> le_controller l \<noteq> controller)"

definition taken :: "rollout \<Rightarrow> string \<Rightarrow> int \<Rightarrow> rollout" where
  "taken d controller until = d\<lparr>ro_fence := ro_fence d + 1,
     ro_lease := Some \<lparr>le_controller = controller, le_token = ro_fence d + 1, le_until = until\<rparr>\<rparr>"

definition ledger_acquire :: "env \<Rightarrow> string \<Rightarrow> string \<Rightarrow> string \<Rightarrow> int \<Rightarrow> int \<Rightarrow> int option eff" where
  "ledger_acquire E scope r controller leaseMs now =
     eff_bind (ledger_load E scope r) (\<lambda>d.
       if leased_elsewhere d controller now then eff_ret None
       else eff_bind (eff_exit (ledger_put E scope (taken d controller (now + leaseMs)))) (\<lambda>saved.
         case saved of Inr d' \<Rightarrow> eff_ret (Some (ro_fence d + 1)) | Inl e \<Rightarrow> eff_ret None))"

definition leased_to :: "rollout \<Rightarrow> string \<Rightarrow> int \<Rightarrow> bool" where
  "leased_to d controller token \<longleftrightarrow>
     (case ro_lease d of None \<Rightarrow> False | Some l \<Rightarrow> le_token l = token \<and> le_controller l = controller)"

definition renewed :: "rollout \<Rightarrow> string \<Rightarrow> int \<Rightarrow> int \<Rightarrow> rollout" where
  "renewed d controller token until = d\<lparr>ro_lease := Some \<lparr>le_controller = controller, le_token = token, le_until = until\<rparr>\<rparr>"

definition ledger_renew :: "env \<Rightarrow> string \<Rightarrow> string \<Rightarrow> string \<Rightarrow> int \<Rightarrow> int \<Rightarrow> int \<Rightarrow> bool eff" where
  "ledger_renew E scope r controller token leaseMs now =
     eff_bind (ledger_load E scope r) (\<lambda>d.
       if \<not> leased_to d controller token then eff_ret False
       else eff_bind (eff_exit (ledger_put E scope (renewed d controller token (now + leaseMs)))) (\<lambda>saved.
         case saved of Inr d' \<Rightarrow> eff_ret True | Inl e \<Rightarrow> eff_ret False))"

definition ledger_guard :: "rollout \<Rightarrow> int \<Rightarrow> int \<Rightarrow> unit res" where
  "ledger_guard d token now =
     (case ro_lease d of
        None \<Rightarrow> Inl stale_controller
      | Some l \<Rightarrow> if le_token l \<noteq> token \<or> le_until l \<le> now then Inl stale_controller else Inr ())"

section \<open>Steps\<close>

text \<open>Every earlier step of the plan is done.\<close>

fun earlier_done :: "rollout \<Rightarrow> string \<Rightarrow> string list \<Rightarrow> unit res" where
  "earlier_done d s [] = Inr ()"
| "earlier_done d s (p # ps) =
     (if p = s then Inr ()
      else case map_of (ro_steps d) p of
        None \<Rightarrow> Inl type_error
      | Some st \<Rightarrow> if rs_status st \<noteq> StepDone then Inl plain_error else earlier_done d s ps)"

definition with_step :: "string \<Rightarrow> step_state \<Rightarrow> rollout \<Rightarrow> rollout" where
  "with_step s st d = d\<lparr>ro_steps := mput s st (ro_steps d)\<rparr>"

text \<open>A change of a step of the document; every document of a rollout has all its steps.\<close>

definition change_step :: "string \<Rightarrow> (step_state \<Rightarrow> step_state) \<Rightarrow> rollout \<Rightarrow> rollout res" where
  "change_step s f d = bind_res (some_or (map_of (ro_steps d) s) type_error) (\<lambda>st. Inr (with_step s (f st) d))"

definition begun :: "rollout \<Rightarrow> int \<Rightarrow> step_state \<Rightarrow> step_state" where
  "begun d token st = st\<lparr>rs_status := StepRunning, rs_attempts := rs_attempts st + 1,
     rs_by := map_option le_controller (ro_lease d), rs_token := Some token\<rparr>"

definition checkpointed :: "jsval \<Rightarrow> step_state \<Rightarrow> step_state" where
  "checkpointed c st = st\<lparr>rs_checkpoint := c\<rparr>"

definition finished :: "jsval \<Rightarrow> step_state \<Rightarrow> step_state" where
  "finished v st = st\<lparr>rs_status := StepDone, rs_result := v\<rparr>"

definition failed :: "step_state \<Rightarrow> step_state" where
  "failed st = st\<lparr>rs_status := StepFailed\<rparr>"

text \<open>\<open>save\<close> of the context a step runs in.\<close>

definition ledger_save :: "env \<Rightarrow> string \<Rightarrow> string \<Rightarrow> string \<Rightarrow> int \<Rightarrow> int eff \<Rightarrow> jsval \<Rightarrow> unit eff" where
  "ledger_save E scope r s token now c =
     eff_bind (ledger_load E scope r) (\<lambda>cur.
     eff_bind now (\<lambda>t.
     eff_bind (eff_of (ledger_guard cur token t)) (\<lambda>_.
     eff_bind (eff_of (change_step s (checkpointed c) cur)) (\<lambda>d.
     eff_bind (ledger_put E scope d) (\<lambda>_. eff_ret ())))))"

definition holds_token :: "rollout \<Rightarrow> int \<Rightarrow> bool" where
  "holds_token d token \<longleftrightarrow> (case ro_lease d of None \<Rightarrow> False | Some l \<Rightarrow> le_token l = token)"

text \<open>What becomes of a step whose action failed: unless the lease was lost, the failure is recorded.\<close>

definition step_failed :: "env \<Rightarrow> string \<Rightarrow> string \<Rightarrow> string \<Rightarrow> int \<Rightarrow> exn \<Rightarrow> (jsval \<times> bool) eff" where
  "step_failed E scope r s token e =
     (if e = stale_controller then eff_fail e
      else eff_bind (ledger_load E scope r) (\<lambda>cur.
           eff_bind (if holds_token cur token
               then eff_bind (eff_of (change_step s failed cur)) (\<lambda>d. eff_bind (ledger_put E scope d) (\<lambda>_. eff_ret ()))
               else eff_ret ()) (\<lambda>_.
             eff_fail e)))"

definition step_finished :: "env \<Rightarrow> string \<Rightarrow> string \<Rightarrow> string \<Rightarrow> int \<Rightarrow> int eff \<Rightarrow> jsval \<Rightarrow> (jsval \<times> bool) eff" where
  "step_finished E scope r s token now v =
     eff_bind (ledger_load E scope r) (\<lambda>cur.
     eff_bind now (\<lambda>t.
     eff_bind (eff_of (ledger_guard cur token t)) (\<lambda>_.
     eff_bind (eff_of (change_step s (finished v) cur)) (\<lambda>d.
     eff_bind (ledger_put E scope d) (\<lambda>_. eff_ret (v, False))))))"

text \<open>
  \<open>run\<close>: the action gets the last checkpoint and a way to save the next one; the result comes with
  whether the step was skipped.
\<close>

definition ledger_run ::
    "env \<Rightarrow> string \<Rightarrow> string \<Rightarrow> string \<Rightarrow> int \<Rightarrow> (jsval \<Rightarrow> (jsval \<Rightarrow> unit eff) \<Rightarrow> jsval eff) \<Rightarrow> int eff \<Rightarrow> (jsval \<times> bool) eff" where
  "ledger_run E scope r s token action now =
     eff_bind (ledger_load E scope r) (\<lambda>d.
     eff_bind now (\<lambda>t.
     eff_bind (eff_of (ledger_guard d token t)) (\<lambda>_.
     eff_bind (eff_of (some_or (map_of (ro_steps d) s) plain_error)) (\<lambda>st.
     if rs_status st = StepDone then eff_ret (rs_result st, True)
     else eff_bind (eff_of (earlier_done d s (ro_order d))) (\<lambda>_.
     eff_bind (ledger_put E scope (with_step s (begun d token st) d)) (\<lambda>_.
     eff_bind (eff_exit (action (rs_checkpoint st) (ledger_save E scope r s token now))) (\<lambda>x.
       case x of
         Inl e \<Rightarrow> step_failed E scope r s token e
       | Inr v \<Rightarrow> step_finished E scope r s token now v)))))))"

section \<open>Grants, rollback, completion\<close>

definition grant_recorded :: "string \<Rightarrow> rollout \<Rightarrow> rollout" where
  "grant_recorded g d = d\<lparr>ro_grants := ro_grants d @ [g]\<rparr>"

definition activateGrantOnce :: "env \<Rightarrow> string \<Rightarrow> string \<Rightarrow> int \<Rightarrow> string \<Rightarrow> unit eff \<Rightarrow> int \<Rightarrow> bool eff" where
  "activateGrantOnce E scope r token g activate now =
     eff_bind (ledger_load E scope r) (\<lambda>d.
     eff_bind (eff_of (ledger_guard d token now)) (\<lambda>_.
     if g \<in> set (ro_grants d) then eff_ret False
     else eff_bind activate (\<lambda>_.
     eff_bind (ledger_load E scope r) (\<lambda>cur.
     eff_bind (eff_of (ledger_guard cur token now)) (\<lambda>_.
     eff_bind (ledger_put E scope (grant_recorded g cur)) (\<lambda>_. eff_ret True))))))"

text \<open>The grants that are activated again, and those the authority refuses.\<close>

fun reactivate :: "(string \<Rightarrow> bool) \<Rightarrow> (string \<Rightarrow> unit eff) \<Rightarrow> string list \<Rightarrow> (string list \<times> string list) eff" where
  "reactivate revoked activate [] = eff_ret ([], [])"
| "reactivate revoked activate (g # gs) =
     (if revoked g then eff_bind (reactivate revoked activate gs) (\<lambda>(xs, ys). eff_ret (xs, g # ys))
      else eff_bind (activate g) (\<lambda>_. eff_bind (reactivate revoked activate gs) (\<lambda>(xs, ys). eff_ret (g # xs, ys))))"

definition rolled_back :: "rollout \<Rightarrow> rollout" where
  "rolled_back d = d\<lparr>ro_state := RolloutBack\<rparr>"

definition ledger_rollback ::
    "env \<Rightarrow> string \<Rightarrow> string \<Rightarrow> int \<Rightarrow> string list \<Rightarrow> (string \<Rightarrow> bool) \<Rightarrow> (string \<Rightarrow> unit eff) \<Rightarrow> int \<Rightarrow>
      (string list \<times> string list) eff" where
  "ledger_rollback E scope r token grants revoked activate now =
     eff_bind (ledger_load E scope r) (\<lambda>d.
     eff_bind (eff_of (ledger_guard d token now)) (\<lambda>_.
     eff_bind (reactivate revoked activate grants) (\<lambda>x.
     eff_bind (ledger_load E scope r) (\<lambda>cur.
     eff_bind (eff_of (ledger_guard cur token now)) (\<lambda>_.
     eff_bind (ledger_put E scope (rolled_back cur)) (\<lambda>_. eff_ret x))))))"

definition step_done :: "rollout \<Rightarrow> string \<Rightarrow> bool" where
  "step_done d s \<longleftrightarrow> (case map_of (ro_steps d) s of None \<Rightarrow> False | Some st \<Rightarrow> rs_status st = StepDone)"

definition unfinished :: "rollout \<Rightarrow> string list res" where
  "unfinished d = (if list_all (\<lambda>s. map_of (ro_steps d) s \<noteq> None) (ro_order d)
     then Inr (filter (\<lambda>s. \<not> step_done d s) (ro_order d)) else Inl type_error)"

definition completed :: "rollout \<Rightarrow> rollout" where
  "completed d = d\<lparr>ro_state := RolloutComplete, ro_lease := None\<rparr>"

definition ledger_complete :: "env \<Rightarrow> string \<Rightarrow> string \<Rightarrow> int \<Rightarrow> int \<Rightarrow> unit eff" where
  "ledger_complete E scope r token now =
     eff_bind (ledger_load E scope r) (\<lambda>d.
     eff_bind (eff_of (ledger_guard d token now)) (\<lambda>_.
     eff_bind (eff_of (unfinished d)) (\<lambda>pending.
     eff_bind (eff_guard (pending = []) plain_error) (\<lambda>_.
     eff_bind (ledger_put E scope (completed d)) (\<lambda>_. eff_ret ())))))"

definition ledger_status :: "env \<Rightarrow> string \<Rightarrow> string \<Rightarrow> rollout eff" where
  "ledger_status E scope r = ledger_load E scope r"

end
