(* ===== verification/Rollout_Machine.thy ===== *)
theory Rollout_Machine
  imports Rollout
begin

text \<open>
  The abstract machine of a rollout: the moves a ledger may make, each labelled with the token it is
  made under. A controller may only move while it holds the lease; who lost it never moves again.
\<close>

datatype ledger_act =
    ActTake int string int
  | ActRenew int
  | ActBegin int string
  | ActCheckpoint int string
  | ActFinish int string jsval
  | ActFail int string
  | ActGrant int string
  | ActBack int
  | ActComplete int

fun act_token :: "ledger_act \<Rightarrow> int" where
  "act_token (ActTake k c now) = k"
| "act_token (ActRenew k) = k"
| "act_token (ActBegin k s) = k"
| "act_token (ActCheckpoint k s) = k"
| "act_token (ActFinish k s v) = k"
| "act_token (ActFail k s) = k"
| "act_token (ActGrant k g) = k"
| "act_token (ActBack k) = k"
| "act_token (ActComplete k) = k"

definition step_running :: "rollout \<Rightarrow> string \<Rightarrow> bool" where
  "step_running d s \<longleftrightarrow> (\<exists>st. map_of (ro_steps d) s = Some st \<and> rs_status st = StepRunning)"

inductive ledger_move :: "ledger_act \<Rightarrow> rollout \<Rightarrow> rollout \<Rightarrow> bool" where
  take: "\<not> leased_elsewhere d c now \<Longrightarrow> ledger_move (ActTake (ro_fence d + 1) c now) d (taken d c until)"
| renew: "leased_to d c k \<Longrightarrow> ledger_move (ActRenew k) d (renewed d c k until)"
| start: "holds_token d k \<Longrightarrow> map_of (ro_steps d) s = Some st \<Longrightarrow> rs_status st \<noteq> StepDone \<Longrightarrow>
    earlier_done d s (ro_order d) = Inr () \<Longrightarrow> ledger_move (ActBegin k s) d (with_step s (begun d k st) d)"
| checkpoint: "holds_token d k \<Longrightarrow> map_of (ro_steps d) s = Some st \<Longrightarrow> rs_status st = StepRunning \<Longrightarrow>
    ledger_move (ActCheckpoint k s) d (with_step s (checkpointed c st) d)"
| finish: "holds_token d k \<Longrightarrow> map_of (ro_steps d) s = Some st \<Longrightarrow> rs_status st = StepRunning \<Longrightarrow>
    ledger_move (ActFinish k s v) d (with_step s (finished v st) d)"
| fail: "holds_token d k \<Longrightarrow> map_of (ro_steps d) s = Some st \<Longrightarrow> rs_status st = StepRunning \<Longrightarrow>
    ledger_move (ActFail k s) d (with_step s (failed st) d)"
| grant: "holds_token d k \<Longrightarrow> ledger_move (ActGrant k g) d (grant_recorded g d)"
| revert: "holds_token d k \<Longrightarrow> ledger_move (ActBack k) d (rolled_back d)"
| complete: "holds_token d k \<Longrightarrow> unfinished d = Inr [] \<Longrightarrow> ledger_move (ActComplete k) d (completed d)"

inductive_cases take_moveE: "ledger_move (ActTake k c now) d d'"
inductive_cases finish_moveE: "ledger_move (ActFinish k s v) d d'"

definition moves :: "ledger_act set \<Rightarrow> rollout \<Rightarrow> rollout \<Rightarrow> bool" where
  "moves K = (\<lambda>a b. \<exists>x\<in>K. ledger_move x a b)\<^sup>*\<^sup>*"

lemma moves_refl [simp]: "moves K a a"
  by (simp add: moves_def)

lemma moves_trans: "moves K a b \<Longrightarrow> moves K b c \<Longrightarrow> moves K a c"
  by (simp add: moves_def)

lemma moves_one: "ledger_move x a b \<Longrightarrow> x \<in> K \<Longrightarrow> moves K a b"
  unfolding moves_def by blast

lemma moves_mono: "moves K a b \<Longrightarrow> K \<subseteq> L \<Longrightarrow> moves L a b"
  unfolding moves_def by (erule rtranclp_mono [THEN predicate2D, rotated]) blast

lemma moves_induct [consumes 1, case_names refl move]:
  assumes "moves K a b" "P a" "\<And>b c x. moves K a b \<Longrightarrow> P b \<Longrightarrow> x \<in> K \<Longrightarrow> ledger_move x b c \<Longrightarrow> P c"
  shows "P b"
  using assms(1) unfolding moves_def
proof (induction rule: rtranclp_induct)
  case (step b c)
  then show ?case using assms(3) unfolding moves_def by blast
qed (rule assms(2))

lemma moves_invariant:
  assumes "moves K a b" "P a" "\<And>b c x. P b \<Longrightarrow> x \<in> K \<Longrightarrow> ledger_move x b c \<Longrightarrow> P c"
  shows "P b"
  using assms by (rule moves_induct)

section \<open>What stays\<close>

lemmas change_defs = taken_def renewed_def with_step_def grant_recorded_def rolled_back_def completed_def

definition step_final :: "rollout \<Rightarrow> rollout \<Rightarrow> string \<Rightarrow> bool" where
  "step_final a b s \<longleftrightarrow> (\<forall>st. map_of (ro_steps a) s = Some st \<longrightarrow> rs_status st = StepDone \<longrightarrow> map_of (ro_steps b) s = Some st)"

definition rollout_grows :: "rollout \<Rightarrow> rollout \<Rightarrow> bool" where
  "rollout_grows a b \<longleftrightarrow> ro_id b = ro_id a \<and> ro_artifact b = ro_artifact a \<and> ro_previous b = ro_previous a \<and>
     ro_approval b = ro_approval a \<and> ro_order b = ro_order a \<and> dom (map_of (ro_steps b)) = dom (map_of (ro_steps a)) \<and>
     ro_fence a \<le> ro_fence b \<and> (\<exists>gs. ro_grants b = ro_grants a @ gs) \<and> (\<forall>s. step_final a b s)"

lemma rollout_grows_refl [simp]: "rollout_grows a a"
  by (simp add: rollout_grows_def step_final_def)

lemma step_final_trans: "step_final a b s \<Longrightarrow> step_final b c s \<Longrightarrow> step_final a c s"
  by (simp add: step_final_def)

lemma rollout_grows_trans:
  assumes "rollout_grows a b" "rollout_grows b c"
  shows "rollout_grows a c"
proof -
  have "step_final a c s" for s using assms step_final_trans unfolding rollout_grows_def by blast
  moreover obtain gs hs where "ro_grants b = ro_grants a @ gs" "ro_grants c = ro_grants b @ hs"
    using assms unfolding rollout_grows_def by blast
  ultimately show ?thesis using assms by (simp add: rollout_grows_def)
qed

lemma with_step_grows:
  "map_of (ro_steps d) s = Some st \<Longrightarrow> rs_status st \<noteq> StepDone \<Longrightarrow> rollout_grows d (with_step s st' d)"
  by (auto simp: rollout_grows_def step_final_def with_step_def map_of_mput)

lemma same_steps_grow:
  "ro_steps b = ro_steps a \<Longrightarrow> ro_id b = ro_id a \<Longrightarrow> ro_artifact b = ro_artifact a \<Longrightarrow> ro_previous b = ro_previous a \<Longrightarrow>
   ro_approval b = ro_approval a \<Longrightarrow> ro_order b = ro_order a \<Longrightarrow> ro_fence a \<le> ro_fence b \<Longrightarrow>
   \<exists>gs. ro_grants b = ro_grants a @ gs \<Longrightarrow> rollout_grows a b"
  by (simp add: rollout_grows_def step_final_def)

lemma move_grows: "ledger_move x a b \<Longrightarrow> rollout_grows a b"
  by (cases rule: ledger_move.cases, assumption)
     (auto intro!: with_step_grows intro: same_steps_grow simp: taken_def renewed_def grant_recorded_def rolled_back_def completed_def)

lemma moves_grow: "moves K a b \<Longrightarrow> rollout_grows a b"
  by (induction rule: moves_induct) (auto dest: move_grows intro: rollout_grows_trans)

section \<open>Leases\<close>

definition lease_known :: "rollout \<Rightarrow> bool" where
  "lease_known d \<longleftrightarrow> (\<forall>k. holds_token d k \<longrightarrow> k \<le> ro_fence d)"

definition lost :: "int \<Rightarrow> rollout \<Rightarrow> bool" where
  "lost k d \<longleftrightarrow> k \<le> ro_fence d \<and> \<not> holds_token d k"

lemma holds_one: "holds_token d j \<Longrightarrow> holds_token d k \<Longrightarrow> j = k"
  by (auto simp: holds_token_def split: option.splits)

lemma leased_holds: "leased_to d c k \<Longrightarrow> holds_token d k"
  by (auto simp: leased_to_def holds_token_def split: option.splits)

text \<open>A move is made by the holder of the lease, who keeps it unless it completes; or it takes the lease.\<close>

lemma move_holder:
  assumes "ledger_move x a b"
  obtains (take) "act_token x = ro_fence a + 1" "ro_fence b = ro_fence a + 1" "\<And>j. holds_token b j \<longleftrightarrow> j = ro_fence a + 1"
  | (held) "holds_token a (act_token x)" "ro_fence b = ro_fence a" "\<And>j. holds_token b j \<Longrightarrow> j = act_token x"
  using assms
proof (cases rule: ledger_move.cases)
  case take
  then show thesis by (intro that(1)) (auto simp: taken_def holds_token_def)
next
  case renew
  then show thesis by (intro that(2)) (auto simp: renewed_def leased_holds, simp_all add: holds_token_def)
qed (intro that(2); auto simp: with_step_def grant_recorded_def rolled_back_def completed_def holds_token_def split: option.splits)+

lemma move_lease_known: "ledger_move x a b \<Longrightarrow> lease_known a \<Longrightarrow> lease_known b"
  by (erule move_holder) (auto simp: lease_known_def)

lemma move_lost: "ledger_move x a b \<Longrightarrow> lost k a \<Longrightarrow> lost k b"
  by (erule move_holder) (auto simp: lost_def)

lemma moves_lost: "moves K a b \<Longrightarrow> lost k a \<Longrightarrow> lost k b"
  by (erule moves_invariant) (auto dest: move_lost)

text \<open>
  While a controller holds the lease nobody else moves: at the end it has lost it, or all moves in
  between were its own.
\<close>

lemma exclusive:
  assumes "moves (- {x. act_token x = k} \<union> K) a b" "holds_token a k" "lease_known a"
  shows "lost k b \<or> (holds_token b k \<and> lease_known b \<and> moves {x\<in>K. act_token x = k} a b)"
  using assms(1)
proof (induction rule: moves_induct)
  case (move b c x)
  show ?case
  proof (cases "lost k b")
    case True
    then show ?thesis using move_lost move.hyps(3) by blast
  next
    case False
    with move.IH have b: "holds_token b k" "lease_known b" "moves {x\<in>K. act_token x = k} a b" by auto
    have known: "lease_known c" using move_lease_known move.hyps(3) b(2) by blast
    from move.hyps(3) show ?thesis
    proof (cases rule: move_holder)
      case take
      then show ?thesis using b(1,2) by (auto simp: lost_def lease_known_def)
    next
      case held
      then have k: "act_token x = k" using holds_one b(1) by blast
      then have "moves {x\<in>K. act_token x = k} a c" using moves_trans [OF b(3) moves_one [OF move.hyps(3)]] move.hyps(2) by simp
      moreover have "lost k c \<or> holds_token c k" using held(2) b(1,2) by (auto simp: lost_def lease_known_def)
      ultimately show ?thesis using known by blast
    qed
  qed
qed (use assms(2,3) in simp)

text \<open>The moves that leave a running step running.\<close>

definition leaves_running :: "string \<Rightarrow> ledger_act set" where
  "leaves_running s = {x. \<exists>k g. x = ActCheckpoint k s \<or> x = ActGrant k g \<or> x = ActRenew k}"

lemma running_kept: "moves K a b \<Longrightarrow> K \<subseteq> leaves_running s \<Longrightarrow> step_running a s \<Longrightarrow> step_running b s"
proof (induction rule: moves_induct)
  case (move b c x)
  then have "x \<in> leaves_running s" "step_running b s" by auto
  with move.hyps(3) show ?case
    by (cases rule: ledger_move.cases)
       (auto simp: leaves_running_def step_running_def renewed_def with_step_def grant_recorded_def checkpointed_def map_of_mput)
qed

section \<open>Reachable rollouts\<close>

definition open_ok :: "open_request \<Rightarrow> bool" where
  "open_ok q \<longleftrightarrow> ap_artifact (or_approval q) = or_artifact q \<and> \<not> or_blocked q"

definition reachable :: "string \<Rightarrow> rollout \<Rightarrow> bool" where
  "reachable r d \<longleftrightarrow> (\<exists>q. open_ok q \<and> or_rollout q = r \<and> moves UNIV (opened q) d)"

text \<open>
  What holds of every rollout: the approval names its artifact, the lease is not newer than the fence,
  no step has begun before the earlier ones are done, and a complete rollout has all steps done.
\<close>

definition rollout_ok :: "string \<Rightarrow> rollout \<Rightarrow> bool" where
  "rollout_ok r d \<longleftrightarrow> ro_id d = r \<and> ap_artifact (ro_approval d) = ro_artifact d \<and> lease_known d \<and> 0 \<le> ro_fence d \<and>
     dom (map_of (ro_steps d)) = set (ro_order d) \<and>
     (\<forall>s st. map_of (ro_steps d) s = Some st \<longrightarrow> rs_status st \<noteq> StepPending \<longrightarrow> earlier_done d s (ro_order d) = Inr ()) \<and>
     (ro_state d = RolloutComplete \<longrightarrow> list_all (step_done d) (ro_order d))"

lemma fresh_steps: "map_of (foldl (\<lambda>ss i. mput i fresh_step ss) ss0 xs) s =
    (if s \<in> set xs then Some fresh_step else map_of ss0 s)"
  by (induction xs arbitrary: ss0) (auto simp: map_of_mput)

lemma opened_step: "map_of (ro_steps (opened q)) s = (if s \<in> set (or_steps q) then Some fresh_step else None)"
  by (simp add: opened_def fresh_steps)

lemma fresh_pending: "rs_status fresh_step = StepPending"
  by (simp add: fresh_step_def)

lemma opened_members:
  "ro_id (opened q) = or_rollout q" "ro_artifact (opened q) = or_artifact q" "ro_approval (opened q) = or_approval q"
  "ro_order (opened q) = or_steps q" "ro_fence (opened q) = 0" "ro_state (opened q) = RolloutOpen" "\<not> holds_token (opened q) k"
  by (simp_all add: opened_def holds_token_def)

lemma opened_ok: "open_ok q \<Longrightarrow> rollout_ok (or_rollout q) (opened q)"
  by (auto simp: rollout_ok_def opened_members open_ok_def opened_step lease_known_def fresh_pending split: if_splits)

lemma earlier_done_mono:
  "earlier_done a s ps = Inr () \<Longrightarrow> (\<And>p. step_final a b p) \<Longrightarrow> earlier_done b s ps = Inr ()"
  by (induction ps) (auto simp: step_final_def split: if_splits option.splits)

lemma step_done_final: "step_done a s \<Longrightarrow> step_final a b s \<Longrightarrow> step_done b s"
  by (auto simp: step_done_def step_final_def split: option.splits)

lemma unfinished_none: "unfinished d = Inr [] \<Longrightarrow> list_all (step_done d) (ro_order d)"
  by (auto simp: unfinished_def list_all_iff filter_empty_conv split: if_splits)

lemma move_begins:
  assumes "ledger_move x a b" "map_of (ro_steps b) s = Some st" "rs_status st \<noteq> StepPending"
  shows "(\<exists>st0. map_of (ro_steps a) s = Some st0 \<and> rs_status st0 \<noteq> StepPending) \<or> earlier_done a s (ro_order a) = Inr ()"
  using assms
  by (cases rule: ledger_move.cases)
     (auto simp: taken_def renewed_def with_step_def grant_recorded_def rolled_back_def completed_def map_of_mput split: if_splits)

lemma move_completes:
  assumes "ledger_move x a b" "ro_state b = RolloutComplete"
  shows "ro_state a = RolloutComplete \<or> list_all (step_done a) (ro_order a)"
  using assms
  by (cases rule: ledger_move.cases)
     (auto simp: taken_def renewed_def with_step_def grant_recorded_def rolled_back_def completed_def dest: unfinished_none)

lemma move_ok:
  assumes "ledger_move x a b" "rollout_ok r a"
  shows "rollout_ok r b"
proof -
  note g = move_grows [OF assms(1)]
  have final: "step_final a b s" for s using g by (simp add: rollout_grows_def)
  have "earlier_done b s (ro_order b) = Inr ()" if "map_of (ro_steps b) s = Some st" "rs_status st \<noteq> StepPending" for s st
  proof -
    have "earlier_done a s (ro_order a) = Inr ()"
      using move_begins [OF assms(1) that] assms(2) unfolding rollout_ok_def by blast
    then show ?thesis using earlier_done_mono [OF _ final] g by (simp add: rollout_grows_def)
  qed
  moreover have "list_all (step_done b) (ro_order b)" if "ro_state b = RolloutComplete"
  proof -
    have "list_all (step_done a) (ro_order a)"
      using move_completes [OF assms(1) that] assms(2) unfolding rollout_ok_def by blast
    then show ?thesis using step_done_final [OF _ final] g by (auto simp: list_all_iff rollout_grows_def)
  qed
  moreover have "lease_known b" using move_lease_known [OF assms(1)] assms(2) by (simp add: rollout_ok_def)
  ultimately show ?thesis using g assms(2) unfolding rollout_ok_def rollout_grows_def by (metis order.trans)
qed

lemma reachable_ok: "reachable r d \<Longrightarrow> rollout_ok r d"
proof -
  assume "reachable r d"
  then obtain q where q: "open_ok q" "or_rollout q = r" "moves UNIV (opened q) d" by (auto simp: reachable_def)
  from q(3) show ?thesis by (rule moves_invariant) (use opened_ok [OF q(1)] q(2) move_ok in auto)
qed

lemma reachable_moves: "reachable r a \<Longrightarrow> moves K a b \<Longrightarrow> reachable r b"
  unfolding reachable_def using moves_trans moves_mono by (metis subset_UNIV)

end
