(* ===== verification/Memory_Correct.thy ===== *)
theory Memory_Correct
  imports Memory "HOL-Library.Multiset"
begin

text \<open>
  What the reference storage adapter guarantees: commits are all or nothing, a receipt is written
  once, tenants do not see each other's commits, an outbox lease excludes other owners, unique
  claims stay unique, effective intervals stay disjoint and hierarchies acyclic.
\<close>

section \<open>Commits are all or nothing\<close>

lemma processed_apply [simp]: "me_processed (commit_apply m p) = me_processed m"
  by (simp add: commit_apply_def apply_common_def apply_record_def Let_def)

lemma completion_step_processed: "completion_step m p = Inr m1 \<Longrightarrow> me_processed m1 = me_processed m"
  by (auto simp: completion_step_def Let_def split: option.splits if_splits)

lemma commitSync_processed: "commitSync m p = (e, m1) \<Longrightarrow> me_processed m1 = me_processed m"
  by (auto simp: commitSync_def completion_step_processed split: sum.splits)

lemma commit_plans_processed: "commit_plans m ps = (e, m1) \<Longrightarrow> me_processed m1 = me_processed m"
  by (induction m ps rule: commit_plans.induct) (auto simp: commitSync_processed split: prod.splits option.splits)

lemma rollback_restores: "me_processed m1 = me_processed m \<Longrightarrow> rollback_to m m1 = m"
  by (simp add: rollback_to_def)

lemma commitAll_fails: "commitAll m ps a r = (Some e, m1) \<Longrightarrow> m1 = m"
  by (auto simp: commitAll_def commit_plans_processed intro!: rollback_restores
      split: if_splits option.splits prod.splits)

lemma commitSync_fails: "cp_completion p = None \<Longrightarrow> commitSync m p = (Some e, m1) \<Longrightarrow> m1 = m"
  by (auto simp: commitSync_def completion_step_def split: sum.splits)

lemma mem_commit_fails: "mem_commit m p = (Some e, m1) \<Longrightarrow> m1 = m"
  by (auto simp: mem_commit_def commitAll_fails commitSync_fails split: if_splits)

text \<open>A successful commit passed every guard against durable state.\<close>

lemma commitSync_ok:
  "commitSync m p = (None, m') \<longleftrightarrow>
     (\<exists>m1. completion_step m p = Inr m1 \<and> commit_guards m1 p = Inr () \<and> m' = commit_apply m1 p)"
  by (auto simp: commitSync_def split: sum.splits)

lemma mem_commit_ok:
  "mem_commit m p = (None, m') \<longleftrightarrow> commitSync m p = (None, m')"
  by (auto simp: mem_commit_def commitAll_def split: prod.splits option.splits)

lemma completion_step_parts:
  "completion_step m p = Inr m1 \<Longrightarrow> me_tables m1 = me_tables m \<and> me_claims m1 = me_claims m \<and>
     me_audits m1 = me_audits m \<and> me_outbox m1 = me_outbox m \<and> me_receipts m1 = me_receipts m"
  by (auto simp: completion_step_def Let_def split: option.splits if_splits)

lemma mem_table_cong: "me_tables m1 = me_tables m \<Longrightarrow> mem_table m1 = mem_table m"
  by (simp add: mem_table_def fun_eq_iff)

section \<open>Receipts\<close>

lemma receipts_apply:
  "me_receipts (commit_apply m p) = (case cp_receipt p of None \<Rightarrow> me_receipts m
     | Some rc \<Rightarrow> mput (receipt_key p rc) rc (me_receipts m))"
  by (simp add: commit_apply_def apply_common_def apply_record_def Let_def split: option.split)

lemma receipts_kept:
  assumes "mem_commit m p = (e, m')" "map_of (me_receipts m) k = Some rc"
  shows "map_of (me_receipts m') k = Some rc"
proof (cases e)
  case None
  with assms(1) obtain m1 where m1: "completion_step m p = Inr m1" "commit_guards m1 p = Inr ()" "m' = commit_apply m1 p"
    by (auto simp: mem_commit_ok commitSync_ok)
  have r: "me_receipts m1 = me_receipts m" using completion_step_parts [OF m1(1)] by simp
  have "cp_receipt p = Some rd \<Longrightarrow> receipt_key p rd \<noteq> k" for rd
    using m1(2) assms(2) by (auto simp: commit_guards_def receipt_guard_def res_simps mhas_iff r)
  then show ?thesis using assms(2) by (auto simp: m1(3) receipts_apply r split: option.splits)
next
  case (Some x)
  with assms show ?thesis using mem_commit_fails by blast
qed

fun run_commits :: "memory \<Rightarrow> commit_plan list \<Rightarrow> memory" where
  "run_commits m [] = m"
| "run_commits m (p # ps) = run_commits (snd (mem_commit m p)) ps"

lemma run_receipts_kept:
  "map_of (me_receipts m) k = Some rc \<Longrightarrow> map_of (me_receipts (run_commits m ps)) k = Some rc"
  by (induction m ps rule: run_commits.induct) (auto intro: receipts_kept prod.collapse [symmetric])

lemma receipt_written:
  "mem_commit m p = (None, m') \<Longrightarrow> cp_receipt p = Some rc \<Longrightarrow> map_of (me_receipts m') (receipt_key p rc) = Some rc"
  by (auto simp: mem_commit_ok commitSync_ok receipts_apply)

lemma receipt_refuses:
  assumes "map_of (me_receipts m) (receipt_key q rq) \<noteq> None" "cp_receipt q = Some rq"
  shows "\<exists>e. mem_commit m q = (Some e, m)"
proof -
  have "fst (mem_commit m q) \<noteq> None"
  proof
    assume "fst (mem_commit m q) = None"
    then obtain m' where "mem_commit m q = (None, m')" by (cases "mem_commit m q") auto
    then obtain m1 where "completion_step m q = Inr m1" "commit_guards m1 q = Inr ()"
      by (auto simp: mem_commit_ok commitSync_ok)
    with assms completion_step_parts [of m q m1] show False
      by (auto simp: commit_guards_def receipt_guard_def res_simps mhas_iff)
  qed
  then obtain e m' where "mem_commit m q = (Some e, m')" by (cases "mem_commit m q") auto
  with mem_commit_fails [OF this] show ?thesis by auto
qed

section \<open>Tenants\<close>

definition plain_text :: "string \<Rightarrow> bool" where
  "plain_text s \<longleftrightarrow> CHR ''|'' \<notin> set s"

lemma split_plain:
  "plain_text a \<Longrightarrow> plain_text c \<Longrightarrow> a @ CHR ''|'' # b = c @ CHR ''|'' # d \<longleftrightarrow> a = c \<and> b = d"
proof (induction a arbitrary: c)
  case Nil
  then show ?case by (cases c) (auto simp: plain_text_def)
next
  case (Cons x a)
  then show ?case by (cases c) (auto simp: plain_text_def)
qed

lemma key2_inj: "plain_text a \<Longrightarrow> plain_text c \<Longrightarrow> key2 a b = key2 c d \<longleftrightarrow> a = c \<and> b = d"
  using split_plain [of a c b d] by (simp add: key2_def)

lemma key3_tenant: "plain_text a \<Longrightarrow> plain_text d \<Longrightarrow> key3 a b c = key3 d e f \<Longrightarrow> a = d"
  using split_plain [of a d] by (simp add: key3_def)

lemma mem_table_apply:
  "mem_table (commit_apply m p) t r =
     (if cp_kind p \<noteq> PkPublish \<and> key2 t (r_id r) = key2 (cp_tenant p) (r_id (cp_resource p)) then
        (let old = mem_table m (cp_tenant p) (cp_resource p)
         in if cp_hardDelete p then mdel (cp_id p) old else mput (cp_id p) (cp_after p) old)
      else mem_table m t r)"
  by (auto simp: commit_apply_def apply_common_def apply_record_def mem_table_def Let_def)

lemma apply_claims_other:
  "(\<And>a. k \<noteq> key2 tenant a) \<Longrightarrow> map_of (foldl (apply_claim tenant i) claims cs) k = map_of claims k"
proof (induction cs arbitrary: claims)
  case Nil
  then show ?case by simp
next
  case (Cons c cs)
  have "map_of (apply_claim tenant i claims c) k = map_of claims k"
    using Cons.prems by (auto simp: apply_claim_def Let_def split: option.splits)
  with Cons show ?case by simp
qed

lemma commit_isolated:
  assumes "mem_commit m p = (e, m')" "plain_text (cp_tenant p)" "plain_text t" "t \<noteq> cp_tenant p"
  shows "mem_table m' t r = mem_table m t r"
    and "map_of (me_claims m') (key2 t c) = map_of (me_claims m) (key2 t c)"
    and "mem_getReceipt m' t op k = mem_getReceipt m t op k"
proof -
  have "mem_table m' t r = mem_table m t r \<and> map_of (me_claims m') (key2 t c) = map_of (me_claims m) (key2 t c)
      \<and> mem_getReceipt m' t op k = mem_getReceipt m t op k"
  proof (cases e)
    case None
    with assms(1) obtain m1 where m1: "completion_step m p = Inr m1" "m' = commit_apply m1 p"
      by (auto simp: mem_commit_ok commitSync_ok)
    note parts = completion_step_parts [OF m1(1)]
    have k: "key2 t x \<noteq> key2 (cp_tenant p) y" for x y using key2_inj [OF assms(3,2)] assms(4) by simp
    have "mem_table m' t r = mem_table m1 t r" unfolding m1(2) mem_table_apply using k by simp
    moreover have "map_of (me_claims m') (key2 t c) = map_of (me_claims m1) (key2 t c)"
      using k by (simp add: m1(2) commit_apply_def apply_common_def apply_record_def Let_def apply_claims_other)
    moreover have "mem_getReceipt m' t op k = mem_getReceipt m1 t op k"
      using key3_tenant [OF assms(3,2)] assms(4)
      by (auto simp: mem_getReceipt_def m1(2) receipts_apply receipt_key_def split: option.splits)
    ultimately show ?thesis using parts mem_table_cong [of m1 m] by (simp add: mem_getReceipt_def)
  next
    case (Some x)
    with assms(1) mem_commit_fails show ?thesis by blast
  qed
  then show "mem_table m' t r = mem_table m t r"
    and "map_of (me_claims m') (key2 t c) = map_of (me_claims m) (key2 t c)"
    and "mem_getReceipt m' t op k = mem_getReceipt m t op k" by auto
qed

section \<open>Outbox leases\<close>

definition row_of :: "memory \<Rightarrow> outbox_ref \<Rightarrow> outbox_row option" where
  "row_of m r = List.find (row_is r) (me_outbox m)"

lemma update_row_refused:
  "(\<And>x. List.find (row_is r) rows = Some x \<Longrightarrow> f x = None) \<Longrightarrow> update_row r f rows = None"
  by (induction rows) (auto split: if_splits)

lemma update_row_accepted:
  "List.find (row_is r) rows = Some x \<Longrightarrow> f x = Some y \<Longrightarrow> row_is r y \<Longrightarrow>
     \<exists>rows'. update_row r f rows = Some rows' \<and> List.find (row_is r) rows' = Some y"
  by (induction rows) (auto split: if_splits)

lemma outbox_op_refused:
  "(\<And>x. row_of m r = Some x \<Longrightarrow> f x = None) \<Longrightarrow> outbox_op m r f = (False, m)"
  by (simp add: outbox_op_def row_of_def update_row_refused)

lemma outbox_op_accepted:
  "row_of m r = Some x \<Longrightarrow> f x = Some y \<Longrightarrow> row_is r y \<Longrightarrow>
     \<exists>m'. outbox_op m r f = (True, m') \<and> row_of m' r = Some y"
  using update_row_accepted [of r "me_outbox m" x f y] by (auto simp: outbox_op_def row_of_def)

lemma row_of_is: "row_of m r = Some x \<Longrightarrow> row_is r x"
  by (auto simp: row_of_def dest: find_SomeD)

lemma claim_row_is: "claim_row w now ms x = Some y \<Longrightarrow> row_is r y = row_is r x"
  by (auto simp: claim_row_def row_is_def split: if_splits)

lemma outboxClaim_iff:
  "fst (outboxClaim m r w now ms) \<longleftrightarrow> (\<exists>x. row_of m r = Some x \<and> claim_row w now ms x \<noteq> None)"
proof (cases "\<exists>x. row_of m r = Some x \<and> claim_row w now ms x \<noteq> None")
  case True
  then obtain x y where "row_of m r = Some x" "claim_row w now ms x = Some y" by auto
  with outbox_op_accepted [of m r x] claim_row_is row_of_is True show ?thesis
    by (fastforce simp: outboxClaim_def)
next
  case False
  then have "outbox_op m r (claim_row w now ms) = (False, m)" by (intro outbox_op_refused) auto
  with False show ?thesis by (simp add: outboxClaim_def)
qed

lemma outboxClaim_row:
  assumes "outboxClaim m r w now ms = (True, m')"
  shows "\<exists>y. row_of m' r = Some y \<and> or_status y = ObPending \<and> or_leaseOwner y = Some w \<and> or_leaseUntil y = Some (now + ms)"
proof -
  have "fst (outboxClaim m r w now ms)" using assms by simp
  then obtain x where x: "row_of m r = Some x" "claim_row w now ms x \<noteq> None" by (auto simp: outboxClaim_iff)
  then obtain y where y: "claim_row w now ms x = Some y" by auto
  have "row_is r y" using claim_row_is [OF y] row_of_is [OF x(1)] by simp
  from outbox_op_accepted [where f = "claim_row w now ms", OF x(1) y this] assms y show ?thesis
    by (auto simp: outboxClaim_def claim_row_def split: if_splits)
qed

text \<open>What other dispatchers may try on a row while a lease is held.\<close>

datatype lease_op = TryClaim string int int | TryProgress string progress

fun lease_step :: "outbox_ref \<Rightarrow> memory \<Rightarrow> lease_op \<Rightarrow> bool \<times> memory" where
  "lease_step r m (TryClaim w now ms) = outboxClaim m r w now ms"
| "lease_step r m (TryProgress w u) = outboxProgress m r w u"

text \<open>An attempt by someone else: a claim not after the lease's end, or progress under another name.\<close>

fun foreign_op :: "string \<Rightarrow> int \<Rightarrow> lease_op \<Rightarrow> bool" where
  "foreign_op owner until (TryClaim w now ms) = (now \<le> until)"
| "foreign_op owner until (TryProgress w u) = (w \<noteq> owner)"

lemma foreign_op_refused:
  assumes "row_of m r = Some x" "or_leaseOwner x = Some owner" "or_leaseUntil x = Some until" "foreign_op owner until op"
  shows "lease_step r m op = (False, m)"
  using assms by (cases op)
    (auto simp: outboxClaim_def outboxProgress_def claim_row_def progress_row_def intro!: outbox_op_refused)

fun run_lease :: "outbox_ref \<Rightarrow> memory \<Rightarrow> lease_op list \<Rightarrow> memory" where
  "run_lease r m [] = m"
| "run_lease r m (op # ops) = run_lease r (snd (lease_step r m op)) ops"

lemma run_foreign:
  assumes "row_of m r = Some x" "or_leaseOwner x = Some owner" "or_leaseUntil x = Some until"
    and "list_all (foreign_op owner until) ops"
  shows "run_lease r m ops = m"
  using assms(4)
proof (induction ops)
  case Nil
  then show ?case by simp
next
  case (Cons op ops)
  then have "lease_step r m op = (False, m)" using foreign_op_refused [OF assms(1-3)] by simp
  with Cons show ?case by simp
qed

section \<open>Pages of a list\<close>

lemma cmp_bytes_antisym: "cmp_bytes xs ys + cmp_bytes ys xs = 0"
  by (induction xs ys rule: cmp_bytes.induct) (auto simp: cmp_bytes_Nil_right)

lemma compareBytes_antisym: "compareBytes b a = - compareBytes a b"
  using cmp_bytes_antisym [of "utf8 a" "utf8 b"] by (simp add: compareBytes_def)

lemma compareBytes_gt: "compareBytes s t > 0 \<longleftrightarrow> t < s"
  using compareBytes_sgn(1) [of t s] compareBytes_antisym [of t s] by linarith

definition dirs_ok :: "int list \<Rightarrow> bool" where
  "dirs_ok dirs \<longleftrightarrow> set dirs \<subseteq> {1, - 1}"

lemma dirs_ok_list [simp]: "dirs_ok (list_dirs l)"
  by (auto simp: dirs_ok_def list_dirs_def)

lemma dirs_ok_tl [simp]: "dirs_ok dirs \<Longrightarrow> dirs_ok (tl dirs)"
  by (cases dirs) (auto simp: dirs_ok_def)

definition dir_of :: "int list \<Rightarrow> int" where
  "dir_of dirs = (case dirs of [] \<Rightarrow> 1 | d # _ \<Rightarrow> d)"

lemma dir_cases: "dirs_ok dirs \<Longrightarrow> dir_of dirs = 1 \<or> dir_of dirs = - 1"
  by (cases dirs) (auto simp: dirs_ok_def dir_of_def)

lemma cmp_keys_Cons:
  "cmp_keys dirs (a # as) (b # bs) =
     (if compareBytes a b * dir_of dirs \<noteq> 0 then compareBytes a b * dir_of dirs else cmp_keys (tl dirs) as bs)"
  by (simp add: dir_of_def Let_def)

lemma cmp_keys_antisym: "length a = length b \<Longrightarrow> cmp_keys dirs b a = - cmp_keys dirs a b"
proof (induction a b arbitrary: dirs rule: list_induct2)
  case Nil
  then show ?case by simp
next
  case (Cons x xs y ys)
  then show ?case unfolding cmp_keys_Cons using compareBytes_antisym [of y x] by simp
qed

lemma cmp_keys_zero:
  "length a = length b \<Longrightarrow> dirs_ok dirs \<Longrightarrow> cmp_keys dirs a b = 0 \<longleftrightarrow> a = b"
proof (induction a b arbitrary: dirs rule: list_induct2)
  case Nil
  then show ?case by simp
next
  case (Cons x xs y ys)
  have "compareBytes x y * dir_of dirs = 0 \<longleftrightarrow> x = y"
    using dir_cases [OF Cons.prems] compareBytes_sgn(2) [of x y] by auto
  with Cons show ?case unfolding cmp_keys_Cons by auto
qed

lemma compare_dir_trans:
  assumes "dirs_ok dirs" "compareBytes x y * dir_of dirs \<le> 0" "compareBytes y z * dir_of dirs \<le> 0"
  shows "compareBytes x z * dir_of dirs \<le> 0"
    and "compareBytes x z * dir_of dirs = 0 \<longleftrightarrow> x = y \<and> y = z"
proof -
  have le: "compareBytes s t \<le> 0 \<longleftrightarrow> s \<le> t" "0 \<le> compareBytes s t \<longleftrightarrow> t \<le> s" "compareBytes s t = 0 \<longleftrightarrow> s = t" for s t
    using compareBytes_sgn [of s t] compareBytes_gt [of s t] by (meson linorder_not_le)+
  show "compareBytes x z * dir_of dirs \<le> 0" "compareBytes x z * dir_of dirs = 0 \<longleftrightarrow> x = y \<and> y = z"
    using dir_cases [OF assms(1)] assms(2,3) by (auto simp: le)
qed

lemma cmp_keys_trans:
  "length a = length b \<Longrightarrow> length b = length c \<Longrightarrow> dirs_ok dirs \<Longrightarrow>
     cmp_keys dirs a b \<le> 0 \<Longrightarrow> cmp_keys dirs b c \<le> 0 \<Longrightarrow> cmp_keys dirs a c \<le> 0"
proof (induction a b c arbitrary: dirs rule: list_induct3)
  case Nil
  then show ?case by simp
next
  case (Cons x xs y ys z zs)
  let ?d = "dir_of dirs"
  have xy: "compareBytes x y * ?d \<le> 0" and yz: "compareBytes y z * ?d \<le> 0"
    using Cons.prems(2,3) unfolding cmp_keys_Cons by (auto split: if_splits)
  note tr = compare_dir_trans [OF Cons.prems(1) xy yz]
  show ?case
  proof (cases "compareBytes x z * ?d = 0")
    case True
    then have "x = y" "y = z" using tr(2) by auto
    with Cons show ?thesis unfolding cmp_keys_Cons by (auto split: if_splits)
  next
    case False
    with tr(1) show ?thesis unfolding cmp_keys_Cons by simp
  qed
qed

text \<open>Rows with sort keys of one length are strictly ordered by \<open>cmp_rows\<close>.\<close>

lemma cmp_rows_antisym:
  "length (fst a) = length (fst b) \<Longrightarrow> cmp_rows dirs b a = - cmp_rows dirs a b"
  using cmp_keys_antisym [of "fst a" "fst b" dirs] compareBytes_antisym [of "snd b" "snd a"]
  by (simp add: cmp_rows_def Let_def)

lemma cmp_rows_zero:
  "length (fst a) = length (fst b) \<Longrightarrow> dirs_ok dirs \<Longrightarrow> cmp_rows dirs a b = 0 \<longleftrightarrow> a = b"
  using cmp_keys_zero [of "fst a" "fst b" dirs] compareBytes_sgn(2) [of "snd a" "snd b"]
  by (auto simp: cmp_rows_def Let_def prod_eq_iff)

lemma cmp_rows_trans:
  assumes "length (fst a) = length (fst b)" "length (fst b) = length (fst c)" "dirs_ok dirs"
    and "cmp_rows dirs a b \<le> 0" "cmp_rows dirs b c \<le> 0"
  shows "cmp_rows dirs a c \<le> 0"
proof -
  have ab: "cmp_keys dirs (fst a) (fst b) \<le> 0" and bc: "cmp_keys dirs (fst b) (fst c) \<le> 0"
    using assms(4,5) by (auto simp: cmp_rows_def Let_def split: if_splits)
  note ac = cmp_keys_trans [OF assms(1-3) ab bc]
  show ?thesis
  proof (cases "cmp_keys dirs (fst a) (fst c) = 0")
    case True
    then have e: "fst a = fst c" using assms cmp_keys_zero by metis
    then have "cmp_keys dirs (fst a) (fst b) = - cmp_keys dirs (fst b) (fst c)"
      using cmp_keys_antisym [of "fst b" "fst c" dirs] assms(2) by simp
    with ab bc have "cmp_keys dirs (fst a) (fst b) = 0" "cmp_keys dirs (fst b) (fst c) = 0" by linarith+
    with assms(4,5) have "compareBytes (snd a) (snd b) \<le> 0" "compareBytes (snd b) (snd c) \<le> 0"
      by (simp_all add: cmp_rows_def)
    moreover have "dirs_ok [1]" by (simp add: dirs_ok_def)
    ultimately have "compareBytes (snd a) (snd c) \<le> 0"
      using compare_dir_trans(1) [of "[1]" "snd a" "snd b" "snd c"] by (simp add: dir_of_def)
    with True show ?thesis by (simp add: cmp_rows_def)
  next
    case False
    with ac show ?thesis by (simp add: cmp_rows_def Let_def)
  qed
qed

lemma mset_insert_by [simp]: "mset (insert_by cmp x xs) = add_mset x (mset xs)"
  by (induction cmp x xs rule: insert_by.induct) auto

lemma mset_sort_by [simp]: "mset (sort_by cmp xs) = mset xs"
  by (induction xs) (auto simp: sort_by_def)

lemma set_sort_by [simp]: "set (sort_by cmp xs) = set xs"
  using mset_sort_by [of cmp xs] by (metis set_mset_mset)

lemma length_sort_by [simp]: "length (sort_by cmp xs) = length xs"
  using mset_sort_by [of cmp xs] by (metis size_mset)

text \<open>Sorting sorts when the comparator is a total preorder on the elements.\<close>

definition preorder_on_set :: "('a \<Rightarrow> 'a \<Rightarrow> int) \<Rightarrow> 'a set \<Rightarrow> bool" where
  "preorder_on_set cmp A \<longleftrightarrow>
     (\<forall>a\<in>A. \<forall>b\<in>A. cmp a b \<le> 0 \<or> cmp b a \<le> 0) \<and>
     (\<forall>a\<in>A. \<forall>b\<in>A. \<forall>c\<in>A. cmp a b \<le> 0 \<longrightarrow> cmp b c \<le> 0 \<longrightarrow> cmp a c \<le> 0)"

lemma preorder_on_subset: "preorder_on_set cmp B \<Longrightarrow> A \<subseteq> B \<Longrightarrow> preorder_on_set cmp A"
  unfolding preorder_on_set_def by blast

lemma set_insert_by [simp]: "set (insert_by cmp x xs) = insert x (set xs)"
  by (induction cmp x xs rule: insert_by.induct) auto

lemma sorted_insert_by:
  "preorder_on_set cmp (insert x (set xs)) \<Longrightarrow> sorted_wrt (\<lambda>a b. cmp a b \<le> 0) xs \<Longrightarrow>
     sorted_wrt (\<lambda>a b. cmp a b \<le> 0) (insert_by cmp x xs)"
proof (induction cmp x xs rule: insert_by.induct)
  case (1 cmp x)
  then show ?case by simp
next
  case (2 cmp x y ys)
  have pre: "preorder_on_set cmp (insert x (set ys))" by (rule preorder_on_subset [OF 2(2)]) auto
  have t: "cmp y x \<le> 0" if "\<not> cmp x y \<le> 0" using 2(2) that by (auto simp: preorder_on_set_def)
  have "cmp x z \<le> 0" if "cmp x y \<le> 0" "z \<in> set ys" for z
  proof -
    have "cmp y z \<le> 0" using 2(3) that(2) by simp
    moreover have "x \<in> insert x (set (y # ys))" "y \<in> insert x (set (y # ys))" "z \<in> insert x (set (y # ys))"
      using that(2) by simp_all
    ultimately show ?thesis using 2(2) that(1) unfolding preorder_on_set_def by blast
  qed
  with 2 pre t show ?case by auto
qed

lemma sorted_sort_by:
  "preorder_on_set cmp (set xs) \<Longrightarrow> sorted_wrt (\<lambda>a b. cmp a b \<le> 0) (sort_by cmp xs)"
proof (induction xs)
  case Nil
  then show ?case by (simp add: sort_by_def)
next
  case (Cons x xs)
  have "preorder_on_set cmp (set xs)" by (rule preorder_on_subset [OF Cons.prems]) auto
  with Cons have "sorted_wrt (\<lambda>a b. cmp a b \<le> 0) (sort_by cmp xs)" by blast
  with Cons.prems sorted_insert_by [of cmp x "sort_by cmp xs"]
  have "sorted_wrt (\<lambda>a b. cmp a b \<le> 0) (insert_by cmp x (sort_by cmp xs))" by simp
  then show ?case by (simp add: sort_by_def)
qed

text \<open>
  The rows a list query selects, with distinct ids and sort keys of one length, come out strictly
  ordered.
\<close>

definition pageable :: "memory \<Rightarrow> string \<Rightarrow> resource \<Rightarrow> list_query \<Rightarrow> (stored_record \<Rightarrow> string list) \<Rightarrow> bool" where
  "pageable m t r q sk \<longleftrightarrow> distinct (map (\<lambda>rcd. js_string (oget rcd ''id'')) (list_rows m t r q)) \<and>
     list_all (\<lambda>rcd. length (sk rcd) = length (l_order (lq_list q))) (list_rows m t r q)"

lemma list_keyed_strict:
  assumes "pageable m t r q sk"
  shows "sorted_wrt (\<lambda>a b. cmp_rows (list_dirs (lq_list q)) (snd a) (snd b) < 0) (list_keyed m t r q sk)"
    and "\<forall>x\<in>set (list_keyed m t r q sk). length (fst (snd x)) = length (l_order (lq_list q))"
proof -
  let ?d = "list_dirs (lq_list q)"
  let ?rows = "map (\<lambda>rcd. (rcd, sk rcd, js_string (oget rcd ''id''))) (list_rows m t r q)"
  let ?cmp = "\<lambda>a b :: keyed. cmp_rows ?d (snd a) (snd b)"
  have len: "\<forall>x\<in>set ?rows. length (fst (snd x)) = length (l_order (lq_list q))"
    using assms by (auto simp: pageable_def list_all_iff)
  then show "\<forall>x\<in>set (list_keyed m t r q sk). length (fst (snd x)) = length (l_order (lq_list q))"
    by (simp add: list_keyed_def)
  have pre: "preorder_on_set ?cmp (set ?rows)"
  proof -
    have "?cmp a b \<le> 0 \<or> ?cmp b a \<le> 0" if "a \<in> set ?rows" "b \<in> set ?rows" for a b
      using len that cmp_rows_antisym [of "snd a" "snd b" ?d] by fastforce
    moreover have "?cmp a c \<le> 0" if "a \<in> set ?rows" "b \<in> set ?rows" "c \<in> set ?rows" "?cmp a b \<le> 0" "?cmp b c \<le> 0" for a b c
      using len that by (intro cmp_rows_trans [of "snd a" "snd b" "snd c"]) auto
    ultimately show ?thesis unfolding preorder_on_set_def by blast
  qed
  have s: "sorted_wrt (\<lambda>a b. ?cmp a b \<le> 0) (list_keyed m t r q sk)"
    unfolding list_keyed_def by (rule sorted_sort_by [OF pre])
  have ms: "mset (map (snd \<circ> snd) (list_keyed m t r q sk)) = mset (map (snd \<circ> snd) ?rows)"
    by (simp only: list_keyed_def mset_map mset_sort_by)
  have "distinct (map (snd \<circ> snd) ?rows)" using assms by (simp add: pageable_def o_def)
  then have d: "distinct (map (snd \<circ> snd) (list_keyed m t r q sk))"
    by (simp only: mset_eq_imp_distinct_iff [OF ms])
  show "sorted_wrt (\<lambda>a b. ?cmp a b < 0) (list_keyed m t r q sk)"
    unfolding sorted_wrt_iff_nth_less
  proof (intro allI impI)
    fix i j
    assume ij: "i < j" "j < length (list_keyed m t r q sk)"
    let ?a = "list_keyed m t r q sk ! i" and ?b = "list_keyed m t r q sk ! j"
    have "?cmp ?a ?b \<le> 0" using s ij by (simp add: sorted_wrt_iff_nth_less)
    moreover have "snd ?a \<noteq> snd ?b"
      using d ij nth_eq_iff_index_eq [OF d, of i j] by auto
    moreover have "length (fst (snd ?a)) = length (fst (snd ?b))"
      using \<open>\<forall>x\<in>set (list_keyed m t r q sk). _\<close> ij by simp
    ultimately show "?cmp ?a ?b < 0" using cmp_rows_zero [of "snd ?a" "snd ?b" ?d] by auto
  qed
qed

text \<open>Following the cursor of each page, at most \<open>n\<close> pages.\<close>

definition next_after :: "(stored_record \<Rightarrow> string list) \<Rightarrow> stored_record list \<Rightarrow> list_after" where
  "next_after sk items = \<lparr>la_keys = sk (last items), la_id = js_string (oget (last items) ''id'')\<rparr>"

fun read_pages ::
    "nat \<Rightarrow> memory \<Rightarrow> string \<Rightarrow> resource \<Rightarrow> list_query \<Rightarrow> (stored_record \<Rightarrow> string list) \<Rightarrow> stored_record list" where
  "read_pages 0 m t r q sk = []"
| "read_pages (Suc n) m t r q sk =
     (case mem_list m t r q sk of
        (items, hasMore) \<Rightarrow> items @ (if hasMore then read_pages n m t r (q\<lparr>lq_after := Some (next_after sk items)\<rparr>) sk else []))"

lemma find_index_split:
  "(\<forall>y\<in>set xs. \<not> P y) \<Longrightarrow> \<not> P x \<Longrightarrow> (\<forall>y\<in>set ys. P y) \<Longrightarrow>
     find_index P (xs @ x # ys) = (if ys = [] then None else Some (Suc (length xs)))"
  by (induction xs) (cases ys; auto)+

lemma list_rows_after [simp]: "list_rows m t r (q\<lparr>lq_after := a\<rparr>) = list_rows m t r q"
  by (simp add: list_rows_def)

lemma list_keyed_after [simp]: "list_keyed m t r (q\<lparr>lq_after := a\<rparr>) sk = list_keyed m t r q sk"
  by (simp add: list_keyed_def)

lemma list_start_after:
  assumes "pageable m t r q sk" "list_keyed m t r q sk = xs @ x # ys"
    and "lq_after q = Some \<lparr>la_keys = fst (snd x), la_id = snd (snd x)\<rparr>"
  shows "list_start q (list_keyed m t r q sk) = Suc (length xs)"
proof -
  let ?d = "list_dirs (lq_list q)"
  note strict = list_keyed_strict [OF assms(1), unfolded assms(2)]
  have lt: "cmp_rows ?d (snd y) (snd x) < 0" if "y \<in> set xs" for y
    using strict(1) that by (auto simp: sorted_wrt_append)
  have gt: "cmp_rows ?d (snd y) (snd x) > 0" if "y \<in> set ys" for y
  proof -
    have "cmp_rows ?d (snd x) (snd y) < 0" using strict(1) that by (auto simp: sorted_wrt_append)
    moreover have "length (fst (snd x)) = length (fst (snd y))" using strict(2) that by auto
    ultimately show ?thesis using cmp_rows_antisym [of "snd x" "snd y" ?d] by simp
  qed
  have eq: "cmp_rows ?d (snd x) (snd x) = 0"
    using cmp_rows_zero [of "snd x" "snd x" ?d] by simp
  have "find_index (\<lambda>y. cmp_rows ?d (snd y) (snd x) > 0) (xs @ x # ys)
      = (if ys = [] then None else Some (Suc (length xs)))"
    using lt gt eq by (intro find_index_split) fastforce+
  then show ?thesis using assms(2,3) by (simp add: list_start_def)
qed

lemma list_keyed_member:
  "x \<in> set (list_keyed m t r q sk) \<Longrightarrow> fst (snd x) = sk (fst x) \<and> snd (snd x) = js_string (oget (fst x) ''id'')"
  by (auto simp: list_keyed_def)

lemma read_pages_from:
  assumes "pageable m t r q sk" "0 < lq_limit q"
    and "list_keyed m t r q sk = done_rows @ rest" "list_start q (list_keyed m t r q sk) = length done_rows"
    and "length rest \<le> n * lq_limit q"
  shows "read_pages n m t r q sk = map fst rest"
  using assms
proof (induction n arbitrary: q done_rows rest)
  case 0
  then show ?case by simp
next
  case (Suc n)
  let ?K = "list_keyed m t r q sk" and ?l = "lq_limit q"
  have page: "mem_list m t r q sk = (map fst (take ?l rest), ?l < length rest)"
    using Suc.prems(3,4) by (simp add: mem_list_def Let_def)
  show ?case
  proof (cases "?l < length rest")
    case False
    then show ?thesis using page by simp
  next
    case True
    then have "take ?l rest \<noteq> []" using Suc.prems(2) by auto
    then obtain zs x where zx: "take ?l rest = zs @ [x]" by (cases "take ?l rest" rule: rev_cases) auto
    have split: "?K = (done_rows @ zs) @ x # drop ?l rest"
      using Suc.prems(3) zx by (metis append_assoc append_Cons append_Nil append_take_drop_id)
    have x: "x \<in> set ?K" using split by auto
    let ?q = "q\<lparr>lq_after := Some (next_after sk (map fst (take ?l rest)))\<rparr>"
    have p: "pageable m t r ?q sk" using Suc.prems(1) by (simp add: pageable_def)
    have "lq_after ?q = Some \<lparr>la_keys = fst (snd x), la_id = snd (snd x)\<rparr>"
      using list_keyed_member [OF x] by (simp add: next_after_def zx)
    from list_start_after [OF p _ this, of "done_rows @ zs" "drop ?l rest"] split
    have st: "list_start ?q ?K = length (done_rows @ take ?l rest)" by (simp add: zx)
    have "read_pages n m t r ?q sk = map fst (drop ?l rest)"
    proof (rule Suc.IH [OF p])
      show "list_keyed m t r ?q sk = (done_rows @ take ?l rest) @ drop ?l rest"
        using Suc.prems(3) by simp
      show "list_start ?q (list_keyed m t r ?q sk) = length (done_rows @ take ?l rest)" using st by simp
      show "length (drop ?l rest) \<le> n * lq_limit ?q" using Suc.prems(5) by simp
    qed (use Suc.prems(2) in simp)
    then show ?thesis using page True by (simp flip: map_append)
  qed
qed

lemma read_pages_all:
  assumes "pageable m t r q sk" "0 < lq_limit q" "lq_after q = None" "length (list_rows m t r q) \<le> n * lq_limit q"
  shows "read_pages n m t r q sk = map fst (list_keyed m t r q sk)"
proof -
  have "length (list_keyed m t r q sk) = length (list_rows m t r q)" by (simp add: list_keyed_def)
  with read_pages_from [OF assms(1,2), of "[]" "list_keyed m t r q sk" n] assms(3,4) show ?thesis
    by (simp add: list_start_def)
qed

end
