(* ===== verification/Triples.thy ===== *)
theory Triples
  imports Engine Documents Memory_Correct
begin

text \<open>
  Triples over the durable store: what holds of it after a computation that returned, and after one
  that failed. Other callers are part of the storage operations, so an assertion about a read has to
  survive what they do.
\<close>

definition triple ::
    "(memory \<Rightarrow> bool) \<Rightarrow> 'a eff \<Rightarrow> ('a \<Rightarrow> memory \<Rightarrow> bool) \<Rightarrow> (memory \<Rightarrow> bool) \<Rightarrow> bool" where
  "triple P m Q R \<longleftrightarrow> (\<forall>w r w'. P (wo_store w) \<longrightarrow> m w = (r, w') \<longrightarrow>
     (case r of Inr x \<Rightarrow> Q x (wo_store w') | Inl e \<Rightarrow> R (wo_store w')))"

named_theorems triples \<open>rules of the triples\<close>

lemma triple_ret: "(\<And>s. P s \<Longrightarrow> Q x s) \<Longrightarrow> triple P (eff_ret x) Q R"
  by (simp add: triple_def eff_ret_def)

lemma triple_fail: "(\<And>s. P s \<Longrightarrow> R s) \<Longrightarrow> triple P (eff_fail e) Q R"
  by (simp add: triple_def eff_fail_def)

lemma triple_of: "(\<And>s x. P s \<Longrightarrow> r = Inr x \<Longrightarrow> Q x s) \<Longrightarrow> (\<And>s. P s \<Longrightarrow> R s) \<Longrightarrow> triple P (eff_of r) Q R"
  by (cases r) (auto simp: triple_def eff_of_def)

lemma triple_guard: "(\<And>s. P s \<Longrightarrow> R s) \<Longrightarrow> triple P (eff_guard b e) (\<lambda>_ s. P s \<and> b) R"
  by (auto simp: triple_def eff_guard_def eff_of_def guard_res_def)

lemma triple_bind:
  assumes "triple P m Q R" "\<And>x. triple (Q x) (f x) S R"
  shows "triple P (eff_bind m f) S R"
  unfolding triple_def
proof (intro allI impI)
  fix w r w'
  assume P: "P (wo_store w)" "eff_bind m f w = (r, w')"
  obtain r1 w1 where m: "m w = (r1, w1)" by (cases "m w") auto
  show "case r of Inr x \<Rightarrow> S x (wo_store w') | Inl e \<Rightarrow> R (wo_store w')"
  proof (cases r1)
    case (Inl e)
    with m P assms(1) show ?thesis by (auto simp: eff_bind_def triple_def)
  next
    case (Inr x)
    then have "Q x (wo_store w1)" using assms(1) P(1) m by (fastforce simp: triple_def)
    moreover have "f x w1 = (r, w')" using P(2) m Inr by (simp add: eff_bind_def)
    ultimately show ?thesis using assms(2) [of x] unfolding triple_def by blast
  qed
qed

lemma triple_exit:
  "triple P m Q R \<Longrightarrow> triple P (eff_exit m) (\<lambda>r s. case r of Inr x \<Rightarrow> Q x s | Inl e \<Rightarrow> R s) R'"
  by (auto simp: triple_def eff_exit_def split: prod.splits sum.splits)

lemma triple_catch:
  assumes "triple P m Q R" "\<And>e. triple R (h e) Q S"
  shows "triple P (eff_catch m h) Q S"
  using assms unfolding triple_def eff_catch_def by (fastforce split: prod.splits sum.splits)

lemma triple_env: "triple P (eff_env f) (\<lambda>_. P) R"
  by (simp add: triple_def eff_env_def)

lemma triple_weaken:
  "triple P m Q R \<Longrightarrow> (\<And>s. P' s \<Longrightarrow> P s) \<Longrightarrow> (\<And>x s. Q x s \<Longrightarrow> Q' x s) \<Longrightarrow> (\<And>s. R s \<Longrightarrow> R' s) \<Longrightarrow> triple P' m Q' R'"
  unfolding triple_def by (fastforce split: sum.splits)

lemma triple_pre: "triple P m Q R \<Longrightarrow> (\<And>s. P' s \<Longrightarrow> P s) \<Longrightarrow> triple P' m Q R"
  by (rule triple_weaken)

lemma triple_if: "(b \<Longrightarrow> triple P m Q R) \<Longrightarrow> (\<not> b \<Longrightarrow> triple P m' Q R) \<Longrightarrow> triple P (if b then m else m') Q R"
  by simp

lemma triple_pure: "(b \<Longrightarrow> triple P m Q R) \<Longrightarrow> triple (\<lambda>s. P s \<and> b) m Q R"
  unfolding triple_def by blast

lemma triple_map:
  assumes "\<And>x. x \<in> set xs \<Longrightarrow> triple P (f x) (\<lambda>y s. P s \<and> G x y) P"
  shows "triple P (eff_map f xs) (\<lambda>ys s. P s \<and> list_all2 G xs ys) P"
  using assms
proof (induction xs)
  case Nil
  then show ?case by (simp add: triple_ret)
next
  case (Cons x xs)
  have "triple P (eff_map f xs) (\<lambda>ys s. P s \<and> list_all2 G xs ys) P" using Cons by simp
  then have "triple (\<lambda>s. P s \<and> G x y) (eff_bind (eff_map f xs) (\<lambda>ys. eff_ret (y # ys))) (\<lambda>ys s. P s \<and> list_all2 G (x # xs) ys) P" for y
    by (intro triple_pure triple_bind [where Q = "\<lambda>ys s. P s \<and> list_all2 G xs ys"] triple_ret) auto
  with Cons.prems [of x] show ?case unfolding eff_map.simps by (auto intro: triple_bind)
qed

section \<open>Documents apart\<close>

lemma oget_mput [simp]: "oget (mput k v d) k' = (if k' = k then v else oget d k')"
  by (simp add: oget_def)

lemma key3_kind:
  assumes "plain_text t" "plain_text k" "plain_text t'" "plain_text k'" "key3 t k i = key3 t' k' i'"
  shows "t = t' \<and> k = k' \<and> i = i'"
proof -
  have "t @ CHR ''|'' # (k @ CHR ''|'' # i) = t' @ CHR ''|'' # (k' @ CHR ''|'' # i')"
    using assms(5) by (simp add: key3_def)
  then show ?thesis using split_plain [OF assms(1,3)] split_plain [OF assms(2,4)] by blast
qed

lemma doc_elsewhere:
  assumes "mem_putDocument m t k i d e = Inr m'" "key3 t' k' i' \<noteq> key3 t k i"
  shows "stored_doc m' t' k' i' = stored_doc m t' k' i'"
  using assms by (auto simp: mem_putDocument_def stored_doc_def getDocument_def putDocument_def Let_def res_simps split: if_splits)

end
