(* ===== verification/Store_Frame.thy ===== *)
theory Store_Frame
  imports Triples
begin

text \<open>
  A component whose documents keep an invariant \<open>S\<close> and only move along a preorder \<open>R\<close>, whoever acts:
  what its operations keep, stated of worlds (a \<open>frame\<close>) and as triples whose assertions record where
  the store came from.
\<close>

definition reached_by ::
    "(memory \<Rightarrow> bool) \<Rightarrow> (memory \<Rightarrow> memory \<Rightarrow> bool) \<Rightarrow> memory \<Rightarrow> (memory \<Rightarrow> bool) \<Rightarrow> memory \<Rightarrow> bool" where
  "reached_by S R m0 P s \<longleftrightarrow> S s \<and> R m0 s \<and> P s"

definition lasting_by :: "(memory \<Rightarrow> bool) \<Rightarrow> (memory \<Rightarrow> memory \<Rightarrow> bool) \<Rightarrow> (memory \<Rightarrow> bool) \<Rightarrow> bool" where
  "lasting_by S R P \<longleftrightarrow> (\<forall>s s'. S s \<longrightarrow> R s s' \<longrightarrow> P s \<longrightarrow> P s')"

definition moving :: "(memory \<Rightarrow> bool) \<Rightarrow> (memory \<Rightarrow> memory \<Rightarrow> bool) \<Rightarrow> world \<Rightarrow> world \<Rightarrow> bool" where
  "moving S R w w' \<longleftrightarrow> (S (wo_store w) \<longrightarrow> R (wo_store w) (wo_store w'))"

abbreviation anywhere_by :: "(memory \<Rightarrow> bool) \<Rightarrow> (memory \<Rightarrow> memory \<Rightarrow> bool) \<Rightarrow> memory \<Rightarrow> memory \<Rightarrow> bool" where
  "anywhere_by S R m0 \<equiv> reached_by S R m0 (\<lambda>_. True)"

lemma lasting_by_True [simp]: "lasting_by S R (\<lambda>_. True)"
  by (simp add: lasting_by_def)

lemma reached_by_anywhere: "reached_by S R m0 P s \<Longrightarrow> anywhere_by S R m0 s"
  by (simp add: reached_by_def)

locale store_frame =
  fixes S :: "memory \<Rightarrow> bool" and R :: "memory \<Rightarrow> memory \<Rightarrow> bool"
  assumes refl [simp]: "R m m"
    and trans: "R a b \<Longrightarrow> R b c \<Longrightarrow> R a c"
    and sound: "S a \<Longrightarrow> R a b \<Longrightarrow> S b"
begin

lemma moving_frame: "frame (moving S R)"
  by unfold_locales (auto simp: moving_def intro: trans sound)

lemma reached_lasting: "lasting_by S R P \<Longrightarrow> reached_by S R m0 P s \<Longrightarrow> R s s' \<Longrightarrow> reached_by S R m0 P s'"
  unfolding reached_by_def lasting_by_def using sound trans by metis

lemma triple_kept:
  assumes "keeps (moving S R) m" "lasting_by S R P"
  shows "triple (reached_by S R m0 P) m (\<lambda>_. reached_by S R m0 P) (anywhere_by S R m0)"
  unfolding triple_def
proof (intro allI impI)
  fix w r w'
  assume P: "reached_by S R m0 P (wo_store w)" and m: "m w = (r, w')"
  then have "moving S R w w'" using frame.keepsD [OF moving_frame] assms(1) by blast
  then have "R (wo_store w) (wo_store w')" using P by (simp add: moving_def reached_by_def)
  then have "reached_by S R m0 P (wo_store w')" using reached_lasting assms(2) P by blast
  then show "case r of Inr x \<Rightarrow> reached_by S R m0 P (wo_store w') | Inl e \<Rightarrow> anywhere_by S R m0 (wo_store w')"
    by (cases r) (auto dest: reached_by_anywhere)
qed

lemma kept_triple:
  assumes "\<And>m0. triple (anywhere_by S R m0) m (\<lambda>_. anywhere_by S R m0) (anywhere_by S R m0)"
  shows "keeps (moving S R) m"
  unfolding keeps_def moving_def
proof (intro allI impI)
  fix w :: world
  assume s: "S (wo_store w)"
  obtain r w' where m: "m w = (r, w')" by fastforce
  have "anywhere_by S R (wo_store w) (wo_store w)" using s by (simp add: reached_by_def)
  then have "anywhere_by S R (wo_store w) (wo_store w')"
    using assms [of "wo_store w"] m unfolding triple_def by (cases r) fastforce+
  with m show "R (wo_store w) (wo_store (snd (m w)))" by (simp add: reached_by_def)
qed

end

end
