(* ===== verification/Members.thy ===== *)
theory Members
  imports Work_Queue
begin

text \<open>
  Members of the objects that records are kept as in documents, and the readers of their values.
\<close>

lemma oget_Cons: "oget ((k, v) # d) f = (if k = f then v else oget d f)"
  by (simp add: oget_def)

lemma oget_Nil [simp]: "oget [] f = JUndef"
  by (simp add: oget_def)

lemma oget_append: "oget (a @ b) f = (if mhas f a then oget a f else oget b f)"
  by (simp add: oget_def mhas_iff map_add_def split: option.split)

lemma oget_optional: "oget (opt_member_json k g v) f = (case v of None \<Rightarrow> JUndef | Some x \<Rightarrow> if k = f then g x else JUndef)"
  by (auto simp: opt_member_json_def oget_Cons split: option.splits)

lemma mhas_optional: "mhas f (opt_member_json k g v) \<longleftrightarrow> v \<noteq> None \<and> k = f"
  by (auto simp: opt_member_json_def mhas_def split: option.splits)

lemma mhas_append: "mhas f (a @ b) \<longleftrightarrow> mhas f a \<or> mhas f b"
  by (auto simp: mhas_def)

lemma mhas_Cons: "mhas f ((k, v) # d) \<longleftrightarrow> k = f \<or> mhas f d"
  by (auto simp: mhas_def)

lemma mhas_Nil [simp]: "\<not> mhas f []"
  by (simp add: mhas_def)

lemmas oget_members = oget_Cons oget_append oget_optional mhas_optional mhas_append mhas_Cons

lemma those_map: "(\<And>x. x \<in> set xs \<Longrightarrow> f x = Some (g x)) \<Longrightarrow> those (map f xs) = Some (map g xs)"
  by (induction xs) auto

lemma as_list_map: "(\<And>x. f (g x) = Some x) \<Longrightarrow> as_list f (JArr (map g xs)) = Some xs"
  using those_map [of xs "f \<circ> g" "\<lambda>x. x"] by (simp add: as_list_def)

lemma as_optional_member:
  "(\<And>x. f (g x) = Some x) \<Longrightarrow> (\<And>x. g x \<noteq> JUndef) \<Longrightarrow> as_optional f (case v of None \<Rightarrow> JUndef | Some x \<Rightarrow> g x) = Some v"
  by (cases v) (simp_all add: as_optional_def)

lemma oget_mdel: "oget (mdel k d) f = (if f = k then JUndef else oget d f)"
  by (simp add: oget_def)

lemma as_text_str [simp]: "as_text (JStr s) = Some s"
  by (simp add: as_text_def)

lemma as_obj_obj [simp]: "as_obj (JObj d) = Some d"
  by (simp add: as_obj_def)

end
