(* ===== verification/Rollout_Correct.thy ===== *)
theory Rollout_Correct
  imports Rollout_Machine Store_Frame Members
begin

text \<open>
  The ledger refines the machine of rollouts: with other callers in between, every operation changes
  the documents of rollouts only by moves of the machine, its own under its own token.
\<close>

section \<open>Documents of rollouts\<close>

lemma phase_round [simp]: "text_phase (phase_text p) = Some p"
  by (cases p) (simp_all add: text_phase_def)

lemma state_round [simp]: "text_rollout_state (rollout_state_text p) = Some p"
  by (cases p) (simp_all add: text_rollout_state_def)

lemma approval_round [simp]: "approval_of (approval_obj a) = Some a"
  by (simp add: approval_of_def approval_obj_def oget_members)

lemma lease_round [simp]: "lease_of_doc (lease_obj l) = Some l"
  by (auto simp: lease_of_doc_def lease_obj_def oget_members as_int_def split: option.split)

lemma step_round [simp]: "step_of (step_obj s) = Some s"
  by (cases "rs_by s"; cases "rs_token s") (simp_all add: step_of_def step_obj_def oget_members as_int_def as_optional_def)

lemma steps_round: "steps_of (JObj (map (\<lambda>(k, s). (k, step_obj s)) ss)) = Some ss"
  using those_map [of ss "(\<lambda>(k, x). map_option (Pair k) (step_of x)) \<circ> (\<lambda>(k, s). (k, step_obj s))" "\<lambda>x. x"]
  by (simp add: steps_of_def case_prod_unfold)

definition ro_parsed :: "nat \<times> obj \<Rightarrow> rollout option" where
  "ro_parsed y = rollout_of (mput ''_version'' (JInt (int (fst y))) (snd y))"

lemma rollout_members:
  "oget (rollout_obj d) ''rollout'' = JStr (ro_id d)" "oget (rollout_obj d) ''artifact'' = JStr (ro_artifact d)"
  "oget (rollout_obj d) ''approval'' = approval_obj (ro_approval d)"
  "oget (rollout_obj d) ''steps'' = JObj (map (\<lambda>(k, s). (k, step_obj s)) (ro_steps d))"
  "oget (rollout_obj d) ''order'' = JStrs (ro_order d)" "oget (rollout_obj d) ''lease'' = lease_obj (ro_lease d)"
  "oget (rollout_obj d) ''fence'' = JInt (ro_fence d)" "oget (rollout_obj d) ''activatedGrants'' = JStrs (ro_grants d)"
  "oget (rollout_obj d) ''state'' = JStr (rollout_state_text (ro_state d))"
  "oget (rollout_obj d) ''previous'' = (case ro_previous d of None \<Rightarrow> JUndef | Some p \<Rightarrow> JStr p)"
  by (auto simp: rollout_obj_def oget_members split: option.split)

lemma rollout_round: "ro_parsed (v, mdel ''_version'' (rollout_obj d)) = Some (d\<lparr>ro_stamp := Some v\<rparr>)"
proof -
  have "as_optional as_nat (JInt (int v)) = Some (Some v)" by (simp add: as_optional_def as_nat_def)
  moreover have "as_list as_text (JStrs xs) = Some xs" for xs by (simp add: JStrs_def as_list_map)
  moreover have "as_optional as_text (case p of None \<Rightarrow> JUndef | Some x \<Rightarrow> JStr x) = Some p" for p by (simp add: as_optional_member)
  ultimately show ?thesis by (simp add: ro_parsed_def rollout_of_def oget_mdel rollout_members steps_round as_int_def)
qed

lemma ro_parsed_stamp: "ro_parsed y = Some d \<Longrightarrow> ro_stamp d = Some (fst y)"
  by (auto simp: ro_parsed_def rollout_of_def as_optional_def as_nat_def bind_eq_Some_conv)

text \<open>A document without its version, which the moves do not mention.\<close>

definition bare :: "rollout \<Rightarrow> rollout" where
  "bare d = d\<lparr>ro_stamp := None\<rparr>"

lemma bare_members [simp]:
  "ro_id (bare d) = ro_id d" "ro_steps (bare d) = ro_steps d" "ro_order (bare d) = ro_order d" "ro_lease (bare d) = ro_lease d"
  "ro_fence (bare d) = ro_fence d" "ro_grants (bare d) = ro_grants d" "ro_state (bare d) = ro_state d" "ro_artifact (bare d) = ro_artifact d"
  by (simp_all add: bare_def)

lemma bare_stamp [simp]: "bare (d\<lparr>ro_stamp := v\<rparr>) = bare d" "bare (restamped d) = bare d" "bare (bare d) = bare d"
  by (simp_all add: bare_def restamped_def)

lemma bare_same [simp]:
  "holds_token (bare d) k = holds_token d k" "leased_elsewhere (bare d) c now = leased_elsewhere d c now"
  "leased_to (bare d) c k = leased_to d c k" "unfinished (bare d) = unfinished d" "step_running (bare d) s = step_running d s"
  "lost k (bare d) = lost k d" "lease_known (bare d) = lease_known d" "step_done (bare d) s = step_done d s"
  by (simp_all add: holds_token_def leased_elsewhere_def leased_to_def unfinished_def step_done_def step_running_def lost_def
      lease_known_def)

lemma bare_earlier [simp]: "earlier_done (bare d) s ps = earlier_done d s ps"
  by (induction ps) (auto split: option.splits)

lemma bare_changes:
  "taken (bare d) c u = bare (taken d c u)" "renewed (bare d) c k u = bare (renewed d c k u)"
  "with_step s st (bare d) = bare (with_step s st d)" "grant_recorded g (bare d) = bare (grant_recorded g d)"
  "rolled_back (bare d) = bare (rolled_back d)" "completed (bare d) = bare (completed d)" "begun (bare d) k = begun d k"
  by (cases d, simp add: bare_def taken_def renewed_def with_step_def grant_recorded_def rolled_back_def completed_def begun_def fun_eq_iff)+

lemma move_bare:
  assumes "ledger_move x a b"
  shows "ledger_move x (bare a) (bare b)"
  using assms
proof (induction rule: ledger_move.induct)
  case (take d c now u)
  then show ?case using ledger_move.take [of "bare d" c now u] by (simp add: bare_changes)
next
  case (renew d c k u)
  then show ?case using ledger_move.renew [of "bare d" c k u] by (simp add: bare_changes)
next
  case (start d k s st)
  then show ?case using ledger_move.start [of "bare d" k s st] by (simp add: bare_changes)
next
  case (checkpoint d k s st c)
  then show ?case using ledger_move.checkpoint [of "bare d" k s st c] by (simp add: bare_changes)
next
  case (finish d k s st v)
  then show ?case using ledger_move.finish [of "bare d" k s st v] by (simp add: bare_changes)
next
  case (fail d k s st)
  then show ?case using ledger_move.fail [of "bare d" k s st] by (simp add: bare_changes)
next
  case (grant d k g)
  then show ?case using ledger_move.grant [of "bare d" k g] by (simp add: bare_changes)
next
  case (revert d k)
  then show ?case using ledger_move.revert [of "bare d" k] by (simp add: bare_changes)
next
  case (complete d k)
  then show ?case using ledger_move.complete [of "bare d" k] by (simp add: bare_changes)
qed

section \<open>The store\<close>

definition rollout_slot :: "string \<Rightarrow> memory \<Rightarrow> string \<Rightarrow> (nat \<times> obj) option" where
  "rollout_slot scope m r = stored_doc m scope DEPLOY_KIND r"

definition rollout_step :: "ledger_act set \<Rightarrow> string \<Rightarrow> (nat \<times> obj) option \<Rightarrow> (nat \<times> obj) option \<Rightarrow> bool" where
  "rollout_step K r x x' \<longleftrightarrow> x' = x \<or>
     (\<exists>y' b. x' = Some y' \<and> ro_parsed y' = Some b \<and>
        (case x of None \<Rightarrow> \<exists>q. open_ok q \<and> or_rollout q = r \<and> moves K (opened q) (bare b)
         | Some y \<Rightarrow> fst y < fst y' \<and> (\<exists>a. ro_parsed y = Some a \<and> moves K (bare a) (bare b))))"

definition rollout_rel :: "string \<Rightarrow> ledger_act set \<Rightarrow> memory \<Rightarrow> memory \<Rightarrow> bool" where
  "rollout_rel scope K m m' \<longleftrightarrow> (\<forall>r. rollout_step K r (rollout_slot scope m r) (rollout_slot scope m' r))"

definition rollout_sound :: "string \<Rightarrow> memory \<Rightarrow> bool" where
  "rollout_sound scope m \<longleftrightarrow> (\<forall>r y b. rollout_slot scope m r = Some y \<longrightarrow> ro_parsed y = Some b \<longrightarrow> reachable r (bare b))"

lemma rollout_step_refl [simp]: "rollout_step K r x x"
  by (simp add: rollout_step_def)

lemma rollout_step_some:
  "rollout_step K r (Some y) x' \<longleftrightarrow> x' = Some y \<or>
     (\<exists>y' b a. x' = Some y' \<and> ro_parsed y' = Some b \<and> fst y < fst y' \<and> ro_parsed y = Some a \<and> moves K (bare a) (bare b))"
  by (auto simp: rollout_step_def)

lemma rollout_step_none:
  "rollout_step K r None x' \<longleftrightarrow> x' = None \<or>
     (\<exists>y' b q. x' = Some y' \<and> ro_parsed y' = Some b \<and> open_ok q \<and> or_rollout q = r \<and> moves K (opened q) (bare b))"
  by (auto simp: rollout_step_def)

lemma rollout_step_trans:
  assumes "rollout_step K r x y" "rollout_step K r y z"
  shows "rollout_step K r x z"
proof (cases y)
  case None
  then show ?thesis using assms by (cases x) (auto simp: rollout_step_some)
next
  case y: (Some u)
  show ?thesis
  proof (cases "z = y")
    case False
    then obtain v b c where z: "z = Some v" "ro_parsed v = Some c" "fst u < fst v" "ro_parsed u = Some b" "moves K (bare b) (bare c)"
      using assms(2) unfolding y rollout_step_some by metis
    show ?thesis
    proof (cases x)
      case None
      then obtain q where "open_ok q" "or_rollout q = r" "moves K (opened q) (bare b)"
        using assms(1) y z(4) by (auto simp: rollout_step_none)
      then have "moves K (opened q) (bare c)" using moves_trans z(5) by blast
      with \<open>open_ok q\<close> \<open>or_rollout q = r\<close> None z(1,2) show ?thesis by (auto simp: rollout_step_none)
    next
      case (Some t)
      then show ?thesis using assms(1) y z by (auto simp: rollout_step_some intro: moves_trans)
    qed
  qed (use assms(1) in simp)
qed

lemma rollout_step_reachable:
  assumes "rollout_step K r x x'" "x' = Some y'" "ro_parsed y' = Some b"
    "\<And>y a. x = Some y \<Longrightarrow> ro_parsed y = Some a \<Longrightarrow> reachable r (bare a)"
  shows "reachable r (bare b)"
proof (cases x)
  case None
  then obtain q where "open_ok q" "or_rollout q = r" "moves K (opened q) (bare b)"
    using assms(1-3) by (auto simp: rollout_step_none)
  then show ?thesis unfolding reachable_def using moves_mono [of K _ _ UNIV] by blast
next
  case (Some y)
  show ?thesis
  proof (cases "x' = Some y")
    case True
    then show ?thesis using assms Some by auto
  next
    case False
    then obtain a where "ro_parsed y = Some a" "moves K (bare a) (bare b)"
      using assms(1-3) Some by (auto simp: rollout_step_some)
    then show ?thesis using assms(4) [OF Some] reachable_moves by blast
  qed
qed

interpretation lg: store_frame "rollout_sound scope" "rollout_rel scope K" for scope K
proof
  fix a b c
  show "rollout_rel scope K a a" by (simp add: rollout_rel_def)
  show "rollout_rel scope K a b \<Longrightarrow> rollout_rel scope K b c \<Longrightarrow> rollout_rel scope K a c"
    unfolding rollout_rel_def using rollout_step_trans by blast
  show "rollout_sound scope a \<Longrightarrow> rollout_rel scope K a b \<Longrightarrow> rollout_sound scope b"
    unfolding rollout_rel_def rollout_sound_def using rollout_step_reachable by blast
qed

abbreviation ledger_frame :: "string \<Rightarrow> ledger_act set \<Rightarrow> world \<Rightarrow> world \<Rightarrow> bool" where
  "ledger_frame scope K \<equiv> moving (rollout_sound scope) (rollout_rel scope K)"

interpretation lgf: frame "ledger_frame scope K" for scope K
  by (rule lg.moving_frame)

lemma rollout_step_mono:
  assumes "rollout_step K r x x'" "K \<subseteq> L"
  shows "rollout_step L r x x'"
proof (cases x)
  case None
  then show ?thesis using assms moves_mono [of K _ _ L] unfolding None rollout_step_none by metis
next
  case (Some y)
  show ?thesis using assms moves_mono [of K _ _ L] unfolding Some rollout_step_some by metis
qed

lemma rollout_rel_mono: "rollout_rel scope K m m' \<Longrightarrow> K \<subseteq> L \<Longrightarrow> rollout_rel scope L m m'"
  unfolding rollout_rel_def using rollout_step_mono by blast

lemma keeps_mono: "keeps (ledger_frame scope K) m \<Longrightarrow> K \<subseteq> L \<Longrightarrow> keeps (ledger_frame scope L) m"
  unfolding keeps_def moving_def using rollout_rel_mono by blast

text \<open>The other callers move along \<open>K\<close>.\<close>

definition ledger_env :: "env \<Rightarrow> string \<Rightarrow> ledger_act set \<Rightarrow> bool" where
  "ledger_env E scope K \<longleftrightarrow> plain_text scope \<and> (\<forall>n m. rollout_sound scope m \<longrightarrow> rollout_rel scope K m (en_others E n m))"

section \<open>Reading and writing\<close>

abbreviation from_on :: "string \<Rightarrow> ledger_act set \<Rightarrow> memory \<Rightarrow> (memory \<Rightarrow> bool) \<Rightarrow> memory \<Rightarrow> bool" where
  "from_on scope K m0 P \<equiv> reached_by (rollout_sound scope) (rollout_rel scope K) m0 P"

text \<open>A document is the current one, or the one it was when it was read; what follows it since.\<close>

definition current :: "string \<Rightarrow> rollout \<Rightarrow> memory \<Rightarrow> bool" where
  "current scope d m \<longleftrightarrow> reachable (ro_id d) (bare d) \<and> (\<exists>y. rollout_slot scope m (ro_id d) = Some y \<and> ro_parsed y = Some d)"

definition seen :: "string \<Rightarrow> rollout \<Rightarrow> memory \<Rightarrow> bool" where
  "seen scope d m \<longleftrightarrow> reachable (ro_id d) (bare d) \<and>
     (\<exists>n y. ro_stamp d = Some n \<and> rollout_slot scope m (ro_id d) = Some y \<and> (fst y = n \<and> ro_parsed y = Some d \<or> n < fst y))"

definition since :: "string \<Rightarrow> ledger_act set \<Rightarrow> rollout \<Rightarrow> memory \<Rightarrow> bool" where
  "since scope K d m \<longleftrightarrow> (\<exists>y b. rollout_slot scope m (ro_id d) = Some y \<and> ro_parsed y = Some b \<and> moves K (bare d) (bare b))"

lemma current_seen: "current scope d m \<Longrightarrow> seen scope d m"
  using ro_parsed_stamp by (fastforce simp: current_def seen_def)

lemma current_since: "current scope d m \<Longrightarrow> since scope K d m"
  by (auto simp: current_def since_def)

lemma since_current: "since scope K d m \<Longrightarrow> current scope b m \<Longrightarrow> ro_id b = ro_id d \<Longrightarrow> moves K (bare d) (bare b)"
  by (auto simp: current_def since_def)

lemma lasting_seen_rollout: "lasting_by (rollout_sound scope) (rollout_rel scope K) (seen scope d)"
  unfolding lasting_by_def seen_def
proof (intro allI impI conjI)
  fix s s'
  assume rel: "rollout_rel scope K s s'" and d: "reachable (ro_id d) (bare d) \<and> (\<exists>n y. ro_stamp d = Some n \<and>
    rollout_slot scope s (ro_id d) = Some y \<and> (fst y = n \<and> ro_parsed y = Some d \<or> n < fst y))"
  then obtain n y where y: "ro_stamp d = Some n" "rollout_slot scope s (ro_id d) = Some y"
    "fst y = n \<and> ro_parsed y = Some d \<or> n < fst y" by blast
  have "rollout_step K (ro_id d) (Some y) (rollout_slot scope s' (ro_id d))" using rel y(2) unfolding rollout_rel_def by metis
  then obtain y' where y': "rollout_slot scope s' (ro_id d) = Some y'" "y' = y \<or> fst y < fst y'"
    unfolding rollout_step_some by metis
  with y(3) have "fst y' = n \<and> ro_parsed y' = Some d \<or> n < fst y'" by auto
  with y(1) y'(1) show "\<exists>n y. ro_stamp d = Some n \<and> rollout_slot scope s' (ro_id d) = Some y \<and> (fst y = n \<and> ro_parsed y = Some d \<or> n < fst y)"
    by blast
  show "reachable (ro_id d) (bare d)" using d by blast
qed

lemma lasting_since: "lasting_by (rollout_sound scope) (rollout_rel scope K) (since scope K d)"
  unfolding lasting_by_def since_def
proof (intro allI impI)
  fix s s'
  assume rel: "rollout_rel scope K s s'" and "\<exists>y b. rollout_slot scope s (ro_id d) = Some y \<and> ro_parsed y = Some b \<and> moves K (bare d) (bare b)"
  then obtain y b where y: "rollout_slot scope s (ro_id d) = Some y" "ro_parsed y = Some b" "moves K (bare d) (bare b)" by blast
  have "rollout_step K (ro_id d) (Some y) (rollout_slot scope s' (ro_id d))" using rel y(1) unfolding rollout_rel_def by metis
  then obtain y' b' where "rollout_slot scope s' (ro_id d) = Some y'" "ro_parsed y' = Some b'" "moves K (bare b) (bare b')"
    using y(2) unfolding rollout_step_some by (metis moves_refl option.sel)
  with y(3) show "\<exists>y b. rollout_slot scope s' (ro_id d) = Some y \<and> ro_parsed y = Some b \<and> moves K (bare d) (bare b)"
    using moves_trans by blast
qed

lemma lasting_and: "lasting_by S R P \<Longrightarrow> lasting_by S R Q \<Longrightarrow> lasting_by S R (\<lambda>s. P s \<and> Q s)"
  by (auto simp: lasting_by_def)

lemma reached_others:
  assumes "ledger_env E scope N" "N \<subseteq> K" "lasting_by (rollout_sound scope) (rollout_rel scope N) P" "from_on scope K m0 P (wo_store w)"
  shows "from_on scope K m0 P (world_now E w)"
proof -
  have s: "rollout_sound scope (wo_store w)" using assms(4) by (simp add: reached_by_def)
  then have rel: "rollout_rel scope N (wo_store w) (world_now E w)" using assms(1) by (simp add: ledger_env_def world_now_def)
  then have "P (world_now E w)" using assms(3,4) s unfolding lasting_by_def reached_by_def by blast
  moreover have "anywhere_by (rollout_sound scope) (rollout_rel scope K) m0 (world_now E w)"
    using lg.reached_lasting [OF lasting_by_True reached_by_anywhere [OF assms(4)] rollout_rel_mono [OF rel assms(2)]] .
  ultimately show ?thesis by (simp add: reached_by_def)
qed

lemma triple_ledger_load:
  assumes "ledger_env E scope N" "N \<subseteq> K" "lasting_by (rollout_sound scope) (rollout_rel scope N) P"
  shows "triple (from_on scope K m0 P) (ledger_load E scope r)
    (\<lambda>d. from_on scope K m0 (\<lambda>s. P s \<and> ro_id d = r \<and> current scope d s)) (from_on scope K m0 P)"
  unfolding triple_def
proof (intro allI impI)
  fix w x w'
  assume P: "from_on scope K m0 P (wo_store w)" and run: "ledger_load E scope r w = (x, w')"
  let ?m = "world_now E w"
  have m: "from_on scope K m0 P ?m" by (rule reached_others [OF assms P])
  have doc: "mem_getDocument ?m scope DEPLOY_KIND r
      = map_option (\<lambda>y. mput ''_version'' (JInt (int (fst y))) (snd y)) (rollout_slot scope ?m r)"
    by (simp add: mem_getDocument_def rollout_slot_def stored_doc_def case_prod_unfold)
  have w': "wo_store w' = ?m"
    using run unfolding ledger_load_def run_read by (auto simp: eff_of_def eff_fail_def split: option.splits)
  have "ro_id d = r \<and> current scope d ?m" if r': "x = Inr d" for d
  proof -
    obtain y where y: "rollout_slot scope ?m r = Some y" "ro_parsed y = Some d"
      using run r' unfolding ledger_load_def run_read doc
      by (auto simp: eff_of_def eff_fail_def ro_parsed_def some_or_def split: option.splits)
    then have "reachable r (bare d)" using m unfolding reached_by_def rollout_sound_def by blast
    moreover from reachable_ok [OF this] have "ro_id d = r" by (simp add: rollout_ok_def)
    ultimately show ?thesis using y by (auto simp: current_def)
  qed
  with m show "case x of Inr d \<Rightarrow> from_on scope K m0 (\<lambda>s. P s \<and> ro_id d = r \<and> current scope d s) (wo_store w')
      | Inl e \<Rightarrow> from_on scope K m0 P (wo_store w')"
    by (cases x) (auto simp: w' reached_by_def)
qed

lemma bare_id: "bare a = bare b \<Longrightarrow> ro_id a = ro_id b"
  by (metis bare_members(1))

lemma triple_put:
  assumes "ledger_env E scope N" "N \<subseteq> K" "ledger_move x a b" "x \<in> K" "ro_stamp b = ro_stamp a"
    "lasting_by (rollout_sound scope) (rollout_rel scope N) P"
  shows "triple (from_on scope K m0 (\<lambda>s. P s \<and> seen scope a s)) (ledger_put E scope b)
    (\<lambda>c. from_on scope K m0 (\<lambda>s. c = restamped b \<and> current scope c s)) (from_on scope K m0 P)"
  unfolding triple_def
proof (intro allI impI)
  fix w r w'
  assume P: "from_on scope K m0 (\<lambda>s. P s \<and> seen scope a s) (wo_store w)" and run: "ledger_put E scope b w = (r, w')"
  let ?m = "world_now E w"
  have m: "from_on scope K m0 (\<lambda>s. P s \<and> seen scope a s) ?m"
    by (rule reached_others [OF assms(1,2) lasting_and [OF assms(6) lasting_seen_rollout] P])
  have ids: "ro_id b = ro_id a" using move_grows [OF assms(3)] by (simp add: rollout_grows_def)
  show "case r of Inr c \<Rightarrow> from_on scope K m0 (\<lambda>s. c = restamped b \<and> current scope c s) (wo_store w')
      | Inl e \<Rightarrow> from_on scope K m0 P (wo_store w')"
  proof (cases "mem_putDocument ?m scope DEPLOY_KIND (ro_id b) (rollout_obj b) (ro_stamp b)")
    case (Inl e)
    then have "wo_store w' = ?m" "r = Inl e"
      using run by (auto simp: ledger_put_def eff_bind_def storage_write_def storage_def Let_def world_now_def)
    with m show ?thesis by (simp add: reached_by_def)
  next
    case (Inr m')
    then have w': "wo_store w' = m'" "r = Inr (restamped b)"
      using run by (auto simp: ledger_put_def eff_bind_def eff_ret_def storage_write_def storage_def Let_def world_now_def)
    obtain n y where y: "ro_stamp a = Some n" "rollout_slot scope ?m (ro_id a) = Some y"
      "fst y = n \<and> ro_parsed y = Some a \<or> n < fst y" using m by (auto simp: reached_by_def seen_def)
    have n: "fst y = n" "ro_parsed y = Some a"
      using doc_written(1) [OF Inr] y by (auto simp: rollout_slot_def ids assms(5))
    let ?y = "(Suc n, mdel ''_version'' (rollout_obj b))"
    have slot: "rollout_slot scope m' (ro_id a) = Some ?y"
      using doc_written(2) [OF Inr] y(1) by (simp add: rollout_slot_def ids assms(5))
    have p: "ro_parsed ?y = Some (restamped b)" using y(1) assms(5) by (simp add: rollout_round restamped_def)
    have mv: "moves K (bare a) (bare b)" using moves_one [OF move_bare [OF assms(3)] assms(4)] .
    have rel: "rollout_rel scope K ?m m'"
      unfolding rollout_rel_def
    proof
      fix r'
      show "rollout_step K r' (rollout_slot scope ?m r') (rollout_slot scope m' r')"
      proof (cases "r' = ro_id a")
        case True
        have "fst y < fst ?y" "moves K (bare a) (bare (restamped b))" using n(1) mv by simp_all
        with p n(2) show ?thesis unfolding True slot y(2) rollout_step_some by blast
      next
        case False
        then have "rollout_slot scope m' r' = rollout_slot scope ?m r'"
          unfolding rollout_slot_def by (intro doc_elsewhere [OF Inr]) (simp add: key3_def ids)
        then show ?thesis by simp
      qed
    qed
    have any: "from_on scope K m0 (\<lambda>_. True) m'"
      using lg.reached_lasting [OF lasting_by_True reached_by_anywhere [OF m] rel] .
    have idr: "ro_id (restamped b) = ro_id a" by (simp add: restamped_def ids)
    have "reachable (ro_id a) (bare (restamped b))"
      using any slot p unfolding reached_by_def rollout_sound_def by blast
    then have "current scope (restamped b) m'" using slot p by (auto simp: current_def idr)
    with any show ?thesis by (simp add: w' reached_by_def)
  qed
qed

section \<open>The operations\<close>

lemma triple_any: "triple P m Q R \<Longrightarrow> (\<And>x s. Q x s \<Longrightarrow> from_on scope K m0 Q' s) \<Longrightarrow> (\<And>s. R s \<Longrightarrow> from_on scope K m0 R' s) \<Longrightarrow>
    triple P m (\<lambda>_. from_on scope K m0 (\<lambda>_. True)) (from_on scope K m0 (\<lambda>_. True))"
  by (erule triple_weaken) (auto simp: reached_by_def)

text \<open>Reading a rollout and changing it by one move.\<close>

lemma triple_change:
  assumes "ledger_env E scope N" "N \<subseteq> K" "ledger_move x a b" "x \<in> K" "ro_stamp b = ro_stamp a"
  shows "triple (from_on scope K m0 (current scope a)) (eff_exit (ledger_put E scope b))
    (\<lambda>_. from_on scope K m0 (\<lambda>_. True)) (from_on scope K m0 (\<lambda>_. True))"
    "triple (from_on scope K m0 (current scope a)) (eff_bind (ledger_put E scope b) (\<lambda>_. eff_ret z))
    (\<lambda>_. from_on scope K m0 (\<lambda>_. True)) (from_on scope K m0 (\<lambda>_. True))"
proof -
  have p: "triple (from_on scope K m0 (current scope a)) (ledger_put E scope b)
      (\<lambda>c. from_on scope K m0 (\<lambda>s. c = restamped b \<and> current scope c s)) (from_on scope K m0 (\<lambda>_. True))"
    by (rule triple_pre [OF triple_put [OF assms lasting_by_True]]) (auto simp: reached_by_def intro: current_seen)
  show "triple (from_on scope K m0 (current scope a)) (eff_exit (ledger_put E scope b))
      (\<lambda>_. from_on scope K m0 (\<lambda>_. True)) (from_on scope K m0 (\<lambda>_. True))"
    by (rule triple_weaken [OF triple_exit [OF p]]) (auto simp: reached_by_def split: sum.splits)
  show "triple (from_on scope K m0 (current scope a)) (eff_bind (ledger_put E scope b) (\<lambda>_. eff_ret z))
      (\<lambda>_. from_on scope K m0 (\<lambda>_. True)) (from_on scope K m0 (\<lambda>_. True))"
    by (rule triple_bind [OF p], rule triple_ret) (simp add: reached_by_def)
qed

lemma triple_loaded:
  assumes "ledger_env E scope N" "N \<subseteq> K"
    "\<And>d. ro_id d = r \<Longrightarrow> reachable r (bare d) \<Longrightarrow> triple (from_on scope K m0 (current scope d)) (f d) Q (from_on scope K m0 (\<lambda>_. True))"
  shows "triple (from_on scope K m0 (\<lambda>_. True)) (eff_bind (ledger_load E scope r) f) Q (from_on scope K m0 (\<lambda>_. True))"
proof (rule triple_bind [OF triple_ledger_load [OF assms(1,2) lasting_by_True]])
  fix d
  show "triple (from_on scope K m0 (\<lambda>s. True \<and> ro_id d = r \<and> current scope d s)) (f d) Q (from_on scope K m0 (\<lambda>_. True))"
  proof (cases "ro_id d = r \<and> reachable r (bare d)")
    case True
    then show ?thesis by (intro triple_pre [OF assms(3)]) (simp_all add: reached_by_def)
  next
    case False
    then show ?thesis by (auto simp: triple_def reached_by_def current_def)
  qed
qed

lemma guard_holds: "ledger_guard d k t = Inr u \<Longrightarrow> holds_token d k"
  by (auto simp: ledger_guard_def holds_token_def split: option.splits if_splits)

lemma triple_guarded:
  assumes "holds_token d k \<Longrightarrow> triple (from_on scope K m0 P) (f ()) Q (from_on scope K m0 R)" "\<And>s. P s \<Longrightarrow> R s"
  shows "triple (from_on scope K m0 P) (eff_bind (eff_of (ledger_guard d k t)) f) Q (from_on scope K m0 R)"
proof (cases "ledger_guard d k t")
  case (Inl e)
  then show ?thesis using assms(2) by (auto simp: triple_def eff_bind_def eff_of_def reached_by_def)
next
  case (Inr u)
  then show ?thesis using assms(1) guard_holds [OF Inr] by (auto simp: triple_def eff_bind_def eff_of_def)
qed

lemma keeps_ledger_read:
  assumes "ledger_env E scope N" "N \<subseteq> K"
  shows "keeps (ledger_frame scope K) (storage_read E f)"
  using assms(1)
  by (auto simp: keeps_def moving_def storage_read_def storage_def Let_def ledger_env_def intro!: rollout_rel_mono [OF _ assms(2)])

lemma keeps_open:
  assumes "ledger_env E scope N" "N \<subseteq> K"
  shows "keeps (ledger_frame scope K) (ledger_open E scope q)"
proof -
  have fresh: "keeps (ledger_frame scope K) (ledger_put E scope (opened q))" if q: "open_ok q"
    unfolding keeps_def moving_def
  proof (intro allI impI)
    fix w :: world
    assume s: "rollout_sound scope (wo_store w)"
    let ?m = "world_now E w"
    have m: "rollout_rel scope K (wo_store w) ?m"
      using assms(1) s by (auto simp: ledger_env_def world_now_def intro!: rollout_rel_mono [OF _ assms(2)])
    show "rollout_rel scope K (wo_store w) (wo_store (snd (ledger_put E scope (opened q) w)))"
    proof (cases "mem_putDocument ?m scope DEPLOY_KIND (ro_id (opened q)) (rollout_obj (opened q)) (ro_stamp (opened q))")
      case (Inl e)
      with m show ?thesis by (simp add: ledger_put_def eff_bind_def storage_write_def storage_def Let_def world_now_def)
    next
      case (Inr m')
      have stamp: "ro_stamp (opened q) = None" by (simp add: opened_def)
      have none: "rollout_slot scope ?m (or_rollout q) = None"
        using doc_written(1) [OF Inr] by (simp add: rollout_slot_def stamp opened_members)
      have slot: "rollout_slot scope m' (or_rollout q) = Some (Suc 0, mdel ''_version'' (rollout_obj (opened q)))"
        using doc_written(2) [OF Inr] by (simp add: rollout_slot_def stamp opened_members)
      have bare: "bare (opened q) = opened q" by (simp add: bare_def opened_def)
      have "rollout_step K r (rollout_slot scope ?m r) (rollout_slot scope m' r)" for r
      proof (cases "r = or_rollout q")
        case True
        show ?thesis unfolding True slot none rollout_step_none using q moves_refl [of K "opened q"] bare
          by (metis bare_stamp(1) rollout_round)
      next
        case False
        then have "rollout_slot scope m' r = rollout_slot scope ?m r"
          unfolding rollout_slot_def by (intro doc_elsewhere [OF Inr]) (simp add: key3_def opened_members)
        then show ?thesis by simp
      qed
      then have "rollout_rel scope K ?m m'" by (simp add: rollout_rel_def)
      with m have "rollout_rel scope K (wo_store w) m'" by (rule lg.trans)
      with Inr show ?thesis by (simp add: ledger_put_def eff_bind_def eff_ret_def storage_write_def storage_def Let_def world_now_def)
    qed
  qed
  have op: "open_ok q \<Longrightarrow> keeps (ledger_frame scope K) (eff_bind (storage_read E (\<lambda>m. mem_getDocument m scope DEPLOY_KIND (or_rollout q)))
      (\<lambda>existing. case existing of Some x \<Rightarrow> eff_of (some_or (rollout_of x) type_error) | None \<Rightarrow> ledger_put E scope (opened q)))"
    by (intro lgf.keeps_bind keeps_ledger_read [OF assms] lgf.keeps_option fresh lgf.keeps_of)
  show ?thesis
  proof (cases "open_ok q")
    case True
    show ?thesis
      unfolding ledger_open_def
      by (rule lgf.keeps_bind [OF lgf.keeps_guard], rule lgf.keeps_bind [OF lgf.keeps_guard], rule op [OF True])
  next
    case False
    then show ?thesis
      by (auto simp: ledger_open_def open_ok_def keeps_def eff_bind_def eff_guard_def eff_of_def guard_res_def)
  qed
qed

lemma keeps_acquire:
  assumes "ledger_env E scope N" "N \<subseteq> K" "\<And>j. ActTake j controller now \<in> K"
  shows "keeps (ledger_frame scope K) (ledger_acquire E scope r controller leaseMs now)"
proof (rule lg.kept_triple)
  fix m0
  show "triple (from_on scope K m0 (\<lambda>_. True)) (ledger_acquire E scope r controller leaseMs now)
    (\<lambda>_. from_on scope K m0 (\<lambda>_. True)) (from_on scope K m0 (\<lambda>_. True))"
    unfolding ledger_acquire_def
  proof (rule triple_loaded [OF assms(1,2)], rule triple_if)
    fix d
    show "triple (from_on scope K m0 (current scope d)) (eff_ret None)
      (\<lambda>_. from_on scope K m0 (\<lambda>_. True)) (from_on scope K m0 (\<lambda>_. True))"
      by (rule triple_ret) (simp add: reached_by_def)
    assume "\<not> leased_elsewhere d controller now"
    note mv = ledger_move.take [OF this, of "now + leaseMs"]
    show "triple (from_on scope K m0 (current scope d)) (eff_bind (eff_exit (ledger_put E scope (taken d controller (now + leaseMs))))
        (\<lambda>saved. case saved of Inl e \<Rightarrow> eff_ret None | Inr d' \<Rightarrow> eff_ret (Some (ro_fence d + 1))))
      (\<lambda>_. from_on scope K m0 (\<lambda>_. True)) (from_on scope K m0 (\<lambda>_. True))"
      by (rule triple_bind [OF triple_change(1) [OF assms(1,2) mv assms(3)]])
         (auto simp: taken_def intro!: triple_ret split: sum.split)
  qed
qed

lemma keeps_renew:
  assumes "ledger_env E scope N" "N \<subseteq> K" "ActRenew k \<in> K"
  shows "keeps (ledger_frame scope K) (ledger_renew E scope r controller k leaseMs now)"
proof (rule lg.kept_triple)
  fix m0
  show "triple (from_on scope K m0 (\<lambda>_. True)) (ledger_renew E scope r controller k leaseMs now)
    (\<lambda>_. from_on scope K m0 (\<lambda>_. True)) (from_on scope K m0 (\<lambda>_. True))"
    unfolding ledger_renew_def
  proof (rule triple_loaded [OF assms(1,2)], rule triple_if)
    fix d
    show "triple (from_on scope K m0 (current scope d)) (eff_ret False)
      (\<lambda>_. from_on scope K m0 (\<lambda>_. True)) (from_on scope K m0 (\<lambda>_. True))"
      by (rule triple_ret) (simp add: reached_by_def)
    assume "\<not> \<not> leased_to d controller k"
    then have mv: "ledger_move (ActRenew k) d (renewed d controller k (now + leaseMs))" by (simp add: ledger_move.renew)
    show "triple (from_on scope K m0 (current scope d)) (eff_bind (eff_exit (ledger_put E scope (renewed d controller k (now + leaseMs))))
        (\<lambda>saved. case saved of Inl e \<Rightarrow> eff_ret False | Inr d' \<Rightarrow> eff_ret True))
      (\<lambda>_. from_on scope K m0 (\<lambda>_. True)) (from_on scope K m0 (\<lambda>_. True))"
      by (rule triple_bind [OF triple_change(1) [OF assms(1,2) mv assms(3)]])
         (auto simp: renewed_def intro!: triple_ret split: sum.split)
  qed
qed

text \<open>The clock a controller passes does not touch the store.\<close>

definition clock_only :: "'a eff \<Rightarrow> bool" where
  "clock_only m \<longleftrightarrow> (\<forall>w. wo_store (snd (m w)) = wo_store w)"

lemma triple_clock:
  assumes "clock_only m" "\<And>s. P s \<Longrightarrow> R s"
  shows "triple P m (\<lambda>_. P) R"
  unfolding triple_def
proof (intro allI impI)
  fix w r w'
  assume P: "P (wo_store w)" and run: "m w = (r, w')"
  have "wo_store w' = wo_store w" using assms(1) run unfolding clock_only_def by (metis snd_conv)
  with P assms(2) show "case r of Inr x \<Rightarrow> P (wo_store w') | Inl e \<Rightarrow> R (wo_store w')" by (simp split: sum.split)
qed

lemma triple_clock_bind:
  assumes "clock_only m" "\<And>s. P s \<Longrightarrow> R s" "\<And>x. triple P (f x) Q R"
  shows "triple P (eff_bind m f) Q R"
  using triple_bind [OF triple_clock [OF assms(1,2)] assms(3)] .

text \<open>
  Who acts under the token \<open>k\<close> and who does not. The action of a step reaches the ledger through its
  \<open>save\<close>, and apart from that may have other controllers move, renew the lease or record grants.
\<close>

definition others_of :: "int \<Rightarrow> ledger_act set" where
  "others_of k = - {x. act_token x = k}"

definition during :: "int \<Rightarrow> string \<Rightarrow> ledger_act set" where
  "during k s = others_of k \<union> leaves_running s"

definition beside :: "int \<Rightarrow> ledger_act set" where
  "beside k = others_of k \<union> {x. \<exists>j g. x = ActGrant j g \<or> x = ActRenew j}"

definition action_ok :: "string \<Rightarrow> int \<Rightarrow> (jsval \<Rightarrow> (jsval \<Rightarrow> unit eff) \<Rightarrow> jsval eff) \<Rightarrow> bool" where
  "action_ok scope k action \<longleftrightarrow>
     (\<forall>save P. lasting_by (rollout_sound scope) (rollout_rel scope (beside k)) P \<longrightarrow> (\<forall>s. P s \<longrightarrow> rollout_sound scope s) \<longrightarrow>
        (\<forall>c. triple P (save c) (\<lambda>_. P) P) \<longrightarrow> (\<forall>c. triple P (action c save) (\<lambda>_. P) P))"

lemma during_sub: "others_of k \<subseteq> during k s" "beside k \<subseteq> during k s"
  by (auto simp: during_def beside_def leaves_running_def)

definition runs :: "int \<Rightarrow> string \<Rightarrow> rollout \<Rightarrow> bool" where
  "runs k s d \<longleftrightarrow> holds_token d k \<and> lease_known d \<and> step_running d s"

lemma lasting_by_mono: "lasting_by S (rollout_rel scope L) P \<Longrightarrow> K \<subseteq> L \<Longrightarrow> lasting_by S (rollout_rel scope K) P"
  unfolding lasting_by_def using rollout_rel_mono by blast

text \<open>After the step has begun: whoever still holds the token finds the step running, and only its own moves since.\<close>

lemma still_running:
  assumes "runs k s d" "moves (during k s) (bare d) (bare b)" "holds_token b k"
  shows "step_running b s \<and> lease_known b \<and> moves {x \<in> leaves_running s. act_token x = k} (bare d) (bare b)"
proof -
  have d: "holds_token (bare d) k" "lease_known (bare d)" using assms(1) by (simp_all add: runs_def)
  have "lost k (bare b) \<or> (holds_token (bare b) k \<and> lease_known (bare b) \<and> moves {x \<in> leaves_running s. act_token x = k} (bare d) (bare b))"
    by (rule exclusive [OF _ d]) (use assms(2) in \<open>simp add: during_def others_of_def\<close>)
  then have b: "lease_known b" "moves {x \<in> leaves_running s. act_token x = k} (bare d) (bare b)"
    using assms(3) by (simp_all add: lost_def)
  have "step_running (bare b) s"
    by (rule running_kept [OF b(2)]) (use assms(1) in \<open>auto simp: runs_def\<close>)
  with b show ?thesis by simp
qed

lemma changed_step:
  assumes "change_step s f d = Inr b" "step_running d s"
  obtains st where "map_of (ro_steps d) s = Some st" "rs_status st = StepRunning" "b = with_step s (f st) d"
  using assms by (auto simp: change_step_def some_or_def step_running_def bind_res_Inr_iff split: option.splits)

lemma with_step_stamp: "ro_stamp (with_step s st d) = ro_stamp d"
  by (simp add: with_step_def)

text \<open>A change of the running step by its holder, one of the moves a running step makes.\<close>

lemma triple_running_change:
  assumes "ledger_env E scope (others_of k)" "runs k s d" "ro_id d = r" "holds_token cur k"
    "\<And>st. map_of (ro_steps cur) s = Some st \<Longrightarrow> rs_status st = StepRunning \<Longrightarrow> \<exists>x. ledger_move x cur (with_step s (f st) cur)"
  shows "triple (from_on scope UNIV m0 (\<lambda>t. since scope (during k s) d t \<and> ro_id cur = r \<and> current scope cur t))
     (eff_bind (eff_of (change_step s f cur)) (ledger_put E scope))
     (\<lambda>c. from_on scope UNIV m0 (\<lambda>t. current scope c t \<and> (\<exists>st. map_of (ro_steps cur) s = Some st \<and> rs_status st = StepRunning \<and>
        c = restamped (with_step s (f st) cur) \<and> ro_id cur = r \<and> lease_known cur \<and>
        moves {x \<in> leaves_running s. act_token x = k} (bare d) (bare cur))))
     (from_on scope UNIV m0 (since scope (during k s) d))"
  (is "triple ?P ?m ?Q ?R")
proof (cases "moves (during k s) (bare d) (bare cur) \<and> ro_id cur = r")
  case False
  then show ?thesis using since_current assms(3) by (fastforce simp: triple_def reached_by_def)
next
  case True
  note run = still_running [OF assms(2) conjunct1 [OF True] assms(4)]
  then obtain st where st: "map_of (ro_steps cur) s = Some st" "rs_status st = StepRunning" by (auto simp: step_running_def)
  obtain x where x: "ledger_move x cur (with_step s (f st) cur)" using assms(5) st by blast
  have c: "change_step s f cur = Inr (with_step s (f st) cur)" by (simp add: change_step_def some_or_def st(1))
  have put: "triple (from_on scope UNIV m0 (\<lambda>t. since scope (during k s) d t \<and> seen scope cur t))
      (ledger_put E scope (with_step s (f st) cur)) (\<lambda>c. from_on scope UNIV m0 (\<lambda>t. c = restamped (with_step s (f st) cur) \<and> current scope c t)) ?R"
    by (rule triple_put [OF assms(1) _ x]) (simp_all add: with_step_stamp lasting_by_mono [OF lasting_since during_sub(1)])
  have "triple ?P (ledger_put E scope (with_step s (f st) cur)) ?Q ?R"
    by (rule triple_weaken [OF put]) (use st run True in \<open>auto simp: reached_by_def intro: current_seen\<close>)
  then show ?thesis by (simp add: c eff_bind_def eff_of_def)
qed

lemma eff_bind_assoc: "eff_bind (eff_bind m f) g = eff_bind m (\<lambda>x. eff_bind (f x) g)"
  by (rule ext) (simp add: eff_bind_def split: prod.splits sum.splits)

lemma current_after:
  assumes "current scope c t" "ro_id c = ro_id d" "moves K (bare d) (bare c)"
  shows "since scope K d t"
  using assms by (auto simp: current_def since_def)

lemma restamped_id: "ro_id (restamped (with_step s st d)) = ro_id d"
  by (simp add: restamped_def with_step_def)

lemma triple_checkpoint:
  assumes "ledger_env E scope (others_of k)" "runs k s d" "ro_id d = r" "clock_only now"
  shows "triple (from_on scope UNIV m0 (since scope (during k s) d)) (ledger_save E scope r s k now v)
    (\<lambda>_. from_on scope UNIV m0 (since scope (during k s) d)) (from_on scope UNIV m0 (since scope (during k s) d))"
    (is "triple ?S _ _ _")
proof -
  have put: "triple (from_on scope UNIV m0 (\<lambda>t. since scope (during k s) d t \<and> ro_id cur = r \<and> current scope cur t))
      (eff_bind (eff_of (change_step s (checkpointed v) cur)) (\<lambda>d. eff_bind (ledger_put E scope d) (\<lambda>_. eff_ret ()))) (\<lambda>_. ?S) ?S"
    if k: "holds_token cur k" for cur
  proof -
    have move: "ledger_move (ActCheckpoint k s) cur (with_step s (checkpointed v st) cur)"
      if "map_of (ro_steps cur) s = Some st" "rs_status st = StepRunning" for st
      using ledger_move.checkpoint [OF k that] .
    have after: "since scope (during k s) d t"
      if "current scope (restamped (with_step s (checkpointed v st) cur)) t" "map_of (ro_steps cur) s = Some st"
        "rs_status st = StepRunning" "ro_id cur = r" "moves {x \<in> leaves_running s. act_token x = k} (bare d) (bare cur)" for st t
    proof (rule current_after [OF that(1)])
      show "ro_id (restamped (with_step s (checkpointed v st) cur)) = ro_id d" using that(4) assms(3) by (simp add: restamped_id)
      have "moves (during k s) (bare cur) (bare (with_step s (checkpointed v st) cur))"
        by (rule moves_one [OF move_bare [OF move [OF that(2,3)]]]) (simp add: during_def leaves_running_def)
      moreover have "moves (during k s) (bare d) (bare cur)" by (rule moves_mono [OF that(5)]) (auto simp: during_def)
      ultimately show "moves (during k s) (bare d) (bare (restamped (with_step s (checkpointed v st) cur)))"
        using moves_trans by simp
    qed
    show ?thesis
      unfolding eff_bind_assoc [symmetric]
      by (rule triple_bind [OF triple_running_change [OF assms(1-3) k]])
         (use move in \<open>auto simp: reached_by_def intro!: triple_ret intro: after\<close>)
  qed
  show ?thesis
    unfolding ledger_save_def
    by (rule triple_bind [OF triple_ledger_load [OF assms(1) subset_UNIV lasting_by_mono [OF lasting_since during_sub(1)]]],
        rule triple_clock_bind [OF assms(4)], simp add: reached_by_def, rule triple_guarded, erule put, simp)
qed

text \<open>What a run of a step that was not skipped has done: only the controller's own moves, and the result is recorded.\<close>

definition ran :: "string \<Rightarrow> int \<Rightarrow> string \<Rightarrow> jsval \<Rightarrow> rollout \<Rightarrow> rollout \<Rightarrow> bool" where
  "ran r k s v a b \<longleftrightarrow> ro_id a = r \<and> reachable r (bare a) \<and> holds_token a k \<and> \<not> step_done a s \<and> earlier_done a s (ro_order a) = Inr () \<and>
     moves {x. act_token x = k} (bare a) (bare b) \<and> holds_token b k \<and>
     (\<exists>st. map_of (ro_steps b) s = Some st \<and> rs_status st = StepDone \<and> rs_result st = v)"

lemma triple_step_finished:
  assumes "ledger_env E scope (others_of k)" "runs k s d" "ro_id d = r" "clock_only now"
    "ro_id a = r" "reachable r (bare a)" "holds_token a k" "\<not> step_done a s" "earlier_done a s (ro_order a) = Inr ()"
    "moves {x. act_token x = k} (bare a) (bare d)"
  shows "triple (from_on scope UNIV m0 (since scope (during k s) d)) (step_finished E scope r s k now v)
    (\<lambda>x. from_on scope UNIV m0 (\<lambda>t. \<exists>b. x = (v, False) \<and> current scope b t \<and> ro_id b = r \<and> ran r k s v a b))
    (from_on scope UNIV m0 (since scope (during k s) d))"
    (is "triple ?S _ ?Q _")
proof -
  have put: "triple (from_on scope UNIV m0 (\<lambda>t. since scope (during k s) d t \<and> ro_id cur = r \<and> current scope cur t))
      (eff_bind (eff_of (change_step s (finished v) cur)) (\<lambda>d. eff_bind (ledger_put E scope d) (\<lambda>_. eff_ret (v, False)))) ?Q ?S"
    if k: "holds_token cur k" for cur
  proof -
    have move: "ledger_move (ActFinish k s v) cur (with_step s (finished v st) cur)"
      if "map_of (ro_steps cur) s = Some st" "rs_status st = StepRunning" for st
      using ledger_move.finish [OF k that] .
    have after: "ran r k s v a (restamped (with_step s (finished v st) cur))"
      if "map_of (ro_steps cur) s = Some st" "rs_status st = StepRunning" "moves {x \<in> leaves_running s. act_token x = k} (bare d) (bare cur)" for st
    proof -
      have "moves {x. act_token x = k} (bare d) (bare cur)" by (rule moves_mono [OF that(3)]) auto
      moreover have "moves {x. act_token x = k} (bare cur) (bare (with_step s (finished v st) cur))"
        by (rule moves_one [OF move_bare [OF move [OF that(1,2)]]]) simp
      ultimately have "moves {x. act_token x = k} (bare a) (bare (with_step s (finished v st) cur))"
        using assms(10) moves_trans by blast
      moreover have "holds_token (restamped (with_step s (finished v st) cur)) k"
        using k by (simp add: restamped_def with_step_def holds_token_def)
      moreover have "map_of (ro_steps (restamped (with_step s (finished v st) cur))) s = Some (finished v st)"
        by (simp add: restamped_def with_step_def)
      ultimately show ?thesis using assms(5-9) by (simp add: ran_def finished_def)
    qed
    show ?thesis
      unfolding eff_bind_assoc [symmetric]
    proof (rule triple_bind [OF triple_running_change [OF assms(1-3) k]])
      show "\<exists>x. ledger_move x cur (with_step s (finished v st) cur)"
        if "map_of (ro_steps cur) s = Some st" "rs_status st = StepRunning" for st using move [OF that] by blast
      show "triple (from_on scope UNIV m0 (\<lambda>t. current scope c t \<and> (\<exists>st. map_of (ro_steps cur) s = Some st \<and> rs_status st = StepRunning \<and>
          c = restamped (with_step s (finished v st) cur) \<and> ro_id cur = r \<and> lease_known cur \<and>
          moves {x \<in> leaves_running s. act_token x = k} (bare d) (bare cur)))) (eff_ret (v, False)) ?Q ?S" for c
        by (rule triple_ret) (use after in \<open>auto simp: reached_by_def restamped_id intro!: exI [of _ c]\<close>)
    qed
  qed
  show ?thesis
    unfolding step_finished_def
    by (rule triple_bind [OF triple_ledger_load [OF assms(1) subset_UNIV lasting_by_mono [OF lasting_since during_sub(1)]]],
        rule triple_clock_bind [OF assms(4)], simp add: reached_by_def, rule triple_guarded, erule put, simp)
qed

lemma triple_step_failed:
  assumes "ledger_env E scope (others_of k)" "runs k s d" "ro_id d = r"
  shows "triple (from_on scope UNIV m0 (since scope (during k s) d)) (step_failed E scope r s k e)
    (\<lambda>_ _. False) (from_on scope UNIV m0 (\<lambda>_. True))"
    (is "triple ?S _ _ ?R")
proof -
  have put: "triple (from_on scope UNIV m0 (\<lambda>t. since scope (during k s) d t \<and> ro_id cur = r \<and> current scope cur t))
      (eff_bind (eff_of (change_step s failed cur)) (\<lambda>d. eff_bind (ledger_put E scope d) (\<lambda>_. eff_ret ()))) (\<lambda>_. ?R) ?R"
    if k: "holds_token cur k" for cur
  proof -
    have move: "\<exists>x. ledger_move x cur (with_step s (failed st) cur)"
      if "map_of (ro_steps cur) s = Some st" "rs_status st = StepRunning" for st
      using ledger_move.fail [OF k that] by blast
    have "triple (from_on scope UNIV m0 (\<lambda>t. since scope (during k s) d t \<and> ro_id cur = r \<and> current scope cur t))
        (eff_bind (eff_of (change_step s failed cur)) (ledger_put E scope)) (\<lambda>_. ?R) ?R"
      by (rule triple_weaken [OF triple_running_change [OF assms(1-3) k move]]) (auto simp: reached_by_def)
    then show ?thesis
      unfolding eff_bind_assoc [symmetric] by (rule triple_bind) (rule triple_ret)
  qed
  have upd: "triple (from_on scope UNIV m0 (\<lambda>t. since scope (during k s) d t \<and> ro_id cur = r \<and> current scope cur t))
      (if holds_token cur k then eff_bind (eff_of (change_step s failed cur)) (\<lambda>d. eff_bind (ledger_put E scope d) (\<lambda>_. eff_ret ()))
       else eff_ret ()) (\<lambda>_. ?R) ?R" for cur
    by (rule triple_if, erule put, rule triple_ret) (simp add: reached_by_def)
  have load: "triple ?S (ledger_load E scope r)
      (\<lambda>cur. from_on scope UNIV m0 (\<lambda>t. since scope (during k s) d t \<and> ro_id cur = r \<and> current scope cur t)) ?R"
    by (rule triple_weaken [OF triple_ledger_load [OF assms(1) subset_UNIV lasting_by_mono [OF lasting_since during_sub(1)]]])
       (auto simp: reached_by_def)
  have rest: "triple ?S (eff_bind (ledger_load E scope r) (\<lambda>cur. eff_bind (if holds_token cur k
      then eff_bind (eff_of (change_step s failed cur)) (\<lambda>d. eff_bind (ledger_put E scope d) (\<lambda>_. eff_ret ())) else eff_ret ())
      (\<lambda>_. eff_fail e))) (\<lambda>_ _. False) ?R"
    by (rule triple_bind [OF load], rule triple_bind [OF upd], rule triple_fail)
  have "triple ?S (eff_fail e) (\<lambda>_ _. False) ?R" by (rule triple_fail) (simp add: reached_by_def)
  with rest show ?thesis unfolding step_failed_def by (intro triple_if)
qed

lemma reachable_known: "reachable r (bare d) \<Longrightarrow> lease_known d"
  using reachable_ok by (fastforce simp: rollout_ok_def)

lemma triple_action:
  assumes "action_ok scope k action" "\<And>c. triple (from_on scope UNIV m0 (since scope (during k s) d)) (save c)
    (\<lambda>_. from_on scope UNIV m0 (since scope (during k s) d)) (from_on scope UNIV m0 (since scope (during k s) d))"
  shows "triple (from_on scope UNIV m0 (since scope (during k s) d)) (eff_exit (action c save))
    (\<lambda>_. from_on scope UNIV m0 (since scope (during k s) d)) R"
proof -
  let ?P = "from_on scope UNIV m0 (since scope (during k s) d)"
  have "lasting_by (rollout_sound scope) (rollout_rel scope (beside k)) ?P"
    unfolding lasting_by_def
  proof (intro allI impI)
    fix a b
    assume a: "rollout_sound scope a" "rollout_rel scope (beside k) a b" "?P a"
    have "since scope (during k s) d b"
      using lasting_by_mono [OF lasting_since during_sub(2), of scope k s d] a unfolding lasting_by_def reached_by_def by blast
    moreover have "from_on scope UNIV m0 (\<lambda>_. True) b"
      by (rule lg.reached_lasting [OF lasting_by_True reached_by_anywhere [OF a(3)] rollout_rel_mono [OF a(2) subset_UNIV]])
    ultimately show "?P b" by (simp add: reached_by_def)
  qed
  moreover have "\<forall>s. ?P s \<longrightarrow> rollout_sound scope s" by (simp add: reached_by_def)
  ultimately have t: "triple ?P (action c save) (\<lambda>_. ?P) ?P"
    using assms unfolding action_ok_def by blast
  show ?thesis by (rule triple_weaken [OF triple_exit [OF t]]) (auto split: sum.splits)
qed

definition recorded :: "string \<Rightarrow> string \<Rightarrow> jsval \<Rightarrow> rollout \<Rightarrow> bool" where
  "recorded r s v b \<longleftrightarrow> ro_id b = r \<and> (\<exists>st. map_of (ro_steps b) s = Some st \<and> rs_status st = StepDone \<and> rs_result st = v)"

definition run_outcome :: "string \<Rightarrow> string \<Rightarrow> int \<Rightarrow> string \<Rightarrow> jsval \<times> bool \<Rightarrow> memory \<Rightarrow> bool" where
  "run_outcome scope r k s x m \<longleftrightarrow>
     (\<exists>b. current scope b m \<and> recorded r s (fst x) b \<and> (\<not> snd x \<longrightarrow> (\<exists>a. ran r k s (fst x) a b)))"

lemma triple_begun:
  assumes "ledger_env E scope (others_of k)" "clock_only now" "action_ok scope k action"
    and "ro_id d = r" "reachable r (bare d)" "holds_token d k" "map_of (ro_steps d) s = Some st" "rs_status st \<noteq> StepDone"
    "earlier_done d s (ro_order d) = Inr ()"
  shows "triple (from_on scope UNIV m0 (current scope d))
    (eff_bind (ledger_put E scope (with_step s (begun d k st) d)) (\<lambda>_.
     eff_bind (eff_exit (action c (ledger_save E scope r s k now))) (\<lambda>x.
       case x of Inl e \<Rightarrow> step_failed E scope r s k e | Inr v \<Rightarrow> step_finished E scope r s k now v)))
    (\<lambda>x. from_on scope UNIV m0 (run_outcome scope r k s x)) (from_on scope UNIV m0 (\<lambda>_. True))"
    (is "triple _ _ ?Q ?R")
proof -
  let ?d = "restamped (with_step s (begun d k st) d)"
  let ?S = "from_on scope UNIV m0 (since scope (during k s) ?d)"
  have move: "ledger_move (ActBegin k s) d (with_step s (begun d k st) d)"
    by (rule ledger_move.start) (use assms(6-9) in simp_all)
  have own: "moves {x. act_token x = k} (bare d) (bare ?d)" using moves_one [OF move_bare [OF move]] by simp
  have id: "ro_id ?d = r" using assms(4) by (simp add: restamped_id)
  have "lease_known ?d" using reachable_known reachable_moves [OF assms(5) own] by blast
  then have runs: "runs k s ?d"
    using assms(6) by (simp add: runs_def restamped_def with_step_def holds_token_def step_running_def begun_def)
  have put: "triple (from_on scope UNIV m0 (current scope d)) (ledger_put E scope (with_step s (begun d k st) d))
      (\<lambda>_. ?S) ?R"
    by (rule triple_weaken [OF triple_put [OF assms(1) subset_UNIV move UNIV_I with_step_stamp lasting_by_True]])
       (auto simp: reached_by_def intro: current_seen current_since)
  have act: "triple ?S (eff_exit (action c (ledger_save E scope r s k now))) (\<lambda>_. ?S) ?R"
    by (rule triple_action [OF assms(3) triple_checkpoint [OF assms(1) runs id assms(2)]])
  have "\<not> step_done d s" using assms(7,8) by (simp add: step_done_def)
  note fin = triple_step_finished [OF assms(1) runs id assms(2,4-6) this assms(9) own]
  have last: "triple ?S (case x of Inl e \<Rightarrow> step_failed E scope r s k e | Inr v \<Rightarrow> step_finished E scope r s k now v) ?Q ?R" for x
  proof (cases x)
    case (Inl e)
    then show ?thesis by (simp, intro triple_weaken [OF triple_step_failed [OF assms(1) runs id]]) simp_all
  next
    case (Inr v)
    show ?thesis
      unfolding Inr sum.case
      by (rule triple_weaken [OF fin]) (auto simp: reached_by_def run_outcome_def recorded_def ran_def)
  qed
  show ?thesis by (rule triple_bind [OF put], rule triple_bind [OF act], rule last)
qed

lemma triple_ledger_run:
  assumes "ledger_env E scope (others_of k)" "clock_only now" "action_ok scope k action"
  shows "triple (from_on scope UNIV m0 (\<lambda>_. True)) (ledger_run E scope r s k action now)
    (\<lambda>x. from_on scope UNIV m0 (run_outcome scope r k s x)) (from_on scope UNIV m0 (\<lambda>_. True))"
    (is "triple _ _ ?Q ?R")
  unfolding ledger_run_def
proof (rule triple_loaded [OF assms(1) subset_UNIV], rule triple_clock_bind [OF assms(2)], simp add: reached_by_def,
    rule triple_guarded)
  fix d t
  assume d: "ro_id d = r" "reachable r (bare d)" "holds_token d k"
  let ?rest = "\<lambda>st. if rs_status st = StepDone then eff_ret (rs_result st, True)
     else eff_bind (eff_of (earlier_done d s (ro_order d))) (\<lambda>_.
       eff_bind (ledger_put E scope (with_step s (begun d k st) d)) (\<lambda>_.
       eff_bind (eff_exit (action (rs_checkpoint st) (ledger_save E scope r s k now))) (\<lambda>x.
         case x of Inl e \<Rightarrow> step_failed E scope r s k e | Inr v \<Rightarrow> step_finished E scope r s k now v)))"
  have rest: "triple (from_on scope UNIV m0 (current scope d)) (?rest st) ?Q ?R" if st: "map_of (ro_steps d) s = Some st" for st
  proof (rule triple_if)
    assume "rs_status st = StepDone"
    with st d(1) show "triple (from_on scope UNIV m0 (current scope d)) (eff_ret (rs_result st, True)) ?Q ?R"
      by (intro triple_ret) (auto simp: reached_by_def run_outcome_def recorded_def intro!: exI [of _ d])
  next
    assume nd: "rs_status st \<noteq> StepDone"
    show "triple (from_on scope UNIV m0 (current scope d)) (eff_bind (eff_of (earlier_done d s (ro_order d))) (\<lambda>_.
       eff_bind (ledger_put E scope (with_step s (begun d k st) d)) (\<lambda>_.
       eff_bind (eff_exit (action (rs_checkpoint st) (ledger_save E scope r s k now))) (\<lambda>x.
         case x of Inl e \<Rightarrow> step_failed E scope r s k e | Inr v \<Rightarrow> step_finished E scope r s k now v)))) ?Q ?R"
    proof (cases "earlier_done d s (ro_order d)")
      case (Inl e)
      then show ?thesis by (auto simp: triple_def eff_bind_def eff_of_def reached_by_def)
    next
      case (Inr u)
      then have "earlier_done d s (ro_order d) = Inr ()" by simp
      note b = triple_begun [OF assms d st nd this, of m0 "rs_checkpoint st"]
      show ?thesis unfolding Inr using b by (simp add: eff_bind_def eff_of_def)
    qed
  qed
  show "triple (from_on scope UNIV m0 (current scope d)) (eff_bind (eff_of (some_or (map_of (ro_steps d) s) plain_error)) ?rest) ?Q ?R"
  proof (cases "map_of (ro_steps d) s")
    case None
    then show ?thesis by (auto simp: triple_def eff_bind_def eff_of_def some_or_def reached_by_def)
  next
    case (Some st)
    show ?thesis using rest [OF Some] by (simp add: Some some_or_def eff_bind_def eff_of_def)
  qed
qed simp

lemma triple_keeps:
  assumes "\<And>m0. triple (from_on scope UNIV m0 (\<lambda>_. True)) m (Q m0) (from_on scope UNIV m0 (\<lambda>_. True))"
    "\<And>m0 x s. Q m0 x s \<Longrightarrow> from_on scope UNIV m0 (\<lambda>_. True) s"
  shows "keeps (ledger_frame scope UNIV) m"
  by (rule lg.kept_triple, rule triple_weaken [OF assms(1)]) (use assms(2) in auto)

lemma keeps_run:
  "ledger_env E scope (others_of k) \<Longrightarrow> clock_only now \<Longrightarrow> action_ok scope k action \<Longrightarrow>
   keeps (ledger_frame scope UNIV) (ledger_run E scope r s k action now)"
  by (rule triple_keeps [OF triple_ledger_run]) (auto simp: reached_by_def)

lemma keeps_grant:
  assumes "ledger_env E scope N" "keeps (ledger_frame scope UNIV) activate"
  shows "keeps (ledger_frame scope UNIV) (activateGrantOnce E scope r k g activate now)"
proof (rule lg.kept_triple)
  fix m0
  let ?any = "from_on scope UNIV m0 (\<lambda>_. True)"
  have act: "triple ?any activate (\<lambda>_. ?any) ?any" by (rule lg.triple_kept [OF assms(2)]) simp
  have last: "triple ?any (eff_bind (ledger_load E scope r) (\<lambda>cur. eff_bind (eff_of (ledger_guard cur k now)) (\<lambda>_.
      eff_bind (ledger_put E scope (grant_recorded g cur)) (\<lambda>_. eff_ret True)))) (\<lambda>_. ?any) ?any"
    by (rule triple_loaded [OF assms(1) subset_UNIV], rule triple_guarded,
        rule triple_change(2) [OF assms(1) subset_UNIV ledger_move.grant UNIV_I]) (auto simp: grant_recorded_def)
  show "triple ?any (activateGrantOnce E scope r k g activate now) (\<lambda>_. ?any) ?any"
    unfolding activateGrantOnce_def
    by (rule triple_loaded [OF assms(1) subset_UNIV], rule triple_guarded, rule triple_if, rule triple_ret, simp add: reached_by_def,
        rule triple_pre [OF triple_bind [OF act last]]) (simp_all add: reached_by_def)
qed

lemma keeps_reactivate: "(\<And>g. keeps (ledger_frame scope K) (activate g)) \<Longrightarrow> keeps (ledger_frame scope K) (reactivate revoked activate gs)"
  by (induction gs) (auto intro!: lgf.keeps_ret lgf.keeps_bind lgf.keeps_pair)

lemma keeps_rollback:
  assumes "ledger_env E scope N" "\<And>g. keeps (ledger_frame scope UNIV) (activate g)"
  shows "keeps (ledger_frame scope UNIV) (ledger_rollback E scope r k grants revoked activate now)"
proof (rule lg.kept_triple)
  fix m0
  let ?any = "from_on scope UNIV m0 (\<lambda>_. True)"
  have act: "triple ?any (reactivate revoked activate grants) (\<lambda>_. ?any) ?any"
    by (rule lg.triple_kept [OF keeps_reactivate [OF assms(2)]]) simp
  have last: "triple ?any (eff_bind (ledger_load E scope r) (\<lambda>cur. eff_bind (eff_of (ledger_guard cur k now)) (\<lambda>_.
      eff_bind (ledger_put E scope (rolled_back cur)) (\<lambda>_. eff_ret x)))) (\<lambda>_. ?any) ?any" for x
    by (rule triple_loaded [OF assms(1) subset_UNIV], rule triple_guarded,
        rule triple_change(2) [OF assms(1) subset_UNIV ledger_move.revert UNIV_I]) (auto simp: rolled_back_def)
  show "triple ?any (ledger_rollback E scope r k grants revoked activate now) (\<lambda>_. ?any) ?any"
    unfolding ledger_rollback_def
    by (rule triple_loaded [OF assms(1) subset_UNIV], rule triple_guarded,
        rule triple_pre [OF triple_bind [OF act last]]) (simp_all add: reached_by_def)
qed

lemma keeps_complete:
  assumes "ledger_env E scope N"
  shows "keeps (ledger_frame scope UNIV) (ledger_complete E scope r k now)"
proof (rule lg.kept_triple)
  fix m0
  let ?any = "from_on scope UNIV m0 (\<lambda>_. True)"
  have put: "triple (from_on scope UNIV m0 (current scope d)) (eff_bind (eff_of (unfinished d)) (\<lambda>pending.
      eff_bind (eff_guard (pending = []) plain_error) (\<lambda>_. eff_bind (ledger_put E scope (completed d)) (\<lambda>_. eff_ret ()))))
      (\<lambda>_. ?any) ?any" if k: "holds_token d k" for d
  proof (cases "unfinished d = Inr []")
    case True
    have "triple (from_on scope UNIV m0 (current scope d)) (eff_bind (ledger_put E scope (completed d)) (\<lambda>_. eff_ret ())) (\<lambda>_. ?any) ?any"
      by (rule triple_change(2) [OF assms subset_UNIV ledger_move.complete [OF k True] UNIV_I]) (simp add: completed_def)
    then show ?thesis by (simp add: True eff_bind_def eff_of_def eff_guard_def guard_res_def)
  next
    case False
    then show ?thesis
      by (cases "unfinished d") (auto simp: triple_def eff_bind_def eff_of_def eff_guard_def guard_res_def reached_by_def)
  qed
  show "triple ?any (ledger_complete E scope r k now) (\<lambda>_. ?any) ?any"
    unfolding ledger_complete_def
    by (rule triple_loaded [OF assms subset_UNIV], rule triple_guarded, erule put) simp
qed

end
