(* ===== verification/Engine_Call.thy ===== *)
theory Engine_Call
  imports Engine
begin

text \<open>
  The entry points of the engine (\<open>packages/runtime/src/engine.ts\<close>): the OAuth publication gate
  (\<open>packages/runtime/src/oauth-operation.ts\<close>), the dispatch of an operation id, resource operations
  with and without a purpose surface, and \<open>atomic\<close>. The handlers of features, functions and read
  models that are linked into an engine are the record \<open>linked\<close>.
\<close>

section \<open>The OAuth gate\<close>

record oauth_rule =
  ou_visibility :: string
  ou_scopes :: "string list"

record publication =
  pb_operations :: "(string \<times> oauth_rule) list"
  pb_authorizationServers :: "string list"
  pb_resource :: string

record oauth_access =
  oa_tokenType :: string
  oa_issuer :: string
  oa_audiences :: "string list"
  oa_scopes :: "string list"
  oa_clientId :: string
  oa_expiresAt :: int

definition valid_access :: "publication \<Rightarrow> oauth_access option \<Rightarrow> int \<Rightarrow> bool" where
  "valid_access p access now = (case access of None \<Rightarrow> False
     | Some a \<Rightarrow> oa_tokenType a = ''access-token'' \<and> oa_clientId a \<noteq> [] \<and> length (oa_clientId a) \<le> 512 \<and>
         oa_issuer a \<in> set (pb_authorizationServers p) \<and> pb_resource p \<in> set (oa_audiences a) \<and>
         safe_int (oa_expiresAt a) \<and> now < oa_expiresAt a)"

definition checkPublishedOAuth :: "publication \<Rightarrow> string \<Rightarrow> oauth_access option \<Rightarrow> int \<Rightarrow> exn option" where
  "checkPublishedOAuth p opId access now =
     (case map_of (pb_operations p) opId of
        None \<Rightarrow> Some (err ''NotPermitted'')
      | Some rule \<Rightarrow>
          if ou_visibility rule = ''private'' then Some (err ''NotPermitted'')
          else if ou_visibility rule = ''public'' then None
          else if ou_visibility rule \<noteq> ''oauth2'' \<or> ou_scopes rule = [] then Some (err ''NotPermitted'')
          else if \<not> valid_access p access now then Some (err ''Unauthenticated'')
          else if \<not> list_all (\<lambda>s. s \<in> set (case access of None \<Rightarrow> [] | Some a \<Rightarrow> oa_scopes a)) (ou_scopes rule)
            then Some (err ''NotPermitted'')
          else None)"

definition oauthGate ::
    "publication option \<Rightarrow> gatekeeper \<Rightarrow> string \<Rightarrow> call_context \<Rightarrow> oauth_access option \<Rightarrow> int \<Rightarrow> exn option" where
  "oauthGate pub g opId ctx access now =
     (if cx_maintenance ctx then None
      else case pub of
          None \<Rightarrow> None
        | Some p \<Rightarrow> if gk_authorizer g = None then Some (err ''NotPermitted'')
            else checkPublishedOAuth p opId access now)"

section \<open>Resource operations\<close>

record linked =
  li_feature :: "string \<Rightarrow> (string \<Rightarrow> obj \<Rightarrow> call_context \<Rightarrow> jsval eff) option"
  li_function :: "string \<Rightarrow> (jsval \<Rightarrow> call_context \<Rightarrow> receipt option \<Rightarrow> obj eff) option"
  li_readModel :: "string \<Rightarrow> (obj \<Rightarrow> call_context \<Rightarrow> jsval eff) option"
  li_blob :: "string \<Rightarrow> resource \<Rightarrow> obj \<Rightarrow> call_context \<Rightarrow> obj eff"

definition eff_obj :: "obj eff \<Rightarrow> jsval eff" where
  "eff_obj m = eff_bind m (\<lambda>x. eff_ret (JObj x))"

definition query_name :: "operation_decl \<Rightarrow> string eff" where
  "query_name op = eff_of (some_or (op_query op) type_error)"

definition body_id :: "obj \<Rightarrow> string" where
  "body_id body = js_string (oget body ''id'')"

definition operation :: "env \<Rightarrow> linked \<Rightarrow> string \<Rightarrow> operation_decl \<Rightarrow> resource \<Rightarrow> obj \<Rightarrow> call_context \<Rightarrow> jsval eff" where
  "operation E L opId op r body ctx =
     (let k = op_kind op; pl = en_platform E; md = en_model E; t = cx_tenant ctx in
      if k = ''get'' then eff_obj (get E r (body_id body) ctx)
      else if k = ''find'' then eff_bind (query_name op) (\<lambda>q. eff_obj (find_one E r q body ctx))
      else if k = ''list'' then eff_bind (query_name op) (\<lambda>q. eff_obj (list_many E r (op_id op) q body ctx))
      else if k \<in> {''create'', ''update'', ''delete'', ''restore'', ''transition''} then
        withIdempotency E (op_id op) body ctx (mutate E opId body ctx) None
      else if k = ''effective'' then eff_obj (storage_try E (\<lambda>m. effective pl md m t r body))
      else if k = ''move'' then
        withIdempotency E (op_id op) body ctx (\<lambda>rc. eff_bind (move E r body ctx) (commit_plan_eff E rc)) None
      else if k = ''children'' then eff_obj (storage_try E (\<lambda>m. children pl md m t r body))
      else if k = ''ancestors'' then eff_obj (storage_try E (\<lambda>m. ancestors pl md m t r body))
      else if k \<in> {''beginUpload'', ''finalizeUpload'', ''download''} then eff_obj (li_blob L k r body ctx)
      else eff_fail (err ''MethodNotAllowed''))"

text \<open>\<open>scope.project\<close> of what an operation returned; a value that is no object makes it throw.\<close>

definition project_value :: "(obj \<Rightarrow> obj) \<Rightarrow> jsval \<Rightarrow> jsval res" where
  "project_value f v = (case v of JObj x \<Rightarrow> Inr (JObj (f x)) | _ \<Rightarrow> Inl type_error)"

definition eff_project :: "(obj \<Rightarrow> obj) \<Rightarrow> jsval eff \<Rightarrow> jsval eff" where
  "eff_project f m = eff_bind m (\<lambda>v. eff_of (project_value f v))"

definition checked :: "unit res \<Rightarrow> jsval eff \<Rightarrow> jsval eff" where
  "checked c m = eff_bind (eff_of c) (\<lambda>_. m)"

definition scopedOperation ::
    "env \<Rightarrow> linked \<Rightarrow> surface \<Rightarrow> operation_decl \<Rightarrow> resource \<Rightarrow> obj \<Rightarrow> call_context \<Rightarrow> jsval eff" where
  "scopedOperation E L s op r body ctx =
     (let k = op_kind op; project = eff_project (scope_project s);
          mutation = withIdempotency E (op_id op) body ctx (mutate E (op_id op) body ctx) None in
      if k = ''get'' then project (eff_obj (get E r (body_id body) ctx))
      else if k = ''find'' then
        eff_bind (query_name op) (\<lambda>q.
        eff_bind (eff_of (some_or (List.find (\<lambda>x. fi_name x = q) (r_finds r)) type_error)) (\<lambda>f.
        checked (checkQuery s (fi_fields f) []) (project (eff_obj (find_one E r q body ctx)))))
      else if k = ''list'' then
        eff_bind (query_name op) (\<lambda>q.
        eff_bind (eff_of (some_or (List.find (\<lambda>x. l_name x = q) (r_lists r)) type_error)) (\<lambda>l.
        checked (checkQuery s (l_fields l) (map ok_field (l_order l)))
          (eff_project (scope_projectPage s) (eff_obj (list_many E r (op_id op) q body ctx)))))
      else if k = ''create'' then checked (checkCreate s body) (project mutation)
      else if k = ''update'' then
        checked (checkPatch s (obj_of (orElse (oget body ''patch'') (JObj [])))) (project mutation)
      else if k = ''transition'' then
        checked (checkAction s (case op_action op of None \<Rightarrow> ''undefined'' | Some a \<Rightarrow> a)) (project mutation)
      else if k = ''delete'' \<or> k = ''restore'' then checked (checkAction s k) (project mutation)
      else project (operation E L (op_id op) op r body ctx))"

section \<open>Dispatch of an operation id\<close>

definition ends_with :: "string \<Rightarrow> string \<Rightarrow> bool" where
  "ends_with suf s \<longleftrightarrow> length suf \<le> length s \<and> drop (length s - length suf) s = suf"

text \<open>The regular expression of \<open>program\<close>: the feature that serves an operation id, with its action.\<close>

definition SERVED :: "(string \<times> string \<times> string) list" where
  "SERVED = map (\<lambda>a. (''/changesets.'' @ a, ''changesets'', a)) [''propose'', ''preview'', ''approve'', ''commit'', ''get'']
     @ map (\<lambda>a. (''/imports.'' @ a, ''imports'', a)) [''inspect'', ''stage'']
     @ map (\<lambda>a. (''/admin.'' @ a, ''portability'', a)) [''export'', ''import'', ''verify'', ''fence'']
     @ map (\<lambda>a. (''/admin.'' @ a, ''governance'', a)) [''subjects.locate'', ''inspect'']"

definition served :: "string \<Rightarrow> (string \<times> string) option" where
  "served opId = map_option snd (List.find (\<lambda>x. ends_with (fst x) opId) SERVED)"

definition resource_program ::
    "env \<Rightarrow> linked \<Rightarrow> string \<Rightarrow> operation_decl \<Rightarrow> resource \<Rightarrow> obj \<Rightarrow> call_context \<Rightarrow> jsval eff" where
  "resource_program E L opId op r body ctx =
     (if dc_writeOnce (r_decorators r) \<and> op_kind op \<in> set WRITES then eff_fail (err ''MethodNotAllowed'')
      else if dc_appendOnly (r_decorators r) \<and> op_kind op \<notin> {''create'', ''get'', ''find'', ''list'', ''effective''}
        then eff_fail (err ''MethodNotAllowed'')
      else eff_bind (eff_of (scope_resolve (en_scope E) r ctx)) (\<lambda>surface.
        case surface of
          Some s \<Rightarrow> scopedOperation E L s op r body ctx
        | None \<Rightarrow> operation E L opId op r body ctx))"

definition program :: "env \<Rightarrow> linked \<Rightarrow> string \<Rightarrow> jsval \<Rightarrow> call_context \<Rightarrow> jsval eff" where
  "program E L opId input ctx =
     (let body = obj_of (orElse input (JObj [])) in
      case served opId of
        Some (feature, action) \<Rightarrow>
          (case li_feature L feature of
             None \<Rightarrow> eff_fail (err ''MethodNotAllowed'')
           | Some h \<Rightarrow> h action body ctx)
      | None \<Rightarrow>
          (case model_operation (en_model E) opId of
             Some (op, r) \<Rightarrow> resource_program E L opId op r body ctx
           | None \<Rightarrow>
               (case li_function L opId of
                  Some f \<Rightarrow> withIdempotency E opId body ctx (f input ctx) None
                | None \<Rightarrow>
                    (case li_readModel L opId of
                       Some h \<Rightarrow> h body ctx
                     | None \<Rightarrow> eff_fail (err ''MethodNotAllowed'')))))"

definition call ::
    "env \<Rightarrow> linked \<Rightarrow> publication option \<Rightarrow> oauth_access option \<Rightarrow> string \<Rightarrow> jsval \<Rightarrow> call_context \<Rightarrow> jsval eff" where
  "call E L pub access opId input ctx =
     (\<lambda>w. case oauthGate pub (wo_gate w) opId ctx access (en_dateNow E (wo_tick w)) of
        Some e \<Rightarrow> (Inl e, w)
      | None \<Rightarrow> program E L opId input ctx w)"

end
