(* ===== verification/Engine_Atomic.thy ===== *)
theory Engine_Atomic
  imports Engine_Call
begin

text \<open>
  \<open>planAuthorizedCall\<close> and \<open>atomic\<close> of \<open>packages/runtime/src/engine.ts\<close>: several authorized
  mutations against durable references, with guards that facts are absent, in one commit.
\<close>

record atomic_mutation =
  am_operation :: string
  am_input :: obj

record absent_fact =
  ab_resource :: string
  ab_unique :: string
  ab_values :: obj

definition MEMORY_BUDGET :: nat where
  "MEMORY_BUDGET = 100"

definition unsupported_fields :: "resource \<Rightarrow> bool" where
  "unsupported_fields r \<longleftrightarrow> list_ex (\<lambda>f. f_sequence f \<noteq> None \<or> f_secret f) (r_fields r)"

text \<open>The purpose check of one mutation under a surface.\<close>

definition check_mutation :: "surface \<Rightarrow> operation_decl \<Rightarrow> obj \<Rightarrow> bool \<Rightarrow> unit res" where
  "check_mutation s op input strict =
     (let k = op_kind op; action = (case op_action op of None \<Rightarrow> (if strict then ''undefined'' else k) | Some a \<Rightarrow> a) in
      if k = ''create'' then checkCreate s input
      else if k = ''update'' then checkPatch s (obj_of (orElse (oget input ''patch'') (JObj [])))
      else if \<not> strict then checkAction s action
      else if k = ''transition'' then checkAction s action
      else if k = ''delete'' \<or> k = ''restore'' then checkAction s k
      else Inl (err ''MethodNotAllowed''))"

definition check_surface :: "surface option \<Rightarrow> operation_decl \<Rightarrow> obj \<Rightarrow> bool \<Rightarrow> unit res" where
  "check_surface surface op input strict =
     (case surface of None \<Rightarrow> Inr () | Some s \<Rightarrow> check_mutation s op input strict)"

definition surface_result :: "env \<Rightarrow> surface option \<Rightarrow> commit_plan \<Rightarrow> obj res" where
  "surface_result E surface p =
     bind_res (resultOf E p) (\<lambda>x. Inr (case surface of None \<Rightarrow> x | Some s \<Rightarrow> scope_project s x))"

definition planAuthorizedCall :: "env \<Rightarrow> string \<Rightarrow> obj \<Rightarrow> call_context \<Rightarrow> (commit_plan \<times> obj) eff" where
  "planAuthorizedCall E opId input ctx =
     (case model_operation (en_model E) opId of
        None \<Rightarrow> eff_fail (err ''MethodNotAllowed'')
      | Some (op, r) \<Rightarrow>
          if unsupported_fields r then eff_fail (err ''ValidationFailed'')
          else eff_bind (eff_of (scope_resolve (en_scope E) r ctx)) (\<lambda>surface.
            eff_bind (eff_of (check_surface surface op input False)) (\<lambda>_.
            eff_bind (authorizedPlan E opId input ctx) (\<lambda>plan.
            eff_bind (eff_of (surface_result E surface plan)) (\<lambda>x. eff_ret (plan, x))))))"

section \<open>Absence guards\<close>

definition absent_target :: "app_model \<Rightarrow> absent_fact \<Rightarrow> (resource \<times> unique_decl \<times> find_decl) option" where
  "absent_target m a =
     (case List.find (\<lambda>r. r_id r = ab_resource a) (m_resources m) of
        None \<Rightarrow> None
      | Some r \<Rightarrow>
          (case (List.find (\<lambda>u. u_name u = ab_unique a) (r_uniques r),
                 List.find (\<lambda>f. fi_coveredBy f = ab_unique a) (r_finds r)) of
             (Some u, Some f) \<Rightarrow>
               if dc_appendOnly (r_decorators r) \<and> u_condition u = None then Some (r, u, f) else None
           | _ \<Rightarrow> None))"

definition absence_guard_of :: "env \<Rightarrow> call_context \<Rightarrow> absent_fact \<Rightarrow> absence_guard eff" where
  "absence_guard_of E ctx a =
     (case absent_target (en_model E) a of
        None \<Rightarrow> eff_fail (err ''ValidationFailed'')
      | Some (r, u, finder) \<Rightarrow>
          let names = u_within u @ u_fields u in
          eff_bind (eff_guard (list_all (\<lambda>(k, v). k \<in> set names) (ab_values a)) (err ''ValidationFailed'')) (\<lambda>_.
          eff_bind (eff_of (queryValues E r names (JObj (ab_values a)))) (\<lambda>values.
          eff_bind (eff_of (some_or (claimKey r u values) (err ''ValidationFailed''))) (\<lambda>key.
          eff_bind (eff_of (scope_resolve (en_scope E) r ctx)) (\<lambda>surface.
          eff_bind (eff_of (case surface of None \<Rightarrow> Inr () | Some s \<Rightarrow> checkQuery s (map fst values) [])) (\<lambda>_.
          eff_bind (with_gate E (\<lambda>now g. gk_decide (en_platform E) now g (r_id r @ ''.find.'' @ fi_name finder)
            ''read'' (Some r) ctx None None)) (\<lambda>d.
          eff_bind (eff_guard (de_allow d \<and> (case de_rowFilter d of None \<Rightarrow> True | Some fs \<Rightarrow> fs = [])) (err ''NotPermitted'')) (\<lambda>_.
          eff_ret \<lparr>ag_tenant = cx_tenant ctx, ag_resource = r, ag_unique = u, ag_claimKey = key\<rparr>))))))))"

fun dedup_guards :: "absence_guard list \<Rightarrow> absence_guard list \<Rightarrow> absence_guard list" where
  "dedup_guards acc [] = acc"
| "dedup_guards acc (g # gs) =
     dedup_guards (if list_ex (\<lambda>h. ag_claimKey h = ag_claimKey g) acc then acc else acc @ [g]) gs"

section \<open>The composition\<close>

definition atomic_plan ::
    "env \<Rightarrow> call_context \<Rightarrow> atomic_mutation \<Rightarrow> (commit_plan \<times> surface option) eff" where
  "atomic_plan E ctx mu =
     (case model_operation (en_model E) (am_operation mu) of
        None \<Rightarrow> eff_fail (err ''MethodNotAllowed'')
      | Some (op, r) \<Rightarrow>
          if unsupported_fields r then eff_fail (err ''ValidationFailed'')
          else eff_bind (eff_of (scope_resolve (en_scope E) r ctx)) (\<lambda>surface.
            eff_bind (eff_of (check_surface surface op (am_input mu) True)) (\<lambda>_.
            eff_bind (authorizedPlan E (am_operation mu) (am_input mu) ctx) (\<lambda>plan. eff_ret (plan, surface)))))"

definition same_record :: "commit_plan \<Rightarrow> commit_plan \<Rightarrow> bool" where
  "same_record p q \<longleftrightarrow> r_id (cp_resource p) = r_id (cp_resource q) \<and> cp_id p = cp_id q"

fun atomic_plans ::
    "env \<Rightarrow> call_context \<Rightarrow> (commit_plan \<times> surface option) list \<Rightarrow> atomic_mutation list
      \<Rightarrow> (commit_plan \<times> surface option) list eff" where
  "atomic_plans E ctx acc [] = eff_ret acc"
| "atomic_plans E ctx acc (mu # mus) =
     eff_bind (atomic_plan E ctx mu) (\<lambda>(plan, surface).
     eff_bind (eff_guard (\<not> list_ex (\<lambda>x. same_record (fst x) plan) acc) (err ''ValidationFailed'')) (\<lambda>_.
     atomic_plans E ctx (acc @ [(plan, surface)]) mus))"

definition creates_absent :: "commit_plan list \<Rightarrow> absence_guard list \<Rightarrow> bool" where
  "creates_absent plans gs \<longleftrightarrow> list_ex (\<lambda>p. list_ex (\<lambda>g. cp_tenant p = ag_tenant g \<and>
     list_ex (\<lambda>c. cc_after c = Some (ag_claimKey g)) (cp_claims p)) gs) plans"

text \<open>Everything before the commit, and the commit.\<close>

definition atomic_prepare ::
    "env \<Rightarrow> atomic_mutation list \<Rightarrow> call_context \<Rightarrow> absent_fact list
      \<Rightarrow> ((commit_plan \<times> surface option) list \<times> absence_guard list) eff" where
  "atomic_prepare E mutations ctx absent =
     eff_bind (eff_guard (nonempty_opt (cx_idempotencyKey ctx) = None) (err ''ValidationFailed'')) (\<lambda>_.
     eff_bind (eff_guard (mutations \<noteq> [] \<and> length mutations \<le> 32) (err ''BudgetExceeded'')) (\<lambda>_.
     eff_bind (eff_guard (length absent \<le> 32) (err ''BudgetExceeded'')) (\<lambda>_.
     eff_bind (eff_map (absence_guard_of E ctx) absent) (\<lambda>gs0.
     let gs = dedup_guards [] gs0 in
     eff_bind (atomic_plans E ctx [] mutations) (\<lambda>xs.
     let plans = map fst xs in
     eff_bind (eff_guard (\<not> creates_absent plans gs) (err ''ValidationFailed'')) (\<lambda>_.
     eff_bind (eff_guard (budget_actions plans (length gs) 0 \<le> MEMORY_BUDGET) (err ''BudgetExceeded'')) (\<lambda>_.
     eff_ret (xs, gs))))))))"

definition atomic :: "env \<Rightarrow> atomic_mutation list \<Rightarrow> call_context \<Rightarrow> absent_fact list \<Rightarrow> obj list eff" where
  "atomic E mutations ctx absent =
     eff_bind (atomic_prepare E mutations ctx absent) (\<lambda>(xs, gs).
     eff_bind (storage_commit E (\<lambda>m. commitAll m (map fst xs) gs [])) (\<lambda>_.
     eff_map (\<lambda>(p, s). eff_of (surface_result E s p)) xs))"

end
