(* ===== verification/Memory_Invariants.thy ===== *)
theory Memory_Invariants
  imports Memory_Correct Temporal Claims
begin

text \<open>
  Invariants that the commit guards of the storage adapter keep: hierarchies stay acyclic,
  effective intervals of a group stay disjoint, and unique claims name at most one record.
\<close>

section \<open>Hierarchies\<close>

text \<open>The parent chain of a node ends (at a root, or at a record that is not there) within n steps.\<close>

fun reaches_root :: "nat \<Rightarrow> (string \<times> stored_record) list \<Rightarrow> string \<Rightarrow> string \<Rightarrow> bool" where
  "reaches_root 0 t pf c = False"
| "reaches_root (Suc n) t pf c =
     (case map_of t c of
        None \<Rightarrow> True
      | Some rcd \<Rightarrow> (case opt_instant (oget rcd pf) of
            None \<Rightarrow> True
          | Some p \<Rightarrow> p = [] \<or> reaches_root n t pf p))"

definition acyclic_table :: "nat \<Rightarrow> (string \<times> stored_record) list \<Rightarrow> string \<Rightarrow> bool" where
  "acyclic_table n t pf \<longleftrightarrow> list_all (\<lambda>(k, rcd). reaches_root n t pf k) t"

lemma acyclic_table_iff: "acyclic_table n t pf \<longleftrightarrow> (\<forall>c\<in>fst ` set t. reaches_root n t pf c)"
  by (auto simp: acyclic_table_def list_all_iff simp del: reaches_root.simps)

lemma reaches_step:
  "map_of t c = Some rcd \<Longrightarrow> opt_instant (oget rcd pf) = Some p \<Longrightarrow>
     reaches_root (Suc n) t pf c \<longleftrightarrow> p = [] \<or> reaches_root n t pf p"
  by simp

lemma reaches_root_mono: "reaches_root n t pf c \<Longrightarrow> n \<le> k \<Longrightarrow> reaches_root k t pf c"
proof (induction n arbitrary: k c)
  case 0
  then show ?case by simp
next
  case (Suc n)
  then obtain j where "k = Suc j" "n \<le> j" by (cases k) auto
  with Suc show ?case by (auto split: option.splits)
qed

lemma tree_walk_keeps:
  "tree_walk n t pf i (Some c) seen = Inr () \<Longrightarrow> c \<noteq> [] \<Longrightarrow> reaches_root n t pf c \<Longrightarrow>
     reaches_root n (mput i after t) pf c"
proof (induction n arbitrary: c seen)
  case 0
  then show ?case by simp
next
  case (Suc n)
  obtain rcd where c: "c \<noteq> i" "map_of t c = Some rcd"
    and w: "tree_walk n t pf i (opt_instant (oget rcd pf)) (c # seen) = Inr ()"
    using Suc.prems(1,2) by (auto split: if_splits option.splits)
  with Suc.prems(3) Suc.IH show ?case by (auto split: option.splits)
qed

lemma reparent_reaches:
  assumes "opt_instant (oget after pf) = Some p" "p = [] \<or> reaches_root k (mput i after t) pf p"
  shows "reaches_root n t pf c \<or> c = i \<Longrightarrow> reaches_root (Suc (n + k)) (mput i after t) pf c"
proof (induction n arbitrary: c)
  case 0
  then show ?case using assms by auto
next
  case (Suc n)
  show ?case
  proof (cases "c = i")
    case True
    have "p = [] \<or> reaches_root (Suc n + k) (mput i after t) pf p"
      using assms(2) reaches_root_mono [of k "mput i after t" pf p "Suc n + k"] by linarith
    with True reaches_step [of "mput i after t" c after pf p "Suc n + k"] assms(1) show ?thesis by simp
  next
    case False
    have h: "case map_of t c of None \<Rightarrow> True | Some rcd \<Rightarrow> (case opt_instant (oget rcd pf) of
        None \<Rightarrow> True | Some q \<Rightarrow> q = [] \<or> reaches_root n t pf q)"
      using Suc.prems False by simp
    have IH: "reaches_root n t pf q \<Longrightarrow> reaches_root (Suc n + k) (mput i after t) pf q" for q
      using Suc.IH [of q] by simp
    show ?thesis
      unfolding reaches_root.simps(2) [of "Suc n + k"] using h IH False
      by (auto simp del: reaches_root.simps split: option.splits)
  qed
qed

lemma reparent_acyclic:
  assumes "acyclic_table n t pf" "tree_walk k t pf i (Some p) [] = Inr ()" "reaches_root k t pf p"
    and "opt_instant (oget after pf) = Some p"
  shows "acyclic_table (Suc (n + k)) (mput i after t) pf"
proof -
  have p: "p = [] \<or> reaches_root k (mput i after t) pf p"
    using tree_walk_keeps [OF assms(2) _ assms(3)] by blast
  have "reaches_root (Suc (n + k)) (mput i after t) pf c" if "c \<in> fst ` set (mput i after t)" for c
  proof -
    have "c = i \<or> reaches_root n t pf c"
      using that assms(1) unfolding acyclic_table_iff by auto
    with reparent_reaches [OF assms(4) p, of n c] show ?thesis by blast
  qed
  then show ?thesis unfolding acyclic_table_iff by blast
qed

lemma commit_table:
  assumes "mem_commit m p = (None, m')" "cp_kind p \<noteq> PkPublish"
  shows "mem_table m' (cp_tenant p) (cp_resource p) =
     (if cp_hardDelete p then mdel (cp_id p) (mem_table m (cp_tenant p) (cp_resource p))
      else mput (cp_id p) (cp_after p) (mem_table m (cp_tenant p) (cp_resource p)))"
proof -
  obtain m1 where "completion_step m p = Inr m1" "m' = commit_apply m1 p"
    using assms(1) by (auto simp: mem_commit_ok commitSync_ok)
  with assms(2) completion_step_parts [of m p m1] mem_table_cong [of m1 m] show ?thesis
    by (simp add: mem_table_apply Let_def)
qed

text \<open>A successful commit of a record plan passed every guard against the durable tables.\<close>

lemma commit_guarded:
  assumes "mem_commit m p = (None, m')" "cp_kind p \<noteq> PkPublish"
  shows "version_guard m p = Inr () \<and> interval_check m p = Inr () \<and> tree_check m p = Inr () \<and>
    (\<forall>c\<in>set (cp_claims p). claim_guard m p c = Inr ()) \<and>
    (\<forall>g\<in>set (cp_references p). reference_check m p g = Inr ()) \<and>
    (\<forall>d\<in>set (cp_dependents p). dependent_check m p d = Inr ())"
proof -
  obtain m1 where m1: "completion_step m p = Inr m1" "commit_guards m1 p = Inr ()"
    using assms(1) by (auto simp: mem_commit_ok commitSync_ok)
  note parts = completion_step_parts [OF m1(1)]
  have t: "mem_table m1 = mem_table m" using parts mem_table_cong by blast
  have cl: "me_claims m1 = me_claims m" using parts by blast
  have all: "\<forall>x\<in>set xs. f x = Inr ()" if "map_res f xs = Inr us" for f and xs :: "'a list" and us :: "unit list"
    using that by (induction xs arbitrary: us) (auto simp: bind_res_Inr_iff)
  have eqs: "version_guard m1 p = version_guard m p" "interval_check m1 p = interval_check m p"
    "tree_check m1 p = tree_check m p"
    unfolding version_guard_def interval_check_def tree_check_def mem_get_def mem_overlapping_def t by (rule refl)+
  have each: "claim_guard m1 p c = claim_guard m p c" "reference_check m1 p g = reference_check m p g"
    "dependent_check m1 p d = dependent_check m p d" for c g d
    unfolding claim_guard_def reference_check_def dependent_check_def mem_get_def mem_countDependents_def t cl
    by (rule refl)+
  from m1(2) assms(2) have "record_guards m1 p = Inr ()"
    by (auto simp: commit_guards_def bind_res_Inr_iff)
  then show ?thesis unfolding record_guards_def eqs
    by (auto simp: bind_res_Inr_iff each [symmetric] dest: all)
qed

section \<open>Effective intervals\<close>

definition same_group :: "string list \<Rightarrow> obj \<Rightarrow> obj \<Rightarrow> bool" where
  "same_group fs a b \<longleftrightarrow> list_all (\<lambda>f. js_seq (oget a f) (oget b f)) fs"

definition spans_overlap :: "obj \<Rightarrow> obj \<Rightarrow> bool" where
  "spans_overlap a b \<longleftrightarrow>
     before_end (js_string (oget a ''effectiveFrom'')) (opt_instant (oget b ''effectiveUntil'')) \<and>
     before_end (js_string (oget b ''effectiveFrom'')) (opt_instant (oget a ''effectiveUntil''))"

text \<open>No two live records of one group are effective at the same time.\<close>

definition intervals_disjoint :: "string list \<Rightarrow> (string \<times> stored_record) list \<Rightarrow> bool" where
  "intervals_disjoint fs t \<longleftrightarrow> list_all (\<lambda>(i, a). list_all (\<lambda>(j, b).
     i = j \<or> \<not> is_live a \<or> \<not> is_live b \<or> \<not> same_group fs a b \<or> \<not> spans_overlap a b) t) t"

definition ids_match :: "(string \<times> stored_record) list \<Rightarrow> bool" where
  "ids_match t \<longleftrightarrow> distinct (map fst t) \<and> list_all (\<lambda>(k, rcd). oget rcd ''id'' = JStr k) t"

lemma js_seq_sym: "js_seq v w \<longleftrightarrow> js_seq w v"
  by (cases v; cases w) auto

lemma same_group_sym: "same_group fs a b \<longleftrightarrow> same_group fs b a"
  using js_seq_sym by (simp add: same_group_def)

lemma spans_overlap_sym: "spans_overlap a b \<longleftrightarrow> spans_overlap b a"
  by (auto simp: spans_overlap_def)

lemma group_matches_same: "group_matches b fs (map (oget a) fs) \<longleftrightarrow> same_group fs b a"
  by (simp add: group_matches_def same_group_def list_all_length)

lemma intervals_disjoint_insert:
  assumes "intervals_disjoint fs t" "distinct (map fst t)"
    and "\<And>j b. (j, b) \<in> set t \<Longrightarrow> j \<noteq> i \<Longrightarrow> is_live b \<Longrightarrow> same_group fs b a \<Longrightarrow> \<not> spans_overlap b a"
  shows "intervals_disjoint fs (mput i a t)"
proof -
  have old: "\<not> spans_overlap x y" if "(k, x) \<in> set t" "(j, y) \<in> set t" "k \<noteq> j" "is_live x" "is_live y" "same_group fs x y"
    for k x j y using assms(1) that unfolding intervals_disjoint_def list_all_iff by blast
  show ?thesis
    unfolding intervals_disjoint_def list_all_iff set_mput_distinct [OF assms(2)]
    using old assms(3) same_group_sym spans_overlap_sym by fastforce
qed

lemma commit_keeps_intervals:
  assumes "mem_commit m p = (None, m')" "cp_kind p \<noteq> PkPublish" "\<not> cp_hardDelete p"
    and "intervalGuard (cp_resource p) (cp_after p) (cp_id p) = Inr (Some g)" "cp_interval p = Some g"
    and "ids_match (mem_table m (cp_tenant p) (cp_resource p))"
    and "intervals_disjoint (ig_groupFields g) (mem_table m (cp_tenant p) (cp_resource p))"
  shows "intervals_disjoint (ig_groupFields g) (mem_table m' (cp_tenant p) (cp_resource p))"
proof -
  let ?t = "mem_table m (cp_tenant p) (cp_resource p)"
  note g = intervalGuard_Some [OF assms(4)]
  have none: "mem_overlapping m (cp_tenant p) (cp_resource p) g = []"
    using commit_guarded [OF assms(1,2)] assms(5) by (auto simp: interval_check_def guard_res_Inr_iff)
  have "\<not> spans_overlap b (cp_after p)"
    if b: "(j, b) \<in> set ?t" "j \<noteq> cp_id p" "is_live b" "same_group (ig_groupFields g) b (cp_after p)" for j b
  proof
    assume o: "spans_overlap b (cp_after p)"
    have "oget b ''id'' = JStr j" using assms(6) b(1) by (auto simp: ids_match_def list_all_iff)
    then have "overlaps g b" using b g o
      by (simp add: overlaps_def group_matches_same spans_overlap_def)
    moreover have "b \<in> set (map snd ?t)" using b(1) by force
    ultimately show False using none unfolding mem_overlapping_def by (auto simp: filter_empty_conv)
  qed
  then have "intervals_disjoint (ig_groupFields g) (mput (cp_id p) (cp_after p) ?t)"
    using assms(6,7) by (intro intervals_disjoint_insert) (auto simp: ids_match_def)
  then show ?thesis using commit_table [OF assms(1,2)] assms(3) by simp
qed

section \<open>Unique claims\<close>

text \<open>Every stored record, the soft-deleted ones included, holds its unique claims.\<close>

definition claims_hold :: "memory \<Rightarrow> string \<Rightarrow> resource \<Rightarrow> bool" where
  "claims_hold m t r \<longleftrightarrow> list_all (\<lambda>(i, row). list_all (\<lambda>u. case claimKey r u row of
       None \<Rightarrow> True | Some k \<Rightarrow> map_of (me_claims m) (key2 t k) = Some i) (r_uniques r)) (mem_table m t r)"

text \<open>The claims of a plan are those the engine computes, or the record's claims do not change.\<close>

definition plan_claims_ok :: "memory \<Rightarrow> commit_plan \<Rightarrow> bool" where
  "plan_claims_ok m p \<longleftrightarrow>
     (let r = cp_resource p; cur = mem_get m (cp_tenant p) r (cp_id p)
      in cp_claims p = claimChanges r cur (cp_after p) \<or>
         (cp_claims p = [] \<and> (\<exists>b. cur = Some b \<and> list_all (\<lambda>u. claimKey r u (cp_after p) = claimKey r u b) (r_uniques r))))"

lemma claims_holdD:
  "claims_hold m t r \<Longrightarrow> (i, row) \<in> set (mem_table m t r) \<Longrightarrow> u \<in> set (r_uniques r) \<Longrightarrow> claimKey r u row = Some k \<Longrightarrow>
     map_of (me_claims m) (key2 t k) = Some i"
  unfolding claims_hold_def list_all_iff by fastforce

lemma claims_holdI:
  "(\<And>i row u k. (i, row) \<in> set (mem_table m t r) \<Longrightarrow> u \<in> set (r_uniques r) \<Longrightarrow> claimKey r u row = Some k \<Longrightarrow>
      map_of (me_claims m) (key2 t k) = Some i) \<Longrightarrow> claims_hold m t r"
  unfolding claims_hold_def list_all_iff by (auto split: option.splits)

text \<open>Records that hold their claims never share one.\<close>

lemma claims_unique:
  "claims_hold m t r \<Longrightarrow> (i, a) \<in> set (mem_table m t r) \<Longrightarrow> (j, b) \<in> set (mem_table m t r) \<Longrightarrow>
     u \<in> set (r_uniques r) \<Longrightarrow> claimKey r u a = Some k \<Longrightarrow> claimKey r u b = Some k \<Longrightarrow> i = j"
  by (metis claims_holdD option.inject)

lemma apply_claims_untouched:
  assumes "\<forall>c\<in>set cs. cc_after c \<noteq> Some k \<and> (cc_before c = Some k \<longrightarrow> cc_after c = cc_before c)"
  shows "map_of (foldl (apply_claim t i) claims cs) (key2 t k) = map_of claims (key2 t k)"
  using assms
proof (induction cs arbitrary: claims)
  case Nil
  then show ?case by simp
next
  case (Cons c cs)
  have k: "key2 t a = key2 t b \<longleftrightarrow> a = b" for a b by (simp add: key2_def)
  have "map_of (apply_claim t i claims c) (key2 t k) = map_of claims (key2 t k)"
  proof -
    have a: "cc_after c \<noteq> Some k" and b: "cc_before c = Some k \<Longrightarrow> cc_after c = cc_before c"
      using Cons.prems by auto
    show ?thesis
    proof (cases "cc_after c")
      case None
      with b show ?thesis by (cases "cc_before c") (auto simp: apply_claim_def k)
    next
      case (Some x)
      with a b show ?thesis by (cases "cc_before c") (auto simp: apply_claim_def k)
    qed
  qed
  with Cons show ?case by simp
qed

lemma apply_claims_set:
  assumes "c \<in> set cs" "cc_after c = Some k" "k \<noteq> []"
    and "\<forall>d\<in>set cs. d \<noteq> c \<longrightarrow> cc_after d \<noteq> Some k \<and> cc_before d \<noteq> Some k"
  shows "map_of (foldl (apply_claim t i) claims cs) (key2 t k) = Some i"
proof -
  obtain xs ys where cs: "cs = xs @ c # ys" "c \<notin> set ys" using split_list_last [OF assms(1)] by blast
  have "map_of (apply_claim t i d c) (key2 t k) = Some i" for d
    using assms(2,3) by (simp add: apply_claim_def Let_def)
  moreover have "\<forall>d\<in>set ys. cc_after d \<noteq> Some k \<and> (cc_before d = Some k \<longrightarrow> cc_after d = cc_before d)"
    using assms(4) cs by auto
  ultimately show ?thesis by (simp add: cs(1) apply_claims_untouched)
qed

lemma commit_claims:
  assumes "mem_commit m p = (None, m')" "cp_kind p \<noteq> PkPublish"
  shows "me_claims m' = foldl (apply_claim (cp_tenant p) (cp_id p)) (me_claims m) (cp_claims p)"
proof -
  obtain m1 where "completion_step m p = Inr m1" "m' = commit_apply m1 p"
    using assms(1) by (auto simp: mem_commit_ok commitSync_ok)
  with assms(2) completion_step_parts [of m p m1] show ?thesis
    by (simp add: commit_apply_def apply_common_def apply_record_def Let_def)
qed

text \<open>A row of another id keeps its claims: the guard refuses to take them.\<close>

lemma other_row_keeps_claim:
  assumes "mem_commit m p = (None, m')" "cp_kind p \<noteq> PkPublish" "claims_hold m (cp_tenant p) (cp_resource p)"
    and "cp_claims p = claimChanges (cp_resource p) (mem_get m (cp_tenant p) (cp_resource p) (cp_id p)) (cp_after p)"
    and "distinct (map u_name (r_uniques (cp_resource p)))"
    and "(j, row) \<in> set (mem_table m (cp_tenant p) (cp_resource p))" "j \<noteq> cp_id p" "j \<noteq> []"
    and "u \<in> set (r_uniques (cp_resource p))" "claimKey (cp_resource p) u row = Some k"
  shows "map_of (me_claims m') (key2 (cp_tenant p) k) = Some j"
proof -
  let ?t = "cp_tenant p" and ?r = "cp_resource p"
  have holder: "map_of (me_claims m) (key2 ?t k) = Some j" by (rule claims_holdD [OF assms(3,6,9,10)])
  have before: "cc_before c \<noteq> Some k" if c: "c \<in> set (cp_claims p)" for c
  proof
    assume "cc_before c = Some k"
    then obtain b v where b: "mem_get m ?t ?r (cp_id p) = Some b" "v \<in> set (r_uniques ?r)" "claimKey ?r v b = Some k"
      using c assms(4) by (auto simp: claimChanges_def split: option.splits)
    from b(1) have "(cp_id p, b) \<in> set (mem_table m ?t ?r)" by (auto simp: mem_get_def dest: map_of_SomeD)
    from claims_holdD [OF assms(3) this b(2,3)] holder assms(7) show False by simp
  qed
  have "cc_after c \<noteq> Some k" if c: "c \<in> set (cp_claims p)" for c
  proof
    assume a: "cc_after c = Some k"
    have "claim_guard m p c = Inr ()" using commit_guarded [OF assms(1,2)] c by blast
    moreover have "k \<noteq> []" using claimKey_nonempty [OF assms(10)] .
    ultimately show False using a before [OF c] holder assms(7,8)
      by (auto simp: claim_guard_def guard_res_Inr_iff)
  qed
  with before show ?thesis
    unfolding commit_claims [OF assms(1,2)] holder [symmetric] by (intro apply_claims_untouched) blast
qed

lemma own_row_claim:
  assumes "cp_claims p = claimChanges (cp_resource p) cur (cp_after p)"
    and "distinct (map u_name (r_uniques (cp_resource p)))"
    and "u \<in> set (r_uniques (cp_resource p))" "claimKey (cp_resource p) u (cp_after p) = Some k"
  shows "map_of (foldl (apply_claim t (cp_id p)) claims (cp_claims p)) (key2 t k) = Some (cp_id p)"
proof -
  let ?c = "\<lambda>u. \<lparr>cc_unique = u, cc_before = (case cur of None \<Rightarrow> None | Some b \<Rightarrow> claimKey (cp_resource p) u b),
     cc_after = claimKey (cp_resource p) u (cp_after p)\<rparr>"
  have cs: "cp_claims p = map ?c (r_uniques (cp_resource p))" by (simp add: assms(1) claimChanges_def)
  have inj: "v = u" if "v \<in> set (r_uniques (cp_resource p))" "u_name v = u_name u" for v
    using assms(2,3) that by (auto simp: distinct_map dest: inj_onD)
  show ?thesis
  proof (rule apply_claims_set [of "?c u"])
    show "?c u \<in> set (cp_claims p)" using assms(3) by (simp add: cs)
    show "k \<noteq> []" using claimKey_nonempty [OF assms(4)] .
    show "\<forall>d\<in>set (cp_claims p). d \<noteq> ?c u \<longrightarrow> cc_after d \<noteq> Some k \<and> cc_before d \<noteq> Some k"
      using inj claimKey_eq [OF _ assms(4)] by (fastforce simp: cs split: option.splits)
  qed (use assms(4) in simp)
qed

text \<open>The table a plan writes keeps its claims.\<close>

lemma commit_keeps_own_claims:
  assumes "mem_commit m p = (None, m')" "cp_kind p \<noteq> PkPublish" "plan_claims_ok m p"
    and "distinct (map u_name (r_uniques (cp_resource p)))"
    and "distinct (map fst (mem_table m (cp_tenant p) (cp_resource p)))"
    and "[] \<notin> fst ` set (mem_table m (cp_tenant p) (cp_resource p))"
    and "claims_hold m (cp_tenant p) (cp_resource p)"
  shows "claims_hold m' (cp_tenant p) (cp_resource p)"
proof -
  let ?t = "cp_tenant p" and ?r = "cp_resource p" and ?i = "cp_id p"
  let ?cur = "mem_get m ?t ?r ?i"
  note table = commit_table [OF assms(1,2)] and claims = commit_claims [OF assms(1,2)]
  show ?thesis
  proof (rule claims_holdI)
    fix j row u k
    assume row: "(j, row) \<in> set (mem_table m' ?t ?r)" and u: "u \<in> set (r_uniques ?r)" "claimKey ?r u row = Some k"
    have split: "(j, row) \<in> set (mem_table m ?t ?r) \<and> j \<noteq> ?i \<or> j = ?i \<and> row = cp_after p"
      using row unfolding table by (auto simp: set_mdel set_mput_distinct [OF assms(5)] split: if_splits)
    from assms(3) consider (recomputed) "cp_claims p = claimChanges ?r ?cur (cp_after p)"
      | (kept) b where "cp_claims p = []" "?cur = Some b" "list_all (\<lambda>u. claimKey ?r u (cp_after p) = claimKey ?r u b) (r_uniques ?r)"
      unfolding plan_claims_ok_def Let_def by blast
    then show "map_of (me_claims m') (key2 ?t k) = Some j"
    proof cases
      case recomputed
      from split show ?thesis
      proof (elim disjE conjE)
        assume old: "(j, row) \<in> set (mem_table m ?t ?r)" "j \<noteq> ?i"
        then have "j \<noteq> []" using assms(6) by force
        from other_row_keeps_claim [OF assms(1,2,7) recomputed assms(4) old this u] show ?thesis .
      next
        assume "j = ?i" "row = cp_after p"
        with own_row_claim [OF recomputed assms(4), of u k ?t "me_claims m"] u show ?thesis by (simp add: claims)
      qed
    next
      case kept
      have "map_of (me_claims m) (key2 ?t k) = Some j"
        using split
      proof (elim disjE conjE)
        assume "(j, row) \<in> set (mem_table m ?t ?r)"
        from claims_holdD [OF assms(7) this u] show ?thesis .
      next
        assume own: "j = ?i" "row = cp_after p"
        have "(?i, b) \<in> set (mem_table m ?t ?r)" using kept(2) by (auto simp: mem_get_def dest: map_of_SomeD)
        moreover have "claimKey ?r u b = Some k" using kept(3) u own by (auto simp: list_all_iff)
        ultimately show ?thesis using claims_holdD [OF assms(7)] u(1) own by blast
      qed
      then show ?thesis by (simp add: claims kept(1))
    qed
  qed
qed

lemma commit_keeps_other_claims:
  assumes "mem_commit m p = (None, m')" "cp_kind p \<noteq> PkPublish" "plan_claims_ok m p"
    and "plain_text (cp_tenant p)" "plain_text t" "t \<noteq> cp_tenant p \<or> r_id r \<noteq> r_id (cp_resource p)"
    and "claims_hold m t r"
  shows "claims_hold m' t r"
proof -
  note claims = commit_claims [OF assms(1,2)]
  have key: "key2 t (r_id r) \<noteq> key2 (cp_tenant p) (r_id (cp_resource p))"
    using key2_inj [OF assms(5,4)] assms(6) by blast
  obtain m1 where m1: "completion_step m p = Inr m1" "m' = commit_apply m1 p"
    using assms(1) by (auto simp: mem_commit_ok commitSync_ok)
  have table: "mem_table m' t r = mem_table m t r"
    using key completion_step_parts [OF m1(1)] mem_table_cong [of m1 m] by (simp add: m1(2) mem_table_apply)
  show ?thesis
  proof (rule claims_holdI)
    fix j row u k
    assume row: "(j, row) \<in> set (mem_table m' t r)" and u: "u \<in> set (r_uniques r)" "claimKey r u row = Some k"
    have old: "map_of (me_claims m) (key2 t k) = Some j"
      using claims_holdD [OF assms(7) _ u] row table by simp
    have "map_of (me_claims m') (key2 t k) = map_of (me_claims m) (key2 t k)"
    proof (cases "t = cp_tenant p")
      case True
      then have rid: "r_id r \<noteq> r_id (cp_resource p)" using assms(6) by simp
      have "claimKey (cp_resource p) v x \<noteq> Some k" for v x
        using claimKey_eq [OF u(2), of "cp_resource p" v x] rid by auto
      then have "\<forall>c\<in>set (cp_claims p). cc_after c \<noteq> Some k \<and> cc_before c \<noteq> Some k"
        using assms(3) by (auto simp: plan_claims_ok_def Let_def claimChanges_def split: option.splits)
      then show ?thesis unfolding claims True by (intro apply_claims_untouched) blast
    next
      case False
      then have "key2 t k \<noteq> key2 (cp_tenant p) a" for a using key2_inj [OF assms(5,4)] by simp
      then show ?thesis unfolding claims by (rule apply_claims_other)
    qed
    with old show "map_of (me_claims m') (key2 t k) = Some j" by simp
  qed
qed

end
