(* ===== verification/Engine_Correct.thy ===== *)
theory Engine_Correct
  imports Engine_Atomic Memory_Invariants
begin

text \<open>
  What planning and committing in the engine guarantee: the shape of the plans of each kind of
  mutation, the authorization every committed plan has passed, and the frame of failed calls.
\<close>

section \<open>The plans\<close>

lemma create_plan:
  assumes "create E r body ctx w = (Inr p, w')"
  shows "cp_tenant p = cx_tenant ctx" "cp_resource p = r" "cp_kind p = PkCreate" "cp_before p = None"
    "cp_claims p = claimChanges r None (cp_after p)" "\<not> cp_hardDelete p" "cp_receipt p = None" "cp_completion p = None"
    "cp_expectedVersion p = None"
  using assms by (auto simp: create_def eff_simps)

lemma loadCurrent_Inr [eff_simps]:
  "loadCurrent E r i ctx expected w = (Inr x, w') \<longleftrightarrow>
     mem_get (world_now E w) (cx_tenant ctx) r i = Some x \<and>
     (\<forall>v. expected = Some v \<longrightarrow> js_seq (oget x ''version'') (JInt v)) \<and>
     w' = w\<lparr>wo_store := world_now E w, wo_tick := wo_tick w + 1\<rparr>"
  by (auto simp: loadCurrent_def eff_simps split: option.splits)

lemma update_plan:
  assumes "update E r body ctx w = (Inr p, w')"
  obtains before patch now where "cp_before p = Some before" "is_live before"
    "decoded E (orElse (oget body ''patch'') (JObj [])) ModePatch (r_fields r) = Inr patch"
    "expectedVersion r body = Inr (cp_expectedVersion p)"
    "\<forall>v. cp_expectedVersion p = Some v \<longrightarrow> oget before ''version'' = JInt v"
    "cp_tenant p = cx_tenant ctx" "cp_resource p = r" "cp_kind p = PkUpdate" "cp_id p = body_id body"
    "cp_claims p = claimChanges r (Some before) (cp_after p)" "\<not> cp_hardDelete p" "cp_receipt p = None"
    "cp_completion p = None"
    "\<exists>a1. resolveSelfReferences r (stamp E r before now (spread before patch)) (cp_id p) = Inr a1 \<and>
       sealSecrets E r (r_fields r) a1 patch ctx = Inr (cp_after p)"
  using assms by (auto simp: update_def eff_simps Let_def body_id_def intro!: that)

lemma deleteOrRestore_plan:
  assumes "deleteOrRestore E r body ctx del w = (Inr p, w')"
  obtains before where "cp_before p = Some before" "is_live before = del" "cp_tenant p = cx_tenant ctx" "cp_resource p = r"
    "cp_kind p = (if del then PkDelete else PkRestore)" "cp_id p = body_id body" "cp_receipt p = None" "cp_completion p = None"
    "cp_hardDelete p = (del \<and> \<not> dc_softDelete (r_decorators r))"
    "\<forall>v. cp_expectedVersion p = Some v \<longrightarrow> oget before ''version'' = JInt v"
  using assms by (auto simp: deleteOrRestore_def eff_simps Let_def body_id_def split: if_splits intro!: that)

lemma transition_plan:
  assumes "transition E r action body ctx w = (Inr p, w')"
  obtains before lc t now where "cp_before p = Some before" "is_live before" "r_lifecycle r = Some lc"
    "t \<in> set (lc_transitions lc)" "action = Some (t_action t)" "js_string (oget before (lc_field lc)) \<in> set (t_from t)"
    "cp_after p = stamp E r before now (mput (lc_field lc) (JStr (t_to t)) before)"
    "cp_tenant p = cx_tenant ctx" "cp_resource p = r" "cp_kind p = PkTransition" "cp_id p = body_id body"
    "cp_claims p = claimChanges r (Some before) (cp_after p)" "\<not> cp_hardDelete p" "cp_receipt p = None" "cp_completion p = None"
    "\<forall>v. cp_expectedVersion p = Some v \<longrightarrow> oget before ''version'' = JInt v"
  using assms
  by (fastforce simp: transition_def eff_simps Let_def body_id_def split: option.splits dest: find_SomeD)

lemma planFor_plan:
  assumes "planFor E opId body ctx preview w = (Inr p, w')"
  shows "cp_tenant p = cx_tenant ctx" "cp_receipt p = None" "cp_completion p = None" "cp_kind p \<noteq> PkPublish"
    "\<exists>op. model_operation (en_model E) opId = Some (op, cp_resource p) \<and> op_kind op = plan_kind_text (cp_kind p)"
    "dc_appendOnly (r_decorators (cp_resource p)) \<longrightarrow> cp_kind p = PkCreate"
    "dc_writeOnce (r_decorators (cp_resource p)) \<longrightarrow> cp_kind p = PkCreate"
    "cp_kind p = PkCreate \<longleftrightarrow> cp_before p = None" "cp_hardDelete p \<longrightarrow> cp_before p \<noteq> None"
proof -
  obtain op r where op: "model_operation (en_model E) opId = Some (op, r)"
    using assms by (auto simp: planFor_def eff_simps split: option.splits)
  consider (c) "op_kind op = ''create''" "create E r body ctx w = (Inr p, w')"
    | (u) "op_kind op = ''update''" "update E r body ctx w = (Inr p, w')" "\<not> dc_appendOnly (r_decorators r)" "\<not> dc_writeOnce (r_decorators r)"
    | (d) "op_kind op = ''delete''" "deleteOrRestore E r body ctx True w = (Inr p, w')" "\<not> dc_appendOnly (r_decorators r)"
      "\<not> dc_writeOnce (r_decorators r)"
    | (r) "op_kind op = ''restore''" "deleteOrRestore E r body ctx False w = (Inr p, w')" "\<not> dc_appendOnly (r_decorators r)"
      "\<not> dc_writeOnce (r_decorators r)"
    | (t) "op_kind op = ''transition''" "transition E r (op_action op) body ctx w = (Inr p, w')"
      "\<not> dc_appendOnly (r_decorators r)" "\<not> dc_writeOnce (r_decorators r)"
    using assms unfolding planFor_def op option.case prod.case Let_def
    by (auto simp: eff_simps WRITES_def split: if_split_asm)
  then have "cp_tenant p = cx_tenant ctx \<and> cp_receipt p = None \<and> cp_completion p = None \<and> cp_kind p \<noteq> PkPublish \<and>
    (\<exists>op. model_operation (en_model E) opId = Some (op, cp_resource p) \<and> op_kind op = plan_kind_text (cp_kind p)) \<and>
    (dc_appendOnly (r_decorators (cp_resource p)) \<longrightarrow> cp_kind p = PkCreate) \<and>
    (dc_writeOnce (r_decorators (cp_resource p)) \<longrightarrow> cp_kind p = PkCreate) \<and>
    (cp_kind p = PkCreate \<longleftrightarrow> cp_before p = None) \<and> (cp_hardDelete p \<longrightarrow> cp_before p \<noteq> None)"
  proof cases
    case c
    with create_plan [OF c(2)] show ?thesis by (auto simp: op plan_kind_text_def)
  next
    case u
    from update_plan [OF u(2)] show ?thesis by (rule) (use u in \<open>auto simp: op plan_kind_text_def\<close>)
  next
    case d
    from deleteOrRestore_plan [OF d(2)] show ?thesis by (rule) (use d in \<open>auto simp: op plan_kind_text_def\<close>)
  next
    case r
    from deleteOrRestore_plan [OF r(2)] show ?thesis by (rule) (use r in \<open>auto simp: op plan_kind_text_def\<close>)
  next
    case t
    from transition_plan [OF t(2)] show ?thesis by (rule) (use t in \<open>auto simp: op plan_kind_text_def\<close>)
  qed
  then show "cp_tenant p = cx_tenant ctx" "cp_receipt p = None" "cp_completion p = None" "cp_kind p \<noteq> PkPublish"
    "\<exists>op. model_operation (en_model E) opId = Some (op, cp_resource p) \<and> op_kind op = plan_kind_text (cp_kind p)"
    "dc_appendOnly (r_decorators (cp_resource p)) \<longrightarrow> cp_kind p = PkCreate"
    "dc_writeOnce (r_decorators (cp_resource p)) \<longrightarrow> cp_kind p = PkCreate"
    "cp_kind p = PkCreate \<longleftrightarrow> cp_before p = None" "cp_hardDelete p \<longrightarrow> cp_before p \<noteq> None"
    by blast+
qed

section \<open>Authorized planning\<close>

text \<open>The gatekeeper allowed the write of the plan's current and candidate state.\<close>

definition write_allowed :: "env \<Rightarrow> string \<Rightarrow> call_context \<Rightarrow> gatekeeper \<Rightarrow> int \<Rightarrow> commit_plan \<Rightarrow> bool" where
  "write_allowed E opId ctx g now p \<longleftrightarrow> (\<exists>before after d g'. canonical_before E p = Inr before \<and>
     canonical E (cp_resource p) (cp_after p) = Inr after \<and>
     gk_decide (en_platform E) now g opId ''write'' (Some (cp_resource p)) ctx before (Some after) = Inr (d, g') \<and> de_allow d)"

text \<open>The subject of the plan's record is not in the suppression ledger, where the kind is guarded.\<close>

definition subject_free :: "env \<Rightarrow> memory \<Rightarrow> commit_plan \<Rightarrow> bool" where
  "subject_free E m p = (case subjectOf (cp_resource p) (cp_after p) of None \<Rightarrow> True
     | Some s \<Rightarrow> if plan_kind_text (cp_kind p) \<in> set GUARDED_KINDS then \<not> suppressed E m (cp_tenant p) s else True)"

lemma keeps_suppression_guard [keeps_intros]:
  "keeps (reading E) (suppression_guard E r k after ctx)" "keeps (planning E) (suppression_guard E r k after ctx)"
proof -
  show "keeps (reading E) (suppression_guard E r k after ctx)"
    unfolding suppression_guard_def suppression_lookup_def by (intro keeps_intros)
  then show "keeps (planning E) (suppression_guard E r k after ctx)" by (rule reading_planning)
qed

lemma keeps_writesFenced [keeps_intros]: "keeps (reading E) (writesFenced E t)" "keeps (planning E) (writesFenced E t)"
  unfolding writesFenced_def by (intro keeps_intros)+

lemma keeps_authorizedPlan [keeps_intros]: "keeps (planning E) (authorizedPlan E opId body ctx)"
  unfolding authorizedPlan_def by (intro keeps_intros)

lemma gate_check_iff [eff_simps]:
  "gate_check E f w = (Inr u, w') \<longleftrightarrow>
     (\<exists>g. f (en_dateNow E (wo_tick w)) (wo_gate w) = Inr g \<and> w' = w\<lparr>wo_gate := g, wo_tick := wo_tick w + 1\<rparr>)"
  by (auto simp: gate_check_def eff_simps bind_res_Inr_iff)

lemma gate_Inr: "gate m e = Inr g \<longleftrightarrow> (\<exists>d. m = Inr (d, g) \<and> de_allow d)"
  by (auto simp: gate_def bind_res_Inr_iff split: if_splits)

lemma subject_free_guard:
  "suppression_guard E (cp_resource p) (plan_kind_text (cp_kind p)) (cp_after p) ctx w = (Inr u, w') \<Longrightarrow>
     cp_tenant p = cx_tenant ctx \<Longrightarrow> subject_free E (wo_store w') p"
  unfolding suppression_guard_iff subject_free_def by (cases "subjectOf (cp_resource p) (cp_after p)") (auto split: if_splits)

lemma authorizedPlan_ok:
  assumes "authorizedPlan E opId body ctx w = (Inr p, w')"
  shows "planning E w w'" "\<not> fence_on (world_now E w) (cx_tenant ctx)"
    "\<exists>wp wq. planFor E opId body ctx False wp = (Inr p, wq)"
    "\<exists>g now. write_allowed E opId ctx g now p" "subject_free E (wo_store w') p"
    "\<exists>x. resultOf E p = Inr x"
proof -
  show "planning E w w'" by (rule planning.keepsD [OF keeps_authorizedPlan assms])
  obtain wp wq before after wr u where a: "\<not> fence_on (world_now E w) (cx_tenant ctx)"
    "planFor E opId body ctx False wp = (Inr p, wq)" "canonical_before E p = Inr before"
    "canonical E (cp_resource p) (cp_after p) = Inr after"
    "\<exists>g. requireWrite (en_platform E) (en_dateNow E (wo_tick wq)) (wo_gate wq) opId (cp_resource p) ctx before after = Inr g"
    "suppression_guard E (cp_resource p) (plan_kind_text (cp_kind p)) (cp_after p) ctx wr = (Inr u, w')"
    using assms by (auto simp: authorizedPlan_def eff_simps writesFenced_def simp del: suppression_guard_iff intro: that)
  show "\<not> fence_on (world_now E w) (cx_tenant ctx)" "\<exists>wp wq. planFor E opId body ctx False wp = (Inr p, wq)"
    using a(1,2) by blast+
  show "\<exists>g now. write_allowed E opId ctx g now p"
    using a(3-5) unfolding write_allowed_def requireWrite_def gate_Inr by blast
  show "subject_free E (wo_store w') p" using a(6) planFor_plan(1) [OF a(2)] by (rule subject_free_guard)
  show "\<exists>x. resultOf E p = Inr x"
    using a(3,4) planFor_plan(9) [OF a(2)]
    by (auto simp: resultOf_def canonical_def canonical_before_def bind_res_Inr_iff split: option.splits)
qed

section \<open>One mutation\<close>

text \<open>What a committed mutation went through, from the world it started in to the world it left.\<close>

definition committed :: "env \<Rightarrow> string \<Rightarrow> call_context \<Rightarrow> receipt option \<Rightarrow> world \<Rightarrow> commit_plan \<Rightarrow> world \<Rightarrow> bool" where
  "committed E opId ctx rc w p w' \<longleftrightarrow> cp_tenant p = cx_tenant ctx \<and> \<not> fence_on (world_now E w) (cx_tenant ctx) \<and>
     (\<exists>g now. write_allowed E opId ctx g now p) \<and>
     (\<exists>w1 p'. planning E w w1 \<and> subject_free E (wo_store w1) p \<and> with_receipt E rc p = Inr p' \<and>
        mem_commit (world_now E w1) p' = (None, wo_store w'))"

lemma mutate_Inr:
  assumes "mutate E opId body ctx rc w = (Inr x, w')"
  obtains p w1 p' where "authorizedPlan E opId body ctx w = (Inr p, w1)" "with_receipt E rc p = Inr p'"
    "mem_commit (world_now E w1) p' = (None, wo_store w')" "resultOf E p = Inr x" "wo_tick w' = wo_tick w1 + 1"
  using assms by (auto simp: mutate_def commit_plan_eff_def eff_simps intro: that)

lemma mutate_committed:
  assumes "mutate E opId body ctx rc w = (Inr x, w')"
  shows "\<exists>p. committed E opId ctx rc w p w' \<and> resultOf E p = Inr x"
proof -
  obtain p w1 p' where m: "authorizedPlan E opId body ctx w = (Inr p, w1)" "with_receipt E rc p = Inr p'"
    "mem_commit (world_now E w1) p' = (None, wo_store w')" "resultOf E p = Inr x"
    using mutate_Inr [OF assms] .
  note a = authorizedPlan_ok [OF m(1)]
  obtain wp wq where "planFor E opId body ctx False wp = (Inr p, wq)" using a(3) by blast
  with planFor_plan(1) have "cp_tenant p = cx_tenant ctx" by blast
  with a m show ?thesis unfolding committed_def by blast
qed

lemma storage_commit_fails:
  assumes "storage_commit E (\<lambda>m. mem_commit m p) w = (Inl e, w')"
  shows "wo_store w' = world_now E w"
  using assms mem_commit_fails
  by (fastforce simp: storage_commit_def storage_def world_now_def Let_def split: prod.splits option.splits)

lemma planning_now: "planning E w w1 \<Longrightarrow> wo_store w2 = world_now E w1 \<Longrightarrow> planning E w w2"
  unfolding planning_def world_now_def by (metis others_reach(2) rtranclp_trans)

lemma mutate_Inl:
  assumes "mutate E opId body ctx rc w = (Inl e, w')"
  shows "planning E w w'"
proof -
  from assms [unfolded mutate_def eff_bind_Inl_iff] show ?thesis
  proof
    assume "authorizedPlan E opId body ctx w = (Inl e, w')"
    then show ?thesis by (rule planning.keepsD [OF keeps_authorizedPlan])
  next
    assume "\<exists>p w1. authorizedPlan E opId body ctx w = (Inr p, w1) \<and> commit_plan_eff E rc p w1 = (Inl e, w')"
    then obtain p w1 where p: "authorizedPlan E opId body ctx w = (Inr p, w1)" "commit_plan_eff E rc p w1 = (Inl e, w')"
      by blast
    note a = authorizedPlan_ok [OF p(1)]
    obtain x where "resultOf E p = Inr x" using a(6) by blast
    with p(2) consider "w' = w1" | p' where "storage_commit E (\<lambda>m. mem_commit m p') w1 = (Inl e, w')"
      by (auto simp: commit_plan_eff_def eff_bind_Inl_iff eff_simps)
    then show ?thesis
    proof cases
      case 1
      with a(1) show ?thesis by simp
    next
      case 2
      from planning_now [OF a(1) storage_commit_fails [OF 2]] show ?thesis .
    qed
  qed
qed

section \<open>Relying on other callers\<close>

text \<open>
  A relation between stores that concurrent callers keep, and that writing a sequence document
  keeps, holds across planning; \<open>kept_docs\<close> says when only the documents differ.
\<close>

lemma planning_relation:
  assumes "planning E w w'" "\<And>m. P m m" "\<And>a b c. P a b \<Longrightarrow> P b c \<Longrightarrow> P a c" "\<And>n m. P m (en_others E n m)"
    and "\<And>m m'. me_tables m' = me_tables m \<Longrightarrow> me_receipts m' = me_receipts m \<Longrightarrow> me_claims m' = me_claims m \<Longrightarrow>
      me_audits m' = me_audits m \<Longrightarrow> me_outbox m' = me_outbox m \<Longrightarrow> P m m'"
  shows "P (wo_store w) (wo_store w')"
  using assms(1) unfolding planning_def
proof (induction rule: rtranclp_induct)
  case base
  then show ?case by (rule assms(2))
next
  case (step b c)
  have "P b c"
    using step(2) assms(4)
    by (auto simp: others_act_def) (auto simp: sequence_write_def mem_putDocument_def res_simps intro!: assms(5))
  with step.IH show ?case by (rule assms(3))
qed

definition rows_kept :: "string \<Rightarrow> resource \<Rightarrow> memory \<Rightarrow> memory \<Rightarrow> bool" where
  "rows_kept t r m m' \<longleftrightarrow> (\<forall>i x. mem_get m t r i = Some x \<longrightarrow> mem_get m' t r i = Some x)"

lemma rows_kept_trans: "rows_kept t r a b \<Longrightarrow> rows_kept t r b c \<Longrightarrow> rows_kept t r a c"
  by (simp add: rows_kept_def)

lemma planning_rows:
  assumes "planning E w w'" "\<And>n m. rows_kept t r m (en_others E n m)"
  shows "rows_kept t r (wo_store w) (wo_store w')"
proof (rule planning_relation [OF assms(1), where P = "rows_kept t r"])
  show "rows_kept t r m m" for m by (simp add: rows_kept_def)
  show "rows_kept t r a b \<Longrightarrow> rows_kept t r b c \<Longrightarrow> rows_kept t r a c" for a b c by (rule rows_kept_trans)
  show "rows_kept t r m (en_others E n m)" for n m by (rule assms(2))
  show "rows_kept t r m m'" if "me_tables m' = me_tables m" for m m'
    using mem_table_cong [OF that] by (simp add: rows_kept_def mem_get_def)
qed

lemma create_commit_rows:
  assumes "mem_commit m p = (None, m')" "cp_kind p = PkCreate" "\<not> cp_hardDelete p"
    and "plain_text t" "plain_text (cp_tenant p)"
    and "(t, r_id r) = (cp_tenant p, r_id (cp_resource p)) \<longrightarrow> r = cp_resource p"
  shows "rows_kept t r m m'"
proof -
  have k: "cp_kind p \<noteq> PkPublish" using assms(2) by simp
  have absent: "mem_get m (cp_tenant p) (cp_resource p) (cp_id p) = None"
    using commit_guarded [OF assms(1) k] assms(2) by (auto simp: version_guard_def split: option.splits)
  show ?thesis
  proof (cases "(t, r_id r) = (cp_tenant p, r_id (cp_resource p))")
    case True
    then have "t = cp_tenant p" "r = cp_resource p" using assms(6) by auto
    with absent commit_table [OF assms(1) k] assms(3) show ?thesis
      by (auto simp: rows_kept_def mem_get_def)
  next
    case False
    then have key: "key2 t (r_id r) \<noteq> key2 (cp_tenant p) (r_id (cp_resource p))"
      using key2_inj [OF assms(4,5)] by auto
    obtain m1 where m1: "completion_step m p = Inr m1" "m' = commit_apply m1 p"
      using assms(1) by (auto simp: mem_commit_ok commitSync_ok)
    have "mem_table m' t r = mem_table m t r"
      using key completion_step_parts [OF m1(1)] mem_table_cong [of m1 m] by (simp add: m1(2) mem_table_apply)
    then show ?thesis by (simp add: rows_kept_def mem_get_def)
  qed
qed

lemma other_commit_rows:
  assumes "mem_commit m p = (None, m')" "plain_text t" "plain_text (cp_tenant p)" "(t, r_id r) \<noteq> (cp_tenant p, r_id (cp_resource p))"
  shows "rows_kept t r m m'"
proof -
  have key: "key2 t (r_id r) \<noteq> key2 (cp_tenant p) (r_id (cp_resource p))"
    using key2_inj [OF assms(2,3)] assms(4) by auto
  obtain m1 where m1: "completion_step m p = Inr m1" "m' = commit_apply m1 p"
    using assms(1) by (auto simp: mem_commit_ok commitSync_ok)
  have "mem_table m' t r = mem_table m t r"
    using key completion_step_parts [OF m1(1)] mem_table_cong [of m1 m] by (simp add: m1(2) mem_table_apply)
  then show ?thesis by (simp add: rows_kept_def mem_get_def)
qed

section \<open>Receipts of a call\<close>

lemma with_receipt_Some:
  "with_receipt E (Some rc) p = Inr p' \<longleftrightarrow> (\<exists>x. resultOf E p = Inr x \<and> p' = p\<lparr>cp_receipt := Some (rc\<lparr>rc_response := JObj x\<rparr>)\<rparr>)"
  by (auto simp: with_receipt_def bind_res_Inr_iff)

lemma mutate_receipt:
  assumes "mutate E opId body ctx (Some rc) w = (Inr x, w')"
  shows "mem_getReceipt (wo_store w') (cx_tenant ctx) (rc_operation rc) (rc_key rc) = Some (rc\<lparr>rc_response := JObj x\<rparr>)"
proof -
  obtain p w1 p' where m: "authorizedPlan E opId body ctx w = (Inr p, w1)" "with_receipt E (Some rc) p = Inr p'"
    "mem_commit (world_now E w1) p' = (None, wo_store w')" "resultOf E p = Inr x"
    using mutate_Inr [OF assms] .
  obtain wp wq where "planFor E opId body ctx False wp = (Inr p, wq)" using authorizedPlan_ok(3) [OF m(1)] by blast
  then have t: "cp_tenant p = cx_tenant ctx" by (rule planFor_plan)
  have p': "p' = p\<lparr>cp_receipt := Some (rc\<lparr>rc_response := JObj x\<rparr>)\<rparr>" using m(2,4) by (auto simp: with_receipt_Some)
  have "map_of (me_receipts (wo_store w')) (receipt_key p' (rc\<lparr>rc_response := JObj x\<rparr>)) = Some (rc\<lparr>rc_response := JObj x\<rparr>)"
    by (rule receipt_written [OF m(3)]) (simp add: p')
  then show ?thesis by (simp add: mem_getReceipt_def receipt_key_def p' t)
qed

lemma replay_store:
  "replay E opn ctx h rc w = (r, w') \<Longrightarrow> wo_store w' = wo_store w \<and>
     (if rc_requestHash rc \<noteq> h then r = Inl (err ''IdempotencyMismatch'') else r = Inr (rc_response rc) \<or> (\<exists>e. r = Inl e))"
  by (auto simp: replay_def eff_fail_def eff_bind_def with_gate_def eff_guard_def eff_of_def eff_ret_def guard_res_def
      split: prod.splits sum.splits if_splits)

lemma replay_open:
  "gk_authorizer (wo_gate w) = None \<Longrightarrow> rc_requestHash rc = h \<Longrightarrow> fst (replay E opn ctx h rc w) = Inr (rc_response rc)"
  by (simp add: replay_def eff_bind_def with_gate_def gk_decide_def allow_all_def eff_guard_def eff_of_def eff_ret_def guard_res_def)

lemma find_receipt_run:
  "find_receipt E ctx opn key w =
     (Inr (mem_getReceipt (world_now E w) (cx_tenant ctx) opn key), w\<lparr>wo_store := world_now E w, wo_tick := wo_tick w + 1\<rparr>)"
  by (simp add: find_receipt_def storage_read_def storage_def world_now_def Let_def)

lemma withIdempotency_known:
  assumes "effective_key explicit ctx = Some key" "mem_getReceipt (world_now E w) (cx_tenant ctx) opn key = Some rc"
  shows "withIdempotency E opn body ctx run explicit w =
    replay E opn ctx (sha256 E (stable_json (JObj body))) rc (w\<lparr>wo_store := world_now E w, wo_tick := wo_tick w + 1\<rparr>)"
  by (simp add: withIdempotency_def assms Let_def eff_bind_def find_receipt_run)

text \<open>A call that returned under a key has left the receipt of what it returned.\<close>

lemma withIdempotency_receipt:
  assumes "effective_key explicit ctx = Some key"
    and "withIdempotency E opn body ctx (mutate E opId body ctx) explicit w = (Inr v, w')"
  shows "\<exists>rc. mem_getReceipt (wo_store w') (cx_tenant ctx) opn key = Some rc \<and>
    rc_requestHash rc = sha256 E (stable_json (JObj body)) \<and> rc_response rc = v"
proof -
  let ?h = "sha256 E (stable_json (JObj body))"
  have known: "\<exists>rc. mem_getReceipt (wo_store w') (cx_tenant ctx) opn key = Some rc \<and> rc_requestHash rc = ?h \<and> rc_response rc = v"
    if "mem_getReceipt (wo_store u) (cx_tenant ctx) opn key = Some rc" "replay E opn ctx ?h rc u = (Inr v, w')" for rc u
    using replay_store [OF that(2)] that(1) by (auto split: if_splits)
  let ?u = "w\<lparr>wo_store := world_now E w, wo_tick := wo_tick w + 1\<rparr>"
  show ?thesis
  proof (cases "mem_getReceipt (world_now E w) (cx_tenant ctx) opn key")
    case (Some rc)
    show ?thesis
      by (rule known [of ?u rc]) (use Some assms(2) withIdempotency_known [OF assms(1) Some] in simp_all)
  next
    case None
    let ?rc = "open_receipt ctx opn key ?h (en_clock E (wo_tick ?u))"
    let ?w1 = "?u\<lparr>wo_tick := wo_tick ?u + 1\<rparr>"
    obtain r w2 where run: "mutate E opId body ctx (Some ?rc) ?w1 = (r, w2)" by (cases "mutate E opId body ctx (Some ?rc) ?w1") auto
    show ?thesis
    proof (cases r)
      case (Inr x)
      with assms(2) run None have "w' = w2" "v = JObj x"
        by (auto simp: withIdempotency_def assms(1) Let_def eff_bind_def find_receipt_run eff_env_def eff_catch_def eff_ret_def)
      with mutate_receipt [of E opId body ctx ?rc ?w1 x w2] run Inr show ?thesis by (simp add: open_receipt_def)
    next
      case (Inl e)
      let ?u2 = "w2\<lparr>wo_store := world_now E w2, wo_tick := wo_tick w2 + 1\<rparr>"
      from assms(2) run None Inl obtain rc where
        "mem_getReceipt (world_now E w2) (cx_tenant ctx) opn key = Some rc" "replay E opn ctx ?h rc ?u2 = (Inr v, w')"
        by (auto simp: withIdempotency_def assms(1) Let_def eff_bind_def find_receipt_run eff_env_def eff_catch_def eff_ret_def
            eff_fail_def split: if_splits option.splits)
      with known [of ?u2 rc] show ?thesis by simp
    qed
  qed
qed

end
