(* ===== verification/Engine_Atomic_Correct.thy ===== *)
theory Engine_Atomic_Correct
  imports Engine_Atomic Engine_Correct
begin

text \<open>
  \<open>atomic\<close>: what every planned mutation went through, and what its one commit leaves of the facts
  that had to be absent.
\<close>

section \<open>The facts that have to be absent\<close>

definition claimed :: "memory \<Rightarrow> string \<Rightarrow> string \<Rightarrow> bool" where
  "claimed m t k \<longleftrightarrow> mhas (key2 t k) (me_claims m)"

definition publishes :: "commit_plan \<Rightarrow> string \<Rightarrow> bool" where
  "publishes p k \<longleftrightarrow> (\<exists>c\<in>set (cp_claims p). cc_after c = Some k)"

lemma key2_same: "key2 t a = key2 t b \<longleftrightarrow> a = b"
  by (simp add: key2_def)

lemma apply_claims_absent:
  "\<forall>c\<in>set cs. cc_after c \<noteq> Some k \<Longrightarrow> \<not> mhas (key2 t k) claims \<Longrightarrow> \<not> mhas (key2 t k) (foldl (apply_claim t i) claims cs)"
proof (induction cs arbitrary: claims)
  case Nil
  then show ?case by simp
next
  case (Cons c cs)
  have "\<not> mhas (key2 t k) (apply_claim t i claims c)"
    using Cons.prems by (auto simp: apply_claim_def Let_def mhas_iff key2_same split: option.splits)
  with Cons show ?case by simp
qed

lemma commit_absent:
  assumes "commitSync m p = (None, m')" "\<not> publishes p k" "\<not> claimed m (cp_tenant p) k"
  shows "\<not> claimed m' (cp_tenant p) k"
proof -
  obtain m1 where m1: "completion_step m p = Inr m1" "m' = commit_apply m1 p"
    using assms(1) by (auto simp: commitSync_ok)
  have "me_claims m1 = me_claims m" using completion_step_parts [OF m1(1)] by blast
  moreover have "me_claims m' = (if cp_kind p = PkPublish then me_claims m1
      else foldl (apply_claim (cp_tenant p) (cp_id p)) (me_claims m1) (cp_claims p))"
    by (simp add: m1(2) commit_apply_def apply_common_def apply_record_def Let_def)
  ultimately show ?thesis
    using assms(2,3) apply_claims_absent [of "cp_claims p" k "cp_tenant p" "me_claims m" "cp_id p"]
    by (auto simp: claimed_def publishes_def)
qed

lemma commits_absent:
  assumes "commit_plans m ps = (None, m')" "\<forall>p\<in>set ps. cp_tenant p = t \<and> \<not> publishes p k" "\<not> claimed m t k"
  shows "\<not> claimed m' t k"
  using assms
proof (induction ps arbitrary: m)
  case (Cons p ps)
  obtain m1 where m1: "commitSync m p = (None, m1)" "commit_plans m1 ps = (None, m')"
    using Cons.prems(1) by (auto split: prod.splits option.splits)
  have "\<not> claimed m1 t k" using commit_absent [OF m1(1)] Cons.prems(2,3) by auto
  with Cons.IH [OF m1(2)] Cons.prems(2) show ?case by simp
qed simp

lemma absence_none:
  "absenceWriteConflict ps gs = None \<Longrightarrow> g \<in> set gs \<Longrightarrow> p \<in> set ps \<Longrightarrow> cp_tenant p = ag_tenant g \<Longrightarrow> \<not> publishes p (ag_claimKey g)"
  by (induction ps gs rule: absenceWriteConflict.induct) (auto simp: publishes_def list_ex_iff split: if_splits)

lemma commitAll_absent:
  assumes "commitAll m ps gs rs = (None, m')" "g \<in> set gs" "\<forall>p\<in>set ps. cp_tenant p = ag_tenant g"
  shows "\<not> claimed m (ag_tenant g) (ag_claimKey g)" "\<not> claimed m' (ag_tenant g) (ag_claimKey g)"
proof -
  have c: "absenceWriteConflict ps gs = None" "\<forall>h\<in>set gs. \<not> claimed m (ag_tenant h) (ag_claimKey h)"
    "commit_plans m ps = (None, m')"
    using assms(1) by (auto simp: commitAll_def list_ex_iff claimed_def split: if_splits option.splits prod.splits)
  show m: "\<not> claimed m (ag_tenant g) (ag_claimKey g)" using c(2) assms(2) by blast
  show "\<not> claimed m' (ag_tenant g) (ag_claimKey g)"
    using commits_absent [OF c(3) _ m] absence_none [OF c(1) assms(2)] assms(3) by blast
qed

section \<open>The planned mutations\<close>

definition plan_authorized :: "env \<Rightarrow> call_context \<Rightarrow> atomic_mutation \<Rightarrow> commit_plan \<Rightarrow> bool" where
  "plan_authorized E ctx mu p \<longleftrightarrow> cp_tenant p = cx_tenant ctx \<and>
     (\<exists>w w'. authorizedPlan E (am_operation mu) (am_input mu) ctx w = (Inr p, w')) \<and>
     (\<exists>g now. write_allowed E (am_operation mu) ctx g now p) \<and> (\<exists>m. subject_free E m p)"

definition distinct_records :: "commit_plan list \<Rightarrow> bool" where
  "distinct_records ps \<longleftrightarrow> sorted_wrt (\<lambda>p q. \<not> same_record p q) ps"

lemma authorized_plan: "authorizedPlan E (am_operation mu) (am_input mu) ctx w = (Inr p, w') \<Longrightarrow> plan_authorized E ctx mu p"
  using authorizedPlan_ok(3-5) [of E "am_operation mu" "am_input mu" ctx w p w'] planFor_plan(1)
  unfolding plan_authorized_def by blast

lemma plan_authorized_result: "plan_authorized E ctx mu p \<Longrightarrow> \<exists>x. surface_result E s p = Inr x"
  using authorizedPlan_ok(6) unfolding plan_authorized_def surface_result_def by fastforce

lemma atomic_plan_ok: "atomic_plan E ctx mu w = (Inr (p, s), w') \<Longrightarrow> plan_authorized E ctx mu p"
  by (auto simp: atomic_plan_def eff_simps intro: authorized_plan split: option.splits if_splits)

lemma atomic_plans_ok:
  assumes "atomic_plans E ctx acc mus w = (Inr xs, w')" "distinct_records (map fst acc)"
  shows "\<exists>ys. xs = acc @ ys \<and> list_all2 (\<lambda>mu y. plan_authorized E ctx mu (fst y)) mus ys \<and> distinct_records (map fst xs)"
  using assms
proof (induction E ctx acc mus arbitrary: w rule: atomic_plans.induct)
  case (1 E ctx acc)
  then show ?case by (simp add: eff_simps)
next
  case (2 E ctx acc mu mus)
  obtain p s w1 where p: "atomic_plan E ctx mu w = (Inr (p, s), w1)"
    "\<not> list_ex (\<lambda>x. same_record (fst x) p) acc" "atomic_plans E ctx (acc @ [(p, s)]) mus w1 = (Inr xs, w')"
    using "2.prems"(1) by (auto simp: eff_simps)
  have "distinct_records (map fst (acc @ [(p, s)]))"
    using "2.prems"(2) p(2) by (auto simp: distinct_records_def sorted_wrt_append list_ex_iff)
  from "2.IH" [OF p(3) this] obtain ys where ys: "xs = (acc @ [(p, s)]) @ ys"
    "list_all2 (\<lambda>mu y. plan_authorized E ctx mu (fst y)) mus ys" "distinct_records (map fst xs)" by auto
  with atomic_plan_ok [OF p(1)] show ?case by (intro exI [where x = "(p, s) # ys"]) simp
qed

lemma keeps_atomic_plan [keeps_intros]: "keeps (planning E) (atomic_plan E ctx mu)"
  unfolding atomic_plan_def by (intro keeps_intros)

lemma keeps_atomic_plans [keeps_intros]: "keeps (planning E) (atomic_plans E ctx acc mus)"
  by (induction E ctx acc mus rule: atomic_plans.induct) (auto intro!: keeps_intros)

lemma keeps_absence_guard_of [keeps_intros]: "keeps (planning E) (absence_guard_of E ctx a)"
  unfolding absence_guard_of_def Let_def by (intro keeps_intros)

lemma absence_guard_tenant: "absence_guard_of E ctx a w = (Inr g, w') \<Longrightarrow> ag_tenant g = cx_tenant ctx"
  by (auto simp: absence_guard_of_def Let_def eff_simps split: option.splits)

lemma eff_map_all: "eff_map f xs w = (Inr ys, w') \<Longrightarrow> (\<And>x w y w'. f x w = (Inr y, w') \<Longrightarrow> P y) \<Longrightarrow> \<forall>y\<in>set ys. P y"
  by (induction xs arbitrary: ys w) (auto simp: eff_simps)

lemma dedup_subset: "set (dedup_guards acc gs) \<subseteq> set acc \<union> set gs"
  by (induction acc gs rule: dedup_guards.induct) (auto split: if_splits)

lemma surface_results:
  "\<forall>(p, s)\<in>set xs. \<exists>x. surface_result E s p = Inr x \<Longrightarrow>
     \<exists>ys. eff_map (\<lambda>(p, s). eff_of (surface_result E s p)) xs w = (Inr ys, w)"
  by (induction xs) (auto simp: eff_simps eff_bind_def eff_of_def eff_ret_def)

section \<open>All or nothing\<close>

definition atomic_commit :: "env \<Rightarrow> call_context \<Rightarrow> atomic_mutation list \<Rightarrow> world \<Rightarrow> commit_plan list \<Rightarrow> absence_guard list \<Rightarrow> world \<Rightarrow> bool" where
  "atomic_commit E ctx mus w ps gs w' \<longleftrightarrow>
     (\<exists>w1. planning E w w1 \<and> commitAll (world_now E w1) ps gs [] = (None, wo_store w')) \<and>
     list_all2 (plan_authorized E ctx) mus ps \<and> distinct_records ps \<and>
     (\<forall>g\<in>set gs. ag_tenant g = cx_tenant ctx \<and> \<not> claimed (wo_store w') (cx_tenant ctx) (ag_claimKey g))"

lemma commitAll_Inl_world:
  assumes "storage_commit E (\<lambda>m. commitAll m ps gs []) w = (Inl e, w')"
  shows "wo_store w' = world_now E w"
  using assms commitAll_fails
  by (fastforce simp: storage_commit_def storage_def world_now_def Let_def split: prod.splits option.splits)

lemma list_all2_auth: "list_all2 (\<lambda>mu y. plan_authorized E ctx mu (fst y)) mus xs \<Longrightarrow> p \<in> fst ` set xs \<Longrightarrow>
    \<exists>mu\<in>set mus. plan_authorized E ctx mu p"
  by (induction rule: list_all2_induct) auto

lemma atomic_finish:
  assumes "atomic_plans E ctx [] mus w0 = (Inr xs, w1)" "planning E w w1"
    and "\<forall>g\<in>set gs. ag_tenant g = cx_tenant ctx"
    and "(eff_bind (storage_commit E (\<lambda>m. commitAll m (map fst xs) gs [])) (\<lambda>_.
          eff_map (\<lambda>(p, s). eff_of (surface_result E s p)) xs)) w1 = (r, w')"
  shows "case r of Inl e \<Rightarrow> planning E w w' | Inr ys \<Rightarrow> atomic_commit E ctx mus w (map fst xs) gs w'"
proof -
  have d: "distinct_records (map fst ([] :: (commit_plan \<times> surface option) list))" by (simp add: distinct_records_def)
  have xs: "list_all2 (\<lambda>mu y. plan_authorized E ctx mu (fst y)) mus xs" "distinct_records (map fst xs)"
    using atomic_plans_ok [OF assms(1) d] by auto
  have auth: "\<exists>mu. plan_authorized E ctx mu p" if "p \<in> fst ` set xs" for p
    using list_all2_auth [OF xs(1) that] by blast
  have "\<forall>(p, s)\<in>set xs. \<exists>x. surface_result E s p = Inr x"
  proof
    fix x assume x: "x \<in> set xs"
    obtain p s where ps: "x = (p, s)" by (cases x)
    with x have "p \<in> fst ` set xs" by force
    with auth obtain mu where "plan_authorized E ctx mu p" by blast
    from plan_authorized_result [OF this] ps show "case x of (p, s) \<Rightarrow> \<exists>y. surface_result E s p = Inr y" by simp
  qed
  then have "\<exists>ys. eff_map (\<lambda>(p, s). eff_of (surface_result E s p)) xs w2 = (Inr ys, w2)" for w2
    by (rule surface_results)
  then obtain ys where ys: "\<And>w2. eff_map (\<lambda>(p, s). eff_of (surface_result E s p)) xs w2 = (Inr (ys w2), w2)"
    by metis
  obtain q w2 where q: "storage_commit E (\<lambda>m. commitAll m (map fst xs) gs []) w1 = (q, w2)" by (meson surj_pair)
  show ?thesis
  proof (cases q)
    case (Inl e)
    with q assms(4) have "r = Inl e" "w' = w2" by (auto simp: eff_bind_def)
    with planning_now [OF assms(2) commitAll_Inl_world] q Inl show ?thesis by simp
  next
    case (Inr u)
    with q assms(4) ys have r: "r = Inr (ys w2)" "w' = w2" by (auto simp: eff_bind_def)
    have c: "commitAll (world_now E w1) (map fst xs) gs [] = (None, wo_store w')"
      using q Inr r by (auto simp: eff_simps)
    have t: "\<forall>p\<in>set (map fst xs). cp_tenant p = ag_tenant g" if "g \<in> set gs" for g
    proof
      fix p assume "p \<in> set (map fst xs)"
      with auth obtain mu where "plan_authorized E ctx mu p" by auto
      with assms(3) that show "cp_tenant p = ag_tenant g" by (simp add: plan_authorized_def)
    qed
    have "\<not> claimed (wo_store w') (cx_tenant ctx) (ag_claimKey g)" if "g \<in> set gs" for g
      using commitAll_absent(2) [OF c that t [OF that]] assms(3) that by simp
    moreover have "list_all2 (plan_authorized E ctx) mus (map fst xs)" using xs(1) by (simp add: list_all2_map2)
    moreover have "\<exists>w1. planning E w w1 \<and> commitAll (world_now E w1) (map fst xs) gs [] = (None, wo_store w')"
      using c assms(2) by blast
    ultimately show ?thesis
      using r(1) assms(3) xs(2) unfolding atomic_commit_def by simp
  qed
qed

lemma keeps_atomic_prepare: "keeps (planning E) (atomic_prepare E mus ctx absent)"
  unfolding atomic_prepare_def Let_def by (intro keeps_intros)

lemma atomic_cases:
  assumes "atomic E mus ctx absent w = (r, w')"
  shows "case r of Inl e \<Rightarrow> planning E w w' | Inr ys \<Rightarrow> \<exists>ps gs. atomic_commit E ctx mus w ps gs w'"
proof -
  obtain q w1 where q: "atomic_prepare E mus ctx absent w = (q, w1)" by (meson surj_pair)
  have pl: "planning E w w1" by (rule planning.keepsD [OF keeps_atomic_prepare q])
  show ?thesis
  proof (cases q)
    case (Inl e)
    with q assms pl show ?thesis by (auto simp: atomic_def eff_bind_def)
  next
    case (Inr y)
    obtain xs gs where y: "y = (xs, gs)" by (cases y) auto
    obtain gs0 w0 w2 where p: "eff_map (absence_guard_of E ctx) absent w = (Inr gs0, w0)" "gs = dedup_guards [] gs0"
      "atomic_plans E ctx [] mus w0 = (Inr xs, w1)"
      using q Inr y unfolding atomic_prepare_def Let_def by (auto simp: eff_simps)
    have "\<forall>g\<in>set gs. ag_tenant g = cx_tenant ctx"
      using eff_map_all [OF p(1), of "\<lambda>g. ag_tenant g = cx_tenant ctx"] absence_guard_tenant dedup_subset [of "[]" gs0] p(2)
      by fastforce
    moreover have "(eff_bind (storage_commit E (\<lambda>m. commitAll m (map fst xs) gs [])) (\<lambda>_.
          eff_map (\<lambda>(p, s). eff_of (surface_result E s p)) xs)) w1 = (r, w')"
      using assms q Inr y by (simp add: atomic_def eff_bind_def)
    ultimately have "case r of Inl e \<Rightarrow> planning E w w' | Inr ys \<Rightarrow> atomic_commit E ctx mus w (map fst xs) gs w'"
      using atomic_finish [OF p(3) pl] by blast
    then show ?thesis by (auto split: sum.splits)
  qed
qed

end
