(* ===== verification/Engine_Sequences.thy ===== *)
theory Engine_Sequences
  imports Engine_Correct
begin

text \<open>
  Sequence numbers: the reservation loop of \<open>create\<close> under concurrent callers. Callers rely on each
  other to advance the sequence document only as the loop itself does (\<open>seq_step\<close>); then every
  reserved number is new and within its bounds.
\<close>

definition seq_doc :: "memory \<Rightarrow> string \<Rightarrow> string \<Rightarrow> (nat \<times> obj) option" where
  "seq_doc m t key = getDocument (me_documents m) t SEQUENCE_KIND key"

text \<open>The last number reserved: None before the first reservation, or when the document is not one of ours.\<close>

definition seq_last :: "memory \<Rightarrow> string \<Rightarrow> string \<Rightarrow> int option" where
  "seq_last m t key = (case seq_doc m t key of None \<Rightarrow> None
     | Some (v, d) \<Rightarrow> (case oget d ''last'' of JInt l \<Rightarrow> Some l | _ \<Rightarrow> None))"

definition seq_wf :: "sequence_decl \<Rightarrow> string \<Rightarrow> string \<Rightarrow> memory \<Rightarrow> bool" where
  "seq_wf sq t key m \<longleftrightarrow> seq_doc m t key = None \<or>
     (\<exists>l. seq_last m t key = Some l \<and> sq_start sq \<le> l \<and> l \<le> sq_max sq)"

text \<open>The document is untouched, or has a newer version with a number that is not smaller.\<close>

definition seq_step :: "sequence_decl \<Rightarrow> string \<Rightarrow> string \<Rightarrow> memory \<Rightarrow> memory \<Rightarrow> bool" where
  "seq_step sq t key m m' \<longleftrightarrow> (seq_wf sq t key m \<longrightarrow> seq_wf sq t key m') \<and>
     (case seq_doc m t key of None \<Rightarrow> True
      | Some (v, d) \<Rightarrow> (\<exists>v' d'. seq_doc m' t key = Some (v', d') \<and> (v' = v \<and> d' = d \<or> v < v'))) \<and>
     (\<forall>l. seq_last m t key = Some l \<longrightarrow> (\<exists>l'. seq_last m' t key = Some l' \<and> l \<le> l'))"

lemma seq_step_refl: "seq_step sq t key m m"
  by (auto simp: seq_step_def split: option.splits)

lemma seq_step_trans: "seq_step sq t key a b \<Longrightarrow> seq_step sq t key b c \<Longrightarrow> seq_step sq t key a c"
  unfolding seq_step_def by (fastforce split: option.splits)

lemma seq_step_last: "seq_step sq t key m m' \<Longrightarrow> seq_last m t key = Some l \<Longrightarrow> \<exists>l'. seq_last m' t key = Some l' \<and> l \<le> l'"
  by (auto simp: seq_step_def)

lemma seq_wf_safe:
  assumes "safe_int (sq_start sq)" "safe_int (sq_max sq + 1)" "seq_wf sq t key m" "seq_last m t key = Some l"
  shows "safe_int (l + 1)"
  using assms by (auto simp: seq_wf_def seq_last_def safe_int_def)

text \<open>The next number, read off a well-formed document.\<close>

lemma sequence_next_Some:
  assumes "seq_wf sq t key m" "safe_int (sq_start sq)" "safe_int (sq_max sq + 1)"
    and "sequence_next pl sq (mem_getDocument m t SEQUENCE_KIND key) = Some n"
  shows "n = (case seq_last m t key of None \<Rightarrow> sq_start sq | Some l \<Rightarrow> l + 1)" "sq_start sq \<le> n" "n \<le> sq_max sq"
proof -
  have "n = (case seq_last m t key of None \<Rightarrow> sq_start sq | Some l \<Rightarrow> l + 1) \<and> sq_start sq \<le> n \<and> n \<le> sq_max sq"
  proof (cases "seq_doc m t key")
    case None
    with assms(4) show ?thesis
      by (auto simp: sequence_next_def seq_last_def seq_doc_def mem_getDocument_def Let_def split: if_splits)
  next
    case (Some x)
    obtain v d where x: "x = (v, d)" by (cases x)
    obtain l where l: "seq_last m t key = Some l" "oget d ''last'' = JInt l"
      using assms(1) Some x by (auto simp: seq_wf_def seq_last_def split: option.splits jsval.splits)
    have s: "safe_int (l + 1)" by (rule seq_wf_safe [OF assms(2,3,1) l(1)])
    have "oget (mput ''_version'' (JInt (int v)) d) ''last'' = JInt l" using l(2) by (simp add: oget_def)
    with assms(4) Some x s show ?thesis
      by (auto simp: sequence_next_def seq_doc_def mem_getDocument_def Let_def l(1) split: if_splits)
  qed
  then show "n = (case seq_last m t key of None \<Rightarrow> sq_start sq | Some l \<Rightarrow> l + 1)" "sq_start sq \<le> n" "n \<le> sq_max sq"
    by blast+
qed

text \<open>A write that its version condition accepts.\<close>

lemma reserved_doc:
  assumes "mem_putDocument m t SEQUENCE_KIND key [(''last'', JInt n)] e = Inr m'"
  shows "seq_doc m' t key = Some (Suc (case e of None \<Rightarrow> 0 | Some v \<Rightarrow> v), [(''last'', JInt n)])"
    "seq_last m' t key = Some n" "map_option fst (seq_doc m t key) = e"
proof -
  obtain ds where ds: "putDocument (me_documents m) t SEQUENCE_KIND key [(''last'', JInt n)] e = Inr ds"
    "m' = m\<lparr>me_documents := ds\<rparr>"
    using assms by (auto simp: mem_putDocument_def res_simps mdel_def)
  show "seq_doc m' t key = Some (Suc (case e of None \<Rightarrow> 0 | Some v \<Rightarrow> v), [(''last'', JInt n)])"
    using putDocument_read [OF ds(1)] by (simp add: seq_doc_def ds(2))
  then show "seq_last m' t key = Some n" by (simp add: seq_last_def oget_def)
  show "map_option fst (seq_doc m t key) = e"
    using putDocument_Inr_iff [of "me_documents m" t SEQUENCE_KIND key "[(''last'', JInt n)]" e] ds(1)
    by (simp add: seq_doc_def)
qed

text \<open>
  What one reservation does: from any store whose document is well formed, with other callers
  keeping \<open>seq_step\<close>, a returned number lies in the bounds, exceeds every earlier one, is the last
  one afterwards, and the call keeps \<open>seq_step\<close> itself.
\<close>

lemma reserve_step:
  assumes "\<And>n m. seq_step sq t key m (en_others E n m)" "safe_int (sq_start sq)" "safe_int (sq_max sq + 1)"
    and "seq_wf sq t key (wo_store w)" "reserve k E t sq key w = (res, w')"
  shows "seq_step sq t key (wo_store w) (wo_store w') \<and>
    (\<forall>n. res = Inr n \<longrightarrow> sq_start sq \<le> n \<and> n \<le> sq_max sq \<and> seq_last (wo_store w') t key = Some n \<and>
      (\<forall>l. seq_last (wo_store w) t key = Some l \<longrightarrow> l < n))"
  using assms(4,5)
proof (induction k arbitrary: w)
  case 0
  then show ?case by (auto simp: eff_fail_def seq_step_refl)
next
  case (Suc k)
  define m1 where "m1 = world_now E w"
  define w1 where "w1 = w\<lparr>wo_store := m1, wo_tick := wo_tick w + 1\<rparr>"
  let ?cur = "mem_getDocument m1 t SEQUENCE_KIND key"
  have s1: "seq_step sq t key (wo_store w) m1" by (simp add: m1_def world_now_def assms(1))
  have f1: "seq_wf sq t key m1" using s1 Suc.prems(1) by (simp add: seq_step_def)
  note run1 = Suc.prems(2) [unfolded reserve.simps run_read, folded m1_def, folded w1_def]
  show ?case
  proof (cases "sequence_next (en_platform E) sq ?cur")
    case None
    then have "w' = w1" "\<exists>e. res = Inl e"
      using run1 by (auto simp: eff_fail_def)
    with s1 show ?thesis by (auto simp: w1_def)
  next
    case (Some nxt)
    note nxt = sequence_next_Some [OF f1 assms(2,3) Some]
    define m2 where "m2 = world_now E w1"
    have s2: "seq_step sq t key m1 m2" by (simp add: m2_def world_now_def w1_def assms(1))
    have f2: "seq_wf sq t key m2" using s2 f1 by (simp add: seq_step_def)
    let ?put = "mem_putDocument m2 t SEQUENCE_KIND key [(''last'', JInt nxt)] (doc_expected ?cur)"
    note run = run1 [unfolded Some option.case run_exit_write, folded m2_def]
    show ?thesis
    proof (cases ?put)
      case (Inr m3)
      then have res: "res = Inr nxt" "wo_store w' = m3"
        using run by (auto simp: eff_ret_def)
      note d = reserved_doc [OF Inr]
      have e: "doc_expected ?cur = map_option fst (seq_doc m1 t key)"
        by (simp add: doc_expected_read seq_doc_def)
      have same: "seq_last m2 t key = seq_last m1 t key"
        using s2 d(3) e by (cases "seq_doc m1 t key") (auto simp: seq_step_def seq_last_def)
      have lt: "l < nxt" if "seq_last m1 t key = Some l" for l using nxt(1) that by simp
      have s3: "seq_step sq t key m2 m3"
        unfolding seq_step_def
      proof (intro conjI impI allI)
        show "seq_wf sq t key m3" using d(2) nxt(2,3) by (simp add: seq_wf_def)
        show "case seq_doc m2 t key of None \<Rightarrow> True | Some (v, da) \<Rightarrow>
            \<exists>v' d'. seq_doc m3 t key = Some (v', d') \<and> (v' = v \<and> d' = da \<or> v < v')"
          using d(1,3) by (auto split: option.splits)
        show "\<exists>l'. seq_last m3 t key = Some l' \<and> l \<le> l'" if "seq_last m2 t key = Some l" for l
          using lt [of l] that same d(2) by auto
      qed
      have "seq_step sq t key (wo_store w) m3" using s1 s2 s3 seq_step_trans by blast
      moreover have "l < nxt" if "seq_last (wo_store w) t key = Some l" for l
        using seq_step_last [OF s1 that] lt by force
      ultimately show ?thesis using res d(2) nxt(2,3) by auto
    next
      case (Inl e)
      let ?w2 = "w1\<lparr>wo_store := m2, wo_tick := wo_tick w1 + 1\<rparr>"
      have s12: "seq_step sq t key (wo_store w) m2" using s1 s2 seq_step_trans by blast
      show ?thesis
      proof (cases "is_version_conflict e")
        case True
        with run Inl have "reserve k E t sq key ?w2 = (res, w')" by simp
        from Suc.IH [OF _ this] f2 have ih: "seq_step sq t key m2 (wo_store w') \<and>
          (\<forall>n. res = Inr n \<longrightarrow> sq_start sq \<le> n \<and> n \<le> sq_max sq \<and> seq_last (wo_store w') t key = Some n \<and>
             (\<forall>l. seq_last m2 t key = Some l \<longrightarrow> l < n))" by simp
        have "seq_step sq t key (wo_store w) (wo_store w')" using ih s12 seq_step_trans by blast
        moreover have "l < n" if "res = Inr n" "seq_last (wo_store w) t key = Some l" for n l
          using seq_step_last [OF s12 that(2)] ih that(1) by fastforce
        ultimately show ?thesis using ih by auto
      next
        case False
        with run Inl s12 show ?thesis by (auto simp: eff_fail_def)
      qed
    qed
  qed
qed

text \<open>Without contention the first attempt succeeds unless the sequence is exhausted.\<close>

lemma reserve_alone:
  assumes "\<And>n m. en_others E n m = m" "reserve (Suc k) E t sq key w = (res, w')"
  shows "(\<exists>n. res = Inr n) \<or> res = Inl (err ''SequenceExhausted'')"
proof -
  let ?m = "wo_store w"
  let ?cur = "mem_getDocument ?m t SEQUENCE_KIND key"
  have now: "world_now E v = wo_store v" for v by (simp add: world_now_def assms(1))
  note run = assms(2) [unfolded reserve.simps run_read now]
  show ?thesis
  proof (cases "sequence_next (en_platform E) sq ?cur")
    case None
    then show ?thesis using run by (auto simp: eff_fail_def)
  next
    case (Some nxt)
    have "\<exists>m'. mem_putDocument ?m t SEQUENCE_KIND key [(''last'', JInt nxt)] (doc_expected ?cur) = Inr m'"
      using putDocument_Inr_iff [of "me_documents ?m" t SEQUENCE_KIND key "mdel ''_version'' [(''last'', JInt nxt)]" "doc_expected ?cur"]
      by (auto simp: mem_putDocument_def doc_expected_read)
    then obtain m' where "mem_putDocument ?m t SEQUENCE_KIND key [(''last'', JInt nxt)] (doc_expected ?cur) = Inr m'" ..
    then show ?thesis using run Some by (auto simp: run_exit_write now eff_ret_def)
  qed
qed

end
