(* ===== verification/Decode_Correct.thy ===== *)
theory Decode_Correct
  imports Decode
begin

text \<open>
  What decoding guarantees. \<open>conforms\<close> says declaratively which values a declared type has; every
  value \<open>decodeValue\<close> returns has its type, \<open>decodeObject\<close> writes exactly the writable fields with
  values of their types, and \<open>canonicalize\<close> depends on no secret or hidden field.
\<close>

section \<open>The values of a type\<close>

definition within_bounds :: "bounds \<Rightarrow> int \<Rightarrow> bool" where
  "within_bounds b i \<longleftrightarrow>
     (\<forall>a. bd_min b = JInt a \<longrightarrow> a \<le> i) \<and> (\<forall>a. bd_max b = JInt a \<longrightarrow> i \<le> a) \<and>
     (\<forall>a. bd_xmin b = JInt a \<longrightarrow> a < i) \<and> (\<forall>a. bd_xmax b = JInt a \<longrightarrow> i < a)"

definition text_conforms :: "platform \<Rightarrow> string \<Rightarrow> type_spec \<Rightarrow> string \<Rightarrow> bool" where
  "text_conforms pl n t s \<longleftrightarrow>
     list_all (\<lambda>c. \<not> is_control c) s \<and> list_all (pattern_ok pl s) (ts_constraints t) \<and>
     (case length_constr (ts_constraints t) of None \<Rightarrow> True
      | Some (mn, mx) \<Rightarrow> (\<forall>k. mn = Some k \<longrightarrow> k \<le> length s) \<and> (\<forall>k. mx = Some k \<longrightarrow> length s \<le> k)) \<and>
     (n = ''timezone'' \<longrightarrow> timezone_ok pl s) \<and> (n = ''email'' \<longrightarrow> is_email s) \<and>
     (n = ''countryCode'' \<longrightarrow> is_country s) \<and> (n = ''id'' \<longrightarrow> is_id s)"

definition decimal_scale :: "string \<Rightarrow> string list \<Rightarrow> type_spec \<Rightarrow> nat \<Rightarrow> bool" where
  "decimal_scale n args t sc \<longleftrightarrow>
     (if n = ''money'' then currencyScale (case args of [] \<Rightarrow> ''USD'' | a # _ \<Rightarrow> a) = Inr sc else sc = scaleOf t)"

definition scalar_conforms :: "platform \<Rightarrow> string \<Rightarrow> string list \<Rightarrow> type_spec \<Rightarrow> jsval \<Rightarrow> bool" where
  "scalar_conforms pl n args t v \<longleftrightarrow>
     (if n \<in> set TEXT_SCALARS then (\<exists>s. v = JStr s \<and> text_conforms pl n t s)
      else if n = ''integer'' then (\<exists>i. v = JInt i \<and> safe_int i \<and> within_bounds (boundsOf pl t) i)
      else if n = ''decimal'' \<or> n = ''money'' then
        (\<exists>sc x. decimal_scale n args t sc \<and> v = JStr (formatMinor x sc) \<and> safe_int x)
      else if n = ''boolean'' then (\<exists>b. v = JBool b)
      else if n = ''date'' then (\<exists>s y m d. v = JStr s \<and> match_ymd s = Some (y, m, d) \<and>
        valid_date (int (read_nat y)) (int (read_nat m)) (int (read_nat d)))
      else if n = ''datetime'' then (\<exists>i. v = JStr (to_iso i))
      else if n = ''json'' then True
      else is_jstr v)"

fun conforms :: "nat \<Rightarrow> platform \<Rightarrow> app_model \<Rightarrow> type_spec \<Rightarrow> jsval \<Rightarrow> bool" where
  "conforms 0 pl m t v = False"
| "conforms (Suc n) pl m t v =
     ((v = JNull \<and> ts_optional t) \<or>
      (case ts_base t of
         TCollection k el \<Rightarrow> \<not> too_large v \<and>
           (\<exists>mx cnt. coll_max (ts_constraints t) = Some mx \<and> mx \<le> 1024 \<and> coll_count k v = Some cnt \<and>
              coll_min (ts_constraints t) \<le> cnt \<and> cnt \<le> mx) \<and>
           (case v of
              JObj kvs \<Rightarrow> sorted (map fst kvs) \<and>
                (\<forall>p\<in>set kvs. length (utf8 (fst p)) \<le> 256 \<and> conforms n pl m el (snd p))
            | JArr ws \<Rightarrow> (\<forall>w\<in>set ws. conforms n pl m el w) \<and> (k = ColSet \<longrightarrow> distinct (map stable_json ws))
            | _ \<Rightarrow> False)
       | TShape i \<Rightarrow>
           (case (model_shape m i, v) of
              (Some sh, JObj kvs) \<Rightarrow>
                list_all2 (\<lambda>f (k, w). k = f_name f \<and> conforms n pl m (f_type f) w)
                  (sort_key f_name (sh_fields sh)) kvs
            | _ \<Rightarrow> False)
       | TScalar nm args \<Rightarrow> scalar_conforms pl nm args t v
       | TEnum i \<Rightarrow> (\<exists>s\<in>set (enumValues m i). v = JStr s)
       | TStatus rid \<Rightarrow> (\<exists>r lc. model_resource m rid = Inr r \<and> r_lifecycle r = Some lc \<and>
            (\<exists>s\<in>set (lc_states lc). v = JStr s))
       | TReference rid \<Rightarrow> (\<exists>s. v = JStr s \<and> (s = SELF_REFERENCE \<or> is_id s))
       | TIdentity rid \<Rightarrow> (\<exists>s. v = JStr s \<and> is_id s)
       | _ \<Rightarrow> True))"

section \<open>Scalars conform\<close>

lemma upcase_char_control: "\<not> is_control c \<Longrightarrow> d \<in> set (upcase_char c) \<Longrightarrow> \<not> is_control d"
  using cp_less_256 [of c] by (auto simp: upcase_char_def is_lower_def is_control_def split: if_splits)

lemma downcase_char_control: "\<not> is_control c \<Longrightarrow> \<not> is_control (downcase_char c)"
  using cp_less_256 [of c] by (auto simp: downcase_char_def is_upper_def is_control_def)

lemma js_trim_subset: "set (js_trim s) \<subseteq> set s"
  unfolding js_trim_def by (metis (no_types, lifting) set_dropWhileD set_rev subsetI)

lemma normalizers_control:
  "apply_normalizers ns s = Inr s' \<Longrightarrow> list_all (\<lambda>c. \<not> is_control c) s \<Longrightarrow> list_all (\<lambda>c. \<not> is_control c) s'"
proof (induction ns s rule: apply_normalizers.induct)
  case (1 s)
  then show ?case by simp
next
  case (2 n ns s)
  have "list_all (\<lambda>c. \<not> is_control c) (js_trim s)"
    using 2(5) js_trim_subset [of s] by (auto simp: list_all_iff)
  moreover have "list_all (\<lambda>c. \<not> is_control c) (js_upper s)"
    using 2(5) upcase_char_control by (fastforce simp: list_all_iff js_upper_def)
  moreover have "list_all (\<lambda>c. \<not> is_control c) (js_lower s)"
    using 2(5) downcase_char_control by (auto simp: list_all_iff js_lower_def)
  ultimately show ?case
    using 2 by (auto simp: codec_fail_def split: if_splits)
qed

lemma decodeText_InrD:
  "decodeText input ns = Inr s \<Longrightarrow> list_all (\<lambda>c. \<not> is_control c) s"
  by (auto simp: decodeText_def codec_fail_def list_all_iff list_ex_iff split: jsval.splits if_splits
      dest: normalizers_control)

lemma checkLength_InrD:
  "checkLength s mn mx = Inr s' \<Longrightarrow>
     s' = s \<and> (\<forall>k. mn = Some k \<longrightarrow> k \<le> length s) \<and> (\<forall>k. mx = Some k \<longrightarrow> length s \<le> k)"
  by (auto simp: checkLength_def codec_fail_def codePointLength_def split: if_splits option.splits)

lemma decode_text_scalar_conforms:
  "decode_text_scalar pl n t input = Inr v \<Longrightarrow> \<exists>s. v = JStr s \<and> text_conforms pl n t s"
  unfolding decode_text_scalar_def text_conforms_def
  by (auto simp: bind_res_Inr_iff codec_fail_def split: if_splits option.splits prod.splits
      dest!: decodeText_InrD checkLength_InrD)

lemma js_le_num [simp]: "js_le fl (JInt a) (JInt b) \<longleftrightarrow> a \<le> b"
  by simp

lemma js_less_num [simp]: "js_less fl (JInt a) (JInt b) \<longleftrightarrow> a < b"
  by simp

lemma decodeInteger_InrD:
  "decodeInteger fl input mn mx None = Inr n \<Longrightarrow>
     safe_int n \<and> (mn = JUndef \<or> \<not> js_less fl (JInt n) mn) \<and> (mx = JUndef \<or> \<not> js_less fl mx (JInt n))"
  by (simp add: decodeInteger_def check_raw_json_def codec_fail_def split: jsval.splits if_splits)

lemma decode_integer_scalar_conforms:
  assumes "decode_integer_scalar pl t input = Inr v"
  shows "\<exists>i. v = JInt i \<and> safe_int i \<and> within_bounds (boundsOf pl t) i"
proof -
  define b where "b = boundsOf pl t"
  obtain n where n: "decodeInteger (pl_ieee pl) input (bd_min b) (bd_max b) None = Inr n"
    and x: "bd_xmin b = JUndef \<or> \<not> js_le (pl_ieee pl) (JInt n) (js_number (pl_ieee pl) (bd_xmin b))"
      "bd_xmax b = JUndef \<or> \<not> js_le (pl_ieee pl) (js_number (pl_ieee pl) (bd_xmax b)) (JInt n)" and v: "v = JInt n"
    using assms unfolding decode_integer_scalar_def Let_def b_def [symmetric]
    by (auto simp only: bind_res_Inr_iff codec_fail_def if_splits split: if_splits)
  have "within_bounds b n"
    using decodeInteger_InrD [OF n] x by (auto simp: within_bounds_def)
  with decodeInteger_InrD [OF n] v show ?thesis by (simp add: b_def)
qed

lemma decode_decimal_scalar_conforms:
  "decode_decimal_scalar pl n args t input = Inr v \<Longrightarrow>
     \<exists>sc x. decimal_scale n args t sc \<and> v = JStr (formatMinor x sc) \<and> safe_int x"
  unfolding decode_decimal_scalar_def decimal_scale_def Let_def
  by (auto simp: bind_res_Inr_iff split: if_splits list.splits dest!: decodeDecimal_InrD)

lemma decode_scalar_conforms:
  assumes "decode_scalar pl n args t input = Inr v"
  shows "scalar_conforms pl n args t v"
proof -
  consider "n \<in> set TEXT_SCALARS" | "n \<notin> set TEXT_SCALARS" "n = ''integer''"
    | "n \<notin> set TEXT_SCALARS" "n = ''decimal'' \<or> n = ''money''"
    | "n \<notin> set TEXT_SCALARS" "n \<noteq> ''integer''" "\<not> (n = ''decimal'' \<or> n = ''money'')"
    by blast
  then show ?thesis
  proof cases
    case 1
    with assms show ?thesis
      by (simp add: decode_scalar_def scalar_conforms_def decode_text_scalar_conforms)
  next
    case 2
    with assms show ?thesis
      by (simp add: decode_scalar_def scalar_conforms_def decode_integer_scalar_conforms)
  next
    case 3
    then have "n \<noteq> ''integer''" by auto
    with 3 assms have "decode_decimal_scalar pl n args t input = Inr v"
      by (simp add: decode_scalar_def)
    from decode_decimal_scalar_conforms [OF this] 3 \<open>n \<noteq> ''integer''\<close> show ?thesis
      by (simp add: scalar_conforms_def)
  next
    case 4
    with assms show ?thesis
      by (auto simp: decode_scalar_def scalar_conforms_def as_str_def bind_res_Inr_iff codec_fail_def
          decodeDate_def decodeDatetime_def validYmd_valid_date Let_def
          split: if_splits jsval.splits option.splits prod.splits)
  qed
qed

section \<open>Values conform\<close>

lemma adjacent_equal_distinct:
  assumes "sorted ks" "\<not> adjacent_equal ks"
  shows "distinct ks"
proof -
  have "ks ! i < ks ! Suc i" if "Suc i < length ks" for i
  proof -
    have "ks ! Suc i \<noteq> ks ! (Suc i - 1)"
      using assms(2) that by (auto simp: adjacent_equal_def list_ex_iff dest: bspec [where x = "Suc i"])
    moreover have "ks ! i \<le> ks ! Suc i" using assms(1) that by (simp add: sorted_nth_mono)
    ultimately show ?thesis by simp
  qed
  then have "sorted_wrt (<) ks" by (simp add: sorted_wrt_iff_nth_Suc_transp)
  then show ?thesis by (simp add: strict_sorted_iff)
qed

lemma map_res_keys:
  "map_res (\<lambda>(key, v). if P key then codec_fail c else bind_res (rec v) (\<lambda>w. Inr (key, w))) kvs = Inr ws \<Longrightarrow>
     map fst ws = map fst kvs \<and> (\<forall>p\<in>set ws. \<not> P (fst p) \<and> (\<exists>v. rec v = Inr (snd p)))"
proof (induction kvs arbitrary: ws)
  case Nil
  then show ?case by simp
next
  case (Cons kv kvs)
  obtain key v where kv: "kv = (key, v)" by (cases kv)
  from Cons.prems obtain w ws' where w: "\<not> P key" "rec v = Inr w" "ws = (key, w) # ws'"
    "map_res (\<lambda>(key, v). if P key then codec_fail c else bind_res (rec v) (\<lambda>w. Inr (key, w))) kvs = Inr ws'"
    by (auto simp: kv bind_res_Inr_iff codec_fail_def split: if_splits)
  with Cons.IH [OF w(4)] kv show ?case by auto
qed

lemma decode_items_conforms:
  assumes "decode_items k rec input = Inr v" "\<And>u w. rec u = Inr w \<Longrightarrow> P w"
  shows "coll_count k v = coll_count k input"
    and "case v of JObj kvs \<Rightarrow> sorted (map fst kvs) \<and> (\<forall>p\<in>set kvs. length (utf8 (fst p)) \<le> 256 \<and> P (snd p))
      | JArr ws \<Rightarrow> (\<forall>w\<in>set ws. P w) \<and> (k = ColSet \<longrightarrow> distinct (map stable_json ws)) | _ \<Rightarrow> False"
proof -
  have set: "distinct (map stable_json (map snd (sort_key fst (map (\<lambda>w. (stable_json w, w)) ws))))"
    if "\<not> adjacent_equal (map fst (sort_key fst (map (\<lambda>w. (stable_json w, w)) ws)))" for ws
  proof -
    let ?ps = "sort_key fst (map (\<lambda>w. (stable_json w, w)) ws)"
    have "map stable_json (map snd ?ps) = map fst ?ps" by (auto simp: image_iff)
    moreover have "distinct (map fst ?ps)" using that by (intro adjacent_equal_distinct) auto
    ultimately show ?thesis by (simp only:)
  qed
  have "coll_count k v = coll_count k input \<and>
      (case v of JObj kvs \<Rightarrow> sorted (map fst kvs) \<and> (\<forall>p\<in>set kvs. length (utf8 (fst p)) \<le> 256 \<and> P (snd p))
      | JArr ws \<Rightarrow> (\<forall>w\<in>set ws. P w) \<and> (k = ColSet \<longrightarrow> distinct (map stable_json ws)) | _ \<Rightarrow> False)"
  proof (cases k; cases input)
    fix kvs
    assume k: "k = ColMap" "input = JObj kvs"
    with assms obtain ws where ws: "v = JObj ws" "map_res (\<lambda>(key, v).
        if length (utf8 key) > 256 then codec_fail ''MapKeyTooLong''
        else bind_res (rec v) (\<lambda>w. Inr (key, w))) (sort_key fst kvs) = Inr ws"
      by (auto simp: decode_items_def bind_res_Inr_iff)
    note keys = map_res_keys [OF ws(2)]
    have "length ws = length kvs" using map_res_length [OF ws(2)] by simp
    moreover have "sorted (map fst ws)" using keys by simp
    ultimately show ?thesis using k ws(1) keys assms(2)
      by (fastforce simp: coll_count_def not_less)
  next
    fix vs
    assume k: "k = ColSet" "input = JArr vs"
    with assms(1) obtain ws where ws: "map_res rec vs = Inr ws"
      and ne: "\<not> adjacent_equal (map fst (sort_key fst (map (\<lambda>w. (stable_json w, w)) ws)))"
      and v: "v = JArr (map snd (sort_key fst (map (\<lambda>w. (stable_json w, w)) ws)))"
      by (auto simp: decode_items_def bind_res_Inr_iff codec_fail_def Let_def split: if_splits)
    have "\<forall>w\<in>set ws. P w" using map_res_memD [OF ws] assms(2) by blast
    then show ?thesis using k set [OF ne] map_res_length [OF ws] by (auto simp: v coll_count_def)
  next
    fix vs
    assume k: "k = ColList" "input = JArr vs"
    with assms(1) obtain ws where ws: "map_res rec vs = Inr ws" and v: "v = JArr ws"
      by (auto simp: decode_items_def bind_res_Inr_iff)
    have "\<forall>w\<in>set ws. P w" using map_res_memD [OF ws] assms(2) by blast
    then show ?thesis using k map_res_length [OF ws] by (auto simp: v coll_count_def)
  qed (use assms in \<open>auto simp: decode_items_def codec_fail_def\<close>)
  then show "coll_count k v = coll_count k input"
    and "case v of JObj kvs \<Rightarrow> sorted (map fst kvs) \<and> (\<forall>p\<in>set kvs. length (utf8 (fst p)) \<le> 256 \<and> P (snd p))
      | JArr ws \<Rightarrow> (\<forall>w\<in>set ws. P w) \<and> (k = ColSet \<longrightarrow> distinct (map stable_json ws)) | _ \<Rightarrow> False"
    by auto
qed

lemma decode_collection_conforms:
  assumes "decode_collection t k rec input = Inr v" "\<And>u w. rec u = Inr w \<Longrightarrow> P w"
  shows "\<not> too_large v \<and>
    (\<exists>mx cnt. coll_max (ts_constraints t) = Some mx \<and> mx \<le> 1024 \<and> coll_count k v = Some cnt \<and>
       coll_min (ts_constraints t) \<le> cnt \<and> cnt \<le> mx) \<and>
    (case v of JObj kvs \<Rightarrow> sorted (map fst kvs) \<and> (\<forall>p\<in>set kvs. length (utf8 (fst p)) \<le> 256 \<and> P (snd p))
      | JArr ws \<Rightarrow> (\<forall>w\<in>set ws. P w) \<and> (k = ColSet \<longrightarrow> distinct (map stable_json ws)) | _ \<Rightarrow> False)"
proof -
  obtain mx cnt where "coll_max (ts_constraints t) = Some mx" "mx \<le> 1024" "coll_count k input = Some cnt"
    "coll_min (ts_constraints t) \<le> cnt" "cnt \<le> mx" "decode_items k rec input = Inr v" "\<not> too_large v"
    using assms(1)
    by (auto simp: decode_collection_def bind_res_Inr_iff codec_fail_def not_less not_le
        split: option.splits if_splits)
  with decode_items_conforms [of k rec input v P] assms(2) show ?thesis by auto
qed

lemma decode_shape_conforms:
  assumes "decode_shape pl m i rec input = Inr v"
  obtains sh kvs where "model_shape m i = Some sh" "v = JObj kvs"
    "list_all2 (\<lambda>f (k, w). k = f_name f \<and> (\<exists>u. rec (f_type f) u = Inr w)) (sort_key f_name (sh_fields sh)) kvs"
proof -
  obtain sh vals kvs where sh: "model_shape m i = Some sh" "v = JObj kvs" and
    kvs: "map_res (\<lambda>f. let v = (if mhas (f_name f) vals then oget vals (f_name f) else defaultOf pl m f)
        in if v = JUndef \<or> (v = JNull \<and> \<not> ts_optional (f_type f)) then codec_fail ''Required''
           else bind_res (rec (f_type f) v) (\<lambda>w. Inr (f_name f, w))) (sort_key f_name (sh_fields sh)) = Inr kvs"
    using assms
    by (auto simp: decode_shape_def bind_res_Inr_iff codec_fail_def split: option.splits jsval.splits if_splits)
  show thesis
  proof (rule that [OF sh])
    show "list_all2 (\<lambda>f (k, w). k = f_name f \<and> (\<exists>u. rec (f_type f) u = Inr w)) (sort_key f_name (sh_fields sh)) kvs"
      using kvs unfolding map_res_Inr_list_all2
      by (rule list_all2_mono) (auto simp: Let_def bind_res_Inr_iff codec_fail_def split: if_splits)
  qed
qed

lemma decodeEnum_Inr [res_simps]: "decodeEnum input vals = Inr s \<longleftrightarrow> input = JStr s \<and> s \<in> set vals"
  by (auto simp: decodeEnum_def codec_fail_def split: jsval.splits if_splits)

lemma decodeValue_at_conforms:
  "decodeValue_at n pl m t input = Inr v \<Longrightarrow> conforms n pl m t v"
proof (induction n arbitrary: t input v)
  case 0
  then show ?case by (simp add: codec_fail_def)
next
  case (Suc n)
  show ?case
  proof (cases "input = JNull \<and> ts_optional t")
    case True
    with Suc.prems show ?thesis by simp
  next
    case False
    show ?thesis
    proof (cases "ts_base t")
      case (TCollection k el)
      with False Suc.prems have "decode_collection t k (decodeValue_at n pl m el) input = Inr v"
        by (simp del: de_Morgan_conj)
      from decode_collection_conforms [where P = "conforms n pl m el", OF this Suc.IH] TCollection
      show ?thesis by simp
    next
      case (TScalar nm args)
      with False Suc.prems have "decode_scalar pl nm args t input = Inr v"
        by (simp del: de_Morgan_conj)
      from decode_scalar_conforms [OF this] TScalar show ?thesis by simp
    next
      case (TShape i)
      with False Suc.prems have "decode_shape pl m i (decodeValue_at n pl m) input = Inr v"
        by (simp del: de_Morgan_conj)
      then obtain sh kvs where sh: "model_shape m i = Some sh" "v = JObj kvs"
        and kvs: "list_all2 (\<lambda>f (k, w). k = f_name f \<and> (\<exists>u. decodeValue_at n pl m (f_type f) u = Inr w))
          (sort_key f_name (sh_fields sh)) kvs"
        by (rule decode_shape_conforms)
      have "list_all2 (\<lambda>f (k, w). k = f_name f \<and> conforms n pl m (f_type f) w)
          (sort_key f_name (sh_fields sh)) kvs"
        using kvs by (rule list_all2_mono) (auto dest: Suc.IH)
      with sh TShape show ?thesis by simp
    next
      case (TStatus rid)
      with False Suc.prems obtain r where r: "model_resource m rid = Inr r"
        and v: "as_str (decodeEnum input (case r_lifecycle r of None \<Rightarrow> [] | Some lc \<Rightarrow> lc_states lc)) = Inr v"
        by (auto simp: bind_res_Inr_iff)
      with TStatus show ?thesis by (cases "r_lifecycle r") (auto simp: as_str_def res_simps)
    qed (use False Suc.prems in \<open>auto simp: as_str_def res_simps codec_fail_def split: if_splits\<close>)
  qed
qed

section \<open>Objects\<close>

text \<open>What \<open>decode_field\<close> may put into the output for a field.\<close>

definition field_result :: "platform \<Rightarrow> app_model \<Rightarrow> obj \<Rightarrow> field \<Rightarrow> jsval \<Rightarrow> bool" where
  "field_result pl m kvs f v \<longleftrightarrow>
     (if mhas (f_name f) kvs then (v = JNull \<and> ts_optional (f_type f)) \<or> conforms 13 pl m (f_type f) v
      else v = defaultOf pl m f \<and> v \<noteq> JUndef)"

lemma decode_field_value:
  "decode_field pl m mode kvs f = Inr (FieldValue v) \<Longrightarrow> field_result pl m kvs f v"
  by (auto simp: decode_field_def field_result_def decodeValue_def Let_def
      split: if_splits sum.splits exn.splits intro: decodeValue_at_conforms)

lemma decode_field_skip:
  "decode_field pl m mode kvs f = Inr FieldSkip \<longleftrightarrow> mode = ModePatch \<and> \<not> mhas (f_name f) kvs"
  by (auto simp: decode_field_def Let_def split: if_splits sum.splits exn.splits)

lemma decode_fields_probs:
  "decode_fields one fs out probs = Inr (out', probs') \<Longrightarrow> \<exists>more. probs' = probs @ more"
proof (induction fs arbitrary: out probs)
  case Nil
  then show ?case by simp
next
  case (Cons f fs)
  then obtain r where r: "one f = Inr r" by (auto simp: bind_res_Inr_iff)
  with Cons.prems Cons.IH show ?case by (cases r) fastforce+
qed

text \<open>With no problem collected, every field was skipped or written with its result.\<close>

lemma decode_fields_out:
  assumes "decode_fields one fs out [] = Inr (out', [])" "distinct (map f_name fs)"
  shows "map_of out' k = (case List.find (\<lambda>f. f_name f = k) fs of
      None \<Rightarrow> map_of out k
    | Some f \<Rightarrow> (case one f of Inr (FieldValue v) \<Rightarrow> Some v | _ \<Rightarrow> map_of out k))"
    and "f \<in> set fs \<Longrightarrow> one f = Inr FieldSkip \<or> (\<exists>v. one f = Inr (FieldValue v))"
  using assms
proof (induction fs arbitrary: out)
  case Nil
  {
    case 1
    then show ?case by simp
  next
    case 2
    then show ?case by simp
  }
next
  case (Cons g fs)
  have IH: "\<And>out. decode_fields one fs out [] = Inr (out', []) \<Longrightarrow>
      map_of out' k = (case List.find (\<lambda>f. f_name f = k) fs of None \<Rightarrow> map_of out k
        | Some f \<Rightarrow> (case one f of Inr (FieldValue v) \<Rightarrow> Some v | _ \<Rightarrow> map_of out k)) \<and>
      (f \<in> set fs \<longrightarrow> one f = Inr FieldSkip \<or> (\<exists>v. one f = Inr (FieldValue v)))"
    if "distinct (map f_name (g # fs))"
    using Cons.IH that by auto
  have head: "one g = Inr FieldSkip \<and> decode_fields one fs out [] = Inr (out', []) \<or>
      (\<exists>v. one g = Inr (FieldValue v) \<and> decode_fields one fs (mput (f_name g) v out) [] = Inr (out', []))"
    if "decode_fields one (g # fs) out [] = Inr (out', [])" for out
  proof -
    from that obtain r where r: "one g = Inr r" by (auto simp: bind_res_Inr_iff)
    with that decode_fields_probs [of one fs _ "[(f_name g, _)]" out' "[]"] show ?thesis
      by (cases r) auto
  qed
  {
    case 1
    have gk: "List.find (\<lambda>f. f_name f = k) fs = None" if "f_name g = k"
    proof (cases "List.find (\<lambda>f. f_name f = k) fs")
      case (Some a)
      then have "k \<in> f_name ` set fs" using find_SomeD [OF Some] by blast
      with 1(2) that show ?thesis by simp
    qed
    from head [OF 1(1)] show ?case
      using IH [OF 1(2)] gk
      by (elim disjE conjE exE) (auto split: option.splits sum.splits field_outcome.splits)
  next
    case 2
    from head [OF 2(2)] show ?case using IH [OF 2(3)] 2(1) by auto
  }
qed

lemma find_distinct:
  "distinct (map f_name fs) \<Longrightarrow> f \<in> set fs \<Longrightarrow> List.find (\<lambda>g. f_name g = f_name f) fs = Some f"
  by (induction fs) (auto simp: image_iff)

lemma decodeObject_ok:
  assumes "decodeObject pl m (JObj kvs) mode fs = Inr (out, None)"
    and "distinct (map f_name (writable_fields mode fs))"
  shows "fst ` set kvs \<subseteq> f_name ` set (writable_fields mode fs)"
    and "fst ` set out = (if mode = ModePatch then fst ` set kvs else f_name ` set (writable_fields mode fs))"
    and "f \<in> set (writable_fields mode fs) \<Longrightarrow> map_of out (f_name f) = Some v \<Longrightarrow> field_result pl m kvs f v"
proof -
  let ?W = "writable_fields mode fs" and ?one = "decode_field pl m mode kvs"
  have d: "decode_fields ?one ?W [] [] = Inr (out, [])" and u: "filter (\<lambda>k. k \<notin> f_name ` set ?W) (map fst kvs) = []"
    using assms(1) by (auto simp: decodeObject_def Let_def bind_res_Inr_iff split: if_splits)
  show sub: "fst ` set kvs \<subseteq> f_name ` set ?W" using u by (auto simp: filter_empty_conv)
  note out = decode_fields_out [OF d assms(2)]
  have at: "map_of out (f_name f) = (case ?one f of Inr (FieldValue v) \<Rightarrow> Some v | _ \<Rightarrow> None)"
    if "f \<in> set ?W" for f
    using out(1) [of "f_name f"] find_distinct [OF assms(2) that] by (auto split: sum.splits field_outcome.splits)
  have dom: "map_of out k \<noteq> None \<longleftrightarrow> (\<exists>f\<in>set ?W. f_name f = k \<and> ?one f \<noteq> Inr FieldSkip)" for k
  proof
    assume "map_of out k \<noteq> None"
    then obtain f where "f \<in> set ?W" "f_name f = k"
      using out(1) [of k] by (auto split: option.splits dest!: find_SomeD)
    with \<open>map_of out k \<noteq> None\<close> at show "\<exists>f\<in>set ?W. f_name f = k \<and> ?one f \<noteq> Inr FieldSkip"
      by (force split: sum.splits field_outcome.splits)
  next
    assume "\<exists>f\<in>set ?W. f_name f = k \<and> ?one f \<noteq> Inr FieldSkip"
    then obtain f where f: "f \<in> set ?W" "f_name f = k" "?one f \<noteq> Inr FieldSkip" by blast
    with out(2) [OF f(1)] at [OF f(1)] show "map_of out k \<noteq> None" by auto
  qed
  have "fst ` set out = {k. map_of out k \<noteq> None}" by (auto simp: map_of_eq_None_iff)
  also have "\<dots> = (if mode = ModePatch then fst ` set kvs else f_name ` set ?W)"
  proof (cases "mode = ModePatch")
    case True
    have "map_of out k \<noteq> None \<longleftrightarrow> k \<in> fst ` set kvs" for k
      unfolding dom using sub True by (force simp: decode_field_skip mhas_def)
    with True show ?thesis by auto
  next
    case False
    have "map_of out k \<noteq> None \<longleftrightarrow> k \<in> f_name ` set ?W" for k
      unfolding dom using False by (auto simp: decode_field_skip)
    with False show ?thesis by auto
  qed
  finally show "fst ` set out = (if mode = ModePatch then fst ` set kvs else f_name ` set ?W)" .
  show "field_result pl m kvs f v" if "f \<in> set ?W" "map_of out (f_name f) = Some v"
    using at [OF that(1)] that(2) by (auto intro: decode_field_value split: sum.splits field_outcome.splits)
qed

section \<open>Output\<close>

text \<open>The record members an expression reads (names of one segment).\<close>

fun names_of :: "expr \<Rightarrow> string list" where
  "names_of (EName path) = (case path of [p] \<Rightarrow> [p] | _ \<Rightarrow> [])"
| "names_of (EBinary op a b) = names_of a @ names_of b"
| "names_of (EUnary op a) = names_of a"
| "names_of (ECall c as) = concat (map names_of as)"
| "names_of (ELiteral l) = []"

lemma evalExpr_agree:
  "(\<And>p. p \<in> set (names_of e) \<Longrightarrow> oget s1 p = oget s2 p) \<Longrightarrow>
     evalExpr pl m r e s1 hint refs = evalExpr pl m r e s2 hint refs"
proof (induction e arbitrary: hint)
  case (EName path)
  then show ?case by (auto simp: name_value_def split: list.splits)
next
  case (ECall c as)
  have "evalExpr pl m r a s1 hint refs = evalExpr pl m r a s2 hint refs" if "as = [a]" for a
    using ECall.IH [of a hint] ECall.prems that by simp
  then show ?case by (auto split: list.splits)
next
  case (EBinary op a b)
  have "evalExpr pl m r a s1 hint refs = evalExpr pl m r a s2 hint refs"
    "evalExpr pl m r b s1 hint refs = evalExpr pl m r b s2 hint refs"
    by (rule EBinary.IH; use EBinary.prems in simp)+
  then show ?case by (simp only: evalExpr.simps)
qed simp_all

text \<open>
  Two stored records that a caller who sees neither secret nor hidden fields cannot tell apart:
  equal on every visible stored field and on what the visible derived fields read, and with the
  same secrets present.
\<close>

definition public_equal :: "resource \<Rightarrow> obj \<Rightarrow> obj \<Rightarrow> bool" where
  "public_equal r s1 s2 \<longleftrightarrow> list_all (\<lambda>f.
     if f_secret f then nullish (oget s1 (f_name f)) = nullish (oget s2 (f_name f))
     else f_hidden f \<or> (case f_derived f of
         None \<Rightarrow> oget s1 (f_name f) = oget s2 (f_name f)
       | Some e \<Rightarrow> list_all (\<lambda>p. oget s1 p = oget s2 p) (names_of e))) (r_fields r)"

lemma output_order_subset: "set (output_order r) \<subseteq> set (r_fields r)"
  by (cases "fieldOf r ''id''") (auto simp: output_order_def opt_list_def fieldOf_def dest: find_SomeD)

lemma output_field_agree:
  "public_equal r s1 s2 \<Longrightarrow> f \<in> set (r_fields r) \<Longrightarrow> output_field pl m r s1 f = output_field pl m r s2 f"
  by (cases "f_derived f")
     (auto simp: public_equal_def list_all_iff output_field_def split: if_splits
        dest!: bspec [where x = f] cong: evalExpr_agree)

section \<open>The properties of decoding\<close>

text \<open>A platform and a model on which the hypotheses of the properties hold.\<close>

definition plain_platform :: platform where
  "plain_platform = \<lparr>pl_ieee = (\<lambda>op a b. JFloat ''NaN''), pl_regex = (\<lambda>p s. True),
     pl_timezone = (\<lambda>s. s = ''UTC''), pl_dateparse = (\<lambda>s. None)\<rparr>"

definition plain_decorators :: decorators where
  "plain_decorators = \<lparr>dc_appendOnly = False, dc_writeOnce = False, dc_tenant = False, dc_timestamps = False,
     dc_softDelete = False, dc_versioned = False, dc_audited = False, dc_hierarchical = False,
     dc_effectiveDated = None, dc_purposeScoped = False, dc_subject = None\<rparr>"

definition plain_field :: "string \<Rightarrow> type_spec \<Rightarrow> field" where
  "plain_field n t = \<lparr>f_name = n, f_type = t, f_secret = False, f_sequence = None, f_default = None,
     f_derived = None, f_immutable = False, f_serverOwned = False, f_synthesized = False, f_hidden = False\<rparr>"

definition text_type :: type_spec where
  "text_type = TypeSpec (TScalar ''text'' []) False [''trim''] [CLength (Some 1) (Some 5)]"

definition qty_type :: type_spec where
  "qty_type = TypeSpec (TScalar ''integer'' []) True [] [CCompare ''>='' (LInt ''0'')]"


definition empty_model :: app_model where
  "empty_model = \<lparr>m_ir = \<lparr>ir_version = DOMAIN_IR_VERSION, ir_edition = None, ir_requires = [], ir_modules = []\<rparr>,
     m_resources = [], m_views = [], m_projections = [], m_enums = [], m_byId = [], m_ops = []\<rparr>"

definition item_resource :: resource where
  "item_resource = \<lparr>r_id = ''items'', r_name = ''Item'', r_blob = False, r_decorators = plain_decorators,
     r_fields = [plain_field ''name'' text_type, plain_field ''qty'' qty_type,
       (plain_field ''pin'' text_type)\<lparr>f_secret := True\<rparr>],
     r_uniques = [], r_finds = [], r_lists = [], r_rules = [], r_lifecycle = None, r_operations = []\<rparr>"



text \<open>
  C27: an accepted request body names writable fields only; on create the decoded record has
  exactly the writable fields and on patch exactly the fields of the body; each value is null for
  an optional field, of the field's type, or (absent on create) the declared default. So no
  server-owned, derived or (on patch) immutable field is ever written from the wire.
\<close>

theorem decodeObject_writes_declared:
  assumes "decodeObject pl m (JObj kvs) mode fs = Inr (out, None)"
    and "distinct (map f_name (writable_fields mode fs))"
  shows "fst ` set kvs \<subseteq> f_name ` set (writable_fields mode fs) \<and>
    fst ` set out = (if mode = ModePatch then fst ` set kvs else f_name ` set (writable_fields mode fs)) \<and>
    (\<forall>f\<in>set (writable_fields mode fs). \<forall>v. map_of out (f_name f) = Some v \<longrightarrow> field_result pl m kvs f v)"
  using decodeObject_ok [OF assms] by blast

theorem decodeObject_writes_declared_witness:
  "decodeObject plain_platform empty_model (JObj [(''pin'', JStr ''x''), (''name'', JStr ''ab '')]) ModeCreate (r_fields item_resource)
     = Inr ([(''name'', JStr ''ab''), (''qty'', JNull), (''pin'', JStr ''x'')], None) \<and>
   {''pin'', ''name''} \<subseteq> f_name ` set (writable_fields ModeCreate (r_fields item_resource))"
proof -
  have d: "decodeObject plain_platform empty_model (JObj [(''pin'', JStr ''x''), (''name'', JStr ''ab '')]) ModeCreate
      (r_fields item_resource) = Inr ([(''name'', JStr ''ab''), (''qty'', JNull), (''pin'', JStr ''x'')], None)"
    by code_simp
  have "distinct (map f_name (writable_fields ModeCreate (r_fields item_resource)))" by code_simp
  with decodeObject_writes_declared [OF d] d show ?thesis by auto
qed

text \<open>
  C28: the canonical output discloses no secret or hidden field: records that agree on everything
  public have the same output, whatever their secret and hidden contents.
\<close>

theorem canonicalize_hides_secrets:
  assumes "public_equal r s1 s2"
  shows "canonicalize pl m r s1 = canonicalize pl m r s2"
proof -
  have "map_res (output_field pl m r s1) (output_order r) = map_res (output_field pl m r s2) (output_order r)"
    using output_field_agree [OF assms] output_order_subset [of r] by (intro map_res_cong) auto
  then show ?thesis by (simp add: canonicalize_def)
qed

theorem canonicalize_hides_secrets_witness:
  "canonicalize plain_platform empty_model item_resource [(''name'', JStr ''a''), (''qty'', JInt 1), (''pin'', JStr ''x'')]
   = canonicalize plain_platform empty_model item_resource [(''name'', JStr ''a''), (''qty'', JInt 1), (''pin'', JStr ''y'')]
   \<and> public_equal item_resource [(''name'', JStr ''a''), (''qty'', JInt 1), (''pin'', JStr ''x'')]
       [(''name'', JStr ''a''), (''qty'', JInt 1), (''pin'', JStr ''y'')]"
proof -
  have "public_equal item_resource [(''name'', JStr ''a''), (''qty'', JInt 1), (''pin'', JStr ''x'')]
       [(''name'', JStr ''a''), (''qty'', JInt 1), (''pin'', JStr ''y'')]"
    by code_simp
  with canonicalize_hides_secrets [OF this] show ?thesis by blast
qed

end
