(* ===== verification/Engine_Reads.thy ===== *)
theory Engine_Reads
  imports Engine_Correct Decode_Correct
begin

text \<open>
  What the reads of the engine disclose, and what an update changes.
\<close>

section \<open>Reads\<close>

definition read_allowed :: "env \<Rightarrow> string \<Rightarrow> resource \<Rightarrow> call_context \<Rightarrow> obj \<Rightarrow> bool" where
  "read_allowed E opId r ctx x \<longleftrightarrow> (\<exists>now g g' d.
     gk_decide (en_platform E) now g opId ''read'' (Some r) ctx (Some x) None = Inr (d, g') \<and> de_allow d)"

text \<open>A live row of the tenant's table, in canonical form, that the gatekeeper allowed to read.\<close>

definition disclosed :: "env \<Rightarrow> string \<Rightarrow> resource \<Rightarrow> call_context \<Rightarrow> memory \<Rightarrow> obj \<Rightarrow> bool" where
  "disclosed E opId r ctx m x \<longleftrightarrow> (\<exists>i rcd. (i, rcd) \<in> set (mem_table m (cx_tenant ctx) r) \<and> is_live rcd \<and>
     canonical E r rcd = Inr x \<and> read_allowed E opId r ctx x)"

lemma requireRead_allowed: "requireRead (en_platform E) now g opId r ctx x = Inr g' \<Longrightarrow> read_allowed E opId r ctx x"
  unfolding requireRead_def gate_Inr read_allowed_def by blast

lemma get_disclosed:
  assumes "get E r i ctx w = (Inr x, w')"
  shows "disclosed E (r_id r @ ''.get'') r ctx (world_now E w) x"
  using assms
  by (auto simp: get_def eff_simps disclosed_def mem_get_def split: option.splits
      dest!: map_of_SomeD requireRead_allowed)

lemma find_disclosed:
  assumes "find_one E r q body ctx w = (Inr x, w')"
  shows "disclosed E (r_id r @ ''.find.'' @ q) r ctx (world_now E w) x"
proof -
  obtain key rcd g now g' where "mem_findUnique (world_now E w) (cx_tenant ctx) r key = Some rcd" "is_live rcd"
    "canonical E r rcd = Inr x" "requireRead (en_platform E) now g (r_id r @ ''.find.'' @ q) r ctx x = Inr g'"
  proof -
    obtain f u vals where f: "find_decl_of r q = Inr (f, u)" "queryValues E r (fi_fields f) (oget body ''params'') = Inr vals"
      using assms unfolding find_one_def by (auto simp: eff_simps)
    show ?thesis
    proof (cases "claimKey r u vals")
      case None
      with assms f show ?thesis unfolding find_one_def by (auto simp: eff_simps)
    next
      case (Some key)
      show ?thesis
      proof (cases "mem_findUnique (world_now E w) (cx_tenant ctx) r key")
        case None
        with Some assms f show ?thesis unfolding find_one_def by (auto simp: eff_simps)
      next
        case (Some rcd)
        with \<open>claimKey r u vals = Some key\<close> assms f show ?thesis unfolding find_one_def
          by (auto simp: eff_simps intro: that)
      qed
    qed
  qed
  then show ?thesis
    by (auto simp: disclosed_def mem_findUnique_def mem_get_def split: option.splits dest!: map_of_SomeD requireRead_allowed)
qed

lemma keep_allowed_subset:
  assumes "keep_allowed E opId r ctx xs w = (Inr ys, w')"
  shows "length ys \<le> length xs \<and> (\<forall>y\<in>set ys. y \<in> set xs \<and> read_allowed E opId r ctx y)"
  using assms
proof (induction xs arbitrary: ys w)
  case Nil
  then show ?case by (simp add: eff_simps)
next
  case (Cons x xs)
  obtain d g w1 zs where d: "gk_decide (en_platform E) (en_dateNow E (wo_tick w)) (wo_gate w) opId ''read'' (Some r) ctx (Some x) None = Inr (d, g)"
    and zs: "keep_allowed E opId r ctx xs w1 = (Inr zs, w')" and ys: "ys = (if de_allow d then x # zs else zs)"
    using Cons.prems by (auto simp: eff_simps)
  have "read_allowed E opId r ctx x" if "de_allow d" using d that unfolding read_allowed_def by blast
  with Cons.IH [OF zs] ys show ?case by (auto simp: le_SucI)
qed

lemma no_authorizer_allowed:
  fixes g :: gatekeeper
  assumes "gk_authorizer g = None"
  shows "read_allowed E opId r ctx x"
proof -
  have "gk_decide (en_platform E) 0 g opId ''read'' (Some r) ctx (Some x) None = Inr (allow_all 0 0, g)"
    using assms by (simp add: gk_decide_def)
  moreover have "de_allow (allow_all 0 0)" by (simp add: allow_all_def)
  ultimately show ?thesis unfolding read_allowed_def by blast
qed

lemma mem_list_rows:
  assumes "mem_list m t r q sk = (rows, mo)"
  shows "length rows \<le> lq_limit q \<and> (\<forall>x\<in>set rows. is_live x \<and> (\<exists>i. (i, x) \<in> set (mem_table m t r)))"
proof -
  have r: "rows = map fst (take (lq_limit q) (drop (list_start q (list_keyed m t r q sk)) (list_keyed m t r q sk)))"
    using assms by (simp add: mem_list_def Let_def)
  have "x \<in> fst ` set (list_keyed m t r q sk)" if "x \<in> set rows" for x
    using that unfolding r set_map by (blast dest: in_set_takeD in_set_dropD)
  then have "x \<in> set (list_rows m t r q)" if "x \<in> set rows" for x
    using that unfolding list_keyed_def by fastforce
  then have "\<forall>x\<in>set rows. is_live x \<and> (\<exists>i. (i, x) \<in> set (mem_table m t r))"
    unfolding list_rows_def by (fastforce simp: image_iff)
  then show ?thesis using r by simp
qed

lemma page_limit_le: "page_limit E v \<le> 100"
  by (auto simp: page_limit_def PAGE_MAX_def PAGE_DEFAULT_def Let_def split: jsval.splits)

definition page_items :: "obj \<Rightarrow> obj list" where
  "page_items page = (case oget page ''items'' of JArr vs \<Rightarrow> map obj_of vs | _ \<Rightarrow> [])"

lemma exact_items_subset: "length (exact_items plan vals xs) \<le> length xs \<and> set (exact_items plan vals xs) \<subseteq> set xs"
  by (auto simp: exact_items_def split: list_plan.splits)

lemma readable_items_subset:
  fixes g :: gatekeeper
  assumes "readable_items E opId r ctx (gk_authorizer g \<noteq> None) xs w = (Inr ys, w')"
  shows "length ys \<le> length xs \<and> (\<forall>y\<in>set ys. y \<in> set xs \<and> read_allowed E opId r ctx y)"
proof (cases "gk_authorizer g = None")
  case True
  then show ?thesis using assms no_authorizer_allowed [of g] by (simp add: readable_items_def eff_simps)
next
  case False
  then show ?thesis using assms keep_allowed_subset [of E opId r ctx xs w ys w'] by (simp add: readable_items_def)
qed

lemma list_disclosed:
  assumes "list_many E r opId q body ctx w = (Inr page, w')"
  shows "length (page_items page) \<le> 100 \<and>
    (\<exists>w0. \<forall>x\<in>set (page_items page). disclosed E opId r ctx (world_now E w0) x)"
proof -
  obtain l vals after rows mo items0 plan and g :: gatekeeper and w1 items where
    rows: "Inr (rows, mo) = list_page (cx_tenant ctx) r \<lparr>lq_list = l, lq_values = vals, lq_after = after,
        lq_limit = page_limit E (oget body ''limit'')\<rparr> (world_now E w)"
    and items0: "map_res (canonical E r) rows = Inr items0"
    and items: "readable_items E opId r ctx (gk_authorizer g \<noteq> None) (exact_items plan vals items0) w1 = (Inr items, w')"
    and page: "take 1 page = [(''items'', JArr (map JObj items))]"
    using assms unfolding list_many_def Let_def
    by (auto simp: eff_simps simp del: not_None_eq intro!: that)
  have sub: "length items \<le> length items0 \<and> (\<forall>x\<in>set items. x \<in> set items0 \<and> read_allowed E opId r ctx x)"
    using readable_items_subset [OF items] exact_items_subset [of plan vals items0] by auto
  have m: "mem_list (world_now E w) (cx_tenant ctx) r \<lparr>lq_list = l, lq_values = vals, lq_after = after,
        lq_limit = page_limit E (oget body ''limit'')\<rparr> (keys_of r l) = (rows, mo)"
    using rows [symmetric] by (auto simp: list_page_def bind_res_Inr_iff)
  note mr = mem_list_rows [OF m]
  have "length items0 = length rows" by (rule map_res_length [OF items0])
  then have "length items \<le> 100"
    using sub mr page_limit_le [of E "oget body ''limit''"] by simp
  moreover have "disclosed E opId r ctx (world_now E w) x" if x: "x \<in> set items" for x
  proof -
    have "x \<in> set items0" using sub x by blast
    then obtain rcd where "rcd \<in> set rows" "canonical E r rcd = Inr x" using map_res_memD [OF items0] by blast
    with mr sub x show ?thesis unfolding disclosed_def by blast
  qed
  moreover have "page_items page = items" using page
    by (cases page) (auto simp: page_items_def oget_def obj_of_def o_def)
  ultimately show ?thesis by auto
qed

section \<open>What an update changes\<close>

lemma seal_other:
  "sealSecrets E r fs rcd changed ctx = Inr out \<Longrightarrow> \<not> mhas k changed \<Longrightarrow> map_of out k = map_of rcd k"
  by (induction E r fs rcd changed ctx rule: sealSecrets.induct) (auto split: if_splits option.splits)

lemma self_other:
  assumes "resolveSelfReferences r x i = Inr y" "map_of x k \<noteq> Some (JStr SELF_REFERENCE)"
  shows "map_of y k = map_of x k"
proof -
  have k: "k \<notin> set (self_fields r x P)" for P
    using assms(2) by (auto simp: self_fields_def oget_def split: option.splits)
  have "map_of (foldl (\<lambda>a n. mput n (JStr i) a) x ns) k = map_of x k" if "k \<notin> set ns" for ns
    using that by (induction ns rule: rev_induct) auto
  with k assms(1) show ?thesis by (auto simp: resolveSelfReferences_def Let_def split: if_splits)
qed

lemma spread_other: "\<not> mhas k patch \<Longrightarrow> map_of (spread b patch) k = map_of b k"
  unfolding spread_def by (induction patch rule: rev_induct) (auto simp: mhas_def split: prod.splits)

lemma stamp_other: "k \<noteq> ''version'' \<Longrightarrow> k \<noteq> ''updatedAt'' \<Longrightarrow> map_of (stamp E r before now a) k = map_of a k"
  by (simp add: stamp_def Let_def)

lemma stamp_version:
  "dc_versioned (r_decorators r) \<Longrightarrow> oget before ''version'' = JInt v \<Longrightarrow> safe_int (v + 1) \<Longrightarrow>
     map_of (stamp E r before now a) ''version'' = Some (JInt (v + 1))"
  by (simp add: stamp_def Let_def)

lemma decoded_patch_keys:
  assumes "decoded E v ModePatch fs = Inr patch" "distinct (map f_name (writable_fields ModePatch fs))"
  shows "fst ` set patch \<subseteq> f_name ` set (writable_fields ModePatch fs)"
proof -
  obtain kvs where v: "v = JObj kvs" using assms(1)
    by (cases v) (auto simp: decoded_def decodeObject_def bind_res_Inr_iff)
  have "decodeObject (en_platform E) (en_model E) (JObj kvs) ModePatch fs = Inr (patch, None)"
    using assms(1) by (auto simp: decoded_def v bind_res_Inr_iff split: option.splits)
  note d = decodeObject_ok [OF this assms(2)]
  from d(1,2) show ?thesis by simp
qed

lemma update_untouched:
  assumes "update E r body ctx w = (Inr p, w')" "distinct (map f_name (writable_fields ModePatch (r_fields r)))"
    and "k \<notin> f_name ` set (writable_fields ModePatch (r_fields r))"
  shows "\<exists>before. cp_before p = Some before \<and>
    (k \<noteq> ''version'' \<longrightarrow> k \<noteq> ''updatedAt'' \<longrightarrow> map_of before k \<noteq> Some (JStr SELF_REFERENCE) \<longrightarrow>
       map_of (cp_after p) k = map_of before k) \<and>
    (k = ''version'' \<longrightarrow> dc_versioned (r_decorators r) \<longrightarrow> (\<forall>v. cp_expectedVersion p = Some v \<longrightarrow> safe_int (v + 1) \<longrightarrow>
       oget before k = JInt v \<and> map_of (cp_after p) k = Some (JInt (v + 1))))"
proof -
  obtain before patch now a1 where p: "cp_before p = Some before"
    "decoded E (orElse (oget body ''patch'') (JObj [])) ModePatch (r_fields r) = Inr patch"
    "\<forall>v. cp_expectedVersion p = Some v \<longrightarrow> oget before ''version'' = JInt v"
    "resolveSelfReferences r (stamp E r before now (spread before patch)) (cp_id p) = Inr a1"
    "sealSecrets E r (r_fields r) a1 patch ctx = Inr (cp_after p)"
    using update_plan [OF assms(1)] by metis
  have k: "\<not> mhas k patch" using decoded_patch_keys [OF p(2) assms(2)] assms(3) by (auto simp: mhas_def)
  have s: "map_of (cp_after p) k = map_of a1 k" by (rule seal_other [OF p(5) k])
  have other: "map_of (cp_after p) k = map_of before k"
    if "k \<noteq> ''version''" "k \<noteq> ''updatedAt''" "map_of before k \<noteq> Some (JStr SELF_REFERENCE)"
    using self_other [OF p(4), of k] that by (simp add: s stamp_other spread_other [OF k])
  have version: "oget before k = JInt v \<and> map_of (cp_after p) k = Some (JInt (v + 1))"
    if "k = ''version''" "dc_versioned (r_decorators r)" "cp_expectedVersion p = Some v" "safe_int (v + 1)" for v
  proof -
    have v: "oget before ''version'' = JInt v" using p(3) that(3) by blast
    note st = stamp_version [OF that(2) v that(4), of E now "spread before patch"]
    then have "map_of a1 k = Some (JInt (v + 1))" using self_other [OF p(4), of k] by (simp add: that(1))
    then show ?thesis using v s that(1) by simp
  qed
  show ?thesis using p(1) other version by blast
qed

end
