(* ===== verification/Engine_Sample.thy ===== *)
theory Engine_Sample
  imports Engine_Atomic_Correct Engine_Sequences Engine_Reads
begin

text \<open>
  A small application on which the properties of the engine are applied: append-only notes with a
  sequence, versioned tickets with a lifecycle, one tenant, no concurrent callers.
\<close>

definition id_field :: field where
  "id_field = (plain_field ''id'' (TypeSpec (TIdentity ''id'') False [] []))\<lparr>f_synthesized := True, f_serverOwned := True\<rparr>"

definition version_field :: field where
  "version_field = (plain_field ''version'' (TypeSpec (TScalar ''integer'' []) False [] []))\<lparr>f_synthesized := True, f_serverOwned := True\<rparr>"

definition serial_decl :: sequence_decl where
  "serial_decl = \<lparr>sq_partition = None, sq_start = 1, sq_max = 3\<rparr>"

definition serial_field :: field where
  "serial_field = (plain_field ''serial'' (TypeSpec (TScalar ''integer'' []) False [] []))\<lparr>
     f_sequence := Some serial_decl, f_serverOwned := True\<rparr>"

definition op_decl :: "string \<Rightarrow> string \<Rightarrow> operation_decl" where
  "op_decl rid k = \<lparr>op_id = rid @ ''.'' @ k, op_kind = k, op_query = None, op_action = None\<rparr>"

definition note_resource :: resource where
  "note_resource = \<lparr>r_id = ''notes'', r_name = ''Note'', r_blob = False,
     r_decorators = plain_decorators\<lparr>dc_appendOnly := True, dc_tenant := True, dc_audited := True\<rparr>,
     r_fields = [id_field, plain_field ''title'' text_type, serial_field],
     r_uniques = [\<lparr>u_name = ''byTitle'', u_fields = [''title''], u_within = [], u_condition = None\<rparr>],
     r_finds = [\<lparr>fi_name = ''byTitle'', fi_fields = [''title''], fi_coveredBy = ''byTitle''\<rparr>],
     r_lists = [\<lparr>l_search = False, l_name = ''recent'', l_fields = [], l_order = []\<rparr>],
     r_rules = [], r_lifecycle = None, r_operations = [op_decl ''notes'' ''create'']\<rparr>"

definition ticket_lifecycle :: lifecycle_decl where
  "ticket_lifecycle = \<lparr>lc_field = ''status'', lc_states = [''Open'', ''Closed''], lc_initial = ''Open'', lc_terminals = [''Closed''],
     lc_transitions = [\<lparr>t_action = ''close'', t_from = [''Open''], t_to = ''Closed'', t_input = []\<rparr>]\<rparr>"

definition ticket_resource :: resource where
  "ticket_resource = \<lparr>r_id = ''tickets'', r_name = ''Ticket'', r_blob = False,
     r_decorators = plain_decorators\<lparr>dc_versioned := True, dc_tenant := True, dc_audited := True\<rparr>,
     r_fields = [id_field, version_field, plain_field ''title'' text_type],
     r_uniques = [], r_finds = [], r_lists = [\<lparr>l_search = False, l_name = ''recent'', l_fields = [], l_order = []\<rparr>],
     r_rules = [], r_lifecycle = Some ticket_lifecycle,
     r_operations = [op_decl ''tickets'' ''create'', op_decl ''tickets'' ''update'',
       \<lparr>op_id = ''tickets.close'', op_kind = ''transition'', op_query = None, op_action = Some ''close''\<rparr>]\<rparr>"

definition desk_ir :: domain_ir where
  "desk_ir = \<lparr>ir_version = DOMAIN_IR_VERSION, ir_edition = None, ir_requires = [''append-only/1'', ''sequences/1''],
     ir_modules = [\<lparr>mo_shapes = [], mo_enums = [], mo_resources = [note_resource, ticket_resource], mo_views = [], mo_projections = []\<rparr>]\<rparr>"

definition desk_model :: app_model where
  "desk_model = (case Model_new desk_ir of Inr m \<Rightarrow> m | Inl e \<Rightarrow> empty_model)"

definition desk_env :: env where
  "desk_env = \<lparr>en_platform = plain_platform, en_model = desk_model, en_scope = \<lparr>sc_plan = None, sc_strict = False\<rparr>,
     en_clock = (\<lambda>n. ''2026-01-01T00:00:00.000Z''), en_nextId = (\<lambda>n r. r_id r @ ''-'' @ show_base 10 n),
     en_opId = (\<lambda>n. ''op-'' @ show_base 10 n), en_dateNow = (\<lambda>n. int n), en_hmac = (\<lambda>k d. replicate 32 7), en_digest = (\<lambda>t. map of_char (take 4 t)),
     en_seal = None, en_suppressionKey = ''k'', en_cursorSecret = ''s'', en_others = (\<lambda>n m. m)\<rparr>"

definition desk_gate :: gatekeeper where
  "desk_gate = \<lparr>gk_authorizer = None, gk_pips = [], gk_cache = []\<rparr>"

definition desk_world :: world where
  "desk_world = \<lparr>wo_store = memory_new, wo_gate = desk_gate, wo_tick = 0\<rparr>"

definition desk_ctx :: call_context where
  "desk_ctx = \<lparr>cx_tenant = ''t1'', cx_actor = ''ann'', cx_requestId = ''r1'', cx_idempotencyKey = Some ''k1'',
     cx_purpose = None, cx_maintenance = False\<rparr>"

definition note_body :: "string \<Rightarrow> obj" where
  "note_body s = [(''title'', JStr s)]"

end
