(* ===== verification/Rollout_Properties.thy ===== *)
theory Rollout_Properties
  imports Rollout_Correct Engine_Sample
begin

text \<open>
  The properties of the deployment ledger: rollouts follow the machine whatever controllers ask, a step
  is done once, and a controller whose token was superseded writes nothing.
\<close>

section \<open>Requests\<close>

datatype ledger_request =
    LrOpen open_request
  | LrAcquire string string int int
  | LrRenew string string int int int
  | LrRun string string int "jsval \<Rightarrow> (jsval \<Rightarrow> unit eff) \<Rightarrow> jsval eff" "int eff"
  | LrGrant string int string "unit eff" int
  | LrRollback string int "string list" "string \<Rightarrow> bool" "string \<Rightarrow> unit eff" int
  | LrComplete string int int

text \<open>Whether a call was accepted.\<close>

definition accepted :: "('a \<Rightarrow> bool) \<Rightarrow> 'a eff \<Rightarrow> bool eff" where
  "accepted ok m = eff_bind (eff_exit m) (\<lambda>x. eff_ret (case x of Inl e \<Rightarrow> False | Inr y \<Rightarrow> ok y))"

fun ledger_call :: "env \<Rightarrow> string \<Rightarrow> ledger_request \<Rightarrow> bool eff" where
  "ledger_call E scope (LrOpen q) = accepted (\<lambda>_. True) (ledger_open E scope q)"
| "ledger_call E scope (LrAcquire r c ms now) = accepted (\<lambda>k. k \<noteq> None) (ledger_acquire E scope r c ms now)"
| "ledger_call E scope (LrRenew r c k ms now) = accepted (\<lambda>b. b) (ledger_renew E scope r c k ms now)"
| "ledger_call E scope (LrRun r s k action now) = accepted (\<lambda>_. True) (ledger_run E scope r s k action now)"
| "ledger_call E scope (LrGrant r k g activate now) = accepted (\<lambda>_. True) (activateGrantOnce E scope r k g activate now)"
| "ledger_call E scope (LrRollback r k gs revoked activate now) = accepted (\<lambda>_. True) (ledger_rollback E scope r k gs revoked activate now)"
| "ledger_call E scope (LrComplete r k now) = accepted (\<lambda>_. True) (ledger_complete E scope r k now)"

text \<open>
  What a call may rely on when the other callers move along \<open>N\<close>: nobody else uses its token, clocks are
  clocks, actions reach the ledger through \<open>save\<close>, activations keep rollouts on the machine.
\<close>

fun request_fits :: "string \<Rightarrow> ledger_act set \<Rightarrow> ledger_request \<Rightarrow> bool" where
  "request_fits scope N (LrRun r s k action now) \<longleftrightarrow> N \<subseteq> others_of k \<and> clock_only now \<and> action_ok scope k action"
| "request_fits scope N (LrGrant r k g activate now) \<longleftrightarrow> keeps (ledger_frame scope UNIV) activate"
| "request_fits scope N (LrRollback r k gs revoked activate now) \<longleftrightarrow> (\<forall>g. keeps (ledger_frame scope UNIV) (activate g))"
| "request_fits scope N q \<longleftrightarrow> True"

fun ledger_calls :: "env \<Rightarrow> string \<Rightarrow> ledger_request list \<Rightarrow> unit eff" where
  "ledger_calls E scope [] = eff_ret ()"
| "ledger_calls E scope (q # qs) = eff_bind (ledger_call E scope q) (\<lambda>_. ledger_calls E scope qs)"

definition stored_rollout :: "string \<Rightarrow> memory \<Rightarrow> string \<Rightarrow> rollout option" where
  "stored_rollout scope m r = Option.bind (rollout_slot scope m r) ro_parsed"

lemma ledger_env_mono: "ledger_env E scope N \<Longrightarrow> N \<subseteq> M \<Longrightarrow> ledger_env E scope M"
  unfolding ledger_env_def using rollout_rel_mono by blast

lemma keeps_accepted: "keeps (ledger_frame scope K) m \<Longrightarrow> keeps (ledger_frame scope K) (accepted ok m)"
  unfolding accepted_def by (intro lgf.keeps_bind lgf.keeps_exit lgf.keeps_ret)

lemma keeps_ledger_call:
  assumes "ledger_env E scope N" "request_fits scope N q"
  shows "keeps (ledger_frame scope UNIV) (ledger_call E scope q)"
proof (cases q)
  case (LrOpen x)
  then show ?thesis by (simp add: keeps_accepted keeps_open [OF assms(1) subset_UNIV])
next
  case (LrAcquire r c ms now)
  then show ?thesis by (simp add: keeps_accepted keeps_acquire [OF assms(1) subset_UNIV])
next
  case (LrRenew r c k ms now)
  then show ?thesis by (simp add: keeps_accepted keeps_renew [OF assms(1) subset_UNIV])
next
  case (LrRun r s k action now)
  then have "ledger_env E scope (others_of k)" "clock_only now" "action_ok scope k action"
    using assms ledger_env_mono by auto
  then show ?thesis unfolding LrRun ledger_call.simps by (intro keeps_accepted keeps_run)
next
  case (LrGrant r k g activate now)
  then show ?thesis using assms(2) by (simp add: keeps_accepted keeps_grant [OF assms(1)])
next
  case (LrRollback r k gs revoked activate now)
  then show ?thesis using assms(2) by (simp add: keeps_accepted keeps_rollback [OF assms(1)])
next
  case (LrComplete r k now)
  then show ?thesis by (simp add: keeps_accepted keeps_complete [OF assms(1)])
qed

lemma keeps_ledger_calls:
  "ledger_env E scope N \<Longrightarrow> list_all (request_fits scope N) qs \<Longrightarrow> keeps (ledger_frame scope UNIV) (ledger_calls E scope qs)"
  by (induction qs) (auto intro!: lgf.keeps_ret lgf.keeps_bind keeps_ledger_call)

lemma moving_sound: "keeps (ledger_frame scope UNIV) m \<Longrightarrow> rollout_sound scope (wo_store w) \<Longrightarrow>
    rollout_rel scope UNIV (wo_store w) (wo_store (snd (m w))) \<and> rollout_sound scope (wo_store (snd (m w)))"
  unfolding keeps_def moving_def using lg.sound by blast

lemma stored_moves:
  assumes "rollout_rel scope K m m'" "stored_rollout scope m r = Some a"
  obtains b where "stored_rollout scope m' r = Some b" "moves K (bare a) (bare b)"
proof -
  obtain y where y: "rollout_slot scope m r = Some y" "ro_parsed y = Some a"
    using assms(2) by (auto simp: stored_rollout_def bind_eq_Some_conv)
  have "rollout_step K r (Some y) (rollout_slot scope m' r)" using assms(1) y(1) unfolding rollout_rel_def by metis
  then obtain y' b where "rollout_slot scope m' r = Some y'" "ro_parsed y' = Some b" "moves K (bare a) (bare b)"
    using y(2) unfolding rollout_step_some by (metis moves_refl option.sel)
  with that show thesis by (simp add: stored_rollout_def)
qed

lemma stored_reachable: "rollout_sound scope m \<Longrightarrow> stored_rollout scope m r = Some a \<Longrightarrow> reachable r (bare a)"
  unfolding rollout_sound_def stored_rollout_def by (auto simp: bind_eq_Some_conv)

lemma bare_grows: "rollout_grows (bare a) (bare b) \<longleftrightarrow> rollout_grows a b"
  by (simp add: rollout_grows_def step_final_def bare_def)


section \<open>A sample\<close>

text \<open>Two controllers on a rollout of two steps.\<close>

definition pilot_open :: open_request where
  "pilot_open = \<lparr>or_rollout = ''r1'', or_artifact = ''sha256:a'', or_previous = None, or_steps = [''copy'', ''switch''], or_blocked = False,
     or_approval = \<lparr>ap_artifact = ''sha256:a'', ap_signedBy = ''ann'', ap_signature = ''sig''\<rparr>\<rparr>"

definition pilot_world :: world where
  "pilot_world = snd (ledger_open desk_env ''_platform'' pilot_open desk_world)"

definition pilot_acquire :: "string \<Rightarrow> int \<Rightarrow> int option eff" where
  "pilot_acquire c now = ledger_acquire desk_env ''_platform'' ''r1'' c 1000 now"

definition pilot_action :: "jsval \<Rightarrow> (jsval \<Rightarrow> unit eff) \<Rightarrow> jsval eff" where
  "pilot_action checkpoint save = eff_bind (save (JInt 7)) (\<lambda>_. eff_ret (JStr ''copied''))"

definition pilot_clock :: "int eff" where
  "pilot_clock = eff_ret 5"

definition pilot_run :: "string \<Rightarrow> int \<Rightarrow> ledger_request" where
  "pilot_run s k = LrRun ''r1'' s k pilot_action pilot_clock"

lemma pilot_env: "ledger_env desk_env ''_platform'' {}"
  by (simp add: ledger_env_def plain_text_def desk_env_def)

lemma pilot_sound: "rollout_sound ''_platform'' (wo_store pilot_world)"
proof -
  have "rollout_sound ''_platform'' (wo_store desk_world)"
    by (simp add: rollout_sound_def rollout_slot_def stored_doc_def getDocument_def desk_world_def memory_new_def)
  moreover have "keeps (ledger_frame ''_platform'' UNIV) (ledger_open desk_env ''_platform'' pilot_open)"
    by (rule keeps_open [OF pilot_env]) simp
  ultimately show ?thesis using moving_sound unfolding pilot_world_def by blast
qed

lemma pilot_clock_ok: "clock_only pilot_clock"
  by (simp add: clock_only_def pilot_clock_def eff_ret_def)

lemma pilot_action_ok: "action_ok scope k pilot_action"
  unfolding action_ok_def pilot_action_def by (intro allI impI, rule triple_bind, blast, rule triple_ret)

lemma pilot_run_fits: "request_fits ''_platform'' {} (pilot_run s k)"
  by (simp add: pilot_run_def pilot_clock_ok pilot_action_ok)




section \<open>Loading and acquiring\<close>

lemma load_now:
  "wo_store (snd (ledger_load E scope r w)) = world_now E w \<and>
   (\<forall>d. fst (ledger_load E scope r w) = Inr d \<longrightarrow> stored_rollout scope (world_now E w) r = Some d)"
proof -
  have doc: "mem_getDocument (world_now E w) scope DEPLOY_KIND r
      = map_option (\<lambda>y. mput ''_version'' (JInt (int (fst y))) (snd y)) (rollout_slot scope (world_now E w) r)"
    by (simp add: mem_getDocument_def rollout_slot_def stored_doc_def case_prod_unfold)
  show ?thesis
    unfolding ledger_load_def run_read doc
    by (auto simp: eff_of_def eff_fail_def some_or_def stored_rollout_def ro_parsed_def split: option.splits)
qed

lemma stored_now:
  assumes "ledger_env E scope N" "rollout_sound scope (wo_store w)" "stored_rollout scope (wo_store w) r = Some a"
  obtains b where "stored_rollout scope (world_now E w) r = Some b" "moves N (bare a) (bare b)"
  using stored_moves [of scope N "wo_store w" "world_now E w" r a] assms by (auto simp: ledger_env_def world_now_def)

text \<open>What \<open>acquire\<close> does: the token is newer than the fence, and the new lease and fence have it.\<close>

lemma acquired:
  assumes "ledger_env E scope N" "rollout_sound scope (wo_store w)" "ledger_acquire E scope r c ms now w = (Inr (Some k), w1)"
  obtains a b where "stored_rollout scope (world_now E w) r = Some a" "ro_fence a < k"
    "stored_rollout scope (wo_store w1) r = Some b" "ro_fence b = k" "holds_token b k"
proof -
  obtain l w2 where l: "ledger_load E scope r w = (l, w2)" by fastforce
  with assms(3) obtain a where a: "l = Inr a" by (cases l) (auto simp: ledger_acquire_def eff_bind_def)
  have w2: "wo_store w2 = world_now E w" "stored_rollout scope (world_now E w) r = Some a"
    using load_now [of E scope r w] l a by auto
  have nh: "\<not> leased_elsewhere a c now" using assms(3) l a by (auto simp: ledger_acquire_def eff_bind_def eff_ret_def)
  let ?put = "ledger_put E scope (taken a c (now + ms))"
  obtain p w3 where p: "?put w2 = (p, w3)" by fastforce
  have k: "k = ro_fence a + 1" "p \<in> range Inr" "w1 = w3"
    using assms(3) l a nh p
    by (auto simp: ledger_acquire_def eff_bind_def eff_ret_def eff_exit_def split: sum.splits)
  then obtain d where d: "p = Inr d" by blast
  have sound: "rollout_sound scope (world_now E w)"
    using assms(1,2) lg.sound unfolding ledger_env_def world_now_def by blast
  have reach: "reachable r (bare a)" by (rule stored_reachable [OF sound w2(2)])
  then have id: "ro_id a = r" using reachable_ok by (fastforce simp: rollout_ok_def)
  have cur: "current scope a (wo_store w2)"
    using w2 id reach by (auto simp: current_def stored_rollout_def bind_eq_Some_conv)
  have "triple (reached_by (rollout_sound scope) (rollout_rel scope UNIV) (wo_store w2) (\<lambda>s. True \<and> seen scope a s)) ?put
      (\<lambda>x. reached_by (rollout_sound scope) (rollout_rel scope UNIV) (wo_store w2) (\<lambda>s. x = restamped (taken a c (now + ms)) \<and> current scope x s))
      (reached_by (rollout_sound scope) (rollout_rel scope UNIV) (wo_store w2) (\<lambda>_. True))"
    by (rule triple_put [OF assms(1) subset_UNIV ledger_move.take [OF nh] UNIV_I _ lasting_by_True]) (simp add: taken_def)
  moreover have "reached_by (rollout_sound scope) (rollout_rel scope UNIV) (wo_store w2) (\<lambda>s. True \<and> seen scope a s) (wo_store w2)"
    using sound current_seen [OF cur] by (simp add: reached_by_def w2(1))
  ultimately have "d = restamped (taken a c (now + ms)) \<and> current scope d (wo_store w3)"
    using p d unfolding triple_def reached_by_def by fastforce
  then have "stored_rollout scope (wo_store w1) r = Some d" "ro_fence d = k" "holds_token d k"
    using k id by (auto simp: current_def stored_rollout_def restamped_def taken_def holds_token_def)
  with that [OF w2(2) _ this] k(1) show thesis by simp
qed

lemma acquire_sound:
  assumes "ledger_env E scope N" "rollout_sound scope (wo_store w)" "ledger_acquire E scope r c ms now w = (x, w1)"
  shows "rollout_sound scope (wo_store w1)"
proof -
  have "keeps (ledger_frame scope UNIV) (ledger_acquire E scope r c ms now)" by (rule keeps_acquire [OF assms(1) subset_UNIV]) simp
  from moving_sound [OF this assms(2)] assms(3) show ?thesis by simp
qed

section \<open>Steps run once\<close>



definition ann_world :: world where
  "ann_world = snd (pilot_acquire ''ann'' 0 pilot_world)"

lemma ann_acquires: "pilot_acquire ''ann'' 0 pilot_world = (Inr (Some 1), ann_world)"
  unfolding ann_world_def by (rule prod_eqI) (code_simp, simp)





section \<open>Fencing\<close>

fun request_token :: "ledger_request \<Rightarrow> (string \<times> int) option" where
  "request_token (LrOpen q) = None"
| "request_token (LrAcquire r c ms now) = None"
| "request_token (LrRenew r c k ms now) = Some (r, k)"
| "request_token (LrRun r s k action now) = Some (r, k)"
| "request_token (LrGrant r k g activate now) = Some (r, k)"
| "request_token (LrRollback r k gs revoked activate now) = Some (r, k)"
| "request_token (LrComplete r k now) = Some (r, k)"

definition refused :: "env \<Rightarrow> world \<Rightarrow> bool eff \<Rightarrow> bool" where
  "refused E w m \<longleftrightarrow> fst (m w) = Inr False \<and> wo_store (snd (m w)) = world_now E w"

lemma refused_loaded:
  assumes "stored_rollout scope (world_now E w) r = Some d"
    "\<And>w'. (case fst (f d w') of Inl e \<Rightarrow> True | Inr y \<Rightarrow> \<not> ok y) \<and> wo_store (snd (f d w')) = wo_store w'"
  shows "refused E w (accepted ok (eff_bind (ledger_load E scope r) f))"
proof -
  obtain l w1 where l: "ledger_load E scope r w = (l, w1)" by fastforce
  have w1: "wo_store w1 = world_now E w" "\<And>d'. l = Inr d' \<Longrightarrow> d' = d" using load_now [of E scope r w] l assms(1) by auto
  show ?thesis
  proof (cases l)
    case (Inl e)
    with l w1 show ?thesis by (simp add: refused_def accepted_def eff_bind_def eff_exit_def eff_ret_def)
  next
    case (Inr d')
    then have d': "d' = d" using w1(2) by blast
    obtain x w2 where x: "f d w1 = (x, w2)" by fastforce
    then have "case x of Inl e \<Rightarrow> True | Inr y \<Rightarrow> \<not> ok y" "wo_store w2 = world_now E w" using assms(2) [of w1] w1(1) by auto
    with l Inr d' x show ?thesis
      by (auto simp: refused_def accepted_def eff_bind_def eff_exit_def eff_ret_def split: sum.splits)
  qed
qed

lemma lost_guard: "lost k d \<Longrightarrow> ledger_guard d k t = Inl stale_controller"
  by (auto simp: lost_def holds_token_def ledger_guard_def split: option.splits)

lemma stale_stops:
  assumes "lost k d"
  shows "eff_bind (eff_of (ledger_guard d k t)) f w = (Inl stale_controller, w)"
  by (simp add: lost_guard [OF assms] eff_bind_def eff_of_def)

lemma lost_calls_refused:
  assumes "stored_rollout scope (world_now E w) r = Some d" "lost k d" "request_token q = Some (r, k)" "request_fits scope N q"
  shows "refused E w (ledger_call E scope q)"
proof (cases q)
  case (LrRenew r' c k' ms now)
  moreover have "\<not> leased_to d c k" using assms(2) leased_holds by (auto simp: lost_def)
  ultimately show ?thesis
    using assms(3) by (auto simp: ledger_renew_def eff_ret_def intro!: refused_loaded [OF assms(1)])
next
  case (LrRun r' s k' action now)
  then have "wo_store (snd (now w')) = wo_store w'" for w' using assms(4) by (simp add: clock_only_def)
  then have "(case fst (eff_bind now (\<lambda>t. eff_bind (eff_of (ledger_guard d k t)) g) w') of Inl e \<Rightarrow> True | Inr y \<Rightarrow> \<not> True) \<and>
      wo_store (snd (eff_bind now (\<lambda>t. eff_bind (eff_of (ledger_guard d k t)) g) w')) = wo_store w'"
    for w' and g :: "unit \<Rightarrow> (jsval \<times> bool) eff"
    unfolding eff_bind_def [of now] stale_stops [OF assms(2)] by (auto split: prod.split sum.split) (metis snd_conv)+
  then show ?thesis
    using assms(3) LrRun unfolding LrRun ledger_call.simps ledger_run_def by (auto intro!: refused_loaded [OF assms(1)])
qed (use assms(3) in \<open>auto simp: activateGrantOnce_def ledger_rollback_def ledger_complete_def stale_stops [OF assms(2)]
      intro!: refused_loaded [OF assms(1)]\<close>)

text \<open>
  C10: fencing. A token handed out later is larger than every token handed out before for the rollout;
  and once a later one is handed out, whatever is asked and done after that, every call under the earlier
  token is refused and writes nothing.
\<close>

theorem superseded_controller_refused:
  assumes "ledger_env E scope N" "rollout_sound scope (wo_store w)"
    and "ledger_acquire E scope r c ms now w = (Inr (Some k), w1)"
    and "list_all (request_fits scope N) qs" "w2 = snd (ledger_calls E scope qs w1)"
    and "ledger_acquire E scope r c' ms' now' w2 = (Inr (Some j), w3)"
    and "list_all (request_fits scope N) qs'" "w4 = snd (ledger_calls E scope qs' w3)"
    and "request_token q = Some (r, k)" "request_fits scope N q"
  shows "k < j \<and> refused E w4 (ledger_call E scope q)"
proof -
  have s1: "rollout_sound scope (wo_store w1)" by (rule acquire_sound [OF assms(1-3)])
  obtain b where b: "stored_rollout scope (wo_store w1) r = Some b" "ro_fence b = k" using acquired [OF assms(1-3)] .
  have m2: "rollout_rel scope UNIV (wo_store w1) (wo_store w2)" "rollout_sound scope (wo_store w2)"
    using moving_sound [OF keeps_ledger_calls [OF assms(1,4)] s1] assms(5) by simp_all
  obtain c2 where c2: "stored_rollout scope (wo_store w2) r = Some c2" "moves UNIV (bare b) (bare c2)" using stored_moves [OF m2(1) b(1)] .
  obtain a d where d: "stored_rollout scope (world_now E w2) r = Some a" "ro_fence a < j"
    "stored_rollout scope (wo_store w3) r = Some d" "ro_fence d = j" "holds_token d j" using acquired [OF assms(1) m2(2) assms(6)] .
  obtain a' where a': "stored_rollout scope (world_now E w2) r = Some a'" "moves N (bare c2) (bare a')"
    using stored_now [OF assms(1) m2(2) c2(1)] .
  have "rollout_grows (bare b) (bare a)" using moves_grow [OF c2(2)] moves_grow [OF a'(2)] a'(1) d(1) rollout_grows_trans by simp
  then have kj: "k < j" using b(2) d(2) by (simp add: bare_grows rollout_grows_def)
  have "\<not> holds_token d k" using holds_one [OF d(5), of k] kj by blast
  with kj have lost: "lost k d" by (simp add: lost_def d(4))
  have s3: "rollout_sound scope (wo_store w3)" by (rule acquire_sound [OF assms(1) m2(2) assms(6)])
  have m4: "rollout_rel scope UNIV (wo_store w3) (wo_store w4)" "rollout_sound scope (wo_store w4)"
    using moving_sound [OF keeps_ledger_calls [OF assms(1,7)] s3] assms(8) by simp_all
  obtain e where e: "stored_rollout scope (wo_store w4) r = Some e" "moves UNIV (bare d) (bare e)" using stored_moves [OF m4(1) d(3)] .
  obtain f where f: "stored_rollout scope (world_now E w4) r = Some f" "moves N (bare e) (bare f)"
    using stored_now [OF assms(1) m4(2) e(1)] .
  have "lost k f" using moves_lost [OF f(2)] moves_lost [OF e(2)] lost by simp
  with kj lost_calls_refused [OF f(1) _ assms(9,10)] show ?thesis by simp
qed

theorem superseded_controller_refused_witness:
  "refused desk_env (snd (pilot_acquire ''bob'' 2000 ann_world)) (ledger_call desk_env ''_platform'' (pilot_run ''copy'' 1))"
proof -
  obtain w3 where w3: "ledger_acquire desk_env ''_platform'' ''r1'' ''bob'' 1000 2000 ann_world = (Inr (Some 2), w3)"
  proof
    show "ledger_acquire desk_env ''_platform'' ''r1'' ''bob'' 1000 2000 ann_world = (Inr (Some 2), snd (pilot_acquire ''bob'' 2000 ann_world))"
      unfolding pilot_acquire_def by (rule prod_eqI) (code_simp, simp)
  qed
  have nil: "w = snd (ledger_calls E scope [] w)" for E scope and w :: world by (simp add: eff_ret_def)
  have tok: "request_token (pilot_run ''copy'' 1) = Some (''r1'', 1)" by (simp add: pilot_run_def)
  have "refused desk_env w3 (ledger_call desk_env ''_platform'' (pilot_run ''copy'' 1))"
    using superseded_controller_refused [OF pilot_env pilot_sound ann_acquires [unfolded pilot_acquire_def] _ nil w3 _ nil tok pilot_run_fits]
    by simp
  then show ?thesis by (simp add: pilot_acquire_def w3)
qed

end
