(* ===== verification/Workflow_Graph.thy ===== *)
theory Workflow_Graph
  imports Model
begin

text \<open>
  Workflow graphs (\<open>packages/runtime/src/workflows.ts\<close>, \<open>compile\<close>): the nested steps of a declaration
  become a flat program of nodes with successor indices. The compiled program is related to the
  nested steps by \<open>follows\<close>: what is left to do at an index, as a list of steps.
\<close>

section \<open>Declarations\<close>

datatype wf_terminal = WtReturn expr | WtFail string

datatype call_target = FunctionTarget string | TransitionTarget string string

record wf_call =
  wc_id :: string
  wc_target :: call_target
  wc_args :: "(string \<times> expr) list"
  wc_catches :: "(string \<times> wf_terminal) list"

text \<open>
  The steps. A map has a binding, a source, the concurrency (any number), the largest number of items
  and the mapped call; a wait a channel, a message, the correlation (field and value) and a timeout
  (duration and terminal).
\<close>

datatype wf_step =
    WfMap string string expr jsval int wf_call
  | WfCall wf_call
  | WfSleep string string
  | WfWait string string string "(string \<times> expr) option" "(string \<times> wf_terminal) option"
  | WfChoice string expr "wf_step list" "wf_step list"
  | WfParallel string "wf_step list list"
  | WfReturn expr
  | WfFail string

record wf_decl =
  wf_id :: string
  wf_name :: string
  wf_version :: int
  wf_graphHash :: string
  wf_input :: "type_spec option"
  wf_steps :: "wf_step list"

section \<open>The compiler\<close>

record wf_node =
  nd_step :: wf_step
  nd_next :: int
  nd_then :: "int option"
  nd_otherwise :: "int option"

definition plain_node :: "wf_step \<Rightarrow> int \<Rightarrow> wf_node" where
  "plain_node s next = \<lparr>nd_step = s, nd_next = next, nd_then = None, nd_otherwise = None\<rparr>"

text \<open>
  \<open>emit\<close> appends the nodes of a list of steps, back to front, and returns its entry. The node of a choice
  is appended before its branches and completed after them.
\<close>

fun emit :: "wf_step list \<Rightarrow> int \<Rightarrow> wf_node list \<Rightarrow> int \<times> wf_node list"
and emit_step :: "wf_step \<Rightarrow> int \<Rightarrow> wf_node list \<Rightarrow> int \<times> wf_node list"
and emit_branches :: "wf_step list list \<Rightarrow> int \<Rightarrow> wf_node list \<Rightarrow> int \<times> wf_node list" where
  "emit [] next nodes = (next, nodes)"
| "emit (s # ss) next nodes = (let (entry, nodes1) = emit ss next nodes in emit_step s entry nodes1)"
| "emit_step (WfChoice i c t e) entry nodes =
     (let idx = length nodes;
          (a, nodes1) = emit t entry (nodes @ [plain_node (WfChoice i c t e) entry]);
          (b, nodes2) = emit e entry nodes1
      in (int idx, nodes2[idx := (nodes2 ! idx)\<lparr>nd_then := Some a, nd_otherwise := Some b\<rparr>]))"
| "emit_step (WfParallel i bs) entry nodes =
     (let (first, nodes1) = emit_branches bs entry nodes
      in (int (length nodes1), nodes1 @ [plain_node (WfParallel i bs) first]))"
| "emit_step s entry nodes = (int (length nodes), nodes @ [plain_node s entry])"
| "emit_branches [] next nodes = (next, nodes)"
| "emit_branches (b # bs) next nodes = (let (e, nodes1) = emit_branches bs next nodes in emit b e nodes1)"

text \<open>\<open>program[pc]\<close>, undefined outside the array.\<close>

definition node_at :: "wf_node list \<Rightarrow> int \<Rightarrow> wf_node option" where
  "node_at nodes i = (if 0 \<le> i \<and> i < int (length nodes) then Some (nodes ! nat i) else None)"

definition successors :: "wf_node \<Rightarrow> int list" where
  "successors n = (case nd_then n of None \<Rightarrow> [] | Some a \<Rightarrow> [a]) @ (case nd_otherwise n of None \<Rightarrow> [] | Some b \<Rightarrow> [b]) @ [nd_next n]"

text \<open>
  \<open>visit\<close>: depth first, each index once; the recursion is a stack of indices to visit. An index outside
  the nodes, which no emitted node has, is passed over.
\<close>

function visit_nodes :: "wf_node list \<Rightarrow> int list \<Rightarrow> int list \<Rightarrow> int list" where
  "visit_nodes nodes [] order = order"
| "visit_nodes nodes (i # is) order =
     (case node_at nodes i of
        None \<Rightarrow> visit_nodes nodes is order
      | Some n \<Rightarrow> if i \<in> set order then visit_nodes nodes is order else visit_nodes nodes (successors n @ is) (order @ [i]))"
  by pat_completeness auto

definition unseen :: "wf_node list \<Rightarrow> int list \<Rightarrow> nat" where
  "unseen nodes order = card ({0..<int (length nodes)} - set order)"

lemma unseen_less:
  assumes "node_at nodes i = Some n" "i \<notin> set order"
  shows "unseen nodes (order @ [i]) < unseen nodes order"
  unfolding unseen_def
proof (rule psubset_card_mono)
  have "i \<in> {0..<int (length nodes)} - set order" using assms by (simp add: node_at_def split: if_splits)
  then show "{0..<int (length nodes)} - set (order @ [i]) \<subset> {0..<int (length nodes)} - set order"
    unfolding set_append list.set by blast
qed simp

termination visit_nodes
  by (relation "measures [\<lambda>(nodes, is, order). unseen nodes order, \<lambda>(nodes, is, order). length is]")
     (simp_all add: unseen_less)

definition rank :: "int list \<Rightarrow> int \<Rightarrow> nat" where
  "rank order i = length (takeWhile (\<lambda>j. j \<noteq> i) order)"

definition renumber :: "int list \<Rightarrow> int \<Rightarrow> int" where
  "renumber order i = (if i < 0 then i else int (rank order i))"

definition renumber_node :: "wf_node list \<Rightarrow> int list \<Rightarrow> int \<Rightarrow> wf_node" where
  "renumber_node nodes order old =
     (let n = nodes ! nat old
      in \<lparr>nd_step = nd_step n, nd_next = renumber order (nd_next n),
          nd_then = map_option (renumber order) (nd_then n), nd_otherwise = map_option (renumber order) (nd_otherwise n)\<rparr>)"

definition compile :: "wf_step list \<Rightarrow> wf_node list" where
  "compile steps =
     (let (entry, nodes) = emit steps (-1) []; order = visit_nodes nodes [entry] []
      in map (renumber_node nodes order) order)"

section \<open>What is left to do at an index\<close>

lemma concat_size [termination_simp]: "size_list size (concat bs) \<le> size_list (size_list size) bs"
  by (induction bs) (auto simp: size_list_append)

text \<open>
  At index \<open>i\<close> of a program, given as the partial map \<open>p\<close>, the steps \<open>ss\<close> are left: the branches of a
  choice and of a parallel are spliced in front of what follows them.
\<close>

function left :: "(int \<Rightarrow> wf_node option) \<Rightarrow> int \<Rightarrow> wf_step list \<Rightarrow> bool" where
  "left p i [] \<longleftrightarrow> i < 0"
| "left p i (s # ss) \<longleftrightarrow>
     (case p i of None \<Rightarrow> False
      | Some n \<Rightarrow> nd_step n = s \<and>
          (case s of
             WfChoice x c t e \<Rightarrow> nd_then n \<noteq> None \<and> nd_otherwise n \<noteq> None \<and>
               left p (the (nd_then n)) (t @ ss) \<and> left p (the (nd_otherwise n)) (e @ ss)
           | WfParallel x bs \<Rightarrow> left p (nd_next n) (concat bs @ ss)
           | _ \<Rightarrow> left p (nd_next n) ss))"
  by pat_completeness auto

termination left
  by (relation "measure (\<lambda>(p, i, ss). size_list size ss)") (auto simp: size_list_append less_Suc_eq_le intro: add_mono concat_size order_trans [OF concat_size])

lemma left_mono:
  assumes "\<And>j n. p j = Some n \<Longrightarrow> q j = Some n"
  shows "left p i ss \<Longrightarrow> left q i ss"
  using assms
proof (induction p i ss rule: left.induct)
  case (2 p i s ss)
  then obtain n where n: "p i = Some n" "q i = Some n" by (auto split: option.splits)
  from 2 n show ?case by (cases s) auto
qed simp

section \<open>Emission\<close>

text \<open>The nodes emitted so far, less those of the choices that are not complete.\<close>

definition hide :: "int set \<Rightarrow> wf_node list \<Rightarrow> int \<Rightarrow> wf_node option" where
  "hide X nodes i = (if i \<in> X then None else node_at nodes i)"

lemma node_at_append: "node_at nodes i = Some n \<Longrightarrow> node_at (nodes @ ns) i = Some n"
  by (auto simp: node_at_def nth_append split: if_splits)

lemma hide_append: "hide X nodes i = Some n \<Longrightarrow> hide X (nodes @ ns) i = Some n"
  by (auto simp: hide_def node_at_append split: if_splits)

lemma hide_last [simp]:
  "X \<subseteq> {..<int (length nodes)} \<Longrightarrow> hide X (nodes @ n # ns) (int (length nodes)) = Some n"
  by (auto simp: hide_def node_at_def nth_append)

definition grows :: "wf_node list \<Rightarrow> int \<Rightarrow> wf_step list \<Rightarrow> int \<Rightarrow> wf_node list \<Rightarrow> bool" where
  "grows nodes next ss i nodes' \<longleftrightarrow> (\<exists>ns. nodes' = nodes @ ns) \<and>
     (\<forall>X rest. X \<subseteq> {..<int (length nodes)} \<longrightarrow> left (hide X nodes) next rest \<longrightarrow> left (hide X nodes') i (ss @ rest))"

lemma grows_refl: "grows nodes next [] next nodes"
  by (simp add: grows_def)

lemma grows_trans:
  assumes "grows nodes next ss j nodes1" "grows nodes1 j ts i nodes2"
  shows "grows nodes next (ts @ ss) i nodes2"
  unfolding grows_def
proof (intro conjI allI impI)
  show "\<exists>ns. nodes2 = nodes @ ns" using assms by (auto simp: grows_def)
next
  fix X rest
  assume X: "X \<subseteq> {..<int (length nodes)}" "left (hide X nodes) next rest"
  have "length nodes \<le> length nodes1" using assms(1) by (auto simp: grows_def)
  then have "X \<subseteq> {..<int (length nodes1)}" using X(1) by fastforce
  then show "left (hide X nodes2) i ((ts @ ss) @ rest)" using assms X by (simp add: grows_def)
qed

lemma grows_plain:
  assumes "\<And>x c t e. s \<noteq> WfChoice x c t e" "\<And>x bs. s \<noteq> WfParallel x bs"
  shows "grows nodes entry [s] (int (length nodes)) (nodes @ [plain_node s entry])"
proof -
  have "left (hide X (nodes @ [plain_node s entry])) (int (length nodes)) (s # rest)"
    if X: "X \<subseteq> {..<int (length nodes)}" "left (hide X nodes) entry rest" for X rest
  proof -
    have "left (hide X (nodes @ [plain_node s entry])) entry rest" using X(2) by (rule left_mono [rotated]) (rule hide_append)
    moreover have plain: "left (hide X ns) i (s # rest)"
      if "left (hide X ns) entry rest" "hide X ns i = Some (plain_node s entry)" for ns i
      using that assms by (cases s) (auto simp: plain_node_def)
    ultimately show ?thesis using X(1) by (intro plain) simp_all
  qed
  then show ?thesis by (simp add: grows_def)
qed

lemma grows_parallel:
  assumes "grows nodes entry (concat bs) first nodes1"
  shows "grows nodes entry [WfParallel i bs] (int (length nodes1)) (nodes1 @ [plain_node (WfParallel i bs) first])"
proof -
  have "left (hide X (nodes1 @ [plain_node (WfParallel i bs) first])) (int (length nodes1)) (WfParallel i bs # rest)"
    if X: "X \<subseteq> {..<int (length nodes)}" "left (hide X nodes) entry rest" for X rest
  proof -
    have "length nodes \<le> length nodes1" using assms by (auto simp: grows_def)
    then have X1: "X \<subseteq> {..<int (length nodes1)}" using X(1) by fastforce
    have "left (hide X nodes1) first (concat bs @ rest)" using assms X by (simp add: grows_def)
    then have "left (hide X (nodes1 @ [plain_node (WfParallel i bs) first])) first (concat bs @ rest)"
      by (rule left_mono [rotated]) (rule hide_append)
    with X1 show ?thesis by (simp add: plain_node_def)
  qed
  with assms show ?thesis by (auto simp: grows_def)
qed

lemma grows_choice:
  assumes t: "grows (nodes @ [plain_node s entry]) entry t a nodes1" and e: "grows nodes1 entry e b nodes2"
    and s: "s = WfChoice i c t e"
    and n: "nodes3 = nodes2[length nodes := (nodes2 ! length nodes)\<lparr>nd_then := Some a, nd_otherwise := Some b\<rparr>]"
  shows "grows nodes entry [s] (int (length nodes)) nodes3"
proof -
  let ?n = "(plain_node s entry)\<lparr>nd_then := Some a, nd_otherwise := Some b\<rparr>" and ?idx = "int (length nodes)"
  obtain m1 m2 where m: "nodes1 = nodes @ plain_node s entry # m1" "nodes2 = nodes1 @ m2"
    using t e by (auto simp: grows_def)
  have n3: "nodes3 = nodes @ ?n # m1 @ m2" by (simp add: n m nth_append list_update_append)
  have "left (hide X nodes3) ?idx (s # rest)"
    if X: "X \<subseteq> {..<int (length nodes)}" "left (hide X nodes) entry rest" for X rest
  proof -
    let ?Y = "insert ?idx X"
    have Y0: "?Y \<subseteq> {..<int (length (nodes @ [plain_node s entry]))}" using X(1) by fastforce
    have Y1: "?Y \<subseteq> {..<int (length nodes1)}" using Y0 by (auto simp: m)
    have later: "hide ?Y nodes' j = Some k \<Longrightarrow> nodes' @ ns = nodes @ z # m1 @ m2 \<Longrightarrow> hide X nodes3 j = Some k"
      for nodes' ns j k z
    proof -
      assume j: "hide ?Y nodes' j = Some k" and nodes': "nodes' @ ns = nodes @ z # m1 @ m2"
      have "hide ?Y (nodes @ z # m1 @ m2) j = Some k" using hide_append [OF j] nodes' by metis
      then show "hide X nodes3 j = Some k" by (auto simp: n3 hide_def node_at_def nth_append nth_Cons' split: if_splits)
    qed
    have keep: "left (hide ?Y nodes) entry rest"
      using X(2) by (rule left_mono [rotated]) (auto simp: hide_def node_at_def split: if_splits)
    have rest0: "left (hide ?Y (nodes @ [plain_node s entry])) entry rest"
      using keep by (rule left_mono [rotated]) (rule hide_append)
    have "left (hide ?Y nodes1) a (t @ rest)" using t Y0 rest0 by (simp add: grows_def)
    then have a: "left (hide X nodes3) a (t @ rest)" by (rule left_mono [rotated]) (rule later [of nodes1 _ _ m2], auto simp: m)
    have rest1: "left (hide ?Y nodes1) entry rest"
      using keep by (rule left_mono [rotated]) (simp add: m hide_append)
    have "left (hide ?Y nodes2) b (e @ rest)" using e Y1 rest1 by (simp add: grows_def)
    then have b: "left (hide X nodes3) b (e @ rest)" by (rule left_mono [rotated]) (rule later [of nodes2 _ _ "[]"], auto simp: m)
    have "hide X nodes3 ?idx = Some ?n" using X(1) by (simp add: n3)
    with a b show ?thesis by (simp add: s plain_node_def)
  qed
  then show ?thesis by (simp add: grows_def n3)
qed

lemma emit_grows:
  "emit ss next nodes = (i, nodes') \<Longrightarrow> grows nodes next ss i nodes'"
  "emit_step s next nodes = (i, nodes') \<Longrightarrow> grows nodes next [s] i nodes'"
  "emit_branches bs next nodes = (i, nodes') \<Longrightarrow> grows nodes next (concat bs) i nodes'"
proof (induction ss "next" nodes and s "next" nodes and bs "next" nodes arbitrary: i nodes' and i nodes' and i nodes'
    rule: emit_emit_step_emit_branches.induct)
  case (1 "next" nodes)
  then show ?case by (simp add: grows_refl)
next
  case (2 s ss "next" nodes)
  obtain j nodes1 where e: "emit ss next nodes = (j, nodes1)" by (cases "emit ss next nodes") auto
  with 2 have "grows nodes next ss j nodes1" "grows nodes1 j [s] i nodes'" by simp_all
  then show ?case using grows_trans by fastforce
next
  case (3 x c t e entry nodes)
  obtain a nodes1 where t: "emit t entry (nodes @ [plain_node (WfChoice x c t e) entry]) = (a, nodes1)" by fastforce
  obtain b nodes2 where e: "emit e entry nodes1 = (b, nodes2)" by fastforce
  have "grows (nodes @ [plain_node (WfChoice x c t e) entry]) entry t a nodes1" using 3(1) t by simp
  moreover have "grows nodes1 entry e b nodes2" using 3(2) t e by simp
  ultimately show ?case using 3(3) t e by (auto simp: Let_def intro!: grows_choice)
next
  case (4 x bs entry nodes)
  obtain first nodes1 where e: "emit_branches bs entry nodes = (first, nodes1)" by fastforce
  with 4 show ?case using grows_parallel by auto
next
  case (7 b bs "next" nodes)
  obtain e nodes1 where e: "emit_branches bs next nodes = (e, nodes1)" by fastforce
  with 7 have "grows nodes next (concat bs) e nodes1" "grows nodes1 e b i nodes'" by simp_all
  then show ?case using grows_trans by fastforce
qed (auto intro!: grows_plain grows_refl)

section \<open>Numbering\<close>

definition visited :: "wf_node list \<Rightarrow> int list \<Rightarrow> int list \<Rightarrow> bool" where
  "visited nodes is order \<longleftrightarrow> (\<forall>j\<in>set order. \<exists>n. node_at nodes j = Some n \<and>
     (\<forall>k\<in>set (successors n). node_at nodes k = None \<or> k \<in> set order \<or> k \<in> set is))"

lemma visit_appends: "\<exists>ns. visit_nodes nodes is order = order @ ns"
proof (induction nodes "is" order rule: visit_nodes.induct)
  case (2 nodes i "is" order)
  then show ?case by (cases "node_at nodes i") auto
qed simp

lemma visited_step:
  assumes "visited nodes (i # is) order" "node_at nodes i = Some n" "i \<notin> set order"
  shows "visited nodes (successors n @ is) (order @ [i])"
  unfolding visited_def
proof
  fix j
  assume "j \<in> set (order @ [i])"
  then consider "j = i" | "j \<in> set order" by auto
  then show "\<exists>n'. node_at nodes j = Some n' \<and> (\<forall>k\<in>set (successors n').
      node_at nodes k = None \<or> k \<in> set (order @ [i]) \<or> k \<in> set (successors n @ is))"
  proof cases
    case 1
    with assms(2) show ?thesis by simp
  next
    case 2
    with assms(1) show ?thesis unfolding visited_def by fastforce
  qed
qed

lemma visit_closed:
  "visited nodes is order \<Longrightarrow> visited nodes [] (visit_nodes nodes is order) \<and>
     (\<forall>k\<in>set is. node_at nodes k = None \<or> k \<in> set (visit_nodes nodes is order))"
proof (induction nodes "is" order rule: visit_nodes.induct)
  case (2 nodes i "is" order)
  show ?case
  proof (cases "node_at nodes i")
    case None
    then have "visited nodes is order" using 2(4) unfolding visited_def by fastforce
    with 2(1) None show ?thesis by simp
  next
    case (Some n)
    show ?thesis
    proof (cases "i \<in> set order")
      case True
      then have "visited nodes is order" using 2(4) unfolding visited_def by fastforce
      moreover obtain ns where "visit_nodes nodes is order = order @ ns" using visit_appends by blast
      ultimately show ?thesis using 2(2) Some True by simp
    next
      case False
      have "visited nodes (successors n @ is) (order @ [i])" using visited_step 2(4) Some False by blast
      moreover obtain ns where "visit_nodes nodes (successors n @ is) (order @ [i]) = (order @ [i]) @ ns" using visit_appends by blast
      ultimately show ?thesis using 2(3) Some False by simp
    qed
  qed
qed simp

lemma rank_nth: "i \<in> set order \<Longrightarrow> rank order i < length order \<and> order ! rank order i = i"
  by (induction order) (auto simp: rank_def)

lemma renumbered:
  assumes order: "visited nodes [] order" and p: "p = map (renumber_node nodes order) order"
  shows "left (node_at nodes) i ss \<Longrightarrow> i < 0 \<or> i \<in> set order \<Longrightarrow> left (node_at p) (renumber order i) ss"
proof (induction ss arbitrary: i rule: measure_induct_rule [where f = "size_list size"])
  case (less ss)
  show ?case
  proof (cases ss)
    case Nil
    with less.prems show ?thesis by (simp add: renumber_def)
  next
    case (Cons s ss')
    then obtain n where n: "node_at nodes i = Some n" using less.prems(1) by (auto split: option.splits)
    then have i: "i \<in> set order" "nodes ! nat i = n" using less.prems(2) by (auto simp: node_at_def split: if_splits)
    let ?n = "renumber_node nodes order i"
    have at: "node_at p (renumber order i) = Some ?n"
      using rank_nth [OF i(1)] n by (auto simp: renumber_def node_at_def p split: if_splits)
    have n': "nd_step ?n = nd_step n" "nd_next ?n = renumber order (nd_next n)"
      "nd_then ?n = map_option (renumber order) (nd_then n)" "nd_otherwise ?n = map_option (renumber order) (nd_otherwise n)"
      by (simp_all add: renumber_node_def Let_def i(2))
    have IH: "left (node_at p) (renumber order k) ts"
      if "left (node_at nodes) k ts" "k \<in> set (successors n)" "size_list size ts < size_list size ss" for k ts
    proof -
      have "node_at nodes k = None \<or> k \<in> set order" using order n i(1) that(2) unfolding visited_def by fastforce
      moreover have "node_at nodes k = None \<Longrightarrow> k < 0" using that(1) by (cases ts) auto
      ultimately show ?thesis using less.IH that by blast
    qed
    have succ: "nd_next n \<in> set (successors n)" "nd_then n = Some k \<Longrightarrow> k \<in> set (successors n)"
      "nd_otherwise n = Some k \<Longrightarrow> k \<in> set (successors n)" for k by (auto simp: successors_def)
    have l: "left (node_at nodes) i (s # ss')" using less.prems(1) Cons by simp
    show ?thesis
    proof (cases s)
      case (WfChoice x c t e)
      then obtain a b where ab: "nd_then n = Some a" "nd_otherwise n = Some b"
        "left (node_at nodes) a (t @ ss')" "left (node_at nodes) b (e @ ss')" using l n by auto
      have "left (node_at p) (renumber order a) (t @ ss')" "left (node_at p) (renumber order b) (e @ ss')"
        using IH [OF ab(3) succ(2) [OF ab(1)]] IH [OF ab(4) succ(3) [OF ab(2)]] by (simp_all add: Cons WfChoice size_list_append)
      with at n' ab l n WfChoice show ?thesis by (simp add: Cons)
    next
      case (WfParallel x bs)
      then have "left (node_at nodes) (nd_next n) (concat bs @ ss')" using l n by auto
      then have "left (node_at p) (renumber order (nd_next n)) (concat bs @ ss')"
        using IH [OF _ succ(1)] concat_size [of bs] by (simp add: Cons WfParallel size_list_append)
      with at n' l n WfParallel show ?thesis by (simp add: Cons)
    qed (use at n' l n IH [OF _ succ(1), of ss'] in \<open>simp_all add: Cons\<close>)
  qed
qed

section \<open>The compiled program\<close>

text \<open>\<open>follows\<close>: what is left at an index of a compiled program; nothing is left outside of it.\<close>

definition follows :: "wf_node list \<Rightarrow> int \<Rightarrow> wf_step list \<Rightarrow> bool" where
  "follows p i ss \<longleftrightarrow> left (node_at p) i ss \<or> ss = [] \<and> node_at p i = None"

lemma node_at_negative [simp]: "i < 0 \<Longrightarrow> node_at p i = None"
  by (simp add: node_at_def)

lemma compile_follows: "follows (compile steps) 0 steps"
proof -
  obtain entry nodes where e: "emit steps (-1) [] = (entry, nodes)" by fastforce
  let ?order = "visit_nodes nodes [entry] []"
  have p: "compile steps = map (renumber_node nodes ?order) ?order" unfolding compile_def e Let_def prod.case by (rule refl)
  have h: "hide {} nodes = node_at nodes" for nodes by (simp add: hide_def fun_eq_iff)
  have "left (hide {} nodes) entry (steps @ [])" using emit_grows(1) [OF e] unfolding grows_def by (simp del: append_Nil2)
  then have l: "left (node_at nodes) entry steps" by (simp add: h)
  show ?thesis
  proof (cases steps)
    case Nil
    with e have "compile steps = []" by (simp add: compile_def)
    with Nil show ?thesis by (simp add: follows_def node_at_def)
  next
    case (Cons s ss)
    then obtain n where n: "node_at nodes entry = Some n" using l by (auto split: option.splits)
    have "visited nodes [entry] []" by (simp add: visited_def)
    then have c: "visited nodes [] ?order" "entry \<in> set ?order" using visit_closed [of nodes "[entry]" "[]"] n by auto
    obtain ns where "?order = [entry] @ ns" using visit_appends [of nodes "successors n" "[entry]"] n by auto
    then have "renumber ?order entry = 0"
      using n by (auto simp: renumber_def rank_def node_at_def split: if_splits)
    moreover have "left (node_at (compile steps)) (renumber ?order entry) steps"
      using renumbered [OF c(1) p l] c(2) by simp
    ultimately show ?thesis by (simp add: follows_def)
  qed
qed

end
