(* ===== verification/Workflow.thy ===== *)
theory Workflow
  imports Workflow_Graph Work_Queue Engine_Call
begin

text \<open>
  Workflows (\<open>packages/runtime/src/workflows.ts\<close>): the executor of the compiled graphs. An instance is
  one document, advanced by compare-and-swap; activities are operations of the engine, called with an
  idempotency key; messages wait in an inbox until an instance consumes them. The executor modelled is
  the reference one, without a provider's driver (\<open>driver\<close> is null).
\<close>

section \<open>Values\<close>

subsection \<open>Comparison\<close>

text \<open>Numbers, and texts that match \<open>^-?\d+(\.\d+)?$\<close>, with the text they are compared by.\<close>

definition numeric_text :: "jsval \<Rightarrow> string option" where
  "numeric_text v = (case v of
     JInt i \<Rightarrow> Some (show_int i)
   | JFloat t \<Rightarrow> Some t
   | JStr s \<Rightarrow> if match_decimal s \<noteq> None then Some s else None
   | _ \<Rightarrow> None)"

text \<open>\<open>BigInt\<close> of a text: a SyntaxError unless it is a sign and digits.\<close>

definition js_bigint :: "string \<Rightarrow> int res" where
  "js_bigint s =
     (let neg = (case s of c # cs \<Rightarrow> c = CHR ''-'' | [] \<Rightarrow> False); ds = (if neg then tl s else s)
      in if ds \<noteq> [] \<and> list_all is_digit ds then Inr (if neg then - int (read_nat ds) else int (read_nat ds))
         else Inl (JsError ''SyntaxError''))"

definition whole_part :: "string \<Rightarrow> string" where
  "whole_part s = hd (split_on (CHR ''.'') s)"

definition fraction_part :: "string \<Rightarrow> string" where
  "fraction_part s = (case split_on (CHR ''.'') s of w # f # ws \<Rightarrow> f | _ \<Rightarrow> [])"

definition scaled :: "nat \<Rightarrow> string \<Rightarrow> int res" where
  "scaled scale s = js_bigint (whole_part s @ pad_end scale (CHR ''0'') (fraction_part s))"

definition compared_text :: "jsval \<Rightarrow> string" where
  "compared_text v = (if nullish v then [] else js_string v)"

definition wf_cmp :: "jsval \<Rightarrow> jsval \<Rightarrow> int res" where
  "wf_cmp a b =
     (case (numeric_text a, numeric_text b) of
        (Some x, Some y) \<Rightarrow>
          let scale = max (length (fraction_part x)) (length (fraction_part y))
          in bind_res (scaled scale x) (\<lambda>i. bind_res (scaled scale y) (\<lambda>j. Inr (sgn (i - j))))
      | _ \<Rightarrow>
          let x = compared_text a; y = compared_text b
          in Inr (if x < y then - 1 else if y < x then 1 else 0))"

subsection \<open>Expressions\<close>

text \<open>\<open>cur[seg]\<close> on an object or an array, and undefined on anything else.\<close>

definition js_index :: "string \<Rightarrow> jsval list \<Rightarrow> jsval" where
  "js_index seg vs =
     (if seg = ''length'' then JInt (int (length vs))
      else if seg \<noteq> [] \<and> list_all is_digit seg \<and> show_nat (read_nat seg) = seg \<and> read_nat seg < length vs
      then vs ! read_nat seg else JUndef)"

fun member_of :: "jsval \<Rightarrow> string \<Rightarrow> jsval" where
  "member_of (JObj d) seg = oget d seg"
| "member_of (JArr vs) seg = js_index seg vs"
| "member_of v seg = JUndef"

fun wf_literal :: "platform \<Rightarrow> literal \<Rightarrow> jsval" where
  "wf_literal pl (LEnumMember e m) = JObj [(''enum'', JStr e), (''member'', JStr m)]"
| "wf_literal pl l = literalValue pl l"

definition wf_compare :: "string \<Rightarrow> int \<Rightarrow> jsval" where
  "wf_compare op c =
     (if op = ''=='' then JBool (c = 0) else if op = ''!='' then JBool (c \<noteq> 0)
      else if op = ''<'' then JBool (c < 0) else if op = ''<='' then JBool (c \<le> 0)
      else if op = ''>'' then JBool (c > 0) else JBool (c \<ge> 0))"

definition wf_binary :: "string \<Rightarrow> jsval \<Rightarrow> jsval \<Rightarrow> jsval res" where
  "wf_binary op l r =
     (if op = ''&&'' then Inr (JBool (truthy l \<and> truthy r))
      else if op = ''||'' then Inr (JBool (truthy l \<or> truthy r))
      else if op \<in> {''=='', ''!='', ''<'', ''<='', ''>'', ''>=''} then bind_res (wf_cmp l r) (\<lambda>c. Inr (wf_compare op c))
      else Inr JNull)"

fun evalWf :: "platform \<Rightarrow> expr \<Rightarrow> obj \<Rightarrow> jsval res" where
  "evalWf pl (ELiteral l) vars = Inr (wf_literal pl l)"
| "evalWf pl (EName path) vars = Inr (or_null (foldl member_of (JObj vars) path))"
| "evalWf pl (EUnary op e) vars =
     bind_res (evalWf pl e vars) (\<lambda>v.
       Inr (if op = ''!'' then JBool (\<not> truthy v) else if is_num v then num_op (pl_ieee pl) ''-'' (JInt 0) v else v))"
| "evalWf pl (EBinary op a b) vars =
     bind_res (evalWf pl a vars) (\<lambda>l. bind_res (evalWf pl b vars) (\<lambda>r. wf_binary op l r))"
| "evalWf pl (ECall c as) vars = Inr JNull"

subsection \<open>Times\<close>

text \<open>\<open>durationMs\<close> of \<open>packages/runtime/src/readmodels.ts\<close>.\<close>

definition durationMs :: "string \<Rightarrow> int" where
  "durationMs d =
     (let ds = takeWhile is_digit d
      in if ds = [] then 0
         else (case map_of [(''ms'', 1), (''s'', 1000), (''m'', 60000), (''h'', 3600000), (''d'', 86400000)] (dropWhile is_digit d) of
             None \<Rightarrow> 0
           | Some k \<Rightarrow> int (read_nat ds) * k))"

text \<open>\<open>new Date(Date.parse(now) + ms).toISOString()\<close>.\<close>

definition iso_after :: "env \<Rightarrow> string \<Rightarrow> int \<Rightarrow> string res" where
  "iso_after E now ms =
     (case date_parse (pl_dateparse (en_platform E)) now of
        None \<Rightarrow> Inl (JsError ''RangeError'')
      | Some t \<Rightarrow> if \<bar>t + ms\<bar> \<le> 8640000000000000 then Inr (to_iso (t + ms)) else Inl (JsError ''RangeError''))"

section \<open>Instances\<close>

datatype wf_status = WsRunning | WsWaiting | WsSleeping | WsCompleted | WsFailed | WsCancelled

fun wf_status_text :: "wf_status \<Rightarrow> string" where
  "wf_status_text WsRunning = ''running''"
| "wf_status_text WsWaiting = ''waiting''"
| "wf_status_text WsSleeping = ''sleeping''"
| "wf_status_text WsCompleted = ''completed''"
| "wf_status_text WsFailed = ''failed''"
| "wf_status_text WsCancelled = ''cancelled''"

definition text_wf_status :: "string \<Rightarrow> wf_status option" where
  "text_wf_status s = map_of (map (\<lambda>t. (wf_status_text t, t))
     [WsRunning, WsWaiting, WsSleeping, WsCompleted, WsFailed, WsCancelled]) s"

definition wf_active :: "wf_status \<Rightarrow> bool" where
  "wf_active s \<longleftrightarrow> s \<in> {WsRunning, WsWaiting, WsSleeping}"

record wf_history =
  he_step :: string
  he_kind :: string
  he_at :: string

record wf_waiting =
  ww_step :: string
  ww_channel :: string
  ww_message :: string
  ww_key :: string
  ww_due :: "string option"

text \<open>
  An instance. Of an error its code is kept, the text of its detail is not; \<open>wi_stamp\<close> is \<open>_version\<close>, the
  version of the document.
\<close>

record wf_instance =
  wi_id :: string
  wi_workflow :: string
  wi_version :: int
  wi_graphHash :: string
  wi_status :: wf_status
  wi_input :: jsval
  wi_bindings :: obj
  wi_pc :: int
  wi_consumed :: "string list"
  wi_history :: "wf_history list"
  wi_waiting :: "wf_waiting option"
  wi_sleeping :: "(string \<times> string) option"
  wi_output :: jsval
  wi_error :: "string option"
  wi_driver :: "obj option"
  wi_createdAt :: string
  wi_updatedAt :: string
  wi_stamp :: "nat option"

subsection \<open>Its document\<close>

definition history_obj :: "wf_history \<Rightarrow> jsval" where
  "history_obj h = JObj [(''step'', JStr (he_step h)), (''kind'', JStr (he_kind h)), (''at'', JStr (he_at h))]"

definition waiting_obj :: "wf_waiting \<Rightarrow> jsval" where
  "waiting_obj w = JObj ([(''step'', JStr (ww_step w)), (''channel'', JStr (ww_channel w)), (''message'', JStr (ww_message w)),
     (''correlationKey'', JStr (ww_key w))] @ opt_member_json ''dueAt'' JStr (ww_due w))"

definition sleeping_obj :: "string \<times> string \<Rightarrow> jsval" where
  "sleeping_obj s = JObj [(''step'', JStr (fst s)), (''dueAt'', JStr (snd s))]"

definition error_obj :: "string \<Rightarrow> jsval" where
  "error_obj code = JObj [(''code'', JStr code)]"

definition instance_obj :: "wf_instance \<Rightarrow> obj" where
  "instance_obj i = [(''id'', JStr (wi_id i)), (''workflow'', JStr (wi_workflow i)), (''version'', JInt (wi_version i)),
     (''graphHash'', JStr (wi_graphHash i)), (''status'', JStr (wf_status_text (wi_status i))), (''input'', wi_input i),
     (''bindings'', JObj (wi_bindings i)), (''pc'', JInt (wi_pc i)), (''consumed'', JArr (map JStr (wi_consumed i))),
     (''history'', JArr (map history_obj (wi_history i))), (''output'', wi_output i), (''createdAt'', JStr (wi_createdAt i)),
     (''updatedAt'', JStr (wi_updatedAt i))]
     @ opt_member_json ''waiting'' waiting_obj (wi_waiting i) @ opt_member_json ''sleeping'' sleeping_obj (wi_sleeping i)
     @ opt_member_json ''error'' error_obj (wi_error i) @ opt_member_json ''driver'' JObj (wi_driver i)"

text \<open>Reading a document as an instance. The code only casts it; no operation writes one of another shape.\<close>

definition history_of :: "jsval \<Rightarrow> wf_history option" where
  "history_of v = Option.bind (as_obj v) (\<lambda>d. Option.bind (as_text (oget d ''step'')) (\<lambda>s.
     Option.bind (as_text (oget d ''kind'')) (\<lambda>k. Option.bind (as_text (oget d ''at'')) (\<lambda>t.
       Some \<lparr>he_step = s, he_kind = k, he_at = t\<rparr>))))"

definition waiting_of :: "jsval \<Rightarrow> wf_waiting option" where
  "waiting_of v = Option.bind (as_obj v) (\<lambda>d. Option.bind (as_text (oget d ''step'')) (\<lambda>s.
     Option.bind (as_text (oget d ''channel'')) (\<lambda>c. Option.bind (as_text (oget d ''message'')) (\<lambda>m.
     Option.bind (as_text (oget d ''correlationKey'')) (\<lambda>k. Option.bind (as_optional as_text (oget d ''dueAt'')) (\<lambda>t.
       Some \<lparr>ww_step = s, ww_channel = c, ww_message = m, ww_key = k, ww_due = t\<rparr>))))))"

definition sleeping_of :: "jsval \<Rightarrow> (string \<times> string) option" where
  "sleeping_of v = Option.bind (as_obj v) (\<lambda>d. Option.bind (as_text (oget d ''step'')) (\<lambda>s.
     Option.bind (as_text (oget d ''dueAt'')) (\<lambda>t. Some (s, t))))"

definition error_of :: "jsval \<Rightarrow> string option" where
  "error_of v = Option.bind (as_obj v) (\<lambda>d. as_text (oget d ''code''))"

definition instance_of :: "obj \<Rightarrow> wf_instance option" where
  "instance_of d = Option.bind (as_text (oget d ''id'')) (\<lambda>i. Option.bind (as_text (oget d ''workflow'')) (\<lambda>w.
     Option.bind (as_int (oget d ''version'')) (\<lambda>v. Option.bind (as_text (oget d ''graphHash'')) (\<lambda>g.
     Option.bind (Option.bind (as_text (oget d ''status'')) text_wf_status) (\<lambda>s.
     Option.bind (as_obj (oget d ''bindings'')) (\<lambda>b. Option.bind (as_int (oget d ''pc'')) (\<lambda>pc.
     Option.bind (as_list as_text (oget d ''consumed'')) (\<lambda>cs. Option.bind (as_list history_of (oget d ''history'')) (\<lambda>h.
     Option.bind (as_optional waiting_of (oget d ''waiting'')) (\<lambda>wt. Option.bind (as_optional sleeping_of (oget d ''sleeping'')) (\<lambda>sl.
     Option.bind (as_optional error_of (oget d ''error'')) (\<lambda>e. Option.bind (as_optional as_obj (oget d ''driver'')) (\<lambda>dr.
     Option.bind (as_text (oget d ''createdAt'')) (\<lambda>c. Option.bind (as_text (oget d ''updatedAt'')) (\<lambda>u.
     Option.bind (as_optional as_nat (oget d ''_version'')) (\<lambda>n.
       Some \<lparr>wi_id = i, wi_workflow = w, wi_version = v, wi_graphHash = g, wi_status = s, wi_input = oget d ''input'',
         wi_bindings = b, wi_pc = pc, wi_consumed = cs, wi_history = h, wi_waiting = wt, wi_sleeping = sl,
         wi_output = oget d ''output'', wi_error = e, wi_driver = dr, wi_createdAt = c, wi_updatedAt = u, wi_stamp = n\<rparr>))))))))))))))))"

section \<open>Documents\<close>

record wf_host =
  wh_workflows :: "wf_decl list"
  wh_linked :: linked
  wh_publication :: "publication option"
  wh_nextId :: "nat \<Rightarrow> string \<Rightarrow> string"
  wh_crashAfter :: "string option"

definition WORKFLOW_KIND :: string where
  "WORKFLOW_KIND = ''workflow''"

definition REGISTRY_TENANT :: string where
  "REGISTRY_TENANT = ''_forge''"

definition wf_docId :: "wf_decl \<Rightarrow> string \<Rightarrow> string" where
  "wf_docId decl i = wf_name decl @ '':'' @ i"

definition inboxId :: "wf_decl \<Rightarrow> string \<Rightarrow> string \<Rightarrow> string \<Rightarrow> string" where
  "inboxId decl step message key = wf_name decl @ '':inbox:'' @ step @ '':'' @ message @ '':'' @ key"

definition waitersId :: "wf_decl \<Rightarrow> string \<Rightarrow> string \<Rightarrow> string \<Rightarrow> string" where
  "waitersId decl step message key = wf_name decl @ '':waiters:'' @ step @ '':'' @ message @ '':'' @ key"

definition activeId :: "wf_decl \<Rightarrow> string" where
  "activeId decl = wf_name decl @ '':active''"

definition startId :: "wf_decl \<Rightarrow> string \<Rightarrow> string" where
  "startId decl key = wf_name decl @ '':start:'' @ key"

definition read_doc :: "env \<Rightarrow> string \<Rightarrow> string \<Rightarrow> obj option eff" where
  "read_doc E t i = storage_read E (\<lambda>m. mem_getDocument m t WORKFLOW_KIND i)"

definition write_doc :: "env \<Rightarrow> string \<Rightarrow> string \<Rightarrow> obj \<Rightarrow> nat option \<Rightarrow> unit eff" where
  "write_doc E t i doc expected = storage_write E (\<lambda>m. mem_putDocument m t WORKFLOW_KIND i doc expected)"

definition as_instance :: "obj option \<Rightarrow> wf_instance option res" where
  "as_instance d = (case d of None \<Rightarrow> Inr None
     | Some x \<Rightarrow> (case instance_of x of None \<Rightarrow> Inl type_error | Some i \<Rightarrow> Inr (Some i)))"

definition read_instance :: "env \<Rightarrow> string \<Rightarrow> wf_decl \<Rightarrow> string \<Rightarrow> wf_instance option eff" where
  "read_instance E t decl i = eff_bind (read_doc E t (wf_docId decl i)) (\<lambda>d. eff_of (as_instance d))"

definition require_instance :: "wf_instance option \<Rightarrow> wf_instance eff" where
  "require_instance i = eff_of (some_or i (err ''NotFound''))"

text \<open>\<open>render\<close>: an instance as callers see it.\<close>

definition render :: "wf_instance \<Rightarrow> wf_instance" where
  "render i = i\<lparr>wi_driver := None, wi_stamp := None\<rparr>"

subsection \<open>Lists of ids\<close>

definition ids_in :: "jsval \<Rightarrow> string list" where
  "ids_in v = (case v of JArr vs \<Rightarrow> map js_string vs | _ \<Rightarrow> [])"

definition listed_ids :: "obj option \<Rightarrow> string list" where
  "listed_ids d = (case d of None \<Rightarrow> [] | Some x \<Rightarrow> ids_in (orElse (oget x ''ids'') (oget x ''instances'')))"

fun contains_text :: "string \<Rightarrow> string \<Rightarrow> bool" where
  "contains_text sub [] \<longleftrightarrow> sub = []"
| "contains_text sub (c # s) \<longleftrightarrow> starts_with sub (c # s) \<or> contains_text sub s"

definition list_body :: "string \<Rightarrow> string list \<Rightarrow> obj" where
  "list_body docId ids = [(if contains_text '':waiters:'' docId then ''instances'' else ''ids'', JStrs ids)]"

fun list_attempts :: "nat \<Rightarrow> env \<Rightarrow> string \<Rightarrow> string \<Rightarrow> (string list \<Rightarrow> string list) \<Rightarrow> unit eff" where
  "list_attempts 0 E t docId f = eff_fail (err ''TransientConflict'')"
| "list_attempts (Suc n) E t docId f =
     eff_bind (read_doc E t docId) (\<lambda>cur.
     eff_bind (eff_exit (write_doc E t docId (list_body docId (f (listed_ids cur))) (doc_expected cur))) (\<lambda>r.
       case r of Inr u \<Rightarrow> eff_ret () | Inl e \<Rightarrow> list_attempts n E t docId f))"

definition LIST_ATTEMPTS :: nat where
  "LIST_ATTEMPTS = 5"

definition listMutate :: "env \<Rightarrow> string \<Rightarrow> string \<Rightarrow> (string list \<Rightarrow> string list) \<Rightarrow> unit eff" where
  "listMutate E t docId f = list_attempts LIST_ATTEMPTS E t docId f"

definition with_id :: "string \<Rightarrow> string list \<Rightarrow> string list" where
  "with_id i ids = (if i \<in> set ids then ids else ids @ [i])"

definition without_id :: "string \<Rightarrow> string list \<Rightarrow> string list" where
  "without_id i ids = filter (\<lambda>x. x \<noteq> i) ids"

section \<open>Transitions\<close>

definition stepIdempotencyKey :: "wf_instance \<Rightarrow> string \<Rightarrow> string" where
  "stepIdempotencyKey i step =
     ''wf:'' @ wi_id i @ '':'' @ step @ '':'' @ show_nat (length (filter (\<lambda>h. he_step h = step) (wi_history i)))"

definition entry_of :: "string \<Rightarrow> string \<Rightarrow> string \<Rightarrow> wf_history" where
  "entry_of step kind now = \<lparr>he_step = step, he_kind = kind, he_at = now\<rparr>"

definition finish :: "wf_instance \<Rightarrow> wf_status \<Rightarrow> string \<Rightarrow> wf_history \<Rightarrow> string option \<Rightarrow> wf_instance" where
  "finish i status now entry error =
     i\<lparr>wi_waiting := None, wi_sleeping := None, wi_status := status, wi_history := wi_history i @ [entry],
       wi_error := (case error of None \<Rightarrow> wi_error i | Some e \<Rightarrow> Some e), wi_updatedAt := now\<rparr>"

text \<open>\<open>{ input: inst.input, ...inst.bindings }\<close>.\<close>

definition wf_vars :: "wf_instance \<Rightarrow> obj" where
  "wf_vars i = spread [(''input'', wi_input i)] (wi_bindings i)"

definition declared_error :: "wf_decl \<Rightarrow> string \<Rightarrow> string" where
  "declared_error decl e = wf_id decl @ ''.'' @ e"

fun end_at :: "platform \<Rightarrow> wf_instance \<Rightarrow> wf_terminal \<Rightarrow> wf_decl \<Rightarrow> string \<Rightarrow> wf_history \<Rightarrow> wf_instance res" where
  "end_at pl i (WtReturn e) decl now entry =
     bind_res (evalWf pl e (wf_vars i)) (\<lambda>v. Inr (finish (i\<lparr>wi_output := v\<rparr>) WsCompleted now entry None))"
| "end_at pl i (WtFail e) decl now entry = Inr (finish i WsFailed now entry (Some (declared_error decl e)))"

text \<open>Going on to the next node: the entry in the history, and a result bound to the step.\<close>

definition proceed :: "wf_instance \<Rightarrow> wf_node \<Rightarrow> wf_history \<Rightarrow> wf_instance" where
  "proceed i node entry = i\<lparr>wi_status := WsRunning, wi_pc := nd_next node, wi_history := wi_history i @ [entry]\<rparr>"

definition proceed_with :: "wf_instance \<Rightarrow> wf_node \<Rightarrow> string \<Rightarrow> string \<Rightarrow> string \<Rightarrow> jsval \<Rightarrow> wf_instance" where
  "proceed_with i node step kind now v =
     (proceed i node (entry_of step kind now))\<lparr>wi_bindings := mput step v (wi_bindings i)\<rparr>"

subsection \<open>Calls\<close>

fun wf_args :: "platform \<Rightarrow> (string \<times> expr) list \<Rightarrow> obj \<Rightarrow> obj \<Rightarrow> obj res" where
  "wf_args pl [] vars args = Inr args"
| "wf_args pl ((n, e) # as) vars args = bind_res (evalWf pl e vars) (\<lambda>v. wf_args pl as vars (mput n v args))"

fun call_of :: "call_target \<Rightarrow> obj \<Rightarrow> string \<times> obj" where
  "call_of (FunctionTarget f) args = (f, args)"
| "call_of (TransitionTarget r a) args =
     (r @ ''.status.'' @ a, [(''id'', oget args ''id''), (''expectedVersion'', oget args ''expectedVersion''),
        (''input'', JObj (mdel ''expectedVersion'' (mdel ''id'' args)))])"

definition lower_call :: "platform \<Rightarrow> wf_call \<Rightarrow> obj \<Rightarrow> (string \<times> obj) res" where
  "lower_call pl c vars = bind_res (wf_args pl (wc_args c) vars []) (\<lambda>args. Inr (call_of (wc_target c) args))"

fun errorName :: "call_target \<Rightarrow> string \<Rightarrow> string" where
  "errorName (FunctionTarget f) code = (if starts_with (f @ ''.'') code then drop (length f + 1) code else code)"
| "errorName (TransitionTarget r a) code = code"

definition wf_context :: "string \<Rightarrow> string \<Rightarrow> string \<Rightarrow> call_context" where
  "wf_context t requestId key = \<lparr>cx_tenant = t, cx_actor = ''workflow'', cx_requestId = requestId,
     cx_idempotencyKey = Some key, cx_purpose = None, cx_maintenance = False\<rparr>"

text \<open>\<open>engine.callInternal\<close>.\<close>

definition activity :: "env \<Rightarrow> wf_host \<Rightarrow> string \<Rightarrow> obj \<Rightarrow> call_context \<Rightarrow> jsval eff" where
  "activity E H opId input ctx = call E (wh_linked H) (wh_publication H) None opId (JObj input) ctx"

definition crash_point :: "wf_host \<Rightarrow> string \<Rightarrow> unit eff" where
  "crash_point H step = eff_guard (wh_crashAfter H \<noteq> Some step) (err ''Internal'')"

definition call_failed ::
    "platform \<Rightarrow> wf_decl \<Rightarrow> wf_instance \<Rightarrow> wf_call \<Rightarrow> string \<Rightarrow> exn \<Rightarrow> wf_instance res" where
  "call_failed pl decl i c now e =
     (case e of
        Forge fe \<Rightarrow>
          if fe_code fe = ''TransientConflict'' then Inl e
          else (case List.find (\<lambda>x. fst x = errorName (wc_target c) (fe_code fe)) (wc_catches c) of
              Some (n, fin) \<Rightarrow> end_at pl i fin decl now (entry_of (wc_id c) ''error'' now)
            | None \<Rightarrow> Inr (finish i WsFailed now (entry_of (wc_id c) ''error'' now) (Some (fe_code fe))))
      | _ \<Rightarrow> Inl (err ''Internal''))"

definition step_call ::
    "env \<Rightarrow> wf_host \<Rightarrow> string \<Rightarrow> wf_decl \<Rightarrow> wf_instance \<Rightarrow> wf_node \<Rightarrow> string \<Rightarrow> wf_call \<Rightarrow> wf_instance eff" where
  "step_call E H t decl i node now c =
     (let pl = en_platform E in
      eff_bind (eff_of (lower_call pl c (wf_vars i))) (\<lambda>(opId, input).
      eff_bind (eff_exit (activity E H opId input
          (wf_context t (wi_id i @ '':'' @ wc_id c) (stepIdempotencyKey i (wc_id c))))) (\<lambda>r.
        case r of
          Inl e \<Rightarrow> eff_of (call_failed pl decl i c now e)
        | Inr v \<Rightarrow> eff_bind (crash_point H (wc_id c)) (\<lambda>_.
            eff_ret (proceed_with i node (wc_id c) ''call'' now v)))))"

subsection \<open>Maps\<close>

definition MAP_KIND :: string where
  "MAP_KIND = ''workflow-map''"

definition map_blocked :: obj where
  "map_blocked = [(''blocked'', JBool True)]"

definition map_error :: "string \<Rightarrow> obj" where
  "map_error code = [(''state'', JStr ''done''), (''error'', JObj [(''code'', JStr code)])]"

definition map_value :: "jsval \<Rightarrow> obj" where
  "map_value v = [(''state'', JStr ''done''), (''value'', v)]"

definition map_running :: "string \<Rightarrow> obj" where
  "map_running lease = [(''state'', JStr ''running''), (''leaseUntil'', JStr lease)]"

definition map_bounded :: "obj \<Rightarrow> obj" where
  "map_bounded o' = (if document_size o' > DOCUMENT_LIMIT then map_error ''MapResultTooLarge'' else o')"

fun map_outcome :: "jsval res \<Rightarrow> obj res" where
  "map_outcome (Inr v) = Inr (map_bounded (map_value v))"
| "map_outcome (Inl (Forge fe)) =
     (if fe_code fe = ''TransientConflict'' then Inl (Forge fe) else Inr (map_bounded (map_error (fe_code fe))))"
| "map_outcome (Inl e) = Inl (err ''Internal'')"

definition map_read :: "env \<Rightarrow> string \<Rightarrow> string \<Rightarrow> obj option eff" where
  "map_read E t child = storage_read E (\<lambda>m. mem_getDocument m t MAP_KIND child)"

definition map_write :: "env \<Rightarrow> string \<Rightarrow> string \<Rightarrow> obj \<Rightarrow> nat option \<Rightarrow> unit eff" where
  "map_write E t child d expected = storage_write E (\<lambda>m. mem_putDocument m t MAP_KIND child d expected)"

definition in_state :: "string \<Rightarrow> obj option \<Rightarrow> bool" where
  "in_state s d \<longleftrightarrow> (case d of None \<Rightarrow> False | Some x \<Rightarrow> oget x ''state'' = JStr s)"

definition lease_held :: "string \<Rightarrow> obj option \<Rightarrow> bool" where
  "lease_held now d \<longleftrightarrow> in_state ''running'' d \<and> (case d of None \<Rightarrow> False | Some x \<Rightarrow> js_string (oget x ''leaseUntil'') > now)"

text \<open>
  One item: its outcome once it is written, or blocked when another driver holds it. The items of a
  wave, which run concurrently, are taken in their order.
\<close>

definition map_run ::
    "env \<Rightarrow> wf_host \<Rightarrow> string \<Rightarrow> wf_instance \<Rightarrow> wf_call \<Rightarrow> string \<Rightarrow> string \<Rightarrow> obj \<Rightarrow> nat option \<Rightarrow> obj eff" where
  "map_run E H t i c child key vars expected =
     eff_bind (eff_of (lower_call (en_platform E) c vars)) (\<lambda>(opId, input).
     eff_bind (eff_exit (activity E H opId input (wf_context t child key))) (\<lambda>r.
     eff_bind (eff_of (map_outcome r)) (\<lambda>outcome.
     eff_bind (eff_catch (map_write E t child outcome (Some (case expected of None \<Rightarrow> 1 | Some v \<Rightarrow> v + 1)))
         (\<lambda>e. if exn_code e = ''VersionConflict'' then eff_ret () else eff_fail e)) (\<lambda>_.
     eff_bind (map_read E t child) (\<lambda>saved. eff_of (some_or saved type_error))))))"

definition map_child ::
    "env \<Rightarrow> wf_host \<Rightarrow> string \<Rightarrow> wf_decl \<Rightarrow> wf_instance \<Rightarrow> string \<Rightarrow> string \<Rightarrow> wf_call \<Rightarrow> nat \<times> jsval \<Rightarrow> obj eff" where
  "map_child E H t decl i step binding c x =
     (let child = wf_docId decl (wi_id i) @ '':map:'' @ step @ '':'' @ show_nat (fst x);
          key = stepIdempotencyKey i (step @ '':'' @ show_nat (fst x)) in
      eff_bind (map_read E t child) (\<lambda>existing.
      if in_state ''done'' existing then eff_of (some_or existing type_error)
      else eff_bind (eff_env (en_clock E)) (\<lambda>now.
      if lease_held now existing then eff_ret map_blocked
      else eff_bind (eff_of (iso_after E now 300000)) (\<lambda>lease.
      eff_bind (eff_exit (map_write E t child (map_running lease) (doc_expected existing))) (\<lambda>reserved.
        case reserved of
          Inl (Forge fe) \<Rightarrow> if fe_code fe = ''VersionConflict'' then eff_ret map_blocked else eff_fail (Forge fe)
        | Inl e \<Rightarrow> eff_fail (err ''Internal'')
        | Inr u \<Rightarrow> map_run E H t i c child key (mput binding (snd x) (wf_vars i)) (doc_expected existing))))))"

datatype map_result = MapBlocked | MapFailed string | MapValues "jsval list"

definition wave_result :: "obj list \<Rightarrow> map_result" where
  "wave_result outcomes =
     (if list_ex (\<lambda>d. truthy (oget d ''blocked'') \<or> oget d ''state'' \<noteq> JStr ''done'') outcomes then MapBlocked
      else case List.find (\<lambda>d. truthy (oget d ''error'')) outcomes of
        Some d \<Rightarrow> MapFailed (js_string (oget (obj_of (oget d ''error'')) ''code''))
      | None \<Rightarrow> MapValues (map (\<lambda>d. oget d ''value'') outcomes))"

definition still_current :: "wf_instance \<Rightarrow> obj option \<Rightarrow> bool" where
  "still_current i d \<longleftrightarrow> (case d of None \<Rightarrow> False
     | Some x \<Rightarrow> oget x ''status'' = JStr ''running'' \<and> oget x ''pc'' = JInt (wi_pc i))"

text \<open>The waves of at most \<open>k + 1\<close> items, from the item numbered \<open>n\<close> on, with the values so far.\<close>

function map_waves ::
    "env \<Rightarrow> wf_host \<Rightarrow> string \<Rightarrow> wf_decl \<Rightarrow> wf_instance \<Rightarrow> string \<Rightarrow> string \<Rightarrow> wf_call \<Rightarrow> nat \<Rightarrow> nat \<Rightarrow> jsval list \<Rightarrow>
      jsval list \<Rightarrow> map_result eff" where
  "map_waves E H t decl i step binding c k n [] results = eff_ret (MapValues results)"
| "map_waves E H t decl i step binding c k n (x # xs) results =
     eff_bind (read_doc E t (wf_docId decl (wi_id i))) (\<lambda>current.
     if \<not> still_current i current then eff_ret MapBlocked
     else eff_bind (eff_map (map_child E H t decl i step binding c) (enumerate n (x # take k xs))) (\<lambda>outcomes.
       case wave_result outcomes of
         MapValues vs \<Rightarrow> eff_bind (crash_point H step) (\<lambda>_.
           map_waves E H t decl i step binding c k (n + Suc k) (drop k xs) (results @ vs))
       | r \<Rightarrow> eff_ret r))"
  by pat_completeness auto
termination
  by (relation "measure (\<lambda>(E, H, t, decl, i, step, binding, c, k, n, xs, results). length xs)") auto

definition wave_size :: "jsval \<Rightarrow> int \<Rightarrow> jsval \<Rightarrow> (nat \<times> jsval list) option" where
  "wave_size concurrency max_items items =
     (case (items, concurrency) of
        (JArr xs, JInt k) \<Rightarrow>
          if int (length xs) > max_items \<or> max_items > 1024 \<or> k < 1 \<or> k > 32 then None else Some (nat k - 1, xs)
      | _ \<Rightarrow> None)"

definition map_finished ::
    "wf_instance \<Rightarrow> wf_node \<Rightarrow> string \<Rightarrow> string \<Rightarrow> map_result \<Rightarrow> wf_instance option" where
  "map_finished i node step now r =
     (case r of
        MapBlocked \<Rightarrow> None
      | MapFailed code \<Rightarrow> Some (finish i WsFailed now (entry_of step ''error'' now) (Some code))
      | MapValues vs \<Rightarrow>
          if too_large (JArr vs) then Some (finish i WsFailed now (entry_of step ''error'' now) (Some ''MapResultTooLarge''))
          else Some (proceed_with i node step ''map'' now (JArr vs)))"

definition step_map ::
    "env \<Rightarrow> wf_host \<Rightarrow> string \<Rightarrow> wf_decl \<Rightarrow> wf_instance \<Rightarrow> wf_node \<Rightarrow> string \<Rightarrow> string \<Rightarrow> string \<Rightarrow> expr \<Rightarrow> jsval \<Rightarrow> int \<Rightarrow>
      wf_call \<Rightarrow> wf_instance option eff" where
  "step_map E H t decl i node now step binding source concurrency max_items c =
     eff_bind (eff_of (evalWf (en_platform E) source (wf_vars i))) (\<lambda>items.
       case wave_size concurrency max_items items of
         None \<Rightarrow> eff_ret (Some (finish i WsFailed now (entry_of step ''error'' now) (Some ''InvalidMapInput'')))
       | Some (k, xs) \<Rightarrow>
           eff_bind (map_waves E H t decl i step binding c k 0 xs []) (\<lambda>r. eff_ret (map_finished i node step now r)))"

subsection \<open>Sleeping and waiting\<close>

definition step_sleep :: "env \<Rightarrow> wf_instance \<Rightarrow> wf_node \<Rightarrow> string \<Rightarrow> string \<Rightarrow> string \<Rightarrow> wf_instance option res" where
  "step_sleep E i node now step duration =
     (case (wi_status i, wi_sleeping i) of
        (WsSleeping, Some (at_step, due)) \<Rightarrow>
          if at_step \<noteq> step then bind_res (iso_after E now (durationMs duration)) (\<lambda>d.
            Inr (Some (i\<lparr>wi_status := WsSleeping, wi_sleeping := Some (step, d)\<rparr>)))
          else if due > now then Inr None
          else Inr (Some ((proceed i node (entry_of step ''sleep'' now))\<lparr>wi_sleeping := None\<rparr>))
      | _ \<Rightarrow> bind_res (iso_after E now (durationMs duration)) (\<lambda>d.
            Inr (Some (i\<lparr>wi_status := WsSleeping, wi_sleeping := Some (step, d)\<rparr>))))"

definition correlation_key :: "platform \<Rightarrow> (string \<times> expr) option \<Rightarrow> obj \<Rightarrow> string res" where
  "correlation_key pl correlate vars =
     (case correlate of None \<Rightarrow> Inr []
      | Some (f, e) \<Rightarrow> bind_res (evalWf pl e vars) (\<lambda>v. Inr (compared_text v)))"

definition wait_due :: "env \<Rightarrow> string \<Rightarrow> (string \<times> wf_terminal) option \<Rightarrow> string option res" where
  "wait_due E now timeout =
     (case timeout of None \<Rightarrow> Inr None
      | Some (d, fin) \<Rightarrow> bind_res (iso_after E now (durationMs d)) (\<lambda>t. Inr (Some t)))"

text \<open>The signals of an inbox: message id and payload.\<close>

definition signals_of :: "obj option \<Rightarrow> (string \<times> jsval) list" where
  "signals_of d = (case d of None \<Rightarrow> []
     | Some x \<Rightarrow> (case oget x ''signals'' of
         JArr vs \<Rightarrow> map (\<lambda>v. (js_string (oget (obj_of v) ''messageId''), oget (obj_of v) ''payload'')) vs | _ \<Rightarrow> []))"

definition register_wait ::
    "env \<Rightarrow> string \<Rightarrow> wf_decl \<Rightarrow> wf_instance \<Rightarrow> string \<Rightarrow> string \<Rightarrow> string \<Rightarrow> string \<Rightarrow> string \<Rightarrow>
      (string \<times> wf_terminal) option \<Rightarrow> wf_instance option eff" where
  "register_wait E t decl i now step channel message key timeout =
     eff_bind (listMutate E t (waitersId decl step message key) (with_id (wi_id i))) (\<lambda>_.
     eff_bind (eff_of (wait_due E now timeout)) (\<lambda>due.
       eff_ret (Some (i\<lparr>wi_status := WsWaiting, wi_waiting := Some \<lparr>ww_step = step, ww_channel = channel,
         ww_message = message, ww_key = key, ww_due = due\<rparr>\<rparr>))))"

definition consume ::
    "wf_instance \<Rightarrow> wf_node \<Rightarrow> string \<Rightarrow> string \<Rightarrow> string \<times> jsval \<Rightarrow> wf_instance" where
  "consume i node now step sig =
     (proceed_with i node step ''signal'' now (snd sig))\<lparr>wi_waiting := None, wi_consumed := wi_consumed i @ [fst sig]\<rparr>"

definition resume_wait ::
    "env \<Rightarrow> string \<Rightarrow> wf_decl \<Rightarrow> wf_instance \<Rightarrow> wf_node \<Rightarrow> string \<Rightarrow> string \<Rightarrow> string \<Rightarrow> string \<Rightarrow>
      (string \<times> wf_terminal) option \<Rightarrow> string option \<Rightarrow> wf_instance option eff" where
  "resume_wait E t decl i node now step message key timeout due =
     (let leave = listMutate E t (waitersId decl step message key) (without_id (wi_id i)) in
      eff_bind (read_doc E t (inboxId decl step message key)) (\<lambda>inbox.
        case (List.find (\<lambda>x. fst x \<notin> set (wi_consumed i)) (signals_of inbox), due, timeout) of
          (Some sig, _, _) \<Rightarrow> eff_bind leave (\<lambda>_. eff_ret (Some (consume i node now step sig)))
        | (None, Some d, Some (duration, fin)) \<Rightarrow>
            if d \<noteq> [] \<and> d \<le> now then
              eff_bind leave (\<lambda>_. eff_bind (eff_of (end_at (en_platform E) i fin decl now (entry_of step ''timeout'' now))) (\<lambda>i'.
                eff_ret (Some i')))
            else eff_ret None
        | _ \<Rightarrow> eff_ret None))"

definition step_wait ::
    "env \<Rightarrow> string \<Rightarrow> wf_decl \<Rightarrow> wf_instance \<Rightarrow> wf_node \<Rightarrow> string \<Rightarrow> string \<Rightarrow> string \<Rightarrow> string \<Rightarrow> (string \<times> expr) option \<Rightarrow>
      (string \<times> wf_terminal) option \<Rightarrow> wf_instance option eff" where
  "step_wait E t decl i node now step channel message correlate timeout =
     eff_bind (eff_of (correlation_key (en_platform E) correlate (wf_vars i))) (\<lambda>key.
       case (wi_status i, wi_waiting i) of
         (WsWaiting, Some wt) \<Rightarrow>
           if ww_step wt \<noteq> step then register_wait E t decl i now step channel message key timeout
           else resume_wait E t decl i node now step message key timeout (ww_due wt)
       | _ \<Rightarrow> register_wait E t decl i now step channel message key timeout)"

subsection \<open>One transition\<close>

definition step_choice :: "platform \<Rightarrow> wf_instance \<Rightarrow> wf_node \<Rightarrow> string \<Rightarrow> string \<Rightarrow> expr \<Rightarrow> wf_instance res" where
  "step_choice pl i node now step condition =
     bind_res (evalWf pl condition (wf_vars i)) (\<lambda>v.
     bind_res (some_or (if truthy v then nd_then node else nd_otherwise node) type_error) (\<lambda>pc.
       Inr (i\<lparr>wi_pc := pc, wi_history := wi_history i @ [entry_of step ''choice'' now]\<rparr>)))"

text \<open>\<open>step\<close>: the next state of the instance, not yet saved, or None when it is blocked.\<close>

fun take_step :: "env \<Rightarrow> wf_host \<Rightarrow> string \<Rightarrow> wf_decl \<Rightarrow> wf_instance \<Rightarrow> wf_node \<Rightarrow> string \<Rightarrow> wf_step \<Rightarrow> wf_instance option eff" where
  "take_step E H t decl i node now (WfCall c) = eff_bind (step_call E H t decl i node now c) (\<lambda>i'. eff_ret (Some i'))"
| "take_step E H t decl i node now (WfMap step binding source concurrency max_items c) =
     step_map E H t decl i node now step binding source concurrency max_items c"
| "take_step E H t decl i node now (WfSleep step duration) = eff_of (step_sleep E i node now step duration)"
| "take_step E H t decl i node now (WfWait step channel message correlate timeout) =
     step_wait E t decl i node now step channel message correlate timeout"
| "take_step E H t decl i node now (WfChoice step condition th el) =
     eff_bind (eff_of (step_choice (en_platform E) i node now step condition)) (\<lambda>i'. eff_ret (Some i'))"
| "take_step E H t decl i node now (WfParallel step branches) = eff_ret (Some (i\<lparr>wi_pc := nd_next node\<rparr>))"
| "take_step E H t decl i node now (WfReturn e) =
     eff_bind (eff_of (end_at (en_platform E) i (WtReturn e) decl now (entry_of ''return'' ''return'' now))) (\<lambda>i'. eff_ret (Some i'))"
| "take_step E H t decl i node now (WfFail e) =
     eff_ret (Some (finish i WsFailed now (entry_of ''fail'' ''fail'' now) (Some (declared_error decl e))))"

text \<open>\<open>save\<close>: on condition that the document is still the one \<open>before\<close> was read from.\<close>

definition as_transient :: "exn \<Rightarrow> exn" where
  "as_transient e = (if exn_code e = ''VersionConflict'' then err ''TransientConflict'' else e)"

definition saved_as :: "wf_instance \<Rightarrow> string \<Rightarrow> wf_instance" where
  "saved_as i now = i\<lparr>wi_updatedAt := now, wi_stamp := Some (case wi_stamp i of None \<Rightarrow> 1 | Some v \<Rightarrow> v + 1)\<rparr>"

definition wf_save :: "env \<Rightarrow> string \<Rightarrow> wf_decl \<Rightarrow> wf_instance \<Rightarrow> wf_instance \<Rightarrow> wf_instance eff" where
  "wf_save E t decl before after =
     eff_bind (eff_env (en_clock E)) (\<lambda>now.
     eff_bind (eff_catch (write_doc E t (wf_docId decl (wi_id before)) (instance_obj (after\<lparr>wi_updatedAt := now\<rparr>)) (wi_stamp before))
         (\<lambda>e. eff_fail (as_transient e))) (\<lambda>_.
     eff_bind (if wf_active (wi_status after) then eff_ret ()
         else listMutate E t (activeId decl) (without_id (wi_id before))) (\<lambda>_.
       eff_ret (saved_as after now))))"

section \<open>Running an instance\<close>

definition program_of :: "wf_decl \<Rightarrow> wf_node list" where
  "program_of decl = compile (wf_steps decl)"

definition attempt :: "env \<Rightarrow> wf_host \<Rightarrow> string \<Rightarrow> wf_decl \<Rightarrow> wf_instance \<Rightarrow> string \<Rightarrow> wf_instance option eff" where
  "attempt E H t decl i now =
     (case node_at (program_of decl) (wi_pc i) of
        None \<Rightarrow> eff_bind (wf_save E t decl i (finish i WsCompleted now (entry_of [] ''end'' now) None)) (\<lambda>i'. eff_ret (Some i'))
      | Some node \<Rightarrow>
          eff_bind (take_step E H t decl i node now (nd_step node)) (\<lambda>r.
            case r of None \<Rightarrow> eff_ret None
            | Some after \<Rightarrow> eff_bind (wf_save E t decl i after) (\<lambda>i'. eff_ret (Some i'))))"

definition ADVANCE_GUARD :: int where
  "ADVANCE_GUARD = 10000"

definition CONFLICT_LIMIT :: int where
  "CONFLICT_LIMIT = 50"

function run_from ::
    "env \<Rightarrow> wf_host \<Rightarrow> string \<Rightarrow> wf_decl \<Rightarrow> int \<Rightarrow> int \<Rightarrow> wf_instance \<Rightarrow> wf_instance eff" where
  "run_from E H t decl guard conflicts i =
     (if guard \<ge> ADVANCE_GUARD \<or> \<not> wf_active (wi_status i) then eff_ret i
      else eff_bind (eff_env (en_clock E)) (\<lambda>now.
           eff_bind (eff_exit (attempt E H t decl i now)) (\<lambda>r.
             case r of
               Inl (Forge fe) \<Rightarrow>
                 if fe_code fe = ''TransientConflict'' \<and> conflicts + 1 < CONFLICT_LIMIT then
                   eff_bind (read_instance E t decl (wi_id i)) (\<lambda>fresh.
                   eff_bind (require_instance fresh) (\<lambda>i'. run_from E H t decl (guard + 1) (conflicts + 1) i'))
                 else eff_fail (Forge fe)
             | Inl e \<Rightarrow> eff_fail (err ''Internal'')
             | Inr None \<Rightarrow> eff_ret i
             | Inr (Some i') \<Rightarrow> run_from E H t decl (guard + 1) conflicts i')))"
  by pat_completeness auto
termination
  by (relation "measure (\<lambda>(E, H, t, decl, guard, conflicts, i). nat (ADVANCE_GUARD - guard))") auto

declare run_from.simps [simp del]

text \<open>The declaration an id belongs to: the first whose instance is stored.\<close>

fun locate :: "env \<Rightarrow> string \<Rightarrow> string \<Rightarrow> wf_decl list \<Rightarrow> (wf_decl \<times> wf_instance) eff" where
  "locate E t iid [] = eff_fail (err ''NotFound'')"
| "locate E t iid (d # ds) =
     eff_bind (read_instance E t d iid) (\<lambda>r. case r of Some i \<Rightarrow> eff_ret (d, i) | None \<Rightarrow> locate E t iid ds)"

definition candidates :: "wf_host \<Rightarrow> wf_decl option \<Rightarrow> wf_decl list" where
  "candidates H decl = (case decl of Some d \<Rightarrow> [d] | None \<Rightarrow> wh_workflows H)"

definition advance :: "env \<Rightarrow> wf_host \<Rightarrow> string \<Rightarrow> string \<Rightarrow> wf_decl option \<Rightarrow> wf_instance eff" where
  "advance E H t iid decl =
     eff_bind (locate E t iid (candidates H decl)) (\<lambda>(d, i).
     eff_bind (eff_guard (wi_version i = wf_version d \<and> wi_graphHash i = wf_graphHash d) (err ''WorkflowVersionMismatch'')) (\<lambda>_.
     eff_bind (run_from E H t d 0 0 i) (\<lambda>i'. eff_ret (render i'))))"

section \<open>Operations\<close>

definition wf_get :: "env \<Rightarrow> wf_decl \<Rightarrow> string \<Rightarrow> call_context \<Rightarrow> wf_instance eff" where
  "wf_get E decl iid ctx =
     eff_bind (read_instance E (cx_tenant ctx) decl iid) (\<lambda>r. eff_bind (require_instance r) (\<lambda>i. eff_ret (render i)))"

definition new_instance :: "wf_decl \<Rightarrow> string \<Rightarrow> jsval \<Rightarrow> string \<Rightarrow> wf_instance" where
  "new_instance decl iid input now =
     \<lparr>wi_id = iid, wi_workflow = wf_id decl, wi_version = wf_version decl, wi_graphHash = wf_graphHash decl,
      wi_status = WsRunning, wi_input = input, wi_bindings = [], wi_pc = 0, wi_consumed = [], wi_history = [],
      wi_waiting = None, wi_sleeping = None, wi_output = JUndef, wi_error = None, wi_driver = None,
      wi_createdAt = now, wi_updatedAt = now, wi_stamp = None\<rparr>"

definition start_input :: "env \<Rightarrow> wf_decl \<Rightarrow> jsval \<Rightarrow> jsval res" where
  "start_input E decl input =
     (case wf_input decl of
        Some ty \<Rightarrow>
          if ''workflow-map/1'' \<in> set (ir_requires (m_ir (en_model E))) then
            (case decodeValue (en_platform E) (en_model E) ty input of
               Inl e \<Rightarrow> Inl (err ''ValidationFailed'') | Inr v \<Rightarrow> Inr v)
          else Inr input
      | None \<Rightarrow> Inr input)"

definition start_key :: "wf_decl \<Rightarrow> call_context \<Rightarrow> string option" where
  "start_key decl ctx = (case cx_idempotencyKey ctx of None \<Rightarrow> None | Some k \<Rightarrow> if k = [] then None else Some (startId decl k))"

definition started_before :: "env \<Rightarrow> string \<Rightarrow> string option \<Rightarrow> obj option eff" where
  "started_before E t key = (case key of None \<Rightarrow> eff_ret None | Some k \<Rightarrow> read_doc E t k)"

definition ignore_failure :: "unit eff \<Rightarrow> unit eff" where
  "ignore_failure m = eff_catch m (\<lambda>e. case e of Forge fe \<Rightarrow> eff_ret () | _ \<Rightarrow> eff_fail e)"

definition remember_start :: "env \<Rightarrow> string \<Rightarrow> string option \<Rightarrow> string \<Rightarrow> unit eff" where
  "remember_start E t key iid =
     (case key of None \<Rightarrow> eff_ret ()
      | Some k \<Rightarrow> ignore_failure (write_doc E t k [(''instance'', JStr iid)] None))"

definition append_id :: "string \<Rightarrow> string list \<Rightarrow> string list" where
  "append_id i ids = ids @ [i]"

definition wf_start :: "env \<Rightarrow> wf_host \<Rightarrow> wf_decl \<Rightarrow> jsval \<Rightarrow> call_context \<Rightarrow> wf_instance eff" where
  "wf_start E H decl input ctx =
     (let t = cx_tenant ctx; key = start_key decl ctx in
      eff_bind (eff_env (en_clock E)) (\<lambda>now.
      eff_bind (eff_of (start_input E decl input)) (\<lambda>v.
      eff_bind (started_before E t key) (\<lambda>existing.
        case existing of
          Some d \<Rightarrow> wf_get E decl (js_string (oget d ''instance'')) ctx
        | None \<Rightarrow>
            eff_bind (eff_env (\<lambda>n. wh_nextId H n (''wf'' @ wf_name decl))) (\<lambda>iid.
            eff_bind (write_doc E t (wf_docId decl iid) (instance_obj (new_instance decl iid v now)) None) (\<lambda>_.
            eff_bind (remember_start E t key iid) (\<lambda>_.
            eff_bind (listMutate E t (activeId decl) (append_id iid)) (\<lambda>_.
            eff_bind (listMutate E REGISTRY_TENANT ''tenants'' (with_id t)) (\<lambda>_.
              advance E H t iid (Some decl))))))))))"

definition pending_step :: "wf_instance \<Rightarrow> string" where
  "pending_step i = (case wi_waiting i of Some w \<Rightarrow> ww_step w | None \<Rightarrow> (case wi_sleeping i of Some s \<Rightarrow> fst s | None \<Rightarrow> []))"

definition cancelled :: "wf_instance \<Rightarrow> string \<Rightarrow> wf_instance" where
  "cancelled i now = finish i WsCancelled now (entry_of (pending_step i) ''cancel'' now) None"

text \<open>One attempt to cancel: the instance as it is cancelled, and the attempt to save it.\<close>

definition cancel_once :: "env \<Rightarrow> wf_decl \<Rightarrow> string \<Rightarrow> call_context \<Rightarrow> (wf_instance \<times> wf_instance res) eff" where
  "cancel_once E decl iid ctx =
     eff_bind (read_instance E (cx_tenant ctx) decl iid) (\<lambda>r.
     eff_bind (require_instance r) (\<lambda>i.
     eff_bind (eff_guard (wf_active (wi_status i)) (err ''InvalidTransition'')) (\<lambda>_.
     eff_bind (eff_env (en_clock E)) (\<lambda>now.
     eff_bind (eff_exit (wf_save E (cx_tenant ctx) decl i (cancelled i now))) (\<lambda>saved.
       eff_ret (cancelled i now, saved))))))"

definition wf_cancel :: "env \<Rightarrow> wf_decl \<Rightarrow> string \<Rightarrow> call_context \<Rightarrow> wf_instance eff" where
  "wf_cancel E decl iid ctx =
     eff_bind (cancel_once E decl iid ctx) (\<lambda>(i, saved).
       case saved of
         Inr i' \<Rightarrow> eff_ret (render i)
       | Inl e \<Rightarrow>
           if exn_code e = ''TransientConflict'' then
             eff_bind (cancel_once E decl iid ctx) (\<lambda>(i2, again). eff_bind (eff_of again) (\<lambda>_. eff_ret (render i)))
           else eff_fail e)"

subsection \<open>Signals\<close>

definition signal_obj :: "string \<Rightarrow> obj \<Rightarrow> string \<Rightarrow> jsval" where
  "signal_obj messageId payload now = JObj [(''messageId'', JStr messageId), (''payload'', JObj payload), (''at'', JStr now)]"

definition raw_signals :: "obj option \<Rightarrow> jsval list" where
  "raw_signals d = (case d of None \<Rightarrow> [] | Some x \<Rightarrow> (case oget x ''signals'' of JArr vs \<Rightarrow> vs | _ \<Rightarrow> []))"

text \<open>The inbox is written before anyone is told: a message id is kept once.\<close>

definition post :: "env \<Rightarrow> string \<Rightarrow> string \<Rightarrow> string \<Rightarrow> obj \<Rightarrow> string \<Rightarrow> unit eff" where
  "post E t inbox messageId payload now =
     eff_bind (read_doc E t inbox) (\<lambda>d.
       if messageId \<in> set (map fst (signals_of d)) then eff_ret ()
       else write_doc E t inbox [(''signals'', JArr (raw_signals d @ [signal_obj messageId payload now]))] (doc_expected d))"

definition signal_key :: "(string \<times> expr) option \<Rightarrow> obj \<Rightarrow> string" where
  "signal_key correlate payload = (case correlate of None \<Rightarrow> [] | Some (f, e) \<Rightarrow> compared_text (oget payload f))"

text \<open>A failure of \<open>advance\<close> leaves the signal in the inbox.\<close>

definition advance_or_none :: "env \<Rightarrow> wf_host \<Rightarrow> string \<Rightarrow> wf_decl \<Rightarrow> string \<Rightarrow> wf_instance option eff" where
  "advance_or_none E H t decl i =
     eff_catch (eff_bind (advance E H t i (Some decl)) (\<lambda>x. eff_ret (Some x)))
       (\<lambda>e. case e of Forge fe \<Rightarrow> eff_ret None | _ \<Rightarrow> eff_fail e)"

definition wake_one :: "env \<Rightarrow> wf_host \<Rightarrow> string \<Rightarrow> wf_decl \<Rightarrow> string \<Rightarrow> string \<Rightarrow> nat eff" where
  "wake_one E H t decl messageId i =
     eff_bind (read_instance E t decl i) (\<lambda>before.
       case before of
         None \<Rightarrow> eff_ret 0
       | Some b \<Rightarrow>
           if wi_status b \<noteq> WsWaiting \<or> messageId \<in> set (wi_consumed b) then eff_ret 0
           else eff_bind (advance_or_none E H t decl i) (\<lambda>after.
                eff_bind (case after of Some a \<Rightarrow> eff_ret (Some a) | None \<Rightarrow> read_instance E t decl i) (\<lambda>after2.
                  eff_ret (case after2 of None \<Rightarrow> 0 | Some a \<Rightarrow> if messageId \<in> set (wi_consumed a) then 1 else 0))))"

definition deliver_at ::
    "env \<Rightarrow> wf_host \<Rightarrow> string \<Rightarrow> wf_decl \<Rightarrow> string \<Rightarrow> string \<Rightarrow> obj \<Rightarrow> string \<Rightarrow> string \<times> (string \<times> expr) option \<Rightarrow> nat eff" where
  "deliver_at E H t decl message messageId payload now s =
     (let key = signal_key (snd s) payload in
      eff_bind (post E t (inboxId decl (fst s) message key) messageId payload now) (\<lambda>_.
      eff_bind (read_doc E t (waitersId decl (fst s) message key)) (\<lambda>waiters.
      eff_bind (eff_map (wake_one E H t decl messageId) (ids_in (case waiters of None \<Rightarrow> JUndef | Some x \<Rightarrow> oget x ''instances''))) (\<lambda>ns.
        eff_ret (sum_list ns)))))"

text \<open>The wait steps for a message, in the order of the program.\<close>

fun waits_on :: "string \<Rightarrow> wf_step \<Rightarrow> (string \<times> (string \<times> expr) option) option" where
  "waits_on message (WfWait step channel m correlate timeout) = (if m = message then Some (step, correlate) else None)"
| "waits_on message s = None"

definition wf_signal ::
    "env \<Rightarrow> wf_host \<Rightarrow> wf_decl \<Rightarrow> string \<Rightarrow> string \<Rightarrow> obj \<Rightarrow> call_context \<Rightarrow> (nat \<times> nat) eff" where
  "wf_signal E H decl message messageId payload ctx =
     eff_bind (eff_env (en_clock E)) (\<lambda>now.
     eff_bind (eff_map (deliver_at E H (cx_tenant ctx) decl message messageId payload now)
         (List.map_filter (waits_on message) (map nd_step (program_of decl)))) (\<lambda>ns.
       eff_ret (sum_list ns, length (filter (\<lambda>n. n = 0) ns))))"

subsection \<open>The sweep\<close>

definition inflight_of :: "env \<Rightarrow> string \<Rightarrow> wf_decl \<Rightarrow> string list eff" where
  "inflight_of E t decl =
     eff_bind (read_doc E t (activeId decl)) (\<lambda>d. eff_ret (ids_in (case d of None \<Rightarrow> JUndef | Some x \<Rightarrow> oget x ''ids'')))"

definition inflight :: "env \<Rightarrow> wf_host \<Rightarrow> string \<Rightarrow> wf_decl option \<Rightarrow> string list eff" where
  "inflight E H t decl = eff_bind (eff_map (inflight_of E t) (candidates H decl)) (\<lambda>xs. eff_ret (concat xs))"

definition countInstances :: "env \<Rightarrow> wf_host \<Rightarrow> string \<Rightarrow> nat eff" where
  "countInstances E H t = eff_bind (inflight E H t None) (\<lambda>ids. eff_ret (length ids))"

definition sweep_decl :: "env \<Rightarrow> wf_host \<Rightarrow> string \<Rightarrow> wf_decl \<Rightarrow> nat eff" where
  "sweep_decl E H t decl =
     eff_bind (inflight E H t (Some decl)) (\<lambda>ids.
     eff_bind (eff_map (advance_or_none E H t decl) ids) (\<lambda>rs. eff_ret (length (filter (\<lambda>r. r \<noteq> None) rs))))"

definition wf_sweep :: "env \<Rightarrow> wf_host \<Rightarrow> string \<Rightarrow> nat eff" where
  "wf_sweep E H t = eff_bind (eff_map (sweep_decl E H t) (wh_workflows H)) (\<lambda>ns. eff_ret (sum_list ns))"

definition wf_tenants :: "env \<Rightarrow> string list eff" where
  "wf_tenants E =
     eff_bind (read_doc E REGISTRY_TENANT ''tenants'') (\<lambda>d. eff_ret (ids_in (case d of None \<Rightarrow> JUndef | Some x \<Rightarrow> oget x ''ids'')))"

subsection \<open>Drivers and subscriptions\<close>

text \<open>\<open>load\<close> and \<open>setDriverState\<close>: over all declarations, each with five attempts.\<close>

fun wf_load :: "env \<Rightarrow> string \<Rightarrow> string \<Rightarrow> wf_decl list \<Rightarrow> wf_instance eff" where
  "wf_load E t i [] = eff_fail (err ''NotFound'')"
| "wf_load E t i (d # ds) =
     eff_bind (read_instance E t d i) (\<lambda>r. case r of Some x \<Rightarrow> eff_ret x | None \<Rightarrow> wf_load E t i ds)"

definition with_driver :: "obj \<Rightarrow> wf_instance \<Rightarrow> wf_instance" where
  "with_driver state i = i\<lparr>wi_driver := Some (spread (case wi_driver i of None \<Rightarrow> [] | Some d \<Rightarrow> d) state)\<rparr>"

fun driver_attempts :: "nat \<Rightarrow> env \<Rightarrow> string \<Rightarrow> wf_decl \<Rightarrow> string \<Rightarrow> obj \<Rightarrow> bool eff" where
  "driver_attempts 0 E t d i state = eff_ret False"
| "driver_attempts (Suc n) E t d i state =
     eff_bind (read_instance E t d i) (\<lambda>r. case r of
         None \<Rightarrow> eff_ret False
       | Some x \<Rightarrow>
           eff_bind (eff_exit (write_doc E t (wf_docId d i) (instance_obj (with_driver state x)) (wi_stamp x))) (\<lambda>saved.
             case saved of Inr u \<Rightarrow> eff_ret True | Inl e \<Rightarrow> driver_attempts n E t d i state))"

fun setDriverState :: "env \<Rightarrow> string \<Rightarrow> string \<Rightarrow> obj \<Rightarrow> wf_decl list \<Rightarrow> unit eff" where
  "setDriverState E t i state [] = eff_fail (err ''NotFound'')"
| "setDriverState E t i state (d # ds) =
     eff_bind (driver_attempts LIST_ATTEMPTS E t d i state) (\<lambda>found. if found then eff_ret () else setDriverState E t i state ds)"

text \<open>\<open>subscriptions\<close>: channels with the subscriptions of the wait steps appended.\<close>

definition subscription_name :: "wf_decl \<Rightarrow> string \<Rightarrow> string" where
  "subscription_name decl step = ''workflow:'' @ wf_name decl @ '':'' @ step"

fun subscribe :: "wf_decl \<Rightarrow> (string \<times> string list) list \<Rightarrow> wf_step \<Rightarrow> (string \<times> string list) list" where
  "subscribe decl m (WfWait step channel message correlate timeout) =
     mput channel ((case map_of m channel of None \<Rightarrow> [] | Some ss \<Rightarrow> ss) @ [subscription_name decl step]) m"
| "subscribe decl m s = m"

definition subscriptions :: "wf_host \<Rightarrow> (string \<times> string list) list \<Rightarrow> (string \<times> string list) list" where
  "subscriptions H base = foldl (\<lambda>m d. foldl (subscribe d) m (map nd_step (program_of d))) base (wh_workflows H)"

text \<open>\<open>transport\<close>: \<open>^workflow:([^:]+):(.+)$\<close> names the workflow a message is delivered to.\<close>

definition subscribed_workflow :: "string \<Rightarrow> string option" where
  "subscribed_workflow s =
     (let r = drop (length ''workflow:'') s; name = takeWhile (\<lambda>c. c \<noteq> CHR '':'') r; rest = drop (length name + 1) r
      in if starts_with ''workflow:'' s \<and> name \<noteq> [] \<and> length name < length r \<and> rest \<noteq> [] \<and> list_all (\<lambda>c. c \<notin> {CHR 10, CHR 13}) rest
         then Some name else None)"

definition channel_context :: "string \<Rightarrow> string \<Rightarrow> call_context" where
  "channel_context t messageId = \<lparr>cx_tenant = t, cx_actor = ''channel'', cx_requestId = messageId, cx_idempotencyKey = None,
     cx_purpose = None, cx_maintenance = False\<rparr>"

definition wf_send :: "env \<Rightarrow> wf_host \<Rightarrow> string \<Rightarrow> string \<Rightarrow> string \<Rightarrow> string \<Rightarrow> obj \<Rightarrow> unit eff" where
  "wf_send E H subscription t message messageId payload =
     (case Option.bind (subscribed_workflow subscription) (\<lambda>n. List.find (\<lambda>d. wf_name d = n) (wh_workflows H)) of
        None \<Rightarrow> eff_fail (JsError ''unknown workflow subscription'')
      | Some d \<Rightarrow> eff_bind (wf_signal E H d message messageId payload (channel_context t messageId)) (\<lambda>_. eff_ret ()))"

end
