(* ===== verification/Workflow_Evolves.thy ===== *)
theory Workflow_Evolves
  imports Workflow Triples Members
begin

text \<open>
  What one transition may do to an instance: its identity and its pinned graph stay, its history and
  its consumed messages only grow, an ended instance stays as it is, and a step that is recorded is
  behind: less of the graph is left.
\<close>

section \<open>Documents of instances\<close>

lemma history_round [simp]: "history_of (history_obj h) = Some h"
  by (simp add: history_of_def history_obj_def as_obj_def as_text_def oget_members)

lemma waiting_round [simp]: "waiting_of (waiting_obj w) = Some w"
  by (cases "ww_due w") (simp_all add: waiting_of_def waiting_obj_def as_obj_def as_text_def oget_members as_optional_def)

lemma sleeping_round [simp]: "sleeping_of (sleeping_obj s) = Some s"
  by (simp add: sleeping_of_def sleeping_obj_def as_obj_def as_text_def oget_members)

lemma error_round [simp]: "error_of (error_obj s) = Some s"
  by (simp add: error_of_def error_obj_def as_obj_def as_text_def oget_members)

lemma present_members: "waiting_obj w \<noteq> JUndef" "sleeping_obj s \<noteq> JUndef" "error_obj e \<noteq> JUndef"
  by (simp_all add: waiting_obj_def sleeping_obj_def error_obj_def)

lemma status_round [simp]: "text_wf_status (wf_status_text s) = Some s"
  by (cases s) (simp_all add: text_wf_status_def)

definition parsed :: "nat \<times> obj \<Rightarrow> wf_instance option" where
  "parsed x = instance_of (mput ''_version'' (JInt (int (fst x))) (snd x))"

lemma instance_members:
  "oget (instance_obj a) ''id'' = JStr (wi_id a)" "oget (instance_obj a) ''workflow'' = JStr (wi_workflow a)"
  "oget (instance_obj a) ''version'' = JInt (wi_version a)" "oget (instance_obj a) ''graphHash'' = JStr (wi_graphHash a)"
  "oget (instance_obj a) ''status'' = JStr (wf_status_text (wi_status a))" "oget (instance_obj a) ''input'' = wi_input a"
  "oget (instance_obj a) ''bindings'' = JObj (wi_bindings a)" "oget (instance_obj a) ''pc'' = JInt (wi_pc a)"
  "oget (instance_obj a) ''consumed'' = JArr (map JStr (wi_consumed a))"
  "oget (instance_obj a) ''history'' = JArr (map history_obj (wi_history a))"
  "oget (instance_obj a) ''output'' = wi_output a" "oget (instance_obj a) ''createdAt'' = JStr (wi_createdAt a)"
  "oget (instance_obj a) ''updatedAt'' = JStr (wi_updatedAt a)"
  by (simp_all add: instance_obj_def oget_members)

lemma instance_options:
  "oget (instance_obj a) ''waiting'' = (case wi_waiting a of None \<Rightarrow> JUndef | Some w \<Rightarrow> waiting_obj w)"
  "oget (instance_obj a) ''sleeping'' = (case wi_sleeping a of None \<Rightarrow> JUndef | Some w \<Rightarrow> sleeping_obj w)"
  "oget (instance_obj a) ''error'' = (case wi_error a of None \<Rightarrow> JUndef | Some w \<Rightarrow> error_obj w)"
  "oget (instance_obj a) ''driver'' = (case wi_driver a of None \<Rightarrow> JUndef | Some w \<Rightarrow> JObj w)"
  by (auto simp: instance_obj_def oget_members split: option.split)

lemma instance_round: "parsed (v, mdel ''_version'' (instance_obj a)) = Some (a\<lparr>wi_stamp := Some v\<rparr>)"
proof -
  have "as_optional as_nat (JInt (int v)) = Some (Some v)" by (simp add: as_optional_def as_nat_def)
  moreover have "as_list as_text (JArr (map JStr cs)) = Some cs" "as_list history_of (JArr (map history_obj hs)) = Some hs" for cs hs
    by (simp_all add: as_list_map)
  moreover have "as_optional waiting_of (case w of None \<Rightarrow> JUndef | Some x \<Rightarrow> waiting_obj x) = Some w"
    "as_optional sleeping_of (case s of None \<Rightarrow> JUndef | Some x \<Rightarrow> sleeping_obj x) = Some s"
    "as_optional error_of (case e of None \<Rightarrow> JUndef | Some x \<Rightarrow> error_obj x) = Some e"
    "as_optional as_obj (case d of None \<Rightarrow> JUndef | Some x \<Rightarrow> JObj x) = Some d" for w s e d
    by (simp_all add: as_optional_member present_members)
  ultimately show ?thesis
    by (simp add: parsed_def instance_of_def oget_mdel instance_members instance_options as_int_def)
qed

lemma parsed_stamp: "parsed (v, d) = Some a \<Longrightarrow> wi_stamp a = Some v"
  by (auto simp: parsed_def instance_of_def as_optional_def as_nat_def bind_eq_Some_conv)

section \<open>What is left\<close>

lemma left_follows: "left (node_at p) i ss \<Longrightarrow> follows p i ss"
  by (simp add: follows_def)

lemma follows_outside: "follows p i ss \<Longrightarrow> node_at p i = None \<longleftrightarrow> ss = []"
  by (cases ss) (auto simp: follows_def split: option.splits)

lemma follows_head: "follows p i (s # ss) \<Longrightarrow> node_at p i = Some n \<Longrightarrow> nd_step n = s"
  by (auto simp: follows_def)

lemma follows_choice:
  assumes "follows p i (WfChoice x c t e # ss)" "node_at p i = Some n"
  obtains a b where "nd_then n = Some a" "nd_otherwise n = Some b" "follows p a (t @ ss)" "follows p b (e @ ss)"
  using assms by (auto simp: follows_def)

lemma follows_parallel: "follows p i (WfParallel x bs # ss) \<Longrightarrow> node_at p i = Some n \<Longrightarrow> follows p (nd_next n) (concat bs @ ss)"
  by (auto simp: follows_def)

lemma follows_plain:
  assumes "follows p i (s # ss)" "node_at p i = Some n" "\<And>x c t e. s \<noteq> WfChoice x c t e" "\<And>x bs. s \<noteq> WfParallel x bs"
  shows "follows p (nd_next n) ss"
  using assms by (cases s) (auto simp: follows_def)

lemma follows_unique: "follows p i ss \<Longrightarrow> follows p i ts \<Longrightarrow> ss = ts"
proof (induction ss arbitrary: i ts rule: measure_induct_rule [where f = "size_list size"])
  case (less ss)
  show ?case
  proof (cases "node_at p i")
    case None
    with less.prems show ?thesis using follows_outside by metis
  next
    case (Some n)
    with less.prems obtain s1 r1 s2 r2 where c: "ss = s1 # r1" "ts = s2 # r2"
      using follows_outside by (metis list.exhaust option.distinct(1))
    then have s: "s1 = nd_step n" "s2 = nd_step n" using less.prems Some follows_head by metis+
    consider x cnd t e where "nd_step n = WfChoice x cnd t e" | x bs where "nd_step n = WfParallel x bs"
      | "\<And>x c t e. nd_step n \<noteq> WfChoice x c t e" "\<And>x bs. nd_step n \<noteq> WfParallel x bs"
      by (metis wf_step.exhaust)
    then show ?thesis
    proof cases
      case 1
      have "follows p (the (nd_then n)) (t @ r1)" "follows p (the (nd_then n)) (t @ r2)"
        using less.prems Some follows_choice by (metis 1 c s option.sel)+
      then have "t @ r1 = t @ r2" by (intro less.IH) (simp_all add: c s 1 size_list_append)
      then show ?thesis by (simp add: c s)
    next
      case (2 x bs)
      have "follows p (nd_next n) (concat bs @ r1)" "follows p (nd_next n) (concat bs @ r2)"
        using less.prems Some follows_parallel by (metis 2 c s)+
      then have "concat bs @ r1 = concat bs @ r2"
        using concat_size [of bs] by (intro less.IH) (simp_all add: c s 2 size_list_append)
      then show ?thesis by (simp add: c s)
    next
      case 3
      have "follows p (nd_next n) r1" "follows p (nd_next n) r2"
        using less.prems Some follows_plain 3 by (metis c s)+
      then have "r1 = r2" by (intro less.IH) (simp_all add: c s)
      then show ?thesis by (simp add: c s)
    qed
  qed
qed

text \<open>Less of the graph is left at \<open>j\<close> than at \<open>i\<close>.\<close>

definition behind :: "wf_node list \<Rightarrow> int \<Rightarrow> int \<Rightarrow> bool" where
  "behind p i j \<longleftrightarrow> (\<exists>ss ts. follows p i ss \<and> follows p j ts \<and> size_list size ts < size_list size ss)"

lemma behindI: "follows p i ss \<Longrightarrow> follows p j ts \<Longrightarrow> size_list size ts < size_list size ss \<Longrightarrow> behind p i j"
  by (auto simp: behind_def)

lemma behind_trans: "behind p i j \<Longrightarrow> behind p j k \<Longrightarrow> behind p i k"
  unfolding behind_def using follows_unique by (metis order.strict_trans)

lemma behind_irrefl: "\<not> behind p i i"
  unfolding behind_def using follows_unique by blast

section \<open>Evolution\<close>

definition pinned :: "wf_decl \<Rightarrow> wf_instance \<Rightarrow> bool" where
  "pinned decl a \<longleftrightarrow> wi_version a = wf_version decl \<and> wi_graphHash a = wf_graphHash decl"

definition same_identity :: "wf_instance \<Rightarrow> wf_instance \<Rightarrow> bool" where
  "same_identity a b \<longleftrightarrow> wi_id b = wi_id a \<and> wi_workflow b = wi_workflow a \<and> wi_version b = wi_version a \<and>
     wi_graphHash b = wi_graphHash a \<and> wi_input b = wi_input a \<and> wi_createdAt b = wi_createdAt a"

definition advanced :: "wf_node list \<Rightarrow> wf_instance \<Rightarrow> wf_instance \<Rightarrow> bool" where
  "advanced p a b \<longleftrightarrow> behind p (wi_pc a) (wi_pc b) \<or>
     wi_pc b = wi_pc a \<and> (wf_active (wi_status b) \<longrightarrow> wi_history b = wi_history a)"

definition evolves :: "wf_decl \<Rightarrow> wf_instance \<Rightarrow> wf_instance \<Rightarrow> bool" where
  "evolves decl a b \<longleftrightarrow> same_identity a b \<and>
     (\<exists>hs. wi_history b = wi_history a @ hs) \<and> (\<exists>cs. wi_consumed b = wi_consumed a @ cs) \<and>
     (\<not> wf_active (wi_status a) \<longrightarrow> render b = render a) \<and>
     (pinned decl a \<longrightarrow> advanced (program_of decl) a b)"

lemma evolves_refl: "evolves decl a a"
  by (simp add: evolves_def same_identity_def advanced_def)

lemma render_eq_status: "render b = render a \<Longrightarrow> wi_status b = wi_status a"
  by (metis render_def wf_instance.select_convs(5) wf_instance.surjective wf_instance.update_convs(15,18))

lemma evolves_trans:
  assumes "evolves decl a b" "evolves decl b c"
  shows "evolves decl a c"
proof -
  have ab: "same_identity a b" "same_identity b c" using assms by (simp_all add: evolves_def)
  then have "pinned decl b \<longleftrightarrow> pinned decl a" by (simp add: pinned_def same_identity_def)
  moreover have "advanced p a b \<Longrightarrow> advanced p b c \<Longrightarrow> advanced p a c" for p
  proof -
    assume 1: "advanced p a b" and 2: "advanced p b c"
    show "advanced p a c"
    proof (cases "behind p (wi_pc a) (wi_pc b)")
      case True
      with 2 behind_trans show ?thesis by (auto simp: advanced_def)
    next
      case False
      then have pc: "wi_pc b = wi_pc a" and h: "wf_active (wi_status b) \<longrightarrow> wi_history b = wi_history a"
        using 1 by (auto simp: advanced_def)
      have "wf_active (wi_status c) \<Longrightarrow> wf_active (wi_status b)"
        using assms(2) render_eq_status by (metis evolves_def)
      with 2 pc h show ?thesis by (auto simp: advanced_def)
    qed
  qed
  moreover have "render c = render a" if "\<not> wf_active (wi_status a)"
    using assms that render_eq_status by (metis evolves_def)
  moreover have "\<exists>hs. wi_history c = wi_history a @ hs" "\<exists>cs. wi_consumed c = wi_consumed a @ cs"
    using assms by (auto simp: evolves_def)
  moreover have "same_identity a c" using ab by (simp add: same_identity_def)
  ultimately show ?thesis using assms by (simp add: evolves_def)
qed

text \<open>A well-formed instance: its own id, no message consumed twice, and its index in the graph.\<close>

definition instance_ok :: "wf_decl \<Rightarrow> string \<Rightarrow> wf_instance \<Rightarrow> bool" where
  "instance_ok decl i a \<longleftrightarrow> wi_id a = i \<and> distinct (wi_consumed a) \<and>
     (pinned decl a \<longrightarrow> (\<exists>ss. follows (program_of decl) (wi_pc a) ss))"

lemma new_instance_ok: "instance_ok decl i (new_instance decl i input now)"
  using compile_follows [of "wf_steps decl"] by (auto simp: instance_ok_def new_instance_def program_of_def)

section \<open>Transitions\<close>

text \<open>\<open>succeeds decl a b\<close>: \<open>b\<close> may be saved as the next state of the active instance \<open>a\<close>.\<close>

definition succeeds :: "wf_decl \<Rightarrow> wf_instance \<Rightarrow> wf_instance \<Rightarrow> bool" where
  "succeeds decl a b \<longleftrightarrow> evolves decl a b \<and> instance_ok decl (wi_id a) b \<and> wi_stamp b = wi_stamp a"

lemma succeeds_stay:
  assumes "instance_ok decl (wi_id a) a" "wf_active (wi_status a)" "same_identity a b" "wi_pc b = wi_pc a"
    "wi_consumed b = wi_consumed a" "wi_history b = wi_history a \<or> (\<exists>h. wi_history b = wi_history a @ [h]) \<and> \<not> wf_active (wi_status b)"
    "wi_stamp b = wi_stamp a"
  shows "succeeds decl a b"
  using assms by (auto simp: succeeds_def evolves_def instance_ok_def advanced_def same_identity_def pinned_def)

lemma succeeds_move:
  assumes "instance_ok decl (wi_id a) a" "wf_active (wi_status a)" "same_identity a b"
    "pinned decl a \<Longrightarrow> behind (program_of decl) (wi_pc a) (wi_pc b)"
    "\<exists>cs. wi_consumed b = wi_consumed a @ cs" "distinct (wi_consumed b)" "\<exists>hs. wi_history b = wi_history a @ hs"
    "wi_stamp b = wi_stamp a"
  shows "succeeds decl a b"
proof -
  have "\<exists>ss. follows (program_of decl) (wi_pc b) ss" if "pinned decl b"
    using assms(3,4) that by (auto simp: behind_def pinned_def same_identity_def)
  with assms show ?thesis by (auto simp: succeeds_def evolves_def instance_ok_def advanced_def same_identity_def)
qed

lemma identity_updates [simp]:
  "same_identity a (finish b s now e x) \<longleftrightarrow> same_identity a b" "same_identity a (proceed b node h) \<longleftrightarrow> same_identity a b"
  "same_identity a (proceed_with b node st k now v) \<longleftrightarrow> same_identity a b"
  by (simp_all add: same_identity_def finish_def proceed_def proceed_with_def)

lemma same_identity_refl [simp]: "same_identity a a"
  by (simp add: same_identity_def)

lemma succeeds_finish:
  assumes "instance_ok decl (wi_id a) a" "wf_active (wi_status a)" "\<not> wf_active s"
  shows "succeeds decl a (finish a s now e x)" "succeeds decl a (finish (a\<lparr>wi_output := v\<rparr>) s now e x)"
  by (rule succeeds_stay, use assms in \<open>simp_all add: finish_def same_identity_def\<close>)+

lemma not_active [simp]: "\<not> wf_active WsCompleted" "\<not> wf_active WsFailed" "\<not> wf_active WsCancelled"
  and are_active [simp]: "wf_active WsRunning" "wf_active WsWaiting" "wf_active WsSleeping"
  by (simp_all add: wf_active_def)

lemma end_at_succeeds:
  assumes "instance_ok decl (wi_id a) a" "wf_active (wi_status a)" "end_at pl a fin d now e = Inr b"
  shows "succeeds decl a b"
  using assms(3) by (cases fin) (auto simp: res_simps intro: succeeds_finish assms)

text \<open>What is behind the node an instance is at.\<close>

lemma plain_behind:
  assumes "instance_ok decl (wi_id a) a" "pinned decl a" "node_at (program_of decl) (wi_pc a) = Some node"
    "\<And>x c t e. nd_step node \<noteq> WfChoice x c t e" "\<And>x bs. nd_step node \<noteq> WfParallel x bs"
  shows "behind (program_of decl) (wi_pc a) (nd_next node)"
proof -
  obtain ss where ss: "follows (program_of decl) (wi_pc a) ss" using assms(1,2) by (auto simp: instance_ok_def)
  then obtain s r where r: "ss = s # r" using follows_outside assms(3) by (cases ss) fastforce+
  then have "s = nd_step node" using follows_head ss assms(3) by metis
  then have "follows (program_of decl) (nd_next node) r" using follows_plain ss assms(3-5) r by metis
  then show ?thesis by (intro behindI [OF ss, of _ r]) (simp_all add: \<open>ss = s # r\<close>)
qed

lemma parallel_behind:
  assumes "instance_ok decl (wi_id a) a" "pinned decl a" "node_at (program_of decl) (wi_pc a) = Some node"
    "nd_step node = WfParallel x bs"
  shows "behind (program_of decl) (wi_pc a) (nd_next node)"
proof -
  obtain ss where ss: "follows (program_of decl) (wi_pc a) ss" using assms(1,2) by (auto simp: instance_ok_def)
  then obtain s r where r: "ss = s # r" using follows_outside assms(3) by (cases ss) fastforce+
  then have r: "ss = WfParallel x bs # r" using follows_head ss assms(3,4) by metis
  then have "follows (program_of decl) (nd_next node) (concat bs @ r)" using follows_parallel ss assms(3) by metis
  then show ?thesis using concat_size [of bs] by (intro behindI [OF ss, of _ "concat bs @ r"]) (simp_all add: r size_list_append)
qed

lemma choice_behind:
  assumes "instance_ok decl (wi_id a) a" "pinned decl a" "node_at (program_of decl) (wi_pc a) = Some node"
    "nd_step node = WfChoice x c t e" "(if v then nd_then node else nd_otherwise node) = Some pc"
  shows "behind (program_of decl) (wi_pc a) pc"
proof -
  obtain ss where ss: "follows (program_of decl) (wi_pc a) ss" using assms(1,2) by (auto simp: instance_ok_def)
  then obtain s r where r: "ss = s # r" using follows_outside assms(3) by (cases ss) fastforce+
  then have r: "ss = WfChoice x c t e # r" using follows_head ss assms(3,4) by metis
  obtain m n where mn: "nd_then node = Some m" "nd_otherwise node = Some n"
    "follows (program_of decl) m (t @ r)" "follows (program_of decl) n (e @ r)"
    using follows_choice [OF ss [unfolded r] assms(3)] .
  show ?thesis
  proof (cases v)
    case True
    with mn assms(5) show ?thesis by (intro behindI [OF ss, of _ "t @ r"]) (simp_all add: r size_list_append)
  next
    case False
    with mn assms(5) show ?thesis by (intro behindI [OF ss, of _ "e @ r"]) (simp_all add: r size_list_append)
  qed
qed

section \<open>One step\<close>

text \<open>An active instance at a node of its graph.\<close>

definition stands_at :: "wf_decl \<Rightarrow> wf_instance \<Rightarrow> wf_node \<Rightarrow> bool" where
  "stands_at decl a node \<longleftrightarrow> instance_ok decl (wi_id a) a \<and> wf_active (wi_status a) \<and>
     (pinned decl a \<longrightarrow> node_at (program_of decl) (wi_pc a) = Some node)"

lemma stands_at_end: "stands_at decl a node \<Longrightarrow> end_at pl a fin d now e = Inr b \<Longrightarrow> succeeds decl a b"
  by (simp add: stands_at_def end_at_succeeds)

lemma stands_at_finish: "stands_at decl a node \<Longrightarrow> \<not> wf_active s \<Longrightarrow> succeeds decl a (finish a s now e x)"
  by (simp add: stands_at_def succeeds_finish)

lemma stands_at_stay:
  assumes "stands_at decl a node" "same_identity a b" "wi_pc b = wi_pc a" "wi_consumed b = wi_consumed a"
    "wi_history b = wi_history a" "wi_stamp b = wi_stamp a"
  shows "succeeds decl a b"
  by (rule succeeds_stay) (use assms in \<open>simp_all add: stands_at_def\<close>)

lemma stands_at_next:
  assumes "stands_at decl a node" "\<And>x c t e. nd_step node \<noteq> WfChoice x c t e" "\<And>x bs. nd_step node \<noteq> WfParallel x bs"
    "same_identity a b" "wi_pc b = nd_next node" "wi_history b = wi_history a @ hs" "wi_stamp b = wi_stamp a"
    "wi_consumed b = wi_consumed a @ cs" "distinct (wi_consumed b)"
  shows "succeeds decl a b"
proof (rule succeeds_move)
  show "behind (program_of decl) (wi_pc a) (wi_pc b)" if "pinned decl a"
    using plain_behind [of decl a node] assms that by (simp add: stands_at_def)
qed (use assms in \<open>simp_all add: stands_at_def\<close>)

lemma stands_distinct: "stands_at decl a node \<Longrightarrow> distinct (wi_consumed a)"
  by (simp add: stands_at_def instance_ok_def)

lemma proceed_with_succeeds:
  assumes "stands_at decl a node" "\<And>x c t e. nd_step node \<noteq> WfChoice x c t e" "\<And>x bs. nd_step node \<noteq> WfParallel x bs"
  shows "succeeds decl a (proceed_with a node st k now v)"
  by (rule stands_at_next [OF assms, of _ "[entry_of st k now]" "[]"])
     (use stands_distinct [OF assms(1)] in \<open>simp_all add: proceed_with_def proceed_def same_identity_def\<close>)

lemma sleep_succeeds:
  assumes "stands_at decl a node" "nd_step node = WfSleep st d" "step_sleep E a node now st d = Inr (Some b)"
  shows "succeeds decl a b"
proof -
  have again: "succeeds decl a (a\<lparr>wi_status := WsSleeping, wi_sleeping := x\<rparr>)" for x
    by (rule stands_at_stay [OF assms(1)]) (simp_all add: same_identity_def)
  have awake: "succeeds decl a ((proceed a node (entry_of st ''sleep'' now))\<lparr>wi_sleeping := None\<rparr>)"
    by (rule stands_at_next [OF assms(1), of _ "[entry_of st ''sleep'' now]" "[]"])
       (use stands_distinct [OF assms(1)] in \<open>simp_all add: assms(2) proceed_def same_identity_def\<close>)
  show ?thesis
    using assms(3) by (auto simp: step_sleep_def res_simps again awake split: wf_status.splits option.splits if_splits)
qed

lemma register_succeeds:
  assumes "stands_at decl a node" "register_wait E t d a now st ch m key tm w = (Inr (Some b), w')"
  shows "succeeds decl a b"
proof -
  have "succeeds decl a (a\<lparr>wi_status := WsWaiting, wi_waiting := x\<rparr>)" for x
    by (rule stands_at_stay [OF assms(1)]) (simp_all add: same_identity_def)
  with assms(2) show ?thesis unfolding register_wait_def by (auto simp: eff_simps)
qed

lemma consume_succeeds:
  assumes "stands_at decl a node" "nd_step node = WfWait st ch m co tm" "fst sig \<notin> set (wi_consumed a)"
  shows "succeeds decl a (consume a node now st' sig)"
  by (rule stands_at_next [OF assms(1), of _ "[entry_of st' ''signal'' now]" "[fst sig]"])
     (use stands_distinct [OF assms(1)] assms(2,3) in \<open>simp_all add: consume_def proceed_with_def proceed_def same_identity_def\<close>)

lemma resume_succeeds:
  assumes "stands_at decl a node" "nd_step node = WfWait st ch m co tm"
    "resume_wait E t d a node now st' m' key tm' due w = (Inr (Some b), w')"
  shows "succeeds decl a b"
proof -
  obtain inbox w1 where run: "(case (List.find (\<lambda>x. fst x \<notin> set (wi_consumed a)) (signals_of inbox), due, tm') of
          (Some sig, _, _) \<Rightarrow> eff_bind (listMutate E t (waitersId d st' m' key) (without_id (wi_id a))) (\<lambda>_. eff_ret (Some (consume a node now st' sig)))
        | (None, Some dt, Some (duration, fin)) \<Rightarrow>
            if dt \<noteq> [] \<and> dt \<le> now then
              eff_bind (listMutate E t (waitersId d st' m' key) (without_id (wi_id a))) (\<lambda>_. eff_bind (eff_of (end_at (en_platform E) a fin d now (entry_of st' ''timeout'' now))) (\<lambda>i'.
                eff_ret (Some i')))
            else eff_ret None
        | _ \<Rightarrow> eff_ret None) w1 = (Inr (Some b), w')"
    using assms(3) unfolding resume_wait_def Let_def by (auto simp only: eff_bind_iff)
  show ?thesis
  proof (cases "List.find (\<lambda>x. fst x \<notin> set (wi_consumed a)) (signals_of inbox)")
    case (Some sig)
    then have "fst sig \<notin> set (wi_consumed a)" by (auto simp: find_Some_iff)
    with run Some show ?thesis using consume_succeeds [OF assms(1,2)] by (auto simp: eff_simps)
  next
    case None
    with run show ?thesis
      by (auto simp: eff_simps intro: stands_at_end [OF assms(1)] split: option.splits prod.splits if_splits)
  qed
qed

lemma wait_succeeds:
  assumes "stands_at decl a node" "nd_step node = WfWait st ch m co tm"
    "step_wait E t d a node now st ch m co tm w = (Inr (Some b), w')"
  shows "succeeds decl a b"
proof -
  obtain key w1 where "(case (wi_status a, wi_waiting a) of
         (WsWaiting, Some wt) \<Rightarrow>
           if ww_step wt \<noteq> st then register_wait E t d a now st ch m key tm
           else resume_wait E t d a node now st m key tm (ww_due wt)
       | _ \<Rightarrow> register_wait E t d a now st ch m key tm) w1 = (Inr (Some b), w')"
    using assms(3) unfolding step_wait_def by (auto simp only: eff_bind_iff)
  then show ?thesis
    using register_succeeds [OF assms(1)] resume_succeeds [OF assms(1,2)]
    by (auto split: wf_status.splits option.splits if_splits)
qed

lemma map_finished_succeeds:
  assumes "stands_at decl a node" "nd_step node = WfMap st bi src k mx c" "map_finished a node st' now r = Some b"
  shows "succeeds decl a b"
  using assms(3)
  by (auto simp: map_finished_def assms(2) intro!: stands_at_finish [OF assms(1)] proceed_with_succeeds [OF assms(1)]
      split: map_result.splits if_splits)

lemma call_failed_succeeds:
  assumes "stands_at decl a node" "call_failed pl d a c now e = Inr b"
  shows "succeeds decl a b"
  using assms(2)
  by (auto simp: call_failed_def intro: stands_at_end [OF assms(1)] stands_at_finish [OF assms(1)]
      split: exn.splits if_splits option.splits)

lemma call_succeeds:
  assumes "stands_at decl a node" "nd_step node = WfCall c" "step_call E H t d a node now c' w = (Inr b, w')"
  shows "succeeds decl a b"
proof -
  obtain r w1 where run: "(case r of Inl e \<Rightarrow> eff_of (call_failed (en_platform E) d a c' now e)
        | Inr v \<Rightarrow> eff_bind (crash_point H (wc_id c')) (\<lambda>_.
            eff_ret (proceed_with a node (wc_id c') ''call'' now v))) w1 = (Inr b, w')"
    using assms(3) unfolding step_call_def Let_def case_prod_beta by (auto simp only: eff_bind_iff)
  show ?thesis
  proof (cases r)
    case (Inl e)
    with run show ?thesis using call_failed_succeeds [OF assms(1)] by (auto simp: eff_simps)
  next
    case (Inr v)
    with run show ?thesis using proceed_with_succeeds [OF assms(1)] by (auto simp: eff_simps assms(2))
  qed
qed

lemma choice_succeeds:
  assumes "stands_at decl a node" "nd_step node = WfChoice st' cnd t e" "step_choice pl a node now st cnd = Inr b"
  shows "succeeds decl a b"
proof -
  obtain v pc where b: "(if truthy v then nd_then node else nd_otherwise node) = Some pc"
    "b = a\<lparr>wi_pc := pc, wi_history := wi_history a @ [entry_of st ''choice'' now]\<rparr>"
    using assms(3) by (auto simp: step_choice_def res_simps some_or_def split: option.splits)
  have "behind (program_of decl) (wi_pc a) pc" if "pinned decl a"
    using choice_behind [OF _ that _ assms(2) b(1)] assms(1) that by (simp add: stands_at_def)
  then show ?thesis
    using assms(1) by (intro succeeds_move) (simp_all add: b(2) stands_at_def instance_ok_def same_identity_def)
qed

lemma take_step_succeeds:
  assumes "stands_at decl a node" "take_step E H t decl a node now (nd_step node) w = (Inr (Some b), w')"
  shows "succeeds decl a b"
proof (cases "nd_step node")
  case (WfCall c)
  with assms show ?thesis
    by (auto simp: eff_simps intro: call_succeeds)
next
  case (WfMap st bi src k mx c)
  with assms show ?thesis
    by (auto simp: step_map_def eff_simps intro: map_finished_succeeds [OF _ _ sym] stands_at_finish split: option.splits prod.splits)
next
  case (WfParallel x bs)
  with assms(2) have b: "b = a\<lparr>wi_pc := nd_next node\<rparr>" by (simp add: eff_simps)
  have "behind (program_of decl) (wi_pc a) (nd_next node)" if "pinned decl a"
    using parallel_behind [OF _ that _ WfParallel] assms(1) that by (simp add: stands_at_def)
  then show ?thesis
    using assms(1) by (intro succeeds_move) (simp_all add: b stands_at_def instance_ok_def same_identity_def)
next
  case (WfReturn e)
  with assms show ?thesis by (auto simp: eff_simps simp del: end_at.simps intro: stands_at_end)
qed (use assms in \<open>auto simp: eff_simps intro: sleep_succeeds wait_succeeds choice_succeeds stands_at_end stands_at_finish\<close>)

end
