(* ===== verification/Engine_Keeping.thy ===== *)
theory Engine_Keeping
  imports Engine_Correct Engine_Reads Triples
begin

text \<open>
  What the operations of the engine leave as it is: an assertion about the store that survives the
  other callers, the reservation of sequence numbers and the commit of a plan survives every call.
  Commits touch no document but the revisions of resources.
\<close>

section \<open>Kept assertions\<close>

definition keeping :: "(memory \<Rightarrow> bool) \<Rightarrow> world \<Rightarrow> world \<Rightarrow> bool" where
  "keeping P w w' \<longleftrightarrow> (P (wo_store w) \<longrightarrow> P (wo_store w'))"

interpretation keeping: frame "keeping P" for P
  by unfold_locales (auto simp: keeping_def)

lemma keeping_triple: "keeps (keeping P) m \<Longrightarrow> triple P m (\<lambda>_. P) P"
  unfolding triple_def keeps_def keeping_def by (fastforce split: sum.splits)

lemma triple_keeping: "triple P m (\<lambda>_. P) P \<Longrightarrow> keeps (keeping P) m"
  unfolding triple_def keeps_def keeping_def by (metis prod.collapse sum.case_eq_if)

lemma keeping_env: "keeps (keeping P) (eff_env f)"
  by (simp add: keeps_def keeping_def eff_env_def)

lemma keeping_catch: "keeps (keeping P) m \<Longrightarrow> (\<And>e. keeps (keeping P) (h e)) \<Longrightarrow> keeps (keeping P) (eff_catch m h)"
  unfolding keeps_def eff_catch_def keeping_def by (fastforce split: prod.splits sum.splits)

definition plan_stable :: "env \<Rightarrow> string \<Rightarrow> (memory \<Rightarrow> bool) \<Rightarrow> bool" where
  "plan_stable E t P \<longleftrightarrow> (\<forall>n m. P m \<longrightarrow> P (en_others E n m)) \<and>
     (\<forall>m k d e m'. mem_putDocument m t SEQUENCE_KIND k d e = Inr m' \<longrightarrow> P m \<longrightarrow> P m')"

definition row_plan :: "string \<Rightarrow> commit_plan \<Rightarrow> bool" where
  "row_plan t p \<longleftrightarrow> cp_completion p = None \<and> cp_tenant p = t"

definition commit_stable :: "string \<Rightarrow> (memory \<Rightarrow> bool) \<Rightarrow> bool" where
  "commit_stable t P \<longleftrightarrow> (\<forall>m p m'. row_plan t p \<longrightarrow> mem_commit m p = (None, m') \<longrightarrow> P m \<longrightarrow> P m')"

section \<open>Planning\<close>

lemma keeping_reading:
  assumes "plan_stable E t P" "keeps (reading E) m"
  shows "keeps (keeping P) m"
  unfolding keeps_def keeping_def
proof (intro allI impI)
  fix w :: world
  assume P: "P (wo_store w)"
  have "(others_act E)\<^sup>*\<^sup>* (wo_store w) (wo_store (snd (m w)))"
    using assms(2) unfolding keeps_def reading_def by blast
  then show "P (wo_store (snd (m w)))"
    by (induction rule: rtranclp_induct) (use assms(1) P in \<open>auto simp: others_act_def plan_stable_def\<close>)
qed

lemma keeping_sequence_write:
  assumes "plan_stable E t P"
  shows "keeps (keeping P) (storage_write E (\<lambda>m. mem_putDocument m t SEQUENCE_KIND k d e))"
  using assms by (auto simp: keeps_def keeping_def plan_stable_def storage_write_def storage_def Let_def split: sum.splits)

lemma keeping_reserve: "plan_stable E t P \<Longrightarrow> keeps (keeping P) (reserve n E t sq k)"
  by (induction n) (auto intro!: keeping.keeps_fail keeping.keeps_bind keeping.keeps_option keeping.keeps_exit keeping.keeps_sum
      keeping.keeps_if keeping.keeps_ret keeping_reading [OF _ keeps_read(1)] keeping_sequence_write)

lemma keeping_allocate: "plan_stable E t P \<Longrightarrow> keeps (keeping P) (allocate_sequences E r t fs a)"
  by (induction fs arbitrary: a) (auto intro!: keeping.keeps_bind keeping.keeps_ret keeping_reserve split: option.splits)

lemma keeping_create: "plan_stable E (cx_tenant ctx) P \<Longrightarrow> keeps (keeping P) (create E r body ctx)"
  unfolding create_def
  by (intro keeping.keeps_bind keeping.keeps_of keeping.keeps_ret keeping_env keeping_allocate
      keeping_reading [OF _ keeps_read(2)] keeping_reading [OF _ keeps_loadReferences])

lemma keeping_planFor: "plan_stable E (cx_tenant ctx) P \<Longrightarrow> keeps (keeping P) (planFor E opId body ctx preview)"
  unfolding planFor_def
  by (intro keeping.keeps_option keeping.keeps_fail keeping.keeps_pair keeping.keeps_let keeping.keeps_if keeping_create
      keeping_reading [OF _ keeps_update] keeping_reading [OF _ keeps_deleteOrRestore] keeping_reading [OF _ keeps_transition])

lemma triple_planFor:
  assumes "plan_stable E (cx_tenant ctx) P"
  shows "triple P (planFor E opId body ctx preview) (\<lambda>p s. P s \<and> row_plan (cx_tenant ctx) p) P"
proof -
  have "row_plan (cx_tenant ctx) p" if "planFor E opId body ctx preview w = (Inr p, w')" for p w w'
    using planFor_plan(1,3) [OF that] by (simp add: row_plan_def)
  with keeping_triple [OF keeping_planFor [OF assms, of opId body preview]] show ?thesis
    unfolding triple_def by (fastforce split: sum.splits)
qed

section \<open>Commits\<close>

lemma commit_apply_documents:
  assumes "plain_text (cp_tenant p)" "plain_text t" "plain_text k" "k \<noteq> RESOURCE_REVISION"
  shows "stored_doc (commit_apply m p) t k i = stored_doc m t k i"
proof -
  have "plain_text RESOURCE_REVISION" by (simp add: RESOURCE_REVISION_def plain_text_def)
  then have "key3 t k i \<noteq> key3 u RESOURCE_REVISION j" if "plain_text u" for u j
    using key3_kind [OF assms(2,3) that] assms(4) by blast
  moreover have "plain_text ([] :: string)" by (simp add: plain_text_def)
  ultimately have "key3 t k i \<noteq> revision_key p" using assms(1) by (simp add: revision_key_def)
  then show ?thesis
    by (simp add: commit_apply_def apply_common_def apply_record_def Let_def stored_doc_def getDocument_def)
qed

lemma commitSync_documents:
  assumes "commitSync m p = (None, m')" "cp_completion p = None" "plain_text (cp_tenant p)" "plain_text t" "plain_text k"
    "k \<noteq> RESOURCE_REVISION"
  shows "stored_doc m' t k i = stored_doc m t k i"
  using assms(1,2) commit_apply_documents [OF assms(3-6)] by (auto simp: commitSync_ok completion_step_def)

lemma mem_commit_documents:
  assumes "mem_commit m p = (None, m')" "row_plan t' p" "plain_text t'" "plain_text t" "plain_text k" "k \<noteq> RESOURCE_REVISION"
  shows "stored_doc m' t k i = stored_doc m t k i"
  by (rule commitSync_documents [of m p]) (use assms in \<open>auto simp: row_plan_def mem_commit_ok\<close>)

lemma triple_commit_plan:
  assumes "plan_stable E t P" "commit_stable t P" "row_plan t p"
  shows "triple P (commit_plan_eff E rc p) (\<lambda>_. P) P"
proof -
  have rp: "row_plan t p'" if "with_receipt E rc p = Inr p'" for p'
    using that assms(3) by (auto simp: with_receipt_def row_plan_def res_simps split: option.splits)
  have "triple P (storage_commit E (\<lambda>m. mem_commit m p')) (\<lambda>_. P) P" if "row_plan t p'" for p'
    unfolding triple_def
  proof (intro allI impI)
    fix w r w'
    assume P: "P (wo_store w)" and run: "storage_commit E (\<lambda>m. mem_commit m p') w = (r, w')"
    have now: "P (world_now E w)" using assms(1) P by (simp add: plan_stable_def world_now_def)
    obtain e m' where m: "mem_commit (world_now E w) p' = (e, m')" by fastforce
    have st: "wo_store w' = m'" using run m by (auto simp: storage_commit_def storage_def Let_def world_now_def split: option.splits)
    have "P m'"
    proof (cases e)
      case None
      with m now assms(2) that show ?thesis unfolding commit_stable_def by blast
    next
      case (Some x)
      with m mem_commit_fails now show ?thesis by fastforce
    qed
    with st show "case r of Inr x \<Rightarrow> P (wo_store w') | Inl e \<Rightarrow> P (wo_store w')" by (simp split: sum.splits)
  qed
  note c = this
  have b: "triple (\<lambda>s. P s \<and> row_plan t p') (eff_bind (storage_commit E (\<lambda>m. mem_commit m p')) (\<lambda>_. eff_of (resultOf E p))) (\<lambda>_. P) P" for p'
    by (intro triple_pure triple_bind [OF c] triple_of) simp_all
  show ?thesis
    unfolding commit_plan_eff_def
    by (rule triple_bind [OF triple_of b]) (use rp in auto)
qed

section \<open>Whole calls\<close>

lemma reading_keep_allowed: "keeps (reading E) (keep_allowed E opId r ctx xs)"
  by (induction xs) (auto intro!: keeps_intros)

lemma reading_get: "keeps (reading E) (get E r i ctx)"
  unfolding get_def by (intro keeps_intros)

lemma reading_find: "keeps (reading E) (find_one E r q body ctx)"
  unfolding find_one_def by (intro keeps_intros)

lemma reading_list: "keeps (reading E) (list_many E r opId q body ctx)"
  unfolding list_many_def Let_def readable_items_def by (intro keeps_intros reading_keep_allowed)

lemma reading_find_receipt: "keeps (reading E) (find_receipt E ctx opn key)"
  unfolding find_receipt_def by (intro keeps_intros)

lemma reading_replay: "keeps (reading E) (replay E opn ctx h rc)"
  unfolding replay_def by (intro keeps_intros)

definition linked_keeping :: "(world \<Rightarrow> world \<Rightarrow> bool) \<Rightarrow> linked \<Rightarrow> bool" where
  "linked_keeping R L \<longleftrightarrow>
     (\<forall>f h a b c. li_feature L f = Some h \<longrightarrow> keeps R (h a b c)) \<and>
     (\<forall>f h a b c. li_function L f = Some h \<longrightarrow> keeps R (h a b c)) \<and>
     (\<forall>f h a b. li_readModel L f = Some h \<longrightarrow> keeps R (h a b)) \<and>
     (\<forall>a b c d. keeps R (li_blob L a b c d))"

lemma linked_keeping_mono:
  "linked_keeping R L \<Longrightarrow> (\<And>w w'. R w w' \<Longrightarrow> S w w') \<Longrightarrow> linked_keeping S L"
  unfolding linked_keeping_def keeps_def by (auto 4 0)

text \<open>An assertion that every call of a tenant keeps.\<close>

definition call_stable :: "env \<Rightarrow> linked \<Rightarrow> string \<Rightarrow> (memory \<Rightarrow> bool) \<Rightarrow> bool" where
  "call_stable E L t P \<longleftrightarrow> plan_stable E t P \<and> commit_stable t P \<and> linked_keeping (keeping P) L"

lemmas keeping_rules = keeping.keeps_ret keeping.keeps_fail keeping.keeps_of keeping.keeps_guard keeping.keeps_bind
  keeping.keeps_if keeping.keeps_option keeping.keeps_pair keeping.keeps_let keeping_env keeping_catch

lemma keeping_withIdempotency:
  assumes "plan_stable E t P" "\<And>rc. keeps (keeping P) (run rc)"
  shows "keeps (keeping P) (withIdempotency E opn body ctx run explicit)"
  unfolding withIdempotency_def
  by (intro keeping_rules assms keeping_reading [OF assms(1) reading_find_receipt] keeping_reading [OF assms(1) reading_replay])

lemma keeping_planned_commit:
  assumes "plan_stable E t P" "commit_stable t P" "keeps (keeping P) m" "\<And>w p w'. m w = (Inr p, w') \<Longrightarrow> row_plan t p"
  shows "keeps (keeping P) (eff_bind m (commit_plan_eff E rc))"
proof (rule triple_keeping)
  have "triple P m (\<lambda>p s. P s \<and> row_plan t p) P"
    using keeping_triple [OF assms(3)] assms(4) unfolding triple_def by (fastforce split: sum.splits)
  then show "triple P (eff_bind m (commit_plan_eff E rc)) (\<lambda>_. P) P"
    by (rule triple_bind) (intro triple_pure triple_commit_plan [OF assms(1,2)])
qed

lemma keeping_authorizedPlan:
  assumes "plan_stable E (cx_tenant ctx) P"
  shows "keeps (keeping P) (authorizedPlan E opId body ctx)"
  unfolding authorizedPlan_def
  by (intro keeping_rules keeping_planFor keeping_reading [OF assms] assms keeps_writesFenced(1) keeps_suppression_guard(1) keeps_gate_check(1))

lemma keeping_mutate:
  assumes "plan_stable E (cx_tenant ctx) P" "commit_stable (cx_tenant ctx) P"
  shows "keeps (keeping P) (mutate E opId body ctx rc)"
  unfolding mutate_def
proof (rule keeping_planned_commit [OF assms keeping_authorizedPlan [OF assms(1)]])
  fix w p w'
  assume "authorizedPlan E opId body ctx w = (Inr p, w')"
  then obtain w1 w2 where "planFor E opId body ctx False w1 = (Inr p, w2)"
    by (auto simp: authorizedPlan_def eff_simps)
  then show "row_plan (cx_tenant ctx) p" using planFor_plan(1,3) by (simp add: row_plan_def)
qed

lemma keeping_move:
  assumes "plan_stable E (cx_tenant ctx) P" "commit_stable (cx_tenant ctx) P"
  shows "keeps (keeping P) (eff_bind (move E r body ctx) (commit_plan_eff E rc))"
  unfolding move_def
  by (rule keeping_planned_commit [OF assms keeping_planFor [OF assms(1)]]) (use planFor_plan(1,3) in \<open>simp add: row_plan_def\<close>)

lemma keeping_eff_obj: "keeps (keeping P) m \<Longrightarrow> keeps (keeping P) (eff_obj m)"
  unfolding eff_obj_def by (intro keeping_rules)

lemma keeping_operation:
  assumes "call_stable E L (cx_tenant ctx) P"
  shows "keeps (keeping P) (operation E L opId op r body ctx)"
proof -
  have P: "plan_stable E (cx_tenant ctx) P" "commit_stable (cx_tenant ctx) P" "linked_keeping (keeping P) L"
    using assms by (simp_all add: call_stable_def)
  have blob: "keeps (keeping P) (li_blob L k r body ctx)" for k using P(3) by (simp add: linked_keeping_def)
  show ?thesis
    unfolding operation_def Let_def query_name_def
    by (intro keeping_rules keeping_eff_obj keeping_withIdempotency [OF P(1)] keeping_mutate keeping_move P blob
        keeping_reading [OF P(1)] reading_get reading_find reading_list keeps_read(2))
qed

lemma keeping_project: "keeps (keeping P) m \<Longrightarrow> keeps (keeping P) (eff_project f m)"
  unfolding eff_project_def by (intro keeping_rules)

lemma keeping_checked: "keeps (keeping P) m \<Longrightarrow> keeps (keeping P) (checked c m)"
  unfolding checked_def by (intro keeping_rules)

lemma keeping_scoped:
  assumes "call_stable E L (cx_tenant ctx) P"
  shows "keeps (keeping P) (scopedOperation E L s op r body ctx)"
proof -
  have P: "plan_stable E (cx_tenant ctx) P" "commit_stable (cx_tenant ctx) P"
    using assms by (simp_all add: call_stable_def)
  show ?thesis
    unfolding scopedOperation_def Let_def query_name_def
    by (intro keeping_rules keeping_project keeping_checked keeping_eff_obj keeping_withIdempotency [OF P(1)] keeping_mutate P
        keeping_operation [OF assms] keeping_reading [OF P(1)] reading_get reading_find reading_list)
qed

lemma keeping_call:
  assumes "call_stable E L (cx_tenant ctx) P"
  shows "keeps (keeping P) (call E L pub access opId input ctx)"
proof -
  have P: "plan_stable E (cx_tenant ctx) P" "linked_keeping (keeping P) L" using assms by (simp_all add: call_stable_def)
  have resource: "keeps (keeping P) (resource_program E L opId op r body ctx)" for op r body
    unfolding resource_program_def
    by (intro keeping_rules keeping_scoped keeping_operation assms)
  have "keeps (keeping P) (program E L opId input ctx)"
    unfolding program_def Let_def
    by (intro keeping_rules resource keeping_withIdempotency [OF P(1)])
      (use P(2) in \<open>auto simp: linked_keeping_def\<close>)
  then show ?thesis
    unfolding keeps_def keeping_def call_def by (auto split: option.splits)
qed

end
