(* ===== verification/Engine_Frame.thy ===== *)
theory Engine_Frame
  imports Engine_Keeping Store_Frame
begin

text \<open>
  A component whose invariant and preorder look at documents of one kind only: calls of the engine keep
  them, since plans write resources, sequences and revisions, as long as the other callers and the linked
  code do.
\<close>

definition others_move :: "(memory \<Rightarrow> bool) \<Rightarrow> (memory \<Rightarrow> memory \<Rightarrow> bool) \<Rightarrow> env \<Rightarrow> bool" where
  "others_move S R E \<longleftrightarrow> (\<forall>n m. S m \<longrightarrow> R m (en_others E n m))"

locale kind_frame = store_frame +
  fixes kind :: string
  assumes plain_kind: "plain_text kind"
    and engine_kinds: "kind \<noteq> SEQUENCE_KIND" "kind \<noteq> RESOURCE_REVISION"
    and same_documents: "(\<And>t i. plain_text t \<Longrightarrow> stored_doc m' t kind i = stored_doc m t kind i) \<Longrightarrow> R m m'"
begin

lemma keeps_env_any: "keeps (moving S R) (eff_env f)"
  by (simp add: keeps_def moving_def eff_env_def)

lemma keeps_catch: "keeps (moving S R) m \<Longrightarrow> (\<And>e. keeps (moving S R) (h e)) \<Longrightarrow> keeps (moving S R) (eff_catch m h)"
  unfolding keeps_def eff_catch_def moving_def using trans sound by (fastforce split: prod.splits sum.splits)

lemma keeps_read_any: "others_move S R E \<Longrightarrow> keeps (moving S R) (storage_read E f)"
  by (auto simp: keeps_def moving_def storage_read_def storage_def Let_def others_move_def)

lemma keeps_write_if:
  assumes "others_move S R E" "\<And>m m'. S m \<Longrightarrow> f m = Inr m' \<Longrightarrow> R m m'"
  shows "keeps (moving S R) (storage_write E f)"
proof -
  have "R (wo_store w) (wo_store (snd (storage_write E f w)))" if "S (wo_store w)" for w
  proof -
    let ?m = "en_others E (wo_tick w) (wo_store w)"
    have 1: "R (wo_store w) ?m" using assms(1) that by (simp add: others_move_def)
    show ?thesis
    proof (cases "f ?m")
      case (Inl e)
      with 1 show ?thesis by (simp add: storage_write_def storage_def Let_def)
    next
      case (Inr m')
      then have "R ?m m'" using assms(2) sound [OF that 1] by blast
      with 1 Inr trans show ?thesis by (auto simp: storage_write_def storage_def Let_def)
    qed
  qed
  then show ?thesis by (simp add: keeps_def moving_def)
qed

lemma other_kind:
  assumes "mem_putDocument m t k i d e = Inr m'" "plain_text t" "plain_text k" "k \<noteq> kind"
  shows "R m m'"
proof (rule same_documents)
  fix u j
  assume "plain_text u"
  then have "key3 u kind j \<noteq> key3 t k i" using key3_kind [OF _ plain_kind assms(2,3)] assms(4) by blast
  then show "stored_doc m' u kind j = stored_doc m u kind j" by (rule doc_elsewhere [OF assms(1)])
qed

lemma committed:
  assumes "row_plan t p" "mem_commit m p = (None, m')" "plain_text t"
  shows "R m m'"
  using mem_commit_documents [OF assms(2,1,3) _ plain_kind engine_kinds(2)] by (rule same_documents)

lemma engine_stable:
  assumes "others_move S R E" "linked_keeping (moving S R) L" "plain_text t"
  shows "call_stable E L t (anywhere_by S R m0)"
proof -
  have step: "anywhere_by S R m0 m \<Longrightarrow> R m m' \<Longrightarrow> anywhere_by S R m0 m'" for m m'
    by (rule reached_lasting [OF lasting_by_True])
  have others: "anywhere_by S R m0 m \<Longrightarrow> R m (en_others E n m)" for n m
    using assms(1) by (simp add: others_move_def reached_by_def)
  have "plain_text SEQUENCE_KIND" by (simp add: SEQUENCE_KIND_def plain_text_def)
  then have seq: "R m m'" if "mem_putDocument m t SEQUENCE_KIND k d e = Inr m'" for m m' k d e
    using other_kind [OF that assms(3)] engine_kinds(1) by metis
  have plan: "plan_stable E t (anywhere_by S R m0)"
    unfolding plan_stable_def by (intro conjI allI impI) (rule step, assumption, erule others, erule step, erule seq)
  have commit: "commit_stable t (anywhere_by S R m0)"
    unfolding commit_stable_def by (intro allI impI) (erule step, erule committed, assumption, rule assms)
  have frame: "keeping (anywhere_by S R m0) w w'" if "moving S R w w'" for w w'
    unfolding keeping_def
  proof
    assume P: "anywhere_by S R m0 (wo_store w)"
    then have "R (wo_store w) (wo_store w')" using that by (simp add: moving_def reached_by_def)
    with P show "anywhere_by S R m0 (wo_store w')" by (rule step)
  qed
  have "linked_keeping (keeping (anywhere_by S R m0)) L" by (rule linked_keeping_mono [OF assms(2)]) (rule frame)
  with plan commit show ?thesis by (simp add: call_stable_def)
qed

lemma keeps_call:
  assumes "others_move S R E" "linked_keeping (moving S R) L" "plain_text (cx_tenant ctx)"
  shows "keeps (moving S R) (call E L pub access opId input ctx)"
proof -
  have "keeps (keeping (anywhere_by S R m0)) (call E L pub access opId input ctx)" for m0
    by (rule keeping_call [OF engine_stable [OF assms]])
  then show ?thesis unfolding keeps_def keeping_def moving_def reached_by_def by (metis refl)
qed

end

end
