(* ===== verification/Workflow_Correct.thy ===== *)
theory Workflow_Correct
  imports Workflow_Evolves Engine_Frame
begin

text \<open>
  The store of workflow documents under all operations of the executor, with other callers acting in
  between: an instance is only replaced by one it may evolve into. Every operation keeps that relation;
  the operations that write instances do so because they write on condition of the version they read.
\<close>

section \<open>Sound stores and their steps\<close>

definition plain_name :: "string \<Rightarrow> bool" where
  "plain_name s \<longleftrightarrow> CHR '':'' \<notin> set s"

definition plain_id :: "string \<Rightarrow> bool" where
  "plain_id i \<longleftrightarrow> plain_name i \<and> i \<noteq> ''active''"

definition host_ok :: "wf_host \<Rightarrow> bool" where
  "host_ok H \<longleftrightarrow> (\<forall>d\<in>set (wh_workflows H). plain_name (wf_name d)) \<and> distinct (map wf_name (wh_workflows H)) \<and>
     (\<forall>n s. plain_id (wh_nextId H n s))"

definition slot :: "memory \<Rightarrow> string \<Rightarrow> wf_decl \<Rightarrow> string \<Rightarrow> (nat \<times> obj) option" where
  "slot m t decl i = stored_doc m t WORKFLOW_KIND (wf_docId decl i)"

definition slot_ok :: "wf_decl \<Rightarrow> string \<Rightarrow> nat \<times> obj \<Rightarrow> bool" where
  "slot_ok decl i x \<longleftrightarrow> (\<forall>b. parsed x = Some b \<longrightarrow> plain_id i \<and> instance_ok decl i b)"

definition slot_step :: "wf_decl \<Rightarrow> string \<Rightarrow> (nat \<times> obj) option \<Rightarrow> (nat \<times> obj) option \<Rightarrow> bool" where
  "slot_step decl i x x' \<longleftrightarrow> x' = x \<or>
     (\<exists>y'. x' = Some y' \<and> slot_ok decl i y' \<and> (\<forall>y. x = Some y \<longrightarrow> fst y < fst y' \<and>
        (\<forall>a. parsed y = Some a \<longrightarrow> (\<exists>b. parsed y' = Some b \<and> evolves decl a b))))"

definition wf_rel :: "wf_host \<Rightarrow> memory \<Rightarrow> memory \<Rightarrow> bool" where
  "wf_rel H m m' \<longleftrightarrow> (\<forall>t decl i. plain_text t \<longrightarrow> decl \<in> set (wh_workflows H) \<longrightarrow>
     slot_step decl i (slot m t decl i) (slot m' t decl i))"

definition wf_sound :: "wf_host \<Rightarrow> memory \<Rightarrow> bool" where
  "wf_sound H m \<longleftrightarrow> (\<forall>t decl i x. plain_text t \<longrightarrow> decl \<in> set (wh_workflows H) \<longrightarrow> slot m t decl i = Some x \<longrightarrow> slot_ok decl i x)"

lemma slot_step_refl [simp]: "slot_step decl i x x"
  by (simp add: slot_step_def)

lemma slot_step_trans:
  assumes "slot_step decl i x y" "slot_step decl i y z"
  shows "slot_step decl i x z"
proof -
  consider "y = x" | "z = y" | u v where "y = Some u" "z = Some v" "slot_ok decl i v"
    "\<forall>s. x = Some s \<longrightarrow> fst s < fst u \<and> (\<forall>a. parsed s = Some a \<longrightarrow> (\<exists>b. parsed u = Some b \<and> evolves decl a b))"
    "fst u < fst v" "\<forall>a. parsed u = Some a \<longrightarrow> (\<exists>b. parsed v = Some b \<and> evolves decl a b)"
    using assms unfolding slot_step_def by blast
  then show ?thesis
  proof cases
    case 3
    have "fst s < fst v \<and> (\<forall>a. parsed s = Some a \<longrightarrow> (\<exists>b. parsed v = Some b \<and> evolves decl a b))" if "x = Some s" for s
    proof -
      have s: "fst s < fst u" "\<forall>a. parsed s = Some a \<longrightarrow> (\<exists>b. parsed u = Some b \<and> evolves decl a b)" using 3(4) that by auto
      have "fst s < fst v" using s(1) 3(5) by simp
      with s(2) 3(6) evolves_trans show ?thesis by fast
    qed
    with 3(2,3) show ?thesis unfolding slot_step_def by blast
  qed (use assms in simp_all)
qed

lemma wf_rel_refl [simp]: "wf_rel H m m"
  by (simp add: wf_rel_def)

lemma wf_rel_trans: "wf_rel H a b \<Longrightarrow> wf_rel H b c \<Longrightarrow> wf_rel H a c"
  unfolding wf_rel_def using slot_step_trans by blast

lemma wf_rel_sound: "wf_sound H m \<Longrightarrow> wf_rel H m m' \<Longrightarrow> wf_sound H m'"
  unfolding wf_rel_def wf_sound_def slot_step_def by (metis option.sel)

interpretation wfs: store_frame "wf_sound H" "wf_rel H" for H
  by unfold_locales (auto intro: wf_rel_trans wf_rel_sound)

abbreviation wf_frame :: "wf_host \<Rightarrow> world \<Rightarrow> world \<Rightarrow> bool" where
  "wf_frame H \<equiv> moving (wf_sound H) (wf_rel H)"

interpretation wfl: frame "wf_frame H" for H
  by (rule wfs.moving_frame)

text \<open>The assertions of the triples: a sound store, reached from \<open>m0\<close>, and what is known besides.\<close>

abbreviation lasting :: "wf_host \<Rightarrow> (memory \<Rightarrow> bool) \<Rightarrow> bool" where
  "lasting H \<equiv> lasting_by (wf_sound H) (wf_rel H)"

abbreviation reached :: "wf_host \<Rightarrow> memory \<Rightarrow> (memory \<Rightarrow> bool) \<Rightarrow> memory \<Rightarrow> bool" where
  "reached H m0 P \<equiv> reached_by (wf_sound H) (wf_rel H) m0 P"

abbreviation anywhere :: "wf_host \<Rightarrow> memory \<Rightarrow> memory \<Rightarrow> bool" where
  "anywhere H m0 \<equiv> reached H m0 (\<lambda>_. True)"

lemmas reached_lasting = wfs.reached_lasting
lemmas reached_anywhere = reached_by_anywhere

text \<open>
  What the surroundings have to keep: the other callers, and the code that is linked into the engine
  (features, functions, read models, blobs), which activities run.
\<close>

definition wf_env :: "env \<Rightarrow> wf_host \<Rightarrow> bool" where
  "wf_env E H \<longleftrightarrow> host_ok H \<and> (\<forall>n m. wf_sound H m \<longrightarrow> wf_rel H m (en_others E n m)) \<and>
     linked_keeping (wf_frame H) (wh_linked H)"

lemma wf_env_now: "wf_env E H \<Longrightarrow> wf_sound H (wo_store w) \<Longrightarrow> wf_rel H (wo_store w) (world_now E w)"
  by (simp add: wf_env_def world_now_def)

section \<open>Documents of the executor\<close>

lemma split_name: "plain_name a \<Longrightarrow> plain_name c \<Longrightarrow> a @ CHR '':'' # b = c @ CHR '':'' # d \<longleftrightarrow> a = c \<and> b = d"
proof (induction a arbitrary: c)
  case Nil
  then show ?case by (cases c) (auto simp: plain_name_def)
next
  case (Cons x a)
  then show ?case by (cases c) (auto simp: plain_name_def)
qed

lemma docId_inj:
  assumes "host_ok H" "d \<in> set (wh_workflows H)" "d' \<in> set (wh_workflows H)" "wf_docId d i = wf_docId d' i'"
  shows "d = d' \<and> i = i'"
proof -
  have "wf_name d = wf_name d' \<and> i = i'"
    using assms split_name [of "wf_name d" "wf_name d'" i i'] by (simp add: host_ok_def wf_docId_def)
  moreover have "inj_on wf_name (set (wh_workflows H))" using assms(1) by (simp add: host_ok_def distinct_map)
  ultimately show ?thesis using assms(2,3) by (auto dest: inj_onD)
qed

lemma plain_kinds [simp]: "plain_text WORKFLOW_KIND" "plain_text MAP_KIND"
  by (simp_all add: WORKFLOW_KIND_def MAP_KIND_def plain_text_def)

lemma slot_written:
  assumes "mem_putDocument m t WORKFLOW_KIND (wf_docId d i) doc e = Inr m'" "host_ok H" "plain_text t" "plain_text t'"
    "d \<in> set (wh_workflows H)" "d' \<in> set (wh_workflows H)"
  shows "slot m' t' d' i' = (if t' = t \<and> d' = d \<and> i' = i
    then Some (Suc (case e of None \<Rightarrow> 0 | Some v \<Rightarrow> v), mdel ''_version'' doc) else slot m t' d' i')"
proof (cases "t' = t \<and> d' = d \<and> i' = i")
  case True
  with doc_written(2) [OF assms(1)] show ?thesis by (simp add: slot_def)
next
  case False
  have "key3 t' WORKFLOW_KIND (wf_docId d' i') \<noteq> key3 t WORKFLOW_KIND (wf_docId d i)"
    using key3_kind [of t' WORKFLOW_KIND t WORKFLOW_KIND "wf_docId d' i'" "wf_docId d i"] docId_inj [OF assms(2,6,5)] assms(3,4) False
    by auto
  with doc_elsewhere [OF assms(1)] False show ?thesis by (auto simp: slot_def)
qed

lemma same_slots: "(\<And>t d i. plain_text t \<Longrightarrow> slot m' t d i = slot m t d i) \<Longrightarrow> wf_rel H m m'"
  by (simp add: wf_rel_def)

interpretation wfk: kind_frame "wf_sound H" "wf_rel H" WORKFLOW_KIND for H
  by unfold_locales
    (simp_all add: WORKFLOW_KIND_def plain_text_def SEQUENCE_KIND_def RESOURCE_REVISION_def wf_rel_def slot_def)

lemma wf_env_moves: "wf_env E H \<Longrightarrow> others_move (wf_sound H) (wf_rel H) E"
  by (simp add: wf_env_def others_move_def)

lemmas keeps_read_any = wfk.keeps_read_any [OF wf_env_moves]
lemmas keeps_write_if = wfk.keeps_write_if [OF wf_env_moves]

text \<open>A document that is no instance, at an id no instance has.\<close>

lemma keeps_write_other:
  assumes "wf_env E H" "plain_text t" "decl \<in> set (wh_workflows H)" "\<not> plain_id i" "\<And>b. oget body ''id'' \<noteq> JStr b"
  shows "keeps (wf_frame H) (write_doc E t (wf_docId decl i) body e)"
  unfolding write_doc_def
proof (rule keeps_write_if [OF assms(1)])
  fix m m'
  assume m: "wf_sound H m" "mem_putDocument m t WORKFLOW_KIND (wf_docId decl i) body e = Inr m'"
  have H: "host_ok H" using assms(1) by (simp add: wf_env_def)
  have none: "parsed (v, mdel ''_version'' body) = None" for v
    using assms(5) by (auto simp: parsed_def instance_of_def oget_mdel as_text_def split: jsval.split)
  show "wf_rel H m m'"
    unfolding wf_rel_def
  proof (intro allI impI)
    fix t' d' i'
    assume t': "plain_text t'" "d' \<in> set (wh_workflows H)"
    note s = slot_written [OF m(2) H assms(2) t'(1) assms(3) t'(2), of i']
    show "slot_step d' i' (slot m t' d' i') (slot m' t' d' i')"
    proof (cases "t' = t \<and> d' = decl \<and> i' = i")
      case True
      have "map_option fst (slot m t decl i) = e" using doc_written(1) [OF m(2)] by (simp add: slot_def)
      moreover have "parsed y = None" if "slot m t decl i = Some y" for y
        using m(1) that assms(2,3,4) unfolding wf_sound_def slot_ok_def by (metis not_None_eq)
      ultimately show ?thesis
        using s True by (auto simp: slot_step_def slot_ok_def none split: option.splits)
    qed (use s in auto)
  qed
qed

lemma keeps_write_tenants:
  assumes "wf_env E H"
  shows "keeps (wf_frame H) (write_doc E REGISTRY_TENANT ''tenants'' body e)"
  unfolding write_doc_def
proof (rule keeps_write_if [OF assms])
  fix m m'
  assume m: "mem_putDocument m REGISTRY_TENANT WORKFLOW_KIND ''tenants'' body e = Inr m'"
  have "slot m' t d i = slot m t d i" if "plain_text t" for t d i
  proof -
    have "wf_docId d i \<noteq> ''tenants''"
    proof
      assume "wf_docId d i = ''tenants''"
      then have "CHR '':'' \<in> set ''tenants''" unfolding wf_docId_def by (metis append_Cons in_set_conv_decomp)
      then show False by simp
    qed
    moreover have "plain_text REGISTRY_TENANT" by (simp add: REGISTRY_TENANT_def plain_text_def)
    ultimately have "key3 t WORKFLOW_KIND (wf_docId d i) \<noteq> key3 REGISTRY_TENANT WORKFLOW_KIND ''tenants''"
      using key3_kind that plain_kinds(1) by blast
    with doc_elsewhere [OF m] show ?thesis by (simp add: slot_def)
  qed
  then show "wf_rel H m m'" by (simp add: wf_rel_def)
qed

lemma keeps_map_write:
  assumes "wf_env E H" "plain_text t"
  shows "keeps (wf_frame H) (map_write E t child d e)"
  unfolding map_write_def
  by (rule keeps_write_if [OF assms(1)], erule wfk.other_kind) (simp_all add: assms(2), simp add: WORKFLOW_KIND_def MAP_KIND_def)

section \<open>Operations that write no instance\<close>

lemmas wfl_rules = wfl.keeps_ret wfl.keeps_fail wfl.keeps_of wfl.keeps_guard wfl.keeps_bind wfl.keeps_map wfl.keeps_if
  wfl.keeps_option wfl.keeps_pair wfl.keeps_sum wfl.keeps_exit wfl.keeps_let wfk.keeps_env_any wfk.keeps_catch

lemma keeps_doc [intro]: "wf_env E H \<Longrightarrow> keeps (wf_frame H) (read_doc E t i)"
  by (simp add: read_doc_def keeps_read_any)

lemma keeps_instance: "wf_env E H \<Longrightarrow> keeps (wf_frame H) (read_instance E t d i)"
  unfolding read_instance_def by (intro wfl_rules keeps_doc)

lemma keeps_map_read: "wf_env E H \<Longrightarrow> keeps (wf_frame H) (map_read E t i)"
  by (simp add: map_read_def keeps_read_any)

text \<open>An activity is a call of the engine, which writes no document of a workflow.\<close>

lemma keeps_activity:
  assumes "wf_env E H" "plain_text (cx_tenant ctx)"
  shows "keeps (wf_frame H) (activity E H opId input ctx)"
  unfolding activity_def
  using wfk.keeps_call [OF wf_env_moves [OF assms(1)] _ assms(2)] assms(1) by (simp add: wf_env_def)

lemma tenant_context [simp]: "cx_tenant (wf_context t r k) = t"
  by (simp add: wf_context_def)

lemma list_body_no_id: "oget (list_body d ids) ''id'' \<noteq> JStr b"
  by (auto simp: list_body_def oget_members)

lemma keeps_list_other:
  assumes "wf_env E H" "plain_text t" "decl \<in> set (wh_workflows H)" "\<not> plain_id i"
  shows "keeps (wf_frame H) (listMutate E t (wf_docId decl i) f)"
proof -
  have "keeps (wf_frame H) (list_attempts n E t (wf_docId decl i) f)" for n
    by (induction n) (auto intro!: wfl_rules keeps_doc assms keeps_write_other list_body_no_id)
  then show ?thesis by (simp add: listMutate_def)
qed

lemma keeps_list_tenants:
  assumes "wf_env E H"
  shows "keeps (wf_frame H) (listMutate E REGISTRY_TENANT ''tenants'' f)"
proof -
  have "keeps (wf_frame H) (list_attempts n E REGISTRY_TENANT ''tenants'' f)" for n
    by (induction n) (auto intro!: wfl_rules keeps_doc assms keeps_write_tenants)
  then show ?thesis by (simp add: listMutate_def)
qed

lemma reserved_ids:
  "activeId d = wf_docId d ''active''" "inboxId d st m k = wf_docId d (''inbox:'' @ st @ '':'' @ m @ '':'' @ k)"
  "waitersId d st m k = wf_docId d (''waiters:'' @ st @ '':'' @ m @ '':'' @ k)" "startId d k = wf_docId d (''start:'' @ k)"
  by (simp_all add: activeId_def inboxId_def waitersId_def startId_def wf_docId_def)

lemma reserved_not_plain [simp]:
  "\<not> plain_id ''active''" "\<not> plain_id (''inbox:'' @ s)" "\<not> plain_id (''waiters:'' @ s)" "\<not> plain_id (''start:'' @ s)"
  by (simp_all add: plain_id_def plain_name_def)

lemma keeps_lists:
  assumes "wf_env E H" "plain_text t" "decl \<in> set (wh_workflows H)"
  shows "keeps (wf_frame H) (listMutate E t (activeId decl) f)" "keeps (wf_frame H) (listMutate E t (waitersId decl st m k) f)"
  unfolding reserved_ids by (intro keeps_list_other assms reserved_not_plain)+

lemma keeps_post:
  assumes "wf_env E H" "plain_text t" "decl \<in> set (wh_workflows H)"
  shows "keeps (wf_frame H) (post E t (inboxId decl st m k) messageId payload now)"
  unfolding post_def reserved_ids
  by (intro wfl_rules keeps_doc keeps_write_other assms reserved_not_plain) (simp_all add: oget_members)

lemma keeps_remember:
  assumes "wf_env E H" "plain_text (cx_tenant ctx)" "decl \<in> set (wh_workflows H)"
  shows "keeps (wf_frame H) (remember_start E (cx_tenant ctx) (start_key decl ctx) i)"
  unfolding remember_start_def start_key_def ignore_failure_def reserved_ids
  by (auto intro!: wfl_rules keeps_write_other assms simp: oget_members plain_id_def plain_name_def split: option.splits exn.splits if_splits)

lemma keeps_crash: "keeps (wf_frame H) (crash_point H s)"
  by (simp add: crash_point_def wfl.keeps_guard)

lemma keeps_map_child:
  assumes "wf_env E H" "plain_text t"
  shows "keeps (wf_frame H) (map_child E H t decl a st bi c x)"
  unfolding map_child_def map_run_def
  by (auto intro!: wfl_rules keeps_map_read keeps_map_write keeps_activity assms split: sum.splits exn.splits)

lemma keeps_map_waves:
  assumes "wf_env E H" "plain_text t"
  shows "keeps (wf_frame H) (map_waves E H t decl a st bi c k n xs vs)"
proof (induction "length xs" arbitrary: n xs vs rule: less_induct)
  case less
  show ?case
  proof (cases xs)
    case Nil
    then show ?thesis by (simp add: wfl.keeps_ret)
  next
    case (Cons x ys)
    then have "keeps (wf_frame H) (map_waves E H t decl a st bi c k (n + Suc k) (drop k ys) ws)" for ws
      by (intro less) simp
    then show ?thesis
      unfolding Cons map_waves.simps
      by (intro wfl_rules keeps_doc assms keeps_map_child)
         (auto intro!: wfl_rules keeps_crash split: map_result.splits)
  qed
qed

lemma keeps_take_step:
  assumes "wf_env E H" "plain_text t" "decl \<in> set (wh_workflows H)"
  shows "keeps (wf_frame H) (take_step E H t decl a node now s)"
proof (cases s)
  case (WfCall c)
  then show ?thesis by (auto simp: step_call_def Let_def intro!: wfl_rules keeps_activity keeps_crash assms)
next
  case (WfMap st bi src k mx c)
  then show ?thesis by (auto simp: step_map_def intro!: wfl_rules keeps_map_waves assms)
next
  case (WfWait st ch m co tm)
  have r: "keeps (wf_frame H) (register_wait E t decl a now st ch m key tm)" for key
    unfolding register_wait_def by (intro wfl_rules keeps_lists assms)
  have "keeps (wf_frame H) (resume_wait E t decl a node now st m key tm due)" for key due
    unfolding resume_wait_def Let_def by (auto intro!: wfl_rules keeps_doc keeps_lists assms split: option.splits prod.splits)
  with r WfWait show ?thesis
    by (auto simp: step_wait_def intro!: wfl_rules split: wf_status.splits option.splits)
qed (auto intro!: wfl_rules)

section \<open>Operations that write instances\<close>

text \<open>An instance that was read: the document is still the one it was read from, or a newer one.\<close>

definition seen :: "string \<Rightarrow> wf_decl \<Rightarrow> wf_instance \<Rightarrow> memory \<Rightarrow> bool" where
  "seen t decl a s \<longleftrightarrow> plain_id (wi_id a) \<and> instance_ok decl (wi_id a) a \<and>
     (\<exists>n y. wi_stamp a = Some n \<and> slot s t decl (wi_id a) = Some y \<and> (fst y = n \<and> parsed y = Some a \<or> n < fst y))"

lemma lasting_seen:
  assumes "plain_text t" "decl \<in> set (wh_workflows H)"
  shows "lasting H (seen t decl a)"
  unfolding lasting_by_def
proof (intro allI impI)
  fix s s'
  assume s: "wf_rel H s s'" "seen t decl a s"
  obtain n y where y: "wi_stamp a = Some n" "slot s t decl (wi_id a) = Some y" "fst y = n \<and> parsed y = Some a \<or> n < fst y"
    using s(2) by (auto simp: seen_def)
  have "slot_step decl (wi_id a) (Some y) (slot s' t decl (wi_id a))" using s(1) assms y(2) unfolding wf_rel_def by metis
  then have "slot s' t decl (wi_id a) = Some y \<or> (\<exists>y'. slot s' t decl (wi_id a) = Some y' \<and> fst y < fst y')"
    by (auto simp: slot_step_def)
  then have "\<exists>y'. slot s' t decl (wi_id a) = Some y' \<and> (fst y' = n \<and> parsed y' = Some a \<or> n < fst y')"
    using y(3) by fastforce
  with s(2) y(1) show "seen t decl a s'" by (auto simp: seen_def)
qed

text \<open>Reading an instance, and writing it on condition that it is still the one read.\<close>

lemma triple_read_instance:
  assumes "wf_env E H" "plain_text t" "decl \<in> set (wh_workflows H)"
  shows "triple (anywhere H m0) (read_instance E t decl i)
    (\<lambda>r. reached H m0 (\<lambda>s. case r of None \<Rightarrow> True | Some a \<Rightarrow> wi_id a = i \<and> seen t decl a s)) (anywhere H m0)"
  unfolding triple_def
proof (intro allI impI)
  fix w r w'
  assume P: "anywhere H m0 (wo_store w)" and run: "read_instance E t decl i w = (r, w')"
  let ?m = "world_now E w"
  have any: "anywhere H m0 ?m"
    using reached_lasting [OF lasting_by_True P] wf_env_now [OF assms(1)] P by (simp add: reached_by_def)
  have st: "wo_store w' = ?m" and r: "r = as_instance (mem_getDocument ?m t WORKFLOW_KIND (wf_docId decl i))"
    using run unfolding read_instance_def read_doc_def run_read by (auto simp: eff_of_def)
  have doc: "mem_getDocument ?m t WORKFLOW_KIND (wf_docId decl i)
      = map_option (\<lambda>y. mput ''_version'' (JInt (int (fst y))) (snd y)) (slot ?m t decl i)"
    by (simp add: mem_getDocument_def slot_def stored_doc_def case_prod_unfold)
  have "wi_id a = i \<and> seen t decl a ?m" if r': "r = Inr (Some a)" for a
  proof -
    obtain y where y: "slot ?m t decl i = Some y" "parsed y = Some a"
      using r' r doc by (auto simp: as_instance_def parsed_def split: option.splits)
    then have ok: "plain_id i \<and> instance_ok decl i a"
      using any assms(2,3) unfolding reached_by_def wf_sound_def slot_ok_def by blast
    have "wi_stamp a = Some (fst y)" using parsed_stamp [of "fst y" "snd y" a] y(2) by simp
    with ok y show ?thesis by (auto simp: seen_def instance_ok_def)
  qed
  with any show "case r of Inr x \<Rightarrow> reached H m0 (\<lambda>s. case x of None \<Rightarrow> True | Some a \<Rightarrow> wi_id a = i \<and> seen t decl a s) (wo_store w')
      | Inl e \<Rightarrow> anywhere H m0 (wo_store w')"
    by (auto simp: st reached_by_def split: sum.splits option.splits)
qed

definition stamped :: "wf_instance \<Rightarrow> wf_instance" where
  "stamped a = a\<lparr>wi_stamp := Some (case wi_stamp a of None \<Rightarrow> 1 | Some v \<Rightarrow> v + 1)\<rparr>"

lemma stamped_evolves [simp]: "evolves decl a (stamped b) \<longleftrightarrow> evolves decl a b" "instance_ok decl i (stamped b) \<longleftrightarrow> instance_ok decl i b"
  by (simp_all add: evolves_def same_identity_def advanced_def instance_ok_def pinned_def render_def stamped_def)

lemma stamped_stamp: "wi_stamp b = Some n \<Longrightarrow> wi_stamp (stamped b) = Some (Suc n)"
  by (simp add: stamped_def)

lemma stamped_id [simp]: "wi_id (stamped b) = wi_id b"
  by (simp add: stamped_def)

lemma triple_write_instance:
  assumes "wf_env E H" "plain_text t" "decl \<in> set (wh_workflows H)" "succeeds decl a b"
  shows "triple (reached H m0 (seen t decl a)) (write_doc E t (wf_docId decl (wi_id a)) (instance_obj b) (wi_stamp a))
    (\<lambda>_. reached H m0 (seen t decl (stamped b))) (anywhere H m0)"
  unfolding triple_def
proof (intro allI impI)
  fix w r w'
  assume P: "reached H m0 (seen t decl a) (wo_store w)"
    and run: "write_doc E t (wf_docId decl (wi_id a)) (instance_obj b) (wi_stamp a) w = (r, w')"
  let ?m = "world_now E w"
  have H: "host_ok H" using assms(1) by (simp add: wf_env_def)
  have m: "reached H m0 (seen t decl a) ?m"
    using reached_lasting [OF lasting_seen [OF assms(2,3)] P] wf_env_now [OF assms(1)] P by (simp add: reached_by_def)
  show "case r of Inr x \<Rightarrow> reached H m0 (seen t decl (stamped b)) (wo_store w') | Inl e \<Rightarrow> anywhere H m0 (wo_store w')"
  proof (cases "mem_putDocument ?m t WORKFLOW_KIND (wf_docId decl (wi_id a)) (instance_obj b) (wi_stamp a)")
    case (Inl e)
    then have "wo_store w' = ?m" "r = Inl e"
      using run by (auto simp: write_doc_def storage_write_def storage_def Let_def world_now_def)
    with m show ?thesis by (simp add: reached_anywhere)
  next
    case (Inr m')
    then have w': "wo_store w' = m'" "r = Inr ()"
      using run by (auto simp: write_doc_def storage_write_def storage_def Let_def world_now_def)
    obtain n y where y: "wi_stamp a = Some n" "slot ?m t decl (wi_id a) = Some y" "fst y = n \<and> parsed y = Some a \<or> n < fst y"
      "plain_id (wi_id a)" using m by (auto simp: reached_by_def seen_def)
    have n: "fst y = n" "parsed y = Some a" using doc_written(1) [OF Inr] y by (auto simp: slot_def)
    have b: "evolves decl a b" "instance_ok decl (wi_id a) b" "wi_stamp b = Some n"
      using assms(4) y(1) by (simp_all add: succeeds_def)
    let ?y = "(Suc n, mdel ''_version'' (instance_obj b))"
    have p: "parsed ?y = Some (stamped b)" by (simp add: instance_round stamped_def b(3))
    have ok: "slot_ok decl (wi_id a) ?y" using y(4) b(2) by (simp add: slot_ok_def p)
    note s = slot_written [OF Inr H assms(2) _ assms(3)]
    have rel: "wf_rel H ?m m'"
      unfolding wf_rel_def
    proof (intro allI impI)
      fix t' d' i'
      assume t': "plain_text t'" "d' \<in> set (wh_workflows H)"
      have st: "slot_step decl (wi_id a) (Some y) (Some ?y)" using ok n b(1) by (simp add: slot_step_def p)
      show "slot_step d' i' (slot ?m t' d' i') (slot m' t' d' i')"
      proof (cases "t' = t \<and> d' = decl \<and> i' = wi_id a")
        case True
        with s [OF t', of i'] st y(1,2) show ?thesis by simp
      qed (use s [OF t', of i'] in auto)
    qed
    have "wi_id b = wi_id a" using b(2) by (simp add: instance_ok_def)
    then have "seen t decl (stamped b) m'"
      using s [OF assms(2,3), of "wi_id a"] y(1,4) b p by (simp add: seen_def stamped_stamp)
    moreover have "anywhere H m0 m'" using reached_lasting [OF lasting_by_True reached_anywhere [OF m] rel] .
    ultimately show ?thesis by (simp add: w' reached_by_def)
  qed
qed

section \<open>Saving\<close>

lemma succeeds_updated: "wf_active (wi_status a) \<Longrightarrow> succeeds decl a b \<Longrightarrow> succeeds decl a (b\<lparr>wi_updatedAt := now\<rparr>)"
  by (simp add: succeeds_def evolves_def same_identity_def advanced_def instance_ok_def pinned_def)

lemma saved_stamped: "saved_as b now = stamped (b\<lparr>wi_updatedAt := now\<rparr>)"
  by (simp add: saved_as_def stamped_def)

lemma triple_instance_save:
  assumes "wf_env E H" "plain_text t" "decl \<in> set (wh_workflows H)" "succeeds decl a b" "wf_active (wi_status a)"
  shows "triple (reached H m0 (seen t decl a)) (wf_save E t decl a b)
    (\<lambda>c. reached H m0 (\<lambda>s. wi_id c = wi_id a \<and> seen t decl c s)) (anywhere H m0)"
proof -
  have b: "wi_id b = wi_id a" using assms(4) by (simp add: succeeds_def instance_ok_def)
  have w: "triple (reached H m0 (seen t decl a))
      (eff_catch (write_doc E t (wf_docId decl (wi_id a)) (instance_obj (b\<lparr>wi_updatedAt := now\<rparr>)) (wi_stamp a)) (\<lambda>e. eff_fail (as_transient e)))
      (\<lambda>_. reached H m0 (seen t decl (saved_as b now))) (anywhere H m0)" for now
    unfolding saved_stamped
    by (rule triple_catch [OF triple_write_instance [OF assms(1-3) succeeds_updated [OF assms(5,4)]]]) (simp add: triple_fail)
  have l: "triple (reached H m0 (seen t decl (saved_as b now)))
      (if wf_active (wi_status b) then eff_ret () else listMutate E t (activeId decl) (without_id (wi_id a)))
      (\<lambda>_. reached H m0 (seen t decl (saved_as b now))) (anywhere H m0)" for now
    by (rule wfs.triple_kept [OF _ lasting_seen [OF assms(2,3)]]) (intro wfl_rules keeps_lists assms)
  have r: "triple (reached H m0 (seen t decl (saved_as b now))) (eff_ret (saved_as b now))
      (\<lambda>c. reached H m0 (\<lambda>s. wi_id c = wi_id a \<and> seen t decl c s)) (anywhere H m0)" for now
    by (rule triple_ret) (simp add: reached_by_def saved_as_def b)
  show ?thesis
    unfolding wf_save_def
    by (rule triple_bind [OF triple_env] triple_bind [OF w] triple_bind [OF l] r)+
qed

lemma triple_attempt:
  assumes "wf_env E H" "plain_text t" "decl \<in> set (wh_workflows H)" "wf_active (wi_status a)"
  shows "triple (reached H m0 (seen t decl a)) (attempt E H t decl a now)
    (\<lambda>r. reached H m0 (\<lambda>s. case r of None \<Rightarrow> seen t decl a s | Some c \<Rightarrow> wi_id c = wi_id a \<and> seen t decl c s)) (anywhere H m0)"
proof -
  have saved: "triple (reached H m0 (seen t decl a)) (eff_bind (wf_save E t decl a b) (\<lambda>c. eff_ret (Some c)))
      (\<lambda>r. reached H m0 (\<lambda>s. case r of None \<Rightarrow> seen t decl a s | Some c \<Rightarrow> wi_id c = wi_id a \<and> seen t decl c s)) (anywhere H m0)"
    if "instance_ok decl (wi_id a) a \<Longrightarrow> succeeds decl a b" for b
  proof (cases "instance_ok decl (wi_id a) a")
    case True
    show ?thesis
      by (rule triple_bind [OF triple_instance_save [OF assms(1-3) that [OF True] assms(4)]]) (rule triple_ret, simp)
  next
    case False
    then show ?thesis by (simp add: triple_def reached_by_def seen_def)
  qed
  show ?thesis
  proof (cases "node_at (program_of decl) (wi_pc a)")
    case None
    then show ?thesis
      unfolding attempt_def by (simp, intro saved succeeds_finish assms(4)) simp_all
  next
    case (Some node)
    let ?Q = "\<lambda>r. reached H m0 (\<lambda>s. seen t decl a s \<and> (\<forall>b. r = Some b \<longrightarrow> succeeds decl a b))"
    have step: "triple (reached H m0 (seen t decl a)) (take_step E H t decl a node now (nd_step node)) ?Q (anywhere H m0)"
      unfolding triple_def
    proof (intro allI impI)
      fix w r w'
      assume P: "reached H m0 (seen t decl a) (wo_store w)" and run: "take_step E H t decl a node now (nd_step node) w = (r, w')"
      have "stands_at decl a node" using P Some assms(4) by (simp add: reached_by_def seen_def stands_at_def)
      then have "succeeds decl a b" if "r = Inr (Some b)" for b using take_step_succeeds run that by metis
      moreover have "case r of Inr x \<Rightarrow> reached H m0 (seen t decl a) (wo_store w') | Inl e \<Rightarrow> anywhere H m0 (wo_store w')"
        using wfs.triple_kept [OF keeps_take_step [OF assms(1-3)] lasting_seen [OF assms(2,3)]] P run unfolding triple_def by blast
      ultimately show "case r of Inr x \<Rightarrow> ?Q x (wo_store w') | Inl e \<Rightarrow> anywhere H m0 (wo_store w')"
        by (cases r) (auto simp: reached_by_def)
    qed
    show ?thesis
      unfolding attempt_def Some option.case
    proof (rule triple_bind [OF step])
      fix r
      show "triple (?Q r) (case r of None \<Rightarrow> eff_ret None | Some after \<Rightarrow> eff_bind (wf_save E t decl a after) (\<lambda>c. eff_ret (Some c)))
        (\<lambda>r. reached H m0 (\<lambda>s. case r of None \<Rightarrow> seen t decl a s | Some c \<Rightarrow> wi_id c = wi_id a \<and> seen t decl c s)) (anywhere H m0)"
      proof (cases r)
        case None
        then show ?thesis by (simp add: triple_ret)
      next
        case r: (Some b)
        show ?thesis
        proof (cases "succeeds decl a b")
          case True
          then show ?thesis unfolding r option.case by (intro triple_pre [OF saved]) (simp_all add: reached_by_def)
        next
          case False
          then show ?thesis by (simp add: triple_def reached_by_def r)
        qed
      qed
    qed
  qed
qed

section \<open>Running\<close>

lemma triple_run:
  assumes "wf_env E H" "plain_text t" "decl \<in> set (wh_workflows H)"
  shows "triple (reached H m0 (seen t decl a)) (run_from E H t decl g c a) (\<lambda>b. reached H m0 (seen t decl b)) (anywhere H m0)"
proof (induction "nat (ADVANCE_GUARD - g)" arbitrary: g c a rule: less_induct)
  case less
  show ?case
  proof (cases "g \<ge> ADVANCE_GUARD \<or> \<not> wf_active (wi_status a)")
    case True
    then show ?thesis by (subst run_from.simps) (simp add: triple_ret)
  next
    case False
    then have active: "wf_active (wi_status a)" and g: "g < ADVANCE_GUARD" by auto
    have more: "triple (reached H m0 (seen t decl b)) (run_from E H t decl (g + 1) c' b) (\<lambda>b. reached H m0 (seen t decl b)) (anywhere H m0)" for c' b
      by (rule less) (use g in simp)
    let ?R = "\<lambda>r. reached H m0 (\<lambda>s. case r of None \<Rightarrow> seen t decl a s | Some b \<Rightarrow> wi_id b = wi_id a \<and> seen t decl b s)"
    have again: "triple (anywhere H m0) (eff_bind (read_instance E t decl (wi_id a)) (\<lambda>fresh.
          eff_bind (require_instance fresh) (\<lambda>b. run_from E H t decl (g + 1) (c + 1) b)))
        (\<lambda>b. reached H m0 (seen t decl b)) (anywhere H m0)"
    proof (rule triple_bind [OF triple_read_instance [OF assms]])
      fix r
      show "triple (reached H m0 (\<lambda>s. case r of None \<Rightarrow> True | Some b \<Rightarrow> wi_id b = wi_id a \<and> seen t decl b s))
        (eff_bind (require_instance r) (\<lambda>b. run_from E H t decl (g + 1) (c + 1) b)) (\<lambda>b. reached H m0 (seen t decl b)) (anywhere H m0)"
      proof (rule triple_bind [where Q = "\<lambda>b. reached H m0 (seen t decl b)"])
        show "triple (reached H m0 (\<lambda>s. case r of None \<Rightarrow> True | Some b \<Rightarrow> wi_id b = wi_id a \<and> seen t decl b s)) (require_instance r)
          (\<lambda>b. reached H m0 (seen t decl b)) (anywhere H m0)"
          unfolding require_instance_def
          by (rule triple_of) (auto simp: some_or_def reached_by_def split: option.splits)
      qed (rule more)
    qed
    have after: "triple (\<lambda>s. case r of Inr x \<Rightarrow> ?R x s | Inl e \<Rightarrow> anywhere H m0 s) (case r of
               Inl (Forge fe) \<Rightarrow>
                 if fe_code fe = ''TransientConflict'' \<and> c + 1 < CONFLICT_LIMIT then
                   eff_bind (read_instance E t decl (wi_id a)) (\<lambda>fresh.
                   eff_bind (require_instance fresh) (\<lambda>i'. run_from E H t decl (g + 1) (c + 1) i'))
                 else eff_fail (Forge fe)
             | Inl e \<Rightarrow> eff_fail (err ''Internal'')
             | Inr None \<Rightarrow> eff_ret a
             | Inr (Some i') \<Rightarrow> run_from E H t decl (g + 1) c i')
        (\<lambda>b. reached H m0 (seen t decl b)) (anywhere H m0)" for r :: "wf_instance option res"
    proof (cases r)
      case (Inl e)
      then show ?thesis by (cases e) (auto intro: again triple_fail)
    next
      case (Inr x)
      then show ?thesis
        by (cases x) (auto intro!: triple_ret triple_pre [OF more] simp: reached_by_def)
    qed
    show ?thesis
      by (subst run_from.simps)
        (simp only: False if_False, rule triple_bind [OF triple_env], rule triple_bind [OF triple_exit [OF triple_attempt [OF assms active]]], rule after)
  qed
qed

section \<open>All operations\<close>

lemma triple_locate:
  assumes "wf_env E H" "plain_text t" "set ds \<subseteq> set (wh_workflows H)"
  shows "triple (anywhere H m0) (locate E t i ds)
    (\<lambda>x. reached H m0 (\<lambda>s. fst x \<in> set (wh_workflows H) \<and> seen t (fst x) (snd x) s)) (anywhere H m0)"
  using assms(3)
proof (induction ds)
  case Nil
  then show ?case by (simp add: triple_fail)
next
  case (Cons d ds)
  then have d: "d \<in> set (wh_workflows H)" by simp
  have IH: "triple (anywhere H m0) (locate E t i ds)
      (\<lambda>x. reached H m0 (\<lambda>s. fst x \<in> set (wh_workflows H) \<and> seen t (fst x) (snd x) s)) (anywhere H m0)" using Cons by simp
  have found: "triple (reached H m0 (\<lambda>s. case r of None \<Rightarrow> True | Some a \<Rightarrow> wi_id a = i \<and> seen t d a s))
      (case r of Some i \<Rightarrow> eff_ret (d, i) | None \<Rightarrow> locate E t i ds)
      (\<lambda>x. reached H m0 (\<lambda>s. fst x \<in> set (wh_workflows H) \<and> seen t (fst x) (snd x) s)) (anywhere H m0)" for r
  proof (cases r)
    case None
    with IH show ?thesis by simp
  next
    case (Some a)
    then show ?thesis by (auto simp: reached_by_def d intro!: triple_ret)
  qed
  show ?case
    unfolding locate.simps by (rule triple_bind [OF triple_read_instance [OF assms(1,2) d] found])
qed

lemma keeps_advance:
  assumes "wf_env E H" "plain_text t" "case decl of None \<Rightarrow> True | Some d \<Rightarrow> d \<in> set (wh_workflows H)"
  shows "keeps (wf_frame H) (advance E H t i decl)"
proof (rule wfs.kept_triple)
  fix m0
  have c: "set (candidates H decl) \<subseteq> set (wh_workflows H)" using assms(3) by (auto simp: candidates_def split: option.splits)
  let ?P = "\<lambda>d a. reached H m0 (\<lambda>s. d \<in> set (wh_workflows H) \<and> seen t d a s)"
  have rest: "triple (?P d a) (eff_bind (eff_guard b e) (\<lambda>_. eff_bind (run_from E H t d 0 0 a) (\<lambda>x. eff_ret (render x))))
      (\<lambda>_. anywhere H m0) (anywhere H m0)" for d a b e
  proof (cases "d \<in> set (wh_workflows H)")
    case True
    have run: "triple (reached H m0 (seen t d a)) (eff_bind (run_from E H t d 0 0 a) (\<lambda>x. eff_ret (render x)))
        (\<lambda>_. anywhere H m0) (anywhere H m0)"
      by (rule triple_bind [OF triple_run [OF assms(1,2) True]]) (rule triple_ret, rule reached_anywhere)
    show ?thesis
      by (rule triple_bind [OF triple_guard]) (auto simp: reached_by_def intro: triple_pre [OF run])
  next
    case False
    then show ?thesis by (simp add: triple_def reached_by_def)
  qed
  show "triple (anywhere H m0) (advance E H t i decl) (\<lambda>_. anywhere H m0) (anywhere H m0)"
    unfolding advance_def
    by (rule triple_bind [OF triple_locate [OF assms(1,2) c]]) (use rest in \<open>simp add: case_prod_beta\<close>)
qed

lemma keeps_wf_get: "wf_env E H \<Longrightarrow> keeps (wf_frame H) (wf_get E decl i ctx)"
  unfolding wf_get_def require_instance_def by (intro wfl_rules keeps_instance)

lemma keeps_write_new:
  assumes "wf_env E H" "plain_text t" "decl \<in> set (wh_workflows H)" "plain_id i"
  shows "keeps (wf_frame H) (write_doc E t (wf_docId decl i) (instance_obj (new_instance decl i v now)) None)"
  unfolding write_doc_def
proof (rule keeps_write_if [OF assms(1)])
  fix m m'
  assume m: "mem_putDocument m t WORKFLOW_KIND (wf_docId decl i) (instance_obj (new_instance decl i v now)) None = Inr m'"
  have H: "host_ok H" using assms(1) by (simp add: wf_env_def)
  have none: "slot m t decl i = None" using doc_written(1) [OF m] by (simp add: slot_def)
  have ok: "slot_ok decl i (Suc 0, mdel ''_version'' (instance_obj (new_instance decl i v now)))"
    using new_instance_ok [of decl i v now] assms(4) by (simp add: slot_ok_def instance_round instance_ok_def pinned_def)
  show "wf_rel H m m'"
    unfolding wf_rel_def
  proof (intro allI impI)
    fix t' d' i'
    assume t': "plain_text t'" "d' \<in> set (wh_workflows H)"
    note s = slot_written [OF m H assms(2) t'(1) assms(3) t'(2), of i']
    show "slot_step d' i' (slot m t' d' i') (slot m' t' d' i')"
      using s none ok by (cases "t' = t \<and> d' = decl \<and> i' = i") (simp_all add: slot_step_def)
  qed
qed

lemma keeps_start:
  assumes "wf_env E H" "plain_text (cx_tenant ctx)" "decl \<in> set (wh_workflows H)"
  shows "keeps (wf_frame H) (wf_start E H decl input ctx)"
proof -
  let ?t = "cx_tenant ctx"
  have started: "keeps (wf_frame H) (started_before E ?t k)" for k
    unfolding started_before_def by (intro wfl_rules keeps_doc assms)
  have fresh: "keeps (wf_frame H) (eff_bind (eff_env (\<lambda>n. wh_nextId H n s)) g)"
    if g: "\<And>i. plain_id i \<Longrightarrow> keeps (wf_frame H) (g i)" for s and g :: "string \<Rightarrow> wf_instance eff"
  proof -
    have "plain_id (wh_nextId H n s)" for n using assms(1) by (simp add: wf_env_def host_ok_def)
    then have "wf_frame H w (snd (eff_bind (eff_env (\<lambda>n. wh_nextId H n s)) g w))" for w
      using g [of "wh_nextId H (wo_tick w) s"] unfolding keeps_def
      by (simp add: eff_bind_def eff_env_def moving_def) (metis world.select_convs(1) world.surjective world.update_convs(3))
    then show ?thesis by (simp add: keeps_def)
  qed
  have created: "keeps (wf_frame H) (eff_bind (write_doc E ?t (wf_docId decl i) (instance_obj (new_instance decl i v now)) None) (\<lambda>_.
      eff_bind (remember_start E ?t (start_key decl ctx) i) (\<lambda>_. eff_bind (listMutate E ?t (activeId decl) (append_id i)) (\<lambda>_.
      eff_bind (listMutate E REGISTRY_TENANT ''tenants'' (with_id ?t)) (\<lambda>_. advance E H ?t i (Some decl))))))"
    if "plain_id i" for i v now
    by (intro wfl_rules keeps_write_new keeps_remember keeps_lists keeps_list_tenants keeps_advance assms that) (simp add: assms)
  show ?thesis
    unfolding wf_start_def Let_def
    by (rule wfl.keeps_bind [OF wfk.keeps_env_any], rule wfl.keeps_bind [OF wfl.keeps_of], rule wfl.keeps_bind [OF started],
        rule wfl.keeps_option, rule fresh, erule created, rule keeps_wf_get [OF assms(1)])
qed

lemma cancelled_succeeds:
  "wf_active (wi_status a) \<Longrightarrow> instance_ok decl (wi_id a) a \<Longrightarrow> succeeds decl a (cancelled a now)"
  unfolding cancelled_def by (intro succeeds_finish) simp_all

lemma keeps_cancel_once:
  assumes "wf_env E H" "plain_text (cx_tenant ctx)" "decl \<in> set (wh_workflows H)"
  shows "keeps (wf_frame H) (cancel_once E decl i ctx)"
proof (rule wfs.kept_triple)
  fix m0
  let ?t = "cx_tenant ctx"
  have save: "triple (reached H m0 (\<lambda>s. seen ?t decl a s \<and> wf_active (wi_status a))) (eff_exit (wf_save E ?t decl a (cancelled a now)))
      (\<lambda>_. anywhere H m0) (anywhere H m0)" for a now
  proof (cases "wf_active (wi_status a) \<and> instance_ok decl (wi_id a) a")
    case True
    note s = triple_instance_save [OF assms cancelled_succeeds [of a decl now], of m0]
    have "triple (reached H m0 (seen ?t decl a)) (eff_exit (wf_save E ?t decl a (cancelled a now))) (\<lambda>_. anywhere H m0) (anywhere H m0)"
      by (rule triple_weaken [OF triple_exit [OF s]]) (use True in \<open>auto dest: reached_anywhere split: sum.splits\<close>)
    then show ?thesis by (rule triple_pre) (simp add: reached_by_def)
  next
    case False
    then show ?thesis by (auto simp: triple_def reached_by_def seen_def)
  qed
  have guarded: "triple (reached H m0 (seen ?t decl a)) (eff_bind (eff_guard (wf_active (wi_status a)) e) (\<lambda>_.
       eff_bind (eff_env (en_clock E)) (\<lambda>now. eff_bind (eff_exit (wf_save E ?t decl a (cancelled a now))) (\<lambda>saved.
         eff_ret (cancelled a now, saved))))) (\<lambda>_. anywhere H m0) (anywhere H m0)" for a e
  proof (rule triple_bind [OF triple_guard])
    show "triple (\<lambda>s. reached H m0 (seen ?t decl a) s \<and> wf_active (wi_status a)) (eff_bind (eff_env (en_clock E)) (\<lambda>now.
        eff_bind (eff_exit (wf_save E ?t decl a (cancelled a now))) (\<lambda>saved. eff_ret (cancelled a now, saved))))
        (\<lambda>_. anywhere H m0) (anywhere H m0)" for x
      by (rule triple_bind [OF triple_env], rule triple_bind [OF triple_pre [OF save]]) (auto simp: reached_by_def intro!: triple_ret)
  qed (rule reached_anywhere)
  show "triple (anywhere H m0) (cancel_once E decl i ctx) (\<lambda>_. anywhere H m0) (anywhere H m0)"
    unfolding cancel_once_def
  proof (rule triple_bind [OF triple_read_instance [OF assms]])
    fix r
    show "triple (reached H m0 (\<lambda>s. case r of None \<Rightarrow> True | Some a \<Rightarrow> wi_id a = i \<and> seen ?t decl a s))
      (eff_bind (require_instance r) (\<lambda>a. eff_bind (eff_guard (wf_active (wi_status a)) (err ''InvalidTransition'')) (\<lambda>_.
       eff_bind (eff_env (en_clock E)) (\<lambda>now. eff_bind (eff_exit (wf_save E ?t decl a (cancelled a now))) (\<lambda>saved.
         eff_ret (cancelled a now, saved)))))) (\<lambda>_. anywhere H m0) (anywhere H m0)"
      unfolding require_instance_def
      by (rule triple_bind [OF triple_of guarded]) (auto simp: some_or_def reached_by_def split: option.splits)
  qed
qed

lemma keeps_cancel:
  assumes "wf_env E H" "plain_text (cx_tenant ctx)" "decl \<in> set (wh_workflows H)"
  shows "keeps (wf_frame H) (wf_cancel E decl i ctx)"
  unfolding wf_cancel_def by (intro wfl_rules keeps_cancel_once assms)

lemma keeps_advance_or_none:
  assumes "wf_env E H" "plain_text t" "decl \<in> set (wh_workflows H)"
  shows "keeps (wf_frame H) (advance_or_none E H t decl i)"
  unfolding advance_or_none_def
  by (auto intro!: wfl_rules keeps_advance assms simp: assms split: exn.splits)

lemma keeps_signal:
  assumes "wf_env E H" "plain_text (cx_tenant ctx)" "decl \<in> set (wh_workflows H)"
  shows "keeps (wf_frame H) (wf_signal E H decl message messageId payload ctx)"
  unfolding wf_signal_def deliver_at_def wake_one_def Let_def
  by (intro wfl_rules keeps_post keeps_doc keeps_instance keeps_advance_or_none assms)

lemma keeps_sweep:
  assumes "wf_env E H" "plain_text t"
  shows "keeps (wf_frame H) (wf_sweep E H t)"
proof -
  have map: "(\<And>x. x \<in> set xs \<Longrightarrow> keeps (wf_frame H) (f x)) \<Longrightarrow> keeps (wf_frame H) (eff_map f xs)" for f :: "wf_decl \<Rightarrow> nat eff" and xs
    by (induction xs) (auto intro!: wfl_rules)
  show ?thesis
    unfolding wf_sweep_def sweep_decl_def inflight_def inflight_of_def
    by (intro wfl.keeps_bind map) (intro wfl_rules keeps_doc keeps_advance_or_none assms; assumption)+
qed

lemma driver_succeeds: "instance_ok decl (wi_id a) a \<Longrightarrow> succeeds decl a (with_driver st a)"
  by (auto simp: succeeds_def evolves_def same_identity_def advanced_def instance_ok_def pinned_def with_driver_def render_def)

lemma keeps_driver:
  assumes "wf_env E H" "plain_text t" "set ds \<subseteq> set (wh_workflows H)"
  shows "keeps (wf_frame H) (setDriverState E t i st ds)"
proof -
  have attempts: "keeps (wf_frame H) (driver_attempts n E t d i st)" if d: "d \<in> set (wh_workflows H)" for n d
  proof (induction n)
    case 0
    then show ?case by (simp add: wfl.keeps_ret)
  next
    case (Suc n)
    show ?case
    proof (rule wfs.kept_triple)
      fix m0
      have rest: "triple (anywhere H m0) (driver_attempts n E t d i st) (\<lambda>_. anywhere H m0) (anywhere H m0)"
        using wfs.triple_kept [OF Suc lasting_by_True] by simp
      have put: "triple (reached H m0 (seen t d a)) (eff_bind (eff_exit (write_doc E t (wf_docId d (wi_id a))
            (instance_obj (with_driver st a)) (wi_stamp a))) (\<lambda>saved. case saved of Inr u \<Rightarrow> eff_ret True | Inl e \<Rightarrow> driver_attempts n E t d i st))
          (\<lambda>_. anywhere H m0) (anywhere H m0)" for a
      proof (cases "instance_ok d (wi_id a) a")
        case True
        note w = triple_write_instance [OF assms(1,2) d driver_succeeds [OF True], of m0]
        show ?thesis
        proof (rule triple_bind)
          show "triple (reached H m0 (seen t d a)) (eff_exit (write_doc E t (wf_docId d (wi_id a)) (instance_obj (with_driver st a)) (wi_stamp a)))
            (\<lambda>_. anywhere H m0) (anywhere H m0)"
            by (rule triple_weaken [OF triple_exit [OF w]]) (auto dest: reached_anywhere split: sum.splits)
          show "triple (anywhere H m0) (case r of Inr u \<Rightarrow> eff_ret True | Inl e \<Rightarrow> driver_attempts n E t d i st)
            (\<lambda>_. anywhere H m0) (anywhere H m0)" for r :: "unit res"
            by (cases r) (simp_all add: rest triple_ret)
        qed
      next
        case False
        then show ?thesis by (simp add: triple_def reached_by_def seen_def)
      qed
      show "triple (anywhere H m0) (driver_attempts (Suc n) E t d i st) (\<lambda>_. anywhere H m0) (anywhere H m0)"
        unfolding driver_attempts.simps
      proof (rule triple_bind [OF triple_read_instance [OF assms(1,2) d]])
        fix r
        show "triple (reached H m0 (\<lambda>s. case r of None \<Rightarrow> True | Some a \<Rightarrow> wi_id a = i \<and> seen t d a s))
          (case r of None \<Rightarrow> eff_ret False | Some x \<Rightarrow> eff_bind (eff_exit (write_doc E t (wf_docId d i) (instance_obj (with_driver st x)) (wi_stamp x)))
            (\<lambda>saved. case saved of Inr u \<Rightarrow> eff_ret True | Inl e \<Rightarrow> driver_attempts n E t d i st)) (\<lambda>_. anywhere H m0) (anywhere H m0)"
        proof (cases r)
          case None
          then show ?thesis by (simp add: triple_ret)
        next
          case (Some a)
          show ?thesis
          proof (cases "wi_id a = i")
            case True
            show ?thesis
              unfolding Some option.case by (rule triple_pre [OF put [of a, unfolded True]]) (simp add: reached_by_def)
          next
            case False
            then show ?thesis by (simp add: triple_def reached_by_def Some)
          qed
        qed
      qed
    qed
  qed
  show ?thesis
    using assms(3) by (induction ds) (auto intro!: wfl_rules attempts)
qed

end
