(* ===== verification/Workflow_Properties.thy ===== *)
theory Workflow_Properties
  imports Workflow_Correct Engine_Sample
begin

text \<open>
  The properties of workflows: the compiled program takes the steps of the declaration, an instance
  only moves forward whatever is asked of the executor and whoever acts in between, the key of an
  activity stays the same until its step is recorded, and decimals are compared exactly.
\<close>

section \<open>Control flow\<close>

fun is_terminal :: "wf_step \<Rightarrow> bool" where
  "is_terminal (WfReturn e) = True"
| "is_terminal (WfFail e) = True"
| "is_terminal s = False"

text \<open>The steps taken by a declaration, when the choices are decided by a list of outcomes.\<close>

fun rest_after :: "bool \<Rightarrow> wf_step \<Rightarrow> wf_step list \<Rightarrow> wf_step list" where
  "rest_after v (WfChoice i c t e) ss = (if v then t else e) @ ss"
| "rest_after v (WfParallel i bs) ss = concat bs @ ss"
| "rest_after v s ss = (if is_terminal s then [] else ss)"

fun declared_trace :: "bool list \<Rightarrow> wf_step list \<Rightarrow> wf_step list" where
  "declared_trace (v # vs) (s # ss) = s # declared_trace vs (rest_after v s ss)"
| "declared_trace vs ss = []"

text \<open>The steps of the nodes a program goes through, as \<open>step\<close> goes on from a node.\<close>

definition next_index :: "bool \<Rightarrow> wf_node \<Rightarrow> int" where
  "next_index v n = (case nd_step n of WfChoice i c t e \<Rightarrow> the (if v then nd_then n else nd_otherwise n) | _ \<Rightarrow> nd_next n)"

fun program_trace :: "wf_node list \<Rightarrow> bool list \<Rightarrow> int \<Rightarrow> wf_step list" where
  "program_trace p [] i = []"
| "program_trace p (v # vs) i =
     (case node_at p i of None \<Rightarrow> []
      | Some n \<Rightarrow> nd_step n # (if is_terminal (nd_step n) then [] else program_trace p vs (next_index v n)))"

lemma declared_trace_Nil [simp]: "declared_trace vs [] = []"
  by (cases vs) simp_all

lemma follows_trace: "follows p i ss \<Longrightarrow> program_trace p vs i = declared_trace vs ss"
proof (induction vs arbitrary: i ss)
  case (Cons v vs)
  show ?case
  proof (cases "node_at p i")
    case None
    with Cons.prems follows_outside show ?thesis by force
  next
    case (Some n)
    then obtain s r where ss: "ss = s # r" using follows_outside [OF Cons.prems] by (cases ss) auto
    have s: "nd_step n = s" using follows_head Cons.prems Some ss by metis
    show ?thesis
    proof (cases s)
      case (WfChoice x c t e)
      then obtain a b where "nd_then n = Some a" "nd_otherwise n = Some b" "follows p a (t @ r)" "follows p b (e @ r)"
        using follows_choice Cons.prems Some ss by metis
      then show ?thesis using Cons.IH Some s WfChoice by (simp add: ss next_index_def)
    next
      case (WfParallel x bs)
      then have "follows p (nd_next n) (concat bs @ r)" using follows_parallel Cons.prems Some ss by metis
      then show ?thesis using Cons.IH Some s WfParallel by (simp add: ss next_index_def)
    qed (use Cons.IH Some s follows_plain [of p i s r n] Cons.prems in \<open>simp_all add: ss next_index_def\<close>)
  qed
qed simp

text \<open>
  C15: compiling keeps the control flow: whatever the conditions decide, the nodes the executor goes
  through carry the steps of the declaration in their order, the branches of a parallel one after the
  other, up to a return or a failure.
\<close>

theorem workflow_compiled_faithfully:
  "program_trace (compile steps) decisions 0 = declared_trace decisions steps"
  by (rule follows_trace [OF compile_follows])

section \<open>Comparison of decimals\<close>

lemma split_plain_text: "c \<notin> set s \<Longrightarrow> split_on c s = [s]"
  by (induction s) auto

lemma split_once: "c \<notin> set a \<Longrightarrow> c \<notin> set b \<Longrightarrow> split_on c (a @ c # b) = [a, b]"
  by (induction a) (auto simp: split_plain_text)

lemma digits_no_dot: "list_all is_digit s \<Longrightarrow> CHR ''.'' \<notin> set s"
  by (auto simp: list_all_iff is_digit_def)

lemma scaled_parts:
  assumes "ip \<noteq> []" "list_all is_digit ip" "list_all is_digit frac" "length frac \<le> k"
    "s = (if neg then ''-'' else []) @ ip @ (if frac = [] then [] else CHR ''.'' # frac)"
  shows "fraction_part s = frac" "scaled k s = Inr ((if neg then - 1 else 1) * int (read_nat (ip @ frac)) * 10 ^ (k - length frac))"
proof -
  let ?w = "(if neg then ''-'' else []) @ ip"
  have no_dot: "CHR ''.'' \<notin> set ?w" using digits_no_dot [OF assms(2)] by auto
  then have split: "split_on (CHR ''.'') s = (if frac = [] then [?w] else [?w, frac])"
    using split_plain_text [OF no_dot] split_once [OF no_dot digits_no_dot [OF assms(3)]] by (simp add: assms(5))
  then show f: "fraction_part s = frac" by (simp add: fraction_part_def)
  have w: "whole_part s = ?w" using split by (simp add: whole_part_def)
  let ?ds = "ip @ pad_end k (CHR ''0'') frac"
  have ds: "list_all is_digit ?ds" "?ds \<noteq> []" using assms(1-3)
    by (auto simp: pad_end_def list_all_iff is_digit_def)
  have v: "read_nat ?ds = read_nat (ip @ frac) * 10 ^ (k - length frac)"
    using read_pad_end [of 10 k "ip @ frac"] by (simp add: pad_end_def read_base_append assms(4) algebra_simps flip: power_add)
  obtain c cs where c: "?ds = c # cs" using ds(2) by (cases ?ds) auto
  then have "is_digit c" using ds(1) by simp
  then have "c \<noteq> CHR ''-''" by (auto simp: is_digit_def)
  note c = c this
  show "scaled k s = Inr ((if neg then - 1 else 1) * int (read_nat (ip @ frac)) * 10 ^ (k - length frac))"
    unfolding scaled_def w f js_bigint_def Let_def using ds c v by (cases neg) auto
qed

lemma scaled_minor: "s \<le> k \<Longrightarrow> scaled k (formatMinor x s) = Inr (x * 10 ^ (k - s)) \<and> length (fraction_part (formatMinor x s)) = s"
proof -
  assume k: "s \<le> k"
  obtain ip frac where p: "ip \<noteq> []" "list_all is_digit ip" "list_all is_digit frac" "length frac = s"
    "read_nat (ip @ frac) = nat \<bar>x\<bar>"
    "formatMinor x s = (if x < 0 then ''-'' else []) @ ip @ (if frac = [] then [] else CHR ''.'' # frac)"
    by (rule formatMinor_parts)
  have "length frac \<le> k" using p(4) k by simp
  note q = scaled_parts [OF p(1-3) this p(6)]
  have "(if x < 0 then - 1 else 1) * int (read_nat (ip @ frac)) = x" by (simp add: p(5))
  with q p(4) show ?thesis by simp
qed

lemma numeric_minor: "numeric_text (JStr (formatMinor x s)) = Some (formatMinor x s)"
  using formatMinor_match [of x s] by (auto simp: numeric_text_def)

lemma sgn_scaled: "sgn (x * 10 ^ (max s t - s) - y * 10 ^ (max s t - t)) = sgn (x * 10 ^ t - y * 10 ^ s :: int)"
proof -
  let ?m = "min s t"
  have "x * 10 ^ t - y * 10 ^ s = (x * 10 ^ (max s t - s) - y * 10 ^ (max s t - t)) * 10 ^ ?m"
    by (cases "s \<le> t") (simp_all add: max_def min_def algebra_simps flip: power_add)
  then show ?thesis by (simp add: sgn_mult)
qed

text \<open>
  Comparing two decimal texts in a workflow expression is exact, whatever their scales: the result
  is the sign of the difference of their values.
\<close>

theorem workflow_compares_decimals_exactly:
  "wf_cmp (JStr (formatMinor x s)) (JStr (formatMinor y t)) = Inr (sgn (x * 10 ^ t - y * 10 ^ s))"
  using scaled_minor [of s "max s t" x] scaled_minor [of t "max s t" y] sgn_scaled [of x s t y]
  by (simp add: wf_cmp_def numeric_minor)

section \<open>Requests\<close>

text \<open>What hosts ask of the executor; a request that fails is over.\<close>

datatype wf_request =
    RqStart wf_decl jsval call_context
  | RqCancel wf_decl string call_context
  | RqSignal wf_decl string string obj call_context
  | RqAdvance string string wf_decl
  | RqSweep string
  | RqDriver string string obj wf_decl

definition silently :: "'a eff \<Rightarrow> unit eff" where
  "silently m = eff_bind (eff_exit m) (\<lambda>_. eff_ret ())"

fun serve :: "env \<Rightarrow> wf_host \<Rightarrow> wf_request \<Rightarrow> unit eff" where
  "serve E H (RqStart d v ctx) = silently (wf_start E H d v ctx)"
| "serve E H (RqCancel d i ctx) = silently (wf_cancel E d i ctx)"
| "serve E H (RqSignal d m n p ctx) = silently (wf_signal E H d m n p ctx)"
| "serve E H (RqAdvance t i d) = silently (advance E H t i (Some d))"
| "serve E H (RqSweep t) = silently (wf_sweep E H t)"
| "serve E H (RqDriver t i st d) = silently (setDriverState E t i st [d])"

fun request_ok :: "wf_host \<Rightarrow> wf_request \<Rightarrow> bool" where
  "request_ok H (RqStart d v ctx) \<longleftrightarrow> plain_text (cx_tenant ctx) \<and> d \<in> set (wh_workflows H)"
| "request_ok H (RqCancel d i ctx) \<longleftrightarrow> plain_text (cx_tenant ctx) \<and> d \<in> set (wh_workflows H)"
| "request_ok H (RqSignal d m n p ctx) \<longleftrightarrow> plain_text (cx_tenant ctx) \<and> d \<in> set (wh_workflows H)"
| "request_ok H (RqAdvance t i d) \<longleftrightarrow> plain_text t \<and> d \<in> set (wh_workflows H)"
| "request_ok H (RqSweep t) \<longleftrightarrow> plain_text t"
| "request_ok H (RqDriver t i st d) \<longleftrightarrow> plain_text t \<and> d \<in> set (wh_workflows H)"

fun serve_all :: "env \<Rightarrow> wf_host \<Rightarrow> wf_request list \<Rightarrow> unit eff" where
  "serve_all E H [] = eff_ret ()"
| "serve_all E H (r # rs) = eff_bind (serve E H r) (\<lambda>_. serve_all E H rs)"

lemma keeps_serve: "wf_env E H \<Longrightarrow> request_ok H r \<Longrightarrow> keeps (wf_frame H) (serve E H r)"
  by (cases r)
    (auto simp: silently_def simp del: setDriverState.simps intro!: wfl.keeps_bind wfl.keeps_exit wfl.keeps_ret keeps_start
      keeps_cancel keeps_signal keeps_advance keeps_sweep keeps_driver)

lemma keeps_serve_all: "wf_env E H \<Longrightarrow> list_all (request_ok H) rs \<Longrightarrow> keeps (wf_frame H) (serve_all E H rs)"
  by (induction rs) (auto intro!: wfl.keeps_bind wfl.keeps_ret keeps_serve)

definition stored_instance :: "memory \<Rightarrow> string \<Rightarrow> wf_decl \<Rightarrow> string \<Rightarrow> wf_instance option" where
  "stored_instance m t decl i = Option.bind (slot m t decl i) parsed"

lemma served_evolves:
  assumes "wf_env E H" "wf_sound H (wo_store w)" "list_all (request_ok H) rs" "plain_text t" "decl \<in> set (wh_workflows H)"
    "stored_instance (wo_store w) t decl i = Some a"
  obtains b where "stored_instance (wo_store (snd (serve_all E H rs w))) t decl i = Some b" "evolves decl a b" "instance_ok decl i b"
proof -
  let ?m' = "wo_store (snd (serve_all E H rs w))"
  have rel: "wf_rel H (wo_store w) ?m'"
    using keeps_serve_all [OF assms(1,3)] assms(2) unfolding keeps_def moving_def by blast
  obtain y where y: "slot (wo_store w) t decl i = Some y" "parsed y = Some a"
    using assms(6) by (auto simp: stored_instance_def bind_eq_Some_conv)
  have step: "slot_step decl i (Some y) (slot ?m' t decl i)" using rel assms(4,5) y(1) unfolding wf_rel_def by metis
  obtain y' b where b: "slot ?m' t decl i = Some y'" "parsed y' = Some b" "evolves decl a b"
  proof (cases "slot ?m' t decl i = Some y")
    case True
    with y(2) that show ?thesis using evolves_refl by blast
  next
    case False
    with step y(2) that show ?thesis unfolding slot_step_def by auto
  qed
  have "instance_ok decl i b"
    using wf_rel_sound [OF assms(2) rel] assms(4,5) b(1,2) unfolding wf_sound_def slot_ok_def by blast
  with b that show thesis by (simp add: stored_instance_def)
qed

section \<open>A sample\<close>

definition nap_decl :: wf_decl where
  "nap_decl = \<lparr>wf_id = ''nap.v1'', wf_name = ''nap'', wf_version = 1, wf_graphHash = ''g1'', wf_input = None,
     wf_steps = [WfSleep ''rest'' ''1d'', WfReturn (EName [''input''])]\<rparr>"

definition nap_host :: wf_host where
  "nap_host = \<lparr>wh_workflows = [nap_decl],
     wh_linked = \<lparr>li_feature = (\<lambda>f. None), li_function = (\<lambda>f. None), li_readModel = (\<lambda>f. None),
       li_blob = (\<lambda>k r body ctx. eff_fail (err ''MethodNotAllowed''))\<rparr>,
     wh_publication = None, wh_nextId = (\<lambda>n s. ''w'' @ show_nat n), wh_crashAfter = None\<rparr>"

definition nap_instance :: wf_instance where
  "nap_instance = new_instance nap_decl ''w1'' JNull ''2026-01-01T00:00:00.000Z''"

definition nap_world :: world where
  "nap_world = snd (write_doc desk_env ''t1'' (wf_docId nap_decl ''w1'') (instance_obj nap_instance) None desk_world)"

definition nap_requests :: "wf_request list" where
  "nap_requests = [RqAdvance ''t1'' ''w1'' nap_decl, RqSweep ''t1'', RqCancel nap_decl ''w1'' desk_ctx]"

lemma digits_plain_name: "list_all is_digit s \<Longrightarrow> CHR '':'' \<notin> set s"
  by (auto simp: list_all_iff is_digit_def)

lemma nap_host_ok: "host_ok nap_host"
  using digits_plain_name [OF show_nat_digits] by (auto simp: host_ok_def nap_host_def nap_decl_def plain_id_def plain_name_def)

lemma nap_env: "wf_env desk_env nap_host"
  unfolding wf_env_def
  by (intro conjI nap_host_ok) (simp_all add: desk_env_def nap_host_def linked_keeping_def wfl.keeps_fail)

lemma nap_sound: "wf_sound nap_host (wo_store nap_world)"
proof -
  have "wf_sound nap_host (wo_store desk_world)"
    by (simp add: wf_sound_def slot_def stored_doc_def getDocument_def desk_world_def memory_new_def)
  moreover have "keeps (wf_frame nap_host) (write_doc desk_env ''t1'' (wf_docId nap_decl ''w1'') (instance_obj nap_instance) None)"
    unfolding nap_instance_def
    by (rule keeps_write_new [OF nap_env]) (simp_all add: nap_host_def plain_text_def plain_id_def plain_name_def)
  ultimately show ?thesis unfolding keeps_def moving_def nap_world_def using wf_rel_sound by blast
qed

lemma nap_stored: "stored_instance (wo_store nap_world) ''t1'' nap_decl ''w1'' = Some (nap_instance\<lparr>wi_stamp := Some 1\<rparr>)"
proof -
  let ?put = "mem_putDocument memory_new ''t1'' WORKFLOW_KIND (wf_docId nap_decl ''w1'') (instance_obj nap_instance) None"
  obtain m where m: "?put = Inr m" by (simp add: mem_putDocument_def putDocument_def memory_new_def)
  then have "wo_store nap_world = m"
    by (simp add: nap_world_def write_doc_def storage_write_def storage_def desk_env_def desk_world_def)
  with doc_written(2) [OF m] show ?thesis by (simp add: stored_instance_def slot_def instance_round)
qed

lemma nap_requests_ok: "list_all (request_ok nap_host) nap_requests" "plain_text ''t1''" "nap_decl \<in> set (wh_workflows nap_host)"
  by (simp_all add: nap_requests_def nap_host_def desk_ctx_def plain_text_def)

lemmas nap_case = nap_env nap_sound nap_requests_ok nap_stored

text \<open>
  C7: whatever hosts ask of the executor, in whatever order, and whatever others do in between, an
  instance stays the instance it was started as; its history and the messages it has consumed only
  grow, no message is consumed twice, and once it has ended nothing of it changes.
\<close>

theorem workflow_instances_evolve:
  assumes "wf_env E H" "wf_sound H (wo_store w)" "list_all (request_ok H) rs" "plain_text t" "decl \<in> set (wh_workflows H)"
    and "stored_instance (wo_store w) t decl i = Some a"
  shows "\<exists>b. stored_instance (wo_store (snd (serve_all E H rs w))) t decl i = Some b \<and> same_identity a b \<and>
     (\<exists>hs. wi_history b = wi_history a @ hs) \<and> (\<exists>cs. wi_consumed b = wi_consumed a @ cs) \<and> distinct (wi_consumed b) \<and>
     (\<not> wf_active (wi_status a) \<longrightarrow> render b = render a)"
proof -
  obtain b where b: "stored_instance (wo_store (snd (serve_all E H rs w))) t decl i = Some b" "evolves decl a b" "instance_ok decl i b"
    using served_evolves [OF assms] .
  then show ?thesis unfolding evolves_def instance_ok_def by blast
qed

theorem workflow_instances_evolve_witness:
  "\<exists>b. stored_instance (wo_store (snd (serve_all desk_env nap_host nap_requests nap_world))) ''t1'' nap_decl ''w1'' = Some b \<and>
     same_identity nap_instance b \<and> distinct (wi_consumed b)"
  using workflow_instances_evolve [OF nap_case] by (auto simp: same_identity_def)

lemma show_nat_inj:
  assumes "show_nat m = show_nat n"
  shows "m = n"
proof -
  have "read_base 10 (show_base 10 k) = k" for k by (rule read_show) (simp only: numeral_le_iff semiring_norm)+
  with assms show ?thesis by metis
qed

text \<open>
  C14: an instance of the deployed graph that is still active at the same node asks for its activity
  with the same idempotency key, whatever has happened to its document in between; it is at another
  node only when less of the graph is left; and once a step is recorded in the history its next
  execution has another key.
\<close>

theorem workflow_activity_keys:
  assumes "wf_env E H" "wf_sound H (wo_store w)" "list_all (request_ok H) rs" "plain_text t" "decl \<in> set (wh_workflows H)"
    and "stored_instance (wo_store w) t decl i = Some a" "pinned decl a"
  shows "\<exists>b. stored_instance (wo_store (snd (serve_all E H rs w))) t decl i = Some b \<and>
     (wi_pc b = wi_pc a \<longrightarrow> wf_active (wi_status b) \<longrightarrow> (\<forall>st. stepIdempotencyKey b st = stepIdempotencyKey a st)) \<and>
     (wi_pc b \<noteq> wi_pc a \<longrightarrow> behind (program_of decl) (wi_pc a) (wi_pc b)) \<and>
     (\<forall>st hs. wi_history b = wi_history a @ hs \<longrightarrow> st \<in> he_step ` set hs \<longrightarrow> stepIdempotencyKey b st \<noteq> stepIdempotencyKey a st)"
proof -
  obtain b where b: "stored_instance (wo_store (snd (serve_all E H rs w))) t decl i = Some b" "evolves decl a b"
    using served_evolves [OF assms(1-6)] by blast
  then have adv: "advanced (program_of decl) a b" and same: "wi_id b = wi_id a"
    using assms(7) by (simp_all add: evolves_def same_identity_def)
  have "wi_history b = wi_history a" if "wi_pc b = wi_pc a" "wf_active (wi_status b)"
    using adv that behind_irrefl by (metis advanced_def)
  moreover have "behind (program_of decl) (wi_pc a) (wi_pc b)" if "wi_pc b \<noteq> wi_pc a" using adv that by (simp add: advanced_def)
  moreover have "stepIdempotencyKey b st \<noteq> stepIdempotencyKey a st" if "wi_history b = wi_history a @ hs" "st \<in> he_step ` set hs" for st hs
  proof
    assume "stepIdempotencyKey b st = stepIdempotencyKey a st"
    then have "length (filter (\<lambda>h. he_step h = st) hs) = 0"
      using show_nat_inj by (fastforce simp: stepIdempotencyKey_def same that(1))
    with that(2) show False by (auto simp: filter_empty_conv)
  qed
  ultimately show ?thesis using b(1) by (auto simp: stepIdempotencyKey_def same)
qed

theorem workflow_activity_keys_witness:
  "\<exists>b. stored_instance (wo_store (snd (serve_all desk_env nap_host nap_requests nap_world))) ''t1'' nap_decl ''w1'' = Some b \<and>
     (wi_pc b = 0 \<or> behind (program_of nap_decl) 0 (wi_pc b))"
  using workflow_activity_keys [OF nap_case] by (auto simp: pinned_def nap_instance_def new_instance_def)

end
