(* ===== verification/Cron.thy ===== *)
theory Cron
  imports Codecs_Time Forge_Prelude
begin

text \<open>
  Recurrences (\<open>packages/runtime/src/schedules.ts\<close>): parsing of cron expressions, and the next
  occurrence after an instant in a time zone. Instants are milliseconds. The zone database of
  \<open>Intl.DateTimeFormat\<close> is an argument: the offset of local time at an instant, for a known zone.
\<close>

datatype field_set = AnyValue | Only "int list"

record recurrence =
  rr_minutes :: "int list"
  rr_hours :: "int list"
  rr_daysOfMonth :: field_set
  rr_months :: field_set
  rr_daysOfWeek :: field_set
  rr_timezone :: string

type_synonym zone = "int \<Rightarrow> int"

section \<open>Parsing\<close>

definition cron_error :: exn where
  "cron_error = JsError ''Error''"

definition cron_space :: "char \<Rightarrow> bool" where
  "cron_space c \<longleftrightarrow> c \<in> {CHR '' '', CHR 0x09, CHR 0x0A, CHR 0x0B, CHR 0x0C, CHR 0x0D, CHR 0xA0}"

text \<open>An optional number after a separator: None when the digits are missing.\<close>

definition suffix_number :: "char \<Rightarrow> string \<Rightarrow> (int option \<times> string) option" where
  "suffix_number c s =
     (case s of
        x # s' \<Rightarrow>
          if x = c
          then (let ds = takeWhile is_digit s' in if ds = [] then None else Some (Some (int (read_base 10 ds)), dropWhile is_digit s'))
          else Some (None, s)
      | [] \<Rightarrow> Some (None, s))"

text \<open>\<open>/^(\\*|\\d+)(?:-(\\d+))?(?:\\/(\\d+))?$/\<close>: the value or star, the end of the range, the step.\<close>

definition match_part :: "string \<Rightarrow> (int option \<times> int option \<times> int option) option" where
  "match_part s =
     (let head = (case s of
          x # s' \<Rightarrow> if x = CHR ''*'' then Some (None, s')
            else (let ds = takeWhile is_digit s in if ds = [] then None else Some (Some (int (read_base 10 ds)), dropWhile is_digit s))
        | [] \<Rightarrow> None)
      in case head of None \<Rightarrow> None | Some (v, s1) \<Rightarrow>
         (case suffix_number (CHR ''-'') s1 of None \<Rightarrow> None | Some (to, s2) \<Rightarrow>
         (case suffix_number (CHR ''/'') s2 of None \<Rightarrow> None | Some (step, s3) \<Rightarrow>
            if s3 = [] then Some (v, to, step) else None)))"

function field_values :: "int \<Rightarrow> int \<Rightarrow> int \<Rightarrow> int list" where
  "field_values lo hi step = (if step < 1 \<or> hi < lo then [] else lo # field_values (lo + step) hi step)"
  by pat_completeness auto
termination by (relation "measure (\<lambda>(lo, hi, step). nat (hi + 1 - lo))") auto

definition sunday :: "string \<Rightarrow> int \<Rightarrow> int" where
  "sunday name v = (if name = ''day-of-week'' \<and> v = 7 then 0 else v)"

definition parse_part :: "int \<Rightarrow> int \<Rightarrow> string \<Rightarrow> string \<Rightarrow> int list res" where
  "parse_part mn mx name part =
     (case match_part part of
        None \<Rightarrow> Inl cron_error
      | Some (v, to, stp) \<Rightarrow>
          (let step = (case stp of None \<Rightarrow> 1 | Some n \<Rightarrow> n);
               lo0 = (case v of None \<Rightarrow> mn | Some n \<Rightarrow> n);
               hi0 = (case v of None \<Rightarrow> mx
                 | Some n \<Rightarrow> (case to of Some h \<Rightarrow> h | None \<Rightarrow> (case stp of Some k \<Rightarrow> mx | None \<Rightarrow> lo0)));
               lo = sunday name lo0; hi = sunday name hi0
           in if lo < mn \<or> mx < hi \<or> step < 1 then Inl cron_error else Inr (field_values lo hi step)))"

definition parseField :: "string \<Rightarrow> int \<Rightarrow> int \<Rightarrow> string \<Rightarrow> field_set res" where
  "parseField s mn mx name =
     (if s = ''*'' then Inr AnyValue
      else bind_res (map_res (parse_part mn mx name) (split_on (CHR '','') s)) (\<lambda>vs. Inr (Only (sort (remdups (concat vs))))))"

definition every :: "int \<Rightarrow> int \<Rightarrow> field_set \<Rightarrow> int list" where
  "every a b f = (case f of AnyValue \<Rightarrow> [a..b] | Only vs \<Rightarrow> vs)"

text \<open>\<open>cron.trim().split(/\\s+/)\<close>\<close>

fun words :: "string \<Rightarrow> string list" where
  "words [] = [[]]"
| "words (c # s) =
     (if cron_space c then (case s of d # s' \<Rightarrow> if cron_space d then words s else [] # words s | [] \<Rightarrow> [[], []])
      else (case words s of [] \<Rightarrow> [[c]] | w # ws \<Rightarrow> (c # w) # ws))"

definition trim :: "string \<Rightarrow> string" where
  "trim s = rev (dropWhile cron_space (rev (dropWhile cron_space s)))"

definition parseRecurrence :: "(string \<Rightarrow> zone option) \<Rightarrow> string \<Rightarrow> string \<Rightarrow> recurrence res" where
  "parseRecurrence zones cron timezone =
     (case words (trim cron) of
        [f0, f1, f2, f3, f4] \<Rightarrow>
          bind_res (parseField f0 0 59 ''minute'') (\<lambda>minutes.
          bind_res (parseField f1 0 23 ''hour'') (\<lambda>hours.
          bind_res (guard_res (zones timezone \<noteq> None) (JsError ''RangeError'')) (\<lambda>_.
          bind_res (parseField f2 1 31 ''day-of-month'') (\<lambda>daysOfMonth.
          bind_res (parseField f3 1 12 ''month'') (\<lambda>months.
          bind_res (parseField f4 0 7 ''day-of-week'') (\<lambda>daysOfWeek.
          Inr \<lparr>rr_minutes = every 0 59 minutes, rr_hours = every 0 23 hours, rr_daysOfMonth = daysOfMonth, rr_months = months,
            rr_daysOfWeek = daysOfWeek, rr_timezone = timezone\<rparr>))))))
      | _ \<Rightarrow> Inl cron_error)"

section \<open>Local time\<close>

record local_time =
  lt_year :: int
  lt_month :: int
  lt_day :: int
  lt_hour :: int
  lt_minute :: int

abbreviation "MINUTE_MS \<equiv> 60000 :: int"
abbreviation "DAY_MS \<equiv> 86400000 :: int"

definition toLocal :: "zone \<Rightarrow> int \<Rightarrow> local_time" where
  "toLocal Z ms =
     (let s = (ms + Z ms) div MINUTE_MS; (y, m, d) = civil_from_days (s div 1440)
      in \<lparr>lt_year = y, lt_month = m, lt_day = d, lt_hour = s mod 1440 div 60, lt_minute = s mod 60\<rparr>)"

text \<open>\<open>Date.UTC\<close> reads the years 0 to 99 as 1900 to 1999.\<close>

definition utc_year :: "int \<Rightarrow> int" where
  "utc_year y = (if 0 \<le> y \<and> y \<le> 99 then 1900 + y else y)"

definition date_utc :: "int \<Rightarrow> int \<Rightarrow> int \<Rightarrow> int \<Rightarrow> int \<Rightarrow> int" where
  "date_utc y m d h mi = days_from_civil (utc_year y) m d * DAY_MS + h * 3600000 + mi * MINUTE_MS"

definition offsetAt :: "zone \<Rightarrow> int \<Rightarrow> int" where
  "offsetAt Z ms =
     (let l = toLocal Z ms in date_utc (lt_year l) (lt_month l) (lt_day l) (lt_hour l) (lt_minute l) - ms div MINUTE_MS * MINUTE_MS)"

definition same_time :: "local_time \<Rightarrow> int \<Rightarrow> int \<Rightarrow> int \<Rightarrow> int \<Rightarrow> int \<Rightarrow> bool" where
  "same_time l y m d h mi \<longleftrightarrow> lt_year l = y \<and> lt_month l = m \<and> lt_day l = d \<and> lt_hour l = h \<and> lt_minute l = mi"

definition is_hit :: "zone \<Rightarrow> int \<Rightarrow> int \<Rightarrow> int \<Rightarrow> int \<Rightarrow> int \<Rightarrow> int \<Rightarrow> bool" where
  "is_hit Z y m d h mi c = same_time (toLocal Z c) y m d h mi"

definition candidate :: "zone \<Rightarrow> int \<Rightarrow> int \<Rightarrow> int" where
  "candidate Z guess probe = guess - offsetAt Z probe"

fun least :: "int list \<Rightarrow> int option" where
  "least [] = None"
| "least (x # xs) = Some (fold min xs x)"

definition hits :: "zone \<Rightarrow> int \<Rightarrow> int \<Rightarrow> int \<Rightarrow> int \<Rightarrow> int \<Rightarrow> int \<Rightarrow> int list" where
  "hits Z y m d h mi guess =
     filter (is_hit Z y m d h mi) (map (candidate Z guess) [guess - DAY_MS, guess, guess + DAY_MS])"

definition fromLocal :: "zone \<Rightarrow> int \<Rightarrow> int \<Rightarrow> int \<Rightarrow> int \<Rightarrow> int \<Rightarrow> int option" where
  "fromLocal Z y m d h mi = least (hits Z y m d h mi (date_utc y m d h mi))"

definition daysInMonth :: "int \<Rightarrow> int \<Rightarrow> int" where
  "daysInMonth y m = month_len (utc_year y) m"

definition weekdayOf :: "int \<Rightarrow> int \<Rightarrow> int \<Rightarrow> int" where
  "weekdayOf y m d = (days_from_civil (utc_year y) m d + 4) mod 7"

definition allows :: "field_set \<Rightarrow> int \<Rightarrow> bool" where
  "allows f v = (case f of AnyValue \<Rightarrow> True | Only vs \<Rightarrow> v \<in> set vs)"

definition dayMatches :: "recurrence \<Rightarrow> int \<Rightarrow> int \<Rightarrow> int \<Rightarrow> bool" where
  "dayMatches r y m d \<longleftrightarrow> allows (rr_months r) m \<and>
     (let domOk = allows (rr_daysOfMonth r) d; dowOk = allows (rr_daysOfWeek r) (weekdayOf y m d)
      in if rr_daysOfMonth r \<noteq> AnyValue \<and> rr_daysOfWeek r \<noteq> AnyValue then domOk \<or> dowOk else domOk \<and> dowOk)"

section \<open>The next occurrence\<close>

definition time_slot :: "zone \<Rightarrow> int \<Rightarrow> int \<Rightarrow> int \<Rightarrow> int \<times> int \<Rightarrow> int option" where
  "time_slot Z y m d x = fromLocal Z y m d (fst x) (snd x)"

definition day_slots :: "zone \<Rightarrow> recurrence \<Rightarrow> int \<Rightarrow> int \<Rightarrow> int \<Rightarrow> int list" where
  "day_slots Z r y m d =
     List.map_filter (time_slot Z y m d) (List.product (rr_hours r) (rr_minutes r))"

definition next_day :: "int \<Rightarrow> int \<Rightarrow> int \<Rightarrow> int \<times> int \<times> int" where
  "next_day y m d =
     (let over = daysInMonth y m < d + 1; d1 = (if over then 1 else d + 1); m1 = (if over then m + 1 else m)
      in if 12 < m1 then (y + 1, 1, d1) else (y, m1, d1))"

fun search_days :: "nat \<Rightarrow> zone \<Rightarrow> recurrence \<Rightarrow> int \<Rightarrow> int \<Rightarrow> int \<Rightarrow> int \<Rightarrow> int option" where
  "search_days 0 Z r after y m d = None"
| "search_days (Suc k) Z r after y m d =
     (case (if dayMatches r y m d then List.find (\<lambda>ms. after < ms) (day_slots Z r y m d) else None) of
        Some ms \<Rightarrow> Some ms
      | None \<Rightarrow> (case next_day y m d of (y', m', d') \<Rightarrow> search_days k Z r after y' m' d'))"

definition SEARCH_DAYS :: nat where
  "SEARCH_DAYS = 366 * 4"

definition next_ms :: "zone \<Rightarrow> recurrence \<Rightarrow> int \<Rightarrow> int option" where
  "next_ms Z r after =
     (let l = toLocal Z after in search_days SEARCH_DAYS Z r after (lt_year l) (lt_month l) (lt_day l))"

text \<open>On texts: an instant that cannot be parsed, or an unknown zone, makes the formatter throw.\<close>

definition nextOccurrence ::
    "(string \<Rightarrow> int option) \<Rightarrow> (string \<Rightarrow> zone option) \<Rightarrow> recurrence \<Rightarrow> string \<Rightarrow> string option res" where
  "nextOccurrence other zones r after =
     (case (date_parse other after, zones (rr_timezone r)) of
        (Some ms, Some Z) \<Rightarrow> Inr (map_option to_iso (next_ms Z r ms))
      | _ \<Rightarrow> Inl (JsError ''RangeError''))"

text \<open>The occurrences in (from, to], oldest first, at most \<open>limit\<close>; texts are compared as texts.\<close>

fun occurrences_from ::
    "nat \<Rightarrow> (string \<Rightarrow> int option) \<Rightarrow> (string \<Rightarrow> zone option) \<Rightarrow> recurrence \<Rightarrow> string \<Rightarrow> string \<Rightarrow> string list res" where
  "occurrences_from 0 other zones r cursor until = Inr []"
| "occurrences_from (Suc k) other zones r cursor until =
     bind_res (nextOccurrence other zones r cursor) (\<lambda>n.
       case n of
         None \<Rightarrow> Inr []
       | Some t \<Rightarrow> if until < t then Inr []
           else bind_res (occurrences_from k other zones r t until) (\<lambda>ts. Inr (t # ts)))"

definition occurrencesBetween ::
    "(string \<Rightarrow> int option) \<Rightarrow> (string \<Rightarrow> zone option) \<Rightarrow> recurrence \<Rightarrow> string \<Rightarrow> string \<Rightarrow> nat \<Rightarrow> string list res" where
  "occurrencesBetween other zones r start until limit = occurrences_from limit other zones r start until"

end
