(* ===== verification/Cron_Correct.thy ===== *)
theory Cron_Correct
  imports Cron
begin

text \<open>
  In a zone of fixed offset the search finds the least occurrence after an instant: the slots of a day
  are the instants of its hours and minutes in order, and the days follow one another.
\<close>

section \<open>Parsed fields\<close>

definition clock_ok :: "recurrence \<Rightarrow> bool" where
  "clock_ok r \<longleftrightarrow> sorted_wrt (<) (rr_hours r) \<and> set (rr_hours r) \<subseteq> {0..23} \<and>
     sorted_wrt (<) (rr_minutes r) \<and> set (rr_minutes r) \<subseteq> {0..59}"

lemmas [simp del] = field_values.simps

lemma field_values_range: "set (field_values lo hi step) \<subseteq> {lo..hi}"
proof (induction lo hi step rule: field_values.induct)
  case (1 lo hi step)
  show ?case
  proof (cases "step < 1 \<or> hi < lo")
    case True
    then show ?thesis by (simp add: field_values.simps [of lo])
  next
    case False
    then have "set (field_values (lo + step) hi step) \<subseteq> {lo + step..hi}" by (rule 1)
    with False show ?thesis by (auto simp: field_values.simps [of lo])
  qed
qed

lemma parseField_values:
  assumes "parseField s mn mx name = Inr f" "name \<noteq> ''day-of-week''"
  shows "sorted_wrt (<) (every mn mx f) \<and> set (every mn mx f) \<subseteq> {mn..mx}"
proof (cases f)
  case AnyValue
  have "sorted_wrt (<) [mn..mx]" by simp
  with AnyValue show ?thesis by (simp add: every_def)
next
  case (Only vs)
  obtain vss where vss: "map_res (parse_part mn mx name) (split_on (CHR '','') s) = Inr vss" "vs = sort (remdups (concat vss))"
    using assms(1) Only by (auto simp: parseField_def res_simps split: if_splits)
  have part: "set xs \<subseteq> {mn..mx}" if "parse_part mn mx name p = Inr xs" for p xs
    using that assms(2) field_values_range
    by (fastforce simp: parse_part_def Let_def sunday_def split: option.splits prod.splits if_splits)
  have "set xs \<subseteq> {mn..mx}" if "xs \<in> set vss" for xs
    using map_res_memD [OF vss(1) that] part by blast
  then have "set vs \<subseteq> {mn..mx}" by (auto simp: vss(2))
  moreover have "sorted_wrt (<) vs" unfolding vss(2) by (simp add: strict_sorted_iff)
  ultimately show ?thesis by (simp add: Only every_def)
qed

lemma parseRecurrence_clock:
  assumes "parseRecurrence zones cron tz = Inr r"
  shows "clock_ok r" "zones (rr_timezone r) \<noteq> None"
proof -
  obtain f0 f1 minutes hours where f: "parseField f0 0 59 ''minute'' = Inr minutes" "parseField f1 0 23 ''hour'' = Inr hours"
    "rr_minutes r = every 0 59 minutes" "rr_hours r = every 0 23 hours" "rr_timezone r = tz" "zones tz \<noteq> None"
    using assms by (auto simp: parseRecurrence_def res_simps cron_error_def split: list.splits)
  show "clock_ok r"
    using parseField_values [OF f(1)] parseField_values [OF f(2)] by (simp add: clock_ok_def f(3,4))
  show "zones (rr_timezone r) \<noteq> None" using f(5,6) by simp
qed

section \<open>Days\<close>

lemma year_bound:
  assumes "valid_date y m d" "ystart k \<le> days_from_civil y m d"
  shows "k \<le> y"
proof (rule ccontr)
  assume "\<not> k \<le> y"
  then have "ystart (y + 1) \<le> ystart k" by (intro ystart_mono) simp
  moreover have "days_from_civil y m d < ystart (y + 1)"
    using day_in_year [OF assms(1)] by (simp add: days_from_civil_def ystart_step)
  ultimately show False using assms(2) by simp
qed

lemma mstart_last: "mstart y 12 + 31 = year_len y"
  by (simp add: mstart_table year_len_def)

lemma next_day_step:
  assumes "valid_date y m d" "100 \<le> y" "next_day y m d = (y', m', d')"
  shows "valid_date y' m' d'" "days_from_civil y' m' d' = days_from_civil y m d + 1"
proof -
  have v: "1 \<le> m" "m \<le> 12" "1 \<le> d" "d \<le> month_len y m" using assms(1) by (simp_all add: valid_date_def)
  have dim: "daysInMonth y m = month_len y m" using assms(2) by (simp add: daysInMonth_def utc_year_def)
  have pos: "1 \<le> month_len y' m'" by (simp add: month_len_def)
  show "valid_date y' m' d'"
    using assms(3) v pos by (auto simp: next_day_def Let_def dim valid_date_def split: if_splits)
  consider "d < month_len y m" | "d = month_len y m" "m < 12" | "d = month_len y m" "m = 12" using v by linarith
  then show "days_from_civil y' m' d' = days_from_civil y m d + 1"
  proof cases
    case 1
    with assms(3) v show ?thesis by (auto simp: next_day_def Let_def dim days_from_civil_def split: if_splits)
  next
    case 2
    then have "y' = y" "m' = m + 1" "d' = 1" using assms(3) by (auto simp: next_day_def Let_def dim split: if_splits)
    then show ?thesis using mstart_step [OF v(1)] 2 by (simp add: days_from_civil_def)
  next
    case 3
    have "daysInMonth y m = d" using dim 3 by simp
    then have "y' = y + 1" "m' = 1" "d' = 1" using assms(3) 3(2) by (auto simp: next_day_def Let_def split: if_splits)
    then show ?thesis using mstart_last [of y] 3 ystart_step [of y] mstart_table(1)
      by (simp add: days_from_civil_def month_len_def)
  qed
qed

section \<open>Zones of fixed offset\<close>

lemma digit_split:
  assumes "0 \<le> x" "x < (k :: int)"
  shows "(q * k + x) div k = q" "(q * k + x) mod k = x"
  using assms by (simp_all add: div_pos_pos_trivial mod_pos_pos_trivial)

definition fixed_zone :: "zone \<Rightarrow> int \<Rightarrow> bool" where
  "fixed_zone Z c \<longleftrightarrow> (\<forall>t. Z t = c) \<and> c mod MINUTE_MS = 0 \<and> \<bar>c\<bar> \<le> DAY_MS"

definition day_of :: "zone \<Rightarrow> int \<Rightarrow> int" where
  "day_of Z t = (t + Z t) div DAY_MS"

lemma toLocal_day:
  assumes "toLocal Z t = l"
  shows "valid_date (lt_year l) (lt_month l) (lt_day l)" "days_from_civil (lt_year l) (lt_month l) (lt_day l) = day_of Z t"
    "lt_hour l * 60 + lt_minute l = (t + Z t) div MINUTE_MS mod 1440" "0 \<le> lt_minute l" "lt_minute l < 60"
    "0 \<le> lt_hour l" "lt_hour l < 24"
proof -
  let ?s = "(t + Z t) div MINUTE_MS"
  obtain y m d where c: "civil_from_days (?s div 1440) = (y, m, d)" by (cases "civil_from_days (?s div 1440)") auto
  have l: "l = \<lparr>lt_year = y, lt_month = m, lt_day = d, lt_hour = ?s mod 1440 div 60, lt_minute = ?s mod 60\<rparr>"
    using assms by (simp add: toLocal_def Let_def c)
  have "?s div 1440 = (t + Z t) div (MINUTE_MS * 1440)" by (subst zdiv_zmult2_eq) simp_all
  then have "?s div 1440 = day_of Z t" by (simp add: day_of_def)
  with days_from_civil_inverse [OF c] show "valid_date (lt_year l) (lt_month l) (lt_day l)"
    "days_from_civil (lt_year l) (lt_month l) (lt_day l) = day_of Z t" by (simp_all add: l)
  have "?s mod 60 = ?s mod 1440 mod 60" by (simp add: mod_mod_cancel)
  then show "lt_hour l * 60 + lt_minute l = ?s mod 1440" by (simp add: l)
  show "0 \<le> lt_minute l" "lt_minute l < 60" "0 \<le> lt_hour l" "lt_hour l < 24" by (simp_all add: l)
qed

lemma date_utc_toLocal:
  assumes "ystart 100 \<le> day_of Z t" "toLocal Z t = l"
  shows "date_utc (lt_year l) (lt_month l) (lt_day l) (lt_hour l) (lt_minute l) = (t + Z t) div MINUTE_MS * MINUTE_MS"
proof -
  let ?a = "(t + Z t) div MINUTE_MS"
  note l = toLocal_day [OF assms(2)]
  have "100 \<le> lt_year l" using year_bound [OF l(1)] assms(1) l(2) by simp
  then have "utc_year (lt_year l) = lt_year l" by (simp add: utc_year_def)
  then have "date_utc (lt_year l) (lt_month l) (lt_day l) (lt_hour l) (lt_minute l) =
      day_of Z t * DAY_MS + (lt_hour l * 60 + lt_minute l) * MINUTE_MS"
    using l(2) by (simp add: date_utc_def algebra_simps)
  also have "\<dots> = ?a div 1440 * DAY_MS + ?a mod 1440 * MINUTE_MS"
    using zdiv_zmult2_eq [of 1440 "t + Z t" MINUTE_MS] unfolding l(3) by (simp add: day_of_def)
  also have "\<dots> = (?a div 1440 * 1440 + ?a mod 1440) * MINUTE_MS" by (simp only: distrib_right mult.assoc)
  also have "\<dots> = ?a * MINUTE_MS" by (simp only: div_mult_mod_eq)
  finally show ?thesis .
qed

lemma offsetAt_fixed:
  assumes "fixed_zone Z c" "ystart 100 \<le> day_of Z t"
  shows "offsetAt Z t = c"
proof -
  have c: "Z t = c" "c mod MINUTE_MS = 0" using assms(1) by (simp_all add: fixed_zone_def)
  from c(2) obtain k where k: "c = k * MINUTE_MS" by (metis div_mult_mod_eq add.right_neutral)
  have "(t + c) div MINUTE_MS = k + t div MINUTE_MS" unfolding k by simp
  then have "(t + c) div MINUTE_MS * MINUTE_MS - t div MINUTE_MS * MINUTE_MS = c" unfolding k by simp
  then show ?thesis
    using date_utc_toLocal [OF assms(2) refl] by (simp add: offsetAt_def Let_def c(1))
qed

text \<open>The instant of a local time.\<close>

definition slot :: "int \<Rightarrow> int \<Rightarrow> int \<Rightarrow> int \<Rightarrow> int" where
  "slot c n h mi = n * DAY_MS + h * 3600000 + mi * MINUTE_MS - c"

lemma toLocal_slot:
  assumes "fixed_zone Z c" "valid_date y m d" "0 \<le> h" "h < 24" "0 \<le> mi" "mi < 60"
  shows "toLocal Z (slot c (days_from_civil y m d) h mi) = \<lparr>lt_year = y, lt_month = m, lt_day = d, lt_hour = h, lt_minute = mi\<rparr>"
proof -
  let ?n = "days_from_civil y m d"
  have z: "Z t = c" for t using assms(1) by (simp add: fixed_zone_def)
  have "slot c ?n h mi + c = (?n * 1440 + (h * 60 + mi)) * MINUTE_MS" by (simp add: slot_def)
  then have s: "(slot c ?n h mi + c) div MINUTE_MS = ?n * 1440 + (h * 60 + mi)" by simp
  have r: "0 \<le> h * 60 + mi" "h * 60 + mi < 1440" using assms by auto
  have "(?n * 1440 + (h * 60 + mi)) mod 60 = ((?n * 24 + h) * 60 + mi) mod 60" by (simp add: algebra_simps)
  also have "\<dots> = mi" by (rule digit_split(2) [OF assms(5,6)])
  finally have "(?n * 1440 + (h * 60 + mi)) mod 60 = mi" .
  moreover have "(?n * 1440 + (h * 60 + mi)) div 1440 = ?n" "(?n * 1440 + (h * 60 + mi)) mod 1440 = h * 60 + mi"
    using digit_split [OF r] by blast+
  moreover have "(h * 60 + mi) div 60 = h" using digit_split(1) [OF assms(5,6)] by blast
  ultimately show ?thesis
    unfolding toLocal_def Let_def z s using civil_from_days_inverse [OF assms(2)] by simp
qed

lemma fromLocal_fixed:
  assumes "fixed_zone Z c" "valid_date y m d" "ystart 101 \<le> days_from_civil y m d" "0 \<le> h" "h < 24" "0 \<le> mi" "mi < 60"
  shows "fromLocal Z y m d h mi = Some (slot c (days_from_civil y m d) h mi)"
proof -
  let ?n = "days_from_civil y m d" and ?g = "date_utc y m d h mi"
  have z: "Z t = c" for t using assms(1) by (simp add: fixed_zone_def)
  have c: "\<bar>c\<bar> \<le> DAY_MS" using assms(1) by (simp add: fixed_zone_def)
  have "100 \<le> y" using year_bound [OF assms(2,3)] by simp
  then have g: "?g = ?n * DAY_MS + h * 3600000 + mi * MINUTE_MS" by (simp add: date_utc_def utc_year_def)
  have low: "ystart 100 \<le> day_of Z t" if "?g - DAY_MS \<le> t" for t
  proof -
    have "(?n - 2) * DAY_MS \<le> t + Z t" using that c assms(4,6) unfolding g z by simp
    then have "(?n - 2) * DAY_MS div DAY_MS \<le> day_of Z t" unfolding day_of_def by (rule zdiv_mono1) simp
    then have "?n - 2 \<le> day_of Z t" by simp
    moreover have "ystart 100 + 365 \<le> ystart 101" using ystart_mono_step [of 100] by simp
    ultimately show ?thesis using assms(3) by simp
  qed
  have "offsetAt Z (?g - DAY_MS) = c" "offsetAt Z ?g = c" "offsetAt Z (?g + DAY_MS) = c"
    by (rule offsetAt_fixed [OF assms(1) low], simp)+
  moreover have "?g - c = slot c ?n h mi" by (simp add: slot_def g)
  ultimately show ?thesis
    using toLocal_slot [OF assms(1,2,4-7)] by (simp add: fromLocal_def hits_def is_hit_def candidate_def same_time_def)
qed


section \<open>Occurrences\<close>

text \<open>An occurrence is a whole local minute whose fields the recurrence names.\<close>

definition occurs :: "zone \<Rightarrow> recurrence \<Rightarrow> int \<Rightarrow> bool" where
  "occurs Z r t \<longleftrightarrow> (t + Z t) mod MINUTE_MS = 0 \<and>
     (let l = toLocal Z t in lt_hour l \<in> set (rr_hours r) \<and> lt_minute l \<in> set (rr_minutes r) \<and>
        dayMatches r (lt_year l) (lt_month l) (lt_day l))"

lemma slot_unique:
  assumes "fixed_zone Z c" "(t + Z t) mod MINUTE_MS = 0"
  shows "t = slot c (day_of Z t) (lt_hour (toLocal Z t)) (lt_minute (toLocal Z t))"
proof -
  let ?l = "toLocal Z t" and ?a = "(t + Z t) div MINUTE_MS"
  have z: "Z t = c" using assms(1) by (simp add: fixed_zone_def)
  have "day_of Z t = ?a div 1440" using zdiv_zmult2_eq [of 1440 "t + Z t" MINUTE_MS] by (simp add: day_of_def)
  moreover have "?a div 1440 * 1440 + ?a mod 1440 = ?a" by (rule div_mult_mod_eq)
  ultimately have "day_of Z t * 1440 + (lt_hour ?l * 60 + lt_minute ?l) = ?a" using toLocal_day(3) [OF refl, of Z t] by simp
  moreover have "t + Z t = ?a * MINUTE_MS" using div_mult_mod_eq [of "t + Z t" MINUTE_MS] assms(2) by simp
  ultimately have "t + Z t = (day_of Z t * 1440 + (lt_hour ?l * 60 + lt_minute ?l)) * MINUTE_MS" by simp
  also have "\<dots> = day_of Z t * DAY_MS + lt_hour ?l * 3600000 + lt_minute ?l * MINUTE_MS" by (simp only: distrib_right mult.assoc)
  finally show ?thesis by (simp add: slot_def z)
qed

lemma slots_sorted:
  assumes "sorted_wrt (<) hs" "sorted_wrt (<) ms" "set ms \<subseteq> {0..59}"
  shows "sorted_wrt (<) (map (\<lambda>(h, mi). slot c n h mi) (List.product hs ms))"
  using assms(1)
proof (induction hs)
  case (Cons h hs)
  have "sorted_wrt (<) (map (\<lambda>mi. slot c n h mi) ms)"
    using assms(2) by (induction ms) (auto simp: slot_def)
  moreover have "slot c n h mi < slot c n h' mi'" if "mi \<in> set ms" "h' \<in> set hs" "mi' \<in> set ms" for mi h' mi'
  proof -
    have "h + 1 \<le> h'" "mi \<le> 59" "0 \<le> mi'" using Cons.prems that assms(3) by auto
    then show ?thesis by (simp add: slot_def)
  qed
  ultimately show ?case using Cons by (auto simp: sorted_wrt_append comp_def)
qed simp

lemma find_least:
  assumes "sorted_wrt (<) (xs :: int list)"
  shows "List.find (\<lambda>x. a < x) xs = Some t \<longleftrightarrow> t \<in> set xs \<and> a < t \<and> (\<forall>x\<in>set xs. a < x \<longrightarrow> t \<le> x)"
  using assms by (induction xs) force+

lemma day_slots_fixed:
  assumes "fixed_zone Z c" "clock_ok r" "valid_date y m d" "ystart 101 \<le> days_from_civil y m d"
  shows "day_slots Z r y m d = map (\<lambda>(h, mi). slot c (days_from_civil y m d) h mi) (List.product (rr_hours r) (rr_minutes r))"
proof -
  have some: "time_slot Z y m d x = Some (case x of (h, mi) \<Rightarrow> slot c (days_from_civil y m d) h mi)"
    if "x \<in> set (List.product (rr_hours r) (rr_minutes r))" for x
  proof -
    obtain h mi where x: "x = (h, mi)" by (cases x)
    with that have "h \<in> set (rr_hours r)" "mi \<in> set (rr_minutes r)" by simp_all
    with assms(2) have "h \<in> {0..23}" "mi \<in> {0..59}" unfolding clock_ok_def by blast+
    with x show ?thesis using fromLocal_fixed [OF assms(1,3,4), of h mi] by (simp add: time_slot_def)
  qed
  have "List.map_filter f xs = map g xs" if "\<And>x. x \<in> set xs \<Longrightarrow> f x = Some (g x)" for f :: "int \<times> int \<Rightarrow> int option" and g xs
    using that by (induction xs) (simp_all add: map_filter_simps)
  then show ?thesis unfolding day_slots_def using some by blast
qed

text \<open>The slots of a matching day are its occurrences.\<close>

lemma occurs_slot:
  assumes "fixed_zone Z c" "clock_ok r" "valid_date y m d" "dayMatches r y m d"
    and "h \<in> set (rr_hours r)" "mi \<in> set (rr_minutes r)"
  shows "occurs Z r (slot c (days_from_civil y m d) h mi)" "day_of Z (slot c (days_from_civil y m d) h mi) = days_from_civil y m d"
proof -
  let ?t = "slot c (days_from_civil y m d) h mi"
  have z: "Z u = c" for u using assms(1) by (simp add: fixed_zone_def)
  have l: "toLocal Z ?t = \<lparr>lt_year = y, lt_month = m, lt_day = d, lt_hour = h, lt_minute = mi\<rparr>"
    using assms(2,5,6) by (intro toLocal_slot [OF assms(1,3)]) (auto simp: clock_ok_def)
  have "?t + c = (days_from_civil y m d * 1440 + (h * 60 + mi)) * MINUTE_MS" by (simp add: slot_def)
  then have "(?t + c) mod MINUTE_MS = 0" by simp
  with l show "occurs Z r ?t" using assms(4-6) by (simp add: occurs_def z)
  show "day_of Z ?t = days_from_civil y m d" using toLocal_day(2) [OF l] by simp
qed

lemma occurrence_slot:
  assumes "fixed_zone Z c" "valid_date y m d" "occurs Z r t" "day_of Z t = days_from_civil y m d"
  shows "dayMatches r y m d" "\<exists>h mi. h \<in> set (rr_hours r) \<and> mi \<in> set (rr_minutes r) \<and> t = slot c (days_from_civil y m d) h mi"
proof -
  let ?l = "toLocal Z t"
  have "civil_from_days (day_of Z t) = (y, m, d)" using civil_from_days_inverse [OF assms(2)] assms(4) by simp
  then have "lt_year ?l = y" "lt_month ?l = m" "lt_day ?l = d"
    using toLocal_day(1,2) [OF refl, of Z t] civil_from_days_inverse [of "lt_year ?l" "lt_month ?l" "lt_day ?l"] by simp_all
  then show "dayMatches r y m d" using assms(3) by (simp add: occurs_def Let_def)
  have "(t + Z t) mod MINUTE_MS = 0" using assms(3) by (simp add: occurs_def)
  from slot_unique [OF assms(1) this] assms(3,4)
  show "\<exists>h mi. h \<in> set (rr_hours r) \<and> mi \<in> set (rr_minutes r) \<and> t = slot c (days_from_civil y m d) h mi"
    by (auto simp: occurs_def Let_def)
qed

section \<open>The search\<close>

definition least_from :: "zone \<Rightarrow> recurrence \<Rightarrow> int \<Rightarrow> int \<Rightarrow> int \<Rightarrow> bool" where
  "least_from Z r after n t \<longleftrightarrow> occurs Z r t \<and> after < t \<and> n \<le> day_of Z t \<and>
     (\<forall>u. occurs Z r u \<and> after < u \<and> n \<le> day_of Z u \<longrightarrow> t \<le> u)"

lemma later_day:
  assumes "fixed_zone Z c" "day_of Z t < day_of Z u"
  shows "t < u"
proof (rule ccontr)
  assume "\<not> t < u"
  then have "u + Z u \<le> t + Z t" using assms(1) by (simp add: fixed_zone_def)
  then have "day_of Z u \<le> day_of Z t" unfolding day_of_def by (rule zdiv_mono1) simp
  with assms(2) show False by simp
qed

lemma search_days_least:
  assumes "fixed_zone Z c" "clock_ok r"
  shows "valid_date y m d \<Longrightarrow> ystart 101 \<le> days_from_civil y m d \<Longrightarrow>
    (case search_days k Z r after y m d of
       Some t \<Rightarrow> least_from Z r after (days_from_civil y m d) t
     | None \<Rightarrow> \<forall>u. occurs Z r u \<and> after < u \<and> days_from_civil y m d \<le> day_of Z u \<longrightarrow> days_from_civil y m d + int k \<le> day_of Z u)"
proof (induction k arbitrary: y m d)
  case (Suc k)
  let ?n = "days_from_civil y m d" and ?slots = "day_slots Z r y m d"
  let ?found = "if dayMatches r y m d then List.find (\<lambda>ms. after < ms) ?slots else None"
  have slots: "?slots = map (\<lambda>(h, mi). slot c ?n h mi) (List.product (rr_hours r) (rr_minutes r))"
    by (rule day_slots_fixed [OF assms Suc.prems])
  have sorted: "sorted_wrt (<) ?slots" unfolding slots by (rule slots_sorted) (use assms(2) in \<open>auto simp: clock_ok_def\<close>)
  have in_slots: "u \<in> set ?slots \<and> dayMatches r y m d" if "occurs Z r u" "day_of Z u = ?n" for u
    using occurrence_slot [OF assms(1) Suc.prems(1) that] by (force simp: slots)
  have slot_occurs: "occurs Z r u \<and> day_of Z u = ?n" if "u \<in> set ?slots" "dayMatches r y m d" for u
    using that occurs_slot [OF assms Suc.prems(1)] by (auto simp: slots)
  show ?case
  proof (cases ?found)
    case (Some t)
    then have dm: "dayMatches r y m d" and t: "t \<in> set ?slots" "after < t" "\<forall>x\<in>set ?slots. after < x \<longrightarrow> t \<le> x"
      using find_least [OF sorted, of after t] by (simp_all split: if_splits)
    have "t \<le> u" if "occurs Z r u" "after < u" "?n \<le> day_of Z u" for u
    proof (cases "day_of Z u = ?n")
      case True
      with in_slots that t(3) show ?thesis by blast
    next
      case False
      with that(3) slot_occurs [OF t(1) dm] have "day_of Z t < day_of Z u" by simp
      then show ?thesis using later_day [OF assms(1)] by fastforce
    qed
    with slot_occurs [OF t(1) dm] t(2) have "least_from Z r after ?n t" by (simp add: least_from_def)
    with Some show ?thesis by simp
  next
    case None
    obtain y' m' d' where n: "next_day y m d = (y', m', d')" by (cases "next_day y m d") auto
    have y: "100 \<le> y" using year_bound [OF Suc.prems] by simp
    note step = next_day_step [OF Suc.prems(1) y n]
    have "\<not> (occurs Z r u \<and> after < u \<and> day_of Z u = ?n)" for u
    proof
      assume u: "occurs Z r u \<and> after < u \<and> day_of Z u = ?n"
      then have "u \<in> set ?slots" "dayMatches r y m d" using in_slots by blast+
      moreover have "List.find (\<lambda>ms. after < ms) ?slots = None" using None calculation(2) by simp
      ultimately show False using u by (auto simp: find_None_iff)
    qed
    then have skip: "?n \<le> day_of Z u \<longleftrightarrow> days_from_civil y' m' d' \<le> day_of Z u" if "occurs Z r u \<and> after < u" for u
      using that step(2) by force
    have IH: "case search_days k Z r after y' m' d' of
       Some t \<Rightarrow> least_from Z r after (days_from_civil y' m' d') t
     | None \<Rightarrow> \<forall>u. occurs Z r u \<and> after < u \<and> days_from_civil y' m' d' \<le> day_of Z u \<longrightarrow> days_from_civil y' m' d' + int k \<le> day_of Z u"
      by (rule Suc.IH [OF step(1)]) (use Suc.prems(2) step(2) in simp)
    have eq: "search_days (Suc k) Z r after y m d = search_days k Z r after y' m' d'"
      using None n by simp
    show ?thesis
    proof (cases "search_days k Z r after y' m' d'")
      case f: None
      with IH have late: "days_from_civil y' m' d' + int k \<le> day_of Z u"
        if "occurs Z r u" "after < u" "days_from_civil y' m' d' \<le> day_of Z u" for u using that by simp
      show ?thesis unfolding eq f option.case using late skip step(2) by fastforce
    next
      case (Some t)
      with IH have l: "least_from Z r after (days_from_civil y' m' d') t" by simp
      then have "least_from Z r after ?n t" using skip step(2) unfolding least_from_def by fastforce
      then show ?thesis unfolding eq Some option.case .
    qed
  qed
qed simp

lemma next_ms_least:
  assumes "fixed_zone Z c" "clock_ok r" "ystart 101 \<le> day_of Z after"
  shows "case next_ms Z r after of
     Some t \<Rightarrow> occurs Z r t \<and> after < t \<and> (\<forall>u. occurs Z r u \<and> after < u \<longrightarrow> t \<le> u)
   | None \<Rightarrow> \<forall>u. occurs Z r u \<and> after < u \<longrightarrow> day_of Z after + int SEARCH_DAYS \<le> day_of Z u"
proof -
  let ?l = "toLocal Z after"
  note l = toLocal_day(1,2) [OF refl, of Z after]
  have mono: "day_of Z after \<le> day_of Z u" if "after < u" for u
  proof -
    have "after + Z after \<le> u + Z u" using that assms(1) by (simp add: fixed_zone_def)
    then show ?thesis unfolding day_of_def by (rule zdiv_mono1) simp
  qed
  from search_days_least [OF assms(1,2) l(1), where k = SEARCH_DAYS and after = after] assms(3) mono show ?thesis
    unfolding next_ms_def Let_def l(2) by (auto simp: least_from_def split: option.splits)
qed

end
