(* ===== verification/Cron_Properties.thy ===== *)
theory Cron_Properties
  imports Cron_Correct
begin

text \<open>
  The properties of recurrences: the next occurrence is the least one, and what a day-of-week range
  that ends on Sunday means.
\<close>

text \<open>
  C40: in a zone of fixed offset, the next occurrence of a parsed cron expression is the least instant
  after the given one that is a whole local minute whose minute, hour and day the expression names;
  when there is none, no occurrence follows within 1464 days.
\<close>

theorem next_occurrence_least:
  assumes "parseRecurrence zones cron tz = Inr r" "zones (rr_timezone r) = Some Z" "fixed_zone Z c"
    and "date_parse other start = Some a" "ystart 101 \<le> day_of Z a"
    and "nextOccurrence other zones r start = Inr n"
  shows "case n of
     Some s \<Rightarrow> \<exists>t. s = to_iso t \<and> occurs Z r t \<and> a < t \<and> (\<forall>u. occurs Z r u \<and> a < u \<longrightarrow> t \<le> u)
   | None \<Rightarrow> \<forall>u. occurs Z r u \<and> a < u \<longrightarrow> day_of Z a + 1464 \<le> day_of Z u"
proof -
  have "n = map_option to_iso (next_ms Z r a)" using assms(2,4,6) by (simp add: nextOccurrence_def)
  with next_ms_least [OF assms(3) parseRecurrence_clock(1) [OF assms(1)] assms(5)] show ?thesis
    by (cases "next_ms Z r a") (auto simp: SEARCH_DAYS_def)
qed

definition utc_zones :: "string \<Rightarrow> zone option" where
  "utc_zones tz = (if tz = ''UTC'' then Some (\<lambda>t. 0) else None)"

definition parsed :: "string \<Rightarrow> recurrence" where
  "parsed cron = (case parseRecurrence utc_zones cron ''UTC'' of Inr r \<Rightarrow> r
     | Inl e \<Rightarrow> \<lparr>rr_minutes = [], rr_hours = [], rr_daysOfMonth = AnyValue, rr_months = AnyValue, rr_daysOfWeek = AnyValue, rr_timezone = []\<rparr>)"

definition monday_morning :: recurrence where
  "monday_morning = \<lparr>rr_minutes = [30], rr_hours = [9], rr_daysOfMonth = AnyValue, rr_months = AnyValue,
     rr_daysOfWeek = Only [1], rr_timezone = ''UTC''\<rparr>"

lemma parsed_monday: "parseRecurrence utc_zones ''30 9 * * 1'' ''UTC'' = Inr monday_morning"
proof -
  have "case parseRecurrence utc_zones ''30 9 * * 1'' ''UTC'' of Inr r \<Rightarrow> True | Inl e \<Rightarrow> False" by code_simp
  then have p: "parseRecurrence utc_zones ''30 9 * * 1'' ''UTC'' = Inr (parsed ''30 9 * * 1'')"
    by (auto simp: parsed_def split: sum.splits)
  have "rr_minutes (parsed ''30 9 * * 1'') = [30]" "rr_hours (parsed ''30 9 * * 1'') = [9]"
    "rr_daysOfMonth (parsed ''30 9 * * 1'') = AnyValue" "rr_months (parsed ''30 9 * * 1'') = AnyValue"
    "rr_daysOfWeek (parsed ''30 9 * * 1'') = Only [1]" "rr_timezone (parsed ''30 9 * * 1'') = ''UTC''" by code_simp+
  then have "parsed ''30 9 * * 1'' = monday_morning" by (simp add: monday_morning_def)
  with p show ?thesis by simp
qed

theorem next_occurrence_least_witness:
  "\<exists>t. ''2026-01-05T09:30:00.000Z'' = to_iso t \<and> occurs (\<lambda>t. 0) monday_morning t \<and>
     (\<forall>u. occurs (\<lambda>t. 0) monday_morning u \<and> 1767312000000 < u \<longrightarrow> t \<le> u)"
proof -
  have n: "nextOccurrence (\<lambda>s. None) utc_zones monday_morning ''2026-01-02T00:00:00.000Z'' = Inr (Some ''2026-01-05T09:30:00.000Z'')" by code_simp
  have d: "date_parse (\<lambda>s. None) ''2026-01-02T00:00:00.000Z'' = Some 1767312000000" by code_simp
  have z: "utc_zones (rr_timezone monday_morning) = Some (\<lambda>t. 0)" by (simp add: utc_zones_def monday_morning_def)
  have f: "fixed_zone (\<lambda>t. 0) 0" by (simp add: fixed_zone_def)
  have y: "ystart 101 \<le> day_of (\<lambda>t. 0) 1767312000000" by code_simp
  from next_occurrence_least [OF parsed_monday z f d y n] show ?thesis by auto
qed

text \<open>
  A day-of-week range that ends on Sunday written as 7 is empty, although 7 is accepted for
  Sunday: the expression parses, and no day ever matches it.
\<close>

theorem weekday_range_to_sunday_empty:
  "rr_daysOfWeek (parsed ''0 0 * * 1-7'') = Only [] \<and> (\<forall>y m d. \<not> dayMatches (parsed ''0 0 * * 1-7'') y m d)"
proof -
  have p: "rr_daysOfWeek (parsed ''0 0 * * 1-7'') = Only []" "rr_daysOfMonth (parsed ''0 0 * * 1-7'') = AnyValue" by code_simp+
  then show ?thesis by (simp add: dayMatches_def allows_def)
qed

end
