(* ===== verification/Csv.thy ===== *)
theory Csv
  imports Js_Value
begin

text \<open>
  The CSV parser (\<open>packages/runtime/src/csv.ts\<close>): records are tokenized at confirmed boundaries,
  then checked row by row against the limits. Positions in the text are the suffixes that remain.
  Decoding of the bytes is an argument: \<open>TextDecoder\<close> in fatal mode, without the leading byte order mark.
\<close>

record csv_row =
  cw_line :: nat
  cw_values :: "string list"

datatype csv_code = RaggedRow | UnterminatedQuote | TooManyFields | TooManyRows | InvalidEncoding

record csv_error =
  ce_line :: nat
  ce_code :: csv_code

record csv_options =
  co_maxFields :: nat
  co_maxRows :: nat
  co_maxCellBytes :: nat
  co_delimiter :: string

definition CSV_DEFAULTS :: csv_options where
  "CSV_DEFAULTS = \<lparr>co_maxFields = 100, co_maxRows = 100000, co_maxCellBytes = 65536, co_delimiter = '',''\<rparr>"

record csv_record =
  cc_line :: nat
  cc_values :: "string list"
  cc_unterminated :: bool

section \<open>Cells\<close>

abbreviation "QUOTE \<equiv> CHR 0x22"
abbreviation "CR \<equiv> CHR 0x0D"
abbreviation "LF \<equiv> CHR 0x0A"

text \<open>Inside quotes: the cell, the rest of the text, the line reached, and whether the quote was closed.\<close>

fun read_quoted :: "string \<Rightarrow> nat \<Rightarrow> string \<Rightarrow> string \<times> string \<times> nat \<times> bool" where
  "read_quoted cell line [] = (cell, [], line, False)"
| "read_quoted cell line (c # s) =
     (if c = QUOTE then
        (case s of
           d # s' \<Rightarrow> if d = QUOTE then read_quoted (cell @ [QUOTE]) line s' else (cell, s, line, True)
         | [] \<Rightarrow> (cell, s, line, True))
      else read_quoted (cell @ [c]) (if c = LF then line + 1 else line) s)"

definition cell_end :: "string \<Rightarrow> char \<Rightarrow> bool" where
  "cell_end delimiter c \<longleftrightarrow> [c] = delimiter \<or> c = LF \<or> c = CR"

definition skip_cell :: "string \<Rightarrow> string \<Rightarrow> string" where
  "skip_cell delimiter s = dropWhile (\<lambda>c. \<not> cell_end delimiter c) s"

definition read_cell :: "string \<Rightarrow> nat \<Rightarrow> string \<Rightarrow> string \<times> string \<times> nat \<times> bool" where
  "read_cell delimiter line s =
     (case s of
        c # s' \<Rightarrow>
          if c = QUOTE
          then (case read_quoted [] line s' of (cell, rest, line', closed) \<Rightarrow> (cell, skip_cell delimiter rest, line', closed))
          else (takeWhile (\<lambda>c. \<not> cell_end delimiter c) s, skip_cell delimiter s, line, True)
      | [] \<Rightarrow> ([], [], line, True))"

section \<open>Records\<close>

text \<open>The end of a record: CR, LF or both.\<close>

definition skip_eol :: "nat \<Rightarrow> string \<Rightarrow> nat \<times> string" where
  "skip_eol line s =
     (let s1 = (case s of c # s' \<Rightarrow> if c = CR then s' else s | [] \<Rightarrow> s)
      in case s1 of c # s2 \<Rightarrow> if c = LF then (line + 1, s2) else (line, s1) | [] \<Rightarrow> (line, s1))"

partial_function (option) read_record ::
    "string \<Rightarrow> nat \<Rightarrow> string list \<Rightarrow> bool \<Rightarrow> string \<Rightarrow> (string list \<times> bool \<times> nat \<times> string) option" where
  "read_record delimiter line values unterminated s =
     (case read_cell delimiter line s of (cell, rest, line', closed) \<Rightarrow>
        (case rest of
           [] \<Rightarrow> Some (values @ [cell], unterminated \<or> \<not> closed, line', [])
         | c # rest' \<Rightarrow>
             if [c] = delimiter
             then read_record delimiter line' (values @ [cell]) (unterminated \<or> \<not> closed) rest'
             else (case skip_eol line' rest of (line2, s2) \<Rightarrow> Some (values @ [cell], unterminated \<or> \<not> closed, line2, s2))))"

partial_function (option) read_records :: "string \<Rightarrow> nat \<Rightarrow> csv_record list \<Rightarrow> string \<Rightarrow> csv_record list option" where
  "read_records delimiter line records s =
     (if s = [] then Some records
      else case read_record delimiter line [] False s of
        None \<Rightarrow> None
      | Some (values, unterminated, line', rest) \<Rightarrow>
          read_records delimiter line'
            (if values = [[]] \<and> rest = [] then records
             else records @ [\<lparr>cc_line = line, cc_values = values, cc_unterminated = unterminated\<rparr>]) rest)"

section \<open>Rows\<close>

fun check_rows :: "csv_options \<Rightarrow> nat \<Rightarrow> csv_record list \<Rightarrow> csv_row list \<Rightarrow> csv_error list \<Rightarrow> csv_row list \<times> csv_error list" where
  "check_rows opts width [] rows errors = (rows, errors)"
| "check_rows opts width (r # rs) rows errors =
     (if co_maxRows opts \<le> length rows then (rows, errors @ [\<lparr>ce_line = cc_line r, ce_code = TooManyRows\<rparr>])
      else if cc_unterminated r
        then check_rows opts width rs rows (errors @ [\<lparr>ce_line = cc_line r, ce_code = UnterminatedQuote\<rparr>])
      else
        (let errors1 = (if length (cc_values r) \<noteq> width then errors @ [\<lparr>ce_line = cc_line r, ce_code = RaggedRow\<rparr>] else errors)
         in if list_ex (\<lambda>v. co_maxCellBytes opts < length v) (cc_values r)
            then check_rows opts width rs rows (errors1 @ [\<lparr>ce_line = cc_line r, ce_code = TooManyFields\<rparr>])
            else check_rows opts width rs (rows @ [\<lparr>cw_line = cc_line r, cw_values = cc_values r\<rparr>]) errors1))"

record csv_result =
  cr_header :: "string list"
  cr_rows :: "csv_row list"
  cr_errors :: "csv_error list"

definition csv_rows :: "csv_options \<Rightarrow> csv_record list \<Rightarrow> csv_result" where
  "csv_rows opts records =
     (let header = (case records of [] \<Rightarrow> [] | r # rs \<Rightarrow> cc_values r);
          errors = (if co_maxFields opts < length header then [\<lparr>ce_line = 1, ce_code = TooManyFields\<rparr>] else []);
          (rows, errors') = check_rows opts (length header) (tl records) [] errors
      in \<lparr>cr_header = header, cr_rows = rows, cr_errors = errors'\<rparr>)"

definition parse_text :: "csv_options \<Rightarrow> string \<Rightarrow> csv_result option" where
  "parse_text opts text = map_option (csv_rows opts) (read_records (co_delimiter opts) 1 [] text)"

definition parseCsv :: "(nat list \<Rightarrow> string option) \<Rightarrow> csv_options \<Rightarrow> nat list \<Rightarrow> csv_result option" where
  "parseCsv decode opts bytes =
     (case decode bytes of
        None \<Rightarrow> Some \<lparr>cr_header = [], cr_rows = [], cr_errors = [\<lparr>ce_line = 1, ce_code = InvalidEncoding\<rparr>]\<rparr>
      | Some text \<Rightarrow> parse_text opts text)"

section \<open>Termination\<close>

lemma read_quoted_rest: "read_quoted cell line s = (c, rest, l, closed) \<Longrightarrow> length rest \<le> length s"
  by (induction cell line s rule: read_quoted.induct) (fastforce split: if_splits list.splits)+

lemma skip_cell_rest: "length (skip_cell d s) \<le> length s"
  by (simp add: skip_cell_def length_dropWhile_le)

lemma read_cell_rest: "read_cell d line s = (c, rest, l, closed) \<Longrightarrow> length rest \<le> length s"
  using read_quoted_rest skip_cell_rest [of d]
  by (fastforce simp: read_cell_def split: list.splits if_splits prod.splits intro: order_trans)

lemma read_cell_stop:
  assumes "read_cell d line s = (c, e # rest, l, closed)"
  shows "cell_end d e"
proof -
  have "cell_end d e" if "skip_cell d t = e # rest" for t
    using that dropWhile_eq_Cons_conv [of "\<lambda>c. \<not> cell_end d c" t e rest] by (simp add: skip_cell_def)
  with assms show ?thesis by (auto simp: read_cell_def split: list.splits if_splits prod.splits)
qed

lemma skip_eol_rest:
  assumes "s = c # s'" "c = CR \<or> c = LF" "skip_eol line s = (l, rest)"
  shows "length rest < length s"
  using assms by (auto simp: skip_eol_def Let_def split: list.splits if_splits)

lemma read_record_returns:
  "\<exists>vs u l rest. read_record d line acc unterminated s = Some (vs, u, l, rest) \<and> length vs > length acc \<and>
     (s \<noteq> [] \<longrightarrow> length rest < length s)"
proof (induction "length s" arbitrary: line acc unterminated s rule: less_induct)
  case less
  obtain cell rest line' closed where cell: "read_cell d line s = (cell, rest, line', closed)"
    by (cases "read_cell d line s") auto
  note le = read_cell_rest [OF cell]
  show ?case
  proof (cases rest)
    case Nil
    then show ?thesis by (subst read_record.simps) (simp add: cell)
  next
    case (Cons c rest')
    show ?thesis
    proof (cases "[c] = d")
      case True
      have "length rest' < length s" using le Cons by simp
      from less [OF this, of line' "acc @ [cell]" "unterminated \<or> \<not> closed"]
      obtain vs u l r where r: "read_record d line' (acc @ [cell]) (unterminated \<or> \<not> closed) rest' = Some (vs, u, l, r)"
        "length vs > length (acc @ [cell])" "rest' \<noteq> [] \<longrightarrow> length r < length rest'" by blast
      have "length r < length s"
      proof (cases "rest' = []")
        case True
        with r(1) have "r = []" by (subst (asm) read_record.simps) (simp add: read_cell_def)
        then show ?thesis using le Cons by (cases s) simp_all
      next
        case False
        with r(3) le Cons show ?thesis by simp
      qed
      with r(1,2) show ?thesis by (subst read_record.simps) (simp add: cell Cons True)
    next
      case False
      then have eol: "c = CR \<or> c = LF" using read_cell_stop [OF cell [unfolded Cons]] by (auto simp: cell_end_def)
      obtain l2 s2 where s2: "skip_eol line' rest = (l2, s2)" by (cases "skip_eol line' rest") auto
      have "length s2 < length s" using skip_eol_rest [OF Cons eol s2] le by simp
      then show ?thesis by (subst read_record.simps) (use s2 in \<open>simp add: cell Cons False\<close>)
    qed
  qed
qed

lemma read_records_returns: "\<exists>rs. read_records d line records s = Some rs"
proof (induction "length s" arbitrary: line records s rule: less_induct)
  case less
  show ?case
  proof (cases "s = []")
    case True
    then show ?thesis by (subst read_records.simps) simp
  next
    case False
    obtain vs u l rest where r: "read_record d line [] False s = Some (vs, u, l, rest)" "length rest < length s"
      using read_record_returns [of d line "[]" False s] False by blast
    show ?thesis by (subst read_records.simps) (use False r(1) less [OF r(2)] in simp)
  qed
qed

definition within :: "csv_options \<Rightarrow> csv_row list \<Rightarrow> bool" where
  "within opts rows \<longleftrightarrow> length rows \<le> co_maxRows opts \<and>
     (\<forall>r\<in>set rows. \<forall>v\<in>set (cw_values r). length v \<le> co_maxCellBytes opts)"

lemma within_snoc:
  "within opts rows \<Longrightarrow> length rows < co_maxRows opts \<Longrightarrow> \<not> list_ex (\<lambda>v. co_maxCellBytes opts < length v) (cw_values r) \<Longrightarrow>
   within opts (rows @ [r])"
  by (auto simp: within_def list_ex_iff not_less)

lemma check_rows_within:
  "within opts rows \<Longrightarrow> within opts (fst (check_rows opts width rs rows errors))"
proof (induction rs arbitrary: width rows errors)
  case (Cons r rs)
  show ?case
  proof (cases "co_maxRows opts \<le> length rows")
    case True
    with Cons.prems show ?thesis by simp
  next
    case False
    then show ?thesis
      using Cons.prems by (auto simp: Let_def intro!: Cons.IH within_snoc)
  qed
qed simp


section \<open>Printing\<close>

text \<open>A cell is quoted when it holds a delimiter, a line break or a quote, as RFC 4180 has it.\<close>

definition plain_cell :: "string \<Rightarrow> string \<Rightarrow> bool" where
  "plain_cell delimiter c \<longleftrightarrow> list_all (\<lambda>x. \<not> cell_end delimiter x \<and> x \<noteq> QUOTE) c"

definition double_quotes :: "string \<Rightarrow> string" where
  "double_quotes c = concat (map (\<lambda>x. if x = QUOTE then [QUOTE, QUOTE] else [x]) c)"

definition cell_text :: "string \<Rightarrow> string \<Rightarrow> string" where
  "cell_text delimiter c = (if plain_cell delimiter c then c else QUOTE # double_quotes c @ [QUOTE])"

fun record_text :: "string \<Rightarrow> string list \<Rightarrow> string" where
  "record_text delimiter [] = [CR, LF]"
| "record_text delimiter [c] = cell_text delimiter c @ [CR, LF]"
| "record_text delimiter (c # cs) = cell_text delimiter c @ delimiter @ record_text delimiter cs"

definition csv_text :: "string \<Rightarrow> string list list \<Rightarrow> string" where
  "csv_text delimiter rs = concat (map (record_text delimiter) rs)"

definition proper_delimiter :: "string \<Rightarrow> bool" where
  "proper_delimiter d \<longleftrightarrow> (\<exists>x. d = [x] \<and> x \<noteq> QUOTE \<and> x \<noteq> CR \<and> x \<noteq> LF)"

lemma read_double_quotes:
  "e \<noteq> QUOTE \<Longrightarrow> \<exists>line'. read_quoted acc line (double_quotes c @ QUOTE # e # s) = (acc @ c, e # s, line', True)"
proof (induction c arbitrary: acc line)
  case Nil
  then show ?case by (simp add: double_quotes_def)
next
  case (Cons x c)
  then show ?case
    by (cases "x = QUOTE") (use Cons.IH [of "acc @ [x]"] in \<open>simp_all add: double_quotes_def\<close>)
qed

lemma takeWhile_cell:
  "plain_cell d c \<Longrightarrow> cell_end d e \<Longrightarrow> takeWhile (\<lambda>x. \<not> cell_end d x) (c @ e # s) = c \<and> skip_cell d (c @ e # s) = e # s"
  by (induction c) (auto simp: plain_cell_def skip_cell_def)

lemma read_printed_cell:
  assumes "proper_delimiter d" "cell_end d e"
  shows "\<exists>line'. read_cell d line (cell_text d c @ e # s) = (c, e # s, line', True)"
proof -
  have e: "e \<noteq> QUOTE" using assms by (auto simp: proper_delimiter_def cell_end_def)
  show ?thesis
  proof (cases "plain_cell d c")
    case True
    have "\<not> (\<exists>u. c @ e # s = QUOTE # u)" using True e by (cases c) (auto simp: plain_cell_def)
    with True show ?thesis
      using takeWhile_cell [OF True assms(2), of s] by (cases "c @ e # s") (auto simp: read_cell_def cell_text_def)
  next
    case False
    obtain line' where q: "read_quoted [] line (double_quotes c @ QUOTE # e # s) = ([] @ c, e # s, line', True)"
      using read_double_quotes [OF e] by blast
    have "skip_cell d (e # s) = e # s" using assms(2) by (simp add: skip_cell_def)
    with q False show ?thesis by (simp add: read_cell_def cell_text_def)
  qed
qed

lemma read_printed_record:
  assumes "proper_delimiter d" "cs \<noteq> []"
  shows "\<exists>line'. read_record d line acc u (record_text d cs @ s) = Some (acc @ cs, u, line', s)"
  using assms(2)
proof (induction cs arbitrary: line acc rule: list_nonempty_induct)
  case (single c)
  have "cell_end d CR" by (simp add: cell_end_def)
  from read_printed_cell [OF assms(1) this, of line c "LF # s"] obtain line' where
    c: "read_cell d line (cell_text d c @ CR # LF # s) = (c, CR # LF # s, line', True)" by blast
  have "[CR] \<noteq> d" using assms(1) by (auto simp: proper_delimiter_def)
  with c show ?case by (subst read_record.simps) (simp add: skip_eol_def)
next
  case (cons c cs)
  obtain x where x: "d = [x]" using assms(1) by (auto simp: proper_delimiter_def)
  have "cell_end d x" by (simp add: cell_end_def x)
  from read_printed_cell [OF assms(1) this, of line c "record_text d cs @ s"] obtain line' where
    c: "read_cell d line (cell_text d c @ x # record_text d cs @ s) = (c, x # record_text d cs @ s, line', True)" by blast
  have p: "record_text d (c # cs) = cell_text d c @ d @ record_text d cs" using cons(1) by (cases cs) simp_all
  obtain line2 where "read_record d line' (acc @ [c]) u (record_text d cs @ s) = Some ((acc @ [c]) @ cs, u, line2, s)"
    using cons.IH by blast
  with c p show ?case by (subst read_record.simps) (simp add: x)
qed

lemma record_text_nonempty [simp]: "record_text d cs \<noteq> []"
  by (induction d cs rule: record_text.induct) simp_all

lemma read_printed_records:
  assumes "proper_delimiter d" "\<forall>r\<in>set rs. r \<noteq> []" "rs \<noteq> [] \<longrightarrow> last rs \<noteq> [[]]"
  shows "\<exists>records. read_records d line prior (csv_text d rs) = Some (prior @ records) \<and> map cc_values records = rs \<and>
    list_all (\<lambda>r. \<not> cc_unterminated r) records"
  using assms(2,3)
proof (induction rs arbitrary: line prior)
  case Nil
  then show ?case by (subst read_records.simps) (simp add: csv_text_def)
next
  case (Cons r rs)
  have r: "r \<noteq> []" using Cons.prems(1) by simp
  obtain line' where rec: "read_record d line [] False (record_text d r @ csv_text d rs) = Some ([] @ r, False, line', csv_text d rs)"
    using read_printed_record [OF assms(1) r] by blast
  have keep: "\<not> (r = [[]] \<and> csv_text d rs = [])"
    using Cons.prems(2) by (cases rs) (auto simp: csv_text_def)
  let ?x = "\<lparr>cc_line = line, cc_values = r, cc_unterminated = False\<rparr>"
  have "rs \<noteq> [] \<longrightarrow> last rs \<noteq> [[]]" using Cons.prems(2) by auto
  with Cons.IH [of line' "prior @ [?x]"] Cons.prems(1) obtain records where
    rs: "read_records d line' (prior @ [?x]) (csv_text d rs) = Some ((prior @ [?x]) @ records)" "map cc_values records = rs"
    "list_all (\<lambda>r. \<not> cc_unterminated r) records" by auto
  have step: "read_records d line prior (csv_text d (r # rs)) = read_records d line' (prior @ [?x]) (csv_text d rs)"
    using rec keep by (subst read_records.simps) (auto simp: csv_text_def)
  show ?case
    by (rule exI [of _ "?x # records"]) (use step rs in simp)
qed

lemma check_rows_clean:
  assumes "list_all (\<lambda>r. \<not> cc_unterminated r \<and> length (cc_values r) = width \<and> list_all (\<lambda>v. length v \<le> co_maxCellBytes opts) (cc_values r)) rs"
    and "length rows + length rs \<le> co_maxRows opts"
  shows "check_rows opts width rs rows errors = (rows @ map (\<lambda>r. \<lparr>cw_line = cc_line r, cw_values = cc_values r\<rparr>) rs, errors)"
  using assms
proof (induction rs arbitrary: rows)
  case (Cons r rs)
  then have "\<not> list_ex (\<lambda>v. co_maxCellBytes opts < length v) (cc_values r)" by (auto simp: list_ex_iff list_all_iff not_less)
  with Cons show ?case by (simp add: Let_def)
qed simp

end
