(* ===== verification/Csv_Properties.thy ===== *)
theory Csv_Properties
  imports Csv
begin

text \<open>
  The properties of the CSV parser: it returns on every text and keeps its bounds, and what was
  printed is read back.
\<close>

text \<open>
  C38: parsing returns for every text and all options, whatever quotes are left open: the loops over
  characters, cells and records all end. The rows that are kept respect the limits on their number
  and on the length of their cells.
\<close>

theorem parseCsv_returns:
  "\<exists>r. parseCsv decode opts bytes = Some r \<and> length (cr_rows r) \<le> co_maxRows opts \<and>
    list_all (\<lambda>row. list_all (\<lambda>v. length v \<le> co_maxCellBytes opts) (cw_values row)) (cr_rows r)"
proof (cases "decode bytes")
  case None
  then show ?thesis by (simp add: parseCsv_def)
next
  case (Some s)
  obtain rs where rs: "read_records (co_delimiter opts) 1 [] s = Some rs" using read_records_returns by blast
  have "within opts []" by (simp add: within_def)
  then have "within opts (cr_rows (csv_rows opts rs))"
    using check_rows_within by (simp add: csv_rows_def Let_def split: prod.splits) (metis fst_conv)
  with Some rs show ?thesis by (simp add: parseCsv_def parse_text_def within_def list_all_iff)
qed

text \<open>
  C39: a table that is printed with minimal quoting is read back without errors: its first row as the
  header, the others as rows, cell by cell, quotes and line breaks inside cells included. The last row
  must not be a single empty cell: such a row is dropped at the end of the text, even when it is quoted.
\<close>

theorem csv_roundtrip:
  assumes "proper_delimiter (co_delimiter opts)" "header \<noteq> []" "list_all (\<lambda>r. length r = length header) rows"
    and "last (header # rows) \<noteq> [[]]" "length header \<le> co_maxFields opts" "length rows \<le> co_maxRows opts"
    and "list_all (list_all (\<lambda>v. length v \<le> co_maxCellBytes opts)) rows"
  shows "\<exists>r. parse_text opts (csv_text (co_delimiter opts) (header # rows)) = Some r \<and>
    cr_header r = header \<and> map cw_values (cr_rows r) = rows \<and> cr_errors r = []"
proof -
  have "\<forall>r\<in>set (header # rows). r \<noteq> []" using assms(2,3) by (auto simp: list_all_iff)
  from read_printed_records [OF assms(1) this, of 1 "[]"] assms(4) obtain records where
    rs: "read_records (co_delimiter opts) 1 [] (csv_text (co_delimiter opts) (header # rows)) = Some records"
    "map cc_values records = header # rows" "list_all (\<lambda>r. \<not> cc_unterminated r) records" by auto
  then obtain h body where h: "records = h # body" "cc_values h = header" "map cc_values body = rows"
    by (cases records) auto
  have "list_all (\<lambda>r. \<not> cc_unterminated r \<and> length (cc_values r) = length header \<and>
      list_all (\<lambda>v. length v \<le> co_maxCellBytes opts) (cc_values r)) body"
    using rs(3) assms(3,7) unfolding h(3) [symmetric] by (simp add: h(1) list_all_iff)
  then have "check_rows opts (length header) body [] [] =
      ([] @ map (\<lambda>r. \<lparr>cw_line = cc_line r, cw_values = cc_values r\<rparr>) body, [])"
    by (rule check_rows_clean) (use assms(6) h(3) in auto)
  with rs(1) h assms(5) show ?thesis by (auto simp: parse_text_def csv_rows_def comp_def)
qed

definition menu :: "string list list" where
  "menu = [[''name'', ''note''], [''tea'', ''a, b''], [''say '' @ [QUOTE] @ ''hi'' @ [QUOTE], ''two'' @ [LF] @ ''lines'']]"

theorem csv_roundtrip_witness:
  "\<exists>r. parse_text CSV_DEFAULTS (csv_text '','' menu) = Some r \<and> map cw_values (cr_rows r) = tl menu \<and> cr_errors r = []"
proof -
  have "\<exists>r. parse_text CSV_DEFAULTS (csv_text (co_delimiter CSV_DEFAULTS) ([''name'', ''note''] # tl menu)) = Some r \<and>
    cr_header r = [''name'', ''note''] \<and> map cw_values (cr_rows r) = tl menu \<and> cr_errors r = []"
    by (rule csv_roundtrip) (simp_all add: CSV_DEFAULTS_def menu_def proper_delimiter_def)
  then show ?thesis by (auto simp: CSV_DEFAULTS_def menu_def)
qed

end
