(* ===== verification/Changeset.thy ===== *)
theory Changeset
  imports Engine_Atomic Documents Errors
begin

text \<open>
  Changesets (\<open>packages/runtime/src/changeset.ts\<close>): a document of proposed operations that is
  previewed, approved and committed, atomically or row by row. Every operation is planned by the
  same \<open>planFor\<close> as a single call. The document, its items and its views are JavaScript objects; an
  operation's \<open>input\<close> that is no object is read as an object without members.
\<close>

definition ATOMIC_LOGICAL_LIMIT :: nat where
  "ATOMIC_LOGICAL_LIMIT = 10"

definition CHANGESET_KIND :: string where
  "CHANGESET_KIND = ''changeset''"

section \<open>The document\<close>

definition has_status :: "obj \<Rightarrow> string \<Rightarrow> bool" where
  "has_status d s \<longleftrightarrow> oget d ''status'' = JStr s"

definition set_status :: "string \<Rightarrow> obj \<Rightarrow> obj" where
  "set_status s = mput ''status'' (JStr s)"

definition proposed_op :: "jsval \<Rightarrow> string \<times> obj" where
  "proposed_op v = (js_string (oget (obj_of v) ''op''), obj_of (oget (obj_of v) ''input''))"

definition items_of :: "jsval \<Rightarrow> jsval list" where
  "items_of v = (case v of JArr vs \<Rightarrow> vs | _ \<Rightarrow> [])"

definition doc_ops :: "obj \<Rightarrow> (string \<times> obj) list" where
  "doc_ops d = map proposed_op (items_of (oget d ''operations''))"

definition is_atomic :: "obj \<Rightarrow> bool" where
  "is_atomic d \<longleftrightarrow> oget d ''mode'' = JStr ''atomic''"

text \<open>\<open>diffOf\<close>: the business members that a plan changes.\<close>

definition diff_hidden :: "commit_plan \<Rightarrow> string list" where
  "diff_hidden p = map f_name (filter (\<lambda>f. f_serverOwned f \<and> (f_name f \<noteq> ''id'' \<or> cp_kind p = PkCreate) \<and>
     \<not> (case r_lifecycle (cp_resource p) of None \<Rightarrow> False | Some lc \<Rightarrow> f_name f = lc_field lc)) (r_fields (cp_resource p)))"

definition diff_entry :: "commit_plan \<Rightarrow> string \<Rightarrow> jsval option" where
  "diff_entry p k =
     (let b = (case cp_before p of None \<Rightarrow> JNull | Some x \<Rightarrow> or_null (oget x k));
          a = (if cp_hardDelete p then JNull else or_null (oget (cp_after p) k))
      in if stable_json a \<noteq> stable_json b
         then Some (JObj [(''path'', JStr k), (''before'', b), (''after'', a)]) else None)"

definition diffOf :: "commit_plan \<Rightarrow> jsval list" where
  "diffOf p =
     (let keys = filter (\<lambda>k. k \<notin> set (diff_hidden p))
        (dedup ((case cp_before p of None \<Rightarrow> [] | Some x \<Rightarrow> map fst x) @ map fst (cp_after p)))
      in List.map_filter (diff_entry p) (sort keys))"

text \<open>\<open>load\<close>, \<open>save\<close> and \<open>view\<close>.\<close>

definition cs_load :: "env \<Rightarrow> string \<Rightarrow> call_context \<Rightarrow> obj eff" where
  "cs_load E i ctx =
     eff_bind (storage_read E (\<lambda>m. mem_getDocument m (cx_tenant ctx) CHANGESET_KIND i)) (\<lambda>d.
     case d of None \<Rightarrow> eff_fail (err ''NotFound'') | Some doc \<Rightarrow> eff_ret doc)"

definition doc_id :: "obj \<Rightarrow> string" where
  "doc_id d = js_string (oget d ''id'')"

definition next_version :: "nat option \<Rightarrow> int" where
  "next_version e = (case e of None \<Rightarrow> 0 | Some v \<Rightarrow> int v) + 1"

definition cs_save :: "env \<Rightarrow> obj \<Rightarrow> call_context \<Rightarrow> obj eff" where
  "cs_save E doc ctx =
     (let expected = doc_expected (Some doc) in
      eff_bind (storage_write E (\<lambda>m. mem_putDocument m (cx_tenant ctx) CHANGESET_KIND (doc_id doc) doc expected)) (\<lambda>_.
      eff_ret (mput ''_version'' (JInt (next_version expected)) doc)))"

definition cs_view :: "obj \<Rightarrow> obj" where
  "cs_view d =
     (let rest = mdel ''results'' (mdel ''preview'' (mdel ''_version'' d));
          counted = mput ''operations'' (JInt (int (length (items_of (oget d ''operations''))))) rest;
          preview = oget d ''preview'';
          shown = (if truthy preview
            then mput ''budget'' (oget (obj_of preview) ''budget'') (mput ''items'' (oget (obj_of preview) ''items'') counted)
            else counted)
      in if truthy (oget d ''results'') then mput ''results'' (oget d ''results'') shown else shown)"

section \<open>Proposing\<close>

definition propose_op :: "app_model \<Rightarrow> jsval \<Rightarrow> jsval res" where
  "propose_op md v =
     (case oget (obj_of v) ''op'' of
        JStr s \<Rightarrow>
          (case model_operation md s of
             None \<Rightarrow> Inl (err ''ValidationFailed'')
           | Some (op, r) \<Rightarrow>
               if list_ex f_secret (r_fields r) then Inl (err ''ValidationFailed'')
               else Inr (JObj [(''op'', JStr s), (''input'', orElse (oget (obj_of v) ''input'') (JObj []))]))
      | _ \<Rightarrow> Inl (err ''ValidationFailed''))"

definition propose_mode :: "obj \<Rightarrow> string" where
  "propose_mode body = (if oget body ''mode'' = JStr ''atomic'' then ''atomic'' else ''resumable'')"

definition proposed_doc :: "string \<Rightarrow> string \<Rightarrow> jsval list \<Rightarrow> string \<Rightarrow> jsval \<Rightarrow> obj" where
  "proposed_doc i mode operations actor source =
     [(''id'', JStr i), (''status'', JStr ''proposed''), (''mode'', JStr mode), (''operations'', JArr operations),
      (''actor'', JStr actor)] @ (if truthy source then [(''source'', source)] else [])"

definition cs_propose :: "env \<Rightarrow> obj \<Rightarrow> call_context \<Rightarrow> obj eff" where
  "cs_propose E body ctx =
     (case oget body ''operations'' of
        JArr (v # vs) \<Rightarrow>
          eff_bind (eff_of (map_res (propose_op (en_model E)) (v # vs))) (\<lambda>operations.
          eff_bind (eff_env (en_opId E)) (\<lambda>i.
          eff_bind (cs_save E (proposed_doc i (propose_mode body) operations (cx_actor ctx) (oget body ''source'')) ctx) (\<lambda>saved.
          eff_ret (cs_view saved))))
      | _ \<Rightarrow> eff_fail (err ''ValidationFailed''))"

section \<open>Planning every operation\<close>

text \<open>A failure that is no ForgeError is a defect of the whole call.\<close>

definition ok_item :: "nat \<Rightarrow> string \<Rightarrow> jsval list \<Rightarrow> obj \<Rightarrow> obj" where
  "ok_item i op diff x = [(''index'', JInt (int i)), (''op'', JStr op), (''status'', JStr ''ok''), (''diff'', JArr diff), (''result'', JObj x)]"

definition error_item :: "nat \<Rightarrow> string \<Rightarrow> obj \<Rightarrow> obj" where
  "error_item i op e = [(''index'', JInt (int i)), (''op'', JStr op), (''status'', JStr ''error''), (''error'', JObj e)]"

definition plan_item :: "env \<Rightarrow> call_context \<Rightarrow> nat \<Rightarrow> string \<Rightarrow> commit_plan res \<Rightarrow> (obj \<times> commit_plan option) res" where
  "plan_item E ctx i op planned =
     (case planned of
        Inr p \<Rightarrow> bind_res (resultOf E p) (\<lambda>x. Inr (ok_item i op (diffOf p) x, Some p))
      | Inl (Forge fe) \<Rightarrow> Inr (error_item i op (problem fe (cx_requestId ctx)), None)
      | Inl e \<Rightarrow> Inl e)"

definition plan_one :: "env \<Rightarrow> call_context \<Rightarrow> nat \<times> string \<times> obj \<Rightarrow> (obj \<times> commit_plan option) eff" where
  "plan_one E ctx x = (case x of (i, op, input) \<Rightarrow>
     eff_bind (eff_exit (planFor E op input ctx True)) (\<lambda>planned. eff_of (plan_item E ctx i op planned)))"

definition planAll :: "env \<Rightarrow> obj \<Rightarrow> call_context \<Rightarrow> (obj \<times> commit_plan option) list eff" where
  "planAll E doc ctx = eff_map (plan_one E ctx) (enumerate 0 (doc_ops doc))"

definition physical_actions :: "commit_plan option list \<Rightarrow> nat" where
  "physical_actions plans = budget_actions (List.map_filter id plans) 0 0"

definition cs_budget :: "obj \<Rightarrow> commit_plan option list \<Rightarrow> obj" where
  "cs_budget doc plans =
     [(''mode'', oget doc ''mode''), (''logicalOperations'', JInt (int (length (doc_ops doc)))),
      (''logicalLimit'', JInt (int ATOMIC_LOGICAL_LIMIT)), (''physicalActions'', JInt (int (physical_actions plans))),
      (''physicalLimit'', JInt (int MEMORY_BUDGET)),
      (''atomicAllowed'', JBool (None \<notin> set plans \<and> length (doc_ops doc) \<le> ATOMIC_LOGICAL_LIMIT \<and>
         physical_actions plans \<le> MEMORY_BUDGET))]"

section \<open>Preview and approval\<close>

text \<open>The text whose digest an approval is bound to.\<close>

definition hashed_item :: "jsval \<Rightarrow> jsval" where
  "hashed_item i = JObj [(''status'', oget (obj_of i) ''status''), (''diff'', or_null (oget (obj_of i) ''diff''))]"

definition content_text :: "obj \<Rightarrow> jsval list \<Rightarrow> string" where
  "content_text doc items = stable_json (JObj [(''mode'', oget doc ''mode''), (''operations'', oget doc ''operations''),
     (''items'', JArr (map hashed_item items))])"

definition previewed_doc :: "obj \<Rightarrow> string \<Rightarrow> jsval list \<Rightarrow> obj \<Rightarrow> obj" where
  "previewed_doc doc contentHash items budget =
     (let status = (if has_status doc ''approved'' \<and> oget doc ''approvedHash'' = JStr contentHash then ''approved'' else ''previewed'')
      in mput ''preview'' (JObj [(''items'', JArr items), (''budget'', JObj budget)])
           (mput ''contentHash'' (JStr contentHash) (set_status status doc)))"

definition PREVIEWABLE :: "string list" where
  "PREVIEWABLE = [''proposed'', ''previewed'', ''approved'']"

definition cs_preview :: "env \<Rightarrow> string \<Rightarrow> call_context \<Rightarrow> obj eff" where
  "cs_preview E i ctx =
     eff_bind (cs_load E i ctx) (\<lambda>doc.
     eff_bind (eff_guard (list_ex (has_status doc) PREVIEWABLE) (err ''InvalidTransition'')) (\<lambda>_.
     eff_bind (planAll E doc ctx) (\<lambda>planned.
     let items = map (JObj \<circ> fst) planned;
         contentHash = sha256 E (content_text doc items) in
     eff_bind (cs_save E (previewed_doc doc contentHash items (cs_budget doc (map snd planned))) ctx) (\<lambda>saved.
     eff_ret (mput ''contentHash'' (JStr contentHash) (cs_view saved))))))"

definition approved_doc :: "obj \<Rightarrow> string \<Rightarrow> obj" where
  "approved_doc doc contentHash = mput ''approvedHash'' (JStr contentHash) (set_status ''approved'' doc)"

definition cs_approve :: "env \<Rightarrow> string \<Rightarrow> string \<Rightarrow> call_context \<Rightarrow> obj eff" where
  "cs_approve E i contentHash ctx =
     eff_bind (cs_load E i ctx) (\<lambda>doc.
     eff_bind (eff_guard (has_status doc ''previewed'' \<or> has_status doc ''approved'') (err ''InvalidTransition'')) (\<lambda>_.
     eff_bind (eff_guard (truthy (oget doc ''contentHash'') \<and> JStr contentHash = oget doc ''contentHash'') (err ''VersionConflict'')) (\<lambda>_.
     eff_bind (cs_save E (approved_doc doc contentHash) ctx) (\<lambda>saved.
     eff_ret (cs_view saved)))))"

section \<open>Commit\<close>

text \<open>\<open>{ ...i, diff: undefined, result: undefined }\<close>.\<close>

definition bare :: "obj \<Rightarrow> obj" where
  "bare i = mput ''result'' JUndef (mput ''diff'' JUndef i)"

definition is_error :: "obj \<Rightarrow> bool" where
  "is_error i \<longleftrightarrow> has_status i ''error''"

definition with_results :: "string \<Rightarrow> obj list \<Rightarrow> obj \<Rightarrow> obj" where
  "with_results status results doc = mput ''results'' (JArr (map JObj results)) (set_status status doc)"

definition save_view :: "env \<Rightarrow> call_context \<Rightarrow> obj \<Rightarrow> obj eff" where
  "save_view E ctx doc = eff_bind (cs_save E doc ctx) (\<lambda>saved. eff_ret (cs_view saved))"

text \<open>The results of an atomic commit: an operation could not be planned, the commit failed, or it succeeded.\<close>

definition unplanned_results :: "nat \<Rightarrow> obj list \<Rightarrow> obj list" where
  "unplanned_results firstError items =
     map (\<lambda>(k, i). if k = firstError then set_status ''error'' i else bare (set_status ''skipped'' i)) (enumerate 0 items)"

definition refused_results :: "obj \<Rightarrow> obj list \<Rightarrow> obj list" where
  "refused_results e items =
     map (\<lambda>(k, i). if k = 0 then bare (mput ''error'' (JObj e) (set_status ''error'' i)) else bare (set_status ''skipped'' i))
       (enumerate 0 items)"

definition committed_item :: "env \<Rightarrow> obj \<times> commit_plan option \<Rightarrow> obj res" where
  "committed_item E x =
     (case snd x of
        None \<Rightarrow> Inl type_error
      | Some p \<Rightarrow> bind_res (resultOf E p) (\<lambda>y.
          Inr (mput ''diff'' JUndef (mput ''result'' (JObj y) (set_status ''committed'' (fst x))))))"

definition budget_exceeded :: "nat \<Rightarrow> nat \<Rightarrow> exn" where
  "budget_exceeded actions n = Forge ((forge_err ''BudgetExceeded'')\<lparr>fe_budget := Some
     [(''physicalActions'', int actions), (''physicalLimit'', int MEMORY_BUDGET), (''operations'', int n),
      (''logicalLimit'', int ATOMIC_LOGICAL_LIMIT)]\<rparr>)"

definition commit_atomic :: "env \<Rightarrow> obj \<Rightarrow> (obj \<times> commit_plan option) list \<Rightarrow> call_context \<Rightarrow> obj eff" where
  "commit_atomic E doc planned ctx =
     (let items = map fst planned; plans = map snd planned; n = length (doc_ops doc) in
      eff_bind (eff_guard (n \<le> ATOMIC_LOGICAL_LIMIT \<and> physical_actions plans \<le> MEMORY_BUDGET)
          (budget_exceeded (physical_actions plans) n)) (\<lambda>_.
      case find_index is_error items of
        Some k \<Rightarrow> save_view E ctx (with_results ''failed'' (unplanned_results k items) doc)
      | None \<Rightarrow>
          eff_bind (eff_exit (storage_commit E (\<lambda>m. commitAll m (List.map_filter id plans) [] []))) (\<lambda>exit.
          case exit of
            Inl (Forge fe) \<Rightarrow> save_view E ctx (with_results ''failed'' (refused_results (problem fe (cx_requestId ctx)) items) doc)
          | Inl e \<Rightarrow> eff_fail e
          | Inr u \<Rightarrow>
              eff_bind (eff_of (map_res (committed_item E) planned)) (\<lambda>results.
              save_view E ctx (with_results ''committed'' results doc)))))"

text \<open>Row by row: each row commits under its own receipt, and the progress is saved after every row.\<close>

definition row_key :: "string \<Rightarrow> nat \<Rightarrow> string" where
  "row_key i index = ''cs:'' @ i @ '':'' @ show_nat index"

definition row_context :: "call_context \<Rightarrow> string \<Rightarrow> call_context" where
  "row_context ctx key = ctx\<lparr>cx_idempotencyKey := Some key\<rparr>"

definition commit_row :: "env \<Rightarrow> call_context \<Rightarrow> string \<Rightarrow> nat \<times> string \<times> obj \<Rightarrow> jsval eff" where
  "commit_row E ctx i x = (case x of (index, op, input) \<Rightarrow>
     (let key = row_key i index; rowCtx = row_context ctx key in
      withIdempotency E op input rowCtx
        (\<lambda>rc. eff_bind (planFor E op input rowCtx False) (commit_plan_eff E rc)) (Some key)))"

definition row_result :: "call_context \<Rightarrow> nat \<Rightarrow> string \<Rightarrow> jsval res \<Rightarrow> obj res" where
  "row_result ctx index op exit =
     (case exit of
        Inr v \<Rightarrow> Inr [(''index'', JInt (int index)), (''op'', JStr op), (''status'', JStr ''committed''), (''result'', v)]
      | Inl (Forge fe) \<Rightarrow> Inr (error_item index op (problem fe (cx_requestId ctx)))
      | Inl e \<Rightarrow> Inl e)"

definition row_committed :: "obj list \<Rightarrow> nat \<Rightarrow> bool res" where
  "row_committed results index = (if index < length results then Inr (has_status (results ! index) ''committed'') else Inl type_error)"

fun commit_rows :: "env \<Rightarrow> call_context \<Rightarrow> (nat \<times> string \<times> obj) list \<Rightarrow> obj \<Rightarrow> obj list \<Rightarrow> (obj \<times> obj list) eff" where
  "commit_rows E ctx [] doc results = eff_ret (doc, results)"
| "commit_rows E ctx (x # xs) doc results =
     eff_bind (eff_of (row_committed results (fst x))) (\<lambda>skip.
     if skip then commit_rows E ctx xs doc results
     else
       eff_bind (eff_exit (commit_row E ctx (doc_id doc) x)) (\<lambda>exit.
       eff_bind (eff_of (row_result ctx (fst x) (fst (snd x)) exit)) (\<lambda>r.
       let results' = results[fst x := r] in
       eff_bind (cs_save E (with_results ''committing'' results' doc) ctx) (\<lambda>doc'.
       commit_rows E ctx xs doc' results'))))"

definition initial_results :: "obj \<Rightarrow> obj list" where
  "initial_results doc =
     (if nullish (oget doc ''results'')
      then map (\<lambda>(k, op, input). [(''index'', JInt (int k)), (''op'', JStr op), (''status'', JStr ''ok'')]) (enumerate 0 (doc_ops doc))
      else map obj_of (items_of (oget doc ''results'')))"

definition commitResumable :: "env \<Rightarrow> obj \<Rightarrow> call_context \<Rightarrow> obj eff" where
  "commitResumable E doc ctx =
     eff_bind (commit_rows E ctx (enumerate 0 (doc_ops doc)) doc (initial_results doc)) (\<lambda>(doc', results).
     save_view E ctx (with_results
       (if list_all (\<lambda>r. has_status r ''committed'') results then ''committed'' else ''partially-committed'') results doc'))"

definition cs_commit :: "env \<Rightarrow> string \<Rightarrow> call_context \<Rightarrow> obj eff" where
  "cs_commit E i ctx =
     eff_bind (cs_load E i ctx) (\<lambda>doc.
     if has_status doc ''committed'' then eff_ret (cs_view doc)
     else if has_status doc ''partially-committed'' then commitResumable E doc ctx
     else if \<not> has_status doc ''approved'' then eff_fail (err ''InvalidTransition'')
     else
       eff_bind (planAll E doc ctx) (\<lambda>planned.
       if is_atomic doc then commit_atomic E doc planned ctx
       else
         eff_bind (cs_save E (with_results ''committing'' (map (bare \<circ> fst) planned) doc) ctx) (\<lambda>doc'.
         commitResumable E doc' ctx)))"

section \<open>Dispatch\<close>

definition cs_handle :: "env \<Rightarrow> string \<Rightarrow> obj \<Rightarrow> call_context \<Rightarrow> obj eff" where
  "cs_handle E action body ctx =
     (let i = js_string (oget body ''id'') in
      if action = ''propose'' then cs_propose E body ctx
      else if action = ''get'' then eff_bind (cs_load E i ctx) (\<lambda>d. eff_ret (cs_view d))
      else if action = ''preview'' then cs_preview E i ctx
      else if action = ''approve'' then cs_approve E i (js_string (orElse (oget body ''contentHash'') (JStr []))) ctx
      else if action = ''commit'' then cs_commit E i ctx
      else eff_fail (err ''MethodNotAllowed''))"

end
