(* ===== verification/Changeset_Correct.thy ===== *)
theory Changeset_Correct
  imports Changeset Engine_Keeping
begin

text \<open>
  What the documents of changesets guarantee, whatever other callers do in between: a triple says
  what holds of the store after a computation that returned, and after one that failed. A sound
  document is in a known state, its content hash describes its preview, an approved one is bound to
  that hash, and a row is reported as committed only if its receipt is in the store with that result.
\<close>

section \<open>What others leave alone\<close>

definition receipts_kept :: "string \<Rightarrow> memory \<Rightarrow> memory \<Rightarrow> bool" where
  "receipts_kept t m m' \<longleftrightarrow> (\<forall>opn key rc. mem_getReceipt m t opn key = Some rc \<longrightarrow> mem_getReceipt m' t opn key = Some rc)"

definition undisturbed :: "string \<Rightarrow> memory \<Rightarrow> memory \<Rightarrow> bool" where
  "undisturbed t m m' \<longleftrightarrow> receipts_kept t m m' \<and> (\<forall>i. stored_doc m' t CHANGESET_KIND i = stored_doc m t CHANGESET_KIND i)"

text \<open>An assertion that survives the steps of other callers and the commits of rows.\<close>

definition stable :: "env \<Rightarrow> string \<Rightarrow> (memory \<Rightarrow> bool) \<Rightarrow> bool" where
  "stable E t P \<longleftrightarrow> (\<forall>n m. P m \<longrightarrow> P (en_others E n m)) \<and> (\<forall>m m'. undisturbed t m m' \<longrightarrow> P m \<longrightarrow> P m')"

lemma stable_others: "stable E t P \<Longrightarrow> P m \<Longrightarrow> P (en_others E n m)"
  by (simp add: stable_def)

lemma stable_undisturbed: "stable E t P \<Longrightarrow> undisturbed t m m' \<Longrightarrow> P m \<Longrightarrow> P m'"
  by (auto simp: stable_def)

lemma stable_now: "stable E t P \<Longrightarrow> P (wo_store w) \<Longrightarrow> P (world_now E w)"
  by (simp add: world_now_def stable_others)

lemma triple_read: "stable E t P \<Longrightarrow> triple P (storage_read E f) (\<lambda>x s. P s \<and> x = f s) R"
  by (auto simp: triple_def storage_read_def storage_def Let_def stable_others)

lemma undisturbed_refl [simp]: "undisturbed t m m"
  by (simp add: undisturbed_def receipts_kept_def)

lemma undisturbed_trans: "undisturbed t a b \<Longrightarrow> undisturbed t b c \<Longrightarrow> undisturbed t a c"
  by (simp add: undisturbed_def receipts_kept_def)

lemma other_document_undisturbed:
  assumes "mem_putDocument m t k i d e = Inr m'" "plain_text t" "plain_text k" "k \<noteq> CHANGESET_KIND"
  shows "undisturbed t m m'"
proof -
  obtain ds where ds: "putDocument (me_documents m) t k i (mdel ''_version'' d) e = Inr ds" "m' = m\<lparr>me_documents := ds\<rparr>"
    using assms(1) by (auto simp: mem_putDocument_def res_simps)
  have "key3 t CHANGESET_KIND j \<noteq> key3 t k i" for j
    using key3_kind [of t CHANGESET_KIND t k] assms(2-4) by (auto simp: CHANGESET_KIND_def plain_text_def)
  then show ?thesis
    using ds by (auto simp: undisturbed_def receipts_kept_def mem_getReceipt_def stored_doc_def getDocument_def putDocument_def
        Let_def split: if_splits)
qed

text \<open>Planning keeps every stable assertion: its only writes are to documents of sequences.\<close>

lemma stable_plan:
  assumes "stable E t P" "plain_text t"
  shows "plan_stable E t P"
proof -
  have "plain_text SEQUENCE_KIND" "SEQUENCE_KIND \<noteq> CHANGESET_KIND"
    by (simp_all add: SEQUENCE_KIND_def CHANGESET_KIND_def plain_text_def)
  with assms show ?thesis
    by (auto simp: plan_stable_def stable_others intro: stable_undisturbed [OF assms(1) other_document_undisturbed])
qed

section \<open>Commits\<close>

lemma commitSync_undisturbed:
  assumes "commitSync m p = (None, m')" "cp_completion p = None" "plain_text t" "cp_tenant p = t"
  shows "undisturbed t m m'"
proof -
  have "stored_doc m' t CHANGESET_KIND i = stored_doc m t CHANGESET_KIND i" for i
    using commitSync_documents [OF assms(1,2), of t CHANGESET_KIND i] assms(3,4)
    by (simp add: CHANGESET_KIND_def RESOURCE_REVISION_def plain_text_def)
  moreover have "mem_commit m p = (None, m')" using assms(1) by (simp add: mem_commit_ok)
  ultimately show ?thesis
    using Memory_Correct.receipts_kept by (auto simp: undisturbed_def receipts_kept_def mem_getReceipt_def)
qed

lemma commit_plans_undisturbed:
  "commit_plans m ps = (None, m') \<Longrightarrow> \<forall>p\<in>set ps. row_plan t p \<Longrightarrow> plain_text t \<Longrightarrow> undisturbed t m m'"
proof (induction m ps rule: commit_plans.induct)
  case (2 m p ps)
  then obtain m1 where m1: "commitSync m p = (None, m1)" "commit_plans m1 ps = (None, m')"
    by (auto split: prod.splits option.splits)
  have "undisturbed t m m1" by (rule commitSync_undisturbed [OF m1(1)]) (use 2 in \<open>auto simp: row_plan_def\<close>)
  moreover have "undisturbed t m1 m'" using 2 m1 by auto
  ultimately show ?case by (rule undisturbed_trans)
qed simp

lemma commitAll_undisturbed:
  assumes "commitAll m ps [] [] = (e, m')" "\<forall>p\<in>set ps. row_plan t p" "plain_text t"
  shows "undisturbed t m m'"
proof (cases e)
  case None
  with assms have "commit_plans m ps = (None, m')"
    by (auto simp: commitAll_def split: prod.splits option.splits if_splits)
  then show ?thesis by (rule commit_plans_undisturbed [OF _ assms(2,3)])
next
  case (Some x)
  with assms(1) commitAll_fails show ?thesis by fastforce
qed

lemma mem_commit_undisturbed:
  assumes "mem_commit m p = (e, m')" "row_plan t p" "plain_text t"
  shows "undisturbed t m m'"
proof (cases e)
  case None
  with assms have "commitSync m p = (None, m')" by (simp add: mem_commit_ok)
  then show ?thesis by (rule commitSync_undisturbed) (use assms in \<open>simp_all add: row_plan_def\<close>)
next
  case (Some x)
  with assms(1) mem_commit_fails show ?thesis by fastforce
qed

lemma triple_commitAll:
  assumes "stable E t P" "\<forall>p\<in>set ps. row_plan t p" "plain_text t"
  shows "triple P (storage_commit E (\<lambda>m. commitAll m ps [] [])) (\<lambda>_. P) P"
  using assms(1)
  by (auto simp: triple_def storage_commit_def storage_def Let_def split: prod.splits option.splits sum.splits
      intro: stable_undisturbed [OF assms(1) commitAll_undisturbed [OF _ assms(2,3)]] stable_others)

text \<open>A row commits under its receipt, or fails and has changed nothing.\<close>

lemma triple_commit_row:
  assumes "stable E t P" "row_plan t p" "plain_text t"
  shows "triple P (commit_plan_eff E (Some rc) p)
    (\<lambda>x s. P s \<and> mem_getReceipt s t (rc_operation rc) (rc_key rc) = Some (rc\<lparr>rc_response := JObj x\<rparr>)) P"
  unfolding triple_def
proof (intro allI impI)
  fix w :: world and r w'
  assume P: "P (wo_store w)" and run: "commit_plan_eff E (Some rc) p w = (r, w')"
  show "case r of Inr x \<Rightarrow> P (wo_store w') \<and>
      mem_getReceipt (wo_store w') t (rc_operation rc) (rc_key rc) = Some (rc\<lparr>rc_response := JObj x\<rparr>) | Inl e \<Rightarrow> P (wo_store w')"
  proof (cases "resultOf E p")
    case (Inl e)
    with run have "r = Inl e \<and> w' = w" by (auto simp: commit_plan_eff_def with_receipt_def eff_bind_def eff_of_def)
    with P show ?thesis by simp
  next
    case (Inr x)
    let ?p = "p\<lparr>cp_receipt := Some (rc\<lparr>rc_response := JObj x\<rparr>)\<rparr>"
    obtain e m' where c: "mem_commit (world_now E w) ?p = (e, m')" by (cases "mem_commit (world_now E w) ?p") auto
    have P': "P m'"
      by (rule stable_undisturbed [OF assms(1) mem_commit_undisturbed [OF c]]) (use assms P in \<open>simp_all add: stable_now row_plan_def\<close>)
    have st: "wo_store w' = m'" and r: "r = (case e of None \<Rightarrow> Inr x | Some y \<Rightarrow> Inl y)"
      using run c Inr by (auto simp: commit_plan_eff_def with_receipt_def eff_bind_def eff_of_def storage_commit_def
          storage_def Let_def world_now_def split: option.splits prod.splits)
    show ?thesis
    proof (cases e)
      case None
      with receipt_written [of "world_now E w" ?p m'] c r st P' assms(2) show ?thesis
        by (simp add: row_plan_def mem_getReceipt_def receipt_key_def)
    next
      case (Some y)
      with r st P' show ?thesis by simp
    qed
  qed
qed

text \<open>The row's effect under its key: what it returns is the response of the receipt in the store.\<close>

definition has_response :: "string \<Rightarrow> string \<Rightarrow> string \<Rightarrow> jsval \<Rightarrow> memory \<Rightarrow> bool" where
  "has_response t opn key v s \<longleftrightarrow> (\<exists>rc. mem_getReceipt s t opn key = Some rc \<and> rc_response rc = v)"

lemma triple_replay:
  "triple (\<lambda>s. P s \<and> mem_getReceipt s t opn key = Some rc) (replay E opn ctx h rc)
     (\<lambda>v s. P s \<and> has_response t opn key v s) P"
  unfolding triple_def
proof (intro allI impI)
  fix w :: world and r w'
  assume a: "P (wo_store w) \<and> mem_getReceipt (wo_store w) t opn key = Some rc" "replay E opn ctx h rc w = (r, w')"
  from replay_store [OF a(2)] have st: "wo_store w' = wo_store w" and "\<And>v. r = Inr v \<Longrightarrow> v = rc_response rc"
    by (auto split: if_splits)
  then show "case r of Inr v \<Rightarrow> P (wo_store w') \<and> has_response t opn key v (wo_store w') | Inl e \<Rightarrow> P (wo_store w')"
    using a(1) by (cases r) (auto simp: has_response_def)
qed

lemma planFor_triple:
  assumes "stable E (cx_tenant ctx) P" "plain_text (cx_tenant ctx)"
  shows "triple P (planFor E opId body ctx preview) (\<lambda>p s. P s \<and> row_plan (cx_tenant ctx) p) P"
  by (rule triple_planFor [OF stable_plan [OF assms]])

lemma triple_find_receipt:
  assumes "stable E (cx_tenant ctx) P"
  shows "triple P (find_receipt E ctx opn key) (\<lambda>x s. P s \<and> mem_getReceipt s (cx_tenant ctx) opn key = x) P"
  using assms by (auto simp: triple_def find_receipt_run world_now_def stable_others)

lemma row_run_triple:
  assumes "stable E (cx_tenant ctx) P" "plain_text (cx_tenant ctx)"
  shows "triple P (eff_bind (planFor E op input ctx False) (commit_plan_eff E (Some rc)))
    (\<lambda>x s. P s \<and> mem_getReceipt s (cx_tenant ctx) (rc_operation rc) (rc_key rc) = Some (rc\<lparr>rc_response := JObj x\<rparr>)) P"
proof (rule triple_bind [OF planFor_triple [OF assms]])
  fix p
  show "triple (\<lambda>s. P s \<and> row_plan (cx_tenant ctx) p) (commit_plan_eff E (Some rc) p)
    (\<lambda>x s. P s \<and> mem_getReceipt s (cx_tenant ctx) (rc_operation rc) (rc_key rc) = Some (rc\<lparr>rc_response := JObj x\<rparr>)) P"
    by (intro triple_pure) (rule triple_commit_row [OF assms(1) _ assms(2)])
qed

lemma idempotent_triple:
  assumes "stable E t P" "cx_tenant ctx = t"
    and "effective_key explicit ctx = Some key"
    and "\<And>rc. triple P (run (Some rc))
      (\<lambda>x s. P s \<and> mem_getReceipt s t (rc_operation rc) (rc_key rc) = Some (rc\<lparr>rc_response := JObj x\<rparr>)) P"
  shows "triple P (withIdempotency E opn body ctx run explicit) (\<lambda>v s. P s \<and> has_response t opn key v s) P"
proof -
  let ?h = "sha256 E (stable_json (JObj body))"
  let ?Q = "\<lambda>v s. P s \<and> has_response t opn key v s"
  have found: "triple P (find_receipt E ctx opn key) (\<lambda>x s. P s \<and> mem_getReceipt s t opn key = x) P"
    using triple_find_receipt [of E ctx P] assms(1,2) by simp
  have first: "triple P (eff_bind (run (Some (open_receipt ctx opn key ?h now))) (\<lambda>x. eff_ret (JObj x))) ?Q P" for now
    by (rule triple_bind [OF assms(4)]) (auto simp: open_receipt_def has_response_def intro!: triple_ret)
  have again: "triple P (eff_bind (find_receipt E ctx opn key) (\<lambda>committed.
      case committed of Some rc \<Rightarrow> replay E opn ctx ?h rc | None \<Rightarrow> eff_fail e)) ?Q P" for e
  proof (rule triple_bind [OF found])
    fix x
    show "triple (\<lambda>s. P s \<and> mem_getReceipt s t opn key = x)
      (case x of Some rc \<Rightarrow> replay E opn ctx ?h rc | None \<Rightarrow> eff_fail e) ?Q P"
    proof (cases x)
      case None
      show ?thesis unfolding None option.case by (rule triple_fail) simp
    next
      case (Some rc)
      show ?thesis unfolding Some option.case by (rule triple_replay)
    qed
  qed
  have lost: "triple P (if \<not> is_version_conflict e then eff_fail e else eff_bind (find_receipt E ctx opn key) (\<lambda>committed.
      case committed of Some rc \<Rightarrow> replay E opn ctx ?h rc | None \<Rightarrow> eff_fail e)) ?Q P" for e
    by (intro triple_if triple_fail again)
  have fresh: "triple P (eff_bind (eff_env (en_clock E)) (\<lambda>now.
      eff_catch (eff_bind (run (Some (open_receipt ctx opn key ?h now))) (\<lambda>x. eff_ret (JObj x)))
        (\<lambda>e. if \<not> is_version_conflict e then eff_fail e else eff_bind (find_receipt E ctx opn key) (\<lambda>committed.
           case committed of Some rc \<Rightarrow> replay E opn ctx ?h rc | None \<Rightarrow> eff_fail e)))) ?Q P"
    by (intro triple_bind [OF triple_env] triple_catch [OF first] lost)
  show ?thesis
    unfolding withIdempotency_def assms(3) option.case Let_def
  proof (rule triple_bind [OF found])
    fix existing
    show "triple (\<lambda>s. P s \<and> mem_getReceipt s t opn key = existing) (case existing of None \<Rightarrow> eff_bind (eff_env (en_clock E)) (\<lambda>now.
        eff_catch (eff_bind (run (Some (open_receipt ctx opn key ?h now))) (\<lambda>x. eff_ret (JObj x)))
          (\<lambda>e. if \<not> is_version_conflict e then eff_fail e else eff_bind (find_receipt E ctx opn key) (\<lambda>committed.
             case committed of Some rc \<Rightarrow> replay E opn ctx ?h rc | None \<Rightarrow> eff_fail e)))
      | Some rc \<Rightarrow> replay E opn ctx ?h rc) ?Q P"
    proof (cases existing)
      case None
      show ?thesis unfolding None option.case by (rule triple_pre [OF fresh]) simp
    next
      case (Some rc)
      show ?thesis unfolding Some option.case by (rule triple_replay)
    qed
  qed
qed


section \<open>Sound documents\<close>

definition result_items :: "obj \<Rightarrow> obj list" where
  "result_items d = map obj_of (items_of (oget d ''results''))"

text \<open>The content hash of a previewed changeset is the digest of the preview that is stored with it.\<close>

definition hash_bound :: "env \<Rightarrow> obj \<Rightarrow> bool" where
  "hash_bound E d \<longleftrightarrow> oget d ''contentHash'' = JUndef \<or>
     (\<exists>items budget. oget d ''preview'' = JObj [(''items'', JArr items), (''budget'', budget)] \<and>
        oget d ''contentHash'' = JStr (sha256 E (content_text d items)))"

text \<open>A row reported as committed has its receipt in the store, with the result reported.\<close>

definition rows_receipted :: "string \<Rightarrow> memory \<Rightarrow> string \<Rightarrow> (string \<times> obj) list \<Rightarrow> obj list \<Rightarrow> bool" where
  "rows_receipted t m i ops rs \<longleftrightarrow> length rs = length ops \<and>
     (\<forall>k < length rs. has_status (rs ! k) ''committed'' \<longrightarrow>
        has_response t (fst (ops ! k)) (row_key i k) (oget (rs ! k) ''result'') m)"

definition all_committed :: "obj list \<Rightarrow> bool" where
  "all_committed rs \<longleftrightarrow> list_all (\<lambda>r. has_status r ''committed'') rs"

definition untried :: "obj \<Rightarrow> bool" where
  "untried d \<longleftrightarrow> oget d ''results'' = JUndef \<and>
     (has_status d ''proposed'' \<or> has_status d ''previewed'' \<or>
      has_status d ''approved'' \<and> oget d ''contentHash'' \<noteq> JUndef \<and> oget d ''approvedHash'' = oget d ''contentHash'')"

definition atomic_outcome :: "obj \<Rightarrow> bool" where
  "atomic_outcome d \<longleftrightarrow> is_atomic d \<and> (\<exists>vs. oget d ''results'' = JArr vs) \<and> length (result_items d) = length (doc_ops d) \<and>
     length (doc_ops d) \<le> ATOMIC_LOGICAL_LIMIT \<and>
     (has_status d ''failed'' \<and> list_all (\<lambda>r. \<not> has_status r ''committed'') (result_items d) \<or>
      has_status d ''committed'' \<and> all_committed (result_items d))"

definition resumable_progress :: "string \<Rightarrow> memory \<Rightarrow> string \<Rightarrow> obj \<Rightarrow> bool" where
  "resumable_progress t m i d \<longleftrightarrow> \<not> is_atomic d \<and> (\<exists>vs. oget d ''results'' = JArr vs) \<and>
     rows_receipted t m i (doc_ops d) (result_items d) \<and>
     (has_status d ''committing'' \<or> has_status d ''partially-committed'' \<and> \<not> all_committed (result_items d) \<or>
      has_status d ''committed'' \<and> all_committed (result_items d))"

definition cs_sound :: "env \<Rightarrow> string \<Rightarrow> memory \<Rightarrow> string \<Rightarrow> obj \<Rightarrow> bool" where
  "cs_sound E t m i d \<longleftrightarrow> doc_id d = i \<and> hash_bound E d \<and>
     (untried d \<or> atomic_outcome d \<or> resumable_progress t m i d)"

definition changesets_sound :: "env \<Rightarrow> string \<Rightarrow> memory \<Rightarrow> bool" where
  "changesets_sound E t m \<longleftrightarrow>
     (\<forall>i v d. stored_doc m t CHANGESET_KIND i = Some (v, d) \<longrightarrow> cs_sound E t m i d)"

text \<open>What other callers are asked to respect.\<close>

definition others_respect :: "env \<Rightarrow> string \<Rightarrow> bool" where
  "others_respect E t \<longleftrightarrow> (\<forall>n m. receipts_kept t m (en_others E n m)) \<and>
     (\<forall>n m. changesets_sound E t m \<longrightarrow> changesets_sound E t (en_others E n m))"

lemma response_kept: "has_response t opn key v m \<Longrightarrow> receipts_kept t m m' \<Longrightarrow> has_response t opn key v m'"
  unfolding has_response_def receipts_kept_def by blast

lemma rows_receipted_kept: "rows_receipted t m i ops rs \<Longrightarrow> receipts_kept t m m' \<Longrightarrow> rows_receipted t m' i ops rs"
  unfolding rows_receipted_def using response_kept by blast

lemma cs_sound_kept: "cs_sound E t m i d \<Longrightarrow> receipts_kept t m m' \<Longrightarrow> cs_sound E t m' i d"
  unfolding cs_sound_def resumable_progress_def using rows_receipted_kept by blast

lemma changesets_sound_kept: "changesets_sound E t m \<Longrightarrow> undisturbed t m m' \<Longrightarrow> changesets_sound E t m'"
  unfolding changesets_sound_def undisturbed_def using cs_sound_kept by metis

lemma stable_sound: "others_respect E t \<Longrightarrow> stable E t (changesets_sound E t)"
  unfolding stable_def others_respect_def using changesets_sound_kept by blast

lemma stable_and: "stable E t P \<Longrightarrow> stable E t Q \<Longrightarrow> stable E t (\<lambda>s. P s \<and> Q s)"
  by (simp add: stable_def)

lemma stable_pure: "stable E t P \<Longrightarrow> stable E t (\<lambda>s. P s \<and> b)"
  by (simp add: stable_def)

lemma stable_kept:
  assumes "others_respect E t" "\<And>m m'. P m \<Longrightarrow> receipts_kept t m m' \<Longrightarrow> P m'"
  shows "stable E t P"
  using assms unfolding stable_def others_respect_def undisturbed_def by blast

text \<open>The version of a document is none of its members.\<close>

lemma oget_version [simp]:
  "k \<noteq> ''_version'' \<Longrightarrow> oget (mput ''_version'' v d) k = oget d k"
  "k \<noteq> ''_version'' \<Longrightarrow> oget (mdel ''_version'' d) k = oget d k"
  by (simp_all add: oget_def)

lemmas document_parts = doc_id_def hash_bound_def untried_def atomic_outcome_def resumable_progress_def result_items_def
  doc_ops_def is_atomic_def has_status_def content_text_def

lemma cs_sound_cong:
  assumes "\<And>k. k \<in> {''id'', ''status'', ''mode'', ''operations'', ''contentHash'', ''approvedHash'', ''preview'', ''results''} \<Longrightarrow>
    oget d' k = oget d k"
  shows "cs_sound E t m i d' = cs_sound E t m i d"
  by (simp add: cs_sound_def document_parts assms)

lemma cs_sound_version [simp]:
  "cs_sound E t m i (mput ''_version'' v d) = cs_sound E t m i d"
  "cs_sound E t m i (mdel ''_version'' d) = cs_sound E t m i d"
  by (auto intro!: cs_sound_cong)

lemma has_status_version [simp]: "has_status (mput ''_version'' v d) s = has_status d s"
  by (simp add: has_status_def)

section \<open>Load and save\<close>

lemma loaded_sound:
  assumes "changesets_sound E t m" "mem_getDocument m t CHANGESET_KIND i = Some d"
  shows "cs_sound E t m i d"
proof -
  obtain v d0 where "stored_doc m t CHANGESET_KIND i = Some (v, d0)" "d = mput ''_version'' (JInt (int v)) d0"
    using assms(2) by (auto simp: mem_getDocument_def stored_doc_def)
  with assms(1) show ?thesis by (simp add: changesets_sound_def)
qed

lemma triple_load:
  assumes "others_respect E t" "cx_tenant ctx = t"
  shows "triple (changesets_sound E t) (cs_load E i ctx)
    (\<lambda>d s. changesets_sound E t s \<and> cs_sound E t s i d) (changesets_sound E t)"
  unfolding cs_load_def
proof (rule triple_bind [OF triple_read [OF stable_sound [OF assms(1)]]])
  fix x
  show "triple (\<lambda>s. changesets_sound E t s \<and> x = mem_getDocument s (cx_tenant ctx) CHANGESET_KIND i)
    (case x of None \<Rightarrow> eff_fail (err ''NotFound'') | Some doc \<Rightarrow> eff_ret doc)
    (\<lambda>d s. changesets_sound E t s \<and> cs_sound E t s i d) (changesets_sound E t)"
    by (cases x) (auto simp: assms(2) intro!: triple_fail triple_ret loaded_sound)
qed

lemma triple_save:
  assumes "others_respect E t" "cx_tenant ctx = t"
  shows "triple (\<lambda>s. changesets_sound E t s \<and> cs_sound E t s (doc_id doc) doc) (cs_save E doc ctx)
    (\<lambda>d s. changesets_sound E t s \<and> cs_sound E t s (doc_id doc) doc \<and> (\<exists>v. d = mput ''_version'' v doc)) (changesets_sound E t)"
proof -
  let ?P = "\<lambda>s. changesets_sound E t s \<and> cs_sound E t s (doc_id doc) doc"
  let ?e = "doc_expected (Some doc)"
  have P: "stable E t ?P"
    by (intro stable_and stable_sound stable_kept [OF assms(1)] assms) (blast intro: cs_sound_kept)+
  have saved: "?P m'" if P: "?P m" and put: "mem_putDocument m t CHANGESET_KIND (doc_id doc) doc ?e = Inr m'" for m m'
  proof -
    obtain ds where ds: "putDocument (me_documents m) t CHANGESET_KIND (doc_id doc) (mdel ''_version'' doc) ?e = Inr ds"
      "m' = m\<lparr>me_documents := ds\<rparr>" using put by (auto simp: mem_putDocument_def res_simps)
    have kept: "receipts_kept t m m'" by (simp add: ds(2) receipts_kept_def mem_getReceipt_def)
    have other: "stored_doc m' t CHANGESET_KIND j = stored_doc m t CHANGESET_KIND j" if "j \<noteq> doc_id doc" for j
      using that ds key3_id [of t CHANGESET_KIND j "doc_id doc"]
      by (auto simp: stored_doc_def getDocument_def putDocument_def Let_def split: if_splits)
    have sound: "cs_sound E t m' (doc_id doc) doc" using P kept by (blast intro: cs_sound_kept)
    have "cs_sound E t m' j d" if d: "stored_doc m' t CHANGESET_KIND j = Some (v, d)" for j v d
    proof (cases "j = doc_id doc")
      case True
      then have "d = mdel ''_version'' doc" using d doc_written(2) [OF put] by simp
      with True sound show ?thesis by simp
    next
      case False
      with d other have "stored_doc m t CHANGESET_KIND j = Some (v, d)" by simp
      with P have "cs_sound E t m j d" unfolding changesets_sound_def by blast
      then show ?thesis using kept by (rule cs_sound_kept)
    qed
    with sound show ?thesis unfolding changesets_sound_def by blast
  qed
  have "triple ?P (storage_write E (\<lambda>m. mem_putDocument m t CHANGESET_KIND (doc_id doc) doc ?e)) (\<lambda>_. ?P) ?P"
    unfolding triple_def storage_write_def storage_def Let_def
  proof (intro allI impI)
    fix w :: world and r w'
    assume Pw: "?P (wo_store w)"
    let ?m = "en_others E (wo_tick w) (wo_store w)"
    have Pm: "?P ?m" by (rule stable_others [OF P Pw])
    assume "(case case mem_putDocument ?m t CHANGESET_KIND (doc_id doc) doc ?e of Inl e \<Rightarrow> (Inl e, ?m) | Inr m' \<Rightarrow> (Inr (), m') of
      (r, m) \<Rightarrow> (r, w\<lparr>wo_store := m, wo_tick := wo_tick w + 1\<rparr>)) = (r, w')"
    with Pm saved [OF Pm] show "case r of Inr x \<Rightarrow> ?P (wo_store w') | Inl e \<Rightarrow> ?P (wo_store w')"
      by (cases "mem_putDocument ?m t CHANGESET_KIND (doc_id doc) doc ?e") auto
  qed
  then have w: "triple ?P (storage_write E (\<lambda>m. mem_putDocument m t CHANGESET_KIND (doc_id doc) doc ?e)) (\<lambda>_. ?P) (changesets_sound E t)"
    by (rule triple_weaken) blast+
  show ?thesis
    unfolding cs_save_def Let_def assms(2) by (rule triple_bind [OF w]) (rule triple_ret, blast)
qed


section \<open>The documents that are saved\<close>

lemma proposed_sound: "cs_sound E t m i (proposed_doc i mode ops actor source)"
  by (simp add: cs_sound_def doc_id_def hash_bound_def untried_def has_status_def proposed_doc_def oget_def)

lemma proposed_id [simp]: "doc_id (proposed_doc i mode ops actor source) = i"
  by (simp add: doc_id_def proposed_doc_def oget_def)

lemma previewable_untried:
  assumes "cs_sound E t m i d" "list_ex (has_status d) PREVIEWABLE"
  shows "untried d"
  using assms by (auto simp: cs_sound_def PREVIEWABLE_def atomic_outcome_def resumable_progress_def has_status_def)

lemma content_text_cong:
  "oget d' ''mode'' = oget d ''mode'' \<Longrightarrow> oget d' ''operations'' = oget d ''operations'' \<Longrightarrow> content_text d' items = content_text d items"
  by (simp add: content_text_def)

lemma previewed_sound:
  assumes "cs_sound E t m i d" "list_ex (has_status d) PREVIEWABLE"
  shows "cs_sound E t m i (previewed_doc d (sha256 E (content_text d items)) items budget)" (is "cs_sound E t m i ?d")
proof -
  have "oget ?d ''mode'' = oget d ''mode''" "oget ?d ''operations'' = oget d ''operations''"
    by (simp_all add: previewed_doc_def set_status_def Let_def)
  then have same: "content_text ?d js = content_text d js" for js by (rule content_text_cong)
  have "hash_bound E ?d" unfolding hash_bound_def same by (simp add: previewed_doc_def set_status_def Let_def)
  moreover have "untried ?d" "doc_id ?d = i"
    using previewable_untried [OF assms] assms(1)
    by (auto simp: untried_def has_status_def previewed_doc_def set_status_def doc_id_def cs_sound_def Let_def)
  ultimately show ?thesis by (simp add: cs_sound_def)
qed

lemma approved_sound:
  assumes "cs_sound E t m i d" "has_status d ''previewed'' \<or> has_status d ''approved''" "JStr h = oget d ''contentHash''"
  shows "cs_sound E t m i (approved_doc d h)" (is "cs_sound E t m i ?d")
proof -
  have "oget ?d ''mode'' = oget d ''mode''" "oget ?d ''operations'' = oget d ''operations''"
    by (simp_all add: approved_doc_def set_status_def)
  then have same: "content_text ?d items = content_text d items" for items by (rule content_text_cong)
  have "untried d" by (rule previewable_untried [OF assms(1)]) (use assms(2) in \<open>auto simp: PREVIEWABLE_def\<close>)
  then have "untried ?d"
    using assms(3) by (auto simp: untried_def has_status_def approved_doc_def set_status_def)
  moreover have "hash_bound E ?d" "doc_id ?d = i"
    using assms(1) unfolding cs_sound_def hash_bound_def same by (auto simp: approved_doc_def set_status_def doc_id_def)
  ultimately show ?thesis by (simp add: cs_sound_def)
qed

text \<open>Results added to a document.\<close>

lemma with_results_parts:
  "oget (with_results s rs d) ''results'' = JArr (map JObj rs)" "has_status (with_results s rs d) s' \<longleftrightarrow> s' = s"
  "result_items (with_results s rs d) = rs" "doc_ops (with_results s rs d) = doc_ops d"
  "is_atomic (with_results s rs d) = is_atomic d" "doc_id (with_results s rs d) = doc_id d"
  "hash_bound E (with_results s rs d) = hash_bound E d"
proof -
  have "content_text (with_results s rs d) items = content_text d items" for items
    by (rule content_text_cong) (simp_all add: with_results_def set_status_def)
  then show "hash_bound E (with_results s rs d) = hash_bound E d"
    by (simp add: hash_bound_def) (simp add: with_results_def set_status_def)
qed (auto simp: with_results_def set_status_def has_status_def result_items_def items_of_def doc_ops_def is_atomic_def doc_id_def
    comp_def obj_of_def)

lemma atomic_outcome_sound:
  assumes "cs_sound E t m i d" "is_atomic d" "length rs = length (doc_ops d)" "length (doc_ops d) \<le> ATOMIC_LOGICAL_LIMIT"
    and "s = ''failed'' \<and> list_all (\<lambda>r. \<not> has_status r ''committed'') rs \<or> s = ''committed'' \<and> all_committed rs"
  shows "cs_sound E t m i (with_results s rs d)"
  using assms by (auto simp: cs_sound_def atomic_outcome_def with_results_parts)

lemma resumable_progress_sound:
  assumes "doc_id d = i" "hash_bound E d" "\<not> is_atomic d" "rows_receipted t m i (doc_ops d) rs"
    and "s = ''committing'' \<or> s = ''partially-committed'' \<and> \<not> all_committed rs \<or> s = ''committed'' \<and> all_committed rs"
  shows "cs_sound E t m i (with_results s rs d)"
  using assms by (auto simp: cs_sound_def resumable_progress_def with_results_parts)

section \<open>Proposing, previewing and approving\<close>

lemma triple_of_sound: "triple P (eff_of r) (\<lambda>x s. P s \<and> r = Inr x) P"
  by (rule triple_of) auto

lemma save_triple:
  assumes "others_respect E t" "cx_tenant ctx = t" "\<And>s. P s \<Longrightarrow> changesets_sound E t s \<and> cs_sound E t s i doc"
  shows "triple P (cs_save E doc ctx) (\<lambda>d s. changesets_sound E t s \<and> cs_sound E t s i doc \<and> (\<exists>v. d = mput ''_version'' v doc))
    (changesets_sound E t)"
proof (cases "doc_id doc = i")
  case True
  show ?thesis by (rule triple_pre [OF triple_save [OF assms(1,2), of doc, unfolded True]]) (rule assms(3))
next
  case False
  with assms(3) show ?thesis by (auto simp: triple_def cs_sound_def)
qed

lemma save_view_triple:
  assumes "others_respect E t" "cx_tenant ctx = t" "\<And>s. P s \<Longrightarrow> changesets_sound E t s \<and> cs_sound E t s i doc"
  shows "triple P (save_view E ctx doc) (\<lambda>_. changesets_sound E t) (changesets_sound E t)"
  unfolding save_view_def
  by (rule triple_bind [OF save_triple [OF assms]], assumption) (rule triple_ret, blast)

lemma propose_triple:
  assumes "others_respect E t" "cx_tenant ctx = t"
  shows "triple (changesets_sound E t) (cs_propose E body ctx) (\<lambda>_. changesets_sound E t) (changesets_sound E t)"
proof -
  have save: "triple (changesets_sound E t) (eff_bind (cs_save E (proposed_doc i mode ops (cx_actor ctx) source) ctx) (\<lambda>saved.
      eff_ret (cs_view saved))) (\<lambda>_. changesets_sound E t) (changesets_sound E t)" for i mode ops source
    by (rule triple_pre [OF triple_bind [OF triple_save [OF assms]]])
      (auto intro: triple_ret simp: proposed_sound)
  have "triple (changesets_sound E t) (eff_bind (eff_of r) (\<lambda>operations. eff_bind (eff_env (en_opId E)) (\<lambda>i.
      eff_bind (cs_save E (proposed_doc i (propose_mode body) operations (cx_actor ctx) (oget body ''source'')) ctx) (\<lambda>saved.
      eff_ret (cs_view saved))))) (\<lambda>_. changesets_sound E t) (changesets_sound E t)" for r
    by (rule triple_bind [OF triple_of_sound], rule triple_pure, rule triple_bind [OF triple_env save])
  then show ?thesis
    unfolding cs_propose_def by (auto intro: triple_fail split: jsval.split list.split)
qed



lemma stable_loaded: "others_respect E t \<Longrightarrow> stable E t (\<lambda>s. changesets_sound E t s \<and> cs_sound E t s i d)"
  by (intro stable_and stable_sound stable_kept) (blast intro: cs_sound_kept)+

text \<open>An item of the plan of everything: an operation that was planned, or the error of one that was not.\<close>

definition planned_item :: "string \<Rightarrow> obj \<times> commit_plan option \<Rightarrow> bool" where
  "planned_item t y \<longleftrightarrow> (case snd y of
     Some p \<Rightarrow> row_plan t p \<and> has_status (fst y) ''ok'' | None \<Rightarrow> has_status (fst y) ''error'')"

lemma plan_item_ok:
  "plan_item E ctx k op r = Inr y \<Longrightarrow> (\<And>p. r = Inr p \<Longrightarrow> row_plan t p) \<Longrightarrow> planned_item t y"
  by (auto simp: plan_item_def planned_item_def res_simps has_status_def ok_item_def error_item_def oget_def
      split: sum.splits exn.splits)

lemma planAll_triple:
  assumes "stable E t P" "cx_tenant ctx = t" "plain_text t"
  shows "triple P (planAll E doc ctx)
    (\<lambda>ys s. P s \<and> length ys = length (doc_ops doc) \<and> list_all (planned_item t) ys) P"
proof -
  have one: "triple P (plan_one E ctx x) (\<lambda>y s. P s \<and> planned_item t y) P" for x
  proof -
    obtain k op input where x: "x = (k, op, input)" by (cases x)
    have "triple P (planFor E op input ctx True) (\<lambda>p s. P s \<and> row_plan t p) P"
      using planFor_triple [of E ctx P op input True] assms by simp
    from triple_exit [OF this, of P]
    have exit: "triple P (eff_exit (planFor E op input ctx True)) (\<lambda>r s. P s \<and> (\<forall>p. r = Inr p \<longrightarrow> row_plan t p)) P"
      by (rule triple_weaken) (auto split: sum.splits)
    show ?thesis
      unfolding plan_one_def x prod.case
      by (rule triple_bind [OF exit]) (auto intro!: triple_of intro: plan_item_ok)
  qed
  have "triple P (planAll E doc ctx) (\<lambda>ys s. P s \<and> list_all2 (\<lambda>x y. planned_item t y) (enumerate 0 (doc_ops doc)) ys) P"
    unfolding planAll_def by (rule triple_map) (rule one)
  then show ?thesis
    by (rule triple_weaken) (auto simp: list_all2_conv_all_nth list_all_length)
qed

lemma preview_triple:
  assumes "others_respect E t" "cx_tenant ctx = t" "plain_text t"
  shows "triple (changesets_sound E t) (cs_preview E i ctx) (\<lambda>_. changesets_sound E t) (changesets_sound E t)"
proof -
  have save: "triple (\<lambda>s. (changesets_sound E t s \<and> cs_sound E t s i doc) \<and> list_ex (has_status doc) PREVIEWABLE) (eff_bind
      (cs_save E (previewed_doc doc (sha256 E (content_text doc items)) items budget) ctx) (\<lambda>saved.
      eff_ret (mput ''contentHash'' h (cs_view saved)))) (\<lambda>_. changesets_sound E t) (changesets_sound E t)" for doc items budget h
    by (rule triple_bind [OF save_triple [OF assms(1,2), where i = i]]) (auto intro: previewed_sound triple_ret)
  have rest: "triple (\<lambda>s. (changesets_sound E t s \<and> cs_sound E t s i doc) \<and> list_ex (has_status doc) PREVIEWABLE)
    (eff_bind (planAll E doc ctx) (\<lambda>planned. let items = map (JObj \<circ> fst) planned; h = sha256 E (content_text doc items) in
       eff_bind (cs_save E (previewed_doc doc h items (cs_budget doc (map snd planned))) ctx) (\<lambda>saved.
       eff_ret (mput ''contentHash'' (JStr h) (cs_view saved))))) (\<lambda>_. changesets_sound E t) (changesets_sound E t)" for doc
    unfolding Let_def
    by (rule triple_bind [OF triple_weaken [OF planAll_triple [OF stable_pure [OF stable_loaded [OF assms(1)]] assms(2,3)]]])
      (assumption, assumption, blast, rule triple_pre [OF save], blast)
  show ?thesis
    unfolding cs_preview_def
    by (intro triple_bind [OF triple_load [OF assms(1,2)]] triple_bind [OF triple_guard] rest) simp
qed

lemma approve_triple:
  assumes "others_respect E t" "cx_tenant ctx = t"
  shows "triple (changesets_sound E t) (cs_approve E i h ctx) (\<lambda>_. changesets_sound E t) (changesets_sound E t)"
proof -
  have save: "triple (\<lambda>s. ((changesets_sound E t s \<and> cs_sound E t s i doc) \<and> (has_status doc ''previewed'' \<or> has_status doc ''approved'')) \<and>
      truthy (oget doc ''contentHash'') \<and> JStr h = oget doc ''contentHash'') (eff_bind
      (cs_save E (approved_doc doc h) ctx) (\<lambda>saved. eff_ret (cs_view saved))) (\<lambda>_. changesets_sound E t) (changesets_sound E t)" for doc
    by (rule triple_bind [OF save_triple [OF assms(1,2), where i = i]]) (auto intro: approved_sound triple_ret)
  show ?thesis
    unfolding cs_approve_def
    by (intro triple_bind [OF triple_load [OF assms(1,2)]] triple_bind [OF triple_guard] save) simp_all
qed


section \<open>Committing atomically\<close>

lemma unplanned_none:
  assumes "list_all (planned_item t) ys" "find_index is_error (map fst ys) = Some k"
  shows "list_all (\<lambda>r. \<not> has_status r ''committed'') (unplanned_results k (map fst ys))"
  unfolding list_all_length
proof (intro allI impI)
  fix j
  assume j: "j < length (unplanned_results k (map fst ys))"
  then have "unplanned_results k (map fst ys) ! j = (if j = k then set_status ''error'' (fst (ys ! j)) else bare (set_status ''skipped'' (fst (ys ! j))))"
    by (simp add: unplanned_results_def nth_enumerate_eq)
  then show "\<not> has_status (unplanned_results k (map fst ys) ! j) ''committed''"
    by (simp add: has_status_def set_status_def bare_def)
qed

lemma refused_none: "list_all (\<lambda>r. \<not> has_status r ''committed'') (refused_results e items)"
  by (auto simp: list_all_length refused_results_def nth_enumerate_eq has_status_def set_status_def bare_def)

lemma committed_items:
  "map_res (committed_item E) ys = Inr rs \<Longrightarrow> length rs = length ys \<and> all_committed rs"
  by (induction ys arbitrary: rs)
    (auto simp: res_simps all_committed_def committed_item_def has_status_def set_status_def split: option.splits)

lemma results_length [simp]:
  "length (unplanned_results k items) = length items" "length (refused_results e items) = length items"
  by (simp_all add: unplanned_results_def refused_results_def)

lemma planned_plans:
  "list_all (planned_item t) ys \<Longrightarrow> \<forall>p\<in>set (List.map_filter id (map snd ys)). row_plan t p"
  by (auto simp: list_all_iff map_filter_def planned_item_def split: option.splits)

lemma atomic_triple:
  assumes "others_respect E t" "cx_tenant ctx = t" "plain_text t" "is_atomic doc"
    and "length ys = length (doc_ops doc)" "list_all (planned_item t) ys"
  shows "triple (\<lambda>s. changesets_sound E t s \<and> cs_sound E t s i doc) (commit_atomic E doc ys ctx)
    (\<lambda>_. changesets_sound E t) (changesets_sound E t)"
proof -
  let ?P = "\<lambda>s. changesets_sound E t s \<and> cs_sound E t s i doc"
  let ?n = "length (doc_ops doc) \<le> ATOMIC_LOGICAL_LIMIT"
  let ?items = "map fst ys"
  have save: "triple (\<lambda>s. ?P s \<and> ?n) (save_view E ctx (with_results st rs doc)) (\<lambda>_. changesets_sound E t) (changesets_sound E t)"
    if "length rs = length ys" "st = ''failed'' \<and> list_all (\<lambda>r. \<not> has_status r ''committed'') rs \<or> st = ''committed'' \<and> all_committed rs"
    for st rs
    by (rule save_view_triple [OF assms(1,2), where i = i]) (use that assms(4,5) in \<open>auto intro: atomic_outcome_sound\<close>)
  have "stable E t ?P" by (rule stable_loaded [OF assms(1)])
  note all = triple_exit [OF triple_commitAll [OF stable_pure [OF this, of ?n] planned_plans [OF assms(6)] assms(3)]]
  have finish: "triple (\<lambda>s. ?P s \<and> ?n) (eff_bind (eff_of (map_res (committed_item E) ys)) (\<lambda>results.
      save_view E ctx (with_results ''committed'' results doc))) (\<lambda>_. changesets_sound E t) (changesets_sound E t)"
  proof (rule triple_bind)
    show "triple (\<lambda>s. ?P s \<and> ?n) (eff_of (map_res (committed_item E) ys))
      (\<lambda>x s. (?P s \<and> ?n) \<and> map_res (committed_item E) ys = Inr x) (changesets_sound E t)"
      by (rule triple_of) auto
    show "triple (\<lambda>s. (?P s \<and> ?n) \<and> map_res (committed_item E) ys = Inr x) (save_view E ctx (with_results ''committed'' x doc))
      (\<lambda>_. changesets_sound E t) (changesets_sound E t)" for x
      by (rule triple_pure, rule save) (use committed_items in blast)+
  qed
  let ?plans = "map snd ys"
  have guard: "triple ?P (eff_guard (?n \<and> physical_actions ?plans \<le> MEMORY_BUDGET) e) (\<lambda>_ s. ?P s \<and> ?n) (changesets_sound E t)" for e
    by (rule triple_weaken [OF triple_guard [where P = ?P and R = "changesets_sound E t"]]) auto
  have commit: "triple (\<lambda>s. ?P s \<and> ?n) (eff_bind (eff_exit (storage_commit E (\<lambda>m. commitAll m (List.map_filter id ?plans) [] []))) (\<lambda>exit.
      case exit of
        Inl (Forge fe) \<Rightarrow> save_view E ctx (with_results ''failed'' (refused_results (problem fe (cx_requestId ctx)) ?items) doc)
      | Inl e \<Rightarrow> eff_fail e
      | Inr u \<Rightarrow> eff_bind (eff_of (map_res (committed_item E) ys)) (\<lambda>results.
          save_view E ctx (with_results ''committed'' results doc)))) (\<lambda>_. changesets_sound E t) (changesets_sound E t)"
  proof (rule triple_bind)
    show "triple (\<lambda>s. ?P s \<and> ?n) (eff_exit (storage_commit E (\<lambda>m. commitAll m (List.map_filter id ?plans) [] [])))
      (\<lambda>r s. ?P s \<and> ?n) (changesets_sound E t)"
      by (rule triple_weaken [OF all]) (auto split: sum.splits)
    show "triple (\<lambda>s. ?P s \<and> ?n) (case exit of
        Inl (Forge fe) \<Rightarrow> save_view E ctx (with_results ''failed'' (refused_results (problem fe (cx_requestId ctx)) ?items) doc)
      | Inl e \<Rightarrow> eff_fail e
      | Inr u \<Rightarrow> eff_bind (eff_of (map_res (committed_item E) ys)) (\<lambda>results.
          save_view E ctx (with_results ''committed'' results doc))) (\<lambda>_. changesets_sound E t) (changesets_sound E t)" for exit
    proof (cases exit)
      case (Inl e)
      show ?thesis
      proof (cases e)
        case (Forge fe)
        show ?thesis unfolding Inl Forge sum.case exn.case by (rule save) (simp_all add: refused_none)
      qed (simp_all only: Inl sum.case exn.case, (rule triple_fail, blast)+)
    next
      case (Inr u)
      show ?thesis unfolding Inr sum.case by (rule finish)
    qed
  qed
  have fail: "triple (\<lambda>s. ?P s \<and> ?n) (save_view E ctx (with_results ''failed'' (unplanned_results k ?items) doc))
    (\<lambda>_. changesets_sound E t) (changesets_sound E t)" if "find_index is_error ?items = Some k" for k
    by (rule save) (use unplanned_none [OF assms(6) that] in auto)
  show ?thesis
    unfolding commit_atomic_def Let_def
  proof (rule triple_bind [OF guard])
    fix u
    show "triple (\<lambda>s. ?P s \<and> ?n) (case find_index is_error ?items of None \<Rightarrow>
        eff_bind (eff_exit (storage_commit E (\<lambda>m. commitAll m (List.map_filter id ?plans) [] []))) (\<lambda>exit.
        case exit of
          Inl (Forge fe) \<Rightarrow> save_view E ctx (with_results ''failed'' (refused_results (problem fe (cx_requestId ctx)) ?items) doc)
      | Inl e \<Rightarrow> eff_fail e
        | Inr u \<Rightarrow> eff_bind (eff_of (map_res (committed_item E) ys)) (\<lambda>results.
            save_view E ctx (with_results ''committed'' results doc)))
      | Some k \<Rightarrow> save_view E ctx (with_results ''failed'' (unplanned_results k ?items) doc)) (\<lambda>_. changesets_sound E t) (changesets_sound E t)"
      by (cases "find_index is_error ?items") (simp_all only: option.case commit fail)
  qed
qed


section \<open>Committing row by row\<close>

text \<open>What the rows of a resumable commit keep: the document they belong to.\<close>

definition row_document :: "env \<Rightarrow> string \<Rightarrow> (string \<times> obj) list \<Rightarrow> obj \<Rightarrow> bool" where
  "row_document E i ops d \<longleftrightarrow> doc_id d = i \<and> hash_bound E d \<and> \<not> is_atomic d \<and> doc_ops d = ops"

lemma row_document_results [simp]: "row_document E i ops (with_results s rs d) = row_document E i ops d"
  by (simp add: row_document_def with_results_parts)

lemma row_document_version [simp]: "row_document E i ops (mput ''_version'' v d) = row_document E i ops d"
proof -
  have "content_text (mput ''_version'' v d) its = content_text d its" for its by (rule content_text_cong) simp_all
  then show ?thesis by (simp add: row_document_def hash_bound_def doc_id_def is_atomic_def doc_ops_def)
qed

lemma progress_rows:
  "cs_sound E t m i (with_results ''committing'' rs d) \<Longrightarrow> \<not> is_atomic d \<Longrightarrow> rows_receipted t m i (doc_ops d) rs"
  by (auto simp: cs_sound_def untried_def atomic_outcome_def resumable_progress_def with_results_parts)

lemma row_triple:
  assumes "stable E t P" "cx_tenant ctx = t" "plain_text t"
  shows "triple P (commit_row E ctx i (k, op, input)) (\<lambda>v s. P s \<and> has_response t op (row_key i k) v s) P"
  unfolding commit_row_def prod.case Let_def
proof (rule idempotent_triple [OF assms(1)])
  show "effective_key (Some (row_key i k)) (row_context ctx (row_key i k)) = Some (row_key i k)"
    by (simp add: effective_key_def row_key_def nonempty_opt_def)
  show "cx_tenant (row_context ctx (row_key i k)) = t" by (simp add: row_context_def assms(2))
  show "triple P (eff_bind (planFor E op input (row_context ctx (row_key i k)) False) (commit_plan_eff E (Some rc)))
    (\<lambda>x s. P s \<and> mem_getReceipt s t (rc_operation rc) (rc_key rc) = Some (rc\<lparr>rc_response := JObj x\<rparr>)) P" for rc
    using row_run_triple [of E "row_context ctx (row_key i k)" P op input rc] assms by (simp add: row_context_def)
qed

lemma row_result_receipted:
  assumes "row_result ctx k op exit = Inr r" "rows_receipted t m i ops rs" "k < length ops" "fst (ops ! k) = op"
    and "\<forall>v. exit = Inr v \<longrightarrow> has_response t op (row_key i k) v m"
  shows "rows_receipted t m i ops (rs[k := r])"
proof -
  have "has_status r ''committed'' \<longrightarrow> has_response t op (row_key i k) (oget r ''result'') m"
    using assms(1,5) by (auto simp: row_result_def has_status_def error_item_def oget_def split: sum.splits exn.splits)
  then show ?thesis
    using assms(2-4) by (auto simp: rows_receipted_def nth_list_update)
qed

lemma rows_triple:
  assumes "others_respect E t" "cx_tenant ctx = t" "plain_text t"
    and "list_all (\<lambda>(k, op, input). k < length ops \<and> fst (ops ! k) = op) xs" "row_document E i ops doc"
  shows "triple (\<lambda>s. changesets_sound E t s \<and> rows_receipted t s i ops rs) (commit_rows E ctx xs doc rs)
    (\<lambda>(d, rs') s. changesets_sound E t s \<and> rows_receipted t s i ops rs' \<and> row_document E i ops d) (changesets_sound E t)"
  using assms(4,5)
proof (induction xs arbitrary: doc rs)
  case Nil
  then show ?case by (auto intro: triple_ret)
next
  case (Cons x xs)
  obtain k op input where x: "x = (k, op, input)" by (cases x)
  have k: "k < length ops" "fst (ops ! k) = op" and xs: "list_all (\<lambda>(k, op, input). k < length ops \<and> fst (ops ! k) = op) xs"
    using Cons.prems(1) by (simp_all add: x)
  have doc: "doc_id doc = i" "hash_bound E doc" "\<not> is_atomic doc" "doc_ops doc = ops"
    using Cons.prems(2) by (simp_all add: row_document_def)
  let ?P = "\<lambda>s. changesets_sound E t s \<and> rows_receipted t s i ops rs"
  let ?Q = "\<lambda>(d, rs') s. changesets_sound E t s \<and> rows_receipted t s i ops rs' \<and> row_document E i ops d"
  have P: "stable E t ?P" by (intro stable_and stable_sound stable_kept assms(1)) (blast intro: rows_receipted_kept)+
  have exit: "triple ?P (eff_exit (commit_row E ctx i (k, op, input)))
      (\<lambda>e s. ?P s \<and> (\<forall>v. e = Inr v \<longrightarrow> has_response t op (row_key i k) v s)) (changesets_sound E t)"
    by (rule triple_weaken [OF triple_exit [OF row_triple [OF P assms(2,3)]]]) (auto split: sum.splits)
  have result: "triple (\<lambda>s. ?P s \<and> (\<forall>v. e = Inr v \<longrightarrow> has_response t op (row_key i k) v s)) (eff_of (row_result ctx k op e))
      (\<lambda>r s. changesets_sound E t s \<and> rows_receipted t s i ops (rs[k := r])) (changesets_sound E t)" for e
    by (rule triple_of) (auto intro: row_result_receipted [OF _ _ k])
  have rest: "triple (\<lambda>s. changesets_sound E t s \<and> rows_receipted t s i ops (rs[k := r]))
      (eff_bind (cs_save E (with_results ''committing'' (rs[k := r]) doc) ctx) (\<lambda>d. commit_rows E ctx xs d (rs[k := r]))) ?Q
      (changesets_sound E t)" for r
  proof (rule triple_bind)
    show "triple (\<lambda>s. changesets_sound E t s \<and> rows_receipted t s i ops (rs[k := r]))
      (cs_save E (with_results ''committing'' (rs[k := r]) doc) ctx)
      (\<lambda>d s. (changesets_sound E t s \<and> rows_receipted t s i ops (rs[k := r])) \<and> row_document E i ops d) (changesets_sound E t)"
      by (rule triple_weaken [OF save_triple [OF assms(1,2), where i = i]], assumption)
        (use doc progress_rows Cons.prems(2) in \<open>auto intro!: resumable_progress_sound\<close>)
    show "triple (\<lambda>s. (changesets_sound E t s \<and> rows_receipted t s i ops (rs[k := r])) \<and> row_document E i ops d)
      (commit_rows E ctx xs d (rs[k := r])) ?Q (changesets_sound E t)" for d
      by (rule triple_pure) (rule Cons.IH [OF xs])
  qed
  have skip: "triple ?P (eff_of (row_committed rs k)) (\<lambda>_. ?P) (changesets_sound E t)"
    by (rule triple_of) auto
  show ?case
    unfolding x commit_rows.simps Let_def fst_conv snd_conv doc(1)
    by (rule triple_bind [OF skip], rule triple_if, rule Cons.IH [OF xs Cons.prems(2)],
        rule triple_bind [OF exit], rule triple_bind [OF result], rule rest)
qed


lemma progress_initial:
  assumes "resumable_progress t m i d"
  shows "initial_results d = result_items d" "rows_receipted t m i (doc_ops d) (initial_results d)"
  using assms by (auto simp: resumable_progress_def initial_results_def nullish_def result_items_def items_of_def split: jsval.splits)

lemma resumable_triple:
  assumes "others_respect E t" "cx_tenant ctx = t" "plain_text t"
    and "has_status doc ''committing'' \<or> has_status doc ''partially-committed''"
  shows "triple (\<lambda>s. changesets_sound E t s \<and> cs_sound E t s i doc) (commitResumable E doc ctx)
    (\<lambda>_. changesets_sound E t) (changesets_sound E t)"
proof (cases "row_document E i (doc_ops doc) doc")
  case True
  let ?ops = "doc_ops doc"
  have progress: "resumable_progress t s i doc" if "cs_sound E t s i doc" for s
    using that assms(4) by (auto simp: cs_sound_def untried_def atomic_outcome_def has_status_def)
  have xs: "list_all (\<lambda>(k, op, input). k < length ?ops \<and> fst (?ops ! k) = op) (enumerate 0 ?ops)"
    by (auto simp: list_all_iff in_set_enumerate_eq)
  have final: "cs_sound E t s i (with_results
      (if list_all (\<lambda>r. has_status r ''committed'') rs then ''committed'' else ''partially-committed'') rs d)"
    if "rows_receipted t s i ?ops rs" "row_document E i ?ops d" for s rs d
  proof (rule resumable_progress_sound)
    show "doc_id d = i" "hash_bound E d" "\<not> is_atomic d" "rows_receipted t s i (doc_ops d) rs"
      using that by (simp_all add: row_document_def)
  qed (simp add: all_committed_def)
  show ?thesis
    unfolding commitResumable_def
  proof (rule triple_bind)
    show "triple (\<lambda>s. changesets_sound E t s \<and> cs_sound E t s i doc)
      (commit_rows E ctx (enumerate 0 ?ops) doc (initial_results doc))
      (\<lambda>(d, rs) s. changesets_sound E t s \<and> rows_receipted t s i ?ops rs \<and> row_document E i ?ops d) (changesets_sound E t)"
      by (rule triple_pre [OF rows_triple [OF assms(1-3) xs True]]) (use progress progress_initial in blast)
    show "triple (case x of (d, rs) \<Rightarrow> \<lambda>s. changesets_sound E t s \<and> rows_receipted t s i ?ops rs \<and> row_document E i ?ops d)
      (case x of (d, rs) \<Rightarrow> save_view E ctx (with_results
        (if list_all (\<lambda>r. has_status r ''committed'') rs then ''committed'' else ''partially-committed'') rs d))
      (\<lambda>_. changesets_sound E t) (changesets_sound E t)" for x
      by (cases x, simp only: prod.case, rule save_view_triple [OF assms(1,2), where i = i]) (blast intro: final)
  qed
next
  case False
  have "\<not> cs_sound E t s i doc" for s
    using False assms(4) by (auto simp: row_document_def cs_sound_def untried_def atomic_outcome_def resumable_progress_def has_status_def)
  then show ?thesis by (simp add: triple_def)
qed

lemma commit_triple:
  assumes "others_respect E t" "cx_tenant ctx = t" "plain_text t"
  shows "triple (changesets_sound E t) (cs_commit E i ctx) (\<lambda>_. changesets_sound E t) (changesets_sound E t)"
  unfolding cs_commit_def
proof (rule triple_bind [OF triple_load [OF assms(1,2)]])
  fix doc
  let ?P = "\<lambda>s. changesets_sound E t s \<and> cs_sound E t s i doc"
  let ?I = "changesets_sound E t"
  have resumable: "triple ?P (eff_bind (cs_save E (with_results ''committing'' (map (bare \<circ> fst) ys) doc) ctx) (\<lambda>d. commitResumable E d ctx))
      (\<lambda>_. ?I) ?I" if ys: "length ys = length (doc_ops doc)" "list_all (planned_item t) ys" "\<not> is_atomic doc" for ys
  proof (rule triple_bind)
    have none: "\<not> has_status (map (bare \<circ> fst) ys ! k) ''committed''" if "k < length ys" for k
      using that ys(2) by (auto simp: list_all_length planned_item_def bare_def has_status_def split: option.splits)
    then have rows: "rows_receipted t s i (doc_ops doc) (map (bare \<circ> fst) ys)" for s
      using ys(1) by (simp add: rows_receipted_def)
    have sound: "cs_sound E t s i (with_results ''committing'' (map (bare \<circ> fst) ys) doc)" if "cs_sound E t s i doc" for s
      by (rule resumable_progress_sound) (use that rows ys(3) in \<open>simp_all add: cs_sound_def\<close>)
    show "triple ?P (cs_save E (with_results ''committing'' (map (bare \<circ> fst) ys) doc) ctx)
      (\<lambda>d s. (?I s \<and> cs_sound E t s i d) \<and> (has_status d ''committing'' \<or> has_status d ''partially-committed'')) ?I"
      by (rule triple_weaken [OF save_triple [OF assms(1,2), where i = i]], assumption) (auto simp: sound with_results_parts)
    show "triple (\<lambda>s. (?I s \<and> cs_sound E t s i d) \<and> (has_status d ''committing'' \<or> has_status d ''partially-committed''))
      (commitResumable E d ctx) (\<lambda>_. ?I) ?I" for d
      by (rule triple_pure) (rule resumable_triple [OF assms])
  qed
  have planned: "triple ?P (eff_bind (planAll E doc ctx) (\<lambda>ys. if is_atomic doc then commit_atomic E doc ys ctx
      else eff_bind (cs_save E (with_results ''committing'' (map (bare \<circ> fst) ys) doc) ctx) (\<lambda>d. commitResumable E d ctx)))
      (\<lambda>_. ?I) ?I"
  proof (rule triple_bind)
    show "triple ?P (planAll E doc ctx) (\<lambda>ys s. ?P s \<and> length ys = length (doc_ops doc) \<and> list_all (planned_item t) ys) ?I"
      by (rule triple_weaken [OF planAll_triple [OF stable_loaded [OF assms(1)] assms(2,3)]]) auto
    show "triple (\<lambda>s. ?P s \<and> length ys = length (doc_ops doc) \<and> list_all (planned_item t) ys)
      (if is_atomic doc then commit_atomic E doc ys ctx
       else eff_bind (cs_save E (with_results ''committing'' (map (bare \<circ> fst) ys) doc) ctx) (\<lambda>d. commitResumable E d ctx))
      (\<lambda>_. ?I) ?I" for ys
      by (rule triple_pure, rule triple_if) (blast intro: atomic_triple [OF assms] resumable)+
  qed
  show "triple ?P (if has_status doc ''committed'' then eff_ret (cs_view doc)
     else if has_status doc ''partially-committed'' then commitResumable E doc ctx
     else if \<not> has_status doc ''approved'' then eff_fail (err ''InvalidTransition'')
     else eff_bind (planAll E doc ctx) (\<lambda>planned. if is_atomic doc then commit_atomic E doc planned ctx
       else eff_bind (cs_save E (with_results ''committing'' (map (bare \<circ> fst) planned) doc) ctx) (\<lambda>doc'. commitResumable E doc' ctx)))
     (\<lambda>_. ?I) ?I"
    by (intro triple_if triple_ret triple_fail resumable_triple [OF assms] planned) auto
qed

lemma handle_triple:
  assumes "others_respect E t" "cx_tenant ctx = t" "plain_text t"
  shows "triple (changesets_sound E t) (cs_handle E action body ctx) (\<lambda>_. changesets_sound E t) (changesets_sound E t)"
  unfolding cs_handle_def Let_def
  by (intro triple_if propose_triple [OF assms(1,2)] preview_triple [OF assms] approve_triple [OF assms(1,2)]
      commit_triple [OF assms] triple_fail triple_bind [OF triple_load [OF assms(1,2)]] triple_ret) auto

end
