(* ===== verification/Changeset_Properties.thy ===== *)
theory Changeset_Properties
  imports Changeset_Correct Engine_Sample
begin

text \<open>
  The properties of changesets: sound documents, no effect without approval, atomic commits, and
  what happens to a changeset whose commit was interrupted.
\<close>

section \<open>Steps without effect on records\<close>

text \<open>
  Apart from concurrent callers, a quiet call only writes changeset documents (and reserves sequence
  numbers): it commits no plan.
\<close>

definition changeset_write :: "string \<Rightarrow> memory \<Rightarrow> memory \<Rightarrow> bool" where
  "changeset_write t m m' \<longleftrightarrow> (\<exists>i d e. mem_putDocument m t CHANGESET_KIND i d e = Inr m')"

definition quiet_step :: "env \<Rightarrow> string \<Rightarrow> memory \<Rightarrow> memory \<Rightarrow> bool" where
  "quiet_step E t m m' \<longleftrightarrow> others_act E m m' \<or> sequence_write m m' \<or> changeset_write t m m'"

definition quiet :: "env \<Rightarrow> string \<Rightarrow> world \<Rightarrow> world \<Rightarrow> bool" where
  "quiet E t w w' \<longleftrightarrow> (quiet_step E t)\<^sup>*\<^sup>* (wo_store w) (wo_store w')"

interpretation quiet: frame "quiet E t" for E t
  by unfold_locales (auto simp: quiet_def)

lemma planning_quiet: "planning E w w' \<Longrightarrow> quiet E t w w'"
  unfolding planning_def quiet_def by (rule rtranclp_mono [THEN predicate2D]) (auto simp: quiet_step_def)

lemma keeps_planning_quiet: "keeps (planning E) m \<Longrightarrow> keeps (quiet E t) m"
  unfolding keeps_def using planning_quiet by blast

lemma keeps_reading_quiet: "keeps (reading E) m \<Longrightarrow> keeps (quiet E t) m"
  by (rule keeps_planning_quiet [OF reading_planning])

lemma keeps_quiet_env: "keeps (quiet E t) (eff_env f)"
  by (rule keeps_reading_quiet [OF keeps_env(1)])

lemma quiet_now: "(quiet_step E t)\<^sup>*\<^sup>* m (en_others E n m)"
  by (rule r_into_rtranclp) (auto simp: quiet_step_def others_act_def)

lemma keeps_save: "keeps (quiet E (cx_tenant ctx)) (cs_save E doc ctx)"
proof -
  have "keeps (quiet E (cx_tenant ctx)) (storage_write E (\<lambda>m. mem_putDocument m (cx_tenant ctx) CHANGESET_KIND i d e))" for i d e
    unfolding keeps_def
  proof
    fix w :: world
    let ?m = "en_others E (wo_tick w) (wo_store w)"
    show "quiet E (cx_tenant ctx) w (snd (storage_write E (\<lambda>m. mem_putDocument m (cx_tenant ctx) CHANGESET_KIND i d e) w))"
    proof (cases "mem_putDocument ?m (cx_tenant ctx) CHANGESET_KIND i d e")
      case (Inl x)
      then show ?thesis by (simp add: quiet_def storage_write_def storage_def quiet_now)
    next
      case (Inr m')
      then have "quiet_step E (cx_tenant ctx) ?m m'" by (auto simp: quiet_step_def changeset_write_def)
      with quiet_now have "(quiet_step E (cx_tenant ctx))\<^sup>*\<^sup>* (wo_store w) m'" by (rule rtranclp.rtrancl_into_rtrancl)
      with Inr show ?thesis by (simp add: quiet_def storage_write_def storage_def)
    qed
  qed
  then show ?thesis unfolding cs_save_def Let_def by (intro quiet.keeps_bind quiet.keeps_ret)
qed

lemma keeps_load: "keeps (quiet E t) (cs_load E i ctx)"
  unfolding cs_load_def
  by (intro quiet.keeps_bind keeps_reading_quiet [OF keeps_read(1)] quiet.keeps_option quiet.keeps_fail quiet.keeps_ret)

lemma keeps_save_view: "keeps (quiet E (cx_tenant ctx)) (save_view E ctx doc)"
  unfolding save_view_def by (intro quiet.keeps_bind keeps_save quiet.keeps_ret)

lemma keeps_planAll: "keeps (quiet E t) (planAll E doc ctx)"
  unfolding planAll_def plan_one_def
  by (intro quiet.keeps_map quiet.keeps_pair quiet.keeps_bind quiet.keeps_exit keeps_planning_quiet [OF keeps_planFor] quiet.keeps_of)

lemma keeps_preview: "keeps (quiet E (cx_tenant ctx)) (cs_preview E i ctx)"
  unfolding cs_preview_def Let_def
  by (intro quiet.keeps_bind keeps_load keeps_planAll keeps_save quiet.keeps_ret quiet.keeps_guard)

lemma keeps_approve: "keeps (quiet E (cx_tenant ctx)) (cs_approve E i h ctx)"
  unfolding cs_approve_def by (intro quiet.keeps_bind keeps_load keeps_save quiet.keeps_ret quiet.keeps_guard)

lemma keeps_propose: "keeps (quiet E (cx_tenant ctx)) (cs_propose E body ctx)"
proof -
  have "keeps (quiet E (cx_tenant ctx)) (eff_bind (eff_of r) (\<lambda>operations. eff_bind (eff_env (en_opId E)) (\<lambda>i.
      eff_bind (cs_save E (proposed_doc i (propose_mode body) operations (cx_actor ctx) (oget body ''source'')) ctx) (\<lambda>saved.
      eff_ret (cs_view saved)))))" for r
    by (intro quiet.keeps_bind quiet.keeps_of keeps_quiet_env keeps_save quiet.keeps_ret)
  then show ?thesis
    unfolding cs_propose_def by (auto intro: quiet.keeps_fail split: jsval.split list.split)
qed


lemma load_run:
  "cs_load E i ctx w = (case mem_getDocument (world_now E w) (cx_tenant ctx) CHANGESET_KIND i of
     None \<Rightarrow> Inl (err ''NotFound'') | Some d \<Rightarrow> Inr d, w\<lparr>wo_store := world_now E w, wo_tick := wo_tick w + 1\<rparr>)"
  by (simp add: cs_load_def eff_bind_def storage_read_def storage_def world_now_def Let_def eff_fail_def eff_ret_def split: option.split)

lemma quiet_load: "quiet E t w (w\<lparr>wo_store := world_now E w, wo_tick := n\<rparr>)"
  by (simp add: quiet_def world_now_def quiet_now)

lemma eff_map_each:
  "eff_map f xs w = (Inr ys, w') \<Longrightarrow> list_all2 (\<lambda>x y. \<exists>wa wb. f x wa = (Inr y, wb)) xs ys"
proof (induction xs arbitrary: w ys)
  case Nil
  then show ?case by (simp add: eff_simps)
next
  case (Cons x xs)
  then show ?case by (fastforce simp: eff_simps)
qed

lemma view_status [simp]: "oget (cs_view d) ''status'' = oget d ''status''"
  by (simp add: cs_view_def Let_def oget_def)

lemma save_view_run:
  assumes "save_view E ctx (with_results s rs d) w = (r, w')"
  shows "quiet E (cx_tenant ctx) w w'" "r = Inr v \<Longrightarrow> oget v ''status'' = JStr s"
proof -
  show "quiet E (cx_tenant ctx) w w'" by (rule quiet.keepsD [OF keeps_save_view assms])
  show "oget v ''status'' = JStr s" if "r = Inr v"
    using assms that by (auto simp: save_view_def cs_save_def Let_def eff_simps with_results_def set_status_def)
qed

text \<open>A plan of everything: every operation was planned, or is reported as an error.\<close>

definition planned_by :: "env \<Rightarrow> call_context \<Rightarrow> string \<times> obj \<Rightarrow> commit_plan \<Rightarrow> bool" where
  "planned_by E ctx x p \<longleftrightarrow> (\<exists>wa wb. planFor E (fst x) (snd x) ctx True wa = (Inr p, wb))"

lemma plan_one_some:
  assumes "plan_one E ctx (k, op, input) wa = (Inr y, wb)" "\<not> is_error (fst y)"
  shows "\<exists>p. snd y = Some p \<and> planned_by E ctx (op, input) p"
proof -
  obtain r wc where r: "planFor E op input ctx True wa = (r, wc)" by (cases "planFor E op input ctx True wa") auto
  with assms have "plan_item E ctx k op r = Inr y"
    by (auto simp: plan_one_def eff_bind_def eff_exit_def eff_of_def split: sum.splits prod.splits)
  with assms(2) obtain p where "r = Inr p" "snd y = Some p"
    by (auto simp: plan_item_def res_simps is_error_def has_status_def error_item_def oget_def split: sum.splits exn.splits)
  with r show ?thesis by (auto simp: planned_by_def)
qed

lemma all_planned:
  assumes "planAll E d ctx w = (Inr ys, w')" "find_index is_error (map fst ys) = None"
  shows "list_all2 (planned_by E ctx) (doc_ops d) (List.map_filter id (map snd ys))"
proof -
  have each: "list_all2 (\<lambda>x y. \<exists>wa wb. plan_one E ctx x wa = (Inr y, wb)) (enumerate 0 (doc_ops d)) ys"
    using assms(1) unfolding planAll_def by (rule eff_map_each)
  then have len: "length ys = length (doc_ops d)" by (auto dest: list_all2_lengthD)
  have some: "\<exists>p. snd (ys ! k) = Some p \<and> planned_by E ctx (doc_ops d ! k) p" if k: "k < length ys" for k
  proof -
    obtain op input where x: "doc_ops d ! k = (op, input)" by (cases "doc_ops d ! k")
    have "\<exists>wa wb. plan_one E ctx (k, op, input) wa = (Inr (ys ! k), wb)"
      using each k len unfolding x [symmetric] by (auto simp: list_all2_conv_all_nth nth_enumerate_eq)
    moreover have "\<not> is_error (fst (ys ! k))" using assms(2) k by (auto simp: find_index_None list_all_length)
    ultimately show ?thesis using plan_one_some x by metis
  qed
  then have all: "map snd ys = map Some (map (\<lambda>y. the (snd y)) ys)"
    by (auto simp: list_eq_iff_nth_eq dest!: some)
  have "List.map_filter id (map Some ps) = ps" for ps :: "commit_plan list"
    by (induction ps) (simp_all add: map_filter_simps)
  then have "List.map_filter id (map snd ys) = map (\<lambda>y. the (snd y)) ys" unfolding all .
  moreover have "list_all2 (planned_by E ctx) (doc_ops d) (map (\<lambda>y. the (snd y)) ys)"
    using some len by (force simp: list_all2_conv_all_nth)
  ultimately show ?thesis by simp
qed

text \<open>Both outcomes of the atomic commit of a planned changeset.\<close>

definition all_committed_once :: "env \<Rightarrow> string \<Rightarrow> memory \<Rightarrow> commit_plan list \<Rightarrow> memory \<Rightarrow> bool" where
  "all_committed_once E t m0 ps m' \<longleftrightarrow>
     (\<exists>m m1. (quiet_step E t)\<^sup>*\<^sup>* m0 m \<and> commitAll m ps [] [] = (None, m1) \<and> (quiet_step E t)\<^sup>*\<^sup>* m1 m')"

lemma commit_atomic_cases:
  assumes "commit_atomic E d ys ctx w = (r, w')"
  shows "quiet E (cx_tenant ctx) w w' \<and> (\<forall>v. r = Inr v \<longrightarrow> oget v ''status'' = JStr ''failed'') \<or>
    find_index is_error (map fst ys) = None \<and> length (doc_ops d) \<le> ATOMIC_LOGICAL_LIMIT \<and>
    all_committed_once E (cx_tenant ctx) (wo_store w) (List.map_filter id (map snd ys)) (wo_store w') \<and>
    (\<forall>v. r = Inr v \<longrightarrow> oget v ''status'' = JStr ''committed'')"
    (is "?failed \<or> ?committed")
proof -
  let ?ps = "List.map_filter id (map snd ys)" and ?t = "cx_tenant ctx"
  let ?ok = "length (doc_ops d) \<le> ATOMIC_LOGICAL_LIMIT \<and> physical_actions (map snd ys) \<le> MEMORY_BUDGET"
  show ?thesis
  proof (cases ?ok)
    case False
    then have "r = Inl (budget_exceeded (physical_actions (map snd ys)) (length (doc_ops d)))" "w' = w"
      using assms by (auto simp: commit_atomic_def Let_def eff_bind_def eff_guard_def eff_of_def guard_res_def)
    then show ?thesis by simp
  next
    case True
    show ?thesis
    proof (cases "find_index is_error (map fst ys)")
      case (Some k)
      with True assms have "save_view E ctx (with_results ''failed'' (unplanned_results k (map fst ys)) d) w = (r, w')"
        by (simp add: commit_atomic_def Let_def eff_bind_def eff_guard_def eff_of_def guard_res_def)
      from save_view_run [OF this] show ?thesis by blast
    next
      case None
      obtain e m1 where c: "commitAll (world_now E w) ?ps [] [] = (e, m1)"
        by (cases "commitAll (world_now E w) ?ps [] []") auto
      let ?w1 = "w\<lparr>wo_store := m1, wo_tick := wo_tick w + 1\<rparr>"
      have to_now: "(quiet_step E ?t)\<^sup>*\<^sup>* (wo_store w) (world_now E w)" by (simp add: world_now_def quiet_now)
      show ?thesis
      proof (cases e)
        case (Some x)
        then have q: "quiet E ?t w ?w1" using to_now commitAll_fails [of "world_now E w" ?ps "[]" "[]" x m1] c by (simp add: quiet_def)
        have run: "(case x of Forge fe \<Rightarrow> save_view E ctx (with_results ''failed'' (refused_results (problem fe (cx_requestId ctx)) (map fst ys)) d)
            | _ \<Rightarrow> eff_fail x) ?w1 = (r, w')"
          using assms True None c Some
          by (simp add: commit_atomic_def Let_def eff_bind_def eff_guard_def eff_of_def guard_res_def eff_exit_def storage_commit_def
              storage_def world_now_def split: exn.splits)
        then show ?thesis
        proof (cases x)
          case (Forge fe)
          with run have "save_view E ctx (with_results ''failed'' (refused_results (problem fe (cx_requestId ctx)) (map fst ys)) d) ?w1 = (r, w')"
            by simp
          from save_view_run [OF this] quiet.trans [OF q] show ?thesis by blast
        qed (use q in \<open>auto simp: eff_fail_def\<close>)
      next
        case n: None
        obtain r2 where r2: "map_res (committed_item E) ys = r2" by simp
        have exit: "eff_exit (storage_commit E (\<lambda>m. commitAll m ?ps [] [])) w = (Inr (Inr ()), ?w1)"
          using c n by (simp add: eff_exit_def storage_commit_def storage_def world_now_def)
        have guard: "eff_guard ?ok x w = (Inr (), w)" for x using True by (simp add: eff_guard_def eff_of_def guard_res_def)
        have run: "eff_bind (eff_of r2) (\<lambda>results. save_view E ctx (with_results ''committed'' results d)) ?w1 = (r, w')"
          using assms unfolding commit_atomic_def Let_def None option.case 
            eff_bind_Inr [where m = "eff_guard ?ok x" and w = w for x, OF guard]
            eff_bind_Inr [where m = "eff_exit (storage_commit E (\<lambda>m. commitAll m ?ps [] []))" and w = w, OF exit] sum.case r2 .
        have "quiet E ?t ?w1 w' \<and> (\<forall>v. r = Inr v \<longrightarrow> oget v ''status'' = JStr ''committed'')"
        proof (cases r2)
          case (Inl y)
          with run show ?thesis by (auto simp: eff_bind_def eff_of_def)
        next
          case (Inr rs)
          with run have "save_view E ctx (with_results ''committed'' rs d) ?w1 = (r, w')" by (simp add: eff_bind_def eff_of_def)
          from save_view_run [OF this] show ?thesis by blast
        qed
        then have ?committed
          using None True c n to_now unfolding all_committed_once_def by (auto simp: quiet_def)
        then show ?thesis by blast
      qed
    qed
  qed
qed


section \<open>Properties\<close>

text \<open>
  C6: whatever is asked of the changesets of a tenant, and whether or not it succeeds, their documents
  stay sound: the content hash describes the preview stored with it, an approved document is bound to
  that hash, an atomic one is failed with no row or committed with every row, and a row of a resumable
  one is reported as committed only if its receipt is in the store with the result that is reported.
  Concurrent callers are asked to keep receipts and to leave the documents sound.
\<close>

theorem changeset_documents_sound:
  assumes "others_respect E (cx_tenant ctx)" "plain_text (cx_tenant ctx)"
    and "changesets_sound E (cx_tenant ctx) (wo_store w)"
    and "cs_handle E action body ctx w = (r, w')"
  shows "changesets_sound E (cx_tenant ctx) (wo_store w')"
  using handle_triple [OF assms(1) refl assms(2)] assms(3,4) unfolding triple_def by (fastforce split: sum.splits)

definition staged_body :: obj where
  "staged_body = [(''mode'', JStr ''atomic''), (''operations'', JArr
     [JObj [(''op'', JStr ''tickets.create''), (''input'', JObj [(''title'', JStr ''ab'')])]])]"

theorem changeset_documents_sound_witness:
  "let m = wo_store (snd (cs_handle desk_env ''propose'' staged_body desk_ctx desk_world)) in
   changesets_sound desk_env ''t1'' m \<and> mhas (key3 ''t1'' CHANGESET_KIND ''op-0'') (me_documents m)"
proof -
  let ?m = "wo_store (snd (cs_handle desk_env ''propose'' staged_body desk_ctx desk_world))"
  have t: "cx_tenant desk_ctx = ''t1''" by (simp add: desk_ctx_def)
  have "changesets_sound desk_env (cx_tenant desk_ctx) ?m"
  proof (rule changeset_documents_sound)
    show "others_respect desk_env (cx_tenant desk_ctx)" by (simp add: others_respect_def desk_env_def receipts_kept_def)
    show "plain_text (cx_tenant desk_ctx)" by code_simp
    show "changesets_sound desk_env (cx_tenant desk_ctx) (wo_store desk_world)"
      by (simp add: changesets_sound_def desk_world_def memory_new_def stored_doc_def getDocument_def)
    show "cs_handle desk_env ''propose'' staged_body desk_ctx desk_world =
      (fst (cs_handle desk_env ''propose'' staged_body desk_ctx desk_world), snd (cs_handle desk_env ''propose'' staged_body desk_ctx desk_world))"
      by simp
  qed
  moreover have "mhas (key3 ''t1'' CHANGESET_KIND ''op-0'') (me_documents ?m)" by code_simp
  ultimately show ?thesis unfolding Let_def t by blast
qed

text \<open>
  C20: a changeset has no effect on records unless it was approved: apart from what concurrent callers
  do, a call only writes changeset documents (and sequence numbers), or it is a commit that found the
  document approved or partially committed.
\<close>

theorem changeset_needs_approval:
  "quiet E (cx_tenant ctx) w (snd (cs_handle E action body ctx w)) \<or>
   action = ''commit'' \<and> (\<exists>d. mem_getDocument (world_now E w) (cx_tenant ctx) CHANGESET_KIND (js_string (oget body ''id'')) = Some d \<and>
     (has_status d ''approved'' \<or> has_status d ''partially-committed''))"
proof -
  let ?i = "js_string (oget body ''id'')" and ?t = "cx_tenant ctx"
  have get: "keeps (quiet E ?t) (eff_bind (cs_load E ?i ctx) (\<lambda>d. eff_ret (cs_view d)))"
    by (intro quiet.keeps_bind keeps_load quiet.keeps_ret)
  have other: "keeps (quiet E ?t) (cs_handle E action body ctx)" if "action \<noteq> ''commit''"
    unfolding cs_handle_def Let_def
    by (intro quiet.keeps_if keeps_propose get keeps_preview keeps_approve quiet.keeps_fail) (use that in simp)
  have commit: "quiet E ?t w (snd (cs_commit E ?i ctx w))"
    if "\<nexists>d. mem_getDocument (world_now E w) ?t CHANGESET_KIND ?i = Some d \<and> (has_status d ''approved'' \<or> has_status d ''partially-committed'')"
  proof (cases "mem_getDocument (world_now E w) ?t CHANGESET_KIND ?i")
    case None
    then show ?thesis using quiet_load by (simp add: cs_commit_def eff_bind_def load_run)
  next
    case (Some d)
    with that show ?thesis
      using quiet_load by (auto simp: cs_commit_def eff_bind_def load_run eff_ret_def eff_fail_def)
  qed
  show ?thesis
  proof (cases "action = ''commit''")
    case True
    with commit show ?thesis by (auto simp: cs_handle_def)
  next
    case False
    with other show ?thesis by (simp add: keeps_def)
  qed
qed

text \<open>
  C21: committing an approved atomic changeset is all or nothing: either nothing but changeset documents
  is written, and if the call returns it says failed; or all operations, at most ten, each planned
  against current state, are committed in one transaction, exactly once, and the call says committed.
\<close>

theorem changeset_atomic_commit:
  assumes "mem_getDocument (world_now E w) (cx_tenant ctx) CHANGESET_KIND i = Some d"
    and "has_status d ''approved''" "is_atomic d" "cs_commit E i ctx w = (r, w')"
  shows "quiet E (cx_tenant ctx) w w' \<and> (\<forall>v. r = Inr v \<longrightarrow> oget v ''status'' = JStr ''failed'') \<or>
    (\<exists>ps. list_all2 (planned_by E ctx) (doc_ops d) ps \<and> length ps \<le> ATOMIC_LOGICAL_LIMIT \<and>
       all_committed_once E (cx_tenant ctx) (wo_store w) ps (wo_store w') \<and>
       (\<forall>v. r = Inr v \<longrightarrow> oget v ''status'' = JStr ''committed''))"
proof -
  let ?t = "cx_tenant ctx"
  let ?w1 = "w\<lparr>wo_store := world_now E w, wo_tick := wo_tick w + 1\<rparr>"
  have q1: "quiet E ?t w ?w1" by (rule quiet_load)
  have "\<not> has_status d ''committed''" "\<not> has_status d ''partially-committed''" using assms(2) by (simp_all add: has_status_def)
  with assms have run: "eff_bind (planAll E d ctx) (\<lambda>ys. commit_atomic E d ys ctx) ?w1 = (r, w')"
    by (simp add: cs_commit_def eff_bind_def [of "cs_load E i ctx"] load_run)
  obtain r2 w2 where p: "planAll E d ctx ?w1 = (r2, w2)" by (cases "planAll E d ctx ?w1") auto
  have q2: "quiet E ?t w w2" using quiet.trans [OF q1 quiet.keepsD [OF keeps_planAll p]] .
  show ?thesis
  proof (cases r2)
    case (Inl e)
    with run p q2 show ?thesis by (auto simp: eff_bind_def)
  next
    case (Inr ys)
    with run p have c: "commit_atomic E d ys ctx w2 = (r, w')" by (simp add: eff_bind_def)
    from commit_atomic_cases [OF c] show ?thesis
    proof
      assume f: "quiet E ?t w2 w' \<and> (\<forall>v. r = Inr v \<longrightarrow> oget v ''status'' = JStr ''failed'')"
      then have "quiet E ?t w w'" by (intro quiet.trans [OF q2]) (rule conjunct1)
      with f show ?thesis by (intro disjI1) (rule conjI, assumption, rule conjunct2)
    next
      let ?ps = "List.map_filter id (map snd ys)"
      assume a: "find_index is_error (map fst ys) = None \<and> length (doc_ops d) \<le> ATOMIC_LOGICAL_LIMIT \<and>
        all_committed_once E ?t (wo_store w2) ?ps (wo_store w') \<and> (\<forall>v. r = Inr v \<longrightarrow> oget v ''status'' = JStr ''committed'')"
      have "planAll E d ctx ?w1 = (Inr ys, w2)" using p Inr by simp
      then have "list_all2 (planned_by E ctx) (doc_ops d) ?ps" using a all_planned by blast
      moreover have "all_committed_once E ?t (wo_store w) ?ps (wo_store w')"
        using a q2 unfolding all_committed_once_def quiet_def by (meson rtranclp_trans)
      moreover have "length ?ps \<le> ATOMIC_LOGICAL_LIMIT" using a calculation(1) by (auto dest: list_all2_lengthD)
      ultimately show ?thesis using a by blast
    qed
  qed
qed

definition approved_staged :: obj where
  "approved_staged = [(''id'', JStr ''c1''), (''status'', JStr ''approved''), (''mode'', JStr ''atomic''),
     (''operations'', oget staged_body ''operations''), (''actor'', JStr ''ann''), (''contentHash'', JStr ''00''), (''approvedHash'', JStr ''00'')]"

definition staged_world :: "obj \<Rightarrow> world" where
  "staged_world d = desk_world\<lparr>wo_store := memory_new\<lparr>me_documents := [(key3 ''t1'' CHANGESET_KIND ''c1'', 1, d)]\<rparr>\<rparr>"

theorem changeset_atomic_commit_witness:
  "\<exists>r w' ps. cs_commit desk_env ''c1'' desk_ctx (staged_world approved_staged) = (r, w') \<and> length ps = 1 \<and>
     all_committed_once desk_env ''t1'' (wo_store (staged_world approved_staged)) ps (wo_store w')"
proof -
  let ?w = "staged_world approved_staged"
  let ?d = "mput ''_version'' (JInt 1) approved_staged"
  obtain r w' where run: "cs_commit desk_env ''c1'' desk_ctx ?w = (r, w')" by (cases "cs_commit desk_env ''c1'' desk_ctx ?w") auto
  have t: "cx_tenant desk_ctx = ''t1''" by (simp add: desk_ctx_def)
  have d: "mem_getDocument (world_now desk_env ?w) (cx_tenant desk_ctx) CHANGESET_KIND ''c1'' = Some ?d"
    "has_status ?d ''approved''" "is_atomic ?d" "length (doc_ops ?d) = 1" by code_simp+
  have "case fst (cs_commit desk_env ''c1'' desk_ctx ?w) of Inr v \<Rightarrow> oget v ''status'' = JStr ''committed'' | Inl e \<Rightarrow> False" by code_simp
  then obtain v where v: "r = Inr v" "oget v ''status'' = JStr ''committed''" using run by (auto split: sum.splits)
  from changeset_atomic_commit [OF d(1-3) run] v obtain ps where ps: "list_all2 (planned_by desk_env desk_ctx) (doc_ops ?d) ps"
    "all_committed_once desk_env ''t1'' (wo_store ?w) ps (wo_store w')" by (auto simp: t)
  have "length ps = 1" using list_all2_lengthD [OF ps(1)] d(4) by simp
  with run ps(2) show ?thesis by blast
qed

text \<open>
  C37: a changeset whose resumable commit was interrupted while it is committing cannot be taken up
  again: preview, approve and commit all refuse it, and nothing is written.
\<close>

theorem changeset_committing_stuck:
  assumes "mem_getDocument (world_now E w) (cx_tenant ctx) CHANGESET_KIND (js_string (oget body ''id'')) = Some d"
    and "has_status d ''committing''" "action \<in> {''preview'', ''approve'', ''commit''}"
  shows "cs_handle E action body ctx w =
    (Inl (err ''InvalidTransition''), w\<lparr>wo_store := world_now E w, wo_tick := wo_tick w + 1\<rparr>)"
proof -
  have st: "has_status d s \<longleftrightarrow> s = ''committing''" for s using assms(2) by (auto simp: has_status_def)
  show ?thesis
    using assms(3)
    by (auto simp: cs_handle_def cs_preview_def cs_approve_def cs_commit_def eff_bind_def load_run assms(1) st PREVIEWABLE_def
        eff_guard_def eff_of_def guard_res_def eff_fail_def)
qed

theorem changeset_committing_stuck_witness:
  "fst (cs_handle desk_env ''commit'' [(''id'', JStr ''c1'')] desk_ctx
     (staged_world (set_status ''committing'' approved_staged))) = Inl (err ''InvalidTransition'')"
proof -
  let ?w = "staged_world (set_status ''committing'' approved_staged)"
  let ?d = "mput ''_version'' (JInt 1) (set_status ''committing'' approved_staged)"
  have "mem_getDocument (world_now desk_env ?w) (cx_tenant desk_ctx) CHANGESET_KIND (js_string (oget [(''id'', JStr ''c1'')] ''id'')) = Some ?d"
    "has_status ?d ''committing''" by code_simp+
  from changeset_committing_stuck [OF this, of "''commit''"] show ?thesis by simp
qed

end
