(* ===== verification/Delivery.thy ===== *)
theory Delivery
  imports Documents Memory_Correct
begin

text \<open>
  Outbox dispatch (\<open>packages/runtime/src/dispatch.ts\<close>) and the inbox protocol of subscriptions
  (\<open>packages/runtime/src/subscription-delivery.ts\<close>). The transport and the handlers of consumers are
  parameters; what a sweep sent is part of its result. MemoryStorage supports atomic completion.
\<close>

section \<open>Subscription deliveries\<close>

definition DELIVERY_KIND :: string where
  "DELIVERY_KIND = ''subscription-delivery-v1''"

definition DELIVERY_LEASE :: int where
  "DELIVERY_LEASE = 60000"

text \<open>
  A delivery object: its document id, the version it fences with, its state document, and the outcome of
  the first \<open>beforeExternal\<close> (which is memoized; \<open>externalStarted\<close> is that it succeeded).
\<close>

record delivery =
  dl_tenant :: string
  dl_id :: string
  dl_version :: nat
  dl_state :: obj
  dl_intent :: "unit res option"

definition externalStarted :: "delivery \<Rightarrow> bool" where
  "externalStarted d \<longleftrightarrow> dl_intent d = Some (Inr ())"

definition with_status :: "string \<Rightarrow> obj \<Rightarrow> obj" where
  "with_status s d = mput ''status'' (JStr s) d"

text \<open>\<open>Number(old.leaseUntil) > now\<close>; the member is a number in every document the protocol writes.\<close>

definition lease_after :: "int \<Rightarrow> obj \<Rightarrow> bool" where
  "lease_after now d = (case oget d ''leaseUntil'' of JInt u \<Rightarrow> u > now | _ \<Rightarrow> False)"

text \<open>The outcome of looking at an existing document: None to claim it, else what \<open>claim\<close> does instead.\<close>

definition delivery_check :: "obj option \<Rightarrow> string \<Rightarrow> int \<Rightarrow> unit option res" where
  "delivery_check old requestHash now =
     (case old of
        None \<Rightarrow> Inr (Some ())
      | Some d \<Rightarrow>
          if oget d ''requestHash'' \<noteq> JStr requestHash then Inl (err ''IdempotencyMismatch'')
          else if oget d ''status'' = JStr ''complete'' then Inr None
          else if oget d ''status'' = JStr ''external'' then Inl (err ''DeliveryOutcomeUnknown'')
          else if oget d ''status'' = JStr ''running'' \<and> lease_after now d then Inl (err ''TransientConflict'')
          else Inr (Some ()))"

definition delivery_state :: "string \<Rightarrow> string \<Rightarrow> string \<Rightarrow> int \<Rightarrow> obj" where
  "delivery_state requestHash sub mid now =
     [(''status'', JStr ''running''), (''requestHash'', JStr requestHash), (''subscription'', JStr sub),
      (''messageId'', JStr mid), (''leaseUntil'', JInt (now + DELIVERY_LEASE))]"

definition delivery_claim :: "env \<Rightarrow> string \<Rightarrow> string \<Rightarrow> string \<Rightarrow> string \<Rightarrow> delivery option eff" where
  "delivery_claim E tenant sub mid requestHash =
     eff_bind (storage_read E (\<lambda>m. hasProcessed m tenant sub mid)) (\<lambda>processed.
       if processed then eff_ret None
       else let i = encodeIdentity [sub, mid] in
         eff_bind (storage_read E (\<lambda>m. mem_getDocument m tenant DELIVERY_KIND i)) (\<lambda>old.
         eff_bind (eff_env (en_dateNow E)) (\<lambda>now.
         eff_bind (eff_of (delivery_check old requestHash now)) (\<lambda>go.
           case go of
             None \<Rightarrow> eff_ret None
           | Some u \<Rightarrow>
               eff_bind (eff_env (en_dateNow E)) (\<lambda>now'.
               let state = delivery_state requestHash sub mid now' in
               eff_bind (eff_exit (storage_write E (\<lambda>m. mem_putDocument m tenant DELIVERY_KIND i state (doc_expected old)))) (\<lambda>saved.
                 case saved of
                   Inl e \<Rightarrow> eff_fail (if exn_code e = ''VersionConflict'' then err ''TransientConflict'' else e)
                 | Inr u \<Rightarrow> eff_ret (Some \<lparr>dl_tenant = tenant, dl_id = i,
                     dl_version = (case doc_expected old of None \<Rightarrow> 0 | Some v \<Rightarrow> v) + 1, dl_state = state, dl_intent = None\<rparr>)))))))"

definition put_delivery :: "env \<Rightarrow> delivery \<Rightarrow> string \<Rightarrow> unit eff" where
  "put_delivery E d status =
     storage_write E (\<lambda>m. mem_putDocument m (dl_tenant d) DELIVERY_KIND (dl_id d) (with_status status (dl_state d)) (Some (dl_version d)))"

text \<open>The first call decides; a failure that is no \<open>ForgeError\<close> leaves the intent in doubt.\<close>

definition in_doubt :: "exn \<Rightarrow> exn" where
  "in_doubt e = (case e of Forge f \<Rightarrow> Forge f | _ \<Rightarrow> err ''DeliveryOutcomeUnknown'')"

definition beforeExternal :: "env \<Rightarrow> delivery \<Rightarrow> (unit res \<times> delivery) eff" where
  "beforeExternal E d =
     (case dl_intent d of
        Some r \<Rightarrow> eff_ret (r, d)
      | None \<Rightarrow>
          eff_bind (eff_env (en_dateNow E)) (\<lambda>now.
          eff_bind (eff_exit (if lease_after now (dl_state d) then put_delivery E d ''external'' else eff_fail (err ''TransientConflict''))) (\<lambda>r.
            case r of
              Inr u \<Rightarrow> eff_ret (Inr (), d\<lparr>dl_version := dl_version d + 1, dl_intent := Some (Inr ())\<rparr>)
            | Inl e \<Rightarrow> eff_ret (Inl (in_doubt e), d\<lparr>dl_intent := Some (Inl (in_doubt e))\<rparr>))))"

definition completion :: "delivery \<Rightarrow> obj document_write" where
  "completion d = \<lparr>dw_kind = DELIVERY_KIND, dw_id = dl_id d, dw_doc = with_status ''complete'' (dl_state d),
     dw_expected = Some (dl_version d)\<rparr>"

text \<open>Giving the claim back; a release that fails is left to the expiry of the lease.\<close>

definition delivery_failed :: "env \<Rightarrow> delivery \<Rightarrow> unit eff" where
  "delivery_failed E d =
     (if externalStarted d then eff_fail (err ''DeliveryOutcomeUnknown'')
      else eff_bind (eff_exit (put_delivery E d ''ready'')) (\<lambda>r. eff_ret ()))"

section \<open>Envelopes\<close>

record envelope =
  ep_channel :: string
  ep_message :: string
  ep_tenant :: string
  ep_opId :: string
  ep_ordinal :: nat
  ep_messageId :: string
  ep_payload :: jsval
  ep_createdAt :: string

definition envelopeOf :: "outbox_row \<Rightarrow> envelope" where
  "envelopeOf row = (let e = or_entry row in
     \<lparr>ep_channel = ob_channel e, ep_message = ob_message e, ep_tenant = ob_tenant e, ep_opId = ob_opId e,
      ep_ordinal = ob_ordinal e, ep_messageId = ob_opId e @ '':'' @ show_int (int (ob_ordinal e)), ep_payload = ob_payload e,
      ep_createdAt = ob_createdAt e\<rparr>)"

section \<open>The opaque consumer\<close>

definition envelope_hash :: "env \<Rightarrow> envelope \<Rightarrow> string" where
  "envelope_hash E ep = sha256 E (stable_json (JObj [(''channel'', JStr (ep_channel ep)), (''message'', JStr (ep_message ep)),
     (''payload'', ep_payload ep)]))"

text \<open>An effect that failed or not as a value; \<open>eff_else\<close> handles the exception.\<close>

definition eff_else :: "'a eff \<Rightarrow> (exn \<Rightarrow> 'a eff) \<Rightarrow> 'a eff" where
  "eff_else m h = eff_bind (eff_exit m) (\<lambda>r. case r of Inr x \<Rightarrow> eff_ret x | Inl e \<Rightarrow> h e)"

definition put_completion :: "env \<Rightarrow> delivery \<Rightarrow> unit eff" where
  "put_completion E d = (let c = completion d in
     storage_write E (\<lambda>m. mem_putDocument m (dl_tenant d) (dw_kind c) (dw_id c) (dw_doc c) (dw_expected c)))"

text \<open>Processed (True) or duplicate (False). The handler runs only after its intent is recorded.\<close>

definition consumer :: "env \<Rightarrow> string \<Rightarrow> (envelope \<Rightarrow> unit eff) \<Rightarrow> envelope \<Rightarrow> bool eff" where
  "consumer E sub handler ep =
     eff_bind (delivery_claim E (ep_tenant ep) sub (ep_messageId ep) (envelope_hash E ep)) (\<lambda>claimed.
       case claimed of
         None \<Rightarrow> eff_ret False
       | Some d \<Rightarrow>
           eff_bind (beforeExternal E d) (\<lambda>(r, d').
           eff_else
             (eff_bind (eff_of r) (\<lambda>_. eff_bind (handler ep) (\<lambda>_. eff_bind (put_completion E d') (\<lambda>_. eff_ret True))))
             (\<lambda>e. eff_bind (delivery_failed E d') (\<lambda>_. eff_fail e))))"

section \<open>Sweeping the outbox\<close>

record dispatcher =
  ds_subscriptions :: "(string \<times> string list) list"
  ds_leaseMs :: int
  ds_maxAttempts :: nat
  ds_owner :: string
  ds_batch :: nat
  ds_send :: "nat \<Rightarrow> string \<Rightarrow> envelope \<Rightarrow> bool"

definition subscriptionsFor :: "dispatcher \<Rightarrow> string \<Rightarrow> string list" where
  "subscriptionsFor D channel = (case map_of (ds_subscriptions D) channel of None \<Rightarrow> [] | Some ss \<Rightarrow> ss)"

record sweep_report =
  sw_claimed :: nat
  sw_delivered :: nat
  sw_failed :: nat
  sw_dead :: nat
  sw_sent :: "(string \<times> envelope \<times> bool) list"

definition no_report :: sweep_report where
  "no_report = \<lparr>sw_claimed = 0, sw_delivered = 0, sw_failed = 0, sw_dead = 0, sw_sent = []\<rparr>"

text \<open>An outbox operation answers with a boolean.\<close>

definition storage_bool :: "env \<Rightarrow> (memory \<Rightarrow> bool \<times> memory) \<Rightarrow> bool eff" where
  "storage_bool E f = storage E (\<lambda>m. let (b, m') = f m in (Inr b, m'))"

definition delivered_to :: "string \<Rightarrow> progress" where
  "delivered_to sub = \<lparr>pg_delivered = [sub], pg_done = False, pg_dead = False, pg_release = False\<rparr>"

definition status_only :: "bool \<Rightarrow> bool \<Rightarrow> progress" where
  "status_only fin dead = \<lparr>pg_delivered = [], pg_done = fin, pg_dead = dead, pg_release = False\<rparr>"

text \<open>One row: every subscription not delivered on an earlier attempt, its progress saved at once.\<close>

fun deliver_subs ::
    "env \<Rightarrow> dispatcher \<Rightarrow> outbox_ref \<Rightarrow> envelope \<Rightarrow> string list \<Rightarrow> string list \<Rightarrow> bool \<Rightarrow> sweep_report \<Rightarrow> (bool \<times> sweep_report) eff" where
  "deliver_subs E D key ep [] finished failedAny rep = eff_ret (failedAny, rep)"
| "deliver_subs E D key ep (sub # subs) finished failedAny rep =
     (if sub \<in> set finished then deliver_subs E D key ep subs finished failedAny rep
      else eff_bind (eff_env (\<lambda>n. ds_send D n sub ep)) (\<lambda>ok.
        if ok then
          eff_bind (storage_bool E (\<lambda>m. outboxProgress m key (ds_owner D) (delivered_to sub))) (\<lambda>_.
            deliver_subs E D key ep subs (finished @ [sub]) failedAny
              (rep\<lparr>sw_delivered := sw_delivered rep + 1, sw_sent := sw_sent rep @ [(sub, ep, True)]\<rparr>))
        else deliver_subs E D key ep subs finished True
              (rep\<lparr>sw_failed := sw_failed rep + 1, sw_sent := sw_sent rep @ [(sub, ep, False)]\<rparr>)))"

definition ref_of :: "outbox_row \<Rightarrow> outbox_ref" where
  "ref_of row = \<lparr>ref_tenant = ob_tenant (or_entry row), ref_opId = ob_opId (or_entry row), ref_ordinal = ob_ordinal (or_entry row)\<rparr>"

definition sweep_row :: "env \<Rightarrow> dispatcher \<Rightarrow> int \<Rightarrow> outbox_row \<Rightarrow> sweep_report \<Rightarrow> sweep_report eff" where
  "sweep_row E D now row rep =
     (let key = ref_of row in
      eff_bind (storage_bool E (\<lambda>m. outboxClaim m key (ds_owner D) now (ds_leaseMs D))) (\<lambda>claimed.
        if \<not> claimed then eff_ret rep
        else eff_bind (deliver_subs E D key (envelopeOf row) (subscriptionsFor D (ob_channel (or_entry row))) (or_delivered row) False
               (rep\<lparr>sw_claimed := sw_claimed rep + 1\<rparr>)) (\<lambda>(failedAny, rep').
          if \<not> failedAny then
            eff_bind (storage_bool E (\<lambda>m. outboxProgress m key (ds_owner D) (status_only True False))) (\<lambda>_. eff_ret rep')
          else if or_attempts row + 1 \<ge> ds_maxAttempts D then
            eff_bind (storage_bool E (\<lambda>m. outboxProgress m key (ds_owner D) (status_only False True))) (\<lambda>_.
              eff_ret (rep'\<lparr>sw_dead := sw_dead rep' + 1\<rparr>))
          else eff_ret rep')))"

fun sweep_rows :: "env \<Rightarrow> dispatcher \<Rightarrow> int \<Rightarrow> outbox_row list \<Rightarrow> sweep_report \<Rightarrow> sweep_report eff" where
  "sweep_rows E D now [] rep = eff_ret rep"
| "sweep_rows E D now (row # rows) rep = eff_bind (sweep_row E D now row rep) (sweep_rows E D now rows)"

definition sweep :: "env \<Rightarrow> dispatcher \<Rightarrow> string \<Rightarrow> int \<Rightarrow> sweep_report eff" where
  "sweep E D tenant now =
     eff_bind (storage_read E (\<lambda>m. outboxSweep m tenant now (ds_batch D))) (\<lambda>rows. sweep_rows E D now rows no_report)"

definition dispatcher_dead :: "env \<Rightarrow> string \<Rightarrow> outbox_row list eff" where
  "dispatcher_dead E tenant = storage_read E (\<lambda>m. outboxDead m tenant)"

definition redrive :: "env \<Rightarrow> string \<Rightarrow> string \<Rightarrow> nat \<Rightarrow> bool eff" where
  "redrive E tenant opId ordinal =
     storage_bool E (\<lambda>m. outboxRedrive m \<lparr>ref_tenant = tenant, ref_opId = opId, ref_ordinal = ordinal\<rparr>)"

end
