(* ===== verification/Delivery_Correct.thy ===== *)
theory Delivery_Correct
  imports Delivery
begin

text \<open>
  The inbox protocol records the intent of an external effect before the effect, and no later claim is
  granted once it is recorded: a handler runs at most once per message and subscription.
\<close>

section \<open>What every participant keeps\<close>

text \<open>The delivery's outcome is settled or in doubt: nobody may run the handler again.\<close>

definition delivery_done :: "string \<Rightarrow> string \<Rightarrow> memory \<Rightarrow> bool" where
  "delivery_done t i m \<longleftrightarrow> (\<exists>v d. stored_doc m t DELIVERY_KIND i = Some (v, d) \<and>
     oget d ''status'' \<in> {JStr ''external'', JStr ''complete''})"

definition delivery_rely :: "string \<Rightarrow> string \<Rightarrow> memory \<Rightarrow> memory \<Rightarrow> bool" where
  "delivery_rely t i m m' \<longleftrightarrow> doc_step t DELIVERY_KIND i m m' \<and> (delivery_done t i m \<longrightarrow> delivery_done t i m')"

lemma delivery_rely_refl [simp]: "delivery_rely t i m m"
  by (simp add: delivery_rely_def)

lemma delivery_rely_trans: "delivery_rely t i a b \<Longrightarrow> delivery_rely t i b c \<Longrightarrow> delivery_rely t i a c"
  using doc_step_trans by (auto simp: delivery_rely_def)

definition protocol :: "string \<Rightarrow> string \<Rightarrow> world \<Rightarrow> world \<Rightarrow> bool" where
  "protocol t i w w' \<longleftrightarrow> delivery_rely t i (wo_store w) (wo_store w')"

interpretation protocol: frame "protocol t i" for t i
  by unfold_locales (auto simp: protocol_def intro: delivery_rely_trans)

text \<open>Others take part in the protocol, or stay away from its documents.\<close>

definition others_follow :: "env \<Rightarrow> string \<Rightarrow> string \<Rightarrow> bool" where
  "others_follow E t i \<longleftrightarrow> (\<forall>n m. delivery_rely t i m (en_others E n m))"

lemma follow_now: "others_follow E t i \<Longrightarrow> delivery_rely t i (wo_store w) (world_now E w)"
  by (simp add: others_follow_def world_now_def)

lemma follow_read: "others_follow E t i \<Longrightarrow> keeps (protocol t i) (storage_read E f)"
  by (simp add: keeps_def protocol_def storage_read_def storage_def others_follow_def Let_def)

lemma protocol_env: "keeps (protocol t i) (eff_env f)"
  by (simp add: keeps_def eff_env_def protocol_def)

text \<open>
  A delivery object in hand: the document has its version and status, or has moved on since.
\<close>

definition in_hand :: "delivery \<Rightarrow> memory \<Rightarrow> bool" where
  "in_hand d m \<longleftrightarrow> (\<exists>v x. stored_doc m (dl_tenant d) DELIVERY_KIND (dl_id d) = Some (v, x) \<and> dl_version d \<le> v \<and>
     (v = dl_version d \<and> \<not> externalStarted d \<longrightarrow> oget x ''status'' = JStr ''running''))"

lemma in_hand_step: "in_hand d m \<Longrightarrow> doc_step (dl_tenant d) DELIVERY_KIND (dl_id d) m m' \<Longrightarrow> in_hand d m'"
proof -
  assume a: "in_hand d m" "doc_step (dl_tenant d) DELIVERY_KIND (dl_id d) m m'"
  obtain v x where v: "stored_doc m (dl_tenant d) DELIVERY_KIND (dl_id d) = Some (v, x)" "dl_version d \<le> v"
    "v = dl_version d \<and> \<not> externalStarted d \<longrightarrow> oget x ''status'' = JStr ''running''"
    using a(1) by (auto simp: in_hand_def)
  obtain v' x' where "stored_doc m' (dl_tenant d) DELIVERY_KIND (dl_id d) = Some (v', x')" "v' = v \<and> x' = x \<or> v < v'"
    using a(2) v(1) by (auto simp: doc_step_def)
  with v(2,3) show ?thesis by (auto simp: in_hand_def)
qed

lemma in_hand_rely: "in_hand d m \<Longrightarrow> delivery_rely (dl_tenant d) (dl_id d) m m' \<Longrightarrow> in_hand d m'"
  using in_hand_step by (auto simp: delivery_rely_def)

text \<open>Running the first effect of a sequence.\<close>

lemma run_env: "eff_bind (eff_env f) g w = g (f (wo_tick w)) (w\<lparr>wo_tick := wo_tick w + 1\<rparr>)"
  by (simp add: eff_bind_def eff_env_def)

lemma run_of: "eff_bind (eff_of r) g w = (case r of Inl e \<Rightarrow> (Inl e, w) | Inr x \<Rightarrow> g x w)"
  by (simp add: eff_bind_def eff_of_def split: sum.split)

text \<open>One conditional write, as an effect.\<close>

lemma put_run:
  "storage_write E (\<lambda>m. mem_putDocument m t k i x e) w = (r, w') \<Longrightarrow>
   (\<exists>m'. mem_putDocument (world_now E w) t k i x e = Inr m' \<and> r = Inr () \<and> wo_store w' = m') \<or>
   (\<exists>err. mem_putDocument (world_now E w) t k i x e = Inl err \<and> r = Inl err \<and> wo_store w' = world_now E w)"
  by (auto simp: storage_write_def storage_def world_now_def Let_def split: sum.splits prod.splits)

lemma status_with_status [simp]: "oget (mdel ''_version'' (with_status s d)) ''status'' = JStr s"
  by (simp add: with_status_def oget_def)

text \<open>A write over a document that is not done, or one that makes it done, is a protocol step.\<close>

lemma write_rely:
  assumes "mem_putDocument m t DELIVERY_KIND i x e = Inr m'"
    and "\<not> delivery_done t i m \<or> oget (mdel ''_version'' x) ''status'' \<in> {JStr ''external'', JStr ''complete''}"
  shows "delivery_rely t i m m'"
  using doc_written [OF assms(1)] assms(2) by (auto simp: delivery_rely_def delivery_done_def)

section \<open>The operations\<close>

lemma put_delivery_run:
  assumes "put_delivery E d s w = (r, w')" "others_follow E (dl_tenant d) (dl_id d)"
    and "s = ''external'' \<or> s = ''complete'' \<or> in_hand d (wo_store w) \<and> \<not> externalStarted d"
  shows "protocol (dl_tenant d) (dl_id d) w w' \<and>
    (r = Inr () \<longrightarrow> stored_doc (wo_store w') (dl_tenant d) DELIVERY_KIND (dl_id d) =
       Some (Suc (dl_version d), mdel ''_version'' (with_status s (dl_state d))))"
proof -
  let ?m = "world_now E w"
  have now: "delivery_rely (dl_tenant d) (dl_id d) (wo_store w) ?m" by (rule follow_now [OF assms(2)])
  from put_run [OF assms(1) [unfolded put_delivery_def]] show ?thesis
  proof (elim disjE exE conjE)
    fix m' assume m': "mem_putDocument ?m (dl_tenant d) DELIVERY_KIND (dl_id d) (with_status s (dl_state d)) (Some (dl_version d)) = Inr m'"
      and r: "r = Inr ()" "wo_store w' = m'"
    note wr = doc_written [OF m']
    have "\<not> delivery_done (dl_tenant d) (dl_id d) ?m" if "in_hand d (wo_store w)" "\<not> externalStarted d"
      using in_hand_rely [OF that(1) now] that(2) wr(1) by (auto simp: in_hand_def delivery_done_def)
    then have "delivery_rely (dl_tenant d) (dl_id d) ?m m'"
      using assms(3) by (intro write_rely [OF m']) auto
    with now r wr(2) show ?thesis by (auto simp: protocol_def intro: delivery_rely_trans)
  qed (use now in \<open>simp add: protocol_def\<close>)
qed

text \<open>A granted claim is a protocol step and leaves the delivery in hand.\<close>

lemma delivery_check_go: "delivery_check (mem_getDocument m t DELIVERY_KIND i) h now = Inr (Some u) \<Longrightarrow> \<not> delivery_done t i m"
  by (auto simp: delivery_check_def delivery_done_def stored_doc_def mem_getDocument_def oget_def split: if_splits)

lemma delivery_check_done: "delivery_done t i m \<Longrightarrow> delivery_check (mem_getDocument m t DELIVERY_KIND i) h now \<noteq> Inr (Some u)"
  using delivery_check_go by blast

lemma delivery_claim_run:
  assumes "delivery_claim E t sub mid h w = (r, w')" "others_follow E t (encodeIdentity [sub, mid])"
  shows "protocol t (encodeIdentity [sub, mid]) w w' \<and>
    (\<forall>d. r = Inr (Some d) \<longrightarrow> dl_tenant d = t \<and> dl_id d = encodeIdentity [sub, mid] \<and> dl_intent d = None \<and>
       in_hand d (wo_store w') \<and> \<not> delivery_done t (encodeIdentity [sub, mid]) (wo_store w))"
proof -
  let ?i = "encodeIdentity [sub, mid]"
  define m0 where "m0 = world_now E w"
  define w1 where "w1 = w\<lparr>wo_store := m0, wo_tick := wo_tick w + 1\<rparr>"
  define m1 where "m1 = world_now E w1"
  let ?old = "mem_getDocument m1 t DELIVERY_KIND ?i"
  have r0: "delivery_rely t ?i (wo_store w) m0" unfolding m0_def by (rule follow_now [OF assms(2)])
  have r1: "delivery_rely t ?i (wo_store w) m1"
    using delivery_rely_trans [OF r0] follow_now [OF assms(2), of w1] by (simp add: m1_def w1_def)
  note run = assms(1) [unfolded delivery_claim_def run_read, folded m0_def, folded w1_def]
  show ?thesis
  proof (cases "hasProcessed m0 t sub mid")
    case True
    with run r0 show ?thesis by (auto simp: eff_ret_def protocol_def w1_def)
  next
    case False
    define w2 where "w2 = w1\<lparr>wo_store := m1, wo_tick := wo_tick w1 + 1\<rparr>"
    have s2: "wo_store w2 = m1" by (simp add: w2_def)
    note run2 = run [simplified False if_False Let_def run_read, folded m1_def, folded w2_def]
    define now where "now = en_dateNow E (wo_tick w2)"
    define w3 where "w3 = w2\<lparr>wo_tick := wo_tick w2 + 1\<rparr>"
    note run3 = run2 [unfolded run_env run_of, folded now_def, folded w3_def]
    have s3: "wo_store w3 = m1" by (simp add: w3_def s2)
    consider (ended) "wo_store w' = m1" "\<forall>d. r \<noteq> Inr (Some d)"
      | (saved) "delivery_check ?old h now = Inr (Some ())"
    proof (cases "delivery_check ?old h now")
      case (Inl e)
      with run3 s3 ended show ?thesis by auto
    next
      case (Inr go)
      with run3 s3 ended saved show ?thesis by (cases go) (auto simp: eff_ret_def)
    qed
    then show ?thesis
    proof cases
      case ended
      with r1 show ?thesis by (auto simp: protocol_def)
    next
      case saved
      define now' where "now' = en_dateNow E (wo_tick w3)"
      define w4 where "w4 = w3\<lparr>wo_tick := wo_tick w3 + 1\<rparr>"
      have s4: "wo_store w4 = m1" by (simp add: w4_def s3)
      note put = run3 [unfolded saved sum.case option.case run_env Let_def, folded now'_def, folded w4_def]
      define m2 where "m2 = world_now E w4"
      have r12: "delivery_rely t ?i m1 m2" using follow_now [OF assms(2), of w4] s4 by (simp add: m2_def)
      have r2: "delivery_rely t ?i (wo_store w) m2" by (rule delivery_rely_trans [OF r1 r12])
      have free1: "\<not> delivery_done t ?i m1" by (rule delivery_check_go [OF saved])
      show ?thesis
      proof (cases "mem_putDocument m2 t DELIVERY_KIND ?i (delivery_state h sub mid now') (doc_expected ?old)")
        case (Inl e)
        with put r2 show ?thesis unfolding run_exit_write m2_def [symmetric]
          by (auto simp: eff_fail_def protocol_def)
      next
        case (Inr m3)
        have "stored_doc m2 t DELIVERY_KIND ?i = stored_doc m1 t DELIVERY_KIND ?i"
          using same_version_same_doc [of t DELIVERY_KIND ?i m1 m2] r12 doc_written(1) [OF Inr]
          by (simp add: doc_expected_stored delivery_rely_def)
        then have "\<not> delivery_done t ?i m2" using free1 by (simp add: delivery_done_def)
        then have "delivery_rely t ?i (wo_store w) m3"
          using delivery_rely_trans [OF r2] write_rely [OF Inr] by blast
        moreover have "\<not> delivery_done t ?i (wo_store w)" using r1 free1 by (auto simp: delivery_rely_def)
        moreover have "oget (mdel ''_version'' (delivery_state h sub mid now')) ''status'' = JStr ''running''"
          by (simp add: delivery_state_def oget_def)
        ultimately show ?thesis using put Inr doc_written(2) [OF Inr] unfolding run_exit_write m2_def [symmetric]
          by (auto simp: eff_ret_def protocol_def in_hand_def split: option.splits)
      qed
    qed
  qed
qed

lemma beforeExternal_run:
  assumes "beforeExternal E d w = (r, w')" "others_follow E (dl_tenant d) (dl_id d)" "in_hand d (wo_store w)" "dl_intent d = None"
  shows "protocol (dl_tenant d) (dl_id d) w w' \<and> (\<exists>x d'. r = Inr (x, d') \<and> dl_tenant d' = dl_tenant d \<and> dl_id d' = dl_id d \<and>
     in_hand d' (wo_store w') \<and> (x = Inr () \<longrightarrow> externalStarted d' \<and> delivery_done (dl_tenant d) (dl_id d) (wo_store w')) \<and>
     (x \<noteq> Inr () \<longrightarrow> \<not> externalStarted d'))"
proof -
  define now where "now = en_dateNow E (wo_tick w)"
  define w1 where "w1 = w\<lparr>wo_tick := wo_tick w + 1\<rparr>"
  have st: "wo_store w1 = wo_store w" by (simp add: w1_def)
  have p1: "protocol (dl_tenant d) (dl_id d) w v \<longleftrightarrow> protocol (dl_tenant d) (dl_id d) w1 v" for v by (simp add: protocol_def st)
  show ?thesis
  proof (cases "lease_after now (dl_state d)")
    case False
    with assms(1,3,4) show ?thesis
      by (auto simp: beforeExternal_def eff_bind_def eff_env_def eff_exit_def eff_fail_def eff_ret_def now_def [symmetric]
          protocol_def in_hand_def externalStarted_def in_doubt_def err_def)
  next
    case True
    obtain q w2 where q: "put_delivery E d ''external'' w1 = (q, w2)" by fastforce
    from put_delivery_run [OF q assms(2)] have put: "protocol (dl_tenant d) (dl_id d) w1 w2"
      "q = Inr () \<Longrightarrow> stored_doc (wo_store w2) (dl_tenant d) DELIVERY_KIND (dl_id d) =
         Some (Suc (dl_version d), mdel ''_version'' (with_status ''external'' (dl_state d)))" by auto
    have run: "(case q of Inr u \<Rightarrow> eff_ret (Inr (), d\<lparr>dl_version := dl_version d + 1, dl_intent := Some (Inr ())\<rparr>)
       | Inl e \<Rightarrow> eff_ret (Inl (in_doubt e), d\<lparr>dl_intent := Some (Inl (in_doubt e))\<rparr>)) w2 = (r, w')"
      using assms(1,4) True q [unfolded w1_def]
      by (cases q) (simp_all add: beforeExternal_def eff_bind_def eff_env_def eff_exit_def now_def [symmetric])
    show ?thesis
    proof (cases q)
      case (Inl e)
      have "in_hand d (wo_store w2)" using in_hand_rely assms(3) put(1) st by (auto simp: protocol_def)
      with run Inl put(1) p1 assms(4) show ?thesis by (auto simp: eff_ret_def in_hand_def externalStarted_def)
    next
      case (Inr u)
      with run put p1 show ?thesis
        by (auto simp: eff_ret_def in_hand_def externalStarted_def delivery_done_def)
    qed
  qed
qed

section \<open>The consumer\<close>

definition delivery_key :: "string \<Rightarrow> envelope \<Rightarrow> string" where
  "delivery_key sub ep = encodeIdentity [sub, ep_messageId ep]"

lemma put_completion_put: "put_completion E d = put_delivery E d ''complete''"
  by (simp add: put_completion_def put_delivery_def completion_def Let_def)

lemma delivery_failed_run:
  assumes "delivery_failed E d w = (r, w')" "others_follow E (dl_tenant d) (dl_id d)" "externalStarted d \<or> in_hand d (wo_store w)"
  shows "protocol (dl_tenant d) (dl_id d) w w'"
proof (cases "externalStarted d")
  case True
  with assms(1) show ?thesis by (simp add: delivery_failed_def eff_fail_def)
next
  case False
  obtain q w1 where q: "put_delivery E d ''ready'' w = (q, w1)" by fastforce
  have "protocol (dl_tenant d) (dl_id d) w w1" using put_delivery_run [OF q assms(2)] assms(3) False by blast
  with assms(1) False q show ?thesis by (simp add: delivery_failed_def eff_bind_def eff_exit_def eff_ret_def)
qed

text \<open>A consumer takes part in the protocol, whatever its handler does elsewhere.\<close>

lemma consumer_follows:
  assumes "others_follow E (ep_tenant ep) (delivery_key sub ep)" "\<And>v. protocol (ep_tenant ep) (delivery_key sub ep) v (snd (handler ep v))"
  shows "protocol (ep_tenant ep) (delivery_key sub ep) w (snd (consumer E sub handler ep w))"
proof -
  let ?P = "protocol (ep_tenant ep) (delivery_key sub ep)"
  obtain r w1 where c: "delivery_claim E (ep_tenant ep) sub (ep_messageId ep) (envelope_hash E ep) w = (r, w1)" by fastforce
  note claim = delivery_claim_run [OF c assms(1) [unfolded delivery_key_def], folded delivery_key_def]
  show ?thesis
  proof (cases "\<exists>d. r = Inr (Some d)")
    case False
    then have "snd (consumer E sub handler ep w) = w1"
      using c by (auto simp: consumer_def eff_bind_def eff_ret_def split: sum.split option.split)
    with claim show ?thesis by simp
  next
    case True
    then obtain d where d: "r = Inr (Some d)" ..
    with claim have d_is: "dl_tenant d = ep_tenant ep" "dl_id d = delivery_key sub ep" "dl_intent d = None" "in_hand d (wo_store w1)"
      by auto
    obtain q w2 where q: "beforeExternal E d w1 = (q, w2)" by fastforce
    from beforeExternal_run [OF q _ d_is(4,3)] assms(1) d_is(1,2) obtain x d' where x: "?P w1 w2" "q = Inr (x, d')"
      "dl_tenant d' = ep_tenant ep" "dl_id d' = delivery_key sub ep" "in_hand d' (wo_store w2)"
      "externalStarted d' \<longleftrightarrow> x = Inr ()" by auto
    have P12: "?P w w2" using claim x(1) protocol.trans by blast
    define body where "body = eff_bind (eff_of x) (\<lambda>_. eff_bind (handler ep) (\<lambda>_. eff_bind (put_completion E d') (\<lambda>_. eff_ret True)))"
    obtain y w3 where y: "body w2 = (y, w3)" by fastforce
    have f': "others_follow E (dl_tenant d') (dl_id d')" using assms(1) x(3,4) by simp
    have P23: "?P w2 w3 \<and> (x \<noteq> Inr () \<longrightarrow> w3 = w2)"
    proof (cases "x = Inr ()")
      case False
      then show ?thesis using y by (cases x) (auto simp: body_def eff_bind_def eff_of_def)
    next
      case True
      obtain z w4 where z: "handler ep w2 = (z, w4)" by fastforce
      have h: "?P w2 w4" using assms(2) [of w2] z by simp
      obtain u w5 where u: "put_completion E d' w4 = (u, w5)" by fastforce
      have "?P w4 w5" using put_delivery_run [OF u [unfolded put_completion_put] f'] x(3,4) by simp
      with h protocol.trans have "?P w2 w5" by blast
      with True y z u h show ?thesis
        by (cases z; cases u) (auto simp: body_def eff_bind_def eff_of_def eff_ret_def)
    qed
    obtain v w6 where v: "delivery_failed E d' w3 = (v, w6)" by fastforce
    have "externalStarted d' \<or> in_hand d' (wo_store w3)" using x(5,6) P23 by auto
    from delivery_failed_run [OF v f' this] have P36: "?P w3 w6" using x(3,4) by simp
    have run: "consumer E sub handler ep w = eff_else body (\<lambda>e. eff_bind (delivery_failed E d') (\<lambda>_. eff_fail e)) w2"
      using c d q x(2) by (simp add: consumer_def eff_bind_def body_def)
    have "snd (consumer E sub handler ep w) \<in> {w3, w6}"
      unfolding run using y v by (cases y; cases v) (auto simp: eff_else_def eff_bind_def eff_exit_def eff_ret_def eff_fail_def)
    with P12 P23 P36 protocol.trans show ?thesis by blast
  qed
qed

text \<open>Once the outcome is settled or in doubt, a consumer ends without looking at its handler.\<close>

lemma done_consumer:
  assumes "others_follow E (ep_tenant ep) (delivery_key sub ep)" "delivery_done (ep_tenant ep) (delivery_key sub ep) (wo_store w)"
  shows "consumer E sub handler ep w = consumer E sub handler' ep w \<and> fst (consumer E sub handler ep w) \<noteq> Inr True"
proof -
  obtain r w1 where c: "delivery_claim E (ep_tenant ep) sub (ep_messageId ep) (envelope_hash E ep) w = (r, w1)" by fastforce
  have "r \<noteq> Inr (Some d)" for d
    using delivery_claim_run [OF c assms(1) [unfolded delivery_key_def]] assms(2) by (auto simp: delivery_key_def)
  with c show ?thesis by (auto simp: consumer_def eff_bind_def eff_ret_def split: sum.split option.split)
qed

end
