(* ===== verification/Dispatch_Correct.thy ===== *)
theory Dispatch_Correct
  imports Delivery_Correct
begin

text \<open>
  A sweep that nobody disturbs, over a transport that works, delivers every row it finds to every
  subscription that had not got it, and closes the row.
\<close>

definition undisturbed :: "env \<Rightarrow> bool" where
  "undisturbed E \<longleftrightarrow> (\<forall>n m. en_others E n m = m)"

lemma undisturbed_now [simp]: "undisturbed E \<Longrightarrow> world_now E w = wo_store w"
  by (simp add: undisturbed_def world_now_def)

lemma run_bool:
  "undisturbed E \<Longrightarrow> eff_bind (storage_bool E f) g w =
     g (fst (f (wo_store w))) (w\<lparr>wo_store := snd (f (wo_store w)), wo_tick := wo_tick w + 1\<rparr>)"
  by (simp add: eff_bind_def storage_bool_def storage_def undisturbed_def Let_def split: prod.split)

text \<open>An outbox operation changes the row it names and no other.\<close>

definition keeps_entry :: "(outbox_row \<Rightarrow> outbox_row option) \<Rightarrow> bool" where
  "keeps_entry f \<longleftrightarrow> (\<forall>x y. f x = Some y \<longrightarrow> or_entry y = or_entry x)"

lemma keeps_entry_row: "keeps_entry f \<Longrightarrow> f x = Some y \<Longrightarrow> row_is r y = row_is r x"
  by (simp add: keeps_entry_def row_is_def)

lemma keeps_entry_claim: "keeps_entry (claim_row ow now ms)"
  by (auto simp: keeps_entry_def claim_row_def split: if_splits)

lemma keeps_entry_progress: "keeps_entry (progress_row ow u)"
  by (auto simp: keeps_entry_def progress_row_def Let_def split: if_splits)

lemma row_is_unique: "row_is r x \<Longrightarrow> row_is r' x \<Longrightarrow> r' = r"
  by (cases r; cases r') (simp add: row_is_def)

lemma update_row_other:
  "update_row r f rows = Some rows' \<Longrightarrow> keeps_entry f \<Longrightarrow> r' \<noteq> r \<Longrightarrow> List.find (row_is r') rows' = List.find (row_is r') rows"
proof (induction r f rows arbitrary: rows' rule: update_row.induct)
  case (2 r f x xs)
  show ?case
  proof (cases "row_is r x")
    case True
    with 2 obtain y where "f x = Some y" "rows' = y # xs" by auto
    with True 2 show ?thesis using keeps_entry_row [of f x y] row_is_unique [of r x r'] by auto
  next
    case False
    with 2 show ?thesis by auto
  qed
qed simp

lemma outbox_op_other: "keeps_entry f \<Longrightarrow> r' \<noteq> r \<Longrightarrow> row_of (snd (outbox_op m r f)) r' = row_of m r'"
  using update_row_other [of r f "me_outbox m"] by (auto simp: outbox_op_def row_of_def split: option.split)

lemma outbox_op_row:
  assumes "row_of m r = Some x" "f x = Some y" "keeps_entry f"
  shows "fst (outbox_op m r f) \<and> row_of (snd (outbox_op m r f)) r = Some y"
proof -
  have "row_is r y" using keeps_entry_row [OF assms(3,2)] row_of_is [OF assms(1)] by simp
  from outbox_op_accepted [where f = f and m = m and r = r, OF assms(1,2) this] show ?thesis by auto
qed

text \<open>A row this dispatcher has claimed.\<close>

definition held :: "dispatcher \<Rightarrow> memory \<Rightarrow> outbox_ref \<Rightarrow> outbox_row \<Rightarrow> bool" where
  "held D m r x \<longleftrightarrow> row_of m r = Some x \<and> or_status x = ObPending \<and> or_leaseOwner x = Some (ds_owner D)"

lemma claim_holds:
  assumes "row_of m r = Some x" "or_status x = ObPending" "case or_leaseUntil x of None \<Rightarrow> True | Some u \<Rightarrow> u < now"
  shows "\<exists>y. fst (outboxClaim m r (ds_owner D) now ms) \<and> held D (snd (outboxClaim m r (ds_owner D) now ms)) r y \<and>
     or_entry y = or_entry x \<and> or_delivered y = or_delivered x"
proof -
  let ?y = "x\<lparr>or_leaseOwner := Some (ds_owner D), or_leaseUntil := Some (now + ms), or_attempts := or_attempts x + 1\<rparr>"
  have "claim_row (ds_owner D) now ms x = Some ?y"
    using assms(2,3) by (auto simp: claim_row_def split: option.splits)
  from outbox_op_row [OF assms(1) this keeps_entry_claim] assms(2) show ?thesis
    by (intro exI [of _ ?y]) (simp add: outboxClaim_def held_def)
qed

lemma progress_delivered:
  assumes "held D m r x"
  shows "held D (snd (outboxProgress m r (ds_owner D) (delivered_to sub))) r (x\<lparr>or_delivered := dedup (or_delivered x @ [sub])\<rparr>)"
proof -
  have "progress_row (ds_owner D) (delivered_to sub) x = Some (x\<lparr>or_delivered := dedup (or_delivered x @ [sub])\<rparr>)"
    using assms by (simp add: held_def progress_row_def delivered_to_def)
  from outbox_op_row [OF _ this keeps_entry_progress] assms show ?thesis
    by (auto simp: held_def outboxProgress_def)
qed

lemma progress_done:
  assumes "held D m r x"
  shows "\<exists>y. row_of (snd (outboxProgress m r (ds_owner D) (status_only True False))) r = Some y \<and>
     or_status y = ObDelivered \<and> or_entry y = or_entry x \<and> set (or_delivered y) = set (or_delivered x)"
proof -
  have "progress_row (ds_owner D) (status_only True False) x = Some (x\<lparr>or_delivered := dedup (or_delivered x),
      or_status := ObDelivered, or_leaseOwner := None, or_leaseUntil := None\<rparr>)"
    using assms by (simp add: held_def progress_row_def status_only_def)
  from outbox_op_row [OF _ this keeps_entry_progress] assms show ?thesis
    by (auto simp: held_def outboxProgress_def)
qed

text \<open>The subscriptions one row is sent to, in order.\<close>

fun pending_subs :: "string list \<Rightarrow> string list \<Rightarrow> string list" where
  "pending_subs [] finished = []"
| "pending_subs (s # ss) finished = (if s \<in> set finished then pending_subs ss finished else s # pending_subs ss (finished @ [s]))"

lemma deliver_subs_all:
  assumes "undisturbed E" "\<And>n s ep. ds_send D n s ep" "held D (wo_store w) r x" "set finished \<subseteq> set (or_delivered x)"
  shows "\<exists>rep' w' y. deliver_subs E D r ep subs finished False rep w = (Inr (False, rep'), w') \<and> held D (wo_store w') r y \<and>
     or_entry y = or_entry x \<and> set (or_delivered x) \<union> set subs \<subseteq> set (or_delivered y) \<and>
     (\<forall>r'. r' \<noteq> r \<longrightarrow> row_of (wo_store w') r' = row_of (wo_store w) r') \<and>
     sw_claimed rep' = sw_claimed rep \<and> sw_failed rep' = sw_failed rep \<and>
     sw_sent rep' = sw_sent rep @ map (\<lambda>s. (s, ep, True)) (pending_subs subs finished)"
  using assms(3,4)
proof (induction subs arbitrary: finished rep w x)
  case Nil
  then show ?case by (auto simp: eff_ret_def)
next
  case (Cons s subs)
  show ?case
  proof (cases "s \<in> set finished")
    case True
    from Cons.IH [OF Cons.prems, of rep] True Cons.prems show ?thesis by (simp, blast)
  next
    case False
    let ?x = "x\<lparr>or_delivered := dedup (or_delivered x @ [s])\<rparr>"
    define m where "m = snd (outboxProgress (wo_store w) r (ds_owner D) (delivered_to s))"
    define w1 where "w1 = w\<lparr>wo_tick := wo_tick w + 1, wo_store := m, wo_tick := wo_tick w + 2\<rparr>"
    define rep1 where "rep1 = rep\<lparr>sw_delivered := sw_delivered rep + 1, sw_sent := sw_sent rep @ [(s, ep, True)]\<rparr>"
    have h: "held D (wo_store w1) r ?x" using progress_delivered [OF Cons.prems(1)] by (simp add: w1_def m_def)
    have fin: "set (finished @ [s]) \<subseteq> set (or_delivered ?x)" using Cons.prems(2) by auto
    have run: "deliver_subs E D r ep (s # subs) finished False rep w = deliver_subs E D r ep subs (finished @ [s]) False rep1 w1"
      using False assms(2) by (simp add: run_env run_bool [OF assms(1)] rep1_def w1_def m_def)
    have other: "row_of (wo_store w1) r' = row_of (wo_store w) r'" if "r' \<noteq> r" for r'
      using outbox_op_other [OF keeps_entry_progress that] by (simp add: w1_def m_def outboxProgress_def)
    from Cons.IH [OF h fin, of rep1] obtain rep' w' y where
      "deliver_subs E D r ep subs (finished @ [s]) False rep1 w1 = (Inr (False, rep'), w')" "held D (wo_store w') r y"
      "or_entry y = or_entry ?x" "set (or_delivered ?x) \<union> set subs \<subseteq> set (or_delivered y)"
      "\<forall>r'. r' \<noteq> r \<longrightarrow> row_of (wo_store w') r' = row_of (wo_store w1) r'" "sw_claimed rep' = sw_claimed rep1"
      "sw_failed rep' = sw_failed rep1"
      "sw_sent rep' = sw_sent rep1 @ map (\<lambda>s. (s, ep, True)) (pending_subs subs (finished @ [s]))" by blast
    then show ?thesis unfolding run using False other by (auto simp: rep1_def)
  qed
qed

text \<open>One row.\<close>

definition delivered_row :: "dispatcher \<Rightarrow> memory \<Rightarrow> outbox_row \<Rightarrow> bool" where
  "delivered_row D m row \<longleftrightarrow> (\<exists>x. row_of m (ref_of row) = Some x \<and> or_status x = ObDelivered \<and> or_entry x = or_entry row \<and>
     set (or_delivered row) \<union> set (subscriptionsFor D (ob_channel (or_entry row))) \<subseteq> set (or_delivered x))"

definition due_row :: "int \<Rightarrow> memory \<Rightarrow> outbox_row \<Rightarrow> bool" where
  "due_row now m row \<longleftrightarrow> row_of m (ref_of row) = Some row \<and> or_status row = ObPending \<and>
     (case or_leaseUntil row of None \<Rightarrow> True | Some u \<Rightarrow> u < now)"

lemma sweep_row_delivers:
  assumes "undisturbed E" "\<And>n s ep. ds_send D n s ep" "due_row now (wo_store w) row"
  shows "\<exists>rep' w'. sweep_row E D now row rep w = (Inr rep', w') \<and> delivered_row D (wo_store w') row \<and>
     (\<forall>r'. r' \<noteq> ref_of row \<longrightarrow> row_of (wo_store w') r' = row_of (wo_store w) r') \<and>
     sw_claimed rep' = sw_claimed rep + 1 \<and> sw_failed rep' = sw_failed rep \<and>
     sw_sent rep' = sw_sent rep @ map (\<lambda>s. (s, envelopeOf row, True))
       (pending_subs (subscriptionsFor D (ob_channel (or_entry row))) (or_delivered row))"
proof -
  let ?k = "ref_of row"
  define m1 where "m1 = snd (outboxClaim (wo_store w) ?k (ds_owner D) now (ds_leaseMs D))"
  define w1 where "w1 = w\<lparr>wo_store := m1, wo_tick := wo_tick w + 1\<rparr>"
  from assms(3) have due: "row_of (wo_store w) ?k = Some row" "or_status row = ObPending"
    "case or_leaseUntil row of None \<Rightarrow> True | Some u \<Rightarrow> u < now" by (auto simp: due_row_def)
  obtain y where y: "fst (outboxClaim (wo_store w) ?k (ds_owner D) now (ds_leaseMs D))" "held D (wo_store w1) ?k y"
    "or_entry y = or_entry row" "or_delivered y = or_delivered row"
    using claim_holds [OF due, of D "ds_leaseMs D"] by (auto simp: w1_def m1_def)
  have o1: "row_of (wo_store w1) r' = row_of (wo_store w) r'" if "r' \<noteq> ?k" for r'
    using outbox_op_other [OF keeps_entry_claim that] by (simp add: w1_def m1_def outboxClaim_def)
  let ?subs = "subscriptionsFor D (ob_channel (or_entry row))"
  obtain rep2 w2 z where d: "deliver_subs E D ?k (envelopeOf row) ?subs (or_delivered row) False (rep\<lparr>sw_claimed := sw_claimed rep + 1\<rparr>) w1
      = (Inr (False, rep2), w2)" "held D (wo_store w2) ?k z" "or_entry z = or_entry y"
    "set (or_delivered y) \<union> set ?subs \<subseteq> set (or_delivered z)"
    "\<forall>r'. r' \<noteq> ?k \<longrightarrow> row_of (wo_store w2) r' = row_of (wo_store w1) r'" "sw_claimed rep2 = sw_claimed rep + 1"
    "sw_failed rep2 = sw_failed rep"
    "sw_sent rep2 = sw_sent rep @ map (\<lambda>s. (s, envelopeOf row, True)) (pending_subs ?subs (or_delivered row))"
    using deliver_subs_all [OF assms(1,2) y(2), of "or_delivered row" "envelopeOf row" ?subs "rep\<lparr>sw_claimed := sw_claimed rep + 1\<rparr>"] y(4)
    by auto
  define m3 where "m3 = snd (outboxProgress (wo_store w2) ?k (ds_owner D) (status_only True False))"
  have run: "sweep_row E D now row rep w = (Inr rep2, w2\<lparr>wo_store := m3, wo_tick := wo_tick w2 + 1\<rparr>)"
    using y(1) d(1) by (simp add: sweep_row_def Let_def run_bool [OF assms(1)] m1_def [symmetric]
        eff_bind_def [of "deliver_subs E D k e s f b p" for k e s f b p] d(1) [unfolded w1_def, simplified] eff_ret_def m3_def)
  have "delivered_row D m3 row"
    using progress_done [OF d(2)] d(3,4) y(3,4) by (auto simp: delivered_row_def m3_def)
  moreover have "row_of m3 r' = row_of (wo_store w) r'" if "r' \<noteq> ?k" for r'
    using outbox_op_other [OF keeps_entry_progress that] d(5) o1 [OF that] that by (simp add: m3_def outboxProgress_def)
  ultimately show ?thesis using run d(6-8) by auto
qed

lemma sweep_rows_deliver:
  assumes "undisturbed E" "\<And>n s ep. ds_send D n s ep"
  shows "distinct (map ref_of rows) \<Longrightarrow> (\<And>row. row \<in> set rows \<Longrightarrow> due_row now (wo_store w) row) \<Longrightarrow>
    \<exists>rep' w'. sweep_rows E D now rows rep w = (Inr rep', w') \<and> (\<forall>row\<in>set rows. delivered_row D (wo_store w') row) \<and>
     (\<forall>r'. r' \<notin> ref_of ` set rows \<longrightarrow> row_of (wo_store w') r' = row_of (wo_store w) r') \<and>
     sw_claimed rep' = sw_claimed rep + length rows \<and> sw_failed rep' = sw_failed rep \<and>
     sw_sent rep' = sw_sent rep @ concat (map (\<lambda>row. map (\<lambda>s. (s, envelopeOf row, True))
       (pending_subs (subscriptionsFor D (ob_channel (or_entry row))) (or_delivered row))) rows)"
proof (induction rows arbitrary: rep w)
  case Nil
  then show ?case by (simp add: eff_ret_def)
next
  case (Cons row rows)
  from sweep_row_delivers [OF assms(1,2), of now w row rep] Cons.prems(2)
  obtain rep1 w1 where 1: "sweep_row E D now row rep w = (Inr rep1, w1)" "delivered_row D (wo_store w1) row"
    "\<forall>r'. r' \<noteq> ref_of row \<longrightarrow> row_of (wo_store w1) r' = row_of (wo_store w) r'"
    "sw_claimed rep1 = sw_claimed rep + 1" "sw_failed rep1 = sw_failed rep"
    "sw_sent rep1 = sw_sent rep @ map (\<lambda>s. (s, envelopeOf row, True))
       (pending_subs (subscriptionsFor D (ob_channel (or_entry row))) (or_delivered row))" by auto
  have due: "due_row now (wo_store w1) x" if "x \<in> set rows" for x
  proof -
    have "ref_of x \<noteq> ref_of row" using Cons.prems(1) imageI [OF that, of ref_of] by auto
    with Cons.prems(2) [of x] that 1(3) show ?thesis by (simp add: due_row_def)
  qed
  from Cons.IH [OF _ due, of rep1] Cons.prems(1) obtain rep2 w2 where 2: "sweep_rows E D now rows rep1 w1 = (Inr rep2, w2)"
    "\<forall>row\<in>set rows. delivered_row D (wo_store w2) row"
    "\<forall>r'. r' \<notin> ref_of ` set rows \<longrightarrow> row_of (wo_store w2) r' = row_of (wo_store w1) r'"
    "sw_claimed rep2 = sw_claimed rep1 + length rows" "sw_failed rep2 = sw_failed rep1"
    "sw_sent rep2 = sw_sent rep1 @ concat (map (\<lambda>row. map (\<lambda>s. (s, envelopeOf row, True))
       (pending_subs (subscriptionsFor D (ob_channel (or_entry row))) (or_delivered row))) rows)" by auto
  have "row_of (wo_store w2) (ref_of row) = row_of (wo_store w1) (ref_of row)" using 2(3) Cons.prems(1) by auto
  then have "delivered_row D (wo_store w2) row" using 1(2) by (simp add: delivered_row_def)
  with 1 2 show ?case by (auto simp: eff_bind_def)
qed

lemma row_of_distinct: "distinct (map ref_of (me_outbox m)) \<Longrightarrow> row \<in> set (me_outbox m) \<Longrightarrow> row_of m (ref_of row) = Some row"
proof -
  assume d: "distinct (map ref_of (me_outbox m))" "row \<in> set (me_outbox m)"
  have r: "row_is (ref_of row) x \<longleftrightarrow> ref_of x = ref_of row" for x by (auto simp: row_is_def ref_of_def)
  have "List.find (row_is (ref_of row)) xs = Some row" if "distinct (map ref_of xs)" "row \<in> set xs" for xs
    using that by (induction xs) (auto simp: r image_iff)
  with d show ?thesis by (simp add: row_of_def)
qed

lemma sweep_delivers_rows:
  assumes "undisturbed E" "\<And>n s ep. ds_send D n s ep" "distinct (map ref_of (me_outbox (wo_store w)))"
    and rows_def: "rows = outboxSweep (wo_store w) tenant now (ds_batch D)"
  shows "\<exists>rep w'. sweep E D tenant now w = (Inr rep, w') \<and> (\<forall>row\<in>set rows. delivered_row D (wo_store w') row) \<and>
     sw_claimed rep = length rows \<and> sw_failed rep = 0 \<and>
     sw_sent rep = concat (map (\<lambda>row. map (\<lambda>s. (s, envelopeOf row, True))
       (pending_subs (subscriptionsFor D (ob_channel (or_entry row))) (or_delivered row))) rows)"
proof -
  define w1 where "w1 = w\<lparr>wo_store := wo_store w, wo_tick := wo_tick w + 1\<rparr>"
  have s: "wo_store w1 = wo_store w" by (simp add: w1_def)
  have run: "sweep E D tenant now w = sweep_rows E D now rows no_report w1"
    by (simp add: sweep_def run_read assms(1) rows_def w1_def)
  have "distinct (map ref_of rows)"
    using assms(3) by (auto simp: rows_def outboxSweep_def distinct_map_filter intro: distinct_take simp: take_map [symmetric])
  moreover have "due_row now (wo_store w1) row" if "row \<in> set rows" for row
    using that row_of_distinct [OF assms(3), of row] by (auto simp: rows_def outboxSweep_def due_row_def s dest!: in_set_takeD)
  ultimately show ?thesis
    unfolding run using sweep_rows_deliver [OF assms(1,2), of rows now w1 no_report] by (auto simp: no_report_def)
qed

end
