(* ===== verification/Delivery_Properties.thy ===== *)
theory Delivery_Properties
  imports Dispatch_Correct Engine_Sample
begin

text \<open>The properties of outbox dispatch and subscription delivery.\<close>

text \<open>A consumer at the point where it runs its handler: claim granted, intent recorded.\<close>

definition handler_started :: "env \<Rightarrow> string \<Rightarrow> envelope \<Rightarrow> world \<Rightarrow> world \<Rightarrow> bool" where
  "handler_started E sub ep w w' \<longleftrightarrow>
     (\<exists>d w0 d'. delivery_claim E (ep_tenant ep) sub (ep_messageId ep) (envelope_hash E ep) w = (Inr (Some d), w0) \<and>
        beforeExternal E d w0 = (Inr (Inr (), d'), w'))"

text \<open>
  C5: an external effect starts at most once. Consumers of the same message and subscription, whose other
  effects stay away from its delivery document, only take steps of the protocol; and once one of them has
  reached its handler, then after any number of protocol steps, crashes and lost answers included, every
  consumer of that message ends the same way whatever its handler is (it is not run), and never as processed.
\<close>

theorem external_effect_at_most_once:
  assumes "others_follow E (ep_tenant ep) (delivery_key sub ep)" "handler_started E sub ep w w1"
    and "protocol (ep_tenant ep) (delivery_key sub ep) w1 w2"
    and "ep_tenant ep2 = ep_tenant ep" "ep_messageId ep2 = ep_messageId ep"
    and "\<And>v. protocol (ep_tenant ep) (delivery_key sub ep) v (snd (handler ep2 v))"
  shows "protocol (ep_tenant ep) (delivery_key sub ep) v (snd (consumer E sub handler ep2 v)) \<and>
    consumer E sub handler ep2 w2 = consumer E sub handler' ep2 w2 \<and> fst (consumer E sub handler ep2 w2) \<noteq> Inr True"
proof -
  have same: "delivery_key sub ep2 = delivery_key sub ep" using assms(5) by (simp add: delivery_key_def)
  obtain d w0 d' where d: "delivery_claim E (ep_tenant ep) sub (ep_messageId ep) (envelope_hash E ep) w = (Inr (Some d), w0)"
    "beforeExternal E d w0 = (Inr (Inr (), d'), w1)" using assms(2) by (auto simp: handler_started_def)
  from delivery_claim_run [OF d(1) assms(1) [unfolded delivery_key_def]] have
    c: "dl_tenant d = ep_tenant ep" "dl_id d = delivery_key sub ep" "dl_intent d = None" "in_hand d (wo_store w0)"
    by (auto simp: delivery_key_def)
  from beforeExternal_run [OF d(2) _ c(4,3)] assms(1) c(1,2)
  have "delivery_done (ep_tenant ep) (delivery_key sub ep) (wo_store w1)" by auto
  then have "delivery_done (ep_tenant ep2) (delivery_key sub ep2) (wo_store w2)"
    using assms(3,4) same by (simp add: protocol_def delivery_rely_def)
  with done_consumer [of E ep2 sub w2] consumer_follows [of E ep2 sub handler v] assms(1,4,6) same show ?thesis by simp
qed

definition ping :: envelope where
  "ping = \<lparr>ep_channel = ''c'', ep_message = ''m'', ep_tenant = ''t1'', ep_opId = ''o'', ep_ordinal = 0, ep_messageId = ''o:0'',
     ep_payload = JNull, ep_createdAt = ''''\<rparr>"

definition ping_claim :: "delivery option res \<times> world" where
  "ping_claim = delivery_claim desk_env ''t1'' ''s'' ''o:0'' (envelope_hash desk_env ping) desk_world"

definition ping_intent :: "(unit res \<times> delivery) res \<times> world" where
  "ping_intent = (case ping_claim of (Inr (Some d), w) \<Rightarrow> beforeExternal desk_env d w | (r, w) \<Rightarrow> (Inl (err ''Internal''), w))"

theorem external_effect_at_most_once_witness:
  "consumer desk_env ''s'' (\<lambda>e. eff_ret ()) ping (snd ping_intent) = consumer desk_env ''s'' (\<lambda>e. eff_fail (err ''Internal'')) ping (snd ping_intent) \<and>
   fst (consumer desk_env ''s'' (\<lambda>e. eff_ret ()) ping (snd ping_intent)) \<noteq> Inr True"
proof -
  have f: "others_follow desk_env t i" for t i by (simp add: others_follow_def desk_env_def)
  have "case fst ping_intent of Inr (x, d) \<Rightarrow> x = Inr () | Inl e \<Rightarrow> False" by code_simp
  then have "handler_started desk_env ''s'' ping desk_world (snd ping_intent)"
    unfolding handler_started_def
    by (auto simp: ping_intent_def ping_claim_def ping_def split: prod.splits sum.splits option.splits) (metis prod.collapse)
  from external_effect_at_most_once [OF f this, of "snd ping_intent" ping "\<lambda>e. eff_ret ()"] show ?thesis
    by (simp add: eff_ret_def)
qed

text \<open>
  C23: sweeps deliver. A sweep that no other caller disturbs, over a transport that accepts everything, closes
  every pending row of the tenant whose lease is free (up to its batch size): the row is delivered, each of its
  channel's subscriptions is recorded, and exactly those not recorded before were sent its envelope, once each
  and in order.
\<close>

theorem sweep_delivers:
  assumes "undisturbed E" "\<And>n s ep. ds_send D n s ep" "distinct (map ref_of (me_outbox (wo_store w)))"
  shows "\<exists>rep w'. sweep E D tenant now w = (Inr rep, w') \<and>
     (\<forall>row\<in>set (outboxSweep (wo_store w) tenant now (ds_batch D)). delivered_row D (wo_store w') row) \<and>
     sw_claimed rep = length (outboxSweep (wo_store w) tenant now (ds_batch D)) \<and> sw_failed rep = 0 \<and>
     sw_sent rep = concat (map (\<lambda>row. map (\<lambda>s. (s, envelopeOf row, True))
       (pending_subs (subscriptionsFor D (ob_channel (or_entry row))) (or_delivered row)))
       (outboxSweep (wo_store w) tenant now (ds_batch D)))"
  using sweep_delivers_rows [OF assms refl] by blast

definition post_room :: dispatcher where
  "post_room = \<lparr>ds_subscriptions = [(''c'', [''s1'', ''s2''])], ds_leaseMs = 1000, ds_maxAttempts = 3, ds_owner = ''d'', ds_batch = 50,
     ds_send = (\<lambda>n s ep. True)\<rparr>"

definition letter_row :: outbox_row where
  "letter_row = \<lparr>or_entry = \<lparr>ob_tenant = ''t1'', ob_opId = ''o'', ob_ordinal = 0, ob_channel = ''c'', ob_message = ''m'', ob_payload = JNull,
       ob_createdAt = ''''\<rparr>, or_status = ObPending, or_attempts = 0, or_leaseOwner = None, or_leaseUntil = None, or_delivered = [''s1'']\<rparr>"

definition letter_world :: world where
  "letter_world = desk_world\<lparr>wo_store := memory_new\<lparr>me_outbox := [letter_row]\<rparr>\<rparr>"

theorem sweep_delivers_witness:
  "\<exists>rep w'. sweep desk_env post_room ''t1'' 5 letter_world = (Inr rep, w') \<and> delivered_row post_room (wo_store w') letter_row \<and>
     sw_sent rep = [(''s2'', envelopeOf letter_row, True)]"
proof -
  have "undisturbed desk_env" "ds_send post_room n s ep" "distinct (map ref_of (me_outbox (wo_store letter_world)))" for n s ep
    by (simp_all add: undisturbed_def desk_env_def post_room_def letter_world_def)
  note d = sweep_delivers [OF this, of "''t1''" 5]
  have r: "outboxSweep (wo_store letter_world) ''t1'' 5 (ds_batch post_room) = [letter_row]" by code_simp
  have s: "pending_subs (subscriptionsFor post_room (ob_channel (or_entry letter_row))) (or_delivered letter_row) = [''s2'']" by code_simp
  from d show ?thesis unfolding r by (auto simp: s)
qed

end
