(* ===== verification/Actor.thy ===== *)
theory Actor
  imports Work_Queue
begin

text \<open>
  Actors (\<open>packages/runtime/src/actors.ts\<close>): keyed state in one document, changed by pure reducers inside
  the loop \<open>cas\<close>. A message is applied once, whatever is retried: its receipt is written together with
  the state, the effects and the alarms it caused. The Durable Object store behind the same two document
  operations is left out; the reducers are parameters.
\<close>

section \<open>State\<close>

record actor_effect =
  ae_id :: string
  ae_kind :: string
  ae_payload :: jsval

record actor_alarm =
  aa_name :: string
  aa_at :: int
  aa_command :: string
  aa_payload :: jsval
  aa_occurrence :: string

record receipt_entry =
  re_id :: string
  re_command :: string
  re_payload :: string
  re_revision :: nat

record actor_state =
  ac_digest :: string
  ac_state :: jsval
  ac_generation :: int
  ac_revision :: nat
  ac_receipts :: "receipt_entry list"
  ac_effects :: "actor_effect list"
  ac_alarms :: "actor_alarm list"

text \<open>What a reducer returns: the new state, effects (kind and payload), alarms (name, time, command, payload).\<close>

record actor_transition =
  at_state :: jsval
  at_effects :: "(string \<times> jsval) list"
  at_alarms :: "(string \<times> int \<times> string \<times> jsval) list option"

type_synonym actor_reducer = "jsval \<Rightarrow> jsval \<Rightarrow> actor_transition res"

text \<open>
  The definition of an actor, its reducers, and the JSON of \<open>{definition, ir}\<close> its digest is taken of.
\<close>

record actor_host =
  ah_id :: string
  ah_state :: type_spec
  ah_messages :: "(string \<times> type_spec) list"
  ah_reducers :: "(string \<times> actor_reducer) list"
  ah_json :: jsval

definition actor_digest :: "env \<Rightarrow> actor_host \<Rightarrow> string" where
  "actor_digest E h = executionDigest E (ah_json h)"

subsection \<open>Its document\<close>

definition effect_obj :: "actor_effect \<Rightarrow> jsval" where
  "effect_obj e = JObj [(''kind'', JStr (ae_kind e)), (''payload'', ae_payload e), (''id'', JStr (ae_id e))]"

definition alarm_obj :: "actor_alarm \<Rightarrow> jsval" where
  "alarm_obj a = JObj [(''name'', JStr (aa_name a)), (''at'', JInt (aa_at a)), (''command'', JStr (aa_command a)),
     (''payload'', aa_payload a), (''occurrence'', JStr (aa_occurrence a))]"

definition receipt_obj :: "receipt_entry \<Rightarrow> jsval" where
  "receipt_obj r = JObj [(''id'', JStr (re_id r)), (''command'', JStr (re_command r)), (''payload'', JStr (re_payload r)),
     (''revision'', JInt (int (re_revision r)))]"

definition actor_obj :: "actor_state \<Rightarrow> obj" where
  "actor_obj a = [(''definitionDigest'', JStr (ac_digest a)), (''state'', ac_state a), (''generation'', JInt (ac_generation a)),
     (''revision'', JInt (int (ac_revision a))), (''receipts'', JArr (map receipt_obj (ac_receipts a))),
     (''effects'', JArr (map effect_obj (ac_effects a))), (''alarms'', JArr (map alarm_obj (ac_alarms a)))]"

definition effect_of :: "jsval \<Rightarrow> actor_effect option" where
  "effect_of v = Option.bind (as_obj v) (\<lambda>d. Option.bind (as_text (oget d ''id'')) (\<lambda>i.
     Option.bind (as_text (oget d ''kind'')) (\<lambda>k.
       Some \<lparr>ae_id = i, ae_kind = k, ae_payload = oget d ''payload''\<rparr>)))"

definition alarm_of :: "jsval \<Rightarrow> actor_alarm option" where
  "alarm_of v = Option.bind (as_obj v) (\<lambda>d. Option.bind (as_text (oget d ''name'')) (\<lambda>n.
     Option.bind (as_int (oget d ''at'')) (\<lambda>t. Option.bind (as_text (oget d ''command'')) (\<lambda>c.
     Option.bind (as_text (oget d ''occurrence'')) (\<lambda>oc.
       Some \<lparr>aa_name = n, aa_at = t, aa_command = c, aa_payload = oget d ''payload'', aa_occurrence = oc\<rparr>)))))"

definition receipt_of :: "jsval \<Rightarrow> receipt_entry option" where
  "receipt_of v = Option.bind (as_obj v) (\<lambda>d. Option.bind (as_text (oget d ''id'')) (\<lambda>i.
     Option.bind (as_text (oget d ''command'')) (\<lambda>c. Option.bind (as_text (oget d ''payload'')) (\<lambda>p.
     Option.bind (as_nat (oget d ''revision'')) (\<lambda>r.
       Some \<lparr>re_id = i, re_command = c, re_payload = p, re_revision = r\<rparr>)))))"

definition actor_of :: "obj \<Rightarrow> actor_state option" where
  "actor_of d = Option.bind (as_text (oget d ''definitionDigest'')) (\<lambda>g. Option.bind (as_int (oget d ''generation'')) (\<lambda>n.
     Option.bind (as_nat (oget d ''revision'')) (\<lambda>v. Option.bind (as_list receipt_of (oget d ''receipts'')) (\<lambda>rs.
     Option.bind (as_list effect_of (oget d ''effects'')) (\<lambda>es. Option.bind (as_list alarm_of (oget d ''alarms'')) (\<lambda>als.
       Some \<lparr>ac_digest = g, ac_state = oget d ''state'', ac_generation = n, ac_revision = v, ac_receipts = rs,
         ac_effects = es, ac_alarms = als\<rparr>))))))"

section \<open>Changes of an actor\<close>

text \<open>\<open>reduce\<close>: from the document, if there is one, to the next document and a result. \<open>now j\<close> reads the clock.\<close>

type_synonym 'a reduce = "(nat \<Rightarrow> int) \<Rightarrow> actor_state option \<Rightarrow> (actor_state \<times> 'a) res"

definition initialize_reduce :: "env \<Rightarrow> actor_host \<Rightarrow> jsval \<Rightarrow> actor_state reduce" where
  "initialize_reduce E h state now doc =
     (case doc of
        Some d \<Rightarrow> Inr (d, d)
      | None \<Rightarrow>
          bind_res (decodeValue (en_platform E) (en_model E) (ah_state h) state) (\<lambda>s.
            let initial = \<lparr>ac_digest = actor_digest E h, ac_state = s, ac_generation = 1, ac_revision = 0,
                  ac_receipts = [], ac_effects = [], ac_alarms = []\<rparr>
            in Inr (initial, initial)))"

text \<open>The guard every other operation starts with.\<close>

definition current_actor :: "int \<Rightarrow> actor_state option \<Rightarrow> actor_state res" where
  "current_actor generation doc =
     (case doc of
        None \<Rightarrow> Inl (err ''NotFound'')
      | Some d \<Rightarrow> if ac_generation d \<noteq> generation then Inl (err ''VersionConflict'') else Inr d)"

definition takeover_reduce :: "int \<Rightarrow> int reduce" where
  "takeover_reduce expected now doc =
     bind_res (current_actor expected doc) (\<lambda>d.
       let d' = d\<lparr>ac_generation := ac_generation d + 1\<rparr> in Inr (d', ac_generation d'))"

text \<open>The alarm a fired message stands for is due, unchanged, and consumed.\<close>

definition take_alarm :: "int \<Rightarrow> string option \<Rightarrow> string \<Rightarrow> jsval \<Rightarrow> actor_alarm list \<Rightarrow> actor_alarm list res" where
  "take_alarm at occurrence command payload alarms =
     (case occurrence of
        None \<Rightarrow> Inr alarms
      | Some oc \<Rightarrow>
          if oc = [] then Inr alarms
          else (case List.find (\<lambda>a. aa_occurrence a = oc) alarms of
              None \<Rightarrow> Inl (err ''VersionConflict'')
            | Some a \<Rightarrow>
                if aa_at a > at \<or> aa_command a \<noteq> command \<or> stable_json (aa_payload a) \<noteq> stable_json payload
                then Inl (err ''VersionConflict'')
                else Inr (filter (\<lambda>a. aa_occurrence a \<noteq> oc) alarms)))"

definition add_effects :: "string \<Rightarrow> (string \<times> jsval) list \<Rightarrow> actor_effect list \<Rightarrow> actor_effect list res" where
  "add_effects messageId new effects =
     (if length new > 32 \<or> length effects + length new > 128 then Inl (err ''BudgetExceeded'')
      else Inr (effects @ map (\<lambda>(i, k, p). \<lparr>ae_id = json_text (JArr [JStr messageId, JInt (int i)]), ae_kind = k, ae_payload = p\<rparr>)
             (enumerate 0 new)))"

text \<open>The alarms a transition sets replace all; each reads the clock once.\<close>

fun set_alarms ::
    "env \<Rightarrow> actor_host \<Rightarrow> (nat \<Rightarrow> int) \<Rightarrow> nat \<Rightarrow> nat \<Rightarrow> (string \<times> int \<times> string \<times> jsval) list \<Rightarrow> actor_alarm list res" where
  "set_alarms E h now j revision [] = Inr []"
| "set_alarms E h now j revision ((n, t, c, p) # als) =
     (case map_of (ah_messages h) c of
        None \<Rightarrow> Inl (err ''ValidationFailed'')
      | Some ty \<Rightarrow>
          if n = [] \<or> \<not> safe_int t \<or> t < now j then Inl (err ''ValidationFailed'')
          else bind_res (decodeValue (en_platform E) (en_model E) ty p) (\<lambda>payload.
               bind_res (set_alarms E h now (Suc j) revision als) (\<lambda>rest.
                 Inr (\<lparr>aa_name = n, aa_at = t, aa_command = c, aa_payload = payload,
                   aa_occurrence = json_text (JArr [JInt (int revision), JStr n])\<rparr> # rest))))"

definition replace_alarms ::
    "env \<Rightarrow> actor_host \<Rightarrow> (nat \<Rightarrow> int) \<Rightarrow> nat \<Rightarrow> (string \<times> int \<times> string \<times> jsval) list option \<Rightarrow> actor_alarm list \<Rightarrow> actor_alarm list res" where
  "replace_alarms E h now revision new alarms =
     (case new of
        None \<Rightarrow> Inr alarms
      | Some als \<Rightarrow>
          if length als > 32 \<or> \<not> distinct (map fst als) then Inl (err ''BudgetExceeded'')
          else set_alarms E h now 1 revision als)"

record command_result =
  cr_revision :: nat
  cr_duplicate :: bool

text \<open>Applying a message for the first time.\<close>

definition apply_message ::
    "env \<Rightarrow> actor_host \<Rightarrow> actor_reducer \<Rightarrow> string \<Rightarrow> string \<Rightarrow> jsval \<Rightarrow> jsval \<Rightarrow> string option \<Rightarrow> (nat \<Rightarrow> int) \<Rightarrow>
      actor_state \<Rightarrow> (actor_state \<times> command_result) res" where
  "apply_message E h reducer messageId command payload message occurrence now d =
     bind_res (guard_res (length (ac_receipts d) < 128) (err ''BudgetExceeded'')) (\<lambda>_.
     bind_res (take_alarm (now 0) occurrence command payload (ac_alarms d)) (\<lambda>kept.
     bind_res (reducer (ac_state d) message) (\<lambda>tr.
     bind_res (decodeValue (en_platform E) (en_model E) (ah_state h) (at_state tr)) (\<lambda>s.
     bind_res (add_effects messageId (at_effects tr) (ac_effects d)) (\<lambda>effects.
     bind_res (replace_alarms E h now (ac_revision d + 1) (at_alarms tr) kept) (\<lambda>alarms.
       Inr (d\<lparr>ac_state := s, ac_revision := ac_revision d + 1, ac_effects := effects, ac_alarms := alarms,
              ac_receipts := ac_receipts d @ [\<lparr>re_id = messageId, re_command = command, re_payload = stable_json message,
                re_revision = ac_revision d + 1\<rparr>]\<rparr>,
            \<lparr>cr_revision = ac_revision d + 1, cr_duplicate = False\<rparr>)))))))"

definition command_reduce ::
    "env \<Rightarrow> actor_host \<Rightarrow> string \<Rightarrow> string \<Rightarrow> jsval \<Rightarrow> int \<Rightarrow> string option \<Rightarrow> command_result reduce" where
  "command_reduce E h messageId command payload generation occurrence now doc =
     bind_res (current_actor generation doc) (\<lambda>d.
     bind_res (guard_res (messageId \<noteq> [] \<and> length messageId \<le> 256) (err ''ValidationFailed'')) (\<lambda>_.
       case (map_of (ah_messages h) command, map_of (ah_reducers h) command) of
         (Some ty, Some reducer) \<Rightarrow>
           bind_res (decodeValue (en_platform E) (en_model E) ty payload) (\<lambda>message.
             case List.find (\<lambda>r. re_id r = messageId) (ac_receipts d) of
               Some r \<Rightarrow>
                 if re_command r \<noteq> command \<or> re_payload r \<noteq> stable_json message then Inl (err ''IdempotencyMismatch'')
                 else Inr (d, \<lparr>cr_revision = re_revision r, cr_duplicate = True\<rparr>)
             | None \<Rightarrow> apply_message E h reducer messageId command payload message occurrence now d)
       | _ \<Rightarrow> Inl (err ''MethodNotAllowed'')))"

definition acknowledge_reduce :: "string \<Rightarrow> int \<Rightarrow> unit reduce" where
  "acknowledge_reduce i generation now doc =
     bind_res (current_actor generation doc) (\<lambda>d.
       Inr (d\<lparr>ac_effects := filter (\<lambda>e. ae_id e \<noteq> i) (ac_effects d)\<rparr>, ()))"

section \<open>The service\<close>

definition ACTOR_KIND :: string where
  "ACTOR_KIND = ''actor''"

definition actor_key :: "actor_host \<Rightarrow> string \<Rightarrow> string res" where
  "actor_key h key =
     (if key = [] \<or> length key > 256 then Inl (err ''ValidationFailed'') else Inr (json_text (JArr [JStr (ah_id h), JStr key])))"

definition open_actor :: "env \<Rightarrow> actor_host \<Rightarrow> obj option \<Rightarrow> actor_state option res" where
  "open_actor E h prev =
     (case prev of
        None \<Rightarrow> Inr None
      | Some d \<Rightarrow>
          if oget d ''definitionDigest'' \<noteq> JStr (actor_digest E h) then Inl (err ''WorkflowVersionMismatch'')
          else (case actor_of d of None \<Rightarrow> Inl (err ''ValidationFailed'') | Some a \<Rightarrow> Inr (Some a)))"

definition seal_actor :: "obj option \<Rightarrow> actor_state \<Rightarrow> obj" where
  "seal_actor prev a = actor_obj a @ (case prev of None \<Rightarrow> [] | Some d \<Rightarrow> [(''_version'', oget d ''_version'')])"

definition actor_step :: "env \<Rightarrow> actor_host \<Rightarrow> 'a reduce \<Rightarrow> (nat \<Rightarrow> int) \<Rightarrow> obj option \<Rightarrow> (obj \<times> 'a) res" where
  "actor_step E h reduce now prev =
     bind_res (open_actor E h prev) (\<lambda>a.
     bind_res (lift_forge (reduce now a)) (\<lambda>(a', x).
       let doc = seal_actor prev a'
       in if document_size doc > DOCUMENT_LIMIT then Inl (err ''BudgetExceeded'') else Inr (doc, x)))"

definition ACTOR_ATTEMPTS :: nat where
  "ACTOR_ATTEMPTS = 64"

definition actor_change :: "env \<Rightarrow> actor_host \<Rightarrow> string \<Rightarrow> string \<Rightarrow> 'a reduce \<Rightarrow> 'a eff" where
  "actor_change E h tenant key reduce =
     eff_bind (eff_of (actor_key h key)) (\<lambda>i. cas ACTOR_ATTEMPTS E tenant ACTOR_KIND i (actor_step E h reduce))"

definition actor_initialize :: "env \<Rightarrow> actor_host \<Rightarrow> string \<Rightarrow> string \<Rightarrow> jsval \<Rightarrow> actor_state eff" where
  "actor_initialize E h tenant key state = actor_change E h tenant key (initialize_reduce E h state)"

definition actor_takeover :: "env \<Rightarrow> actor_host \<Rightarrow> string \<Rightarrow> string \<Rightarrow> int \<Rightarrow> int eff" where
  "actor_takeover E h tenant key expected = actor_change E h tenant key (takeover_reduce expected)"

definition actor_command ::
    "env \<Rightarrow> actor_host \<Rightarrow> string \<Rightarrow> string \<Rightarrow> string \<Rightarrow> string \<Rightarrow> jsval \<Rightarrow> int \<Rightarrow> string option \<Rightarrow> command_result eff" where
  "actor_command E h tenant key messageId command payload generation occurrence =
     actor_change E h tenant key (command_reduce E h messageId command payload generation occurrence)"

definition actor_acknowledgeEffect :: "env \<Rightarrow> actor_host \<Rightarrow> string \<Rightarrow> string \<Rightarrow> string \<Rightarrow> int \<Rightarrow> unit eff" where
  "actor_acknowledgeEffect E h tenant key i generation = actor_change E h tenant key (acknowledge_reduce i generation)"

text \<open>A bad key is thrown while the effect is built: a defect, not a failure.\<close>

definition actor_load :: "env \<Rightarrow> actor_host \<Rightarrow> string \<Rightarrow> string \<Rightarrow> actor_state eff" where
  "actor_load E h tenant key =
     (case actor_key h key of
        Inl e \<Rightarrow> eff_fail (JsError ''defect'')
      | Inr i \<Rightarrow>
          eff_bind (storage_read E (\<lambda>m. mem_getDocument m tenant ACTOR_KIND i)) (\<lambda>doc.
            case doc of
              None \<Rightarrow> eff_fail (err ''NotFound'')
            | Some d \<Rightarrow> (case actor_of d of None \<Rightarrow> eff_fail (JsError ''TypeError'') | Some a \<Rightarrow> eff_ret a)))"

text \<open>The alarms that are due, in order; the clock is read for each.\<close>

fun due_alarms :: "env \<Rightarrow> actor_alarm list \<Rightarrow> actor_alarm list eff" where
  "due_alarms E [] = eff_ret []"
| "due_alarms E (a # as) =
     eff_bind (eff_env (en_dateNow E)) (\<lambda>now.
     eff_bind (due_alarms E as) (\<lambda>rest. eff_ret (if aa_at a \<le> now then a # rest else rest)))"

text \<open>
  One alarm. An alarm that was cancelled or replaced meanwhile counts as done; a fenced caller, or a
  conflict on an alarm that is still there, fails.
\<close>

definition fire_alarm :: "env \<Rightarrow> actor_host \<Rightarrow> string \<Rightarrow> string \<Rightarrow> int \<Rightarrow> actor_alarm \<Rightarrow> command_result option eff" where
  "fire_alarm E h tenant key generation a =
     eff_bind (eff_exit (actor_command E h tenant key (''alarm:'' @ aa_occurrence a) (aa_command a) (aa_payload a) generation
         (Some (aa_occurrence a)))) (\<lambda>r.
       case r of
         Inr x \<Rightarrow> eff_ret (Some x)
       | Inl e \<Rightarrow>
           if exn_code e \<noteq> ''VersionConflict'' then eff_fail e
           else eff_bind (actor_load E h tenant key) (\<lambda>current.
             if ac_generation current \<noteq> generation \<or> list_ex (\<lambda>b. aa_occurrence b = aa_occurrence a) (ac_alarms current)
             then eff_fail e else eff_ret None))"

fun fire_all :: "env \<Rightarrow> actor_host \<Rightarrow> string \<Rightarrow> string \<Rightarrow> int \<Rightarrow> actor_alarm list \<Rightarrow> nat \<Rightarrow> nat eff" where
  "fire_all E h tenant key generation [] fired = eff_ret fired"
| "fire_all E h tenant key generation (a # as) fired =
     eff_bind (fire_alarm E h tenant key generation a) (\<lambda>r.
       fire_all E h tenant key generation as
         (case r of Some x \<Rightarrow> if cr_duplicate x then fired else fired + 1 | None \<Rightarrow> fired))"

definition fireDue :: "env \<Rightarrow> actor_host \<Rightarrow> string \<Rightarrow> string \<Rightarrow> int \<Rightarrow> nat eff" where
  "fireDue E h tenant key generation =
     eff_bind (actor_load E h tenant key) (\<lambda>doc.
     eff_bind (due_alarms E (ac_alarms doc)) (\<lambda>batch. fire_all E h tenant key generation batch 0))"

end
