(* ===== verification/Execution_Correct.thy ===== *)
theory Execution_Correct
  imports Execution
begin

text \<open>
  What a derivation returns: exactly the requirements of the pinned manifests of the profile's providers
  and of everything the operation depends on, however indirectly, and the explicit ones.
\<close>

definition manifest_atoms :: "(string \<times> obj) list \<Rightarrow> string \<Rightarrow> string set" where
  "manifest_atoms ms digest = (case map_of ms digest of None \<Rightarrow> {} | Some m \<Rightarrow> set (manifest_requires m))"

text \<open>The requirements of the implementation or provider bound to an identity.\<close>

definition bound_atoms :: "exec_profile \<Rightarrow> (string \<times> obj) list \<Rightarrow> string \<Rightarrow> string set" where
  "bound_atoms pr ms i = (case map_of (xp_bindings pr) i of
     None \<Rightarrow> {} | Some d \<Rightarrow> if d = [] then {} else manifest_atoms ms d)"

inductive depends :: "exec_artifact \<Rightarrow> string \<Rightarrow> string \<Rightarrow> bool" for a where
  "Some j \<in> set (dependencies a i) \<Longrightarrow> depends a i j"

inductive_simps depends_iff: "depends a i j"

definition required :: "exec_input \<Rightarrow> (string \<times> obj) list \<Rightarrow> string set" where
  "required inp ms =
     (\<Union>d\<in>set (xp_providers (xi_profile inp)). manifest_atoms ms d) \<union>
     (\<Union>i\<in>{i. (depends (xi_artifact inp))\<^sup>*\<^sup>* (xi_operation inp) i}. bound_atoms (xi_profile inp) ms i) \<union>
     fst ` set (xi_explicit inp)"

definition explained :: "explanations \<Rightarrow> string set" where
  "explained ex = fst ` set ex"

lemma explained_Nil [simp]: "explained [] = {}"
  by (simp add: explained_def)

lemma explained_explain [simp]: "explained (explain a s ex) = insert a (explained ex)"
  by (simp add: explain_def explained_def)

lemma explained_fold [simp]: "explained (foldl (\<lambda>ex a. explain a (f a) ex) ex as) = set as \<union> explained ex"
  by (induction as arbitrary: ex) auto

lemma distinct_explain: "distinct (map fst ex) \<Longrightarrow> distinct (map fst (explain a s ex))"
  by (simp add: explain_def)

lemma useManifest_explained:
  "useManifest ms d s k ex = Inr ex' \<Longrightarrow> explained ex' = explained ex \<union> manifest_atoms ms d"
  by (cases "map_of ms d") (clarsimp simp: useManifest_def manifest_atoms_def Un_commute split: if_splits)+

lemma use_providers_explained:
  "use_providers ms p ds ex = Inr ex' \<Longrightarrow> explained ex' = explained ex \<union> (\<Union>d\<in>set ds. manifest_atoms ms d)"
  by (induction ms p ds ex rule: use_providers.induct) (auto simp: res_simps useManifest_explained)

lemma visit_node_explained:
  "visit_node a pr ms i ex = Inr ex' \<Longrightarrow> explained ex' = explained ex \<union> bound_atoms pr ms i"
  by (auto simp: visit_node_def bound_atoms_def Let_def res_simps useManifest_explained split: option.splits if_splits)

lemma add_explicit_explained:
  "add_explicit es ex = Inr ex' \<Longrightarrow> explained ex' = explained ex \<union> fst ` set es"
  by (induction es ex rule: add_explicit.induct) (auto simp: res_simps)

text \<open>The walk: what it has visited in the end is closed under dependencies and reachable from its stack.\<close>

definition walked ::
    "exec_artifact \<Rightarrow> string option list \<Rightarrow> string set \<Rightarrow> string set \<Rightarrow> bool" where
  "walked a todo seen seen' \<longleftrightarrow> seen \<subseteq> seen' \<and> set todo \<subseteq> Some ` seen' \<and>
     (\<forall>i\<in>seen' - seen. set (dependencies a i) \<subseteq> Some ` seen' \<and> (\<exists>j. Some j \<in> set todo \<and> (depends a)\<^sup>*\<^sup>* j i))"

lemma walked_visit:
  assumes "walked a (dependencies a i @ todo) (insert i seen) seen'"
  shows "walked a (Some i # todo) seen seen'"
proof -
  have "\<exists>j. Some j \<in> set (Some i # todo) \<and> (depends a)\<^sup>*\<^sup>* j x" if x: "x \<in> seen' - seen" for x
  proof (cases "x = i")
    case False
    with x assms have "\<exists>j. Some j \<in> set (dependencies a i @ todo) \<and> (depends a)\<^sup>*\<^sup>* j x"
      unfolding walked_def by blast
    then obtain j where j: "Some j \<in> set (dependencies a i @ todo)" "(depends a)\<^sup>*\<^sup>* j x" by blast
    show ?thesis
    proof (cases "Some j \<in> set todo")
      case False
      with j(1) have "depends a i j" by (simp add: depends_iff)
      with j(2) show ?thesis by (auto intro: converse_rtranclp_into_rtranclp)
    qed (use j(2) in auto)
  qed auto
  moreover have "set (dependencies a x) \<subseteq> Some ` seen'" if "x \<in> seen' - seen" for x
    using assms that by (cases "x = i") (auto simp: walked_def)
  ultimately show ?thesis using assms by (auto simp: walked_def)
qed

lemma visit_walks:
  "visit a pr ms todo seen ex = Inr (seen', ex') \<Longrightarrow>
     walked a todo (set seen) (set seen') \<and>
     explained ex' = explained ex \<union> (\<Union>i\<in>set seen' - set seen. bound_atoms pr ms i)"
proof (induction a pr ms todo seen ex arbitrary: seen' ex' rule: visit.induct)
  case (1 a pr ms seen ex)
  then show ?case by (auto simp: walked_def)
next
  case (2 a pr ms todo seen ex)
  then show ?case by simp
next
  case (3 a pr ms i todo seen ex)
  show ?case
  proof (cases "i \<in> set seen")
    case True
    with 3 have "walked a todo (set seen) (set seen') \<and>
      explained ex' = explained ex \<union> (\<Union>i\<in>set seen' - set seen. bound_atoms pr ms i)" by simp
    with True show ?thesis by (auto simp: walked_def)
  next
    case False
    with "3.prems" obtain e where e: "length seen < VISIT_LIMIT" "visit_node a pr ms i ex = Inr e"
      "visit a pr ms (dependencies a i @ todo) (i # seen) e = Inr (seen', ex')"
      by (auto simp: res_simps split: if_splits)
    from "3.IH"(2) [OF False _ e(2,3)] e(1) have
      ih: "walked a (dependencies a i @ todo) (insert i (set seen)) (set seen')"
        "explained ex' = explained e \<union> (\<Union>i\<in>set seen' - insert i (set seen). bound_atoms pr ms i)" by auto
    have "set seen' - set seen = insert i (set seen' - insert i (set seen))"
      using ih(1) False by (auto simp: walked_def)
    then have "explained ex' = explained ex \<union> (\<Union>i\<in>set seen' - set seen. bound_atoms pr ms i)"
      using ih(2) visit_node_explained [OF e(2)] by auto
    with walked_visit [OF ih(1)] show ?thesis by simp
  qed
qed

lemma walked_reachable:
  assumes "walked a [Some i] {} seen"
  shows "seen = {j. (depends a)\<^sup>*\<^sup>* i j}"
proof
  show "seen \<subseteq> {j. (depends a)\<^sup>*\<^sup>* i j}" using assms by (auto simp: walked_def)
  have "j \<in> seen" if "(depends a)\<^sup>*\<^sup>* i j" for j
    using that
  proof (induction rule: rtranclp_induct)
    case base
    with assms show ?case by (auto simp: walked_def)
  next
    case (step x y)
    then have "Some y \<in> Some ` seen" using assms unfolding walked_def depends_iff by blast
    then show ?case by auto
  qed
  then show "{j. (depends a)\<^sup>*\<^sup>* i j} \<subseteq> seen" by auto
qed

lemma sorted_explanations_keys: "map fst (sorted_explanations ex) = sort (map fst ex)"
  by (simp add: sorted_explanations_def comp_def)

lemma derive_explanations_keys:
  assumes "derive_explanations E inp = Inr ex"
  shows "\<exists>ms. check_pins E (xi_manifests inp) [] = Inr ms \<and> explained ex = required inp ms"
proof -
  obtain ms e seen e' e'' where d: "check_pins E (xi_manifests inp) [] = Inr ms"
    "use_providers ms (xp_id (xi_profile inp)) (sort (dedup (xp_providers (xi_profile inp)))) [] = Inr e"
    "visit (xi_artifact inp) (xi_profile inp) ms [Some (xi_operation inp)] [] e = Inr (seen, e')"
    "add_explicit (xi_explicit inp) e' = Inr e''" "ex = sorted_explanations e''"
    using assms by (auto simp: derive_explanations_def Let_def res_simps)
  have "explained ex = explained e''"
    using sorted_explanations_keys [of e''] d(5) unfolding explained_def by (metis image_set set_sort)
  moreover have "explained e'' = explained e' \<union> fst ` set (xi_explicit inp)" by (rule add_explicit_explained [OF d(4)])
  moreover note visit_walks [OF d(3)]
  moreover have "explained e = (\<Union>d\<in>set (xp_providers (xi_profile inp)). manifest_atoms ms d)"
    using use_providers_explained [OF d(2)] by simp
  ultimately show ?thesis using d(1) walked_reachable [of "xi_artifact inp" "xi_operation inp" "set seen"]
    by (auto simp: required_def)
qed

text \<open>Manifests are only used as pinned.\<close>

lemma check_pins_digests:
  "check_pins E pins ms = Inr ms' \<Longrightarrow> (\<forall>d m. map_of ms d = Some m \<longrightarrow> executionDigest E (JObj m) = d) \<Longrightarrow>
   map_of ms' d = Some m \<Longrightarrow> executionDigest E (JObj m) = d"
proof (induction E pins ms rule: check_pins.induct)
  case (2 E digest x pins ms)
  obtain y where y: "pinExecutionManifest E x = Inr (digest, y)" "check_pins E pins (mput digest y ms) = Inr ms'"
    using "2.prems"(1) by (auto simp: res_simps split: if_splits)
  have "executionDigest E (JObj y) = digest"
    using y(1) by (auto simp: pinExecutionManifest_def Let_def res_simps)
  with 2 y show ?case by auto
qed auto

lemma atom_texts: "list_all (\<lambda>v. atom_text v \<noteq> None) vs \<Longrightarrow> map JStr (map (\<lambda>v. the (atom_text v)) vs) = vs"
  by (induction vs) (auto split: if_splits elim!: atom_text.elims)

lemma atoms_strings:
  "atoms (JStrs xs) = Inr ys \<Longrightarrow> ys = sort (dedup xs) \<and> list_all is_atom ys \<and> length xs \<le> 256"
proof -
  assume a: "atoms (JStrs xs) = Inr ys"
  then have ok: "list_all (\<lambda>s. is_atom s \<and> length s \<le> 128) xs" "length xs \<le> 256"
    by (auto simp: atoms_def JStrs_def list_ex_iff list_all_iff split: if_splits)
  then have "map (\<lambda>v. the (atom_text v)) (map JStr xs) = xs" by (induction xs) auto
  with a ok show "ys = sort (dedup xs) \<and> list_all is_atom ys \<and> length xs \<le> 256"
    by (auto simp: atoms_def JStrs_def list_all_iff comp_def split: if_splits)
qed

lemma derived_atoms: "oget q ''requirements'' = JStrs req \<Longrightarrow> req_atoms q = req"
  by (simp add: req_atoms_def JStrs_def comp_def)

end
