(* ===== verification/Work_Queue_Correct.thy ===== *)
theory Work_Queue_Correct
  imports Work_Queue Members Execution_Correct Memory_Correct
begin

text \<open>
  Correctness of work queues: the invariant of a board, what every operation keeps of the tasks, the
  fence of a claim, and the loop around them under concurrent callers.
\<close>

section \<open>The invariant\<close>

definition claims_of :: "queue_task \<Rightarrow> nat list" where
  "claims_of t = map ev_generation (filter (\<lambda>e. ev_kind e = ''claimed'') (qt_history t))"

definition completions_of :: "queue_task \<Rightarrow> nat" where
  "completions_of t = length (filter (\<lambda>e. ev_kind e = ''completed'') (qt_history t))"

definition task_ok :: "queue_def \<Rightarrow> queue_task \<Rightarrow> bool" where
  "task_ok D t \<longleftrightarrow>
     qt_attempts t = qt_generation t \<and> qt_attempts t \<le> qd_maxAttempts D \<and>
     (qt_status t = Queued \<longrightarrow> qt_attempts t < qd_maxAttempts D) \<and>
     (active t \<longrightarrow> qt_leaseUntil t \<noteq> None \<and> qt_runner t \<noteq> None) \<and> (\<not> active t \<longrightarrow> qt_leaseUntil t = None) \<and>
     (qt_result t \<noteq> None \<longleftrightarrow> qt_status t = Completed) \<and>
     claims_of t = [1..<Suc (qt_generation t)] \<and> completions_of t = (if qt_status t = Completed then 1 else 0)"

definition board_ok :: "queue_def \<Rightarrow> board \<Rightarrow> bool" where
  "board_ok D b \<longleftrightarrow> distinct (map qt_id (bo_tasks b)) \<and> length (bo_tasks b) \<le> qd_maxTasks D \<and>
     distinct (map qr_id (bo_runners b)) \<and> length (bo_runners b) \<le> qd_maxRunners D \<and>
     (\<forall>t\<in>set (bo_tasks b). task_ok D t)"

text \<open>What happens to a task: its contents and its evidence stay, and a terminal task is final.\<close>

definition task_step :: "queue_task \<Rightarrow> queue_task \<Rightarrow> bool" where
  "task_step t t' \<longleftrightarrow>
     qt_id t' = qt_id t \<and> qt_input t' = qt_input t \<and> qt_requirements t' = qt_requirements t \<and>
     qt_priority t' = qt_priority t \<and> qt_createdAt t' = qt_createdAt t \<and>
     qt_generation t \<le> qt_generation t' \<and> (qt_generation t' = qt_generation t \<longrightarrow> qt_runner t' = qt_runner t) \<and>
     (\<exists>es. qt_history t' = qt_history t @ es) \<and> (terminal t \<longrightarrow> t' = t)"

definition tasks_kept :: "queue_task list \<Rightarrow> queue_task list \<Rightarrow> bool" where
  "tasks_kept ts ts' \<longleftrightarrow> (\<exists>us vs. ts' = us @ vs \<and> list_all2 task_step ts us)"

lemma task_step_refl [simp]: "task_step t t"
  by (simp add: task_step_def)

lemma task_step_trans: "task_step a b \<Longrightarrow> task_step b c \<Longrightarrow> task_step a c"
  unfolding task_step_def by (elim conjE exE) (auto simp: terminal_def)

lemma tasks_kept_all2: "list_all2 task_step ts us \<Longrightarrow> tasks_kept ts us"
  unfolding tasks_kept_def by (metis append_Nil2)

lemma tasks_kept_refl [simp]: "tasks_kept ts ts"
  by (simp add: tasks_kept_all2 list_all2_refl)

lemma tasks_kept_append [simp]: "tasks_kept ts (ts @ us)"
  by (auto simp: tasks_kept_def list_all2_refl)

lemma tasks_kept_trans:
  assumes "tasks_kept as bs" "tasks_kept bs cs"
  shows "tasks_kept as cs"
proof -
  obtain us vs where 1: "bs = us @ vs" "list_all2 task_step as us" using assms(1) by (auto simp: tasks_kept_def)
  obtain us' vs' where 2: "cs = us' @ vs'" "list_all2 task_step bs us'" using assms(2) by (auto simp: tasks_kept_def)
  obtain p q where 3: "us' = p @ q" "list_all2 task_step us p"
    using 2(2) by (auto simp: 1(1) list_all2_append1)
  have "list_all2 task_step as p" by (rule list_all2_trans [OF _ 1(2) 3(2)]) (rule task_step_trans)
  with 2(1) 3(1) show ?thesis by (auto simp: tasks_kept_def)
qed

lemma tasks_kept_member: "tasks_kept ts ts' \<Longrightarrow> t \<in> set ts \<Longrightarrow> \<exists>t'\<in>set ts'. task_step t t'"
  by (auto simp: tasks_kept_def in_set_conv_nth list_all2_conv_all_nth nth_append) (metis UnI1 nth_mem set_append)

section \<open>Every operation\<close>

lemma with_evidence_simps [simp]:
  "qt_id (with_evidence k at t) = qt_id t" "qt_input (with_evidence k at t) = qt_input t"
  "qt_requirements (with_evidence k at t) = qt_requirements t" "qt_priority (with_evidence k at t) = qt_priority t"
  "qt_createdAt (with_evidence k at t) = qt_createdAt t" "qt_status (with_evidence k at t) = qt_status t"
  "qt_generation (with_evidence k at t) = qt_generation t" "qt_attempts (with_evidence k at t) = qt_attempts t"
  "qt_runner (with_evidence k at t) = qt_runner t" "qt_leaseUntil (with_evidence k at t) = qt_leaseUntil t"
  "qt_result (with_evidence k at t) = qt_result t"
  by (simp_all add: with_evidence_def)

lemma claims_of_evidence [simp]:
  "claims_of (with_evidence k at t) = claims_of t @ (if k = ''claimed'' then [qt_generation t] else [])"
  "completions_of (with_evidence k at t) = completions_of t + (if k = ''completed'' then 1 else 0)"
  by (simp_all add: with_evidence_def claims_of_def completions_of_def)

lemma claims_of_updates [simp]:
  "claims_of (t\<lparr>qt_leaseUntil := l\<rparr>) = claims_of t" "completions_of (t\<lparr>qt_leaseUntil := l\<rparr>) = completions_of t"
  "claims_of (t\<lparr>qt_status := s\<rparr>) = claims_of t" "completions_of (t\<lparr>qt_status := s\<rparr>) = completions_of t"
  "claims_of (t\<lparr>qt_result := q\<rparr>) = claims_of t" "completions_of (t\<lparr>qt_result := q\<rparr>) = completions_of t"
  by (simp_all add: claims_of_def completions_of_def)

lemma evidence_history: "\<exists>es. qt_history (with_evidence k at t) = qt_history t @ es"
  by (simp add: with_evidence_def)

lemma find_task_Inr: "find_task b i = Inr t \<Longrightarrow> t \<in> set (bo_tasks b) \<and> qt_id t = i"
  by (auto simp: find_task_def dest: find_SomeD split: option.splits)

lemma replace_task_ids [simp]: "map qt_id (replace_task t us) = map qt_id us"
  by (induction us) auto

lemma replace_task_length [simp]: "length (replace_task t us) = length us"
  by (induction us) auto

lemma replace_task_set: "set (replace_task t us) \<subseteq> insert t (set us)"
  by (induction us) auto

lemma replace_task_kept:
  "(\<And>u. u \<in> set us \<Longrightarrow> qt_id u = qt_id t \<Longrightarrow> task_step u t) \<Longrightarrow> list_all2 task_step us (replace_task t us)"
  by (induction us) (auto simp: list_all2_refl)

lemma same_id_same_task:
  "distinct (map qt_id us) \<Longrightarrow> t \<in> set us \<Longrightarrow> u \<in> set us \<Longrightarrow> qt_id u = qt_id t \<Longrightarrow> u = t"
  by (metis distinct_map inj_onD)

text \<open>Replacing one task of a board by what became of it.\<close>

definition board_step :: "queue_def \<Rightarrow> board \<Rightarrow> board \<Rightarrow> bool" where
  "board_step D b b' \<longleftrightarrow> (board_ok D b \<longrightarrow> board_ok D b' \<and> tasks_kept (bo_tasks b) (bo_tasks b')) \<and>
     bo_digest b' = bo_digest b"

lemma board_step_refl [simp]: "board_step D b b"
  by (simp add: board_step_def)

lemma put_task_step:
  assumes "t \<in> set (bo_tasks b)" "task_ok D t \<Longrightarrow> task_ok D t' \<and> task_step t t'" "qt_id t' = qt_id t"
  shows "board_step D b (put_task t' b)"
proof -
  have "board_ok D (put_task t' b) \<and> tasks_kept (bo_tasks b) (bo_tasks (put_task t' b))" if ok: "board_ok D b"
  proof -
    have t: "task_ok D t" using ok assms(1) by (simp add: board_ok_def)
    have "task_step u t'" if "u \<in> set (bo_tasks b)" "qt_id u = qt_id t'" for u
      using same_id_same_task [OF _ assms(1) that(1)] ok assms(2) [OF t] that(2) assms(3) by (simp add: board_ok_def)
    then have "tasks_kept (bo_tasks b) (replace_task t' (bo_tasks b))"
      by (intro tasks_kept_all2 replace_task_kept)
    with ok assms(2) [OF t] replace_task_set [of t' "bo_tasks b"] show ?thesis
      by (auto simp: board_ok_def put_task_def)
  qed
  then show ?thesis by (simp add: board_step_def put_task_def)
qed

lemma fenced_Inr:
  "fenced b i runner g at = Inr t \<longleftrightarrow>
     find_task b i = Inr t \<and> qt_runner t = Some runner \<and> qt_generation t = g \<and> active t \<and> at < lease_of t"
  by (auto simp: fenced_def res_simps split: if_splits)

lemmas task_simps = task_ok_def task_step_def terminal_def active_def evidence_history

lemma register_step: "register_change D r at b = Inr (x, b') \<Longrightarrow> board_step D b b'"
proof -
  assume a: "register_change D r at b = Inr (x, b')"
  let ?nxt = "r\<lparr>qr_lastSeen := at, qr_capabilities := sort (dedup (qr_capabilities r))\<rparr>"
  show ?thesis
  proof (cases "find_index (\<lambda>x. qr_id x = qr_id r) (bo_runners b)")
    case None
    with a have "b' = b\<lparr>bo_runners := bo_runners b @ [?nxt]\<rparr>" "length (bo_runners b) < qd_maxRunners D"
      by (auto simp: register_change_def Let_def split: if_splits)
    with None show ?thesis by (auto simp: board_step_def board_ok_def find_index_None)
  next
    case (Some j)
    with a have b': "b' = b\<lparr>bo_runners := (bo_runners b)[j := ?nxt]\<rparr>"
      by (auto simp: register_change_def Let_def split: if_splits)
    have j: "j < length (bo_runners b)" "qr_id (bo_runners b ! j) = qr_id r"
      using find_index_Some [OF Some] by auto
    have "map qr_id ((bo_runners b)[j := ?nxt]) = map qr_id (bo_runners b)"
      using j by (simp add: map_update list_update_same_conv)
    with b' show ?thesis by (simp add: board_step_def board_ok_def)
  qed
qed

definition queued_task :: "string \<Rightarrow> obj \<Rightarrow> obj \<Rightarrow> int \<Rightarrow> int \<Rightarrow> queue_task" where
  "queued_task i input req priority at = with_evidence ''enqueued'' at
     \<lparr>qt_id = i, qt_input = input, qt_requirements = req, qt_priority = priority, qt_createdAt = at,
      qt_status = Queued, qt_generation = 0, qt_attempts = 0, qt_runner = None, qt_leaseUntil = None,
      qt_result = None, qt_history = []\<rparr>"

lemma queued_task_ok: "queue_def_ok D \<Longrightarrow> task_ok D (queued_task i input req p at)"
  by (simp add: queued_task_def task_ok_def active_def queue_def_ok_def)
     (simp add: claims_of_def completions_of_def)

lemma queued_task_id [simp]: "qt_id (queued_task i input req p at) = i"
  by (simp add: queued_task_def)

lemma enqueue_step:
  assumes "enqueue_change E D i input req p at b = Inr (x, b')" "queue_def_ok D"
  shows "board_step D b b'"
proof -
  have "b' = b\<lparr>bo_tasks := bo_tasks b @ [queued_task i input req p at]\<rparr>" "i \<notin> qt_id ` set (bo_tasks b)"
    "length (bo_tasks b) < qd_maxTasks D"
    using assms(1) by (auto simp: enqueue_change_def queued_task_def Let_def list_ex_iff split: if_splits)
  with queued_task_ok [OF assms(2)] show ?thesis by (auto simp: board_step_def board_ok_def)
qed

lemma claimed_ok: "qt_status t = Queued \<Longrightarrow> task_ok D t \<Longrightarrow> task_ok D (claimed_task D r at t) \<and> task_step t (claimed_task D r at t)"
  by (auto simp: claimed_task_def task_simps claims_of_def completions_of_def with_evidence_def)

lemma claimNext_change_cases:
  assumes "claimNext_change D runner at b = Inr (x, b')"
  obtains (nothing) "x = None" "b' = b"
  | (claimed) r t where "r \<in> set (bo_runners b)" "qr_id r = runner" "online D r at"
      "t \<in> set (bo_tasks b)" "claimable r t"
      "\<And>u. u \<in> set (bo_tasks b) \<Longrightarrow> claimable r u \<Longrightarrow> task_order t u \<le> 0"
      "x = Some (claimed_task D runner at t)" "b' = put_task (claimed_task D runner at t) b"
proof -
  obtain r where r: "List.find (\<lambda>r. qr_id r = runner) (bo_runners b) = Some r" "online D r at"
    using assms by (auto simp: claimNext_change_def split: option.splits if_splits)
  let ?ts = "filter (claimable r) (bo_tasks b)"
  have ord: "preorder_on_set task_order (set ?ts)"
    by (auto simp: preorder_on_set_def task_order_def)
  show thesis
  proof (cases "sort_by task_order ?ts")
    case Nil
    with assms r have "x = None" "b' = b" by (auto simp: claimNext_change_def)
    then show thesis by (rule nothing)
  next
    case (Cons t us)
    have s: "set (sort_by task_order ?ts) = set ?ts" by simp
    have srt: "sorted_wrt (\<lambda>a c. task_order a c \<le> 0) (sort_by task_order ?ts)"
      using sorted_sort_by [OF ord] .
    have t: "t \<in> set ?ts" using s Cons by auto
    have le: "task_order t u \<le> 0" if "u \<in> set (bo_tasks b)" "claimable r u" for u
    proof -
      have "u \<in> set (sort_by task_order ?ts)" using that s by simp
      then show ?thesis using srt Cons by (auto simp: task_order_def)
    qed
    show thesis
      using claimed [OF _ _ r(2) _ _ le] find_SomeD [OF r(1)] t Cons assms r
      by (auto simp: claimNext_change_def Let_def)
  qed
qed

lemma claimed_task_id [simp]: "qt_id (claimed_task D r at t) = qt_id t"
  by (simp add: claimed_task_def)

lemma claim_step: "claimNext_change D r at b = Inr (x, b') \<Longrightarrow> board_step D b b'"
  by (elim claimNext_change_cases) (auto intro!: put_task_step simp: claimed_ok claimable_def)

lemma give_back_ok: "active t \<Longrightarrow> task_ok D t \<Longrightarrow> k \<noteq> ''claimed'' \<Longrightarrow> k \<noteq> ''completed'' \<Longrightarrow>
    task_ok D (give_back D k at t) \<and> task_step t (give_back D k at t)"
  by (auto simp: give_back_def Let_def task_ok_def task_step_def terminal_def active_def claims_of_def completions_of_def with_evidence_def)

lemma give_back_id [simp]: "qt_id (give_back D k at t) = qt_id t"
  by (simp add: give_back_def Let_def)

lemma start_step: "start_change i r g at b = Inr (x, b') \<Longrightarrow> board_step D b b'"
  by (auto simp: start_change_def res_simps fenced_Inr Let_def dest!: find_task_Inr intro!: put_task_step)
     (auto simp: task_ok_def task_step_def terminal_def active_def claims_of_def completions_of_def with_evidence_def)

lemma touch_runner_ids [simp]: "map qr_id (touch_runner i at rs) = map qr_id rs" "length (touch_runner i at rs) = length rs"
  by (induction rs) auto

lemma board_step_runners:
  "board_step D b b' \<Longrightarrow> map qr_id rs = map qr_id (bo_runners b') \<Longrightarrow> length rs = length (bo_runners b') \<Longrightarrow>
   board_step D b (b'\<lparr>bo_runners := rs\<rparr>)"
  by (simp add: board_step_def board_ok_def)

lemma beat_ok:
  assumes "active t" "task_ok D t"
  shows "task_ok D (t\<lparr>qt_leaseUntil := Some u\<rparr>) \<and> task_step t (t\<lparr>qt_leaseUntil := Some u\<rparr>)"
  using assms by (cases "qt_status t") (simp_all add: task_ok_def task_step_def terminal_def active_def)

lemma heartbeat_step:
  assumes "heartbeat_change D i r g at b = Inr (x, b')"
  shows "board_step D b b'"
proof -
  obtain t where t: "t \<in> set (bo_tasks b)" "active t"
    "b' = (put_task (t\<lparr>qt_leaseUntil := Some (at + qd_leaseMs D)\<rparr>) b)\<lparr>bo_runners := touch_runner r at (bo_runners b)\<rparr>"
    using assms by (auto simp: heartbeat_change_def res_simps fenced_Inr Let_def dest!: find_task_Inr)
  let ?t = "t\<lparr>qt_leaseUntil := Some (at + qd_leaseMs D)\<rparr>"
  have "board_step D b (put_task ?t b)"
    by (rule put_task_step [OF t(1)]) (use t(2) beat_ok in simp_all)
  then show ?thesis unfolding t(3) by (rule board_step_runners) (simp_all add: put_task_def)
qed

definition completed_task :: "int \<Rightarrow> obj \<Rightarrow> queue_task \<Rightarrow> queue_task" where
  "completed_task at result t = with_evidence ''completed'' at
     (t\<lparr>qt_status := Completed, qt_result := Some result, qt_leaseUntil := None\<rparr>)"

lemma completed_task_id [simp]: "qt_id (completed_task at r t) = qt_id t"
  by (simp add: completed_task_def)

lemma completed_ok: "active t \<Longrightarrow> task_ok D t \<Longrightarrow> task_ok D (completed_task at r t) \<and> task_step t (completed_task at r t)"
  by (auto simp: completed_task_def task_ok_def task_step_def terminal_def active_def claims_of_def completions_of_def with_evidence_def)

lemma complete_change_Inr:
  "complete_change i runner g result at b = Inr (x, b') \<longleftrightarrow>
     (\<exists>t. fenced b i runner g at = Inr t \<and> qt_status t = Running \<and> x = completed_task at result t \<and>
        b' = put_task (completed_task at result t) b)"
  by (auto simp: complete_change_def completed_task_def res_simps Let_def split: if_splits)

lemma complete_step: "complete_change i r g result at b = Inr (x, b') \<Longrightarrow> board_step D b b'"
  by (auto simp: complete_change_Inr fenced_Inr completed_ok dest!: find_task_Inr intro!: put_task_step)

lemma fail_step: "fail_change D i r g at b = Inr (x, b') \<Longrightarrow> board_step D b b'"
  by (auto simp: fail_change_def res_simps fenced_Inr Let_def give_back_ok dest!: find_task_Inr intro!: put_task_step)

lemma cancel_step: "cancel_change i at b = Inr (x, b') \<Longrightarrow> board_step D b b'"
  by (auto simp: cancel_change_def res_simps Let_def dest!: find_task_Inr intro!: put_task_step split: if_splits)
     (auto simp: task_ok_def task_step_def terminal_def active_def claims_of_def completions_of_def with_evidence_def)

lemma reap_step:
  assumes "reap_change D at b = Inr (n, b')"
  shows "board_step D b b'"
proof -
  define f where "f = (\<lambda>t. if expired at t then give_back D ''lease-expired'' at t else t)"
  have b': "b' = b\<lparr>bo_tasks := map f (bo_tasks b)\<rparr>" using assms by (simp add: reap_change_def f_def)
  have f: "task_ok D (f t) \<and> task_step t (f t)" if "task_ok D t" for t
    using that give_back_ok [of t D] by (auto simp: f_def expired_def)
  have "qt_id \<circ> f = qt_id" by (auto simp: f_def fun_eq_iff)
  moreover have "tasks_kept (bo_tasks b) (map f (bo_tasks b))" if "\<forall>t\<in>set (bo_tasks b). task_ok D t"
    using that f by (intro tasks_kept_all2) (auto simp: list_all2_map2 intro: list.rel_refl_strong)
  ultimately show ?thesis using f by (auto simp: board_step_def board_ok_def b')
qed

section \<open>Any sequence of operations\<close>

datatype queue_op =
    QRegister queue_runner
  | QEnqueue string obj obj int
  | QClaim string
  | QStart string string nat
  | QHeartbeat string string nat
  | QComplete string string nat obj
  | QFail string string nat
  | QCancel string
  | QReap

definition left :: "('a \<times> board) res \<Rightarrow> board res" where
  "left r = bind_res r (\<lambda>(x, b). Inr b)"

fun queue_apply :: "env \<Rightarrow> queue_def \<Rightarrow> queue_op \<Rightarrow> int \<Rightarrow> board \<Rightarrow> board res" where
  "queue_apply E D (QRegister r) at b = left (register_change D r at b)"
| "queue_apply E D (QEnqueue i input req p) at b = left (enqueue_change E D i input req p at b)"
| "queue_apply E D (QClaim r) at b = left (claimNext_change D r at b)"
| "queue_apply E D (QStart i r g) at b = left (start_change i r g at b)"
| "queue_apply E D (QHeartbeat i r g) at b = left (heartbeat_change D i r g at b)"
| "queue_apply E D (QComplete i r g result) at b = left (complete_change i r g result at b)"
| "queue_apply E D (QFail i r g) at b = left (fail_change D i r g at b)"
| "queue_apply E D (QCancel i) at b = left (cancel_change i at b)"
| "queue_apply E D QReap at b = left (reap_change D at b)"

text \<open>Operations at any times, by any callers; one that throws leaves the board as it is.\<close>

fun queue_run :: "env \<Rightarrow> queue_def \<Rightarrow> (int \<times> queue_op) list \<Rightarrow> board \<Rightarrow> board" where
  "queue_run E D [] b = b"
| "queue_run E D ((at, q) # qs) b = queue_run E D qs (case queue_apply E D q at b of Inl e \<Rightarrow> b | Inr b' \<Rightarrow> b')"

lemma left_Inr: "left r = Inr b \<longleftrightarrow> (\<exists>x. r = Inr (x, b))"
  by (auto simp: left_def res_simps)

lemma queue_apply_step: "queue_apply E D q at b = Inr b' \<Longrightarrow> queue_def_ok D \<Longrightarrow> board_step D b b'"
  by (cases q) (auto simp: left_Inr intro: register_step enqueue_step claim_step start_step heartbeat_step complete_step
      fail_step cancel_step reap_step)

lemma queue_run_ok:
  "queue_def_ok D \<Longrightarrow> board_ok D b \<Longrightarrow> board_ok D (queue_run E D qs b) \<and> tasks_kept (bo_tasks b) (bo_tasks (queue_run E D qs b))"
proof (induction E D qs b rule: queue_run.induct)
  case (2 E D at q qs b)
  let ?b = "case queue_apply E D q at b of Inl e \<Rightarrow> b | Inr b' \<Rightarrow> b'"
  have s: "board_ok D ?b \<and> tasks_kept (bo_tasks b) (bo_tasks ?b)"
  proof (cases "queue_apply E D q at b")
    case (Inr b')
    with queue_apply_step [OF Inr "2.prems"(1)] "2.prems"(2) show ?thesis by (simp add: board_step_def)
  qed (use "2.prems" in simp)
  with "2.IH" "2.prems"(1) show ?case using tasks_kept_trans by (simp, blast)
qed auto

lemma new_board_ok: "board_ok D (new_board E D)"
  by (simp add: board_ok_def new_board_def)

section \<open>The document of a board\<close>

lemma evidence_back [simp]: "evidence_of (evidence_obj e) = Some e"
  by (cases "ev_runner e") (auto simp: evidence_of_def evidence_obj_def as_obj_def as_text_def as_int_def as_nat_def
      as_optional_def oget_def opt_member_json_def)

lemma text_status_back [simp]: "text_status (status_text s) = Some s"
  by (cases s) (simp_all add: text_status_def)

lemma task_back [simp]: "task_of (task_obj t) = Some t"
proof -
  have h: "those (map (evidence_of \<circ> evidence_obj) (qt_history t)) = Some (qt_history t)"
    using those_map [of "qt_history t" "evidence_of \<circ> evidence_obj" "\<lambda>e. e"] by simp
  show ?thesis
    by (cases "qt_runner t"; cases "qt_leaseUntil t"; cases "qt_result t")
      (simp_all add: task_of_def task_obj_def as_obj_def as_text_def as_int_def as_nat_def as_optional_def as_list_def
        oget_def opt_member_json_def h)
qed

lemma runner_back [simp]: "runner_of (runner_obj r) = Some r"
proof -
  have "those (map (as_text \<circ> JStr) (qr_capabilities r)) = Some (qr_capabilities r)"
    using those_map [of "qr_capabilities r" "as_text \<circ> JStr" "\<lambda>e. e"] by (simp add: as_text_def)
  then show ?thesis
    by (simp add: runner_of_def runner_obj_def JStrs_def as_obj_def as_text_def as_int_def as_list_def oget_def comp_def)
qed

lemma board_back: "oget d ''definitionDigest'' = JStr (bo_digest b) \<Longrightarrow> oget d ''tasks'' = JArr (map task_obj (bo_tasks b)) \<Longrightarrow>
    oget d ''runners'' = JArr (map runner_obj (bo_runners b)) \<Longrightarrow> board_of d = Some b"
  using those_map [of "bo_tasks b" "task_of \<circ> task_obj" "\<lambda>e. e"] those_map [of "bo_runners b" "runner_of \<circ> runner_obj" "\<lambda>e. e"]
  by (simp add: board_of_def as_text_def as_list_def)

lemma seal_board_reads:
  "oget (mput ''_version'' v (mdel ''_version'' (seal_board prev b))) ''definitionDigest'' = JStr (bo_digest b)"
  "oget (mput ''_version'' v (mdel ''_version'' (seal_board prev b))) ''tasks'' = JArr (map task_obj (bo_tasks b))"
  "oget (mput ''_version'' v (mdel ''_version'' (seal_board prev b))) ''runners'' = JArr (map runner_obj (bo_runners b))"
  by (simp_all add: oget_def seal_board_def board_obj_def split: option.split)

section \<open>Calls take effect at once\<close>

text \<open>The board a store holds for a queue.\<close>

definition queue_board :: "env \<Rightarrow> queue_def \<Rightarrow> string \<Rightarrow> memory \<Rightarrow> board res" where
  "queue_board E D tenant m = open_board E D (mem_getDocument m tenant QUEUE_KIND (qd_id D))"

definition keeps_digest :: "'a change \<Rightarrow> bool" where
  "keeps_digest change \<longleftrightarrow> (\<forall>at b x b'. change at b = Inr (x, b') \<longrightarrow> bo_digest b' = bo_digest b)"

lemma board_of_digest: "board_of d = Some b \<Longrightarrow> oget d ''definitionDigest'' = JStr (bo_digest b)"
  by (auto simp: board_of_def as_text_def bind_eq_Some_conv split: jsval.splits)

lemma open_board_digest: "open_board E D prev = Inr b \<Longrightarrow> bo_digest b = queue_digest E D"
  using board_of_digest by (force simp: open_board_def new_board_def split: option.splits if_splits)

theorem queue_mutate_linear:
  assumes "\<And>n m. doc_step tenant QUEUE_KIND (qd_id D) m (en_others E n m)" "keeps_digest change"
    and "queue_mutate E D tenant change w = (Inr x, w')"
  shows "\<exists>m at b b'. (others_act E)\<^sup>*\<^sup>* (wo_store w) m \<and> queue_board E D tenant m = Inr b \<and>
     change at b = Inr (x, b') \<and> queue_board E D tenant (wo_store w') = Inr b'"
proof -
  from cas_returns [OF assms(1) assms(3) [unfolded queue_mutate_def]]
  obtain m now doc where m: "(others_act E)\<^sup>*\<^sup>* (wo_store w) m"
    "queue_step E D change now (mem_getDocument m tenant QUEUE_KIND (qd_id D)) = Inr (doc, x)"
    "mem_putDocument m tenant QUEUE_KIND (qd_id D) doc (doc_expected (mem_getDocument m tenant QUEUE_KIND (qd_id D))) = Inr (wo_store w')"
    by (auto simp: took_effect_def)
  let ?prev = "mem_getDocument m tenant QUEUE_KIND (qd_id D)"
  obtain b b' where b: "open_board E D ?prev = Inr b" "change (now 0) b = Inr (x, b')" "doc = seal_board ?prev b'"
    using m(2) by (auto simp: queue_step_def lift_forge_def res_simps Let_def split: if_splits sum.splits)
  have g: "bo_digest b' = queue_digest E D"
    using assms(2) b(2) open_board_digest [OF b(1)] by (simp add: keeps_digest_def)
  obtain v where v: "mem_getDocument (wo_store w') tenant QUEUE_KIND (qd_id D) = Some (mput ''_version'' v (mdel ''_version'' doc))"
    using doc_written(2) [OF m(3)] by (auto simp: mem_getDocument_def stored_doc_def)
  have "board_of (mput ''_version'' v (mdel ''_version'' doc)) = Some b'"
    unfolding b(3) by (rule board_back) (rule seal_board_reads)+
  then have "queue_board E D tenant (wo_store w') = Inr b'"
    using seal_board_reads(1) [of v ?prev b'] g by (simp add: queue_board_def open_board_def v b(3))
  with m(1) b show ?thesis by (auto simp: queue_board_def)
qed

lemma keeps_digest_complete: "keeps_digest (complete_change i r g result)"
  using complete_step by (auto simp: keeps_digest_def board_step_def)

lemma keeps_digest_claim: "keeps_digest (claimNext_change D r)"
  using claim_step by (auto simp: keeps_digest_def board_step_def)

lemma queue_mutate_fails: "queue_mutate E D tenant change w = (Inl e, w') \<Longrightarrow> reading E w w'"
  unfolding queue_mutate_def by (rule cas_fails)

end
