(* ===== verification/Actor_Correct.thy ===== *)
theory Actor_Correct
  imports Actor Work_Queue_Correct
begin

text \<open>
  Correctness of actors: the state is the fold of the reducers over a log of messages with distinct ids,
  and the receipts are that log. A message is either new, and appended, or answered from its receipt.
\<close>

section \<open>The log\<close>

type_synonym log_entry = "string \<times> string \<times> jsval"

definition reduce_entry :: "env \<Rightarrow> actor_host \<Rightarrow> jsval \<Rightarrow> log_entry \<Rightarrow> jsval res" where
  "reduce_entry E h s = (\<lambda>(i, c, msg). case map_of (ah_reducers h) c of
       None \<Rightarrow> Inl (err ''MethodNotAllowed'')
     | Some reducer \<Rightarrow> bind_res (reducer s msg) (\<lambda>tr. decodeValue (en_platform E) (en_model E) (ah_state h) (at_state tr)))"

fun replay_log :: "env \<Rightarrow> actor_host \<Rightarrow> jsval \<Rightarrow> log_entry list \<Rightarrow> jsval res" where
  "replay_log E h s [] = Inr s"
| "replay_log E h s (e # es) = bind_res (reduce_entry E h s e) (\<lambda>s'. replay_log E h s' es)"

definition receipts_for :: "log_entry list \<Rightarrow> receipt_entry list" where
  "receipts_for log = map (\<lambda>(k, i, c, msg). \<lparr>re_id = i, re_command = c, re_payload = stable_json msg, re_revision = Suc k\<rparr>)
     (enumerate 0 log)"

definition actor_log :: "env \<Rightarrow> actor_host \<Rightarrow> jsval \<Rightarrow> log_entry list \<Rightarrow> actor_state \<Rightarrow> bool" where
  "actor_log E h s0 log d \<longleftrightarrow>
     replay_log E h s0 log = Inr (ac_state d) \<and> ac_revision d = length log \<and> length log \<le> 128 \<and>
     distinct (map fst log) \<and> ac_receipts d = receipts_for log"

lemma replay_snoc: "replay_log E h s (es @ [e]) = bind_res (replay_log E h s es) (\<lambda>s'. reduce_entry E h s' e)"
proof (induction es arbitrary: s)
  case Nil
  then show ?case by (cases "reduce_entry E h s e") simp_all
next
  case (Cons x es)
  then show ?case by (cases "reduce_entry E h s x") simp_all
qed

lemma receipts_for_snoc:
  "receipts_for (log @ [(i, c, msg)]) = receipts_for log @ [\<lparr>re_id = i, re_command = c, re_payload = stable_json msg, re_revision = Suc (length log)\<rparr>]"
  by (simp add: receipts_for_def enumerate_append_eq)

lemma receipts_for_length [simp]: "length (receipts_for log) = length log"
  by (simp add: receipts_for_def)

lemma receipts_for_ids [simp]: "map re_id (receipts_for log) = map fst log"
  by (simp add: receipts_for_def list_eq_iff_nth_eq nth_enumerate_eq split: prod.split)

lemma receipts_for_nth:
  "k < length log \<Longrightarrow> receipts_for log ! k = (case log ! k of (i, c, msg) \<Rightarrow>
     \<lparr>re_id = i, re_command = c, re_payload = stable_json msg, re_revision = Suc k\<rparr>)"
  by (simp add: receipts_for_def nth_enumerate_eq split: prod.split)

lemma receipts_for_member:
  "r \<in> set (receipts_for log) \<Longrightarrow> \<exists>k<length log. \<exists>msg. log ! k = (re_id r, re_command r, msg) \<and>
     re_payload r = stable_json msg \<and> re_revision r = Suc k"
  by (auto simp: in_set_conv_nth receipts_for_nth split: prod.splits)

section \<open>One message\<close>

text \<open>The two ways a message succeeds on an actor with this log.\<close>

definition applied_once ::
    "env \<Rightarrow> actor_host \<Rightarrow> jsval \<Rightarrow> log_entry list \<Rightarrow> string \<Rightarrow> string \<Rightarrow> jsval \<Rightarrow> actor_state \<Rightarrow> actor_state \<Rightarrow> command_result \<Rightarrow> bool" where
  "applied_once E h s0 log i c msg d d' r \<longleftrightarrow>
     (if i \<in> fst ` set log
      then d' = d \<and> (\<exists>k<length log. \<exists>msg0. log ! k = (i, c, msg0) \<and> stable_json msg0 = stable_json msg \<and>
             r = \<lparr>cr_revision = Suc k, cr_duplicate = True\<rparr>)
      else actor_log E h s0 (log @ [(i, c, msg)]) d' \<and> r = \<lparr>cr_revision = Suc (length log), cr_duplicate = False\<rparr> \<and>
           (\<exists>es. ac_effects d' = ac_effects d @ es))"

lemma apply_message_Inr:
  assumes "apply_message E h reducer i c payload msg oc now d = Inr (d', r)"
  obtains tr s effects alarms where "length (ac_receipts d) < 128" "reducer (ac_state d) msg = Inr tr"
    "decodeValue (en_platform E) (en_model E) (ah_state h) (at_state tr) = Inr s"
    "add_effects i (at_effects tr) (ac_effects d) = Inr effects"
    "d' = d\<lparr>ac_state := s, ac_revision := ac_revision d + 1, ac_effects := effects, ac_alarms := alarms,
       ac_receipts := ac_receipts d @ [\<lparr>re_id = i, re_command = c, re_payload = stable_json msg, re_revision = ac_revision d + 1\<rparr>]\<rparr>"
    "r = \<lparr>cr_revision = ac_revision d + 1, cr_duplicate = False\<rparr>"
  using assms by (auto simp: apply_message_def res_simps)

lemma command_reduce_Some:
  assumes "command_reduce E h i c payload g oc now doc = Inr (d', r)"
  obtains d ty reducer msg where "doc = Some d" "ac_generation d = g" "map_of (ah_messages h) c = Some ty"
    "map_of (ah_reducers h) c = Some reducer" "decodeValue (en_platform E) (en_model E) ty payload = Inr msg"
    "(case List.find (\<lambda>r. re_id r = i) (ac_receipts d) of
        Some q \<Rightarrow> re_command q = c \<and> re_payload q = stable_json msg \<and> d' = d \<and> r = \<lparr>cr_revision = re_revision q, cr_duplicate = True\<rparr>
      | None \<Rightarrow> apply_message E h reducer i c payload msg oc now d = Inr (d', r))"
proof -
  obtain d where d: "doc = Some d" "ac_generation d = g"
    "(case (map_of (ah_messages h) c, map_of (ah_reducers h) c) of
         (Some ty, Some reducer) \<Rightarrow>
           bind_res (decodeValue (en_platform E) (en_model E) ty payload) (\<lambda>message.
             case List.find (\<lambda>r. re_id r = i) (ac_receipts d) of
               Some r \<Rightarrow>
                 if re_command r \<noteq> c \<or> re_payload r \<noteq> stable_json message then Inl (err ''IdempotencyMismatch'')
                 else Inr (d, \<lparr>cr_revision = re_revision r, cr_duplicate = True\<rparr>)
             | None \<Rightarrow> apply_message E h reducer i c payload message oc now d)
       | _ \<Rightarrow> Inl (err ''MethodNotAllowed'')) = Inr (d', r)"
    using assms unfolding command_reduce_def current_actor_def
    by (cases doc) (auto simp: bind_res_Inr_iff guard_res_Inr_iff split: if_splits)
  obtain ty reducer where h: "map_of (ah_messages h) c = Some ty" "map_of (ah_reducers h) c = Some reducer"
    using d(3) by (cases "map_of (ah_messages h) c"; cases "map_of (ah_reducers h) c") simp_all
  obtain msg where m: "decodeValue (en_platform E) (en_model E) ty payload = Inr msg"
    "(case List.find (\<lambda>r. re_id r = i) (ac_receipts d) of
       Some r \<Rightarrow>
         if re_command r \<noteq> c \<or> re_payload r \<noteq> stable_json msg then Inl (err ''IdempotencyMismatch'')
         else Inr (d, \<lparr>cr_revision = re_revision r, cr_duplicate = True\<rparr>)
     | None \<Rightarrow> apply_message E h reducer i c payload msg oc now d) = Inr (d', r)"
    using d(3) by (auto simp: h bind_res_Inr_iff)
  from that [OF d(1,2) h m(1)] m(2) show thesis
    by (cases "List.find (\<lambda>r. re_id r = i) (ac_receipts d)") (simp_all split: if_splits)
qed

lemma command_applies_once:
  assumes "command_reduce E h i c payload g oc now (Some d) = Inr (d', r)" "actor_log E h s0 log d"
  shows "\<exists>ty msg. map_of (ah_messages h) c = Some ty \<and> decodeValue (en_platform E) (en_model E) ty payload = Inr msg \<and>
     applied_once E h s0 log i c msg d d' r"
proof -
  obtain d0 ty reducer msg where eq0: "Some d = Some d0" and m: "map_of (ah_messages h) c = Some ty"
    "map_of (ah_reducers h) c = Some reducer" "decodeValue (en_platform E) (en_model E) ty payload = Inr msg"
    and out0: "case List.find (\<lambda>r. re_id r = i) (ac_receipts d0) of
        Some q \<Rightarrow> re_command q = c \<and> re_payload q = stable_json msg \<and> d' = d0 \<and> r = \<lparr>cr_revision = re_revision q, cr_duplicate = True\<rparr>
      | None \<Rightarrow> apply_message E h reducer i c payload msg oc now d0 = Inr (d', r)"
    by (rule command_reduce_Some [OF assms(1)])
  from eq0 have "d0 = d" by simp
  have out: "case List.find (\<lambda>r. re_id r = i) (ac_receipts d) of
        Some q \<Rightarrow> re_command q = c \<and> re_payload q = stable_json msg \<and> d' = d \<and> r = \<lparr>cr_revision = re_revision q, cr_duplicate = True\<rparr>
      | None \<Rightarrow> apply_message E h reducer i c payload msg oc now d = Inr (d', r)"
    using out0 unfolding \<open>d0 = d\<close> .
  have rs: "ac_receipts d = receipts_for log" using assms(2) by (simp add: actor_log_def)
  have "applied_once E h s0 log i c msg d d' r"
  proof (cases "List.find (\<lambda>r. re_id r = i) (ac_receipts d)")
    case (Some q)
    have q: "q \<in> set (receipts_for log)" "re_id q = i" using find_SomeD [OF Some] by (simp_all add: rs)
    obtain k msg0 where k: "k < length log" "log ! k = (i, re_command q, msg0)" "re_payload q = stable_json msg0"
      "re_revision q = Suc k" using receipts_for_member [OF q(1)] q(2) by blast
    have "i \<in> fst ` set log" using nth_mem [OF k(1)] k(2) by force
    moreover have "re_command q = c" "re_payload q = stable_json msg" "d' = d" "r = \<lparr>cr_revision = re_revision q, cr_duplicate = True\<rparr>"
      using out Some by simp_all
    ultimately show ?thesis using k unfolding applied_once_def by auto
  next
    case None
    have fresh: "i \<notin> fst ` set log"
      using find_NoneD [OF None] rs receipts_for_ids [of log] by (metis imageE list.set_map)
    from out None have "apply_message E h reducer i c payload msg oc now d = Inr (d', r)" by simp
    from this obtain tr s effects alarms where a: "length (ac_receipts d) < 128" "reducer (ac_state d) msg = Inr tr"
      "decodeValue (en_platform E) (en_model E) (ah_state h) (at_state tr) = Inr s"
      "add_effects i (at_effects tr) (ac_effects d) = Inr effects"
      "d' = d\<lparr>ac_state := s, ac_revision := ac_revision d + 1, ac_effects := effects, ac_alarms := alarms,
         ac_receipts := ac_receipts d @ [\<lparr>re_id = i, re_command = c, re_payload = stable_json msg, re_revision = ac_revision d + 1\<rparr>]\<rparr>"
      "r = \<lparr>cr_revision = ac_revision d + 1, cr_duplicate = False\<rparr>"
      by (rule apply_message_Inr)
    have "actor_log E h s0 (log @ [(i, c, msg)]) d'"
      using assms(2) a fresh m(2) by (simp add: actor_log_def replay_snoc reduce_entry_def receipts_for_snoc)
    moreover have "\<exists>es. effects = ac_effects d @ es" using a(4) by (auto simp: add_effects_def split: if_splits)
    ultimately show ?thesis using a(5,6) fresh assms(2) by (simp add: applied_once_def actor_log_def receipts_for_snoc)
  qed
  with m show ?thesis by blast
qed

section \<open>Any sequence of operations\<close>

datatype actor_op =
    AInitialize jsval
  | ATakeover int
  | ACommand string string jsval int "string option"
  | AAcknowledge string int

definition reduced :: "(actor_state \<times> 'a) res \<Rightarrow> actor_state res" where
  "reduced r = bind_res r (\<lambda>(d, x). Inr d)"

fun actor_apply :: "env \<Rightarrow> actor_host \<Rightarrow> actor_op \<Rightarrow> (nat \<Rightarrow> int) \<Rightarrow> actor_state option \<Rightarrow> actor_state res" where
  "actor_apply E h (AInitialize s) now doc = reduced (initialize_reduce E h s now doc)"
| "actor_apply E h (ATakeover g) now doc = reduced (takeover_reduce g now doc)"
| "actor_apply E h (ACommand i c p g oc) now doc = reduced (command_reduce E h i c p g oc now doc)"
| "actor_apply E h (AAcknowledge i g) now doc = reduced (acknowledge_reduce i g now doc)"

lemma reduced_Inr: "reduced r = Inr d \<longleftrightarrow> (\<exists>x. r = Inr (d, x))"
  by (auto simp: reduced_def res_simps)

lemma actor_apply_digest:
  "actor_apply E h q now (Some d) = Inr d' \<Longrightarrow> ac_digest d' = ac_digest d"
  by (cases q) (auto simp: reduced_Inr initialize_reduce_def takeover_reduce_def acknowledge_reduce_def current_actor_def
      res_simps Let_def split: if_splits option.splits elim!: command_reduce_Some apply_message_Inr)

text \<open>The log of an actor only grows, and its generation never goes back.\<close>

lemma actor_apply_log:
  assumes "actor_apply E h q now (Some d) = Inr d'" "actor_log E h s0 log d"
  shows "\<exists>es. actor_log E h s0 (log @ es) d' \<and> ac_generation d \<le> ac_generation d'"
proof (cases q)
  case (ACommand i c p g oc)
  with assms(1) obtain r where r: "command_reduce E h i c p g oc now (Some d) = Inr (d', r)"
    by (auto simp: reduced_Inr)
  have gen: "ac_generation d' = ac_generation d"
    using r by (elim command_reduce_Some) (auto split: option.splits elim!: apply_message_Inr)
  from command_applies_once [OF r assms(2)] obtain msg where "applied_once E h s0 log i c msg d d' r" by blast
  with assms(2) have "actor_log E h s0 (log @ []) d' \<or> actor_log E h s0 (log @ [(i, c, msg)]) d'"
    by (auto simp: applied_once_def split: if_splits)
  with gen show ?thesis by fastforce
qed (use assms in \<open>auto simp: reduced_Inr initialize_reduce_def takeover_reduce_def acknowledge_reduce_def current_actor_def
      res_simps Let_def actor_log_def split: if_splits intro!: exI [of _ "[]"]\<close>)

lemma actor_initial_log:
  "initialize_reduce E h s now None = Inr (d, x) \<Longrightarrow> actor_log E h (ac_state d) [] d"
  by (auto simp: initialize_reduce_def res_simps Let_def actor_log_def receipts_for_def)

fun actor_run :: "env \<Rightarrow> actor_host \<Rightarrow> ((nat \<Rightarrow> int) \<times> actor_op) list \<Rightarrow> actor_state \<Rightarrow> actor_state" where
  "actor_run E h [] d = d"
| "actor_run E h ((now, q) # qs) d = actor_run E h qs (case actor_apply E h q now (Some d) of Inl e \<Rightarrow> d | Inr d' \<Rightarrow> d')"

lemma actor_run_log:
  "actor_log E h s0 log d \<Longrightarrow> \<exists>es. actor_log E h s0 (log @ es) (actor_run E h qs d) \<and> ac_generation d \<le> ac_generation (actor_run E h qs d)"
proof (induction E h qs d arbitrary: log rule: actor_run.induct)
  case (1 E h d)
  then show ?case by (auto intro!: exI [of _ "[]"])
next
  case (2 E h now q qs d)
  let ?d = "case actor_apply E h q now (Some d) of Inl e \<Rightarrow> d | Inr d' \<Rightarrow> d'"
  have "\<exists>es. actor_log E h s0 (log @ es) ?d \<and> ac_generation d \<le> ac_generation ?d"
    using actor_apply_log [OF _ "2.prems"] "2.prems" by (cases "actor_apply E h q now (Some d)") (auto intro!: exI [of _ "[]"])
  then obtain es where es: "actor_log E h s0 (log @ es) ?d" "ac_generation d \<le> ac_generation ?d" by blast
  from "2.IH" [OF es(1)] es(2) show ?case unfolding append_assoc actor_run.simps by (meson order_trans)
qed

section \<open>The document of an actor\<close>

lemma those_id: "(\<And>x. f (g x) = Some x) \<Longrightarrow> those (map (f \<circ> g) xs) = Some xs"
  using those_map [of xs "f \<circ> g" "\<lambda>x. x"] by simp

lemma effect_back [simp]: "effect_of (effect_obj e) = Some e"
  by (simp add: effect_of_def effect_obj_def as_obj_def as_text_def oget_def)

lemma alarm_back [simp]: "alarm_of (alarm_obj a) = Some a"
  by (simp add: alarm_of_def alarm_obj_def as_obj_def as_text_def as_int_def oget_def)

lemma receipt_back [simp]: "receipt_of (receipt_obj r) = Some r"
  by (simp add: receipt_of_def receipt_obj_def as_obj_def as_text_def as_nat_def oget_def)

lemma seal_actor_reads:
  "oget (mput ''_version'' v (mdel ''_version'' (seal_actor prev a))) k = oget (actor_obj a) k" if "k \<noteq> ''_version''"
  using that by (simp add: oget_def seal_actor_def map_add_def split: option.split)

lemma actor_back: "actor_of (mput ''_version'' v (mdel ''_version'' (seal_actor prev a))) = Some a"
  by (simp add: actor_of_def seal_actor_reads)
     (simp add: actor_obj_def oget_def as_text_def as_int_def as_nat_def as_list_def those_id)

text \<open>The actor a store holds under a document id.\<close>

definition actor_at :: "env \<Rightarrow> actor_host \<Rightarrow> string \<Rightarrow> string \<Rightarrow> memory \<Rightarrow> actor_state option res" where
  "actor_at E h tenant i m = open_actor E h (mem_getDocument m tenant ACTOR_KIND i)"

lemma open_actor_digest: "open_actor E h prev = Inr (Some d) \<Longrightarrow> ac_digest d = actor_digest E h"
  by (auto simp: open_actor_def actor_of_def as_text_def bind_eq_Some_conv split: option.splits if_splits jsval.splits)

lemma command_digest: "command_reduce E h i c p g oc now (Some d) = Inr (d', r) \<Longrightarrow> ac_digest d' = ac_digest d"
  using actor_apply_digest [of E h "ACommand i c p g oc" now d d'] by (auto simp: reduced_Inr)

text \<open>Calls take effect at once.\<close>

lemma actor_command_linear:
  assumes "\<And>n m. doc_step tenant ACTOR_KIND i m (en_others E n m)" "actor_key h key = Inr i"
    and "actor_command E h tenant key mid c p g oc w = (Inr r, w')"
  shows "\<exists>m now d d'. (others_act E)\<^sup>*\<^sup>* (wo_store w) m \<and> actor_at E h tenant i m = Inr (Some d) \<and>
     command_reduce E h mid c p g oc now (Some d) = Inr (d', r) \<and> actor_at E h tenant i (wo_store w') = Inr (Some d')"
proof -
  have "cas ACTOR_ATTEMPTS E tenant ACTOR_KIND i (actor_step E h (command_reduce E h mid c p g oc)) w = (Inr r, w')"
    using assms(2,3) by (simp add: actor_command_def actor_change_def eff_bind_def eff_of_def)
  from cas_returns [OF assms(1) this] obtain m now doc where m: "(others_act E)\<^sup>*\<^sup>* (wo_store w) m"
    "actor_step E h (command_reduce E h mid c p g oc) now (mem_getDocument m tenant ACTOR_KIND i) = Inr (doc, r)"
    "mem_putDocument m tenant ACTOR_KIND i doc (doc_expected (mem_getDocument m tenant ACTOR_KIND i)) = Inr (wo_store w')"
    by (auto simp: took_effect_def)
  let ?prev = "mem_getDocument m tenant ACTOR_KIND i"
  obtain a d' where a: "open_actor E h ?prev = Inr a" "command_reduce E h mid c p g oc now a = Inr (d', r)" "doc = seal_actor ?prev d'"
    using m(2) by (auto simp: actor_step_def lift_forge_def res_simps Let_def split: if_splits sum.splits)
  obtain d where d: "a = Some d" using a(2) by (cases a) (auto simp: command_reduce_def current_actor_def)
  have g: "ac_digest d' = actor_digest E h" using command_digest a(1,2) open_actor_digest by (simp add: d)
  obtain v where v: "mem_getDocument (wo_store w') tenant ACTOR_KIND i = Some (mput ''_version'' v (mdel ''_version'' doc))"
    using doc_written(2) [OF m(3)] by (auto simp: mem_getDocument_def stored_doc_def)
  have "oget (actor_obj d') ''definitionDigest'' = JStr (actor_digest E h)" by (simp add: actor_obj_def oget_def g)
  then have "actor_at E h tenant i (wo_store w') = Inr (Some d')"
    by (simp add: actor_at_def open_actor_def v a(3) seal_actor_reads actor_back)
  with m(1) a d show ?thesis by (auto simp: actor_at_def)
qed

lemma actor_change_fails: "actor_change E h tenant key f w = (Inl e, w') \<Longrightarrow> reading E w w'"
  using cas_fails by (fastforce simp: actor_change_def eff_bind_Inl_iff eff_of_def)

end
