(* ===== verification/Work_Properties.thy ===== *)
theory Work_Properties
  imports Work_Queue_Correct Engine_Sample
begin

text \<open>The properties of execution requirements and work queues.\<close>

text \<open>An environment with a short digest, for the witnesses.\<close>

definition lab_env :: env where
  "lab_env = desk_env\<lparr>en_digest := (\<lambda>t. [7])\<rparr>"

definition lab_manifest :: "string \<Rightarrow> string list \<Rightarrow> obj" where
  "lab_manifest i req = [(''version'', JStr ''execution-manifest/1''), (''id'', JStr i), (''kind'', JStr ''implementation''),
     (''requires'', JStrs req)]"

definition lab_input :: exec_input where
  "lab_input = \<lparr>xi_artifact = \<lparr>xa_json = JNull, xa_modules = [\<lparr>xm_functions =
       [\<lparr>xf_id = ''f'', xf_generated = True, xf_uses = [\<lparr>us_kind = ''function'', us_function = Some ''g'', us_resource = None\<rparr>]\<rparr>,
        \<lparr>xf_id = ''g'', xf_generated = False, xf_uses = [\<lparr>us_kind = ''function'', us_function = Some ''f'', us_resource = None\<rparr>]\<rparr>],
       xm_resources = [], xm_workflows = []\<rparr>]\<rparr>,
     xi_artifactDigest = ''07'', xi_operation = ''f'',
     xi_profile = \<lparr>xp_id = ''p'', xp_bindings = [(''g'', ''07'')], xp_providers = []\<rparr>,
     xi_manifests = [(''07'', lab_manifest ''m'' [''gpu''])], xi_explicit = [(''net'', ''calls out'')]\<rparr>"

text \<open>
  C22: derived requirements are exact. The requirements of an operation are, sorted and without repetition,
  those of the pinned manifests of the profile's providers and of the implementation or provider bound to
  everything the operation depends on, directly or not, together with the explicit ones; every manifest
  is the one its digest names, and the provenance digest seals the whole result.
\<close>

theorem derived_requirements_exact:
  assumes "deriveExecutionRequirements E inp = Inr q"
  shows "\<exists>ms. check_pins E (xi_manifests inp) [] = Inr ms \<and>
     (\<forall>d m. map_of ms d = Some m \<longrightarrow> executionDigest E (JObj m) = d) \<and>
     set (req_atoms q) = required inp ms \<and> sorted (req_atoms q) \<and> distinct (req_atoms q) \<and>
     oget q ''provenanceDigest'' = JStr (executionDigest E (JObj (mdel ''provenanceDigest'' q)))"
proof -
  obtain ex req where d: "derive_explanations E inp = Inr ex" "atoms (JStrs (map fst ex)) = Inr req"
    "req_atoms q = req" "oget q ''provenanceDigest'' = JStr (executionDigest E (JObj (mdel ''provenanceDigest'' q)))"
    using assms by (auto simp: deriveExecutionRequirements_def res_simps with_provenance_def derived_atoms oget_def mdel_def)
  obtain ms where ms: "check_pins E (xi_manifests inp) [] = Inr ms" "explained ex = required inp ms"
    using derive_explanations_keys [OF d(1)] by blast
  have "req = sort (dedup (map fst ex))" using atoms_strings [OF d(2)] by simp
  with ms check_pins_digests [OF ms(1)] d(3,4) show ?thesis by (auto simp: explained_def)
qed

definition lab_requirements :: obj where
  "lab_requirements = (case deriveExecutionRequirements lab_env lab_input of Inr q \<Rightarrow> q | Inl e \<Rightarrow> [])"

lemma lab_derives: "deriveExecutionRequirements lab_env lab_input = Inr lab_requirements \<and> req_atoms lab_requirements = [''gpu'', ''net'']"
proof -
  have "case deriveExecutionRequirements lab_env lab_input of Inr q \<Rightarrow> req_atoms q = [''gpu'', ''net''] | Inl e \<Rightarrow> False" by code_simp
  then show ?thesis by (auto simp: lab_requirements_def split: sum.splits)
qed

theorem derived_requirements_exact_witness:
  "\<exists>ms. set [''gpu'', ''net''] = required lab_input ms"
  using derived_requirements_exact [OF lab_derives [THEN conjunct1]] lab_derives by auto

text \<open>
  C8: boards stay sound. Whatever operations are applied to a board, by whomever and whenever, its task
  and runner ids stay distinct and within the limits; each task has been claimed once under each of its
  generations 1, 2, ... and never more often than the attempts allowed; it holds a lease and a runner
  exactly while it is claimed or running, and a result, with one record of its completion, exactly when it
  is completed. No task is ever dropped, its contents never change, its history only grows, its runner
  changes only with its generation, and a completed, failed or cancelled task is final.
\<close>

theorem queue_board_sound:
  assumes "queue_def_ok D" "board_ok D b"
  shows "board_ok D (queue_run E D qs b) \<and>
     (\<forall>t\<in>set (bo_tasks b). \<exists>t'\<in>set (bo_tasks (queue_run E D qs b)). task_step t t')"
  using queue_run_ok [OF assms] tasks_kept_member by blast

definition lab_queue :: queue_def where
  "lab_queue = \<lparr>qd_id = ''jobs'', qd_execute = ''f'', qd_leaseMs = 1000, qd_maxAttempts = 1, qd_maxTasks = 2, qd_maxRunners = 1\<rparr>"

definition lab_task :: queue_task where
  "lab_task = \<lparr>qt_id = ''a'', qt_input = [], qt_requirements = [], qt_priority = 5, qt_createdAt = 1,
     qt_status = Running, qt_generation = 1, qt_attempts = 1, qt_runner = Some ''r1'', qt_leaseUntil = Some 1003,
     qt_result = None, qt_history =
       [\<lparr>ev_kind = ''enqueued'', ev_at = 1, ev_generation = 0, ev_runner = None\<rparr>,
        \<lparr>ev_kind = ''claimed'', ev_at = 3, ev_generation = 1, ev_runner = Some ''r1''\<rparr>]\<rparr>"

definition lab_board :: board where
  "lab_board = \<lparr>bo_digest = ''07'', bo_tasks = [lab_task], bo_runners = []\<rparr>"

definition lab_ops :: "(int \<times> queue_op) list" where
  "lab_ops = [(5, QComplete ''a'' ''r1'' 2 []), (6, QComplete ''a'' ''r1'' 1 []), (7, QCancel ''a''), (2000, QReap)]"

theorem queue_board_sound_witness:
  "board_ok lab_queue (queue_run lab_env lab_queue lab_ops lab_board) \<and>
   map (\<lambda>t. (qt_status t, map ev_kind (qt_history t))) (bo_tasks (queue_run lab_env lab_queue lab_ops lab_board)) =
     [(Completed, [''enqueued'', ''claimed'', ''completed''])]"
proof -
  have ok: "queue_def_ok lab_queue" "board_ok lab_queue lab_board" by code_simp+
  have "map (\<lambda>t. (qt_status t, map ev_kind (qt_history t))) (bo_tasks (queue_run lab_env lab_queue lab_ops lab_board)) =
     [(Completed, [''enqueued'', ''claimed'', ''completed''])]" by code_simp
  with queue_board_sound [OF ok, of lab_env lab_ops] show ?thesis by blast
qed

text \<open>
  C9: completion is fenced. Other callers may act between any two storage operations, as long as every
  change of a document gives it a newer version. A completion that fails has written nothing. One that
  returns took effect in one instant: on the board then, the task was running under this runner and this
  generation with a lease that had not run out, and the completed task replaced it and nothing else.
\<close>

theorem queue_completion_fenced:
  assumes "\<And>n m. doc_step tenant QUEUE_KIND (qd_id D) m (en_others E n m)"
  shows "case wq_complete E D tenant i runner g result w of
     (Inl e, w') \<Rightarrow> reading E w w'
   | (Inr t', w') \<Rightarrow> \<exists>m at b t. (others_act E)\<^sup>*\<^sup>* (wo_store w) m \<and> queue_board E D tenant m = Inr b \<and>
       find_task b i = Inr t \<and> qt_status t = Running \<and> qt_runner t = Some runner \<and> qt_generation t = g \<and>
       at < lease_of t \<and> t' = completed_task at result t \<and> queue_board E D tenant (wo_store w') = Inr (put_task t' b)"
proof (cases "wq_complete E D tenant i runner g result w")
  case (Pair r w')
  show ?thesis
  proof (cases r)
    case (Inl e)
    with Pair queue_mutate_fails show ?thesis unfolding wq_complete_def by fastforce
  next
    case (Inr t')
    from queue_mutate_linear [OF assms keeps_digest_complete Pair [unfolded wq_complete_def Inr]]
    obtain m at b b' where m: "(others_act E)\<^sup>*\<^sup>* (wo_store w) m" "queue_board E D tenant m = Inr b"
      "complete_change i runner g result at b = Inr (t', b')" "queue_board E D tenant (wo_store w') = Inr b'" by blast
    from m(3) obtain t where t: "fenced b i runner g at = Inr t" "qt_status t = Running"
      "t' = completed_task at result t" "b' = put_task t' b" by (auto simp: complete_change_Inr)
    from m t(2-) t(1) [unfolded fenced_Inr] Pair Inr show ?thesis by auto
  qed
qed

definition lab_world :: world where
  "lab_world = desk_world\<lparr>wo_store := memory_new\<lparr>me_documents := [(key3 ''t1'' QUEUE_KIND ''jobs'', (1, board_obj lab_board))]\<rparr>\<rparr>"

theorem queue_completion_fenced_witness:
  "\<exists>t w m b. wq_complete lab_env lab_queue ''t1'' ''a'' ''r1'' 1 [] lab_world = (Inr t, w) \<and>
     queue_board lab_env lab_queue ''t1'' m = Inr b \<and> queue_board lab_env lab_queue ''t1'' (wo_store w) = Inr (put_task t b)"
proof -
  have alone: "doc_step t k i m (en_others lab_env n m)" for t k i n m
    by (simp add: lab_env_def desk_env_def)
  have doc: "mem_getDocument (wo_store lab_world) ''t1'' QUEUE_KIND ''jobs'' = Some (mput ''_version'' (JInt 1) (board_obj lab_board))"
    by (simp add: lab_world_def mem_getDocument_def getDocument_def)
  have "case queue_step lab_env lab_queue (complete_change ''a'' ''r1'' 1 []) (\<lambda>j. int (1 + j))
      (Some (mput ''_version'' (JInt 1) (board_obj lab_board))) of Inl e \<Rightarrow> False | Inr (d, x) \<Rightarrow> True"
    by code_simp
  then have "\<exists>t. fst (wq_complete lab_env lab_queue ''t1'' ''a'' ''r1'' 1 [] lab_world) = Inr t"
    using cas_alone [of lab_env 63 "''t1''" QUEUE_KIND "''jobs''" "queue_step lab_env lab_queue (complete_change ''a'' ''r1'' 1 [])" lab_world] doc
    by (auto simp: wq_complete_def queue_mutate_def QUEUE_ATTEMPTS_def lab_queue_def lab_env_def desk_env_def lab_world_def
        desk_world_def split: sum.splits prod.splits)
  then obtain t w where t: "wq_complete lab_env lab_queue ''t1'' ''a'' ''r1'' 1 [] lab_world = (Inr t, w)"
    by (cases "wq_complete lab_env lab_queue ''t1'' ''a'' ''r1'' 1 [] lab_world") (auto split: sum.splits)
  from queue_completion_fenced [OF alone, where D = lab_queue and tenant = "''t1''" and i = "''a''" and runner = "''r1''" and g = 1 and result = "[]" and w = lab_world] t show ?thesis by auto
qed

end
