(* ===== verification/Actor_Properties.thy ===== *)
theory Actor_Properties
  imports Actor_Correct Work_Properties Decode_Correct
begin

text \<open>The properties of actors.\<close>

text \<open>
  C4: a message is applied once. Other callers may act between any two storage operations, as long as every
  change of a document gives it a newer version. A command that fails has written nothing. One that returns
  took effect in one instant, under the caller's generation. Whenever the actor's state then was the
  fold of the reducers over some log of messages (its receipts), the message id was in the log with the
  same command and content, nothing changed and the first revision was returned; or the id was new, and
  the state is the fold over the log extended by this message, with its effects appended.
\<close>

theorem actor_message_once:
  assumes "\<And>n m. doc_step tenant ACTOR_KIND i m (en_others E n m)" "actor_key h key = Inr i"
  shows "case actor_command E h tenant key mid c payload g oc w of
     (Inl e, w') \<Rightarrow> reading E w w'
   | (Inr r, w') \<Rightarrow> \<exists>m d d' ty msg. (others_act E)\<^sup>*\<^sup>* (wo_store w) m \<and> actor_at E h tenant i m = Inr (Some d) \<and>
       actor_at E h tenant i (wo_store w') = Inr (Some d') \<and> ac_generation d = g \<and>
       map_of (ah_messages h) c = Some ty \<and> decodeValue (en_platform E) (en_model E) ty payload = Inr msg \<and>
       (\<forall>s0 log. actor_log E h s0 log d \<longrightarrow> applied_once E h s0 log mid c msg d d' r)"
proof (cases "actor_command E h tenant key mid c payload g oc w")
  case (Pair res w')
  show ?thesis
  proof (cases res)
    case (Inl e)
    with Pair actor_change_fails show ?thesis unfolding actor_command_def by fastforce
  next
    case (Inr r)
    from actor_command_linear [OF assms Pair [unfolded Inr]] obtain m now d d' where m:
      "(others_act E)\<^sup>*\<^sup>* (wo_store w) m" "actor_at E h tenant i m = Inr (Some d)"
      "command_reduce E h mid c payload g oc now (Some d) = Inr (d', r)"
      "actor_at E h tenant i (wo_store w') = Inr (Some d')" by blast
    obtain d0 ty reducer msg where "Some d = Some d0" and t: "ac_generation d0 = g" "map_of (ah_messages h) c = Some ty"
      "decodeValue (en_platform E) (en_model E) ty payload = Inr msg"
      by (rule command_reduce_Some [OF m(3)])
    have "applied_once E h s0 log mid c msg d d' r" if "actor_log E h s0 log d" for s0 log
      using command_applies_once [OF m(3) that] t(2,3) by auto
    with m t Pair Inr \<open>Some d = Some d0\<close> show ?thesis by auto
  qed
qed

definition memo_actor :: actor_host where
  "memo_actor = \<lparr>ah_id = ''memo'', ah_state = text_type, ah_messages = [(''put'', text_type)],
     ah_reducers = [(''put'', \<lambda>s m. Inr \<lparr>at_state = m, at_effects = [(''mail'', s)], at_alarms = None\<rparr>)], ah_json = JNull\<rparr>"

definition memo_state :: actor_state where
  "memo_state = \<lparr>ac_digest = ''07'', ac_state = JStr ''a'', ac_generation = 1, ac_revision = 0, ac_receipts = [],
     ac_effects = [], ac_alarms = []\<rparr>"

definition memo_id :: string where
  "memo_id = json_text (JArr [JStr ''memo'', JStr ''k''])"

definition memo_world :: world where
  "memo_world = desk_world\<lparr>wo_store := memory_new\<lparr>me_documents := [(key3 ''t1'' ACTOR_KIND memo_id, (1, actor_obj memo_state))]\<rparr>\<rparr>"

theorem actor_message_once_witness:
  "\<exists>r w d. actor_command lab_env memo_actor ''t1'' ''k'' ''m1'' ''put'' (JStr ''b'') 1 None memo_world = (Inr r, w) \<and>
     actor_at lab_env memo_actor ''t1'' memo_id (wo_store w) = Inr (Some d)"
proof -
  have alone: "doc_step t k i m (en_others lab_env n m)" for t k i n m
    by (simp add: lab_env_def desk_env_def)
  have key: "actor_key memo_actor ''k'' = Inr memo_id"
    by (simp add: actor_key_def memo_actor_def memo_id_def)
  have doc: "mem_getDocument (wo_store memo_world) ''t1'' ACTOR_KIND memo_id = Some (mput ''_version'' (JInt 1) (actor_obj memo_state))"
    by (simp add: memo_world_def mem_getDocument_def getDocument_def)
  have "case actor_step lab_env memo_actor (command_reduce lab_env memo_actor ''m1'' ''put'' (JStr ''b'') 1 None) (\<lambda>j. int (1 + j))
      (Some (mput ''_version'' (JInt 1) (actor_obj memo_state))) of Inl e \<Rightarrow> False | Inr (d, x) \<Rightarrow> True"
    by code_simp
  then have "\<exists>r. fst (cas 64 lab_env ''t1'' ACTOR_KIND memo_id
      (actor_step lab_env memo_actor (command_reduce lab_env memo_actor ''m1'' ''put'' (JStr ''b'') 1 None)) memo_world) = Inr r"
    using cas_alone [of lab_env 63 "''t1''" ACTOR_KIND memo_id
        "actor_step lab_env memo_actor (command_reduce lab_env memo_actor ''m1'' ''put'' (JStr ''b'') 1 None)" memo_world] doc
    by (auto simp: lab_env_def desk_env_def memo_world_def desk_world_def split: sum.splits prod.splits)
  then obtain r w where r: "actor_command lab_env memo_actor ''t1'' ''k'' ''m1'' ''put'' (JStr ''b'') 1 None memo_world = (Inr r, w)"
    unfolding actor_command_def actor_change_def ACTOR_ATTEMPTS_def key eff_bind_def eff_of_def prod.case sum.case
    by (metis prod.collapse)
  from actor_message_once [OF alone key, where tenant = "''t1''" and mid = "''m1''" and c = "''put''" and payload = "JStr ''b''"
      and g = 1 and oc = None and w = memo_world] r show ?thesis by auto
qed

end
