(* ===== verification/Transaction.thy ===== *)
theory Transaction
  imports Engine_Call Engine_Atomic
begin

text \<open>
  Transactions (\<open>packages/runtime/src/transaction.ts\<close> and \<open>transaction\<close> of
  \<open>packages/runtime/src/engine.ts\<close>): the private view whose reads are snapshots overlaid with the
  staged plans, the folding and ordering of the staged plans, and the one guarded commit.

  What an operation computes inside a transaction is a \<open>reader\<close>: a program that reads one resource
  at a time through the view and documents directly from the durable store. A transaction body is a
  program over such operations; it sees their errors and may go on after one.
\<close>

section \<open>The view\<close>

record view =
  vw_plans :: "commit_plan list"
  vw_reads :: "read_guard list"
  vw_snapshots :: "((string \<times> string) \<times> (string \<times> stored_record) list) list"

definition view_new :: view where
  "view_new = \<lparr>vw_plans = [], vw_reads = [], vw_snapshots = []\<rparr>"

definition row_id :: "stored_record \<Rightarrow> string" where
  "row_id row = js_string (oget row ''id'')"

definition put_rows :: "(string \<times> stored_record) list \<Rightarrow> stored_record list \<Rightarrow> (string \<times> stored_record) list" where
  "put_rows recs rows = foldl (\<lambda>t row. mput (row_id row) row t) recs rows"

definition EXPORT_PAGE :: nat where
  "EXPORT_PAGE = 256"

definition SNAPSHOT_PAGES :: nat where
  "SNAPSHOT_PAGES = 64"

definition SNAPSHOT_ROWS :: nat where
  "SNAPSHOT_ROWS = 4096"

text \<open>The paged scan; \<open>n\<close> is one more than the pages it may still read without failing.\<close>

fun export_rows ::
    "nat \<Rightarrow> env \<Rightarrow> (string \<Rightarrow> string \<Rightarrow> int) \<Rightarrow> string \<Rightarrow> resource \<Rightarrow> string option
      \<Rightarrow> (string \<times> stored_record) list \<Rightarrow> (string \<times> stored_record) list eff" where
  "export_rows 0 E lc t r cursor recs = eff_fail (err ''BudgetExceeded'')"
| "export_rows (Suc n) E lc t r cursor recs =
     eff_bind (storage_read E (\<lambda>m. mem_exportPage lc m t r cursor EXPORT_PAGE)) (\<lambda>(rows, nxt).
       let recs1 = put_rows recs rows in
       if n = 0 \<or> length recs1 > SNAPSHOT_ROWS then eff_fail (err ''BudgetExceeded'')
       else case nxt of None \<Rightarrow> eff_ret recs1 | Some c \<Rightarrow> export_rows n E lc t r (Some c) recs1)"

definition revision_tenant :: "string \<Rightarrow> resource \<Rightarrow> string" where
  "revision_tenant t r = (if dc_tenant (r_decorators r) then t else [])"

definition stage_row :: "(string \<times> stored_record) list \<Rightarrow> commit_plan \<Rightarrow> (string \<times> stored_record) list" where
  "stage_row recs p = (if cp_hardDelete p then mdel (cp_id p) recs else mput (cp_id p) (cp_after p) recs)"

definition staged_on :: "string \<times> string \<Rightarrow> commit_plan list \<Rightarrow> commit_plan list" where
  "staged_on k ps = filter (\<lambda>p. cp_tenant p = fst k \<and> r_id (cp_resource p) = snd k) ps"

text \<open>The first read of a resource: its revision, then its rows, then what is staged on it.\<close>

definition touch :: "env \<Rightarrow> (string \<Rightarrow> string \<Rightarrow> int) \<Rightarrow> string \<Rightarrow> resource \<Rightarrow> view \<Rightarrow> view eff" where
  "touch E lc t r v =
     (let k = (t, r_id r) in
      if mhas k (vw_snapshots v) then eff_ret v
      else eff_bind (eff_guard (length (vw_reads v) < 32) (err ''BudgetExceeded'')) (\<lambda>_.
        eff_bind (storage_read E (\<lambda>m. mem_getDocument m (revision_tenant t r) RESOURCE_REVISION (r_id r))) (\<lambda>revision.
        eff_bind (export_rows (Suc SNAPSHOT_PAGES) E lc t r None []) (\<lambda>recs.
        eff_ret (v\<lparr>vw_reads := vw_reads v @ [\<lparr>rd_tenant = revision_tenant t r, rd_resource = r, rd_revision = doc_expected revision\<rparr>],
          vw_snapshots := mput k (foldl stage_row recs (staged_on k (vw_plans v))) (vw_snapshots v)\<rparr>)))))"

text \<open>The private store one read is evaluated on.\<close>

definition view_memory :: "view \<Rightarrow> string \<Rightarrow> resource \<Rightarrow> memory" where
  "view_memory v t r = mem_snapshot t r (map snd (case map_of (vw_snapshots v) (t, r_id r) of None \<Rightarrow> [] | Some recs \<Rightarrow> recs))"

type_synonym 'a tx_eff = "view \<Rightarrow> world \<Rightarrow> 'a res \<times> view \<times> world"

definition view_read ::
    "env \<Rightarrow> (string \<Rightarrow> string \<Rightarrow> int) \<Rightarrow> string \<Rightarrow> resource \<Rightarrow> (memory \<Rightarrow> 'a) \<Rightarrow> 'a tx_eff" where
  "view_read E lc t r f = (\<lambda>v w. case touch E lc t r v w of
     (Inl e, w1) \<Rightarrow> (Inl e, v, w1)
   | (Inr v1, w1) \<Rightarrow> (Inr (f (view_memory v1 t r)), v1, w1))"

text \<open>The staged unique keys of a plan, against the view.\<close>

definition held_by_other :: "commit_plan \<Rightarrow> stored_record option \<Rightarrow> bool" where
  "held_by_other p holder = (case holder of None \<Rightarrow> False | Some h \<Rightarrow> \<not> js_seq (oget h ''id'') (JStr (cp_id p)))"

fun check_claims :: "env \<Rightarrow> (string \<Rightarrow> string \<Rightarrow> int) \<Rightarrow> commit_plan \<Rightarrow> claim_change list \<Rightarrow> unit tx_eff" where
  "check_claims E lc p [] = (\<lambda>v w. (Inr (), v, w))"
| "check_claims E lc p (c # cs) = (\<lambda>v w.
     (case cc_after c of
        None \<Rightarrow> check_claims E lc p cs v w
      | Some a \<Rightarrow>
          if a = [] \<or> cc_before c = Some a then check_claims E lc p cs v w
          else (case view_read E lc (cp_tenant p) (cp_resource p)
                  (\<lambda>m. mem_findUnique m (cp_tenant p) (cp_resource p) a) v w of
              (Inl e, v1, w1) \<Rightarrow> (Inl e, v1, w1)
            | (Inr holder, v1, w1) \<Rightarrow>
                if held_by_other p holder then (Inl (err ''UniqueConflict''), v1, w1)
                else check_claims E lc p cs v1 w1)))"

definition push_plan :: "commit_plan \<Rightarrow> view \<Rightarrow> view" where
  "push_plan p v =
     (let k = (cp_tenant p, r_id (cp_resource p))
      in v\<lparr>vw_plans := vw_plans v @ [p],
           vw_snapshots := mput k (stage_row (case map_of (vw_snapshots v) k of None \<Rightarrow> [] | Some recs \<Rightarrow> recs) p) (vw_snapshots v)\<rparr>)"

definition stage :: "env \<Rightarrow> (string \<Rightarrow> string \<Rightarrow> int) \<Rightarrow> commit_plan \<Rightarrow> unit tx_eff" where
  "stage E lc p = (\<lambda>v w.
     case view_read E lc (cp_tenant p) (cp_resource p) (\<lambda>m. mem_get m (cp_tenant p) (cp_resource p) (cp_id p)) v w of
       (Inl e, v1, w1) \<Rightarrow> (Inl e, v1, w1)
     | (Inr x, v1, w1) \<Rightarrow>
         (case check_claims E lc p (cp_claims p) v1 w1 of
            (Inl e, v2, w2) \<Rightarrow> (Inl e, v2, w2)
          | (Inr u, v2, w2) \<Rightarrow> (Inr (), push_plan p v2, w2)))"

section \<open>Folding the staged plans\<close>

definition same_target :: "commit_plan \<Rightarrow> commit_plan \<Rightarrow> bool" where
  "same_target p q \<longleftrightarrow> cp_tenant p = cp_tenant q \<and> r_id (cp_resource p) = r_id (cp_resource q) \<and> cp_id p = cp_id q"

text \<open>A repeated write that may be folded without a validated read set.\<close>

definition foldable :: "commit_plan \<Rightarrow> commit_plan \<Rightarrow> bool" where
  "foldable f p \<longleftrightarrow> cp_kind p \<in> {PkUpdate, PkTransition} \<and> \<not> cp_hardDelete f \<and> cp_kind f \<noteq> PkDelete \<and> cp_kind f \<noteq> PkRestore \<and>
     dc_versioned (r_decorators (cp_resource p)) \<and>
     (case cp_expectedVersion p of None \<Rightarrow> oget (cp_after f) ''version'' = JNull | Some v \<Rightarrow> oget (cp_after f) ''version'' = JInt v) \<and>
     list_all (\<lambda>c. cc_before c = cc_after c) (cp_claims p) \<and> cp_interval f = None \<and> cp_interval p = None \<and>
     cp_tree f = None \<and> cp_tree p = None \<and>
     list_all (\<lambda>g. list_ex (\<lambda>h. rg_field h = rg_field g \<and> r_id (rg_resource h) = r_id (rg_resource g) \<and> rg_id h = rg_id g)
       (cp_references f)) (cp_references p)"

definition publish_of :: "commit_plan \<Rightarrow> commit_plan" where
  "publish_of p = p\<lparr>cp_kind := PkPublish, cp_claims := [], cp_references := [], cp_dependents := [], cp_hardDelete := False\<rparr>"

definition folded_claims :: "commit_plan \<Rightarrow> commit_plan \<Rightarrow> claim_change list" where
  "folded_claims f p = map (\<lambda>u. \<lparr>cc_unique = u,
     cc_before = (case cp_before f of None \<Rightarrow> None | Some b \<Rightarrow> claimKey (cp_resource p) u b),
     cc_after = (if cp_hardDelete p then None else claimKey (cp_resource p) u (cp_after p))\<rparr>) (r_uniques (cp_resource p))"

definition folded :: "commit_plan \<Rightarrow> commit_plan \<Rightarrow> commit_plan" where
  "folded f p = f\<lparr>cp_interval := None, cp_tree := None,
     cp_kind := (if cp_kind f = PkCreate then (if cp_hardDelete p then PkPublish else PkCreate) else cp_kind p),
     cp_after := cp_after p, cp_hardDelete := cp_hardDelete p, cp_claims := folded_claims f p,
     cp_references := cp_references p, cp_dependents := []\<rparr>"

definition lower_step :: "bool \<Rightarrow> commit_plan list \<Rightarrow> commit_plan \<Rightarrow> commit_plan list res" where
  "lower_step validated output p =
     (case find_index (\<lambda>q. same_target q p) output of
        None \<Rightarrow> Inr (output @ [p])
      | Some i \<Rightarrow>
          let f = output ! i in
          if \<not> validated
          then (if foldable f p then Inr (output[i := f\<lparr>cp_after := cp_after p\<rparr>] @ [publish_of p]) else Inl (err ''ValidationFailed''))
          else if cp_interval f \<noteq> None \<or> cp_interval p \<noteq> None \<or> cp_tree f \<noteq> None \<or> cp_tree p \<noteq> None
            then Inl (err ''ValidationFailed'')
          else if cp_hardDelete f \<or> cp_kind p = PkCreate then Inl (err ''ValidationFailed'')
          else Inr (output[i := folded f p] @ [publish_of (p\<lparr>cp_interval := None, cp_tree := None\<rparr>)]))"

fun lower_steps :: "bool \<Rightarrow> commit_plan list \<Rightarrow> commit_plan list \<Rightarrow> commit_plan list res" where
  "lower_steps validated output [] = Inr output"
| "lower_steps validated output (p # ps) =
     bind_res (lower_step validated output p) (\<lambda>output1. lower_steps validated output1 ps)"

section \<open>Ordering the folded plans\<close>

definition ref_fields_to :: "resource \<Rightarrow> string \<Rightarrow> string list" where
  "ref_fields_to r rid = map f_name (filter (\<lambda>f. ref_target f = Some rid) (r_fields r))"

text \<open>Whether \<open>other\<close> has to be written before \<open>p\<close>.\<close>

definition waits_for :: "commit_plan \<Rightarrow> commit_plan \<Rightarrow> bool" where
  "waits_for p other \<longleftrightarrow>
     (\<not> cp_hardDelete p \<and> cp_kind other = PkCreate \<and>
       list_ex (\<lambda>f. js_seq (oget (cp_after p) f) (JStr (cp_id other))) (ref_fields_to (cp_resource p) (r_id (cp_resource other)))) \<or>
     (cp_hardDelete p \<and>
       list_ex (\<lambda>f. (case cp_before other of None \<Rightarrow> False | Some b \<Rightarrow> js_seq (oget b f) (JStr (cp_id p))) \<and>
           (cp_hardDelete other \<or> \<not> js_seq (oget (cp_after other) f) (JStr (cp_id p))))
         (ref_fields_to (cp_resource other) (r_id (cp_resource p))))"

definition ready :: "commit_plan list \<Rightarrow> commit_plan list \<Rightarrow> commit_plan \<Rightarrow> bool" where
  "ready records completed p \<longleftrightarrow> cp_kind p = PkPublish \<or>
     list_all (\<lambda>other. same_target other p \<or> list_ex (same_target other) completed \<or> \<not> waits_for p other) records"

fun pick :: "('a \<Rightarrow> bool) \<Rightarrow> 'a list \<Rightarrow> ('a \<times> 'a list) option" where
  "pick P [] = None"
| "pick P (x # xs) = (if P x then Some (x, xs) else map_option (\<lambda>(y, ys). (y, x # ys)) (pick P xs))"

lemma pick_length: "pick P xs = Some (y, ys) \<Longrightarrow> length xs = Suc (length ys)"
  by (induction xs arbitrary: y ys) (auto split: if_splits)

function order_plans :: "commit_plan list \<Rightarrow> commit_plan list \<Rightarrow> commit_plan list \<Rightarrow> commit_plan list res" where
  "order_plans records completed pending =
     (if pending = [] then Inr []
      else case pick (ready records completed) pending of
          None \<Rightarrow> Inl (err ''ValidationFailed'')
        | Some (p, rest) \<Rightarrow>
            bind_res (order_plans records (if cp_kind p = PkPublish then completed else p # completed) rest)
              (\<lambda>ordered. Inr (p # ordered)))"
  by pat_completeness auto
termination by (relation "measure (\<lambda>(records, completed, pending). length pending)") (auto dest: pick_length)

declare order_plans.simps [simp del]

definition lowerTransaction :: "commit_plan list \<Rightarrow> bool \<Rightarrow> commit_plan list res" where
  "lowerTransaction plans validated =
     bind_res (lower_steps validated [] plans) (\<lambda>output.
       if validated then order_plans (filter (\<lambda>p. cp_kind p \<noteq> PkPublish) output) [] output else Inr output)"

section \<open>Bodies and their run\<close>

datatype 'a reader =
    RDone 'a
  | RFail exn
  | RRead string resource "memory \<Rightarrow> 'a reader"
  | RDoc string string string "obj option \<Rightarrow> 'a reader"

primrec run_reader :: "env \<Rightarrow> (string \<Rightarrow> string \<Rightarrow> int) \<Rightarrow> 'a reader \<Rightarrow> 'a tx_eff" where
  "run_reader E lc (RDone x) = (\<lambda>v w. (Inr x, v, w))"
| "run_reader E lc (RFail e) = (\<lambda>v w. (Inl e, v, w))"
| "run_reader E lc (RRead t r k) = (\<lambda>v w.
     (case touch E lc t r v w of
        (Inl e, w1) \<Rightarrow> (Inl e, v, w1)
      | (Inr v1, w1) \<Rightarrow> run_reader E lc (k (view_memory v1 t r)) v1 w1))"
| "run_reader E lc (RDoc t kind i k) = (\<lambda>v w.
     (case storage_read E (\<lambda>m. mem_getDocument m t kind i) w of
        (Inl e, w1) \<Rightarrow> (Inl e, v, w1)
      | (Inr d, w1) \<Rightarrow> run_reader E lc (k d) v w1))"

definition TX_READS :: "string list" where
  "TX_READS = [''get'', ''find'', ''list'']"

definition TX_KINDS :: "string list" where
  "TX_KINDS = TX_READS @ [''create'', ''update'', ''transition'', ''delete'', ''restore'']"

text \<open>The checks of a call before it runs.\<close>

definition tx_admit :: "env \<Rightarrow> commit_plan list \<Rightarrow> string \<Rightarrow> bool \<Rightarrow> unit res" where
  "tx_admit E plans opId mutation =
     (case model_operation (en_model E) opId of
        None \<Rightarrow> Inl (err ''MethodNotAllowed'')
      | Some (op, r) \<Rightarrow>
          if op_kind op \<notin> set TX_KINDS \<or> (op_kind op \<notin> set TX_READS) \<noteq> mutation then Inl (err ''MethodNotAllowed'')
          else if unsupported_fields r then Inl (err ''ValidationFailed'')
          else if 32 \<le> length plans \<and> mutation then Inl (err ''BudgetExceeded'')
          else Inr ())"

datatype 'a tx_body =
    TxRet 'a
  | TxFail exn
  | TxQuery string "obj reader" "obj res \<Rightarrow> 'a tx_body"
  | TxMutate string "(commit_plan \<times> obj) reader" "obj res \<Rightarrow> 'a tx_body"

definition tx_query :: "env \<Rightarrow> (string \<Rightarrow> string \<Rightarrow> int) \<Rightarrow> string \<Rightarrow> obj reader \<Rightarrow> obj tx_eff" where
  "tx_query E lc opId rd = (\<lambda>v w. case tx_admit E (vw_plans v) opId False of Inl e \<Rightarrow> (Inl e, v, w) | Inr u \<Rightarrow> run_reader E lc rd v w)"

definition tx_mutate :: "env \<Rightarrow> (string \<Rightarrow> string \<Rightarrow> int) \<Rightarrow> string \<Rightarrow> (commit_plan \<times> obj) reader \<Rightarrow> obj tx_eff" where
  "tx_mutate E lc opId rd = (\<lambda>v w. case tx_admit E (vw_plans v) opId True of
     Inl e \<Rightarrow> (Inl e, v, w)
   | Inr u \<Rightarrow> (case run_reader E lc rd v w of
         (Inl e, v1, w1) \<Rightarrow> (Inl e, v1, w1)
       | (Inr (p, x), v1, w1) \<Rightarrow> (case stage E lc p v1 w1 of
             (Inl e, v2, w2) \<Rightarrow> (Inl e, v2, w2)
           | (Inr u, v2, w2) \<Rightarrow> (Inr x, v2, w2))))"

primrec run_body :: "env \<Rightarrow> (string \<Rightarrow> string \<Rightarrow> int) \<Rightarrow> 'a tx_body \<Rightarrow> 'a tx_eff" where
  "run_body E lc (TxRet x) = (\<lambda>v w. (Inr x, v, w))"
| "run_body E lc (TxFail e) = (\<lambda>v w. (Inl e, v, w))"
| "run_body E lc (TxQuery opId rd k) = (\<lambda>v w. case tx_query E lc opId rd v w of (x, v1, w1) \<Rightarrow> run_body E lc (k x) v1 w1)"
| "run_body E lc (TxMutate opId rd k) = (\<lambda>v w. case tx_mutate E lc opId rd v w of (x, v1, w1) \<Rightarrow> run_body E lc (k x) v1 w1)"

section \<open>The transaction\<close>

definition tx_commit :: "env \<Rightarrow> view \<Rightarrow> unit eff" where
  "tx_commit E v =
     (if vw_plans v = [] \<and> vw_reads v = [] then eff_ret ()
      else eff_bind (eff_of (lowerTransaction (vw_plans v) True)) (\<lambda>plans.
        eff_bind (eff_guard (budget_actions plans 0 (length (vw_reads v)) \<le> MEMORY_BUDGET) (err ''BudgetExceeded'')) (\<lambda>_.
        storage_commit E (\<lambda>m. commitAll m plans [] (vw_reads v)))))"

definition transaction :: "env \<Rightarrow> (string \<Rightarrow> string \<Rightarrow> int) \<Rightarrow> 'a tx_body \<Rightarrow> call_context \<Rightarrow> 'a eff" where
  "transaction E lc body ctx =
     eff_bind (eff_guard (nonempty_opt (cx_idempotencyKey ctx) = None) (err ''ValidationFailed'')) (\<lambda>_ w.
       case run_body E lc body view_new w of
         (Inl e, v, w1) \<Rightarrow> (Inl e, w1)
       | (Inr x, v, w1) \<Rightarrow> eff_bind (tx_commit E v) (\<lambda>_. eff_ret x) w1)"

end
