(* ===== verification/Transaction_Correct.thy ===== *)
theory Transaction_Correct
  imports Transaction Engine_Correct
begin

text \<open>
  Transactions are serializable: what a committed body has read is what it would have read from the
  store at the moment of its commit, overlaid with its own staged plans. The abstract specification is
  a relation between a body and a single store; the view with its snapshots, revisions and read guards
  refines it.
\<close>

section \<open>The specification\<close>

text \<open>The paged scan of a store that does not change.\<close>

fun scan ::
    "nat \<Rightarrow> (string \<Rightarrow> string \<Rightarrow> int) \<Rightarrow> memory \<Rightarrow> string \<Rightarrow> resource \<Rightarrow> string option
      \<Rightarrow> (string \<times> stored_record) list \<Rightarrow> (string \<times> stored_record) list option" where
  "scan 0 lc m t r cursor recs = None"
| "scan (Suc n) lc m t r cursor recs =
     (let (rows, nxt) = mem_exportPage lc m t r cursor EXPORT_PAGE; recs1 = put_rows recs rows
      in if n = 0 \<or> length recs1 > SNAPSHOT_ROWS then None
         else case nxt of None \<Rightarrow> Some recs1 | Some c \<Rightarrow> scan n lc m t r (Some c) recs1)"

definition base_rows :: "(string \<Rightarrow> string \<Rightarrow> int) \<Rightarrow> memory \<Rightarrow> string \<Rightarrow> resource \<Rightarrow> (string \<times> stored_record) list" where
  "base_rows lc m t r = (case scan (Suc SNAPSHOT_PAGES) lc m t r None [] of None \<Rightarrow> [] | Some recs \<Rightarrow> recs)"

definition overlay :: "(string \<Rightarrow> string \<Rightarrow> int) \<Rightarrow> memory \<Rightarrow> commit_plan list \<Rightarrow> string \<Rightarrow> resource \<Rightarrow> (string \<times> stored_record) list" where
  "overlay lc m ps t r = foldl stage_row (base_rows lc m t r) (staged_on (t, r_id r) ps)"

definition spec_memory :: "(string \<Rightarrow> string \<Rightarrow> int) \<Rightarrow> memory \<Rightarrow> commit_plan list \<Rightarrow> string \<Rightarrow> resource \<Rightarrow> memory" where
  "spec_memory lc m ps t r = mem_snapshot t r (map snd (overlay lc m ps t r))"

text \<open>A read sees the overlaid store, or fails for its budget; documents are whatever they are.\<close>

inductive read_spec :: "(string \<Rightarrow> string \<Rightarrow> int) \<Rightarrow> memory \<Rightarrow> commit_plan list \<Rightarrow> 'a reader \<Rightarrow> 'a res \<Rightarrow> bool"
  for lc m ps where
  finished: "read_spec lc m ps (RDone x) (Inr x)"
| failed: "read_spec lc m ps (RFail e) (Inl e)"
| reading: "read_spec lc m ps (k (spec_memory lc m ps t r)) res \<Longrightarrow> read_spec lc m ps (RRead t r k) res"
| budget: "read_spec lc m ps (RRead t r k) (Inl (err ''BudgetExceeded''))"
| document: "read_spec lc m ps (k d) res \<Longrightarrow> read_spec lc m ps (RDoc t kind i k) res"

definition claim_free :: "(string \<Rightarrow> string \<Rightarrow> int) \<Rightarrow> memory \<Rightarrow> commit_plan list \<Rightarrow> commit_plan \<Rightarrow> claim_change \<Rightarrow> bool" where
  "claim_free lc m ps p c = (case cc_after c of None \<Rightarrow> True
     | Some a \<Rightarrow> a = [] \<or> cc_before c = Some a \<or>
         \<not> held_by_other p (mem_findUnique (spec_memory lc m ps (cp_tenant p) (cp_resource p)) (cp_tenant p) (cp_resource p) a))"

definition stage_spec :: "(string \<Rightarrow> string \<Rightarrow> int) \<Rightarrow> memory \<Rightarrow> commit_plan list \<Rightarrow> commit_plan \<Rightarrow> unit res \<Rightarrow> bool" where
  "stage_spec lc m ps p res = (case res of
     Inr u \<Rightarrow> list_all (claim_free lc m ps p) (cp_claims p)
   | Inl e \<Rightarrow> e = err ''BudgetExceeded'' \<or> e = err ''UniqueConflict'' \<and> \<not> list_all (claim_free lc m ps p) (cp_claims p))"

inductive body_spec ::
    "env \<Rightarrow> (string \<Rightarrow> string \<Rightarrow> int) \<Rightarrow> memory \<Rightarrow> 'a tx_body \<Rightarrow> commit_plan list \<Rightarrow> 'a res \<Rightarrow> commit_plan list \<Rightarrow> bool"
  for E lc m where
  ret: "body_spec E lc m (TxRet x) ps (Inr x) ps"
| failed: "body_spec E lc m (TxFail e) ps (Inl e) ps"
| query_refused: "tx_admit E ps opId False = Inl e \<Longrightarrow> body_spec E lc m (k (Inl e)) ps res qs \<Longrightarrow>
    body_spec E lc m (TxQuery opId rd k) ps res qs"
| query: "tx_admit E ps opId False = Inr () \<Longrightarrow> read_spec lc m ps rd x \<Longrightarrow> body_spec E lc m (k x) ps res qs \<Longrightarrow>
    body_spec E lc m (TxQuery opId rd k) ps res qs"
| mutate_refused: "tx_admit E ps opId True = Inl e \<Longrightarrow> body_spec E lc m (k (Inl e)) ps res qs \<Longrightarrow>
    body_spec E lc m (TxMutate opId rd k) ps res qs"
| mutate_failed: "tx_admit E ps opId True = Inr () \<Longrightarrow> read_spec lc m ps rd (Inl e) \<Longrightarrow> body_spec E lc m (k (Inl e)) ps res qs \<Longrightarrow>
    body_spec E lc m (TxMutate opId rd k) ps res qs"
| mutate_unstaged: "tx_admit E ps opId True = Inr () \<Longrightarrow> read_spec lc m ps rd (Inr (p, x)) \<Longrightarrow> stage_spec lc m ps p (Inl e) \<Longrightarrow>
    body_spec E lc m (k (Inl e)) ps res qs \<Longrightarrow> body_spec E lc m (TxMutate opId rd k) ps res qs"
| mutate: "tx_admit E ps opId True = Inr () \<Longrightarrow> read_spec lc m ps rd (Inr (p, x)) \<Longrightarrow> stage_spec lc m ps p (Inr ()) \<Longrightarrow>
    body_spec E lc m (k (Inr x)) (ps @ [p]) res qs \<Longrightarrow> body_spec E lc m (TxMutate opId rd k) ps res qs"

section \<open>What other callers keep\<close>

definition resource_version :: "memory \<Rightarrow> string \<Rightarrow> resource \<Rightarrow> nat option" where
  "resource_version m t r = doc_version (me_documents m) (key3 (revision_tenant t r) RESOURCE_REVISION (r_id r))"

definition rev_le :: "nat option \<Rightarrow> nat option \<Rightarrow> bool" where
  "rev_le a b = (case a of None \<Rightarrow> True | Some x \<Rightarrow> (case b of None \<Rightarrow> False | Some y \<Rightarrow> x \<le> y))"

text \<open>Revisions never fall, and a table whose revision is the same is the same.\<close>

definition rev_step :: "(string \<times> resource) set \<Rightarrow> memory \<Rightarrow> memory \<Rightarrow> bool" where
  "rev_step D m m' \<longleftrightarrow> (\<forall>(t, r)\<in>D. rev_le (resource_version m t r) (resource_version m' t r) \<and>
     (resource_version m t r = resource_version m' t r \<longrightarrow> mem_table m t r = mem_table m' t r))"

lemma rev_le_refl [simp]: "rev_le a a"
  by (simp add: rev_le_def split: option.splits)

lemma rev_le_trans: "rev_le a b \<Longrightarrow> rev_le b c \<Longrightarrow> rev_le a c"
  by (auto simp: rev_le_def split: option.splits)

lemma rev_le_antisym: "rev_le a b \<Longrightarrow> rev_le b a \<Longrightarrow> a = b"
  by (auto simp: rev_le_def split: option.splits)

lemma rev_step_refl [simp]: "rev_step D m m"
  by (auto simp: rev_step_def)

lemma rev_step_trans:
  assumes "rev_step D a b" "rev_step D b c"
  shows "rev_step D a c"
  unfolding rev_step_def
proof (intro ballI, clarify)
  fix t r assume "(t, r) \<in> D"
  with assms have l: "rev_le (resource_version a t r) (resource_version b t r)" "rev_le (resource_version b t r) (resource_version c t r)"
    and e: "resource_version a t r = resource_version b t r \<Longrightarrow> mem_table a t r = mem_table b t r"
      "resource_version b t r = resource_version c t r \<Longrightarrow> mem_table b t r = mem_table c t r"
    by (auto simp: rev_step_def)
  have "mem_table a t r = mem_table c t r" if "resource_version a t r = resource_version c t r"
    using l e that rev_le_antisym by metis
  with rev_le_trans [OF l] show "rev_le (resource_version a t r) (resource_version c t r) \<and>
    (resource_version a t r = resource_version c t r \<longrightarrow> mem_table a t r = mem_table c t r)" by blast
qed

lemma rev_step_between:
  assumes "rev_step D a b" "rev_step D b c" "(t, r) \<in> D" "resource_version a t r = resource_version c t r"
  shows "resource_version b t r = resource_version c t r" "mem_table b t r = mem_table c t r"
proof -
  show v: "resource_version b t r = resource_version c t r"
    using assms rev_le_antisym unfolding rev_step_def by (metis (no_types, lifting) case_prodD)
  with assms(2,3) show "mem_table b t r = mem_table c t r" unfolding rev_step_def by blast
qed

text \<open>A commit is such a step, for the resources of the model under tenants without a bar.\<close>

lemma commit_rev_step:
  assumes "mem_commit m p = (None, m')" "cp_kind p \<noteq> PkPublish" and comp: "cp_completion p = None"
    and D: "\<And>t r. (t, r) \<in> D \<Longrightarrow> plain_text t" "plain_text (cp_tenant p)"
      "\<And>t r. (t, r) \<in> D \<Longrightarrow> r_id r = r_id (cp_resource p) \<Longrightarrow> r = cp_resource p"
  shows "rev_step D m m'"
proof -
  obtain m1 where m1: "completion_step m p = Inr m1" "m' = commit_apply m1 p"
    using assms(1) by (auto simp: mem_commit_ok commitSync_ok)
  have m: "m1 = m" using m1(1) comp by (simp add: completion_step_def)
  have docs: "me_documents m' = mput (revision_key p)
      ((case doc_version (me_documents m) (revision_key p) of None \<Rightarrow> 0 | Some v \<Rightarrow> v) + 1, []) (me_documents m)"
    using assms(2) by (simp add: m1(2) m commit_apply_def apply_common_def apply_record_def Let_def)
  show "rev_step D m m'"
    unfolding rev_step_def
  proof (intro ballI, clarify)
    fix t r assume tr: "(t, r) \<in> D"
    let ?k = "key3 (revision_tenant t r) RESOURCE_REVISION (r_id r)"
    have v: "resource_version m' t r = (if ?k = revision_key p
        then Some ((case doc_version (me_documents m) (revision_key p) of None \<Rightarrow> 0 | Some v \<Rightarrow> v) + 1) else resource_version m t r)"
      by (simp add: resource_version_def docs doc_version_def)
    have "mem_table m t r = mem_table m' t r" if "resource_version m t r = resource_version m' t r"
    proof -
      have "?k \<noteq> revision_key p"
        using that v by (auto simp: resource_version_def split: option.splits)
      then have "\<not> (t = cp_tenant p \<and> r_id r = r_id (cp_resource p))"
        using D(3) [OF tr] by (auto simp: revision_key_def revision_tenant_def)
      then have "key2 t (r_id r) \<noteq> key2 (cp_tenant p) (r_id (cp_resource p))"
        using key2_inj [OF D(1) [OF tr] D(2)] by blast
      then show ?thesis by (simp add: m1(2) m mem_table_apply)
    qed
    moreover have "rev_le (resource_version m t r) (resource_version m' t r)"
      unfolding v by (auto simp: resource_version_def [of m t r] rev_le_def split: option.splits)
    ultimately show "rev_le (resource_version m t r) (resource_version m' t r) \<and>
      (resource_version m t r = resource_version m' t r \<longrightarrow> mem_table m t r = mem_table m' t r)" by blast
  qed
qed

section \<open>The view refines the specification\<close>

lemma reading_rev:
  assumes "reading E w w'" "\<And>n m. rev_step D m (en_others E n m)"
  shows "rev_step D (wo_store w) (wo_store w')"
  using assms(1) unfolding reading_def
  by (induction rule: rtranclp_induct) (auto simp: others_act_def intro: rev_step_trans assms(2))

lemma export_cong: "mem_table m t r = mem_table m' t r \<Longrightarrow> mem_exportPage lc m t r c n = mem_exportPage lc m' t r c n"
  by (simp add: mem_exportPage_def)

lemma scan_cong: "mem_table m t r = mem_table m' t r' \<Longrightarrow> scan n lc m t r c recs = scan n lc m' t r' c recs"
  by (induction n arbitrary: c recs) (simp_all add: mem_exportPage_def Let_def split: option.splits)

lemma keeps_export_rows [keeps_intros]: "keeps (reading E) (export_rows n E lc t r c recs)"
proof (induction n arbitrary: c recs)
  case (Suc n)
  show ?case unfolding export_rows.simps Let_def by (intro keeps_intros Suc.IH)
qed (simp add: keeps_intros)

lemma keeps_touch [keeps_intros]: "keeps (reading E) (touch E lc t r v)"
  unfolding touch_def Let_def by (intro keeps_intros)

text \<open>A scan over a changing store whose revision is unchanged in the end is the scan of the last store.\<close>

lemma export_rows_scan:
  assumes "\<And>n m. rev_step D m (en_others E n m)" "(t, r) \<in> D"
    and "export_rows n E lc t r c recs w = (Inr out, w')" "rev_step D (wo_store w') m"
    and "resource_version (wo_store w) t r = resource_version m t r"
  shows "scan n lc m t r c recs = Some out"
  using assms(3,5)
proof (induction n arbitrary: c recs w)
  case 0
  then show ?case by (simp add: eff_simps)
next
  case (Suc n)
  let ?w1 = "w\<lparr>wo_store := world_now E w, wo_tick := wo_tick w + 1\<rparr>"
  have keeps: "rev_step D (wo_store u) (wo_store w')" if "export_rows k E lc t r c' recs' u = (Inr out, w')" for k c' recs' u
    by (rule reading_rev [OF reading.keepsD [OF keeps_export_rows that] assms(1)])
  have now: "rev_step D (wo_store w) (world_now E w)" by (simp add: world_now_def assms(1))
  have w': "rev_step D (world_now E w) (wo_store w')"
    using Suc.prems(1) keeps [of n _ _ ?w1] by (auto simp: eff_simps Let_def split: prod.splits option.splits if_splits)
  note b = rev_step_between [OF now rev_step_trans [OF w' assms(4)] assms(2) Suc.prems(2)]
  obtain rows nxt where page: "mem_exportPage lc (world_now E w) t r c EXPORT_PAGE = (rows, nxt)" by (meson surj_pair)
  then have page': "mem_exportPage lc m t r c EXPORT_PAGE = (rows, nxt)" using export_cong [OF b(2)] by simp
  have rest: "\<not> (n = 0 \<or> length (put_rows recs rows) > SNAPSHOT_ROWS)"
    "(case nxt of None \<Rightarrow> eff_ret (put_rows recs rows) | Some c' \<Rightarrow> export_rows n E lc t r (Some c') (put_rows recs rows)) ?w1 = (Inr out, w')"
    using Suc.prems(1) page by (auto simp: eff_simps Let_def split: if_splits)
  show ?case
  proof (cases nxt)
    case None
    with rest page' show ?thesis by (simp add: eff_simps)
  next
    case (Some c')
    have "scan n lc m t r (Some c') (put_rows recs rows) = Some out"
      using Suc.IH [of "Some c'" "put_rows recs rows" ?w1] rest(2) Some b(1) by simp
    with rest(1) page' Some show ?thesis by simp
  qed
qed

definition guards_hold :: "memory \<Rightarrow> view \<Rightarrow> bool" where
  "guards_hold m v \<longleftrightarrow> list_all (read_guard_ok m) (vw_reads v)"

definition view_ok :: "(string \<times> resource) set \<Rightarrow> (string \<Rightarrow> string \<Rightarrow> int) \<Rightarrow> memory \<Rightarrow> view \<Rightarrow> bool" where
  "view_ok D lc m v \<longleftrightarrow> (\<forall>(t, r)\<in>D. \<forall>recs. map_of (vw_snapshots v) (t, r_id r) = Some recs \<longrightarrow> recs = overlay lc m (vw_plans v) t r)"

text \<open>What every step of the view keeps, whatever it returns.\<close>

definition extends :: "env \<Rightarrow> view \<times> world \<Rightarrow> view \<times> world \<Rightarrow> bool" where
  "extends E x y \<longleftrightarrow> reading E (snd x) (snd y) \<and> set (vw_reads (fst x)) \<subseteq> set (vw_reads (fst y)) \<and>
     (\<exists>ps. vw_plans (fst y) = vw_plans (fst x) @ ps)"

lemma extends_refl [simp]: "extends E x x"
  by (simp add: extends_def)

lemma extends_trans: "extends E x y \<Longrightarrow> extends E y z \<Longrightarrow> extends E x z"
  unfolding extends_def by (metis append_assoc order_trans reading.trans)

lemma extends_guards: "extends E (v, w) (v', w') \<Longrightarrow> guards_hold m v' \<Longrightarrow> guards_hold m v"
  by (auto simp: extends_def guards_hold_def list_all_iff)

lemma touch_extends: "touch E lc t r v w = (Inr v1, w1) \<Longrightarrow> extends E (v, w) (v1, w1) \<and> vw_plans v1 = vw_plans v"
  using reading.keepsD [OF keeps_touch, of E lc t r v w "Inr v1" w1]
  by (auto simp: extends_def touch_def Let_def eff_simps split: if_splits)

lemma export_rows_Inl: "export_rows n E lc t r c recs w = (Inl e, w') \<Longrightarrow> e = err ''BudgetExceeded''"
proof (induction n arbitrary: c recs w)
  case (Suc n)
  then show ?case
    by (auto simp: eff_bind_Inl_iff storage_read_def storage_def eff_fail_def eff_ret_def Let_def split: prod.splits if_splits option.splits)
qed (simp add: eff_fail_def)

lemma touch_Inl: "touch E lc t r v w = (Inl e, w1) \<Longrightarrow> e = err ''BudgetExceeded'' \<and> reading E w w1"
proof
  assume t: "touch E lc t r v w = (Inl e, w1)"
  show "reading E w w1" by (rule reading.keepsD [OF keeps_touch t])
  show "e = err ''BudgetExceeded''"
    using t by (auto simp: touch_def Let_def eff_bind_Inl_iff storage_read_def storage_def eff_guard_def eff_of_def guard_res_def eff_ret_def
      simp del: export_rows.simps split: prod.splits if_splits dest: export_rows_Inl)
qed

lemma touch_view:
  assumes "\<And>n m. rev_step D m (en_others E n m)" "(t, r) \<in> D" "touch E lc t r v w = (Inr v1, w1)"
    and "view_ok D lc m v" "rev_step D (wo_store w1) m" "guards_hold m v1"
  shows "view_ok D lc m v1" "view_memory v1 t r = spec_memory lc m (vw_plans v) t r" "mhas (t, r_id r) (vw_snapshots v1)"
proof -
  have new: "view_ok D lc m v1 \<and> map_of (vw_snapshots v1) (t, r_id r) = Some (overlay lc m (vw_plans v) t r)"
  proof (cases "mhas (t, r_id r) (vw_snapshots v)")
    case True
    then have "v1 = v" using assms(3) by (auto simp: touch_def eff_simps)
    with True assms(2,4) show ?thesis by (auto simp: mhas_iff view_ok_def)
  next
    case False
    let ?w1 = "w\<lparr>wo_store := world_now E w, wo_tick := wo_tick w + 1\<rparr>"
    obtain recs where x: "export_rows (Suc SNAPSHOT_PAGES) E lc t r None [] ?w1 = (Inr recs, w1)"
      and v1: "v1 = v\<lparr>vw_reads := vw_reads v @ [\<lparr>rd_tenant = revision_tenant t r, rd_resource = r,
          rd_revision = resource_version (world_now E w) t r\<rparr>],
        vw_snapshots := mput (t, r_id r) (foldl stage_row recs (staged_on (t, r_id r) (vw_plans v))) (vw_snapshots v)\<rparr>"
      using assms(3) False
      by (auto simp: touch_def Let_def eff_simps doc_expected_read resource_version_def doc_version_def getDocument_def simp del: export_rows.simps)
    have "resource_version (world_now E w) t r = resource_version m t r"
      using assms(6) by (simp add: v1 guards_hold_def read_guard_ok_def resource_version_def)
    then have "scan (Suc SNAPSHOT_PAGES) lc m t r None [] = Some recs"
      using export_rows_scan [OF assms(1,2) x assms(5)] by simp
    then have base: "recs = base_rows lc m t r" by (simp add: base_rows_def)
    have same: "base_rows lc m t r' = base_rows lc m t r" if "r_id r' = r_id r" for r'
      using scan_cong [of m t r' m r] that by (simp add: base_rows_def mem_table_def)
    have o': "foldl stage_row recs (staged_on (t, r_id r) (vw_plans v)) = overlay lc m (vw_plans v) t r'" if "r_id r' = r_id r" for r'
      using same [OF that] that by (simp add: overlay_def base)
    have "view_ok D lc m v1"
      unfolding view_ok_def
    proof (intro ballI, clarify)
      fix t' r' recs' assume "(t', r') \<in> D" "map_of (vw_snapshots v1) (t', r_id r') = Some recs'"
      then show "recs' = overlay lc m (vw_plans v1) t' r'"
        using assms(4) o' [of r'] by (cases "(t', r_id r') = (t, r_id r)") (auto simp: v1 view_ok_def)
    qed
    with o' [of r] show ?thesis by (simp add: v1)
  qed
  then show "view_ok D lc m v1" "mhas (t, r_id r) (vw_snapshots v1)" by (simp_all add: mhas_iff)
  from new show "view_memory v1 t r = spec_memory lc m (vw_plans v) t r" by (simp add: view_memory_def spec_memory_def)
qed

text \<open>The resources a program reads, and a property of what it returns.\<close>

primrec reads_in :: "(string \<times> resource) set \<Rightarrow> ('a \<Rightarrow> bool) \<Rightarrow> 'a reader \<Rightarrow> bool" where
  "reads_in D Q (RDone x) = Q x"
| "reads_in D Q (RFail e) = True"
| "reads_in D Q (RRead t r k) = ((t, r) \<in> D \<and> (\<forall>m. reads_in D Q (k m)))"
| "reads_in D Q (RDoc t kind i k) = (\<forall>d. reads_in D Q (k d))"

primrec body_in :: "(string \<times> resource) set \<Rightarrow> 'a tx_body \<Rightarrow> bool" where
  "body_in D (TxRet x) = True"
| "body_in D (TxFail e) = True"
| "body_in D (TxQuery opId rd k) = (reads_in D (\<lambda>_. True) rd \<and> (\<forall>x. body_in D (k x)))"
| "body_in D (TxMutate opId rd k) = (reads_in D (\<lambda>(p, x). (cp_tenant p, cp_resource p) \<in> D) rd \<and> (\<forall>x. body_in D (k x)))"

lemma run_reader_extends:
  "run_reader E lc rd v w = (res, v', w') \<Longrightarrow> extends E (v, w) (v', w') \<and> vw_plans v' = vw_plans v"
proof (induction rd arbitrary: v w)
  case (RRead t r k)
  obtain q w1 where q: "touch E lc t r v w = (q, w1)" by (meson surj_pair)
  show ?case
  proof (cases q)
    case (Inl e)
    with q RRead.prems touch_Inl [of E lc t r v w e w1] show ?thesis by (auto simp: extends_def)
  next
    case (Inr v1)
    with q have t: "touch E lc t r v w = (Inr v1, w1)" by simp
    have "run_reader E lc (k (view_memory v1 t r)) v1 w1 = (res, v', w')" using RRead.prems t by simp
    from RRead.IH [OF _ this] touch_extends [OF t] extends_trans show ?thesis by (metis rangeI)
  qed
next
  case (RDoc t kind i k)
  let ?w1 = "w\<lparr>wo_store := world_now E w, wo_tick := wo_tick w + 1\<rparr>"
  let ?d = "mem_getDocument (world_now E w) t kind i"
  have "run_reader E lc (k ?d) v ?w1 = (res, v', w')"
    using RDoc.prems by (simp add: storage_read_def storage_def world_now_def Let_def)
  from RDoc.IH [OF _ this] have "extends E (v, ?w1) (v', w')" "vw_plans v' = vw_plans v" by auto
  moreover have "extends E (v, w) (v, ?w1)"
    by (simp add: extends_def reading_def world_now_def)
  ultimately show ?case using extends_trans by blast
qed auto

lemma extends_step: "extends E (v, w) (v', w') \<Longrightarrow> (\<And>n m. rev_step D m (en_others E n m)) \<Longrightarrow> rev_step D (wo_store w') m \<Longrightarrow> rev_step D (wo_store w) m"
  unfolding extends_def using reading_rev rev_step_trans by (metis snd_conv)

lemma run_reader_spec:
  assumes "\<And>n m. rev_step D m (en_others E n m)"
    and "run_reader E lc rd v w = (res, v', w')" "reads_in D Q rd" "view_ok D lc m v" "rev_step D (wo_store w') m" "guards_hold m v'"
  shows "read_spec lc m (vw_plans v) rd res \<and> view_ok D lc m v' \<and> (\<forall>x. res = Inr x \<longrightarrow> Q x)"
  using assms(2-)
proof (induction rd arbitrary: v w)
  case (RDone x)
  then show ?case by (auto intro: read_spec.intros)
next
  case (RFail e)
  then show ?case by (auto intro: read_spec.intros)
next
  case (RRead t r k)
  obtain q w1 where q: "touch E lc t r v w = (q, w1)" by (meson surj_pair)
  show ?case
  proof (cases q)
    case (Inl e)
    with q RRead.prems touch_Inl [of E lc t r v w e w1] show ?thesis by (auto intro: read_spec.intros)
  next
    case (Inr v1)
    with q have t: "touch E lc t r v w = (Inr v1, w1)" by simp
    have run: "run_reader E lc (k (view_memory v1 t r)) v1 w1 = (res, v', w')" using RRead.prems(1) t by simp
    have x: "extends E (v1, w1) (v', w')" using run_reader_extends [OF run] by blast
    have D: "(t, r) \<in> D" and k: "reads_in D Q (k (view_memory v1 t r))" using RRead.prems(2) by auto
    have g: "guards_hold m v1" by (rule extends_guards [OF x RRead.prems(5)])
    have s: "rev_step D (wo_store w1) m" by (rule extends_step [OF x assms(1) RRead.prems(4)])
    note tv = touch_view [OF assms(1) D t RRead.prems(3) s g]
    have pl: "vw_plans v1 = vw_plans v" using touch_extends [OF t] by blast
    have "read_spec lc m (vw_plans v1) (k (view_memory v1 t r)) res \<and> view_ok D lc m v' \<and> (\<forall>x. res = Inr x \<longrightarrow> Q x)"
      using RRead.IH [OF _ run k tv(1) RRead.prems(4,5)] by blast
    then show ?thesis unfolding pl tv(2) by (auto intro: read_spec.reading)
  qed
next
  case (RDoc t kind i k)
  let ?w1 = "w\<lparr>wo_store := world_now E w, wo_tick := wo_tick w + 1\<rparr>"
  let ?d = "mem_getDocument (world_now E w) t kind i"
  have run: "run_reader E lc (k ?d) v ?w1 = (res, v', w')"
    using RDoc.prems(1) by (simp add: storage_read_def storage_def world_now_def Let_def)
  have k: "reads_in D Q (k ?d)" using RDoc.prems(2) by simp
  from RDoc.IH [OF _ run k RDoc.prems(3-5)] show ?case by (auto intro: read_spec.document)
qed

lemma view_read_reader: "view_read E lc t r f = run_reader E lc (RRead t r (\<lambda>m. RDone (f m)))"
  by (auto simp: view_read_def fun_eq_iff split: prod.splits sum.splits)

inductive_simps read_spec_simps: "read_spec lc m ps (RDone x) res" "read_spec lc m ps (RRead t r k) res"

lemma view_read_extends: "view_read E lc t r f v w = (res, v', w') \<Longrightarrow> extends E (v, w) (v', w') \<and> vw_plans v' = vw_plans v"
  unfolding view_read_reader by (rule run_reader_extends)

lemma view_read_spec:
  assumes "\<And>n m. rev_step D m (en_others E n m)" "(t, r) \<in> D"
    and "view_read E lc t r f v w = (res, v', w')" "view_ok D lc m v" "rev_step D (wo_store w') m" "guards_hold m v'"
  shows "(res = Inl (err ''BudgetExceeded'') \<or> res = Inr (f (spec_memory lc m (vw_plans v) t r))) \<and> view_ok D lc m v'"
  using run_reader_spec [OF assms(1) assms(3) [unfolded view_read_reader] _ assms(4-6), of "\<lambda>_. True"] assms(2)
  by (auto simp: read_spec_simps)

lemma check_claims_extends:
  "check_claims E lc p cs v w = (res, v', w') \<Longrightarrow> extends E (v, w) (v', w') \<and> vw_plans v' = vw_plans v"
proof (induction cs arbitrary: v w)
  case (Cons c cs)
  show ?case
  proof (cases "\<exists>a. cc_after c = Some a \<and> a \<noteq> [] \<and> cc_before c \<noteq> Some a")
    case False
    then have "check_claims E lc p cs v w = (res, v', w')" using Cons.prems by (auto split: option.splits if_splits)
    then show ?thesis by (rule Cons.IH)
  next
    case True
    then obtain a where a: "cc_after c = Some a" "a \<noteq> []" "cc_before c \<noteq> Some a" by blast
    obtain q v1 w1 where q: "view_read E lc (cp_tenant p) (cp_resource p)
        (\<lambda>m. mem_findUnique m (cp_tenant p) (cp_resource p) a) v w = (q, v1, w1)" by (metis prod_cases3)
    note x = view_read_extends [OF q]
    show ?thesis
    proof (cases "\<exists>h. q = Inr h \<and> \<not> held_by_other p h")
      case True
      then have "check_claims E lc p cs v1 w1 = (res, v', w')" using Cons.prems a q by auto
      from Cons.IH [OF this] x extends_trans show ?thesis by metis
    next
      case False
      then have "v' = v1" "w' = w1" using Cons.prems a q by (auto split: sum.splits if_splits)
      with x show ?thesis by simp
    qed
  qed
qed simp

lemma check_claims_spec:
  assumes "\<And>n m. rev_step D m (en_others E n m)" "(cp_tenant p, cp_resource p) \<in> D"
    and "check_claims E lc p cs v w = (res, v', w')" "view_ok D lc m v" "rev_step D (wo_store w') m" "guards_hold m v'"
  shows "view_ok D lc m v' \<and> (case res of Inr u \<Rightarrow> list_all (claim_free lc m (vw_plans v) p) cs
     | Inl e \<Rightarrow> e = err ''BudgetExceeded'' \<or> e = err ''UniqueConflict'' \<and> \<not> list_all (claim_free lc m (vw_plans v) p) cs)"
  using assms(3-)
proof (induction cs arbitrary: v w)
  case (Cons c cs)
  show ?case
  proof (cases "\<exists>a. cc_after c = Some a \<and> a \<noteq> [] \<and> cc_before c \<noteq> Some a")
    case False
    then have run: "check_claims E lc p cs v w = (res, v', w')" and "claim_free lc m (vw_plans v) p c"
      using Cons.prems(1) by (auto simp: claim_free_def split: option.splits if_splits)
    with Cons.IH [OF run Cons.prems(2-4)] show ?thesis by (auto split: sum.splits)
  next
    case True
    then obtain a where a: "cc_after c = Some a" "a \<noteq> []" "cc_before c \<noteq> Some a" by blast
    let ?f = "\<lambda>m. mem_findUnique m (cp_tenant p) (cp_resource p) a"
    obtain q v1 w1 where q: "view_read E lc (cp_tenant p) (cp_resource p) ?f v w = (q, v1, w1)" by (metis prod_cases3)
    have pl: "vw_plans v1 = vw_plans v" using view_read_extends [OF q] by blast
    have free: "claim_free lc m (vw_plans v) p c \<longleftrightarrow>
        \<not> held_by_other p (?f (spec_memory lc m (vw_plans v) (cp_tenant p) (cp_resource p)))"
      using a by (auto simp: claim_free_def)
    show ?thesis
    proof (cases "\<exists>h. q = Inr h \<and> \<not> held_by_other p h")
      case True
      then have run: "check_claims E lc p cs v1 w1 = (res, v', w')" using Cons.prems(1) a q by auto
      have x: "extends E (v1, w1) (v', w')" using check_claims_extends [OF run] by blast
      note vr = view_read_spec [OF assms(1,2) q Cons.prems(2) extends_step [OF x assms(1) Cons.prems(3)] extends_guards [OF x Cons.prems(4)]]
      have "view_ok D lc m v1" using vr by blast
      from Cons.IH [OF run this Cons.prems(3,4)] vr free True pl show ?thesis by (auto split: sum.splits)
    next
      case False
      then have r: "v' = v1" "w' = w1" "res = (case q of Inl e \<Rightarrow> Inl e | Inr h \<Rightarrow> Inl (err ''UniqueConflict''))"
        using Cons.prems(1) a q by (auto split: sum.splits if_splits)
      note vr = view_read_spec [OF assms(1,2) q Cons.prems(2) Cons.prems(3,4) [unfolded r(1,2)]]
      with r free False show ?thesis by (auto split: sum.splits)
    qed
  qed
qed auto

lemma push_view:
  assumes "view_ok D lc m v" "mhas (cp_tenant p, r_id (cp_resource p)) (vw_snapshots v)"
  shows "view_ok D lc m (push_plan p v)" "vw_plans (push_plan p v) = vw_plans v @ [p]" "vw_reads (push_plan p v) = vw_reads v"
proof -
  let ?k = "(cp_tenant p, r_id (cp_resource p))"
  obtain recs0 where recs0: "map_of (vw_snapshots v) ?k = Some recs0" using assms(2) by (auto simp: mhas_iff)
  show "view_ok D lc m (push_plan p v)"
    unfolding view_ok_def
  proof (intro ballI, clarify)
    fix t r recs assume D: "(t, r) \<in> D" and recs: "map_of (vw_snapshots (push_plan p v)) (t, r_id r) = Some recs"
    show "recs = overlay lc m (vw_plans (push_plan p v)) t r"
    proof (cases "(t, r_id r) = ?k")
      case True
      then have "recs0 = overlay lc m (vw_plans v) t r" "recs = stage_row recs0 p"
        using assms(1) D recs0 recs by (auto simp: view_ok_def push_plan_def Let_def)
      with True show ?thesis by (simp add: overlay_def push_plan_def Let_def staged_on_def)
    next
      case False
      then have "recs = overlay lc m (vw_plans v) t r"
        using assms(1) D recs by (auto simp: view_ok_def push_plan_def Let_def split: if_splits)
      with False show ?thesis by (auto simp: overlay_def push_plan_def Let_def staged_on_def)
    qed
  qed
qed (simp_all add: push_plan_def Let_def)

lemma touched_stays:
  "view_read E lc t r f v w = (res, v', w') \<Longrightarrow> mhas k (vw_snapshots v) \<Longrightarrow> mhas k (vw_snapshots v')"
  by (auto simp: view_read_def touch_def Let_def eff_simps mhas_iff split: prod.splits sum.splits if_splits)

lemma claims_touched:
  "check_claims E lc p cs v w = (res, v', w') \<Longrightarrow> mhas k (vw_snapshots v) \<Longrightarrow> mhas k (vw_snapshots v')"
proof (induction cs arbitrary: v w)
  case (Cons c cs)
  then show ?case
    by (auto split: option.splits if_splits prod.splits sum.splits dest: touched_stays)
qed simp

lemma view_read_touched:
  "view_read E lc t r f v w = (Inr x, v', w') \<Longrightarrow> mhas (t, r_id r) (vw_snapshots v')"
  by (auto simp: view_read_def touch_def Let_def eff_simps mhas_iff split: prod.splits sum.splits if_splits)

lemma stage_run:
  assumes "stage E lc p v w = (res, v', w')"
  obtains (unread) e where "view_read E lc (cp_tenant p) (cp_resource p) (\<lambda>m. mem_get m (cp_tenant p) (cp_resource p) (cp_id p)) v w = (Inl e, v', w')"
      "res = Inl e"
  | (refused) x v1 w1 e where "view_read E lc (cp_tenant p) (cp_resource p) (\<lambda>m. mem_get m (cp_tenant p) (cp_resource p) (cp_id p)) v w = (Inr x, v1, w1)"
      "check_claims E lc p (cp_claims p) v1 w1 = (Inl e, v', w')" "res = Inl e"
  | (staged) x v1 w1 v2 where "view_read E lc (cp_tenant p) (cp_resource p) (\<lambda>m. mem_get m (cp_tenant p) (cp_resource p) (cp_id p)) v w = (Inr x, v1, w1)"
      "check_claims E lc p (cp_claims p) v1 w1 = (Inr (), v2, w')" "res = Inr ()" "v' = push_plan p v2"
  using assms by (auto simp: stage_def split: prod.splits sum.splits)

lemma stage_extends:
  assumes "stage E lc p v w = (res, v', w')"
  shows "extends E (v, w) (v', w')"
  using assms
proof (cases rule: stage_run)
  case (unread e)
  then show ?thesis using view_read_extends by blast
next
  case (refused x v1 w1 e)
  from extends_trans [OF conjunct1 [OF view_read_extends [OF refused(1)]] conjunct1 [OF check_claims_extends [OF refused(2)]]]
  show ?thesis .
next
  case (staged x v1 w1 v2)
  from extends_trans [OF conjunct1 [OF view_read_extends [OF staged(1)]] conjunct1 [OF check_claims_extends [OF staged(2)]]]
  have "extends E (v, w) (v2, w')" .
  moreover have "extends E (v2, w') (v', w')" by (simp add: staged(4) extends_def push_plan_def Let_def)
  ultimately show ?thesis by (rule extends_trans)
qed

lemma stage_spec_run:
  assumes "\<And>n m. rev_step D m (en_others E n m)" "(cp_tenant p, cp_resource p) \<in> D"
    and "stage E lc p v w = (res, v', w')" "view_ok D lc m v" "rev_step D (wo_store w') m" "guards_hold m v'"
  shows "view_ok D lc m v' \<and> stage_spec lc m (vw_plans v) p res \<and>
    vw_plans v' = (case res of Inl e \<Rightarrow> vw_plans v | Inr u \<Rightarrow> vw_plans v @ [p])"
  using assms(3)
proof (cases rule: stage_run)
  case (unread e)
  from view_read_spec [OF assms(1,2) unread(1) assms(4-6)] view_read_extends [OF unread(1)] unread(2)
  show ?thesis by (simp add: stage_spec_def)
next
  case (refused x v1 w1 e)
  have x: "extends E (v1, w1) (v', w')" using check_claims_extends [OF refused(2)] by blast
  have v1: "view_ok D lc m v1"
    using view_read_spec [OF assms(1,2) refused(1) assms(4) extends_step [OF x assms(1,5)] extends_guards [OF x assms(6)]] by blast
  from check_claims_spec [OF assms(1,2) refused(2) v1 assms(5,6)] check_claims_extends [OF refused(2)]
    view_read_extends [OF refused(1)] refused(3)
  show ?thesis by (auto simp: stage_spec_def)
next
  case (staged x v1 w1 v2)
  have g: "guards_hold m v2" using assms(6) by (simp add: staged(4) guards_hold_def push_plan_def Let_def)
  have x: "extends E (v1, w1) (v2, w')" using check_claims_extends [OF staged(2)] by blast
  have v1: "view_ok D lc m v1"
    using view_read_spec [OF assms(1,2) staged(1) assms(4) extends_step [OF x assms(1,5)] extends_guards [OF x g]] by blast
  note c = check_claims_spec [OF assms(1,2) staged(2) v1 assms(5) g]
  have "mhas (cp_tenant p, r_id (cp_resource p)) (vw_snapshots v2)"
    using claims_touched [OF staged(2) view_read_touched [OF staged(1)]] .
  with c push_view [of D lc m v2 p] check_claims_extends [OF staged(2)] view_read_extends [OF staged(1)] staged(3,4)
  show ?thesis by (auto simp: stage_spec_def)
qed

lemma tx_query_extends: "tx_query E lc opId rd v w = (res, v', w') \<Longrightarrow> extends E (v, w) (v', w')"
  using run_reader_extends by (fastforce simp: tx_query_def split: sum.splits)

lemma tx_mutate_run:
  assumes "tx_mutate E lc opId rd v w = (res, v', w')"
  obtains (refused) e where "tx_admit E (vw_plans v) opId True = Inl e" "res = Inl e" "v' = v" "w' = w"
  | (failed) e where "tx_admit E (vw_plans v) opId True = Inr ()" "run_reader E lc rd v w = (Inl e, v', w')" "res = Inl e"
  | (unstaged) p x v1 w1 e where "tx_admit E (vw_plans v) opId True = Inr ()" "run_reader E lc rd v w = (Inr (p, x), v1, w1)"
      "stage E lc p v1 w1 = (Inl e, v', w')" "res = Inl e"
  | (staged) p x v1 w1 where "tx_admit E (vw_plans v) opId True = Inr ()" "run_reader E lc rd v w = (Inr (p, x), v1, w1)"
      "stage E lc p v1 w1 = (Inr (), v', w')" "res = Inr x"
  using assms by (auto simp: tx_mutate_def split: prod.splits sum.splits)

lemma tx_mutate_extends: "tx_mutate E lc opId rd v w = (res, v', w') \<Longrightarrow> extends E (v, w) (v', w')"
proof (erule tx_mutate_run)
  fix p x v1 w1 e
  assume "run_reader E lc rd v w = (Inr (p, x), v1, w1)" "stage E lc p v1 w1 = (Inl e, v', w')"
  then show "extends E (v, w) (v', w')" using run_reader_extends stage_extends extends_trans by blast
next
  fix p x v1 w1
  assume "run_reader E lc rd v w = (Inr (p, x), v1, w1)" "stage E lc p v1 w1 = (Inr (), v', w')"
  then show "extends E (v, w) (v', w')" using run_reader_extends stage_extends extends_trans by blast
qed (auto dest: run_reader_extends)

lemma run_body_extends: "run_body E lc body v w = (res, v', w') \<Longrightarrow> extends E (v, w) (v', w')"
proof (induction body arbitrary: v w)
  case (TxQuery opId rd k)
  obtain x v1 w1 where q: "tx_query E lc opId rd v w = (x, v1, w1)" by (metis prod_cases3)
  with TxQuery.prems have "run_body E lc (k x) v1 w1 = (res, v', w')" by simp
  with TxQuery.IH [OF _ this] tx_query_extends [OF q] extends_trans show ?case by blast
next
  case (TxMutate opId rd k)
  obtain x v1 w1 where q: "tx_mutate E lc opId rd v w = (x, v1, w1)" by (metis prod_cases3)
  with TxMutate.prems have "run_body E lc (k x) v1 w1 = (res, v', w')" by simp
  with TxMutate.IH [OF _ this] tx_mutate_extends [OF q] extends_trans show ?case by blast
qed auto

lemma run_body_spec:
  assumes "\<And>n m. rev_step D m (en_others E n m)"
    and "run_body E lc body v w = (res, v', w')" "body_in D body" "view_ok D lc m v" "rev_step D (wo_store w') m" "guards_hold m v'"
  shows "body_spec E lc m body (vw_plans v) res (vw_plans v')"
  using assms(2-)
proof (induction body arbitrary: v w)
  case (TxRet x)
  then show ?case by (auto intro: body_spec.intros)
next
  case (TxFail e)
  then show ?case by (auto intro: body_spec.intros)
next
  case (TxQuery opId rd k)
  obtain x v1 w1 where q: "tx_query E lc opId rd v w = (x, v1, w1)" by (metis prod_cases3)
  have run: "run_body E lc (k x) v1 w1 = (res, v', w')" using TxQuery.prems(1) q by simp
  note e = run_body_extends [OF run]
  have k: "body_in D (k x)" and rd: "reads_in D (\<lambda>_. True) rd" using TxQuery.prems(2) by auto
  show ?case
  proof (cases "tx_admit E (vw_plans v) opId False")
    case (Inl err)
    then have x: "x = Inl err" "v1 = v" "w1 = w" using q by (auto simp: tx_query_def)
    from TxQuery.IH [OF _ run k _ TxQuery.prems(4,5)] TxQuery.prems(3) x(2) have "body_spec E lc m (k x) (vw_plans v) res (vw_plans v')" by simp
    then show ?thesis unfolding x(1) by (rule body_spec.query_refused [OF Inl])
  next
    case (Inr u)
    then have r: "run_reader E lc rd v w = (x, v1, w1)" using q by (simp add: tx_query_def)
    note s = run_reader_spec [OF assms(1) r rd TxQuery.prems(3) extends_step [OF e assms(1) TxQuery.prems(4)] extends_guards [OF e TxQuery.prems(5)]]
    have pl: "vw_plans v1 = vw_plans v" using run_reader_extends [OF r] by blast
    have "view_ok D lc m v1" using s by blast
    from TxQuery.IH [OF _ run k this TxQuery.prems(4,5)] s show ?thesis
      unfolding pl using body_spec.query [of E "vw_plans v" opId lc m rd x k res "vw_plans v'"] Inr by auto
  qed
next
  case (TxMutate opId rd k)
  obtain x v1 w1 where q: "tx_mutate E lc opId rd v w = (x, v1, w1)" by (metis prod_cases3)
  have run: "run_body E lc (k x) v1 w1 = (res, v', w')" using TxMutate.prems(1) q by simp
  note e = run_body_extends [OF run]
  have k: "body_in D (k x)" and rd: "reads_in D (\<lambda>(p, x). (cp_tenant p, cp_resource p) \<in> D) rd" using TxMutate.prems(2) by auto
  have s1: "rev_step D (wo_store w1) m" by (rule extends_step [OF e assms(1) TxMutate.prems(4)])
  have g1: "guards_hold m v1" by (rule extends_guards [OF e TxMutate.prems(5)])
  note IH = TxMutate.IH [OF _ run k _ TxMutate.prems(4,5)]
  from q show ?case
  proof (cases rule: tx_mutate_run)
    case (refused err)
    with IH TxMutate.prems(3) show ?thesis by (auto intro: body_spec.mutate_refused)
  next
    case (failed err)
    note s = run_reader_spec [OF assms(1) failed(2) rd TxMutate.prems(3) s1 g1]
    have "vw_plans v1 = vw_plans v" using run_reader_extends [OF failed(2)] by blast
    with IH s failed(1,3) show ?thesis by (auto intro: body_spec.mutate_failed)
  next
    case (unstaged p y v2 w2 err)
    note e2 = stage_extends [OF unstaged(3)]
    note s = run_reader_spec [OF assms(1) unstaged(2) rd TxMutate.prems(3) extends_step [OF e2 assms(1) s1] extends_guards [OF e2 g1]]
    then have D: "(cp_tenant p, cp_resource p) \<in> D" and v2: "view_ok D lc m v2" by auto
    have pl: "vw_plans v2 = vw_plans v" using run_reader_extends [OF unstaged(2)] by blast
    note st = stage_spec_run [OF assms(1) D unstaged(3) v2 s1 g1]
    with IH s pl unstaged(1,4) show ?thesis by (auto intro: body_spec.mutate_unstaged)
  next
    case (staged p y v2 w2)
    note e2 = stage_extends [OF staged(3)]
    note s = run_reader_spec [OF assms(1) staged(2) rd TxMutate.prems(3) extends_step [OF e2 assms(1) s1] extends_guards [OF e2 g1]]
    then have D: "(cp_tenant p, cp_resource p) \<in> D" and v2: "view_ok D lc m v2" by auto
    have pl: "vw_plans v2 = vw_plans v" using run_reader_extends [OF staged(2)] by blast
    note st = stage_spec_run [OF assms(1) D staged(3) v2 s1 g1]
    with IH s pl staged(1,4) show ?thesis by (auto intro: body_spec.mutate)
  qed
qed

section \<open>Serializability\<close>

lemma new_view_ok: "view_ok D lc m view_new" "vw_plans view_new = []"
  by (simp_all add: view_ok_def view_new_def)

text \<open>The commit at the end: the plans of the body, folded and ordered, on the store the body is serialized at.\<close>

definition serialized :: "env \<Rightarrow> (string \<Rightarrow> string \<Rightarrow> int) \<Rightarrow> 'a tx_body \<Rightarrow> world \<Rightarrow> 'a \<Rightarrow> world \<Rightarrow> bool" where
  "serialized E lc body w x w' \<longleftrightarrow> (\<exists>m plans reads. (others_act E)\<^sup>*\<^sup>* (wo_store w) m \<and> body_spec E lc m body [] (Inr x) plans \<and>
     (plans = [] \<and> wo_store w' = m \<or>
      (\<exists>lowered. lowerTransaction plans True = Inr lowered \<and> commitAll m lowered [] reads = (None, wo_store w'))))"

lemma transaction_run:
  assumes "transaction E lc body ctx w = (Inr x, w')"
  obtains v w1 where "run_body E lc body view_new w = (Inr x, v, w1)" "tx_commit E v w1 = (Inr (), w')"
  using assms by (auto simp: transaction_def eff_simps split: prod.splits sum.splits)

lemma tx_commit_run:
  assumes "tx_commit E v w1 = (Inr (), w')"
  obtains (idle) "vw_plans v = []" "vw_reads v = []" "w' = w1"
  | (commit) lowered where "lowerTransaction (vw_plans v) True = Inr lowered"
      "commitAll (world_now E w1) lowered [] (vw_reads v) = (None, wo_store w')"
  using assms by (auto simp: tx_commit_def eff_simps split: if_splits)

lemma transaction_serialized:
  assumes "\<And>n m. rev_step D m (en_others E n m)" "body_in D body" "transaction E lc body ctx w = (Inr x, w')"
  shows "serialized E lc body w x w'"
proof -
  obtain v w1 where run: "run_body E lc body view_new w = (Inr x, v, w1)" and c: "tx_commit E v w1 = (Inr (), w')"
    using transaction_run [OF assms(3)] .
  have r: "(others_act E)\<^sup>*\<^sup>* (wo_store w) (wo_store w1)"
    using run_body_extends [OF run] by (simp add: extends_def reading_def)
  show ?thesis
  proof (rule tx_commit_run [OF c])
    assume idle: "vw_plans v = []" "vw_reads v = []" "w' = w1"
    have "guards_hold (wo_store w1) v" by (simp add: guards_hold_def idle(2))
    from run_body_spec [OF assms(1) run assms(2) new_view_ok(1) rev_step_refl this] idle r
    show ?thesis unfolding serialized_def new_view_ok(2) by auto
  next
    fix lowered
    assume commit: "lowerTransaction (vw_plans v) True = Inr lowered"
      "commitAll (world_now E w1) lowered [] (vw_reads v) = (None, wo_store w')"
    have s: "rev_step D (wo_store w1) (world_now E w1)" by (simp add: world_now_def assms(1))
    have g: "guards_hold (world_now E w1) v"
      using commit(2) by (auto simp: commitAll_def guards_hold_def split: if_splits)
    have "(others_act E)\<^sup>*\<^sup>* (wo_store w) (world_now E w1)"
      using r by (rule rtranclp_trans) (simp add: world_now_def)
    with run_body_spec [OF assms(1) run assms(2) new_view_ok(1) s g] commit
    show ?thesis unfolding serialized_def new_view_ok(2) by blast
  qed
qed

end
