(* ===== verification/Transaction_Lowering.thy ===== *)
theory Transaction_Lowering
  imports Transaction "HOL-Library.Multiset"
begin

text \<open>
  What folding and ordering keep of the staged plans of a transaction: every audit entry and outbox
  event, one write per record with the record's last state, and an order in which references hold.
\<close>

definition target :: "commit_plan \<Rightarrow> string \<times> string \<times> string" where
  "target p = (cp_tenant p, r_id (cp_resource p), cp_id p)"

lemma same_target_iff: "same_target p q \<longleftrightarrow> target p = target q"
  by (auto simp: same_target_def target_def)

definition on_target :: "string \<times> string \<times> string \<Rightarrow> commit_plan list \<Rightarrow> commit_plan list" where
  "on_target k ps = filter (\<lambda>p. target p = k) ps"

definition writes :: "commit_plan list \<Rightarrow> commit_plan list" where
  "writes ps = filter (\<lambda>p. cp_kind p \<noteq> PkPublish) ps"

text \<open>A record created and deleted again in the transaction is not written at all.\<close>

definition vanished :: "commit_plan list \<Rightarrow> bool" where
  "vanished ps \<longleftrightarrow> cp_kind (hd ps) = PkCreate \<and> cp_hardDelete (last ps)"

text \<open>The state of folding after the plans \<open>ps\<close>: the head of each target, and publications behind it.\<close>

definition head_of :: "commit_plan list \<Rightarrow> commit_plan \<Rightarrow> bool" where
  "head_of ps q \<longleftrightarrow> cp_after q = cp_after (last ps) \<and> cp_hardDelete q = cp_hardDelete (last ps) \<and>
     (cp_kind (hd ps) = PkCreate \<longrightarrow> cp_kind q = PkCreate \<or> cp_kind q = PkPublish) \<and>
     (cp_kind (hd ps) \<noteq> PkCreate \<longrightarrow> cp_kind q \<noteq> PkCreate) \<and>
     (cp_kind q = PkPublish \<longrightarrow> vanished ps)"

definition fold_ok :: "commit_plan list \<Rightarrow> commit_plan list \<Rightarrow> bool" where
  "fold_ok ps out \<longleftrightarrow>
     mset (map cp_audit out) = mset (map cp_audit ps) \<and> mset (concat (map cp_outbox out)) = mset (concat (map cp_outbox ps)) \<and>
     (\<forall>k. (case on_target k out of
        [] \<Rightarrow> on_target k ps = []
      | q # qs \<Rightarrow> on_target k ps \<noteq> [] \<and> head_of (on_target k ps) q \<and> (\<forall>x\<in>set qs. cp_kind x = PkPublish)))"

lemma no_target: "find_index P xs = None \<Longrightarrow> \<forall>x\<in>set xs. \<not> P x"
  by (induction xs) (auto split: if_splits)

lemma split_at: "i < length xs \<Longrightarrow> xs = take i xs @ xs ! i # drop (Suc i) xs"
  by (simp add: id_take_nth_drop)

lemma on_target_simps [simp]:
  "on_target k [] = []" "on_target k (p # ps) = (if target p = k then p # on_target k ps else on_target k ps)"
  "on_target k (ps @ qs) = on_target k ps @ on_target k qs"
  by (simp_all add: on_target_def)

lemma target_updates [simp]:
  "target (publish_of p) = target p" "target (folded f p) = target f" "target (p\<lparr>cp_interval := i, cp_tree := t\<rparr>) = target p"
  by (simp_all add: target_def publish_of_def folded_def)

lemma lower_step_cases:
  assumes "lower_step True out p = Inr out1"
  obtains (new) "on_target (target p) out = []" "out1 = out @ [p]"
  | (again) xs f ys where "out = xs @ f # ys" "on_target (target p) xs = []" "target f = target p"
      "out1 = xs @ folded f p # ys @ [publish_of (p\<lparr>cp_interval := None, cp_tree := None\<rparr>)]"
      "cp_kind p \<noteq> PkCreate" "\<not> cp_hardDelete f"
proof (cases "find_index (\<lambda>q. same_target q p) out")
  case None
  from no_target [OF None] have "on_target (target p) out = []" by (auto simp: on_target_def same_target_iff filter_empty_conv)
  with None assms new show ?thesis by (simp add: lower_step_def)
next
  case (Some i)
  note f = find_index_Some [OF Some]
  have step: "\<not> cp_hardDelete (out ! i)" "cp_kind p \<noteq> PkCreate"
    "out1 = out[i := folded (out ! i) p] @ [publish_of (p\<lparr>cp_interval := None, cp_tree := None\<rparr>)]"
    using assms Some by (auto simp: lower_step_def Let_def split: if_splits)
  have before: "on_target (target p) (take i out) = []"
    using f by (auto simp: on_target_def same_target_iff filter_empty_conv in_set_conv_nth)
  have "out[i := folded (out ! i) p] = take i out @ folded (out ! i) p # drop (Suc i) out"
    using f by (simp add: upd_conv_take_nth_drop)
  then have out1: "out1 = take i out @ folded (out ! i) p # drop (Suc i) out @ [publish_of (p\<lparr>cp_interval := None, cp_tree := None\<rparr>)]"
    using step(3) by simp
  have tgt: "target (out ! i) = target p" using f by (simp add: same_target_iff)
  have out: "out = take i out @ out ! i # drop (Suc i) out"
    by (rule split_at) (use f in blast)
  show ?thesis by (rule again [OF out before tgt out1 step(2,1)])
qed

lemma folded_head:
  assumes "head_of ps f" "ps \<noteq> []" "cp_kind p \<noteq> PkCreate" "cp_kind p \<noteq> PkPublish" "\<not> cp_hardDelete f"
  shows "head_of (ps @ [p]) (folded f p)"
  using assms by (auto simp: head_of_def folded_def vanished_def)

lemma fold_okD:
  assumes "fold_ok ps out"
  shows "case on_target k out of [] \<Rightarrow> on_target k ps = []
    | q # qs \<Rightarrow> on_target k ps \<noteq> [] \<and> head_of (on_target k ps) q \<and> (\<forall>x\<in>set qs. cp_kind x = PkPublish)"
  using assms unfolding fold_ok_def by blast

lemma fold_ok_step:
  assumes "fold_ok ps out" "lower_step True out p = Inr out1" "cp_kind p \<noteq> PkPublish"
  shows "fold_ok (ps @ [p]) out1"
  using assms(2)
proof (cases rule: lower_step_cases)
  case new
  have k: "on_target (target p) ps = []" using assms(1) new(1) unfolding fold_ok_def
    by (elim conjE allE [of _ "target p"]) simp
  have "head_of [p] p" using assms(3) by (simp add: head_of_def)
  note parts = assms(1) [unfolded fold_ok_def]
  show ?thesis
    unfolding fold_ok_def
  proof (intro conjI allI)
    show "mset (map cp_audit out1) = mset (map cp_audit (ps @ [p]))"
      "mset (concat (map cp_outbox out1)) = mset (concat (map cp_outbox (ps @ [p])))"
      using parts by (simp_all add: new(2))
    show "case on_target j out1 of [] \<Rightarrow> on_target j (ps @ [p]) = []
      | q # qs \<Rightarrow> on_target j (ps @ [p]) \<noteq> [] \<and> head_of (on_target j (ps @ [p])) q \<and> (\<forall>x\<in>set qs. cp_kind x = PkPublish)" for j
    proof (cases "j = target p")
      case True
      with new k \<open>head_of [p] p\<close> show ?thesis by simp
    next
      case False
      then have "on_target j out1 = on_target j out" "on_target j (ps @ [p]) = on_target j ps"
        by (simp_all add: new(2))
      with fold_okD [OF assms(1), of j] show ?thesis by (simp only:)
    qed
  qed
next
  case (again xs f ys)
  note parts = assms(1) [unfolded fold_ok_def]
  have old: "on_target (target p) ps \<noteq> []" "head_of (on_target (target p) ps) f" "\<forall>x\<in>set (on_target (target p) ys). cp_kind x = PkPublish"
    using fold_okD [OF assms(1), of "target p"] again(1-3) by auto
  have hd: "head_of (on_target (target p) ps @ [p]) (folded f p)"
    by (rule folded_head [OF old(2,1) again(5) assms(3) again(6)])
  have kept: "cp_audit (folded f p) = cp_audit f" "cp_outbox (folded f p) = cp_outbox f"
    by (simp_all add: folded_def)
  have pub: "cp_audit (publish_of (p\<lparr>cp_interval := None, cp_tree := None\<rparr>)) = cp_audit p"
    "cp_outbox (publish_of (p\<lparr>cp_interval := None, cp_tree := None\<rparr>)) = cp_outbox p"
    "cp_kind (publish_of (p\<lparr>cp_interval := None, cp_tree := None\<rparr>)) = PkPublish"
    by (simp_all add: publish_of_def)
  show ?thesis
    unfolding fold_ok_def
  proof (intro conjI allI)
    show "mset (map cp_audit out1) = mset (map cp_audit (ps @ [p]))"
      using parts by (auto simp: again(1,4) kept pub)
    show "mset (concat (map cp_outbox out1)) = mset (concat (map cp_outbox (ps @ [p])))"
      using parts by (auto simp: again(1,4) kept pub)
    show "case on_target k out1 of [] \<Rightarrow> on_target k (ps @ [p]) = []
      | q # qs \<Rightarrow> on_target k (ps @ [p]) \<noteq> [] \<and> head_of (on_target k (ps @ [p])) q \<and> (\<forall>x\<in>set qs. cp_kind x = PkPublish)" for k
    proof (cases "k = target p")
      case True
      with hd old again(2-4) pub show ?thesis by (auto split: list.splits)
    next
      case False
      then have "on_target k out1 = on_target k out" "on_target k (ps @ [p]) = on_target k ps"
        using again(1,3,4) by auto
      with fold_okD [OF assms(1), of k] show ?thesis by (simp only:)
    qed
  qed
qed

lemma fold_ok_steps:
  "lower_steps True out ps = Inr out1 \<Longrightarrow> fold_ok done_ps out \<Longrightarrow> \<forall>p\<in>set ps. cp_kind p \<noteq> PkPublish \<Longrightarrow> fold_ok (done_ps @ ps) out1"
proof (induction True out ps arbitrary: done_ps rule: lower_steps.induct)
  case (2 out p ps)
  obtain o1 where o1: "lower_step True out p = Inr o1" "lower_steps True o1 ps = Inr out1"
    using "2.prems"(1) by (auto simp: bind_res_Inr_iff)
  have "fold_ok (done_ps @ [p]) o1" using fold_ok_step [OF "2.prems"(2) o1(1)] "2.prems"(3) by simp
  from "2.hyps" [OF o1 this] "2.prems"(3) show ?case by simp
qed simp

section \<open>Ordering\<close>

fun well_ordered :: "commit_plan list \<Rightarrow> commit_plan list \<Rightarrow> commit_plan list \<Rightarrow> bool" where
  "well_ordered records completed [] = True"
| "well_ordered records completed (p # ps) =
     (ready records completed p \<and> well_ordered records (if cp_kind p = PkPublish then completed else p # completed) ps)"

lemma pick_Some: "pick P xs = Some (y, ys) \<Longrightarrow> P y \<and> mset xs = add_mset y (mset ys)"
  by (induction xs arbitrary: ys) (auto split: if_splits)

lemma order_plans_ok:
  "order_plans records completed pending = Inr out \<Longrightarrow> mset out = mset pending \<and> well_ordered records completed out"
proof (induction records completed pending arbitrary: out rule: order_plans.induct)
  case (1 records completed pending)
  show ?case
  proof (cases "pending = []")
    case True
    with "1.prems" show ?thesis by (simp add: order_plans.simps)
  next
    case False
    with "1.prems" obtain p rest rest_out where p: "pick (ready records completed) pending = Some (p, rest)"
      "order_plans records (if cp_kind p = PkPublish then completed else p # completed) rest = Inr rest_out" "out = p # rest_out"
      by (subst (asm) order_plans.simps) (auto simp: bind_res_Inr_iff split: option.splits)
    from "1.IH" [OF False p(1) refl p(2)] pick_Some [OF p(1)] p(3) show ?thesis by simp
  qed
qed

section \<open>The lowered plans\<close>

lemma on_target_mset: "mset xs = mset ys \<Longrightarrow> mset (on_target k xs) = mset (on_target k ys)"
  unfolding on_target_def by (metis mset_filter)

lemma mset_concat_map: "mset (concat (map f xs)) = \<Sum>\<^sub># (image_mset (\<lambda>x. mset (f x)) (mset xs))"
  by (induction xs) auto

lemma one_write:
  assumes "on_target k xs = q # qs" "\<forall>x\<in>set qs. cp_kind x = PkPublish"
  shows "on_target k (writes xs) = (if cp_kind q = PkPublish then [] else [q])"
proof -
  have "on_target k (writes xs) = writes (on_target k xs)" by (simp add: on_target_def writes_def conj_commute)
  with assms show ?thesis by (auto simp: writes_def filter_empty_conv)
qed

definition lowers :: "commit_plan list \<Rightarrow> commit_plan list \<Rightarrow> bool" where
  "lowers plans out \<longleftrightarrow>
     mset (map cp_audit out) = mset (map cp_audit plans) \<and> mset (concat (map cp_outbox out)) = mset (concat (map cp_outbox plans)) \<and>
     well_ordered (writes out) [] out \<and>
     (\<forall>k. case on_target k (writes out) of
        [] \<Rightarrow> on_target k plans = [] \<or> vanished (on_target k plans)
      | [q] \<Rightarrow> on_target k plans \<noteq> [] \<and> cp_after q = cp_after (last (on_target k plans)) \<and>
          cp_hardDelete q = cp_hardDelete (last (on_target k plans)) \<and>
          (cp_kind q = PkCreate \<longleftrightarrow> cp_kind (hd (on_target k plans)) = PkCreate)
      | _ \<Rightarrow> False)"

lemma ready_mset: "mset a = mset b \<Longrightarrow> ready a c p = ready b c p"
  unfolding ready_def list_all_iff by (metis set_mset_mset)

lemma well_ordered_mset: "mset a = mset b \<Longrightarrow> well_ordered a c ps = well_ordered b c ps"
  by (induction ps arbitrary: c) (simp_all add: ready_mset [of a b])

lemma lowerTransaction_lowers:
  assumes "lowerTransaction plans True = Inr out" "\<forall>p\<in>set plans. cp_kind p \<noteq> PkPublish"
  shows "lowers plans out"
proof -
  obtain o1 where o1: "lower_steps True [] plans = Inr o1" "order_plans (writes o1) [] o1 = Inr out"
    using assms(1) by (auto simp: lowerTransaction_def bind_res_Inr_iff writes_def)
  have f: "fold_ok plans o1" using fold_ok_steps [OF o1(1), of "[]"] assms(2) by (simp add: fold_ok_def)
  from order_plans_ok [OF o1(2)] have m: "mset out = mset o1" and ord: "well_ordered (writes o1) [] out" by auto
  have mw: "mset (writes out) = mset (writes o1)" using m unfolding writes_def by (metis mset_filter)
  have am: "mset (map cp_audit out) = mset (map cp_audit o1)" using m by (metis mset_map)
  have om: "mset (concat (map cp_outbox out)) = mset (concat (map cp_outbox o1))"
    using m by (simp add: mset_concat_map)
  have k: "case on_target k (writes out) of
        [] \<Rightarrow> on_target k plans = [] \<or> vanished (on_target k plans)
      | [q] \<Rightarrow> on_target k plans \<noteq> [] \<and> cp_after q = cp_after (last (on_target k plans)) \<and>
          cp_hardDelete q = cp_hardDelete (last (on_target k plans)) \<and>
          (cp_kind q = PkCreate \<longleftrightarrow> cp_kind (hd (on_target k plans)) = PkCreate)
      | _ \<Rightarrow> False" for k
  proof -
    have mk: "mset (on_target k (writes out)) = mset (on_target k (writes o1))" by (rule on_target_mset [OF mw])
    have fk: "case on_target k o1 of [] \<Rightarrow> on_target k plans = []
      | q # qs \<Rightarrow> on_target k plans \<noteq> [] \<and> head_of (on_target k plans) q \<and> (\<forall>x\<in>set qs. cp_kind x = PkPublish)"
      using f unfolding fold_ok_def by blast
    show ?thesis
    proof (cases "on_target k o1")
      case Nil
      then have "on_target k (writes o1) = []" by (auto simp: on_target_def writes_def filter_empty_conv)
      with mk fk Nil show ?thesis by simp
    next
      case (Cons q qs)
      with fk one_write [OF Cons] have w: "on_target k (writes o1) = (if cp_kind q = PkPublish then [] else [q])"
        and h: "head_of (on_target k plans) q" "on_target k plans \<noteq> []" by auto
      have "on_target k (writes out) = on_target k (writes o1)"
        using mk unfolding w by (cases "cp_kind q = PkPublish") (simp_all add: mset_single_iff_right)
      then have out: "on_target k (writes out) = (if cp_kind q = PkPublish then [] else [q])" unfolding w .
      show ?thesis
      proof (cases "cp_kind q = PkPublish")
        case True
        with h show ?thesis by (simp add: out head_of_def)
      next
        case False
        then have "on_target k (writes out) = [q]" by (simp add: out)
        moreover have "cp_kind q = PkCreate \<longleftrightarrow> cp_kind (hd (on_target k plans)) = PkCreate"
          using h(1) False unfolding head_of_def by blast
        ultimately show ?thesis using h by (simp add: head_of_def)
      qed
    qed
  qed
  with f am om ord well_ordered_mset [OF mw] show ?thesis by (simp add: lowers_def fold_ok_def)
qed

end
