(* ===== verification/Storage_Properties.thy ===== *)
theory Storage_Properties
  imports Memory_Invariants Decode_Correct
begin

text \<open>
  The properties of the reference storage adapter, each with a witness on a small store: a
  versioned, hierarchical, effective-dated resource with one unique key.
\<close>

section \<open>A small store\<close>

definition node_resource :: resource where
  "node_resource = item_resource\<lparr>r_id := ''nodes'',
     r_decorators := plain_decorators\<lparr>dc_versioned := True, dc_hierarchical := True, dc_effectiveDated := Some [''room'']\<rparr>,
     r_uniques := [\<lparr>u_name = ''byName'', u_fields = [''name''], u_within = [], u_condition = None\<rparr>]\<rparr>"

definition node_row :: "string \<Rightarrow> string \<Rightarrow> int \<Rightarrow> jsval \<Rightarrow> string \<Rightarrow> jsval \<Rightarrow> obj" where
  "node_row i name v parent from until = [(''id'', JStr i), (''name'', JStr name), (''version'', JInt v),
     (''parent'', parent), (''room'', JStr ''r1''), (''effectiveFrom'', JStr from), (''effectiveUntil'', until)]"

definition sample_audit :: audit_entry where
  "sample_audit = \<lparr>au_tenant = ''t1'', au_opId = ''o1'', au_resource = ''nodes'', au_recordId = ''a'', au_kind = ''create'',
     au_newVersion = JInt 1, au_actor = ''u'', au_at = ''2024'', au_payload = JUndef\<rparr>"

definition sample_event :: outbox_entry where
  "sample_event = \<lparr>ob_tenant = ''t1'', ob_opId = ''o1'', ob_ordinal = 0, ob_channel = ''nodes.changes'',
     ob_message = ''Created'', ob_payload = JNull, ob_createdAt = ''2024''\<rparr>"

definition sample_receipt :: receipt where
  "sample_receipt = \<lparr>rc_tenant = ''t1'', rc_operation = ''nodes.create'', rc_key = ''k1'', rc_requestHash = ''h'',
     rc_status = 200, rc_response = JNull, rc_createdAt = ''2024''\<rparr>"

definition node_plan :: "memory \<Rightarrow> plan_kind \<Rightarrow> int option \<Rightarrow> string \<Rightarrow> obj \<Rightarrow> commit_plan" where
  "node_plan m k expected i after = \<lparr>cp_tenant = ''t1'', cp_opId = ''o1'', cp_actor = ''u'', cp_at = ''2024'',
     cp_resource = node_resource, cp_kind = k, cp_id = i, cp_expectedVersion = expected,
     cp_before = mem_get m ''t1'' node_resource i, cp_after = after,
     cp_claims = claimChanges node_resource (mem_get m ''t1'' node_resource i) after,
     cp_references = [], cp_dependents = [], cp_hardDelete = False,
     cp_interval = (case intervalGuard node_resource after i of Inr (Some g) \<Rightarrow> Some g | _ \<Rightarrow> None),
     cp_tree = (case oget after ''parent'' of JStr p \<Rightarrow> Some \<lparr>tg_parentField = ''parent'', tg_parentId = p, tg_ancestors = [p]\<rparr>
       | _ \<Rightarrow> None),
     cp_audit = sample_audit, cp_outbox = [sample_event], cp_receipt = None, cp_completion = None\<rparr>"

definition plan_a :: commit_plan where
  "plan_a = (node_plan memory_new PkCreate None ''a'' (node_row ''a'' ''n1'' 1 JNull ''2020'' (JStr ''2021'')))
     \<lparr>cp_receipt := Some sample_receipt\<rparr>"

definition store_a :: memory where
  "store_a = snd (mem_commit memory_new plan_a)"

definition plan_b :: commit_plan where
  "plan_b = node_plan store_a PkCreate None ''b'' (node_row ''b'' ''n2'' 1 (JStr ''a'') ''2021'' JNull)"

definition store_b :: memory where
  "store_b = snd (mem_commit store_a plan_b)"

lemma store_a_commit: "mem_commit memory_new plan_a = (None, store_a)"
proof -
  have "fst (mem_commit memory_new plan_a) = None" by code_simp
  then show ?thesis by (metis store_a_def prod.collapse)
qed

lemma store_b_commit: "mem_commit store_a plan_b = (None, store_b)"
proof -
  have "fst (mem_commit store_a plan_b) = None" by code_simp
  then show ?thesis by (metis store_b_def prod.collapse)
qed

section \<open>The properties\<close>

text \<open>
  C3: a commit is all or nothing. When \<open>commitAll\<close> (several plans, absence guards, read guards)
  or \<open>commit\<close> reports an error, at whatever plan and guard, the store is exactly as before.
\<close>

theorem storage_commit_atomic:
  "(fst (commitAll m plans absent reads) = None \<or> snd (commitAll m plans absent reads) = m) \<and>
   (fst (mem_commit m p) = None \<or> snd (mem_commit m p) = m)"
  using commitAll_fails [of m plans absent reads] mem_commit_fails [of m p]
  by (cases "commitAll m plans absent reads"; cases "mem_commit m p") fastforce

text \<open>
  A receipt is written once. After a commit under an idempotency key, and any further
  commits, every commit that carries a receipt with the same operation and key is refused and
  changes nothing: a retried operation has its effect once.
\<close>

theorem receipt_once:
  assumes "mem_commit m p = (None, m1)" "cp_receipt p = Some rc"
    and "cp_receipt q = Some rq" "receipt_key q rq = receipt_key p rc"
  shows "\<exists>e. mem_commit (run_commits m1 ps) q = (Some e, run_commits m1 ps)"
proof (rule receipt_refuses [OF _ assms(3)])
  show "map_of (me_receipts (run_commits m1 ps)) (receipt_key q rq) \<noteq> None"
    using run_receipts_kept [OF receipt_written [OF assms(1,2)]] assms(4) by simp
qed

theorem receipt_once_witness:
  "\<exists>e. mem_commit store_b (plan_a\<lparr>cp_id := ''c''\<rparr>) = (Some e, store_b)"
proof -
  have "run_commits store_a [plan_b] = store_b" by (simp add: store_b_commit)
  moreover have "receipt_key (plan_a\<lparr>cp_id := ''c''\<rparr>) sample_receipt = receipt_key plan_a sample_receipt"
    by code_simp
  ultimately show ?thesis
    using receipt_once [OF store_a_commit, of sample_receipt "plan_a\<lparr>cp_id := ''c''\<rparr>" sample_receipt "[plan_b]"]
    by (simp add: plan_a_def)
qed

text \<open>
  C35: tenants are isolated. Whatever one tenant commits, successfully or not, no table, unique
  claim or receipt of another tenant changes (tenant names hold no vertical bar, the separator of
  the adapter's keys).
\<close>

theorem tenants_isolated:
  assumes "plain_text (cp_tenant p)" "plain_text t" "t \<noteq> cp_tenant p"
  shows "mem_table (snd (mem_commit m p)) t r = mem_table m t r \<and>
    map_of (me_claims (snd (mem_commit m p))) (key2 t c) = map_of (me_claims m) (key2 t c) \<and>
    mem_getReceipt (snd (mem_commit m p)) t op k = mem_getReceipt m t op k"
  using commit_isolated [OF prod.collapse [symmetric] assms, of m] by blast

theorem tenants_isolated_witness:
  "mem_table (snd (mem_commit store_a plan_b)) ''t2'' node_resource = [] \<and> mem_table store_b ''t1'' node_resource \<noteq> []"
proof -
  have "plain_text (cp_tenant plan_b)" "plain_text ''t2''" "''t2'' \<noteq> cp_tenant plan_b" by code_simp+
  note iso = tenants_isolated [OF this, of store_a node_resource]
  have "mem_table store_a ''t2'' node_resource = []" "mem_table store_b ''t1'' node_resource \<noteq> []" by code_simp+
  with iso show ?thesis by simp
qed

text \<open>
  Two writers that read the same version do not both win. Once an update with an expected
  version has moved the record to another version, any plan for the record that expects the old
  version is refused.
\<close>

theorem stale_version_refused:
  assumes "mem_commit m p = (None, m1)" "cp_kind p \<noteq> PkPublish" "\<not> cp_hardDelete p"
    and "oget (cp_after p) ''version'' = JInt w" "w \<noteq> v"
    and "cp_tenant q = cp_tenant p" "cp_resource q = cp_resource p" "cp_id q = cp_id p"
    and "cp_kind q \<notin> {PkCreate, PkPublish}" "cp_expectedVersion q = Some v"
  shows "\<exists>e. mem_commit m1 q = (Some e, m1) \<and>
    (cp_completion q = None \<and> cp_receipt q = None \<longrightarrow> e = err ''VersionConflict'')"
proof -
  have "mem_get m1 (cp_tenant q) (cp_resource q) (cp_id q) = Some (cp_after p)"
    using commit_table [OF assms(1,2)] assms(3,6,7,8) by (simp add: mem_get_def)
  then have vg: "version_guard m1 q = Inl (err ''VersionConflict'')"
    using assms(4,5,9,10) by (cases "cp_kind q") (auto simp: version_guard_def guard_res_def)
  have "fst (mem_commit m1 q) \<noteq> None"
  proof
    assume "fst (mem_commit m1 q) = None"
    then have "mem_commit m1 q = (None, snd (mem_commit m1 q))" by (metis prod.collapse)
    from commit_guarded [OF this] assms(9) vg show False by auto
  qed
  then obtain e m2 where "mem_commit m1 q = (Some e, m2)" by (cases "mem_commit m1 q") auto
  with mem_commit_fails [OF this] have e: "mem_commit m1 q = (Some e, m1)" by simp
  have "e = err ''VersionConflict''" if "cp_completion q = None" "cp_receipt q = None"
  proof -
    have k: "cp_kind q \<noteq> PkPublish" using assms(9) by auto
    have "commit_guards m1 q = Inl (err ''VersionConflict'')"
      by (simp add: commit_guards_def receipt_guard_def record_guards_def that k vg)
    then have "mem_commit m1 q = (Some (err ''VersionConflict''), m1)"
      by (simp add: mem_commit_def commitSync_def completion_step_def that)
    with e show ?thesis by simp
  qed
  with e show ?thesis by (intro exI [of _ e]) blast
qed

definition plan_a2 :: commit_plan where
  "plan_a2 = node_plan store_a PkUpdate (Some 1) ''a'' (node_row ''a'' ''n3'' 2 JNull ''2020'' (JStr ''2021''))"

theorem stale_version_refused_witness:
  "mem_commit (snd (mem_commit store_a plan_a2)) plan_a2 = (Some (err ''VersionConflict''), snd (mem_commit store_a plan_a2))"
proof -
  have "fst (mem_commit store_a plan_a2) = None" by code_simp
  then have c: "mem_commit store_a plan_a2 = (None, snd (mem_commit store_a plan_a2))" by (metis prod.collapse)
  have f: "cp_kind plan_a2 \<noteq> PkPublish" "\<not> cp_hardDelete plan_a2" "oget (cp_after plan_a2) ''version'' = JInt 2"
    "cp_kind plan_a2 \<notin> {PkCreate, PkPublish}" "cp_expectedVersion plan_a2 = Some 1"
    "cp_completion plan_a2 = None" "cp_receipt plan_a2 = None"
    by (simp_all add: plan_a2_def node_plan_def node_row_def oget_def)
  from stale_version_refused [OF c f(1,2,3) _ refl refl refl f(4,5)] f(6,7) show ?thesis by auto
qed



text \<open>
  C34: the restrict rules hold when a plan commits: the references it guards are live records and
  the record a delete guards against has no live dependents, judged against the durable tables and
  not against what the planner read.
\<close>

theorem commit_respects_references:
  assumes "mem_commit m p = (None, m')" "cp_kind p \<noteq> PkPublish"
  shows "(\<forall>g\<in>set (cp_references p). \<exists>target. mem_get m (cp_tenant p) (rg_resource g) (rg_id g) = Some target \<and> is_live target) \<and>
    (\<forall>d\<in>set (cp_dependents p). \<forall>(k, rcd)\<in>set (mem_table m (cp_tenant p) (dg_resource d)).
       is_live rcd \<longrightarrow> oget rcd (dg_field d) \<noteq> JStr (cp_id p))"
  using commit_guarded [OF assms]
  by (fastforce simp: reference_check_def dependent_check_def mem_countDependents_def guard_res_Inr_iff filter_empty_conv
      split: option.splits)

theorem commit_respects_references_witness:
  "fst (mem_commit store_b ((node_plan store_b PkDelete (Some 1) ''a'' [])\<lparr>cp_claims := [], cp_hardDelete := True,
      cp_dependents := [\<lparr>dg_resource = node_resource, dg_field = ''parent''\<rparr>]\<rparr>)) = Some (err ''HasDependents'') \<and>
   (\<exists>target. mem_get store_a ''t1'' node_resource ''a'' = Some target \<and> is_live target)"
proof -
  let ?p = "plan_b\<lparr>cp_references := [\<lparr>rg_field = ''parent'', rg_resource = node_resource, rg_id = ''a''\<rparr>]\<rparr>"
  have "fst (mem_commit store_a ?p) = None" by code_simp
  then have "mem_commit store_a ?p = (None, snd (mem_commit store_a ?p))" by (metis prod.collapse)
  from commit_respects_references [OF this]
  have "\<exists>target. mem_get store_a ''t1'' node_resource ''a'' = Some target \<and> is_live target"
    by (simp add: plan_b_def node_plan_def)
  moreover have "fst (mem_commit store_b ((node_plan store_b PkDelete (Some 1) ''a'' [])\<lparr>cp_claims := [], cp_hardDelete := True,
      cp_dependents := [\<lparr>dg_resource = node_resource, dg_field = ''parent''\<rparr>]\<rparr>)) = Some (err ''HasDependents'')"
    by code_simp
  ultimately show ?thesis by blast
qed

text \<open>
  C18: hierarchies stay acyclic. If every parent chain of the table ends within n steps and the
  chain of the new parent within the 64 steps the commit walks, then after a commit with the tree
  guard every chain still ends (within n + 65 steps): no move closes a cycle, however it interleaves
  with the moves committed before it.
\<close>

theorem hierarchy_stays_acyclic:
  assumes "mem_commit m p = (None, m')" "cp_kind p \<noteq> PkPublish" "\<not> cp_hardDelete p" "cp_tree p = Some g"
    and "opt_instant (oget (cp_after p) (tg_parentField g)) = Some (tg_parentId g)"
    and "acyclic_table n (mem_table m (cp_tenant p) (cp_resource p)) (tg_parentField g)"
    and "reaches_root 64 (mem_table m (cp_tenant p) (cp_resource p)) (tg_parentField g) (tg_parentId g)"
  shows "acyclic_table (n + 65) (mem_table m' (cp_tenant p) (cp_resource p)) (tg_parentField g)"
proof -
  have "tree_walk 64 (mem_table m (cp_tenant p) (cp_resource p)) (tg_parentField g) (cp_id p) (Some (tg_parentId g)) [] = Inr ()"
    using commit_guarded [OF assms(1,2)] assms(4) by (simp add: tree_check_def)
  from reparent_acyclic [OF assms(6) this assms(7,5)] show ?thesis
    using commit_table [OF assms(1,2)] assms(3) by (simp add: add.commute)
qed

theorem hierarchy_stays_acyclic_witness:
  "acyclic_table 66 (mem_table store_b ''t1'' node_resource) ''parent'' \<and>
   fst (mem_commit store_b (node_plan store_b PkUpdate (Some 1) ''a'' (node_row ''a'' ''n1'' 2 (JStr ''b'') ''2020'' (JStr ''2021''))))
     = Some cycle_err"
proof -
  have f: "cp_kind plan_b \<noteq> PkPublish" "\<not> cp_hardDelete plan_b"
    "cp_tree plan_b = Some \<lparr>tg_parentField = ''parent'', tg_parentId = ''a'', tg_ancestors = [''a'']\<rparr>"
    "opt_instant (oget (cp_after plan_b) ''parent'') = Some ''a''" "cp_tenant plan_b = ''t1''" "cp_resource plan_b = node_resource"
    by (simp_all add: plan_b_def node_plan_def node_row_def oget_def opt_instant_def nullish_def)
  have "acyclic_table 1 (mem_table store_a ''t1'' node_resource) ''parent''"
    "reaches_root 64 (mem_table store_a ''t1'' node_resource) ''parent'' ''a''"
    by code_simp+
  with hierarchy_stays_acyclic [OF store_b_commit f(1-3)] f(4-6)
  have "acyclic_table (1 + 65) (mem_table store_b ''t1'' node_resource) ''parent''" by fastforce
  moreover have "fst (mem_commit store_b (node_plan store_b PkUpdate (Some 1) ''a''
      (node_row ''a'' ''n1'' 2 (JStr ''b'') ''2020'' (JStr ''2021'')))) = Some cycle_err"
    by code_simp
  ultimately show ?thesis by simp
qed




text \<open>
  C31: pagination is complete. Following the cursor of each page returns every matching live record
  exactly once, in the declared order with the id as tie-breaker, whatever the page size.
\<close>

theorem list_pages_complete:
  assumes "pageable m t r q sk" "0 < lq_limit q" "lq_after q = None" "length (list_rows m t r q) \<le> n * lq_limit q"
  shows "mset (read_pages n m t r q sk) = mset (list_rows m t r q) \<and>
    sorted_wrt (\<lambda>a b. cmp_rows (list_dirs (lq_list q)) (sk a, js_string (oget a ''id'')) (sk b, js_string (oget b ''id'')) < 0)
      (read_pages n m t r q sk)"
proof
  note pages = read_pages_all [OF assms]
  have "mset (map fst (list_keyed m t r q sk)) = image_mset fst (mset (list_keyed m t r q sk))" by simp
  also have "\<dots> = mset (list_rows m t r q)"
    unfolding list_keyed_def mset_sort_by by (simp flip: mset_map add: o_def)
  finally show "mset (read_pages n m t r q sk) = mset (list_rows m t r q)" by (simp add: pages)
  have m: "snd x = (sk (fst x), js_string (oget (fst x) ''id''))" if "x \<in> set (list_keyed m t r q sk)" for x
    using list_keyed_member [OF that] by (simp add: prod_eq_iff)
  show "sorted_wrt (\<lambda>a b. cmp_rows (list_dirs (lq_list q)) (sk a, js_string (oget a ''id'')) (sk b, js_string (oget b ''id'')) < 0)
      (read_pages n m t r q sk)"
    unfolding pages sorted_wrt_map
    by (rule sorted_wrt_mono_rel [OF _ list_keyed_strict(1) [OF assms(1)]]) (simp add: m)
qed

definition names_query :: "nat \<Rightarrow> list_query" where
  "names_query n = \<lparr>lq_list = \<lparr>l_search = False, l_name = ''all'', l_fields = [],
     l_order = [\<lparr>ok_field = ''name'', ok_direction = ''desc''\<rparr>]\<rparr>, lq_values = [], lq_after = None, lq_limit = n\<rparr>"

theorem list_pages_complete_witness:
  "mset (read_pages 2 store_b ''t1'' node_resource (names_query 1) (\<lambda>x. [js_string (oget x ''name'')]))
     = mset (map snd (mem_table store_b ''t1'' node_resource)) \<and>
   map (\<lambda>x. oget x ''id'') (read_pages 2 store_b ''t1'' node_resource (names_query 1) (\<lambda>x. [js_string (oget x ''name'')]))
     = [JStr ''b'', JStr ''a'']"
proof -
  let ?sk = "\<lambda>x :: obj. [js_string (oget x ''name'')]"
  have "pageable store_b ''t1'' node_resource (names_query 1) ?sk" "0 < lq_limit (names_query 1)"
    "lq_after (names_query 1) = None" "length (list_rows store_b ''t1'' node_resource (names_query 1)) \<le> 2 * lq_limit (names_query 1)"
    by code_simp+
  from list_pages_complete [OF this]
  have "mset (read_pages 2 store_b ''t1'' node_resource (names_query 1) ?sk) = mset (list_rows store_b ''t1'' node_resource (names_query 1))"
    by blast
  moreover have "list_rows store_b ''t1'' node_resource (names_query 1) = map snd (mem_table store_b ''t1'' node_resource)"
    by code_simp
  moreover have "map (\<lambda>x. oget x ''id'') (read_pages 2 store_b ''t1'' node_resource (names_query 1) ?sk) = [JStr ''b'', JStr ''a'']"
    by code_simp
  ultimately show ?thesis by simp
qed

text \<open>
  An outbox lease excludes every other dispatcher. From a successful claim until its lease
  ends, whatever claims (at times not after the end) and progress reports under other names are
  tried, none has an effect, and the holder's next report is accepted; once another owner has
  claimed the row after the end, the old holder's reports are refused.
\<close>

theorem outbox_lease_exclusive:
  assumes "outboxClaim m r w now ms = (True, m1)" "list_all (foreign_op w (now + ms)) ops"
  shows "run_lease r m1 ops = m1 \<and> fst (outboxProgress (run_lease r m1 ops) r w u) \<and>
    (\<forall>w2 now2 ms2. w2 \<noteq> w \<and> now + ms < now2 \<longrightarrow>
       fst (outboxClaim m1 r w2 now2 ms2) \<and> \<not> fst (outboxProgress (snd (outboxClaim m1 r w2 now2 ms2)) r w u))"
proof -
  obtain y where y: "row_of m1 r = Some y" "or_status y = ObPending" "or_leaseOwner y = Some w" "or_leaseUntil y = Some (now + ms)"
    using outboxClaim_row [OF assms(1)] by blast
  have still: "run_lease r m1 ops = m1" by (rule run_foreign [OF y(1,3,4) assms(2)])
  obtain z where z: "progress_row w u y = Some z" using y by (simp add: progress_row_def Let_def)
  have "row_is r z" using z row_of_is [OF y(1)]
    by (auto simp: progress_row_def Let_def row_is_def split: if_splits)
  from outbox_op_accepted [where f = "progress_row w u", OF y(1) z this]
  have ok: "fst (outboxProgress m1 r w u)" by (auto simp: outboxProgress_def)
  have "fst (outboxClaim m1 r w2 now2 ms2) \<and> \<not> fst (outboxProgress (snd (outboxClaim m1 r w2 now2 ms2)) r w u)"
    if "w2 \<noteq> w" "now + ms < now2" for w2 now2 ms2
  proof -
    have c: "fst (outboxClaim m1 r w2 now2 ms2)" using y that(2) by (auto simp: outboxClaim_iff claim_row_def)
    then obtain m2 where m2: "outboxClaim m1 r w2 now2 ms2 = (True, m2)" by (metis prod.collapse)
    from outboxClaim_row [OF m2] obtain x where "row_of m2 r = Some x" "or_leaseOwner x = Some w2" by blast
    then have "outboxProgress m2 r w u = (False, m2)"
      using that(1) unfolding outboxProgress_def by (intro outbox_op_refused) (auto simp: progress_row_def)
    with c m2 show ?thesis by simp
  qed
  with still ok show ?thesis by simp
qed

definition event_ref :: outbox_ref where
  "event_ref = \<lparr>ref_tenant = ''t1'', ref_opId = ''o1'', ref_ordinal = 0\<rparr>"

definition release :: progress where
  "release = \<lparr>pg_delivered = [''s1''], pg_done = False, pg_dead = False, pg_release = True\<rparr>"

theorem outbox_lease_exclusive_witness:
  "run_lease event_ref (snd (outboxClaim store_a event_ref ''w1'' 100 30)) [TryClaim ''w2'' 120 30, TryProgress ''w2'' release]
     = snd (outboxClaim store_a event_ref ''w1'' 100 30) \<and>
   \<not> fst (outboxProgress (snd (outboxClaim (snd (outboxClaim store_a event_ref ''w1'' 100 30)) event_ref ''w2'' 200 30))
       event_ref ''w1'' release)"
proof -
  have "fst (outboxClaim store_a event_ref ''w1'' 100 30)" by code_simp
  then have "outboxClaim store_a event_ref ''w1'' 100 30 = (True, snd (outboxClaim store_a event_ref ''w1'' 100 30))"
    by (metis prod.collapse)
  from outbox_lease_exclusive [OF this, of "[TryClaim ''w2'' 120 30, TryProgress ''w2'' release]" release] show ?thesis
    by (auto dest: spec [of _ "''w2''"])
qed

end
