(* ===== verification/Transaction_Properties.thy ===== *)
theory Transaction_Properties
  imports Transaction_Correct Transaction_Lowering Engine_Sample Storage_Properties
begin

text \<open>The properties of transactions.\<close>

lemma transaction_failed:
  assumes "transaction E lc body ctx w = (Inl e, w')"
  shows "reading E w w'"
proof -
  have commit: "reading E w1 w2" if "tx_commit E v w1 = (Inl e, w2)" for v w1 w2
  proof -
    from that consider "w2 = w1" | ps where "storage_commit E (\<lambda>m. commitAll m ps [] (vw_reads v)) w1 = (Inl e, w2)"
      by (auto simp: tx_commit_def eff_bind_Inl_iff eff_ret_def eff_of_def eff_guard_def split: if_splits)
    then show ?thesis
    proof cases
      case 1
      then show ?thesis by simp
    next
      case 2
      then have "wo_store w2 = world_now E w1"
        using commitAll_fails
        by (fastforce simp: storage_commit_def storage_def world_now_def Let_def split: prod.splits option.splits)
      then show ?thesis by (simp add: reading_def world_now_def)
    qed
  qed
  from assms consider "w' = w" | v where "run_body E lc body view_new w = (Inl e, v, w')"
    | x v w1 where "run_body E lc body view_new w = (Inr x, v, w1)" "tx_commit E v w1 = (Inl e, w')"
    by (auto simp: transaction_def eff_bind_Inl_iff eff_guard_def eff_of_def eff_ret_def split: prod.splits sum.splits)
  then show ?thesis
  proof cases
    case 1
    then show ?thesis by simp
  next
    case (2 v)
    from run_body_extends [OF this] show ?thesis by (simp add: extends_def)
  next
    case (3 x v w1)
    from run_body_extends [OF 3(1)] commit [OF 3(2)] reading.trans show ?thesis by (auto simp: extends_def)
  qed
qed

text \<open>
  C1: transactions are serializable. Other callers may act between any two storage operations of a
  transaction, as long as they never lower a resource's revision and change its rows only with its
  revision (as every commit does). A transaction that fails has left the store to them. One that returns
  has, at some store they reached, read exactly that store overlaid with its own staged plans, at every
  read, and has atomically applied its folded and ordered plans to that store.
\<close>

theorem transaction_serializable:
  assumes "\<And>n m. rev_step D m (en_others E n m)" "body_in D body"
  shows "case transaction E lc body ctx w of
     (Inl e, w') \<Rightarrow> reading E w w'
   | (Inr x, w') \<Rightarrow> serialized E lc body w x w'"
proof (cases "transaction E lc body ctx w")
  case (Pair res w')
  show ?thesis
  proof (cases res)
    case (Inl e)
    with transaction_failed Pair show ?thesis by fastforce
  next
    case (Inr x)
    with transaction_serialized [OF assms] Pair show ?thesis by simp
  qed
qed

definition unit_order :: "string \<Rightarrow> string \<Rightarrow> int" where
  "unit_order a b = (if a < b then - 1 else if a = b then 0 else 1)"

definition ticket_plan :: commit_plan where
  "ticket_plan = (case fst (create desk_env ticket_resource (note_body ''ab'') desk_ctx desk_world) of Inr p \<Rightarrow> p | Inl e \<Rightarrow> plan_a)"

definition ticket_body :: "obj tx_body" where
  "ticket_body = TxMutate ''tickets.create'' (RRead ''t1'' ticket_resource (\<lambda>m. RDone (ticket_plan, cp_after ticket_plan)))
     (\<lambda>x. case x of Inl e \<Rightarrow> TxFail e | Inr y \<Rightarrow> TxRet y)"

definition quiet_ctx :: call_context where
  "quiet_ctx = desk_ctx\<lparr>cx_idempotencyKey := None\<rparr>"

theorem transaction_serializable_witness:
  "\<exists>x w'. transaction desk_env unit_order ticket_body quiet_ctx desk_world = (Inr x, w') \<and>
     serialized desk_env unit_order ticket_body desk_world x w'"
proof -
  have "case fst (transaction desk_env unit_order ticket_body quiet_ctx desk_world) of Inr x \<Rightarrow> True | Inl e \<Rightarrow> False" by code_simp
  then obtain x w' where t: "transaction desk_env unit_order ticket_body quiet_ctx desk_world = (Inr x, w')"
    by (cases "transaction desk_env unit_order ticket_body quiet_ctx desk_world") (auto split: sum.splits)
  have p: "cp_tenant ticket_plan = ''t1''" "cp_resource ticket_plan = ticket_resource" by code_simp+
  have b: "body_in {(''t1'', ticket_resource)} ticket_body" by (simp add: ticket_body_def p split: sum.splits)
  have o': "rev_step {(''t1'', ticket_resource)} m (en_others desk_env n m)" for n m by (simp add: desk_env_def)
  have "case transaction desk_env unit_order ticket_body quiet_ctx desk_world of
      (Inl e, w') \<Rightarrow> reading desk_env desk_world w' | (Inr x, w') \<Rightarrow> serialized desk_env unit_order ticket_body desk_world x w'"
    by (rule transaction_serializable [OF o' b])
  with t show ?thesis by simp
qed

text \<open>
  C13: folding a transaction loses nothing: the lowered plans carry every audit entry and every event
  of the staged ones; they write each record at most once, with the state its last staged plan gave it
  (a record created and deleted again is not written), and in an order in which every plan follows the
  plans it waits for: creations of what it references, and the removal of references to what it deletes.
\<close>

theorem lowering_faithful:
  assumes "lowerTransaction plans True = Inr out" "\<forall>p\<in>set plans. cp_kind p \<noteq> PkPublish"
  shows "lowers plans out"
  using assms by (rule lowerTransaction_lowers)

theorem lowering_faithful_witness:
  "\<exists>out. lowerTransaction [ticket_plan, ticket_plan\<lparr>cp_kind := PkUpdate, cp_before := Some (cp_after ticket_plan)\<rparr>] True = Inr out \<and>
     lowers [ticket_plan, ticket_plan\<lparr>cp_kind := PkUpdate, cp_before := Some (cp_after ticket_plan)\<rparr>] out"
proof -
  let ?ps = "[ticket_plan, ticket_plan\<lparr>cp_kind := PkUpdate, cp_before := Some (cp_after ticket_plan)\<rparr>]"
  have "case lowerTransaction ?ps True of Inr out \<Rightarrow> True | Inl e \<Rightarrow> False" by code_simp
  then obtain out where out: "lowerTransaction ?ps True = Inr out" by (auto split: sum.splits)
  have "cp_kind ticket_plan = PkCreate" by code_simp
  then have "\<forall>p\<in>set ?ps. cp_kind p \<noteq> PkPublish" by simp
  from lowering_faithful [OF out this] out show ?thesis by blast
qed

end
