(* ===== verification/Engine_Properties.thy ===== *)
theory Engine_Properties
  imports Engine_Sample
begin

text \<open>
  The properties of the engine, each with a witness on the sample application where it has
  hypotheses.
\<close>

section \<open>Mutations\<close>


text \<open>
  No mutation, whatever its operation, changes or removes a row of an append-only resource, as
  long as concurrent callers do not.
\<close>

theorem append_only_preserved:
  assumes "mutate E opId body ctx rc w = (res, w')" "dc_appendOnly (r_decorators r)"
    and "\<And>n m. rows_kept t r m (en_others E n m)" "plain_text t" "plain_text (cx_tenant ctx)"
    and "\<And>oid op q. model_operation (en_model E) oid = Some (op, q) \<Longrightarrow> r_id q = r_id r \<Longrightarrow> q = r"
  shows "rows_kept t r (wo_store w) (wo_store w')"
proof (cases res)
  case (Inl e)
  with planning_rows [OF mutate_Inl [of E opId body ctx rc w e w'] assms(3)] assms(1) show ?thesis by simp
next
  case (Inr x)
  obtain p w1 p' where m: "authorizedPlan E opId body ctx w = (Inr p, w1)" "with_receipt E rc p = Inr p'"
    "mem_commit (world_now E w1) p' = (None, wo_store w')"
    using mutate_Inr [OF assms(1) [unfolded Inr]] .
  obtain wp wq where f: "planFor E opId body ctx False wp = (Inr p, wq)" using authorizedPlan_ok(3) [OF m(1)] by blast
  note pl = planFor_plan [OF f]
  have p': "cp_kind p' = cp_kind p" "cp_resource p' = cp_resource p" "cp_tenant p' = cx_tenant ctx" "cp_hardDelete p' = cp_hardDelete p"
    using m(2) pl(1) by (auto simp: with_receipt_def bind_res_Inr_iff split: option.splits)
  have own: "cp_resource p = r" if "r_id (cp_resource p) = r_id r"
    using pl(5) assms(6) [OF _ that] by blast
  have "rows_kept t r (wo_store w) (wo_store w1)" by (rule planning_rows [OF authorizedPlan_ok(1) [OF m(1)] assms(3)])
  moreover have "rows_kept t r (wo_store w1) (world_now E w1)" unfolding world_now_def by (rule assms(3))
  ultimately have before: "rows_kept t r (wo_store w) (world_now E w1)" by (rule rows_kept_trans)
  have "rows_kept t r (world_now E w1) (wo_store w')"
  proof (cases "(t, r_id r) = (cp_tenant p', r_id (cp_resource p'))")
    case True
    then have "r_id (cp_resource p) = r_id r" unfolding p'(2) by (metis prod.inject)
    then have r: "cp_resource p = r" by (rule own)
    have c: "cp_kind p = PkCreate" using pl(6) assms(2) unfolding r by blast
    then have h: "\<not> cp_hardDelete p" using pl(8,9) by blast
    show ?thesis
      by (rule create_commit_rows [OF m(3) _ _ assms(4)]) (simp_all add: p' c h r assms(5))
  next
    case False
    show ?thesis by (rule other_commit_rows [OF m(3) assms(4) _ False]) (use p' assms(5) in simp)
  qed
  with before show ?thesis by (rule rows_kept_trans)
qed

theorem append_only_preserved_witness:
  "rows_kept ''t1'' note_resource (wo_store desk_world) (wo_store (snd (mutate desk_env ''notes.create'' (note_body ''ab'') desk_ctx None desk_world)))"
proof (rule append_only_preserved)
  show "mutate desk_env ''notes.create'' (note_body ''ab'') desk_ctx None desk_world =
    (fst (mutate desk_env ''notes.create'' (note_body ''ab'') desk_ctx None desk_world),
     snd (mutate desk_env ''notes.create'' (note_body ''ab'') desk_ctx None desk_world))" by simp
  show "dc_appendOnly (r_decorators note_resource)" "plain_text ''t1''" "plain_text (cx_tenant desk_ctx)" by code_simp+
  show "rows_kept ''t1'' note_resource m (en_others desk_env n m)" for n m by (simp add: desk_env_def rows_kept_def)
  fix oid op q
  assume "model_operation (en_model desk_env) oid = Some (op, q)" "r_id q = r_id note_resource"
  then have "(oid, op, q) \<in> set (m_ops desk_model)" "r_id q = r_id note_resource"
    by (auto simp: model_operation_def desk_env_def dest!: map_of_SomeD)
  moreover have "list_all (\<lambda>(i, d, r). r_id r = r_id note_resource \<longrightarrow> r = note_resource) (m_ops desk_model)" by code_simp
  ultimately show "q = note_resource" by (fastforce simp: list_all_iff)
qed

text \<open>
  C17: an idempotency key is used once: after a call under a key has returned, as long as the store
  keeps its receipt, every later call under the key leaves the store as it is; it returns the same value
  (or an error, if authority was lost since), or IdempotencyMismatch if its request hashes differently.
\<close>

theorem idempotent_replay:
  assumes "effective_key explicit ctx = Some key"
    and "withIdempotency E opn body ctx (mutate E opn body ctx) explicit w = (Inr v, w')"
    and "mem_getReceipt (world_now E u) (cx_tenant ctx) opn key = mem_getReceipt (wo_store w') (cx_tenant ctx) opn key"
    and "withIdempotency E opn body' ctx run explicit u = (r, u')"
  shows "wo_store u' = world_now E u \<and>
    (if sha256 E (stable_json (JObj body)) \<noteq> sha256 E (stable_json (JObj body')) then r = Inl (err ''IdempotencyMismatch'')
     else (r = Inr v \<or> (\<exists>e. r = Inl e)) \<and> (gk_authorizer (wo_gate u) = None \<longrightarrow> r = Inr v))"
proof -
  obtain rc where rc: "mem_getReceipt (wo_store w') (cx_tenant ctx) opn key = Some rc"
    "rc_requestHash rc = sha256 E (stable_json (JObj body))" "rc_response rc = v"
    using withIdempotency_receipt [OF assms(1,2)] by blast
  let ?u = "u\<lparr>wo_store := world_now E u, wo_tick := wo_tick u + 1\<rparr>"
  have "replay E opn ctx (sha256 E (stable_json (JObj body'))) rc ?u = (r, u')"
    using withIdempotency_known [OF assms(1), of E u opn rc body' run] assms(3,4) rc(1) by simp
  then show ?thesis
    using replay_store [of E opn ctx "sha256 E (stable_json (JObj body'))" rc ?u r u']
      replay_open [of ?u rc "sha256 E (stable_json (JObj body'))" E opn ctx] rc by auto
qed

definition noted :: "jsval res \<times> world" where
  "noted = withIdempotency desk_env ''notes.create'' (note_body ''ab'') desk_ctx
     (mutate desk_env ''notes.create'' (note_body ''ab'') desk_ctx) None desk_world"

theorem idempotent_replay_witness:
  "\<exists>v r u'. noted = (Inr v, snd noted) \<and> withIdempotency desk_env ''notes.create'' (note_body ''ab'') desk_ctx
     (mutate desk_env ''notes.create'' (note_body ''ab'') desk_ctx) None (snd noted) = (r, u') \<and>
     wo_store u' = wo_store (snd noted) \<and> r = Inr v"
proof -
  have "case fst noted of Inr v \<Rightarrow> True | Inl e \<Rightarrow> False" by code_simp
  then obtain v where v: "noted = (Inr v, snd noted)" by (cases "fst noted") (auto simp: prod_eq_iff)
  obtain r u' where r: "withIdempotency desk_env ''notes.create'' (note_body ''ab'') desk_ctx
     (mutate desk_env ''notes.create'' (note_body ''ab'') desk_ctx) None (snd noted) = (r, u')" by (meson surj_pair)
  have k: "effective_key None desk_ctx = Some ''k1''" by code_simp
  have n: "world_now desk_env (snd noted) = wo_store (snd noted)" by (simp add: world_now_def desk_env_def)
  have g: "gk_authorizer (wo_gate (snd noted)) = None" by code_simp
  have w: "withIdempotency desk_env ''notes.create'' (note_body ''ab'') desk_ctx
     (mutate desk_env ''notes.create'' (note_body ''ab'') desk_ctx) None desk_world = (Inr v, snd noted)"
    using v by (simp add: noted_def)
  have s: "mem_getReceipt (world_now desk_env (snd noted)) (cx_tenant desk_ctx) ''notes.create'' ''k1'' =
    mem_getReceipt (wo_store (snd noted)) (cx_tenant desk_ctx) ''notes.create'' ''k1''" by (simp only: n)
  from idempotent_replay [OF k w s r] v r n g show ?thesis by simp
qed

text \<open>
  An update changes the members of the patch only: every other member of the stored record
  keeps its value in the new state, except the version, which grows by one, and the update time.
\<close>

theorem update_touches_patch:
  assumes "update E r body ctx w = (Inr p, w')" "distinct (map f_name (writable_fields ModePatch (r_fields r)))"
    and "k \<notin> f_name ` set (writable_fields ModePatch (r_fields r))"
  shows "\<exists>before. cp_before p = Some before \<and>
    (k \<noteq> ''version'' \<longrightarrow> k \<noteq> ''updatedAt'' \<longrightarrow> map_of before k \<noteq> Some (JStr SELF_REFERENCE) \<longrightarrow>
       map_of (cp_after p) k = map_of before k) \<and>
    (k = ''version'' \<longrightarrow> dc_versioned (r_decorators r) \<longrightarrow> (\<forall>v. cp_expectedVersion p = Some v \<longrightarrow> safe_int (v + 1) \<longrightarrow>
       oget before k = JInt v \<and> map_of (cp_after p) k = Some (JInt (v + 1))))"
  using assms by (rule update_untouched)

definition ticketed :: world where
  "ticketed = snd (mutate desk_env ''tickets.create'' (note_body ''ab'') desk_ctx None desk_world)"

definition retitle :: obj where
  "retitle = [(''id'', JStr ''tickets-2''), (''expectedVersion'', JInt 1), (''patch'', JObj (note_body ''cd''))]"

theorem update_touches_patch_witness:
  "\<exists>p w'. update desk_env ticket_resource retitle desk_ctx ticketed = (Inr p, w') \<and>
     (\<exists>before. cp_before p = Some before \<and> map_of (cp_after p) ''status'' = map_of before ''status'')"
proof -
  have "case fst (update desk_env ticket_resource retitle desk_ctx ticketed) of Inr p \<Rightarrow>
      (case cp_before p of Some b \<Rightarrow> map_of b ''status'' \<noteq> Some (JStr SELF_REFERENCE) | None \<Rightarrow> False) | Inl e \<Rightarrow> False" by code_simp
  then obtain p w' where p: "update desk_env ticket_resource retitle desk_ctx ticketed = (Inr p, w')"
    "case cp_before p of Some b \<Rightarrow> map_of b ''status'' \<noteq> Some (JStr SELF_REFERENCE) | None \<Rightarrow> False"
    by (cases "update desk_env ticket_resource retitle desk_ctx ticketed") (auto split: sum.splits)
  have "distinct (map f_name (writable_fields ModePatch (r_fields ticket_resource)))"
    "''status'' \<notin> f_name ` set (writable_fields ModePatch (r_fields ticket_resource))" by code_simp+
  from update_touches_patch [OF p(1) this] p show ?thesis by auto
qed

text \<open>
  C33: a lifecycle moves along its declared transitions only: a planned transition starts from a live
  record whose state is one of the transition's sources and ends in its target, and changes nothing
  else but the version and the update time.
\<close>

theorem transition_follows_lifecycle:
  "case transition E r action body ctx w of
     (Inl e, w') \<Rightarrow> True
   | (Inr p, w') \<Rightarrow> \<exists>before lc t. cp_before p = Some before \<and> is_live before \<and> r_lifecycle r = Some lc \<and>
       t \<in> set (lc_transitions lc) \<and> action = Some (t_action t) \<and> js_string (oget before (lc_field lc)) \<in> set (t_from t) \<and>
       (\<forall>k. k \<in> {lc_field lc, ''version'', ''updatedAt''} \<or> map_of (cp_after p) k = map_of before k) \<and>
       (lc_field lc \<in> {''version'', ''updatedAt''} \<or> map_of (cp_after p) (lc_field lc) = Some (JStr (t_to t)))"
proof (cases "transition E r action body ctx w")
  case (Pair res w')
  show ?thesis
  proof (cases res)
    case (Inr p)
    obtain before lc t now where t: "cp_before p = Some before" "is_live before" "r_lifecycle r = Some lc"
      "t \<in> set (lc_transitions lc)" "action = Some (t_action t)" "js_string (oget before (lc_field lc)) \<in> set (t_from t)"
      "cp_after p = stamp E r before now (mput (lc_field lc) (JStr (t_to t)) before)"
      using transition_plan [OF Pair [unfolded Inr]] by metis
    have m: "map_of (cp_after p) k = (if k = lc_field lc then Some (JStr (t_to t)) else map_of before k)"
      if "k \<noteq> ''version''" "k \<noteq> ''updatedAt''" for k
      unfolding t(7) stamp_other [OF that] by simp
    have others: "\<forall>k. k \<in> {lc_field lc, ''version'', ''updatedAt''} \<or> map_of (cp_after p) k = map_of before k"
      using m by (metis insertCI)
    have own: "lc_field lc \<in> {''version'', ''updatedAt''} \<or> map_of (cp_after p) (lc_field lc) = Some (JStr (t_to t))"
      using m [of "lc_field lc"] by (metis insertCI)
    show ?thesis
      unfolding Pair Inr prod.case sum.case
      by (intro exI [of _ before] exI [of _ lc] exI [of _ t] conjI t(1-6) others own)
  qed (simp add: Pair)
qed

section \<open>Sequences\<close>

text \<open>
  C32: a sequence number handed out lies within the declared bounds, is greater than every number
  reserved before the call, and is the last one reserved when the call returns; concurrent callers only
  have to do the same (\<open>seq_step\<close>), which this call does itself, whether it returns a number or fails.
  So no number is handed out twice.
\<close>

theorem sequence_numbers_unique:
  assumes "\<And>n m. seq_step sq t key m (en_others E n m)" "safe_int (sq_start sq)" "safe_int (sq_max sq + 1)"
    and "seq_wf sq t key (wo_store w)" "reserve k E t sq key w = (res, w')"
  shows "seq_step sq t key (wo_store w) (wo_store w') \<and>
    (\<forall>n. res = Inr n \<longrightarrow> sq_start sq \<le> n \<and> n \<le> sq_max sq \<and> seq_last (wo_store w') t key = Some n \<and>
      (\<forall>l. seq_last (wo_store w) t key = Some l \<longrightarrow> l < n))"
  using assms by (rule reserve_step)

theorem sequence_numbers_unique_witness:
  "\<exists>w'. reserve SEQUENCE_ATTEMPTS desk_env ''t1'' serial_decl ''k'' desk_world = (Inr 1, w') \<and> seq_last (wo_store w') ''t1'' ''k'' = Some 1"
proof -
  have "fst (reserve SEQUENCE_ATTEMPTS desk_env ''t1'' serial_decl ''k'' desk_world) = Inr 1" by code_simp
  then obtain w' where r: "reserve SEQUENCE_ATTEMPTS desk_env ''t1'' serial_decl ''k'' desk_world = (Inr 1, w')" by (metis prod.collapse)
  have o': "seq_step serial_decl ''t1'' ''k'' m (en_others desk_env n m)" for n m by (simp add: desk_env_def seq_step_refl)
  have s: "safe_int (sq_start serial_decl)" "safe_int (sq_max serial_decl + 1)" by code_simp+
  have f: "seq_wf serial_decl ''t1'' ''k'' (wo_store desk_world)"
    by (simp add: seq_wf_def seq_doc_def desk_world_def memory_new_def getDocument_def)
  from sequence_numbers_unique [OF o' s f r] r show ?thesis by blast
qed

text \<open>
  Without concurrent callers a reservation never fails for contention: it returns a number at the
  first attempt, or the sequence is exhausted.
\<close>

theorem sequence_reserves:
  assumes "\<And>n m. en_others E n m = m" "reserve (Suc k) E t sq key w = (res, w')"
  shows "(\<exists>n. res = Inr n) \<or> res = Inl (err ''SequenceExhausted'')"
  using assms by (rule reserve_alone)

theorem sequence_reserves_witness:
  "(\<exists>n. fst (reserve (Suc 0) desk_env ''t1'' serial_decl ''k'' desk_world) = Inr n) \<or>
   fst (reserve (Suc 0) desk_env ''t1'' serial_decl ''k'' desk_world) = Inl (err ''SequenceExhausted'')"
proof -
  have o': "en_others desk_env n m = m" for n m by (simp add: desk_env_def)
  from sequence_reserves [OF o', of 0 "''t1''" serial_decl "''k''" desk_world] show ?thesis by (metis prod.collapse)
qed

section \<open>Reads\<close>


section \<open>Composed mutations\<close>


end
