(* ===== verification/Access_Properties.thy ===== *)
theory Access_Properties
  imports Engine_Sample Json_Correct
begin

text \<open>
  The properties of the layers around the engine: purpose surfaces, the local authorizer and its
  cache, the OAuth gate, the suppression ledger, cursors and JSON.
\<close>

section \<open>Purpose surfaces\<close>

definition granted :: "surface \<Rightarrow> obj \<Rightarrow> bool" where
  "granted s rcd \<longleftrightarrow> list_all (\<lambda>(k, v). permits s ''read'' k \<or> (k = ''version'' \<and> grants_write s)) rcd"

definition granted_result :: "surface \<Rightarrow> string \<Rightarrow> jsval \<Rightarrow> bool" where
  "granted_result s kind v = (case v of
     JObj rcd \<Rightarrow> if kind = ''list'' then (case oget rcd ''items'' of
         JArr items \<Rightarrow> list_all (\<lambda>i. case i of JObj x \<Rightarrow> granted s x | _ \<Rightarrow> True) items | _ \<Rightarrow> True)
       else granted s rcd
   | _ \<Rightarrow> False)"

lemma project_granted: "granted s (scope_project s rcd)"
proof -
  have "permits s ''read'' k \<or> (k = ''version'' \<and> grants_write s)" if "(k, v) \<in> set (scope_project s rcd)" for k v
  proof -
    have "map_of (scope_project s rcd) k \<noteq> None" using that unfolding map_of_eq_None_iff by (metis fst_conv image_eqI)
    then show ?thesis unfolding scope_project_member by (auto split: if_splits)
  qed
  then show ?thesis by (auto simp: granted_def list_all_iff)
qed

lemma project_value_Inr: "project_value f v = Inr y \<longleftrightarrow> (\<exists>x. v = JObj x \<and> y = JObj (f x))"
  by (cases v) (auto simp: project_value_def)

lemma eff_project_run: "eff_project f m w = (Inr v, w') \<Longrightarrow> \<exists>x. v = JObj (f x)"
  by (auto simp: eff_project_def eff_simps project_value_Inr)

lemma checked_run: "checked c m w = (Inr v, w') \<Longrightarrow> m w = (Inr v, w')"
  by (auto simp: checked_def eff_simps)

lemma page_granted: "granted_result s ''list'' (JObj (scope_projectPage s page))"
  by (auto simp: granted_result_def scope_projectPage_def oget_def list_all_iff project_granted split: jsval.splits option.splits)

text \<open>
  C30: whatever operation runs under a purpose surface, its result holds only members whose read the
  surface grants (and \<open>version\<close> where it grants a write); for a list this holds of every item.
\<close>

theorem scope_projects_results:
  "case scopedOperation E L s op r body ctx w of
     (Inr v, w') \<Rightarrow> granted_result s (op_kind op) v
   | (Inl e, w') \<Rightarrow> True"
proof (cases "scopedOperation E L s op r body ctx w")
  case (Pair res w')
  show ?thesis
  proof (cases res)
    case (Inr v)
    note run = Pair [unfolded Inr scopedOperation_def Let_def]
    show ?thesis
    proof (cases "op_kind op = ''list''")
      case True
      with run obtain m u where "eff_project (scope_projectPage s) m u = (Inr v, w')"
        by (auto simp: eff_simps dest!: checked_run)
      from eff_project_run [OF this] True show ?thesis using page_granted by (auto simp: Pair Inr)
    next
      case False
      with run obtain m u where "eff_project (scope_project s) m u = (Inr v, w')"
        by (auto simp: eff_simps split: if_splits dest!: checked_run)
      from eff_project_run [OF this] False show ?thesis using project_granted by (auto simp: Pair Inr granted_result_def)
    qed
  qed (simp add: Pair)
qed

section \<open>Authorization\<close>

text \<open>
  C29: the local authorizer allows a request exactly when some policy that applies to its action and
  purpose permits it on its own: all required attributes present and fresh, every obligation known to
  the runtime, and every condition true of the current and of the candidate state. The order of the
  policies and the ones that are skipped never matter.
\<close>

theorem local_authorizer_sound:
  "de_allow (local_decide o' now q) \<longleftrightarrow> (\<exists>p. policy_permits o' (to_iso now) q p)"
  by (rule local_decide_iff)

text \<open>
  A decision of an earlier policy epoch is never reused: when every cached decision is of another
  epoch, the gatekeeper asks the authorizer.
\<close>

theorem stale_epoch_not_used:
  assumes "gk_authorizer g = Some a" "\<not> cx_maintenance ctx"
    and "list_all (\<lambda>(k, d, until). de_epoch d \<noteq> az_epoch a) (gk_cache g)"
    and "gk_decide pl now g action kind r ctx current candidate = Inr (d, g')"
  shows "az_decide a now (authz_request_of ctx action kind r current candidate
      (attributes g now action (cx_purpose ctx) (cx_actor ctx))) = Inr d"
  using assms by (rule decide_not_cached)

definition open_options :: "int \<Rightarrow> local_options" where
  "open_options e = \<lparr>lo_policies = [\<lparr>po_id = ''p1'', po_actions = [''notes.*''], po_purpose = None, po_requires = [], po_where = [],
     po_obligations = []\<rparr>], lo_pips = [], lo_epoch = e, lo_known = [], lo_ttlMs = 60000\<rparr>"

definition guarded_gate :: gatekeeper where
  "guarded_gate = desk_gate\<lparr>gk_authorizer := Some (localAuthorizer (open_options 2)),
     gk_cache := [(''2|t1|ann|notes.get||-||'', deny (open_options 1) [] None, 100000)]\<rparr>"

theorem stale_epoch_not_used_witness:
  "\<exists>d g'. gk_decide plain_platform 0 guarded_gate ''notes.get'' ''read'' None desk_ctx None None = Inr (d, g') \<and>
     az_decide (localAuthorizer (open_options 2)) 0 (authz_request_of desk_ctx ''notes.get'' ''read'' None None None
       (attributes guarded_gate 0 ''notes.get'' (cx_purpose desk_ctx) (cx_actor desk_ctx))) = Inr d"
proof -
  have "case gk_decide plain_platform 0 guarded_gate ''notes.get'' ''read'' None desk_ctx None None of Inr x \<Rightarrow> True | Inl e \<Rightarrow> False"
    by code_simp
  then obtain d g' where d: "gk_decide plain_platform 0 guarded_gate ''notes.get'' ''read'' None desk_ctx None None = Inr (d, g')"
    by (auto split: sum.splits)
  have a: "gk_authorizer guarded_gate = Some (localAuthorizer (open_options 2))" by (simp add: guarded_gate_def)
  have m: "\<not> cx_maintenance desk_ctx"
    "list_all (\<lambda>(k, d, until). de_epoch d \<noteq> az_epoch (localAuthorizer (open_options 2))) (gk_cache guarded_gate)" by code_simp+
  from stale_epoch_not_used [OF a m d] d show ?thesis by blast
qed

section \<open>The OAuth gate\<close>

definition published_access :: "publication \<Rightarrow> gatekeeper \<Rightarrow> string \<Rightarrow> oauth_access option \<Rightarrow> int \<Rightarrow> bool" where
  "published_access p g opId access now \<longleftrightarrow> gk_authorizer g \<noteq> None \<and>
     (\<exists>rule. map_of (pb_operations p) opId = Some rule \<and>
       (ou_visibility rule = ''public'' \<or>
        ou_visibility rule = ''oauth2'' \<and> ou_scopes rule \<noteq> [] \<and> valid_access p access now \<and>
          (\<exists>a. access = Some a \<and> set (ou_scopes rule) \<subseteq> set (oa_scopes a))))"

text \<open>
  A call to an engine with an OAuth publication fails closed: outside maintenance it runs only if an
  authorizer is configured and the operation is published either as public or with scopes that an unexpired,
  audience-bound access token of a listed issuer holds; otherwise it fails and the world is untouched.
\<close>

theorem oauth_fails_closed:
  "(oauthGate (Some p) g opId ctx access now = None \<longleftrightarrow> cx_maintenance ctx \<or> published_access p g opId access now) \<and>
   (oauthGate (Some p) (wo_gate w) opId ctx access (en_dateNow E (wo_tick w)) = None \<or>
     (\<exists>e w'. call E L (Some p) access opId input ctx w = (Inl e, w') \<and> wo_store w' = wo_store w))"
proof
  show "oauthGate (Some p) g opId ctx access now = None \<longleftrightarrow> cx_maintenance ctx \<or> published_access p g opId access now"
    by (auto simp: oauthGate_def checkPublishedOAuth_def published_access_def valid_access_def list_all_iff subset_iff
        split: option.splits)
  show "oauthGate (Some p) (wo_gate w) opId ctx access (en_dateNow E (wo_tick w)) = None \<or>
     (\<exists>e w'. call E L (Some p) access opId input ctx w = (Inl e, w') \<and> wo_store w' = wo_store w)"
    by (auto simp: call_def split: option.splits)
qed

section \<open>Suppressed subjects\<close>

lemma suppressed_iff: "suppressed E m t s \<longleftrightarrow> map_of (me_documents m) (key3 t SUPPRESSION_KIND (suppression_token E t (fst s) (snd s))) \<noteq> None"
  by (simp add: suppressed_def mem_getDocument_def getDocument_def)

text \<open>Writing a document removes no entry of the ledger, whatever its key.\<close>

lemma suppressed_write: "suppressed E m t s \<Longrightarrow> mem_putDocument m t' k i d e = Inr m' \<Longrightarrow> suppressed E m' t s"
  by (auto simp: suppressed_iff mem_putDocument_def putDocument_def Let_def bind_res_Inr_iff split: if_splits)

lemma suppressed_planning:
  assumes "planning E w w'" "suppressed E (wo_store w) t s" "\<And>n m. suppressed E m t s \<Longrightarrow> suppressed E (en_others E n m) t s"
  shows "suppressed E (wo_store w') t s"
  using assms(1,2) unfolding planning_def
  by (induction rule: rtranclp_induct) (auto simp: others_act_def sequence_write_def intro: assms(3) suppressed_write)

text \<open>
  Erasure holds: once a subject is recorded in the suppression ledger, as long as other callers
  delete no entry, every mutation that returns has left alone the data of the subject: it was no create,
  update or restore of a record that belongs to the subject.
\<close>

theorem suppressed_subject_refused:
  assumes "suppression_record E (cx_tenant ctx) s e w = (Inr entry, w1)"
    and "\<And>n m. suppressed E m (cx_tenant ctx) s \<Longrightarrow> suppressed E (en_others E n m) (cx_tenant ctx) s"
    and "mutate E opId body ctx rc (w1\<lparr>wo_gate := g\<rparr>) = (Inr x, w2)"
  shows "\<exists>p. committed E opId ctx rc (w1\<lparr>wo_gate := g\<rparr>) p w2 \<and> resultOf E p = Inr x \<and>
    (subjectOf (cp_resource p) (cp_after p) = Some s \<longrightarrow> plan_kind_text (cp_kind p) \<notin> {''create'', ''update'', ''restore''})"
proof -
  obtain p where p: "committed E opId ctx rc (w1\<lparr>wo_gate := g\<rparr>) p w2" "resultOf E p = Inr x"
    using mutate_committed [OF assms(3)] by blast
  obtain w3 where w3: "planning E (w1\<lparr>wo_gate := g\<rparr>) w3" "subject_free E (wo_store w3) p" "cp_tenant p = cx_tenant ctx"
    using p(1) unfolding committed_def by blast
  have "suppressed E (wo_store (w1\<lparr>wo_gate := g\<rparr>)) (cx_tenant ctx) s" using suppression_recorded [OF assms(1)] by simp
  from suppressed_planning [OF w3(1) this assms(2)] have "suppressed E (wo_store w3) (cx_tenant ctx) s" .
  with w3(2,3) have "plan_kind_text (cp_kind p) \<notin> {''create'', ''update'', ''restore''}"
    if "subjectOf (cp_resource p) (cp_after p) = Some s"
    using that by (auto simp: subject_free_def GUARDED_KINDS_def split: if_splits)
  with p show ?thesis by blast
qed

definition erased :: suppression_event where
  "erased = \<lparr>se_kind = ''erased'', se_reason = ''request'', se_at = ''2026-01-01T00:00:00.000Z'', se_epoch = 1\<rparr>"

theorem suppressed_subject_refused_witness:
  "\<exists>entry w1 x w2 p. suppression_record desk_env (cx_tenant desk_ctx) (''people'', ''p1'') erased desk_world = (Inr entry, w1) \<and>
     mutate desk_env ''notes.create'' (note_body ''ab'') desk_ctx None (w1\<lparr>wo_gate := desk_gate\<rparr>) = (Inr x, w2) \<and>
     committed desk_env ''notes.create'' desk_ctx None (w1\<lparr>wo_gate := desk_gate\<rparr>) p w2"
proof -
  have "case suppression_record desk_env (cx_tenant desk_ctx) (''people'', ''p1'') erased desk_world of
      (Inr entry, w1) \<Rightarrow> (case fst (mutate desk_env ''notes.create'' (note_body ''ab'') desk_ctx None (w1\<lparr>wo_gate := desk_gate\<rparr>)) of
        Inr x \<Rightarrow> True | Inl e \<Rightarrow> False) | (Inl e, w1) \<Rightarrow> False" by code_simp
  then obtain entry w1 where e: "suppression_record desk_env (cx_tenant desk_ctx) (''people'', ''p1'') erased desk_world = (Inr entry, w1)"
    and m: "case fst (mutate desk_env ''notes.create'' (note_body ''ab'') desk_ctx None (w1\<lparr>wo_gate := desk_gate\<rparr>)) of
        Inr x \<Rightarrow> True | Inl e \<Rightarrow> False"
    by (auto split: prod.splits sum.splits)
  obtain y w2 where y: "mutate desk_env ''notes.create'' (note_body ''ab'') desk_ctx None (w1\<lparr>wo_gate := desk_gate\<rparr>) = (y, w2)" by (meson surj_pair)
  with m obtain x where "y = Inr x" by (cases y) auto
  with e y have r:
    "suppression_record desk_env (cx_tenant desk_ctx) (''people'', ''p1'') erased desk_world = (Inr entry, w1)"
    "mutate desk_env ''notes.create'' (note_body ''ab'') desk_ctx None (w1\<lparr>wo_gate := desk_gate\<rparr>) = (Inr x, w2)"
    by simp_all
  have "suppressed desk_env m (cx_tenant desk_ctx) (''people'', ''p1'') \<Longrightarrow>
      suppressed desk_env (en_others desk_env n m) (cx_tenant desk_ctx) (''people'', ''p1'')" for n m
    by (simp add: desk_env_def)
  from suppressed_subject_refused [OF r(1) this r(2)] r show ?thesis by blast
qed

section \<open>Cursors and JSON\<close>

text \<open>
  A cursor the engine handed out for a query and tenant is read back to the state it was made of,
  and whatever is read as a cursor carries the keyed hash of its own payload and was made for that query
  and tenant.
\<close>

theorem cursor_roundtrip:
  assumes "hmac_bytes E" "safe_int (cu_v s)" "list_all json_clean (cu_r s)"
  shows "decodeCursor E (encodeCursor E s) (cu_q s) (cu_t s) = Inr (cursor_json s) \<and>
    (\<forall>c q t st. decodeCursor E c q t = Inr st \<longrightarrow>
      (\<exists>payload rest. split_on (CHR ''.'') c = payload # cursor_hmac E payload # rest \<and> unsealed E payload = Some (JObj st)
         \<and> oget st ''q'' = JStr q \<and> oget st ''t'' = JStr t))"
  using cursor_back [OF assms] cursor_accepted by blast

definition sample_cursor :: cursor_state where
  "sample_cursor = \<lparr>cu_q = ''notes.list'', cu_v = 1, cu_t = ''t1'', cu_k = [''a''], cu_r = [JStr ''a'', JNull], cu_id = ''n1''\<rparr>"

theorem cursor_roundtrip_witness:
  "decodeCursor desk_env (encodeCursor desk_env sample_cursor) ''notes.list'' ''t1'' = Inr (cursor_json sample_cursor)"
proof -
  have h: "hmac_bytes desk_env" by (simp add: hmac_bytes_def desk_env_def bytes_def list_all_iff)
  have s: "safe_int (cu_v sample_cursor)" "list_all json_clean (cu_r sample_cursor)" by code_simp+
  from cursor_roundtrip [OF h s] show ?thesis by (simp add: sample_cursor_def)
qed

text \<open>
  What \<open>JSON.stringify\<close> prints \<open>JSON.parse\<close> reads back: every value of nulls, booleans, safe integers,
  texts, arrays and objects with distinct member names survives the round trip.
\<close>

theorem json_roundtrip:
  assumes "json_clean v"
  shows "json_parse fl (json_text v) = Some v"
  using assms by (rule json_parse_text)

theorem json_roundtrip_witness:
  "json_parse (pl_ieee plain_platform) (json_text (JObj [(''a'', JArr [JInt (-3), JStr ''x''])])) = Some (JObj [(''a'', JArr [JInt (-3), JStr ''x''])])"
proof -
  have "json_clean (JObj [(''a'', JArr [JInt (-3), JStr ''x''])])" by (simp add: safe_int_def)
  from json_roundtrip [OF this] show ?thesis .
qed

section \<open>Moves in a hierarchy\<close>

definition folder_resource :: resource where
  "folder_resource = \<lparr>r_id = ''folders'', r_name = ''Folder'', r_blob = False,
     r_decorators = plain_decorators\<lparr>dc_hierarchical := True, dc_tenant := True\<rparr>,
     r_fields = [id_field, plain_field ''title'' text_type,
       (plain_field ''parent'' (TypeSpec (TReference ''folders'') True [] []))],
     r_uniques = [], r_finds = [], r_lists = [], r_rules = [], r_lifecycle = None,
     r_operations = [op_decl ''folders'' ''create'', op_decl ''folders'' ''update'', op_decl ''folders'' ''move'']\<rparr>"

definition folder_env :: env where
  "folder_env = desk_env\<lparr>en_model := (case Model_new (desk_ir\<lparr>ir_modules := [\<lparr>mo_shapes = [], mo_enums = [],
     mo_resources = [folder_resource], mo_views = [], mo_projections = []\<rparr>]\<rparr>) of Inr m \<Rightarrow> m | Inl e \<Rightarrow> empty_model)\<rparr>"

definition deny_all :: gatekeeper where
  "deny_all = desk_gate\<lparr>gk_authorizer := Some (localAuthorizer ((open_options 1)\<lparr>lo_policies := []\<rparr>))\<rparr>"

definition folder_row :: "string \<Rightarrow> string \<times> obj" where
  "folder_row i = (i, [(''title'', JStr i), (''parent'', JNull), (''id'', JStr i)])"

definition two_folders :: world where
  "two_folders = \<lparr>wo_store = memory_new\<lparr>me_tables := [(key2 ''t1'' ''folders'', [folder_row ''a'', folder_row ''b''])]\<rparr>,
     wo_gate = deny_all, wo_tick = 0\<rparr>"

definition plain_linked :: linked where
  "plain_linked = \<lparr>li_feature = (\<lambda>f. None), li_function = (\<lambda>f. None), li_readModel = (\<lambda>f. None),
     li_blob = (\<lambda>k r body ctx. eff_fail (err ''MethodNotAllowed''))\<rparr>"

definition run_folder :: "string \<Rightarrow> obj \<Rightarrow> jsval res \<times> world" where
  "run_folder k body = program folder_env plain_linked (''folders.'' @ k) (JObj body) (desk_ctx\<lparr>cx_idempotencyKey := None\<rparr>) two_folders"

text \<open>
  The \<open>move\<close> of a hierarchy is not authorized: under an authorizer that denies every request, the
  update that sets a parent is refused and changes nothing, while the move to the same parent commits.
\<close>

theorem move_skips_authorization:
  "(case run_folder ''update'' [(''id'', JStr ''a''), (''patch'', JObj [(''parent'', JStr ''b'')])] of
     (Inl e, w1) \<Rightarrow> e = err ''NotFound'' \<and> me_tables (wo_store w1) = me_tables (wo_store two_folders) | (Inr v, w1) \<Rightarrow> False) \<and>
   (case run_folder ''move'' [(''id'', JStr ''a''), (''parent'', JStr ''b'')] of
     (Inr v, w2) \<Rightarrow> map_option (\<lambda>x. oget x ''parent'') (mem_get (wo_store w2) ''t1'' folder_resource ''a'') = Some (JStr ''b'')
   | (Inl e, w2) \<Rightarrow> False)"
  by (rule conjI; code_simp)

end
