(* ===== verification/Codec_Properties.thy ===== *)
theory Codec_Properties
  imports Codecs_Time
begin

text \<open>
  The properties of the boundary codecs: identity keys and decimals round-trip, sort keys order
  like the values they stand for, and canonical instants are fixed points.
\<close>

text \<open>
  An identity key reads back as its components, so different component lists never share a key
  (whatever characters they hold, the separator and the escape included).
\<close>

theorem identity_key_roundtrip:
  assumes "cs \<noteq> []"
  shows "decodeIdentity (encodeIdentity cs) = cs \<and> (\<forall>ds. ds \<noteq> [] \<and> encodeIdentity cs = encodeIdentity ds \<longrightarrow> cs = ds)"
  using identity_roundtrip [OF assms] encodeIdentity_inj [OF assms] by blast

theorem identity_key_roundtrip_witness:
  "decodeIdentity (encodeIdentity [''a#b'', [BS], '''']) = [''a#b'', [BS], '''']"
  using identity_key_roundtrip [of "[''a#b'', [BS], '''']"] by simp

text \<open>
  Decoding a decimal is canonical. What \<open>decodeDecimal\<close> returns is accepted again unchanged
  under the same options, and its minor units are a safe integer that formats back to it.
\<close>

theorem decimal_canonical:
  assumes "decodeDecimal input so cur mn mx = Inr s"
  shows "decodeDecimal (JStr s) so cur mn mx = Inr s \<and>
    (\<exists>sc x. safe_int x \<and> toMinor s sc = Inr x \<and> formatMinor x sc = s)"
proof -
  from decodeDecimal_InrD [OF assms] obtain sc x where
    sc: "(case cur of Some c \<Rightarrow> currencyScale c | None \<Rightarrow> Inr (case so of None \<Rightarrow> 2 | Some n \<Rightarrow> n)) = Inr sc"
    and x: "s = formatMinor x sc" "safe_int x" "check_bound (<) x mn sc = Inr ()" "check_bound (>) x mx sc = Inr ()"
    by blast
  obtain ip frac where p: "match_decimal s = Some (x < 0, ip, frac)" "length frac = sc" "minor_of (x < 0) ip frac sc = x"
    using formatMinor_match [of x sc] x(1) by auto
  have "decodeDecimal (JStr s) so cur mn mx = Inr s"
    using sc p x by (simp add: decodeDecimal_def Let_def)
  moreover have "toMinor s sc = Inr x" unfolding x(1) by (rule toMinor_formatMinor)
  ultimately show ?thesis using x(1,2) by blast
qed

theorem decimal_canonical_witness:
  "decodeDecimal (JStr ''-007.5'') (Some 2) None None None = Inr ''-7.50'' \<and>
   decodeDecimal (JStr ''-7.50'') (Some 2) None None None = Inr ''-7.50''"
proof -
  have "decodeDecimal (JStr ''-007.5'') (Some 2) None None None = Inr ''-7.50''" by code_simp
  with decimal_canonical [OF this] show ?thesis by blast
qed

text \<open>
  C36: sort keys of decimals order like the amounts, byte by byte: for two decimals whose minor units
  are safe integers, comparing the encoded keys compares the amounts (equal keys, equal amounts).
\<close>

theorem decimal_sort_keys_ordered:
  assumes "toMinor a sc = Inr x" "toMinor b sc = Inr y" "safe_int x" "safe_int y"
  shows "\<exists>ka kb. sortKey (JStr a) ''decimal'' (Some sc) = Inr ka \<and> sortKey (JStr b) ''decimal'' (Some sc) = Inr kb \<and>
    (compareBytes ka kb < 0 \<longleftrightarrow> x < y) \<and> (compareBytes ka kb = 0 \<longleftrightarrow> x = y)"
  using assms hex_key_order [of x y] compareBytes_sgn [of "hex_key x" "hex_key y"] safe_int_key_range
  by (simp add: sortKey_def nullish_def)

theorem decimal_sort_keys_ordered_witness:
  "\<exists>ka kb. sortKey (JStr ''-2.50'') ''decimal'' (Some 2) = Inr ka \<and> sortKey (JStr ''1'') ''decimal'' (Some 2) = Inr kb \<and>
     compareBytes ka kb < 0"
proof -
  have "toMinor ''-2.50'' 2 = Inr (- 250)" "toMinor ''1'' 2 = Inr 100" "safe_int (- 250)" "safe_int 100" by code_simp+
  from decimal_sort_keys_ordered [OF this] show ?thesis by auto
qed

text \<open>
  A canonical instant is a fixed point: the ISO text of any millisecond of the years 100 to 9999
  decodes to itself, and reading it back gives the millisecond.
\<close>

theorem canonical_instant_fixed:
  assumes "iso_range t"
  shows "decodeDatetime (JStr (to_iso t)) PrecMs = Inr (to_iso t) \<and> date_parse other (to_iso t) = Some t"
  using decodeDatetime_iso [OF assms] date_parse_iso [OF assms] by blast

theorem canonical_instant_fixed_witness:
  "decodeDatetime (JStr (to_iso 951782400123)) PrecMs = Inr (to_iso 951782400123) \<and>
   to_iso 951782400123 = ''2000-02-29T00:00:00.123Z''"
proof -
  have "iso_range 951782400123" "to_iso 951782400123 = ''2000-02-29T00:00:00.123Z''" by code_simp+
  with canonical_instant_fixed [of 951782400123] show ?thesis by blast
qed

text \<open>
  A local date is accepted exactly when it names a day of the proleptic Gregorian calendar, and
  is returned unchanged.
\<close>

theorem decodeDate_calendar:
  "decodeDate (JStr s) = Inr s' \<longleftrightarrow> s' = s \<and>
     (\<exists>y m d. match_ymd s = Some (y, m, d) \<and> valid_date (int (read_nat y)) (int (read_nat m)) (int (read_nat d)))"
  by (auto simp: decodeDate_def codec_fail_def validYmd_valid_date split: option.splits prod.splits if_splits)

end
