(* ===== verification/Spec2Isabelle.thy ===== *)
theory Spec2Isabelle
  imports Rollout_Properties Workflow_Properties Cron_Properties Csv_Properties Changeset_Properties Delivery_Properties Actor_Properties Work_Properties Transaction_Properties Engine_Properties Access_Properties Storage_Properties Codec_Properties Decode_Correct Errors
begin

text \<open>
  A model of the runtime of forge (\<open>packages/runtime/src\<close>, with the execution requirements of
  \<open>packages/contracts/capability-manifest\<close>): the engine that turns operations on declared resources into
  commit plans, the storage it commits them to, and the services built on both. The compiler that makes the
  bundles, the provider adapters and the user interfaces are outside.

  Parts and theories, in the order of their imports.

  \<^item> \<open>Forge_Prelude\<close>: errors as values (\<open>exn\<close>, with \<open>forge_error\<close> for ForgeError, \<open>CodecError\<close>, and
    \<open>JsError\<close> for what plain JavaScript throws), results \<open>exn + 'a\<close>, ordered maps (\<open>mput\<close>, \<open>mdel\<close>) for objects
    and Maps, lists. \<open>Js_Text\<close>, \<open>Js_Value\<close>, \<open>Js_Date\<close>: the parts of the language the source uses: text with
    code points up to 255, values (\<open>jsval\<close>, an object is an association list \<open>obj\<close>), JSON and stable JSON text,
    the civil calendar.
  \<^item> \<open>Codecs\<close>, \<open>Codecs_Time\<close> (codecs.ts), \<open>Errors\<close> (errors.ts), \<open>Model\<close> (model.ts), \<open>Decode\<close>, \<open>Decode_Correct\<close>
    (decode.ts): boundary codecs, problem bodies, the compiled model, decoding of input against field types,
    the expression interpreter and canonical output. \<open>Codec_Properties\<close> holds round trips and sort-key order;
    decoded values are well typed, only declared fields are written, secrets never leave.
  \<^item> \<open>Services\<close> (services.ts), \<open>Memory\<close> (adapters/memory.ts, atomic-guards.ts): the data exchanged with storage
    adapters and the reference adapter, every guard of a commit included. \<open>memory\<close> is the state of
    MemoryStorage; a commit is \<open>mem_commit\<close>, several are \<open>commitAll\<close>. \<open>Memory_Correct\<close> and \<open>Memory_Invariants\<close>
    prove rollback, receipts, leases, listing, claims, hierarchy and intervals; \<open>Storage_Properties\<close> states them.
  \<^item> \<open>Temporal\<close>, \<open>Claims\<close> (temporal.ts and the key of a unique declaration), \<open>Scope\<close> (scope.ts), \<open>Gatekeeper\<close>
    (gatekeeper.ts), \<open>Suppression\<close> (suppression.ts), \<open>Json\<close> and \<open>Cursor\<close> (cursor.ts).
  \<^item> \<open>Effects\<close>: an effect of the engine is a function on the \<open>world\<close> (store, gatekeeper, number of effects so
    far). The environment \<open>env\<close> answers the clock, ids, digests and sealing, and \<open>en_others\<close> says what concurrent
    callers do to the store before each storage operation of the call; storage operations themselves are atomic,
    as the methods of MemoryStorage are. The locale \<open>frame\<close> collects what an effect may do to the world, and is
    interpreted for reading, planning, protocol steps and quiet steps.
  \<^item> \<open>Engine_Plan\<close>, \<open>Engine\<close>, \<open>Engine_Call\<close>, \<open>Engine_Atomic\<close> (engine.ts, oauth-operation.ts, api-publication.ts):
    planning of each mutation kind (\<open>planFor\<close>), authorization (\<open>authorizedPlan\<close>), idempotency
    (\<open>withIdempotency\<close>), reads, dispatch (\<open>operation\<close>, \<open>scopedOperation\<close>, \<open>program\<close>, \<open>call\<close>) and atomic composition.
    \<open>Engine_Correct\<close>, \<open>Engine_Sequences\<close>, \<open>Engine_Reads\<close>, \<open>Engine_Atomic_Correct\<close> hold the lemmas, \<open>Engine_Sample\<close> a
    small application for the witnesses, \<open>Engine_Properties\<close> and \<open>Access_Properties\<close> the properties.
  \<^item> \<open>Transaction\<close> (transaction.ts): reads through a view with a read set, staging, lowering. \<open>Transaction_Correct\<close>
    proves that a committed body saw one store (\<open>run_spec\<close> is the abstract specification),
    \<open>Transaction_Lowering\<close> that folding and ordering keep the writes.
  \<^item> \<open>Documents\<close>: the compare-and-swap loop that work queues and actors share; a call that returns took effect in
    one instant. \<open>Execution\<close> (execution.ts of the manifest contract), \<open>Work_Queue\<close> (work-queues.ts), \<open>Actor\<close>
    (actors.ts), \<open>Delivery\<close> (dispatch.ts, subscription-delivery.ts) with their theories of lemmas and properties.
  \<^item> \<open>Changeset\<close> (changeset.ts): documents, preview, approval, atomic and resumable commit. \<open>Changeset_Correct\<close> has
    triples over the store, for assertions that survive the steps of other callers; a sound document is \<open>cs_sound\<close>.
  \<^item> \<open>Workflow_Graph\<close>, \<open>Workflow\<close> (workflows.ts): the compiler of step graphs, related to the nested steps by
    \<open>follows\<close>, and the executor. An instance is a document saved under the version it was read at; \<open>advance\<close>
    runs it until it blocks. \<open>Engine_Keeping\<close> shows that calls of the engine, which activities are, leave
    documents of other kinds alone; \<open>Workflow_Evolves\<close> says what an instance may become (\<open>evolves\<close>),
    \<open>Workflow_Correct\<close> that every operation keeps to it, \<open>Workflow_Properties\<close> states the properties.
    \<open>Triples\<close> holds the rules for assertions, the locale of \<open>Store_Frame\<close> the frame and the triples of a component
    whose documents keep an invariant and move along a preorder; workflows and rollouts interpret it.
    \<open>Members\<close> has the lemmas on the members of the objects that records are stored as.
  \<^item> \<open>Rollout\<close> (deployment-ledger.ts): rollouts with leases and fencing tokens. \<open>Rollout_Machine\<close> is the abstract
    machine, an inductive step relation whose moves are labelled with the token they are made under;
    \<open>Rollout_Correct\<close> shows that the operations of the ledger refine it, \<open>Rollout_Properties\<close> states the properties.
  \<^item> \<open>Csv\<close> (csv.ts) and \<open>Cron\<close> (schedules.ts): the parser of tables, cron expressions and the next occurrence.

  Interaction. A call goes through \<open>call\<close>, \<open>program\<close> and \<open>operation\<close>; a mutation is planned, authorized and committed
  with its outbox rows and its receipt in one commit. The dispatcher sweeps the outbox and delivers to
  subscriptions under leases; consumers record deliveries as documents. Transactions, atomic calls and changesets
  all hand their plans to \<open>commitAll\<close>. Queues, actors, deliveries and changesets keep their state in documents with
  versions.

  Bounds and fuel. JSON is read with fuel \<open>2 * length + 2\<close>, enough for every text (\<open>json_parse_text\<close> for printed
  values). Sequences, queues and actors try 64 times, as the code does, and then fail with TransientConflict. A
  snapshot reads at most 64 pages, or 4096 rows; a view holds at most 32 reads. The traversal of execution
  requirements visits at most 4096 nodes; identities nest at most 13 levels; documents of queues and actors have
  at most 256 KiB; pages at most 100 records; an atomic changeset at most 10 operations. An advance of
  a workflow takes at most 10000 transitions and loses at most 49 races; a map runs in waves of at most 32 items. The search for an
  occurrence looks at 1464 days. The CSV loops have no bound in the model: they are \<open>partial_function\<close>s, and
  \<open>parseCsv_returns\<close> proves that they end.

  Assumptions. Where a property depends on other callers it says what they respect: they keep receipts, give changed
  documents newer versions, or keep the invariant in question. Tenants contain no bar (\<open>plain_text\<close>), because
  MemoryStorage joins its keys with bars. Digests, keyed hashes, sealing, regular expressions, floating-point
  arithmetic and the zone database are parameters.

  Not modelled. Characters above Latin-1 and Unicode normalization; the free text of errors; telemetry and
  wakeups, whose failures the source swallows; the SQL and DynamoDB adapters, HTTP hosts and clients, object storage
  and artifact workspaces (I/O against services); the drivers
  of workflows, functions, read models, imports, portability export and
  import, governance, realtime, the ledger of schedules (candidates for further work); the
  compiler and planner in Rust, and the console, React client, linkers and registry.
\<close>

end
